(* ===== verification/Prelude.thy ===== *)
theory Prelude
  imports
    Main
    "HOL-Library.Word"
    "HOL-Library.Char_ord"
    "HOL-Library.List_Lexorder"
    "HOL-Library.Product_Lexorder"
begin

text \<open>
  Shared vocabulary of the development: the names of the machine types, the collections of
  rewrite rules the component theories add to, generic facts on lists, options and words, and
  two interfaces used by several components: a state machine with an invariant
  (\<open>invariant_machine\<close>) and a container with a capacity (\<open>bounded_store\<close>).

  Rust strings are compared bytewise; \<^typ>\<open>string\<close> with the orders of \<open>Char_ord\<close> and
  \<open>List_Lexorder\<close> is that order. A fallible operation returns \<open>'e + 'a\<close>, with \<open>Inl\<close> for the
  error.
\<close>

type_synonym u8 = "8 word"
type_synonym u32 = "32 word"
type_synonym u64 = "64 word"

text \<open>
  An instant of \<open>chrono::DateTime<Utc>\<close>: nanoseconds since 0000-01-01T00:00:00Z. Only equality,
  order and the addition of a non-negative duration are used on instants.
\<close>

type_synonym instant = nat

named_theorems hlc_simps \<open>equations of the hybrid logical clock\<close>
named_theorems consent_simps \<open>equations of the consent manager\<close>
named_theorems task_simps \<open>equations of the task store\<close>
named_theorems queue_simps \<open>equations of the suggestion containers\<close>

subsection \<open>Words\<close>

lemma unat_inc:
  fixes c :: "'a::len word"
  assumes "c \<noteq> - 1"
  shows "unat (c + 1) = unat c + 1"
proof -
  have "c + 1 \<noteq> 0"
    using assms by (metis add_eq_0_iff minus_equation_iff)
  then show ?thesis
    by (metis Suc_eq_plus1 add.commute unatSuc)
qed

lemma word_inc_less:
  fixes c :: "'a::len word"
  assumes "c \<noteq> - 1"
  shows "c < c + 1"
  using unat_inc [OF assms] by (simp add: word_less_nat_alt)

lemma unat_add_fits:
  fixes a b :: "'a::len word"
  assumes "unat a + unat b < 2 ^ LENGTH('a)"
  shows "unat (a + b) = unat a + unat b"
  using assms by (simp add: unat_word_ariths)

text \<open>Rust's \<open>saturating_add\<close> on an unsigned type.\<close>

definition saturating_add :: "'a::len word \<Rightarrow> 'a word \<Rightarrow> 'a word" where
  "saturating_add a b = (if unat a + unat b < 2 ^ LENGTH('a) then a + b else - 1)"

lemma saturating_add_eq:
  fixes a b :: "'a::len word"
  shows "unat (saturating_add a b) = min (unat a + unat b) (2 ^ LENGTH('a) - 1)"
  by (auto simp: saturating_add_def unat_add_fits unsigned_minus_1_eq_mask mask_eq_exp_minus_1)

subsection \<open>Lists\<close>

lemma distinct_map_filter_inj [simp]:
  "distinct (map f xs) \<Longrightarrow> distinct (map f (filter P xs))"
  by (rule distinct_map_filter)

lemma length_filter_removes:
  assumes "x \<in> set xs" and "\<not> P x"
  shows "length (filter P xs) < length xs"
  using assms by (rule length_filter_less)

lemma find_SomeD:
  assumes "List.find P xs = Some x"
  shows "x \<in> set xs \<and> P x"
  using assms by (auto simp: find_Some_iff)

lemma find_NoneD:
  assumes "List.find P xs = None" and "x \<in> set xs"
  shows "\<not> P x"
  using assms by (auto simp: find_None_iff)

text \<open>With a unique key, looking a row up by its key finds that row.\<close>

lemma find_unique_key:
  assumes "distinct (map key xs)" and "x \<in> set xs"
  shows "List.find (\<lambda>y. key y = key x) xs = Some x"
  using assms
proof (induction xs)
  case Nil
  then show ?case by simp
next
  case (Cons a xs)
  then show ?case by (auto simp: image_iff)
qed

lemma find_key_None: "v \<notin> key ` set xs \<Longrightarrow> List.find (\<lambda>x. key x = v) xs = None"
  by (auto simp: find_None_iff)

lemma distinct_key_eq:
  assumes "distinct (map key xs)" and "x \<in> set xs" and "y \<in> set xs" and "key x = key y"
  shows "x = y"
  using assms by (meson distinct_map inj_onD)

text \<open>Rewriting the rows of a table in place keeps a key that the rewriting does not touch.\<close>

lemma map_update_key [simp]:
  assumes "\<And>x. key (f x) = key x"
  shows "map key (map (\<lambda>x. if P x then f x else x) xs) = map key xs"
  using assms by simp

lemma map_update_key_comp [simp]:
  assumes "\<And>x. key (f x) = key x"
  shows "map (key \<circ> (\<lambda>x. if P x then f x else x)) xs = map key xs"
  using assms by simp

lemma image_update_key:
  assumes "\<And>x. key (f x) = key x"
  shows "key ` (\<lambda>x. if P x then f x else x) ` A = key ` A"
  unfolding image_image by (rule image_cong) (simp_all add: assms)

lemma find_map_update:
  assumes "\<And>x. key (f x) = key x"
  shows "List.find (\<lambda>x. key x = k) (map (\<lambda>x. if P x then f x else x) xs) =
    map_option (\<lambda>x. if P x then f x else x) (List.find (\<lambda>x. key x = k) xs)"
  using assms by (induction xs) auto

lemma find_append:
  "List.find P (xs @ ys) = (case List.find P xs of None \<Rightarrow> List.find P ys | Some x \<Rightarrow> Some x)"
  by (induction xs) auto

lemma find_filter_other:
  assumes "\<And>x. P x \<Longrightarrow> Q x"
  shows "List.find P (filter Q xs) = List.find P xs"
  using assms by (induction xs) auto

subsection \<open>Bytes and strings\<close>

text \<open>The last \<open>k\<close> bytes of a number, the most significant one first (\<open>to_be_bytes\<close>).\<close>

definition be_digits :: "nat \<Rightarrow> nat \<Rightarrow> string" where
  "be_digits k n = map (\<lambda>i. char_of (n div 256 ^ i)) (rev [0..<k])"

lemma digits_determine:
  fixes n m :: nat
  assumes "\<forall>k < j. n div 256 ^ k mod 256 = m div 256 ^ k mod 256"
    and "n < 256 ^ j" and "m < 256 ^ j"
  shows "n = m"
  using assms
proof (induction j arbitrary: n m)
  case 0
  then show ?case by simp
next
  case (Suc j)
  have "n div 256 = m div 256"
  proof (rule Suc.IH)
    show "\<forall>k < j. n div 256 div 256 ^ k mod 256 = m div 256 div 256 ^ k mod 256"
    proof (intro allI impI)
      fix k assume "k < j"
      then show "n div 256 div 256 ^ k mod 256 = m div 256 div 256 ^ k mod 256"
        using Suc.prems(1) [rule_format, of "Suc k"] by (simp add: div_mult2_eq)
    qed
    show "n div 256 < 256 ^ j" "m div 256 < 256 ^ j"
      using Suc.prems(2,3) by (simp_all add: less_mult_imp_div_less mult.commute)
  qed
  moreover have "n mod 256 = m mod 256" using Suc.prems(1) [rule_format, of 0] by simp
  ultimately show ?case by (metis div_mult_mod_eq)
qed

lemma char_of_eq_mod: "(char_of a :: char) = char_of b \<Longrightarrow> a mod 256 = (b mod 256 :: nat)"
  by (metis of_char_of)

lemma length_be_digits [simp]: "length (be_digits k n) = k"
  by (simp add: be_digits_def)

lemma be_digits_inj:
  assumes "be_digits k n = be_digits k m" and "n < 256 ^ k" and "m < 256 ^ k"
  shows "n = m"
proof (rule digits_determine [OF _ assms(2,3)], intro allI impI)
  fix i assume "i < k"
  then have "(char_of (n div 256 ^ i) :: char) = char_of (m div 256 ^ i)"
    using assms(1) by (simp add: be_digits_def)
  then show "n div 256 ^ i mod 256 = m div 256 ^ i mod 256" by (rule char_of_eq_mod)
qed

text \<open>\<open>str::trim\<close> on the bytes of a string, for the ASCII white space.\<close>

definition is_space :: "char \<Rightarrow> bool" where
  "is_space c \<longleftrightarrow> c \<in> {CHR '' '', CHR 0x09, CHR 0x0A, CHR 0x0B, CHR 0x0C, CHR 0x0D}"

definition trim :: "string \<Rightarrow> string" where
  "trim v = rev (dropWhile is_space (rev (dropWhile is_space v)))"

text \<open>\<open>str::split(c)\<close>: never empty, and joining the parts gives the string back.\<close>

fun split_on :: "char \<Rightarrow> string \<Rightarrow> string list" where
  "split_on c [] = [[]]"
| "split_on c (x # xs) =
     (if x = c then [] # split_on c xs
      else (case split_on c xs of [] \<Rightarrow> [[x]] | p # ps \<Rightarrow> (x # p) # ps))"

lemma split_on_Nil [simp]: "split_on c s \<noteq> []"
  by (induction s) (auto split: list.splits)

lemma split_on_plain: "c \<notin> set s \<Longrightarrow> split_on c s = [s]"
  by (induction s) auto

lemma split_on_append:
  assumes "c \<notin> set s"
  shows "split_on c (s @ c # t) = s # split_on c t"
  using assms by (induction s) auto

lemma trim_Nil [simp]: "trim [] = []"
  by (simp add: trim_def)

lemma trim_space: "is_space c \<Longrightarrow> trim (c # s) = trim s"
  by (simp add: trim_def)

text \<open>A string whose first and last characters are not white space is its own trim.\<close>

lemma trim_solid:
  assumes "s = [] \<or> \<not> is_space (hd s) \<and> \<not> is_space (last s)"
  shows "trim s = s"
proof (cases s)
  case Nil
  then show ?thesis by simp
next
  case (Cons x xs)
  have "dropWhile is_space s = s" using assms Cons by simp
  moreover have "dropWhile is_space (rev s) = rev s"
    using assms Cons by (cases "rev s") (auto simp: hd_rev [symmetric])
  ultimately show ?thesis by (simp add: trim_def)
qed

lemma trim_free: "list_all (Not \<circ> is_space) s \<Longrightarrow> trim s = s"
  by (rule trim_solid) (cases s, auto simp: list_all_iff)

subsection \<open>Shared atomic cells\<close>

text \<open>
  An \<open>Arc<AtomicBool>\<close> is an address into a heap of boolean cells: two components that hold the
  same \<open>Arc\<close> hold the same address. \<open>alloc_cell\<close> is \<open>Arc::new(AtomicBool::new(b))\<close>.
\<close>

type_synonym cells = "bool list"
type_synonym addr = nat

definition load_cell :: "cells \<Rightarrow> addr \<Rightarrow> bool" where
  "load_cell h a \<longleftrightarrow> a < length h \<and> h ! a"

definition store_cell :: "cells \<Rightarrow> addr \<Rightarrow> bool \<Rightarrow> cells" where
  "store_cell h a b = h[a := b]"

definition alloc_cell :: "cells \<Rightarrow> bool \<Rightarrow> addr \<times> cells" where
  "alloc_cell h b = (length h, h @ [b])"

lemma length_store_cell [simp]: "length (store_cell h a b) = length h"
  by (simp add: store_cell_def)

lemma load_store_same [simp]: "a < length h \<Longrightarrow> load_cell (store_cell h a b) a = b"
  by (simp add: load_cell_def store_cell_def)

lemma load_store_other [simp]:
  "a \<noteq> a' \<Longrightarrow> load_cell (store_cell h a b) a' = load_cell h a'"
  by (simp add: load_cell_def store_cell_def)

lemma load_alloc:
  assumes "alloc_cell h b = (a, h')"
  shows "load_cell h' a' = (if a' = a then b else load_cell h a')"
    and "a = length h" and "length h' = Suc (length h)"
  using assms by (auto simp: alloc_cell_def load_cell_def nth_append)

subsection \<open>Machines with an invariant\<close>

text \<open>
  A component is a step function on its state; the contract is that every operation keeps the
  invariant. The client facts lift this to sequences of operations, which is how the callers
  use the component.
\<close>

locale guarded_machine =
  fixes step :: "'s \<Rightarrow> 'o \<Rightarrow> 's"
    and inv :: "'s \<Rightarrow> bool"
    and ok :: "'o \<Rightarrow> bool"
  assumes guarded_step_inv: "inv s \<Longrightarrow> ok x \<Longrightarrow> inv (step s x)"
begin

lemma guarded_run_inv: "inv s \<Longrightarrow> list_all ok xs \<Longrightarrow> inv (foldl step s xs)"
  by (induction xs arbitrary: s) (auto intro: guarded_step_inv)

end

text \<open>The case where every operation is allowed.\<close>

locale invariant_machine =
  fixes step :: "'s \<Rightarrow> 'o \<Rightarrow> 's"
    and inv :: "'s \<Rightarrow> bool"
  assumes step_inv: "inv s \<Longrightarrow> inv (step s x)"

sublocale invariant_machine \<subseteq> all_ops: guarded_machine step inv "\<lambda>_. True"
  by unfold_locales (rule step_inv)

context invariant_machine
begin

lemma run_inv: "inv s \<Longrightarrow> inv (foldl step s xs)"
  by (rule all_ops.guarded_run_inv) (simp_all add: list.pred_True)

end

text \<open>A container with a capacity: the invariant bounds the size and no operation moves the bound.\<close>

locale bounded_store = invariant_machine step inv
  for step :: "'s \<Rightarrow> 'o \<Rightarrow> 's" and inv :: "'s \<Rightarrow> bool" +
  fixes size_of :: "'s \<Rightarrow> nat"
    and capacity :: "'s \<Rightarrow> nat"
  assumes inv_bound: "inv s \<Longrightarrow> size_of s \<le> capacity s"
    and capacity_step: "capacity (step s x) = capacity s"
begin

lemma run_capacity: "capacity (foldl step s xs) = capacity s"
  by (induction xs arbitrary: s) (auto simp: capacity_step)

lemma run_bounded:
  assumes "inv s"
  shows "size_of (foldl step s xs) \<le> capacity s"
  using inv_bound [OF run_inv [OF assms]] by (simp add: run_capacity)

end

text \<open>The values read along a run, and the runs in which every step is enabled.\<close>

fun readings :: "('s \<Rightarrow> 'o \<Rightarrow> 's) \<Rightarrow> ('s \<Rightarrow> 'k) \<Rightarrow> 's \<Rightarrow> 'o list \<Rightarrow> 'k list" where
  "readings step reading s [] = [reading s]"
| "readings step reading s (x # xs) = reading s # readings step reading (step s x) xs"

fun enabled_run :: "('s \<Rightarrow> 'o \<Rightarrow> 's) \<Rightarrow> ('s \<Rightarrow> 'o \<Rightarrow> bool) \<Rightarrow> 's \<Rightarrow> 'o list \<Rightarrow> bool" where
  "enabled_run step enabled s [] = True"
| "enabled_run step enabled s (x # xs) =
     (enabled s x \<and> enabled_run step enabled (step s x) xs)"

text \<open>
  A clock: every enabled step moves a reading strictly up, so the readings along a run are
  strictly sorted and no reading is issued twice.
\<close>

locale strict_clock =
  fixes step :: "'s \<Rightarrow> 'o \<Rightarrow> 's"
    and enabled :: "'s \<Rightarrow> 'o \<Rightarrow> bool"
    and reading :: "'s \<Rightarrow> 'k::linorder"
  assumes step_less: "enabled s x \<Longrightarrow> reading s < reading (step s x)"
begin

lemma readings_above:
  "enabled_run step enabled s xs \<Longrightarrow> k \<in> set (readings step reading s xs) \<Longrightarrow> reading s \<le> k"
proof (induction xs arbitrary: s)
  case Nil
  then show ?case by simp
next
  case (Cons x xs)
  then show ?case by (fastforce dest: step_less)
qed

lemma readings_sorted:
  "enabled_run step enabled s xs \<Longrightarrow> sorted_wrt (<) (readings step reading s xs)"
proof (induction xs arbitrary: s)
  case Nil
  then show ?case by simp
next
  case (Cons x xs)
  then show ?case by (fastforce dest: step_less readings_above)
qed

end

end
