(* ===== verification/Guarded_Connection.thy ===== *)
theory Guarded_Connection
  imports Prelude
begin

text \<open>
  The write funnel to the one SQLite connection: \<open>GuardedConnection\<close> of
  \<open>crates/maekon-storage/src/sqlite/guarded_connection.rs\<close>, the async funnels of
  \<open>crates/maekon-storage/src/sqlite/mod.rs\<close> and the same barrier in front of the frame files,
  \<open>crates/maekon-storage/src/frame_storage/\<close>.

  The connection is a value \<open>'db\<close>, and a closure run on it a function to a result and the new
  value. The mutex serialises closures, so each call is one step. What a call does on a set flag
  is the contract \<open>write_barrier\<close>, interpreted for both stores.
\<close>

subsection \<open>The barrier\<close>

locale write_barrier =
  fixes blocked :: "'w \<Rightarrow> bool"
    and put :: "'w \<Rightarrow> 'o \<Rightarrow> 'w"
    and content :: "'w \<Rightarrow> 'd"
  assumes blocked_content: "blocked w \<Longrightarrow> content (put w x) = content w"
    and blocked_stays: "blocked (put w x) = blocked w"
begin

lemma run_blocked: "blocked (foldl put w xs) = blocked w"
  by (induction xs arbitrary: w) (auto simp: blocked_stays)

lemma run_content: "blocked w \<Longrightarrow> content (foldl put w xs) = content w"
  by (induction xs arbitrary: w) (auto simp: blocked_stays blocked_content)

end

subsection \<open>The guarded connection\<close>

record 'db GuardedConnection =
  conn :: 'db
  gc_deletion_flag :: addr
  gc_erasing :: addr

definition guarded_new :: "cells \<Rightarrow> 'db \<Rightarrow> addr \<Rightarrow> 'db GuardedConnection \<times> cells" where
  "guarded_new h db flag =
     (let (e, h') = alloc_cell h False
      in (\<lparr>conn = db, gc_deletion_flag = flag, gc_erasing = e\<rparr>, h'))"

definition new_unflagged :: "cells \<Rightarrow> 'db \<Rightarrow> 'db GuardedConnection \<times> cells" where
  "new_unflagged h db = (let (flag, h') = alloc_cell h False in guarded_new h' db flag)"

definition set_deletion_flag :: "addr \<Rightarrow> 'db GuardedConnection \<Rightarrow> 'db GuardedConnection" where
  "set_deletion_flag flag g = g\<lparr>gc_deletion_flag := flag\<rparr>"

definition set_erasing :: "addr \<Rightarrow> 'db GuardedConnection \<Rightarrow> 'db GuardedConnection" where
  "set_erasing e g = g\<lparr>gc_erasing := e\<rparr>"

datatype 'db WriteGuard = Active 'db | Skipped

definition write_lock :: "cells \<Rightarrow> 'db GuardedConnection \<Rightarrow> 'db WriteGuard" where
  "write_lock h g =
     (if load_cell h (gc_deletion_flag g) \<or> load_cell h (gc_erasing g)
      then Skipped else Active (conn g))"

definition is_skipped :: "'db WriteGuard \<Rightarrow> bool" where
  "is_skipped wg = (case wg of Active db \<Rightarrow> False | Skipped \<Rightarrow> True)"

text \<open>\<open>WriteGuard::run\<close> and \<open>run_mut\<close>: a skipped guard does not run the closure.\<close>

definition guard_run ::
  "'db GuardedConnection \<Rightarrow> 'db WriteGuard \<Rightarrow> 't \<Rightarrow> ('db \<Rightarrow> ('e + 't) \<times> 'db)
    \<Rightarrow> ('e + 't) \<times> 'db GuardedConnection" where
  "guard_run g wg skipped f =
     (case wg of
        Active db \<Rightarrow> (let (res, db') = f db in (res, g\<lparr>conn := db'\<rparr>))
      | Skipped \<Rightarrow> (Inr skipped, g))"

text \<open>\<open>retained_write_lock\<close> and \<open>lock_for_erase\<close>: no flag is read, the closure always runs.\<close>

definition retained_run ::
  "'db GuardedConnection \<Rightarrow> ('db \<Rightarrow> ('e + 't) \<times> 'db) \<Rightarrow> ('e + 't) \<times> 'db GuardedConnection" where
  "retained_run g f = (let (res, db') = f (conn g) in (res, g\<lparr>conn := db'\<rparr>))"

definition read_run :: "'db GuardedConnection \<Rightarrow> ('db \<Rightarrow> 'e + 't) \<Rightarrow> 'e + 't" where
  "read_run g f = f (conn g)"

subsection \<open>The async funnels\<close>

text \<open>
  The closures run on a blocking thread and are awaited; a closure that panics, which is what the
  join error reports, is not modelled.
\<close>

definition with_conn_skip ::
  "cells \<Rightarrow> 't \<Rightarrow> ('db \<Rightarrow> ('e + 't) \<times> 'db) \<Rightarrow> 'db GuardedConnection
    \<Rightarrow> ('e + 't) \<times> 'db GuardedConnection" where
  "with_conn_skip h skipped f g = guard_run g (write_lock h g) skipped f"

text \<open>\<open>with_conn\<close> and \<open>with_conn_mut\<close>; \<open>dflt\<close> is \<open>T::default()\<close>.\<close>

definition with_conn_mut ::
  "cells \<Rightarrow> 't \<Rightarrow> ('db \<Rightarrow> ('e + 't) \<times> 'db) \<Rightarrow> 'db GuardedConnection
    \<Rightarrow> ('e + 't) \<times> 'db GuardedConnection" where
  "with_conn_mut h dflt f g = guard_run g (write_lock h g) dflt f"

definition with_conn_read :: "('db \<Rightarrow> 'e + 't) \<Rightarrow> 'db GuardedConnection \<Rightarrow> 'e + 't" where
  "with_conn_read f g = read_run g f"

subsection \<open>Frame files\<close>

text \<open>
  The frame tree: the directories under \<open>frames/\<close> with the files of each. \<open>Saved d f\<close> is a save whose
  directory, encryption and write went through; the other outcomes are its errors.
\<close>

record FrameFileStorage =
  frame_dirs :: "(string \<times> string list) list"
  fs_deletion_flag :: addr
  fs_erasing :: addr

datatype StorageError =
    Core string | Sqlite string | StorageIo string | SecretStore string
  | SecretStoreTimeout string | NotFound string string | Encryption string
  | Validation string string | Config string | Internal string

text \<open>The error of a command: built with a code, or converted from a storage or core error.\<close>

datatype IpcError = IpcNew string | IpcFromStorage StorageError | IpcFromCore string

definition DISK_SPACE_CRITICAL_MB :: u64 where
  "DISK_SPACE_CRITICAL_MB = 50"

fun add_frame ::
  "string \<Rightarrow> string \<Rightarrow> (string \<times> string list) list \<Rightarrow> (string \<times> string list) list" where
  "add_frame d f [] = [(d, [f])]"
| "add_frame d f ((d', fs) # ds) = (if d = d' then (d', fs @ [f]) # ds else (d', fs) # add_frame d f ds)"

definition save_frame ::
  "cells \<Rightarrow> u64 \<Rightarrow> StorageError + (string \<times> string) \<Rightarrow> FrameFileStorage
    \<Rightarrow> (StorageError + (string \<times> string) option) \<times> FrameFileStorage" where
  "save_frame h free_mb outcome s =
     (if load_cell h (fs_deletion_flag s) \<or> load_cell h (fs_erasing s) then (Inr None, s)
      else if free_mb < DISK_SPACE_CRITICAL_MB then (Inl (Internal ''disk space critical''), s)
      else case outcome of
             Inl e \<Rightarrow> (Inl e, s)
           | Inr (date, filename) \<Rightarrow>
               (Inr (Some (date, filename)),
                s\<lparr>frame_dirs := add_frame date filename (frame_dirs s)\<rparr>))"

text \<open>The entries that \<open>list_date_dirs\<close> recognises.\<close>

definition is_date_dir :: "string \<Rightarrow> bool" where
  "is_date_dir name \<longleftrightarrow> length name = 10 \<and> name ! 4 = CHR ''-''"

definition list_date_dirs :: "(string \<times> string list) list \<Rightarrow> string list" where
  "list_date_dirs ds = filter is_date_dir (map fst ds)"

text \<open>
  \<open>delete_date_dirs_chunked\<close>: a directory that cannot be removed (\<open>stuck\<close>) is logged and skipped;
  the result counts the files of the removed ones.
\<close>

definition delete_date_dirs_chunked ::
  "(string \<Rightarrow> bool) \<Rightarrow> string list \<Rightarrow> (string \<times> string list) list
    \<Rightarrow> nat \<times> (string \<times> string list) list" where
  "delete_date_dirs_chunked stuck dirs ds =
     (let gone = (\<lambda>(d, fs). d \<in> set dirs \<and> \<not> stuck d)
      in (sum_list (map (length \<circ> snd) (filter gone ds)), filter (Not \<circ> gone) ds))"

definition delete_all_files ::
  "bool \<Rightarrow> (string \<Rightarrow> bool) \<Rightarrow> FrameFileStorage \<Rightarrow> (StorageError + nat) \<times> FrameFileStorage" where
  "delete_all_files list_fails stuck s =
     (if list_fails then (Inl (Internal ''Failed to read frames directory''), s)
      else let dirs = list_date_dirs (frame_dirs s) in
           if dirs = [] then (Inr 0, s)
           else let (n, ds) = delete_date_dirs_chunked stuck dirs (frame_dirs s)
                in (Inr n, s\<lparr>frame_dirs := ds\<rparr>))"

subsection \<open>The contract for both stores\<close>

definition write_blocked :: "cells \<Rightarrow> 'db GuardedConnection \<Rightarrow> bool" where
  "write_blocked h g \<longleftrightarrow> load_cell h (gc_deletion_flag g) \<or> load_cell h (gc_erasing g)"

definition frames_blocked :: "cells \<Rightarrow> FrameFileStorage \<Rightarrow> bool" where
  "frames_blocked h s \<longleftrightarrow> load_cell h (fs_deletion_flag s) \<or> load_cell h (fs_erasing s)"

lemma with_conn_mut_blocked:
  assumes "write_blocked h g"
  shows "with_conn_mut h dflt f g = (Inr dflt, g)"
  using assms by (simp add: with_conn_mut_def guard_run_def write_lock_def write_blocked_def)

lemma with_conn_mut_open:
  assumes "\<not> write_blocked h g"
  shows "with_conn_mut h dflt f g = (fst (f (conn g)), g\<lparr>conn := snd (f (conn g))\<rparr>)"
  using assms
  by (simp add: with_conn_mut_def guard_run_def write_lock_def write_blocked_def split: prod.split)

lemma with_conn_mut_addrs [simp]:
  "gc_deletion_flag (snd (with_conn_mut h dflt f g)) = gc_deletion_flag g"
  "gc_erasing (snd (with_conn_mut h dflt f g)) = gc_erasing g"
  by (auto simp: with_conn_mut_def guard_run_def split: WriteGuard.split prod.split)

lemma save_frame_addrs [simp]:
  "fs_deletion_flag (snd (save_frame h m out s)) = fs_deletion_flag s"
  "fs_erasing (snd (save_frame h m out s)) = fs_erasing s"
  by (auto simp: save_frame_def split: sum.split)

interpretation sqlite_barrier: write_barrier "write_blocked h"
  "\<lambda>g (dflt, f). snd (with_conn_mut h dflt f g)" conn for h
  by unfold_locales (auto simp: with_conn_mut_blocked write_blocked_def split: prod.split)

interpretation frame_barrier: write_barrier "frames_blocked h"
  "\<lambda>s (free_mb, out). snd (save_frame h free_mb out s)" frame_dirs for h
  by unfold_locales (auto simp: frames_blocked_def save_frame_def split: prod.split sum.split)

text \<open> While the erasure flag or the erase window is set, any sequence of writes through the
  funnel leaves the database as it is, and any sequence of frame saves the frame tree; with both
  clear a write runs its closure on the connection.\<close>

theorem barrier_blocks_every_write:
  fixes g :: "'db GuardedConnection" and fs :: "('t \<times> ('db \<Rightarrow> ('e + 't) \<times> 'db)) list"
  assumes "load_cell h (gc_deletion_flag g) \<or> load_cell h (gc_erasing g)"
    and "fs_deletion_flag s = gc_deletion_flag g" and "fs_erasing s = gc_erasing g"
  shows "conn (foldl (\<lambda>g (dflt, f). snd (with_conn_mut h dflt f g)) g fs) = conn g \<and>
    frame_dirs (foldl (\<lambda>s (m, out). snd (save_frame h m out s)) s saves) = frame_dirs s \<and>
    (\<forall>h'. \<not> load_cell h' (gc_deletion_flag g) \<longrightarrow> \<not> load_cell h' (gc_erasing g) \<longrightarrow>
       with_conn_mut h' dflt f g = (fst (f (conn g)), g\<lparr>conn := snd (f (conn g))\<rparr>))"
proof -
  have blocked: "write_blocked h g" "frames_blocked h s"
    using assms by (auto simp: write_blocked_def frames_blocked_def)
  show ?thesis
    using sqlite_barrier.run_content [OF blocked(1), of fs]
      frame_barrier.run_content [OF blocked(2), of saves]
    by (simp add: with_conn_mut_open write_blocked_def)
qed

theorem barrier_blocks_every_write_witness:
  "let h = [False, True];
       g = \<lparr>conn = [1::nat], gc_deletion_flag = 0, gc_erasing = 1\<rparr>;
       s = \<lparr>frame_dirs = [], fs_deletion_flag = 0, fs_erasing = 1\<rparr>
   in conn (foldl (\<lambda>g (dflt, f). snd (with_conn_mut h dflt f g)) g
        [((), \<lambda>xs. (Inr () :: unit + unit, 2 # xs))]) = [1] \<and>
      frame_dirs (foldl (\<lambda>s (m, out). snd (save_frame h m out s)) s
        [(90, Inr (''2026-01-01'', ''a.webp''))]) = []"
  using barrier_blocks_every_write
    [of "[False, True]" "\<lparr>conn = [1::nat], gc_deletion_flag = 0, gc_erasing = 1\<rparr>"
      "\<lparr>frame_dirs = [], fs_deletion_flag = 0, fs_erasing = 1\<rparr>"
      "[((), \<lambda>xs. (Inr () :: unit + unit, 2 # xs))]" "[(90, Inr (''2026-01-01'', ''a.webp''))]"
      "()" "\<lambda>xs. (Inr () :: unit + unit, xs)"]
  by (simp add: Let_def load_cell_def)

end
