(* ===== verification/Audit_Chain.thy ===== *)
theory Audit_Chain
  imports Guarded_Connection
begin

text \<open>
  The tamper-evident audit trail (\<open>crates/maekon-storage/src/audit_chain.rs\<close>, the audit part of
  \<open>sqlite/mod.rs\<close>, \<open>sqlite/durable_audit.rs\<close> and \<open>enforce_audit_retention\<close> of
  \<open>sqlite/edge_intelligence/retention.rs\<close>): the canonical bytes of a record, the hash chain over the
  rows of \<open>audit_log\<close>, appending with and without a synced commit, the verification of the chain and
  the prune of rows older than two years.

  SHA-256 with its hexadecimal rendering (\<open>sha\<close>) and \<open>DateTime::to_rfc3339\<close> (\<open>to_rfc3339\<close>) are
  parameters. Bytes are characters, so a string is its UTF-8 bytes. Numbers and paths inside error
  messages are left out. A failing SQL statement is an argument (\<open>fault\<close>); the statement then
  changed nothing.
\<close>

subsection \<open>Entries\<close>

datatype AuditStatus = AuditStarted | AuditCompleted | AuditFailed | AuditDenied | AuditTimeout

fun status_debug :: "AuditStatus \<Rightarrow> string" where
  "status_debug AuditStarted = ''Started''"
| "status_debug AuditCompleted = ''Completed''"
| "status_debug AuditFailed = ''Failed''"
| "status_debug AuditDenied = ''Denied''"
| "status_debug AuditTimeout = ''Timeout''"

record AuditEntry =
  ae_entry_id :: string
  ae_timestamp :: instant
  ae_session_id :: string
  ae_command_id :: string
  ae_action_type :: string
  ae_status :: AuditStatus
  ae_details :: "string option"
  ae_execution_time_ms :: "u64 option"

record CanonicalRecord =
  cr_entry_id :: string
  cr_timestamp_rfc3339 :: string
  cr_session_id :: string
  cr_command_id :: string
  cr_action_type :: string
  cr_status :: string
  cr_details :: "string option"
  cr_execution_time_ms :: "u64 option"

subsection \<open>Canonical bytes and the entry hash\<close>

definition GENESIS_PREV_HASH :: string where
  "GENESIS_PREV_HASH = replicate 64 (CHR ''0'')"

definition HASH_VERSION :: nat where
  "HASH_VERSION = 1"

text \<open>The \<open>?\<close> operator.\<close>

definition and_then :: "'e + 'a \<Rightarrow> ('a \<Rightarrow> 'e + 'b) \<Rightarrow> 'e + 'b" where
  "and_then x f = (case x of Inl e \<Rightarrow> Inl e | Inr a \<Rightarrow> f a)"

definition push_len_prefix :: "string \<Rightarrow> nat \<Rightarrow> StorageError + string" where
  "push_len_prefix buf len =
     (if len < 2 ^ 32 then Inr (buf @ be_digits 4 len)
      else Inl (Validation ''audit_chain.field'' ''canonical field exceeds u32 length prefix''))"

definition push_str_field :: "string \<Rightarrow> nat \<Rightarrow> string \<Rightarrow> StorageError + string" where
  "push_str_field buf index v =
     and_then (push_len_prefix (buf @ [char_of index]) (length v)) (\<lambda>b. Inr (b @ v))"

definition push_opt_str_field :: "string \<Rightarrow> nat \<Rightarrow> string option \<Rightarrow> StorageError + string" where
  "push_opt_str_field buf index v =
     (case v of
        Some s \<Rightarrow>
          and_then (push_len_prefix (buf @ [char_of index, char_of (1 :: nat)]) (length s))
            (\<lambda>b. Inr (b @ s))
      | None \<Rightarrow> Inr (buf @ [char_of index, char_of (0 :: nat)]))"

definition push_opt_u64_field :: "string \<Rightarrow> nat \<Rightarrow> u64 option \<Rightarrow> string" where
  "push_opt_u64_field buf index v =
     (case v of
        Some n \<Rightarrow> buf @ [char_of index, char_of (1 :: nat)] @ be_digits 8 (unat n)
      | None \<Rightarrow> buf @ [char_of index, char_of (0 :: nat)])"

definition canonical_bytes :: "CanonicalRecord \<Rightarrow> StorageError + string" where
  "canonical_bytes r =
     and_then (push_str_field [char_of HASH_VERSION] 0 (cr_entry_id r)) (\<lambda>b.
     and_then (push_str_field b 1 (cr_timestamp_rfc3339 r)) (\<lambda>b.
     and_then (push_str_field b 2 (cr_session_id r)) (\<lambda>b.
     and_then (push_str_field b 3 (cr_command_id r)) (\<lambda>b.
     and_then (push_str_field b 4 (cr_action_type r)) (\<lambda>b.
     and_then (push_str_field b 5 (cr_status r)) (\<lambda>b.
     and_then (push_opt_str_field b 6 (cr_details r)) (\<lambda>b.
     Inr (push_opt_u64_field b 7 (cr_execution_time_ms r)))))))))"

definition compute_entry_hash ::
  "(string \<Rightarrow> string) \<Rightarrow> string \<Rightarrow> CanonicalRecord \<Rightarrow> StorageError + string" where
  "compute_entry_hash sha prev r = and_then (canonical_bytes r) (\<lambda>b. Inr (sha (prev @ b)))"

subsection \<open>The table\<close>

text \<open>
  A row of \<open>audit_log\<close>: \<open>seq\<close>, \<open>prev_hash\<close> and \<open>entry_hash\<close> are NULL in the rows written before
  version 37. \<open>entry_id\<close> is unique, and so is \<open>seq\<close> where it is not NULL. The database also has the
  value of the pruned root in \<open>app_meta\<close>, the rows of \<open>session_audit_log\<close> (time and event) and the
  settings of the connection that a durable commit reads.
\<close>

record AuditRow =
  ar_entry_id :: string
  ar_timestamp :: string
  ar_session_id :: string
  ar_command_id :: string
  ar_action_type :: string
  ar_status :: string
  ar_details :: "string option"
  ar_execution_time_ms :: "int option"
  ar_seq :: "int option"
  ar_prev_hash :: "string option"
  ar_entry_hash :: "string option"

record AuditDb =
  audit_log :: "AuditRow list"
  pruned_root :: "string option"
  session_audit_log :: "(string \<times> string) list"
  conn_path :: "string option"
  journal_mode :: string
  sync_settings :: "int \<times> int"

definition chained :: "AuditRow \<Rightarrow> bool" where
  "chained r \<longleftrightarrow> ar_seq r \<noteq> None"

text \<open>\<open>WHERE seq IS NOT NULL ORDER BY seq ASC\<close>\<close>

definition chained_rows :: "AuditDb \<Rightarrow> AuditRow list" where
  "chained_rows db = sort_key (\<lambda>r. the (ar_seq r)) (filter chained (audit_log db))"

subsection \<open>Appending\<close>

text \<open>
  The tip of the chain, \<open>ORDER BY seq DESC LIMIT 1\<close>: a NULL hash in it is an error and is not
  treated as an empty chain.
\<close>

definition chain_tip :: "AuditDb \<Rightarrow> StorageError + (int \<times> string) option" where
  "chain_tip db =
     (case rev (chained_rows db) of
        [] \<Rightarrow> Inr None
      | r # _ \<Rightarrow>
          (case ar_entry_hash r of
             None \<Rightarrow> Inl (Sqlite ''invalid column type'')
           | Some h \<Rightarrow> Inr (Some (the (ar_seq r), h))))"

definition next_link :: "(int \<times> string) option \<Rightarrow> StorageError + (int \<times> string)" where
  "next_link tip =
     (case tip of
        None \<Rightarrow> Inr (0, GENESIS_PREV_HASH)
      | Some (s, h) \<Rightarrow>
          if s = 2 ^ 63 - 1 then Inl (Internal ''audit sequence overflow'') else Inr (s + 1, h))"

definition entry_record :: "(instant \<Rightarrow> string) \<Rightarrow> AuditEntry \<Rightarrow> CanonicalRecord" where
  "entry_record to_rfc3339 e =
     \<lparr>cr_entry_id = ae_entry_id e, cr_timestamp_rfc3339 = to_rfc3339 (ae_timestamp e),
      cr_session_id = ae_session_id e, cr_command_id = ae_command_id e,
      cr_action_type = ae_action_type e, cr_status = status_debug (ae_status e),
      cr_details = ae_details e, cr_execution_time_ms = ae_execution_time_ms e\<rparr>"

definition entry_row ::
  "(instant \<Rightarrow> string) \<Rightarrow> AuditEntry \<Rightarrow> int \<Rightarrow> string \<Rightarrow> string \<Rightarrow> AuditRow" where
  "entry_row to_rfc3339 e s prev h =
     \<lparr>ar_entry_id = ae_entry_id e, ar_timestamp = to_rfc3339 (ae_timestamp e),
      ar_session_id = ae_session_id e, ar_command_id = ae_command_id e,
      ar_action_type = ae_action_type e, ar_status = status_debug (ae_status e),
      ar_details = ae_details e,
      ar_execution_time_ms = map_option (\<lambda>v. int (unat v)) (ae_execution_time_ms e),
      ar_seq = Some s, ar_prev_hash = Some prev, ar_entry_hash = Some h\<rparr>"

text \<open>\<open>INSERT OR IGNORE\<close>: a row that would violate a unique index is not inserted.\<close>

definition insert_or_ignore :: "AuditRow \<Rightarrow> AuditDb \<Rightarrow> bool \<times> AuditDb" where
  "insert_or_ignore r db =
     (if ar_entry_id r \<in> ar_entry_id ` set (audit_log db) \<or> ar_seq r \<in> ar_seq ` set (audit_log db)
      then (False, db) else (True, db\<lparr>audit_log := audit_log db @ [r]\<rparr>))"

definition audit_append ::
  "(string \<Rightarrow> string) \<Rightarrow> (instant \<Rightarrow> string) \<Rightarrow> StorageError option \<Rightarrow> AuditEntry
    \<Rightarrow> AuditDb \<Rightarrow> (StorageError + bool) \<times> AuditDb" where
  "audit_append sha to_rfc3339 fault e db =
     (case and_then (chain_tip db) next_link of
        Inl err \<Rightarrow> (Inl err, db)
      | Inr (s, prev) \<Rightarrow>
          (case compute_entry_hash sha prev (entry_record to_rfc3339 e) of
             Inl err \<Rightarrow> (Inl err, db)
           | Inr h \<Rightarrow>
               (case fault of
                  Some err \<Rightarrow> (Inl err, db)
                | None \<Rightarrow>
                    (let (inserted, db') = insert_or_ignore (entry_row to_rfc3339 e s prev h) db
                     in (Inr inserted, db')))))"

text \<open>
  \<open>durable_audit::commit\<close>: the append runs in a transaction of a file-backed WAL database with
  synchronous FULL, and the previous settings are put back. Each step may fail (\<open>durable_env\<close>); the
  journal mode is read again inside the transaction. When only the restoration fails the row is
  committed and the caller is told that it is not.
\<close>

record durable_env =
  settings_fault :: "StorageError option"
  apply_fault :: "StorageError option"
  begin_fault :: "StorageError option"
  mode_in_tx :: string
  commit_fault :: "StorageError option"
  restore_fault :: "StorageError option"

definition durable_transaction ::
  "durable_env \<Rightarrow> (AuditDb \<Rightarrow> (StorageError + bool) \<times> AuditDb) \<Rightarrow> AuditDb
    \<Rightarrow> (StorageError + bool) \<times> AuditDb" where
  "durable_transaction env app db =
     (case begin_fault env of
        Some e \<Rightarrow> (Inl e, db)
      | None \<Rightarrow>
          if mode_in_tx env \<noteq> ''wal''
          then (Inl (Internal ''Durable audit requires a WAL database''), db)
          else (case app db of
                  (Inl e, _) \<Rightarrow> (Inl e, db)
                | (Inr b, db') \<Rightarrow>
                    (case commit_fault env of Some e \<Rightarrow> (Inl e, db) | None \<Rightarrow> (Inr b, db'))))"

definition durable_commit ::
  "durable_env \<Rightarrow> (AuditDb \<Rightarrow> (StorageError + bool) \<times> AuditDb) \<Rightarrow> AuditDb
    \<Rightarrow> (StorageError + bool) \<times> AuditDb" where
  "durable_commit env app db =
     (if (case conn_path db of None \<Rightarrow> True | Some p \<Rightarrow> p = [])
      then (Inl (Internal ''Durable audit requires an independent file-backed commit''), db)
      else if journal_mode db \<noteq> ''wal''
      then (Inl (Internal ''Durable audit requires a WAL database''), db)
      else (case settings_fault env of
              Some e \<Rightarrow> (Inl e, db)
            | None \<Rightarrow>
                (let original = sync_settings db;
                     raised = db\<lparr>sync_settings := (max (fst original) 2, 1)\<rparr>
                 in case apply_fault env of
                      Some e \<Rightarrow> (Inl e, db)
                    | None \<Rightarrow>
                        (let (outcome, db') = durable_transaction env app raised
                         in case restore_fault env of
                              Some e \<Rightarrow> (Inl e, db')
                            | None \<Rightarrow> (outcome, db'\<lparr>sync_settings := original\<rparr>)))))"

text \<open>
  \<open>save_audit_entry_with_durability\<close>, under the retained write lock, which reads no flag.
  \<open>autocommit\<close> is \<open>conn.is_autocommit()\<close>.
\<close>

definition save_audit_entry_with_durability ::
  "(string \<Rightarrow> string) \<Rightarrow> (instant \<Rightarrow> string) \<Rightarrow> bool \<Rightarrow> StorageError option \<Rightarrow> durable_env option
    \<Rightarrow> AuditEntry \<Rightarrow> AuditDb GuardedConnection
    \<Rightarrow> (StorageError + bool) \<times> AuditDb GuardedConnection" where
  "save_audit_entry_with_durability sha to_rfc3339 autocommit fault durable e g =
     (if (case ae_execution_time_ms e of None \<Rightarrow> False | Some v \<Rightarrow> 2 ^ 63 \<le> unat v)
      then (Inl (Validation ''execution_time_ms''
                  ''Audit duration exceeds the SQLite integer range''), g)
      else retained_run g (\<lambda>db.
        if \<not> autocommit
        then (Inl (Internal ''Audit acknowledgment requires an independent commit''), db)
        else (case durable of
                Some env \<Rightarrow> durable_commit env (audit_append sha to_rfc3339 fault e) db
              | None \<Rightarrow> audit_append sha to_rfc3339 fault e db)))"

definition try_save_audit_entry ::
  "(string \<Rightarrow> string) \<Rightarrow> (instant \<Rightarrow> string) \<Rightarrow> bool \<Rightarrow> StorageError option
    \<Rightarrow> AuditEntry \<Rightarrow> AuditDb GuardedConnection
    \<Rightarrow> (StorageError + bool) \<times> AuditDb GuardedConnection" where
  "try_save_audit_entry sha to_rfc3339 autocommit fault e g =
     save_audit_entry_with_durability sha to_rfc3339 autocommit fault None e g"

definition try_save_durable_audit_entry ::
  "(string \<Rightarrow> string) \<Rightarrow> (instant \<Rightarrow> string) \<Rightarrow> bool \<Rightarrow> StorageError option \<Rightarrow> durable_env
    \<Rightarrow> AuditEntry \<Rightarrow> AuditDb GuardedConnection
    \<Rightarrow> (StorageError + bool) \<times> AuditDb GuardedConnection" where
  "try_save_durable_audit_entry sha to_rfc3339 autocommit fault env e g =
     save_audit_entry_with_durability sha to_rfc3339 autocommit fault (Some env) e g"

definition save_audit_entry ::
  "(string \<Rightarrow> string) \<Rightarrow> (instant \<Rightarrow> string) \<Rightarrow> bool \<Rightarrow> StorageError option
    \<Rightarrow> AuditEntry \<Rightarrow> AuditDb GuardedConnection \<Rightarrow> AuditDb GuardedConnection" where
  "save_audit_entry sha to_rfc3339 autocommit fault e g =
     snd (try_save_audit_entry sha to_rfc3339 autocommit fault e g)"

subsection \<open>Verification\<close>

record ChainRow =
  cw_record :: CanonicalRecord
  cw_seq :: int
  cw_prev_hash :: string
  cw_entry_hash :: string

record AuditChainReport =
  rp_ok :: bool
  rp_first_seq :: "int option"
  rp_last_seq :: "int option"
  rp_verified_count :: nat
  rp_legacy_unchained_count :: nat
  rp_first_break :: "(int \<times> string) option"

definition row_record :: "AuditRow \<Rightarrow> CanonicalRecord" where
  "row_record r =
     \<lparr>cr_entry_id = ar_entry_id r, cr_timestamp_rfc3339 = ar_timestamp r,
      cr_session_id = ar_session_id r, cr_command_id = ar_command_id r,
      cr_action_type = ar_action_type r, cr_status = ar_status r, cr_details = ar_details r,
      cr_execution_time_ms = map_option word_of_int (ar_execution_time_ms r)\<rparr>"

text \<open>A row with a NULL in a chain column does not convert, and the verifier skips it.\<close>

definition read_chain_row :: "AuditRow \<Rightarrow> ChainRow option" where
  "read_chain_row r =
     (case (ar_seq r, ar_prev_hash r, ar_entry_hash r) of
        (Some s, Some p, Some h) \<Rightarrow>
          Some \<lparr>cw_record = row_record r, cw_seq = s, cw_prev_hash = p, cw_entry_hash = h\<rparr>
      | _ \<Rightarrow> None)"

definition readable_chain :: "AuditDb \<Rightarrow> ChainRow list" where
  "readable_chain db = List.map_filter read_chain_row (chained_rows db)"

definition chain_root :: "AuditDb \<Rightarrow> string" where
  "chain_root db = (case pruned_root db of None \<Rightarrow> GENESIS_PREV_HASH | Some v \<Rightarrow> v)"

text \<open>
  The loop of the verifier: the count of verified rows and the first break. \<open>first\<close> is the first
  sequence number, used for the text only; numbers in the texts are left out.
\<close>

fun verify_rows ::
  "(string \<Rightarrow> string) \<Rightarrow> int \<Rightarrow> ChainRow list \<Rightarrow> int \<Rightarrow> string \<Rightarrow> nat
    \<Rightarrow> nat \<times> (int \<times> string) option" where
  "verify_rows sha first [] expected_seq expected_prev n = (n, None)"
| "verify_rows sha first (r # rs) expected_seq expected_prev n =
     (if cw_seq r \<noteq> expected_seq then (n, Some (cw_seq r, ''seq gap''))
      else if cw_prev_hash r \<noteq> expected_prev
      then (n, Some (cw_seq r,
             if cw_seq r = first then ''first chained row prev_hash != genesis/pruned-root''
             else ''prev_hash != prior entry_hash (broken link)''))
      else (case compute_entry_hash sha (cw_prev_hash r) (cw_record r) of
              Inl e \<Rightarrow> (n, Some (cw_seq r, ''canonicalization failed''))
            | Inr h \<Rightarrow>
                if h \<noteq> cw_entry_hash r then (n, Some (cw_seq r, ''entry_hash mismatch (row tampered)''))
                else verify_rows sha first rs (cw_seq r + 1) (cw_entry_hash r) (Suc n)))"

definition verify_audit_chain :: "(string \<Rightarrow> string) \<Rightarrow> AuditDb \<Rightarrow> AuditChainReport" where
  "verify_audit_chain sha db =
     (let legacy = length (filter (Not \<circ> chained) (audit_log db))
      in case readable_chain db of
           [] \<Rightarrow> \<lparr>rp_ok = True, rp_first_seq = None, rp_last_seq = None, rp_verified_count = 0,
                 rp_legacy_unchained_count = legacy, rp_first_break = None\<rparr>
         | r # rs \<Rightarrow>
             (let (n, brk) = verify_rows sha (cw_seq r) (r # rs) (cw_seq r) (chain_root db) 0
              in \<lparr>rp_ok = (brk = None), rp_first_seq = Some (cw_seq r),
                  rp_last_seq = Some (cw_seq (last (r # rs))), rp_verified_count = n,
                  rp_legacy_unchained_count = legacy, rp_first_break = brk\<rparr>))"

subsection \<open>Retention\<close>

definition AUDIT_TRAIL_RETENTION_DAYS :: nat where
  "AUDIT_TRAIL_RETENTION_DAYS = 730"

definition NANOS_PER_DAY :: nat where
  "NANOS_PER_DAY = 86400 * 1000000000"

definition first_recent_seq :: "string \<Rightarrow> AuditDb \<Rightarrow> int option" where
  "first_recent_seq cutoff db =
     (case filter (\<lambda>r. chained r \<and> cutoff \<le> ar_timestamp r) (audit_log db) of
        [] \<Rightarrow> None
      | rs \<Rightarrow> Some (Min (set (map (\<lambda>r. the (ar_seq r)) rs))))"

definition prune_anchor :: "int \<Rightarrow> AuditDb \<Rightarrow> string option" where
  "prune_anchor recent db =
     (case List.find (\<lambda>r. ar_seq r = Some (recent - 1)) (audit_log db) of
        None \<Rightarrow> None
      | Some r \<Rightarrow> ar_entry_hash r)"

definition below_seq :: "int \<Rightarrow> AuditRow \<Rightarrow> bool" where
  "below_seq s r = (case ar_seq r of None \<Rightarrow> False | Some t \<Rightarrow> t < s)"

definition prune_prefix :: "string \<Rightarrow> AuditDb \<Rightarrow> nat \<times> AuditDb" where
  "prune_prefix cutoff db =
     (case first_recent_seq cutoff db of
        None \<Rightarrow> (0, db)
      | Some recent \<Rightarrow>
          (case prune_anchor recent db of
             None \<Rightarrow> (0, db)
           | Some anchor \<Rightarrow>
               (length (filter (below_seq recent) (audit_log db)),
                db\<lparr>pruned_root := Some anchor,
                   audit_log := filter (Not \<circ> below_seq recent) (audit_log db)\<rparr>)))"

text \<open>
  \<open>enforce_audit_retention\<close>: one transaction under the write lock, which an erasure makes skip. A
  fault of the anchor write, of the prune or of the commit rolls back; a fault of the session delete
  is swallowed (\<open>session_ok\<close>).
\<close>

definition enforce_audit_retention ::
  "(instant \<Rightarrow> string) \<Rightarrow> instant \<Rightarrow> bool \<Rightarrow> StorageError option \<Rightarrow> cells
    \<Rightarrow> AuditDb GuardedConnection \<Rightarrow> (StorageError + nat) \<times> AuditDb GuardedConnection" where
  "enforce_audit_retention to_rfc3339 now session_ok fault h g =
     (let cutoff = to_rfc3339 (now - AUDIT_TRAIL_RETENTION_DAYS * NANOS_PER_DAY)
      in guard_run g (write_lock h g) 0 (\<lambda>db.
           let old = filter (\<lambda>s. fst s < cutoff) (session_audit_log db);
               sessions = if session_ok
                          then db\<lparr>session_audit_log :=
                                 filter (\<lambda>s. \<not> fst s < cutoff) (session_audit_log db)\<rparr>
                          else db;
               (pruned, db') = prune_prefix cutoff sessions
           in case fault of
                Some e \<Rightarrow> (Inl e, db)
              | None \<Rightarrow> (Inr ((if session_ok then length old else 0) + pruned), db')))"

end
