(* ===== verification/Audit_Evidence.thy ===== *)
theory Audit_Evidence
  imports Audit_Chain
begin

text \<open>
  What the audit chain shows. The canonical bytes determine the record; a table that only saves and
  prunes have changed verifies; two tables that verify with the same number of rows and the same last
  hash hold the same records, unless two different byte strings with the same hash are at hand.
\<close>

subsection \<open>The canonical bytes determine the record\<close>

definition str_bytes :: "nat \<Rightarrow> string \<Rightarrow> string" where
  "str_bytes i v = char_of i # be_digits 4 (length v) @ v"

definition opt_str_bytes :: "nat \<Rightarrow> string option \<Rightarrow> string" where
  "opt_str_bytes i v =
     (case v of
        Some s \<Rightarrow> char_of i # char_of (1 :: nat) # be_digits 4 (length s) @ s
      | None \<Rightarrow> [char_of i, char_of (0 :: nat)])"

definition opt_u64_bytes :: "nat \<Rightarrow> u64 option \<Rightarrow> string" where
  "opt_u64_bytes i v =
     (case v of
        Some n \<Rightarrow> [char_of i, char_of (1 :: nat)] @ be_digits 8 (unat n)
      | None \<Rightarrow> [char_of i, char_of (0 :: nat)])"

lemma push_str_field_eq:
  "push_str_field buf i v = Inr b \<longleftrightarrow> length v < 2 ^ 32 \<and> b = buf @ str_bytes i v"
  by (auto simp: push_str_field_def push_len_prefix_def and_then_def str_bytes_def)

lemma push_opt_str_field_eq:
  "push_opt_str_field buf i v = Inr b \<longleftrightarrow>
     pred_option (\<lambda>s. length s < 2 ^ 32) v \<and> b = buf @ opt_str_bytes i v"
  by (cases v) (auto simp: push_opt_str_field_def push_len_prefix_def and_then_def opt_str_bytes_def)

lemma push_opt_u64_field_eq: "push_opt_u64_field buf i v = buf @ opt_u64_bytes i v"
  by (simp add: push_opt_u64_field_def opt_u64_bytes_def split: option.split)

lemma and_then_Inr: "and_then x f = Inr b \<longleftrightarrow> (\<exists>a. x = Inr a \<and> f a = Inr b)"
  by (cases x) (simp_all add: and_then_def)

lemma str_bytes_prefix:
  assumes "str_bytes i a @ x = str_bytes i b @ y" and "length a < 2 ^ 32" and "length b < 2 ^ 32"
  shows "a = b \<and> x = y"
proof -
  have len: "be_digits 4 (length a) = be_digits 4 (length b)" and rest: "a @ x = b @ y"
    using assms(1) by (simp_all add: str_bytes_def)
  from len have "length a = length b"
    by (rule be_digits_inj) (use assms(2,3) in simp_all)
  with rest show ?thesis by simp
qed

lemma opt_str_bytes_prefix:
  assumes "opt_str_bytes i a @ x = opt_str_bytes i b @ y"
    and "pred_option (\<lambda>s. length s < 2 ^ 32) a" and "pred_option (\<lambda>s. length s < 2 ^ 32) b"
  shows "a = b \<and> x = y"
proof (cases a)
  case None
  then show ?thesis using assms(1) by (cases b) (simp_all add: opt_str_bytes_def)
next
  case (Some v)
  then obtain w where b: "b = Some w"
    using assms(1) by (cases b) (simp_all add: opt_str_bytes_def)
  have "str_bytes i v @ x = str_bytes i w @ y"
    using assms(1) by (simp add: Some b opt_str_bytes_def str_bytes_def)
  then show ?thesis using str_bytes_prefix [of i v x w y] assms(2,3) by (simp add: Some b)
qed

lemma opt_u64_inj:
  assumes "opt_u64_bytes i a = opt_u64_bytes i b"
  shows "a = b"
proof (cases a)
  case None
  then show ?thesis using assms by (cases b) (simp_all add: opt_u64_bytes_def)
next
  case (Some v)
  then obtain w where b: "b = Some w"
    using assms by (cases b) (simp_all add: opt_u64_bytes_def)
  have "be_digits 8 (unat v) = be_digits 8 (unat w)"
    using assms by (simp add: Some b opt_u64_bytes_def)
  moreover have "unat v < 256 ^ 8" and "unat w < 256 ^ 8"
    using unsigned_less [of v] unsigned_less [of w] by simp_all
  ultimately have "unat v = unat w" by (rule be_digits_inj)
  then show ?thesis by (simp add: Some b word_unat_eq_iff)
qed

text \<open>The six text fields, with consecutive indices.\<close>

definition text_fields :: "CanonicalRecord \<Rightarrow> string list" where
  "text_fields r =
     [cr_entry_id r, cr_timestamp_rfc3339 r, cr_session_id r, cr_command_id r, cr_action_type r,
      cr_status r]"

fun str_fields :: "nat \<Rightarrow> string list \<Rightarrow> string" where
  "str_fields i [] = []"
| "str_fields i (v # vs) = str_bytes i v @ str_fields (i + 1) vs"

lemma str_fields_prefix:
  assumes "str_fields i vs @ x = str_fields i ws @ y" and "length vs = length ws"
    and "list_all (\<lambda>s. length s < 2 ^ 32) vs" and "list_all (\<lambda>s. length s < 2 ^ 32) ws"
  shows "vs = ws \<and> x = y"
  using assms(2,1,3,4)
proof (induction vs ws arbitrary: i rule: list_induct2)
  case Nil
  then show ?case by simp
next
  case (Cons v vs w ws)
  have "v = w \<and> str_fields (i + 1) vs @ x = str_fields (i + 1) ws @ y"
    by (rule str_bytes_prefix [of i]) (use Cons.prems in simp_all)
  then show ?case using Cons.IH [of "i + 1"] Cons.prems by simp
qed

lemma canonical_bytes_Inr:
  "canonical_bytes r = Inr b \<longleftrightarrow>
     list_all (\<lambda>s. length s < 2 ^ 32) (text_fields r) \<and>
     pred_option (\<lambda>s. length s < 2 ^ 32) (cr_details r) \<and>
     b = char_of HASH_VERSION # str_fields 0 (text_fields r) @
         opt_str_bytes 6 (cr_details r) @ opt_u64_bytes 7 (cr_execution_time_ms r)"
  unfolding canonical_bytes_def and_then_Inr push_str_field_eq push_opt_str_field_eq
    push_opt_u64_field_eq text_fields_def by (auto simp del: One_nat_def)

lemma canonical_bytes_inj:
  assumes "canonical_bytes r = Inr b" and "canonical_bytes r' = Inr b"
  shows "r = r'"
proof -
  let ?tail = "\<lambda>r. opt_str_bytes 6 (cr_details r) @ opt_u64_bytes 7 (cr_execution_time_ms r)"
  note eqs = assms [unfolded canonical_bytes_Inr]
  have texts: "text_fields r = text_fields r' \<and> ?tail r = ?tail r'"
    by (rule str_fields_prefix [of 0]) (use eqs in \<open>simp_all add: text_fields_def\<close>)
  have "cr_details r = cr_details r' \<and>
      opt_u64_bytes 7 (cr_execution_time_ms r) = opt_u64_bytes 7 (cr_execution_time_ms r')"
    by (rule opt_str_bytes_prefix) (use eqs texts in blast)+
  then show ?thesis using texts opt_u64_inj by (auto simp: text_fields_def)
qed

subsection \<open>Linked rows\<close>

fun linked :: "(string \<Rightarrow> string) \<Rightarrow> string \<Rightarrow> int \<Rightarrow> ChainRow list \<Rightarrow> bool" where
  "linked sha prev s [] = True"
| "linked sha prev s (r # rs) =
     (cw_seq r = s \<and> cw_prev_hash r = prev \<and>
      compute_entry_hash sha prev (cw_record r) = Inr (cw_entry_hash r) \<and>
      linked sha (cw_entry_hash r) (s + 1) rs)"

definition end_hash :: "string \<Rightarrow> ChainRow list \<Rightarrow> string" where
  "end_hash prev rs = (if rs = [] then prev else cw_entry_hash (last rs))"

lemma end_hash_simps [simp]:
  "end_hash prev [] = prev"
  "end_hash prev (r # rs) = end_hash (cw_entry_hash r) rs"
  "end_hash prev (rs @ [r]) = cw_entry_hash r"
  by (simp_all add: end_hash_def)

lemma linked_append:
  "linked sha p s (xs @ ys) \<longleftrightarrow>
     linked sha p s xs \<and> linked sha (end_hash p xs) (s + int (length xs)) ys"
  by (induction xs arbitrary: p s) (auto simp: algebra_simps)

lemma linked_seq_nth: "linked sha p s cs \<Longrightarrow> i < length cs \<Longrightarrow> cw_seq (cs ! i) = s + int i"
  by (induction cs arbitrary: p s i) (auto simp: nth_Cons' of_nat_diff)

lemma linked_sorted:
  assumes "linked sha p s cs"
  shows "sorted_wrt (<) (map cw_seq cs)"
  by (auto simp: sorted_wrt_iff_nth_less linked_seq_nth [OF assms])

lemma verify_rows_linked:
  "verify_rows sha first rs s p n = (m, None) \<longleftrightarrow> linked sha p s rs \<and> m = n + length rs"
proof (induction rs arbitrary: s p n)
  case Nil
  then show ?case by auto
next
  case (Cons r rs)
  then show ?case
    by (cases "compute_entry_hash sha p (cw_record r)") auto
qed

lemma verify_ok_iff:
  "rp_ok (verify_audit_chain sha db) \<longleftrightarrow>
     (\<exists>s. linked sha (chain_root db) s (readable_chain db))"
proof (cases "readable_chain db")
  case Nil
  then show ?thesis by (simp add: verify_audit_chain_def Let_def)
next
  case (Cons r rs)
  obtain n brk where v: "verify_rows sha (cw_seq r) (r # rs) (cw_seq r) (chain_root db) 0 = (n, brk)"
    by fastforce
  have "rp_ok (verify_audit_chain sha db) \<longleftrightarrow> brk = None"
    using v by (simp add: verify_audit_chain_def Let_def Cons del: verify_rows.simps)
  also have "\<dots> \<longleftrightarrow> linked sha (chain_root db) (cw_seq r) (r # rs)"
    using verify_rows_linked [of sha "cw_seq r" "r # rs" "cw_seq r" "chain_root db" 0 n] v
      verify_rows_linked [of sha "cw_seq r" "r # rs" "cw_seq r" "chain_root db" 0 "length (r # rs)"]
    by (auto simp del: verify_rows.simps linked.simps)
  finally show ?thesis by (auto simp: Cons)
qed

lemma verify_count:
  assumes "rp_ok (verify_audit_chain sha db)"
  shows "rp_verified_count (verify_audit_chain sha db) = length (readable_chain db)"
proof (cases "readable_chain db")
  case Nil
  then show ?thesis by (simp add: verify_audit_chain_def Let_def)
next
  case (Cons r rs)
  obtain s where "linked sha (chain_root db) s (r # rs)" using assms verify_ok_iff Cons by metis
  then have "verify_rows sha (cw_seq r) (r # rs) (cw_seq r) (chain_root db) 0 =
      (length (r # rs), None)"
    using verify_rows_linked [of sha "cw_seq r" "r # rs" "cw_seq r" "chain_root db" 0] by auto
  then show ?thesis by (simp add: verify_audit_chain_def Let_def Cons del: verify_rows.simps)
qed

lemma verify_break: "rp_ok (verify_audit_chain sha db) \<longleftrightarrow> rp_first_break (verify_audit_chain sha db) = None"
  by (auto simp: verify_audit_chain_def Let_def split: list.split prod.split)

subsection \<open>Equal ends determine the chain\<close>

text \<open>What is hashed for a row.\<close>

definition row_preimage :: "ChainRow \<Rightarrow> string" where
  "row_preimage c =
     cw_prev_hash c @ (case canonical_bytes (cw_record c) of Inl _ \<Rightarrow> [] | Inr b \<Rightarrow> b)"

lemma linked_hash:
  assumes "linked sha p s cs" and "c \<in> set cs"
  shows "cw_entry_hash c = sha (row_preimage c)" and "\<exists>b. canonical_bytes (cw_record c) = Inr b"
  using assms
  by (induction cs arbitrary: p s) (auto simp: row_preimage_def compute_entry_hash_def and_then_Inr)

lemma linked_end_length:
  assumes "\<forall>x. length (sha x) = 64" and "length p = 64" and "linked sha p s cs"
  shows "length (end_hash p cs) = 64"
proof (cases cs rule: rev_cases)
  case Nil
  then show ?thesis using assms(2) by simp
next
  case (snoc rs r)
  then show ?thesis using linked_hash(1) [OF assms(3), of r] assms(1) by simp
qed

lemma preimage_determines:
  assumes "row_preimage c = row_preimage c'" and "length (cw_prev_hash c) = length (cw_prev_hash c')"
    and "canonical_bytes (cw_record c) = Inr b" and "canonical_bytes (cw_record c') = Inr b'"
  shows "cw_prev_hash c = cw_prev_hash c' \<and> cw_record c = cw_record c'"
  using assms canonical_bytes_inj [of "cw_record c" b "cw_record c'"] by (simp add: row_preimage_def)

lemma linked_determined:
  assumes "length cs = length cs'" and "linked sha p s cs" and "linked sha p' s' cs'"
    and "end_hash p cs = end_hash p' cs'"
    and "\<forall>x \<in> row_preimage ` set cs. \<forall>y \<in> row_preimage ` set cs'. sha x = sha y \<longrightarrow> x = y"
    and len: "\<forall>x. length (sha x) = 64" and "length p = 64" and "length p' = 64"
  shows "map cw_record cs = map cw_record cs' \<and> p = p'"
  using assms(1-5)
proof (induction cs cs' rule: rev_induct2)
  case 1
  then show ?case by simp
next
  case (4 c cs c' cs')
  have links: "linked sha p s cs" "linked sha p' s' cs'"
      "cw_prev_hash c = end_hash p cs" "cw_prev_hash c' = end_hash p' cs'"
    using "4.prems"(2,3) by (simp_all add: linked_append)
  have "cw_entry_hash c = sha (row_preimage c)" and "cw_entry_hash c' = sha (row_preimage c')"
    by (rule linked_hash(1) [OF "4.prems"(2)], simp) (rule linked_hash(1) [OF "4.prems"(3)], simp)
  then have "sha (row_preimage c) = sha (row_preimage c')"
    using "4.prems"(4) end_hash_simps(3) by metis
  then have "row_preimage c = row_preimage c'"
    using "4.prems"(5) [rule_format, of "row_preimage c" "row_preimage c'"] by simp
  moreover have "length (cw_prev_hash c) = length (cw_prev_hash c')"
    unfolding links(3,4) linked_end_length [OF len assms(7) links(1)]
      linked_end_length [OF len assms(8) links(2)] ..
  moreover obtain b b' where "canonical_bytes (cw_record c) = Inr b"
      "canonical_bytes (cw_record c') = Inr b'"
    using linked_hash(2) [OF "4.prems"(2), of c] linked_hash(2) [OF "4.prems"(3), of c'] by auto
  ultimately have same: "cw_prev_hash c = cw_prev_hash c' \<and> cw_record c = cw_record c'"
    by (rule preimage_determines)
  have "map cw_record cs = map cw_record cs' \<and> p = p'"
  proof (rule "4.IH")
    show "\<forall>x \<in> row_preimage ` set cs. \<forall>y \<in> row_preimage ` set cs'. sha x = sha y \<longrightarrow> x = y"
      using "4.prems"(5) unfolding set_append image_Un by blast
  qed (use "4.prems"(1) links same in simp_all)
  then show ?case using same by simp
next
  case (2 c cs)
  show ?case using "2.prems"(1) by simp
next
  case (3 c cs)
  show ?case using "3.prems"(1) by simp
qed

subsection \<open>The invariant of the table\<close>

lemma sort_key_id: "sorted (map f xs) \<Longrightarrow> sort_key f xs = xs"
  by (induction xs) (auto simp: insort_is_Cons)

lemma read_chain_row_Some:
  assumes "read_chain_row r = Some c"
  shows "ar_seq r = Some (cw_seq c)" and "ar_prev_hash r = Some (cw_prev_hash c)"
    and "ar_entry_hash r = Some (cw_entry_hash c)" and "chained r" and "row_record r = cw_record c"
  using assms by (auto simp: read_chain_row_def chained_def split: option.splits)

text \<open>
  The chained rows, in the order of the table, are \<open>cs\<close>, and \<open>cs\<close> is linked from the root.
\<close>

definition holds_chain :: "(string \<Rightarrow> string) \<Rightarrow> AuditDb \<Rightarrow> int \<Rightarrow> ChainRow list \<Rightarrow> bool" where
  "holds_chain sha db s cs \<longleftrightarrow>
     map read_chain_row (filter chained (audit_log db)) = map Some cs \<and>
     linked sha (chain_root db) s cs"

lemma holds_chain_seqs:
  assumes "holds_chain sha db s cs"
  shows "map (\<lambda>r. the (ar_seq r)) (filter chained (audit_log db)) = map cw_seq cs"
proof -
  let ?rows = "filter chained (audit_log db)"
  have len: "length ?rows = length cs"
    using assms unfolding holds_chain_def by (metis length_map)
  have "\<And>i. i < length cs \<Longrightarrow> read_chain_row (?rows ! i) = Some (cs ! i)"
    using assms len unfolding holds_chain_def by (metis nth_map)
  then show ?thesis
    using len by (intro nth_equalityI) (auto simp: read_chain_row_Some(1))
qed

lemma holds_chain_rows:
  assumes "holds_chain sha db s cs"
  shows "chained_rows db = filter chained (audit_log db)" and "readable_chain db = cs"
proof -
  have "sorted (map cw_seq cs)"
    using assms linked_sorted unfolding holds_chain_def by (metis strict_sorted_imp_sorted)
  then show rows: "chained_rows db = filter chained (audit_log db)"
    unfolding chained_rows_def by (intro sort_key_id) (simp add: holds_chain_seqs [OF assms])
  have "List.map_filter read_chain_row (filter chained (audit_log db)) =
      map the (filter (\<lambda>x. x \<noteq> None) (map read_chain_row (filter chained (audit_log db))))"
    by (simp add: map_filter_def filter_map o_def)
  also have "\<dots> = cs"
    using assms by (simp add: holds_chain_def filter_map o_def)
  finally show "readable_chain db = cs" by (simp add: readable_chain_def rows)
qed

definition audit_inv :: "(string \<Rightarrow> string) \<Rightarrow> AuditDb \<Rightarrow> bool" where
  "audit_inv sha db \<longleftrightarrow>
     (\<exists>s cs. holds_chain sha db s cs \<and> (cs = [] \<longrightarrow> pruned_root db = None))"

lemma audit_inv_verifies:
  assumes "audit_inv sha db"
  shows "rp_ok (verify_audit_chain sha db)"
    and "rp_verified_count (verify_audit_chain sha db) = length (filter chained (audit_log db))"
proof -
  obtain s cs where chain: "holds_chain sha db s cs" using assms by (auto simp: audit_inv_def)
  then have cs: "linked sha (chain_root db) s (readable_chain db)"
    using holds_chain_rows(2) [OF chain] by (simp add: holds_chain_def)
  then show ok: "rp_ok (verify_audit_chain sha db)" using verify_ok_iff by blast
  have "length cs = length (filter chained (audit_log db))"
    using chain unfolding holds_chain_def by (metis length_map)
  then show "rp_verified_count (verify_audit_chain sha db) = length (filter chained (audit_log db))"
    using verify_count [OF ok] holds_chain_rows(2) [OF chain] by simp
qed

subsection \<open>Appending keeps it\<close>

lemma chain_tip_holds:
  assumes "holds_chain sha db s cs"
  shows "chain_tip db =
    Inr (if cs = [] then None else Some (cw_seq (last cs), cw_entry_hash (last cs)))"
proof (cases "filter chained (audit_log db)" rule: rev_cases)
  case Nil
  then have "cs = []" using assms by (simp add: holds_chain_def)
  then show ?thesis using Nil holds_chain_rows(1) [OF assms] by (simp add: chain_tip_def)
next
  case (snoc rows r)
  then have "map read_chain_row rows @ [read_chain_row r] = map Some cs"
    using assms by (simp add: holds_chain_def)
  then have "cs \<noteq> [] \<and> read_chain_row r = Some (last cs)"
    by (cases cs rule: rev_cases) simp_all
  then show ?thesis
    using snoc holds_chain_rows(1) [OF assms] read_chain_row_Some(1,3) [of r "last cs"]
    by (simp add: chain_tip_def)
qed

lemma row_record_entry_row [simp]:
  "row_record (entry_row to_rfc3339 e s p h) = entry_record to_rfc3339 e"
  by (cases "ae_execution_time_ms e") (simp_all add: row_record_def entry_row_def entry_record_def)

lemma read_entry_row [simp]:
  "read_chain_row (entry_row to_rfc3339 e s p h) =
     Some \<lparr>cw_record = entry_record to_rfc3339 e, cw_seq = s, cw_prev_hash = p, cw_entry_hash = h\<rparr>"
  unfolding row_record_entry_row [symmetric, of to_rfc3339 e s p h]
  by (simp add: read_chain_row_def entry_row_def)

lemma chained_entry_row [simp]: "chained (entry_row to_rfc3339 e s p h)"
  by (simp add: chained_def entry_row_def)

text \<open>What an append does: nothing, or one more linked row with the entry in it.\<close>

lemma audit_append_cases:
  assumes "audit_append sha to_rfc3339 fault e db = (res, db')" and "holds_chain sha db s cs"
  obtains (unchanged) "db' = db" "res \<noteq> Inr True"
    | (added) q p h where "res = Inr True" "ae_entry_id e \<notin> ar_entry_id ` set (audit_log db)"
        "db' = db\<lparr>audit_log := audit_log db @ [entry_row to_rfc3339 e q p h]\<rparr>"
        "compute_entry_hash sha p (entry_record to_rfc3339 e) = Inr h"
        "if cs = [] then q = 0 \<and> p = GENESIS_PREV_HASH
         else q = cw_seq (last cs) + 1 \<and> p = cw_entry_hash (last cs)"
proof (cases "and_then (chain_tip db) next_link")
  case (Inl err)
  then show ?thesis using assms(1) unchanged by (auto simp: audit_append_def)
next
  case (Inr link)
  obtain q p where link: "link = (q, p)" by fastforce
  have qp: "if cs = [] then q = 0 \<and> p = GENESIS_PREV_HASH
         else q = cw_seq (last cs) + 1 \<and> p = cw_entry_hash (last cs)"
    using Inr link chain_tip_holds [OF assms(2)]
    by (auto simp: and_then_def next_link_def split: if_splits)
  show ?thesis
  proof (cases "compute_entry_hash sha p (entry_record to_rfc3339 e)")
    case (Inl err)
    then show ?thesis using assms(1) Inr link unchanged by (auto simp: audit_append_def)
  next
    case hash: (Inr h)
    let ?row = "entry_row to_rfc3339 e q p h"
    show ?thesis
    proof (cases "fault = None \<and> fst (insert_or_ignore ?row db)")
      case True
      then have fresh: "ae_entry_id e \<notin> ar_entry_id ` set (audit_log db)"
        and ins: "insert_or_ignore ?row db = (True, db\<lparr>audit_log := audit_log db @ [?row]\<rparr>)"
        by (auto simp: insert_or_ignore_def entry_row_def split: if_splits)
      show ?thesis
        by (rule added [OF _ fresh _ hash qp])
          (use assms(1) Inr link hash ins True in \<open>simp_all add: audit_append_def\<close>)
    next
      case False
      then have "res \<noteq> Inr True \<and> db' = db"
        using assms(1) Inr link hash
        by (auto simp: audit_append_def insert_or_ignore_def split: if_splits option.splits)
      then show ?thesis using unchanged by blast
    qed
  qed
qed

lemma audit_append_inv:
  assumes "audit_inv sha db" and "audit_append sha to_rfc3339 fault e db = (res, db')"
  shows "audit_inv sha db'"
proof -
  obtain s cs where chain: "holds_chain sha db s cs" and root: "cs = [] \<longrightarrow> pruned_root db = None"
    using assms(1) by (auto simp: audit_inv_def)
  from assms(2) chain show ?thesis
  proof (cases rule: audit_append_cases)
    case unchanged
    then show ?thesis using assms(1) by simp
  next
    case (added q p h)
    let ?c = "\<lparr>cw_record = entry_record to_rfc3339 e, cw_seq = q, cw_prev_hash = p, cw_entry_hash = h\<rparr>"
    let ?s = "if cs = [] then q else s"
    have root': "chain_root db' = chain_root db" using added(3) by (simp add: chain_root_def)
    have "linked sha (chain_root db) ?s (cs @ [?c])"
    proof (cases "cs = []")
      case True
      then show ?thesis using added(4,5) root by (simp add: chain_root_def)
    next
      case False
      have "cw_seq (last cs) = s + int (length cs - 1)"
        using chain False linked_seq_nth [of sha "chain_root db" s cs "length cs - 1"]
        by (simp add: holds_chain_def last_conv_nth)
      then have "q = s + int (length cs)" and "p = end_hash (chain_root db) cs"
        using added(5) False by (simp_all add: end_hash_def of_nat_diff Suc_leI)
      then show ?thesis using chain False added(4) by (simp add: linked_append holds_chain_def)
    qed
    moreover have "map read_chain_row (filter chained (audit_log db')) = map Some (cs @ [?c])"
      using chain added(3) by (simp add: holds_chain_def)
    ultimately have "holds_chain sha db' ?s (cs @ [?c])"
      unfolding holds_chain_def root' by blast
    then show ?thesis by (auto simp: audit_inv_def)
  qed
qed

subsection \<open>Pruning keeps it\<close>

lemma holds_chain_nth:
  assumes "holds_chain sha db s cs" and "i < length cs"
  shows "read_chain_row (filter chained (audit_log db) ! i) = Some (cs ! i)"
    and "length (filter chained (audit_log db)) = length cs"
    and "ar_seq (filter chained (audit_log db) ! i) = Some (s + int i)"
proof -
  show len: "length (filter chained (audit_log db)) = length cs"
    using assms(1) unfolding holds_chain_def by (metis length_map)
  show row: "read_chain_row (filter chained (audit_log db) ! i) = Some (cs ! i)"
    using assms len unfolding holds_chain_def by (metis nth_map)
  have "cw_seq (cs ! i) = s + int i"
    using assms linked_seq_nth unfolding holds_chain_def by blast
  then show "ar_seq (filter chained (audit_log db) ! i) = Some (s + int i)"
    using read_chain_row_Some(1) [OF row] by simp
qed

lemma holds_chain_index:
  assumes "holds_chain sha db s cs" and "r \<in> set (audit_log db)" and "chained r"
  obtains i where "i < length cs" "read_chain_row r = Some (cs ! i)" "ar_seq r = Some (s + int i)"
proof -
  have "r \<in> set (filter chained (audit_log db))" using assms(2,3) by simp
  then obtain i where i: "i < length (filter chained (audit_log db))"
      "r = filter chained (audit_log db) ! i"
    unfolding in_set_conv_nth by metis
  have "i < length cs" using i(1) assms(1) unfolding holds_chain_def by (metis length_map)
  then show ?thesis using that holds_chain_nth [OF assms(1)] i(2) by blast
qed

lemma first_recent_seq_Some:
  assumes "first_recent_seq cutoff db = Some recent"
  obtains r where "r \<in> set (audit_log db)" "chained r" "ar_seq r = Some recent"
    and "\<And>r'. r' \<in> set (audit_log db) \<Longrightarrow> chained r' \<Longrightarrow> the (ar_seq r') < recent
            \<Longrightarrow> ar_timestamp r' < cutoff"
proof -
  define rs where "rs = filter (\<lambda>r. chained r \<and> cutoff \<le> ar_timestamp r) (audit_log db)"
  define S where "S = (\<lambda>r. the (ar_seq r)) ` set rs"
  have "first_recent_seq cutoff db = (if rs = [] then None else Some (Min S))"
    by (cases rs) (simp_all add: first_recent_seq_def rs_def [symmetric] S_def)
  then have rs: "rs \<noteq> []" and recent: "recent = Min S"
    using assms by (simp_all split: if_splits)
  have "recent \<in> S" unfolding recent by (rule Min_in) (use rs in \<open>auto simp: S_def\<close>)
  then obtain r where r: "r \<in> set (audit_log db)" "chained r" "ar_seq r = Some recent"
    by (auto simp: S_def rs_def chained_def)
  have "ar_timestamp r' < cutoff"
    if "r' \<in> set (audit_log db)" "chained r'" "the (ar_seq r') < recent" for r'
  proof (rule ccontr)
    assume "\<not> ar_timestamp r' < cutoff"
    then have "the (ar_seq r') \<in> S" using that by (auto simp: S_def rs_def not_less)
    then have "recent \<le> the (ar_seq r')" unfolding recent by (intro Min_le) (auto simp: S_def)
    then show False using that by simp
  qed
  then show ?thesis using that r by blast
qed

lemma filter_chained_rest:
  assumes "holds_chain sha db s cs" and "k \<le> length cs"
  shows "filter chained (filter (Not \<circ> below_seq (s + int k)) (audit_log db)) =
    drop k (filter chained (audit_log db))"
proof -
  let ?rows = "filter chained (audit_log db)"
  let ?keep = "Not \<circ> below_seq (s + int k)"
  have below: "below_seq (s + int k) (?rows ! i) \<longleftrightarrow> i < k" if "i < length cs" for i
    using holds_chain_nth(3) [OF assms(1) that] by (simp add: below_seq_def)
  have len: "length ?rows = length cs"
    using assms(1) unfolding holds_chain_def by (metis length_map)
  have "filter ?keep (take k ?rows) = []"
    using below assms(2) len by (auto simp: filter_empty_conv in_set_conv_nth)
  moreover have "filter ?keep (drop k ?rows) = drop k ?rows"
    using below len by (auto simp: filter_id_conv in_set_conv_nth)
  ultimately have "filter ?keep ?rows = drop k ?rows"
    by (metis append_Nil append_take_drop_id filter_append)
  then show ?thesis by (simp add: conj_commute)
qed

lemma chain_prefix_old:
  assumes "holds_chain sha db s cs" and "k \<le> length cs"
    and "\<And>r. r \<in> set (audit_log db) \<Longrightarrow> chained r \<Longrightarrow> the (ar_seq r) < s + int k
            \<Longrightarrow> ar_timestamp r < cutoff"
    and "c \<in> set (take k cs)"
  shows "cr_timestamp_rfc3339 (cw_record c) < cutoff"
proof -
  obtain i where i: "i < k" "c = cs ! i" using assms(2,4) by (auto simp: in_set_conv_nth)
  then have "i < length cs" using assms(2) by simp
  note nth = holds_chain_nth [OF assms(1) this]
  let ?a = "filter chained (audit_log db) ! i"
  have "?a \<in> set (filter chained (audit_log db))"
    by (rule nth_mem) (use nth(2) \<open>i < length cs\<close> in simp)
  then have "ar_timestamp ?a < cutoff" using assms(3) [of ?a] nth(3) i(1) by simp
  moreover have "cw_record c = row_record ?a"
    using read_chain_row_Some(5) [OF nth(1)] i(2) by simp
  ultimately show ?thesis by (simp add: row_record_def)
qed

text \<open>A prune drops a prefix of rows that are all older than the cutoff and keeps at least one.\<close>

lemma prune_prefix_holds:
  assumes "holds_chain sha db s cs" and "prune_prefix cutoff db = (n, db')"
  obtains (kept) "db' = db"
    | (pruned) k where "k < length cs" "holds_chain sha db' (s + int k) (drop k cs)"
        "\<And>c. c \<in> set (take k cs) \<Longrightarrow> cr_timestamp_rfc3339 (cw_record c) < cutoff"
proof (cases "\<exists>recent anchor. first_recent_seq cutoff db = Some recent \<and>
      prune_anchor recent db = Some anchor")
  case False
  then have "db' = db" using assms(2) by (auto simp: prune_prefix_def split: option.splits)
  then show ?thesis by (rule kept)
next
  case True
  then obtain recent anchor where recent: "first_recent_seq cutoff db = Some recent"
    and anchor: "prune_anchor recent db = Some anchor" by blast
  obtain r where r: "r \<in> set (audit_log db)" "chained r" "ar_seq r = Some recent"
    and old: "\<And>r'. r' \<in> set (audit_log db) \<Longrightarrow> chained r' \<Longrightarrow> the (ar_seq r') < recent
            \<Longrightarrow> ar_timestamp r' < cutoff"
    using first_recent_seq_Some [OF recent] by metis
  obtain k where k: "k < length cs" "ar_seq r = Some (s + int k)"
    using holds_chain_index [OF assms(1) r(1,2)] by metis
  obtain a where a: "a \<in> set (audit_log db)" "ar_seq a = Some (recent - 1)"
      "ar_entry_hash a = Some anchor"
    using anchor by (auto simp: prune_anchor_def dest: find_SomeD split: option.splits)
  obtain j where j: "j < length cs" "read_chain_row a = Some (cs ! j)" "ar_seq a = Some (s + int j)"
    using holds_chain_index [OF assms(1) a(1)] a(2) by (auto simp: chained_def)
  have kj: "k = Suc j" and rec: "recent = s + int k" using k r a(2) j(3) by simp_all
  have root: "anchor = end_hash (chain_root db) (take k cs)"
    using read_chain_row_Some(3) [OF j(2)] a(3) j(1) kj
    by (simp add: end_hash_def take_Suc_conv_app_nth)
  have links: "linked sha anchor (s + int k) (drop k cs)"
    using assms(1) linked_append [of sha "chain_root db" s "take k cs" "drop k cs"] k(1) root
    by (simp add: holds_chain_def)
  have db': "db' = db\<lparr>pruned_root := Some anchor,
                audit_log := filter (Not \<circ> below_seq recent) (audit_log db)\<rparr>"
    using assms(2) recent anchor by (simp add: prune_prefix_def)
  have rows: "filter chained (audit_log db') = drop k (filter chained (audit_log db))"
    using filter_chained_rest [OF assms(1), of k] k(1) by (simp add: db' rec)
  have "map read_chain_row (filter chained (audit_log db')) = map Some (drop k cs)"
    using assms(1) unfolding rows holds_chain_def by (metis drop_map)
  then have "holds_chain sha db' (s + int k) (drop k cs)"
    using links by (simp add: holds_chain_def db' chain_root_def)
  moreover have "\<And>c. c \<in> set (take k cs) \<Longrightarrow> cr_timestamp_rfc3339 (cw_record c) < cutoff"
    using chain_prefix_old [OF assms(1) less_imp_le [OF k(1)]] old rec by blast
  ultimately show ?thesis using pruned k(1) by blast
qed

subsection \<open>Runs\<close>

text \<open>
  The operations that change the table: a save, with or without a synced commit, and the daily
  retention, with the flags of the erasure barrier it meets.
\<close>

datatype audit_op =
    SaveAudit bool "StorageError option" "durable_env option" AuditEntry
  | RetainAudit instant bool "StorageError option" cells

fun audit_step ::
  "(string \<Rightarrow> string) \<Rightarrow> (instant \<Rightarrow> string) \<Rightarrow> AuditDb GuardedConnection \<Rightarrow> audit_op
    \<Rightarrow> AuditDb GuardedConnection" where
  "audit_step sha ts g (SaveAudit autocommit fault durable e) =
     snd (save_audit_entry_with_durability sha ts autocommit fault durable e g)"
| "audit_step sha ts g (RetainAudit now session_ok fault h) =
     snd (enforce_audit_retention ts now session_ok fault h g)"

definition audit_trail :: "AuditDb \<Rightarrow> CanonicalRecord list" where
  "audit_trail db = map cw_record (readable_chain db)"

definition legacy_rows :: "AuditDb \<Rightarrow> AuditRow list" where
  "legacy_rows db = filter (Not \<circ> chained) (audit_log db)"

lemma audit_view_cong:
  assumes "audit_log db' = audit_log db" and "pruned_root db' = pruned_root db"
  shows "holds_chain sha db' = holds_chain sha db" and "legacy_rows db' = legacy_rows db"
    and "audit_trail db' = audit_trail db" and "audit_inv sha db' = audit_inv sha db"
  using assms
  by (auto simp: fun_eq_iff holds_chain_def legacy_rows_def audit_trail_def readable_chain_def
      chained_rows_def chain_root_def audit_inv_def)

text \<open>What a save does to the table, whatever fails on the way.\<close>

definition saved_as :: "(instant \<Rightarrow> string) \<Rightarrow> AuditEntry \<Rightarrow> AuditDb \<Rightarrow> AuditDb \<Rightarrow> bool" where
  "saved_as ts e db db' \<longleftrightarrow>
     audit_trail db' = audit_trail db @ [entry_record ts e] \<and>
     ae_entry_id e \<notin> ar_entry_id ` set (audit_log db)"

lemma audit_append_trail:
  assumes "audit_inv sha db" and "audit_append sha ts fault e db = (res, db')"
  shows "(db' = db \<and> res \<noteq> Inr True) \<or> saved_as ts e db db'" and "legacy_rows db' = legacy_rows db"
proof -
  obtain s cs where chain: "holds_chain sha db s cs" using assms(1) by (auto simp: audit_inv_def)
  have inv': "audit_inv sha db'" by (rule audit_append_inv [OF assms])
  from assms(2) chain have "((db' = db \<and> res \<noteq> Inr True) \<or> saved_as ts e db db') \<and>
      legacy_rows db' = legacy_rows db"
  proof (cases rule: audit_append_cases)
    case unchanged
    then show ?thesis by simp
  next
    case (added q p h)
    let ?c = "\<lparr>cw_record = entry_record ts e, cw_seq = q, cw_prev_hash = p, cw_entry_hash = h\<rparr>"
    obtain s' cs' where chain': "holds_chain sha db' s' cs'" using inv' by (auto simp: audit_inv_def)
    have "map Some cs' = map Some (cs @ [?c])"
      using chain chain' added(3) by (simp add: holds_chain_def)
    then have "cs' = cs @ [?c]" by (metis inj_map_eq_map inj_Some)
    then have "audit_trail db' = audit_trail db @ [entry_record ts e]"
      using holds_chain_rows(2) [OF chain] holds_chain_rows(2) [OF chain'] by (simp add: audit_trail_def)
    then show ?thesis using added(2,3) by (simp add: saved_as_def legacy_rows_def)
  qed
  then show "(db' = db \<and> res \<noteq> Inr True) \<or> saved_as ts e db db'"
    and "legacy_rows db' = legacy_rows db" by simp_all
qed

lemma durable_transaction_cases:
  assumes "durable_transaction env app db = (res, db')"
  shows "(db' = db \<and> res \<noteq> Inr True) \<or> (res, db') = app db"
  using assms
  by (auto simp: durable_transaction_def split: option.splits if_splits prod.splits sum.splits)

lemma durable_commit_cases:
  assumes "durable_commit env app db = (res, db')"
  obtains (refused) "audit_log db' = audit_log db" "pruned_root db' = pruned_root db" "res \<noteq> Inr True"
    | (ran) raised res' db'' where "audit_log raised = audit_log db" "pruned_root raised = pruned_root db"
        "app raised = (res', db'')" "audit_log db' = audit_log db''" "pruned_root db' = pruned_root db''"
        "res = res' \<or> res \<noteq> Inr True"
proof (cases "\<exists>e. (res, db') = (Inl e, db)")
  case True
  then show ?thesis using refused by auto
next
  case False
  let ?raised = "db\<lparr>sync_settings := (max (fst (sync_settings db)) 2, 1)\<rparr>"
  obtain outcome db'' where tx: "durable_transaction env app ?raised = (outcome, db'')" by fastforce
  have out: "(res = outcome \<or> res \<noteq> Inr True) \<and>
      audit_log db' = audit_log db'' \<and> pruned_root db' = pruned_root db''"
    using assms False tx
    by (auto simp: durable_commit_def Let_def split: option.splits if_splits)
  from durable_transaction_cases [OF tx] show ?thesis
  proof
    assume "db'' = ?raised \<and> outcome \<noteq> Inr True"
    then show ?thesis using out refused by auto
  next
    assume "(outcome, db'') = app ?raised"
    then show ?thesis using out ran [of ?raised outcome db''] by simp
  qed
qed

lemma save_audit_entry_trail:
  assumes "audit_inv sha (conn g)"
    and "save_audit_entry_with_durability sha ts autocommit fault durable e g = (res, g')"
  shows "(audit_trail (conn g') = audit_trail (conn g) \<and> res \<noteq> Inr True) \<or>
      saved_as ts e (conn g) (conn g')"
    and "audit_inv sha (conn g')" and "legacy_rows (conn g') = legacy_rows (conn g)"
proof -
  let ?app = "audit_append sha ts fault e"
  consider (same) "conn g' = conn g" "res \<noteq> Inr True"
    | (plain) "?app (conn g) = (res, conn g')"
    | (durably) env where "durable_commit env ?app (conn g) = (res, conn g')"
    using assms(2)
    by (auto simp: save_audit_entry_with_durability_def retained_run_def Let_def
        split: if_splits option.splits prod.splits)
  then have "((audit_trail (conn g') = audit_trail (conn g) \<and> res \<noteq> Inr True) \<or>
      saved_as ts e (conn g) (conn g')) \<and>
      audit_inv sha (conn g') \<and> legacy_rows (conn g') = legacy_rows (conn g)"
  proof cases
    case same
    then show ?thesis using assms(1) by simp
  next
    case plain
    then show ?thesis using audit_append_trail [OF assms(1) plain] audit_append_inv [OF assms(1) plain] by auto
  next
    case durably
    then show ?thesis
    proof (cases rule: durable_commit_cases)
      case refused
      then show ?thesis using audit_view_cong [OF refused(1,2)] assms(1) by simp
    next
      case (ran raised res' db'')
      note before = audit_view_cong [OF ran(1,2)]
      note after = audit_view_cong [OF ran(4,5)]
      have inv: "audit_inv sha raised" using assms(1) before(4) by simp
      show ?thesis
        using audit_append_trail [OF inv ran(3)] audit_append_inv [OF inv ran(3)] before after ran(1,6)
        by (auto simp: saved_as_def)
    qed
  qed
  then show "(audit_trail (conn g') = audit_trail (conn g) \<and> res \<noteq> Inr True) \<or>
      saved_as ts e (conn g) (conn g')"
    and "audit_inv sha (conn g')" and "legacy_rows (conn g') = legacy_rows (conn g)" by simp_all
qed

text \<open>What the retention does: it drops a prefix of the trail that is older than the cutoff.\<close>

definition retention_cutoff :: "(instant \<Rightarrow> string) \<Rightarrow> instant \<Rightarrow> string" where
  "retention_cutoff ts now = ts (now - AUDIT_TRAIL_RETENTION_DAYS * NANOS_PER_DAY)"

definition pruned_as :: "string \<Rightarrow> AuditDb \<Rightarrow> AuditDb \<Rightarrow> bool" where
  "pruned_as cutoff db db' \<longleftrightarrow>
     (\<exists>k. audit_trail db' = drop k (audit_trail db) \<and>
          (audit_trail db \<noteq> [] \<longrightarrow> k < length (audit_trail db)) \<and>
          (\<forall>r \<in> set (take k (audit_trail db)). cr_timestamp_rfc3339 r < cutoff))"

lemma pruned_as_refl: "audit_trail db' = audit_trail db \<Longrightarrow> pruned_as cutoff db db'"
  unfolding pruned_as_def by (intro exI [of _ 0]) simp

lemma prune_prefix_trail:
  assumes "audit_inv sha db" and "prune_prefix cutoff db = (n, db')"
  shows "pruned_as cutoff db db'" and "audit_inv sha db'" and "legacy_rows db' = legacy_rows db"
proof -
  obtain s cs where chain: "holds_chain sha db s cs" using assms(1) by (auto simp: audit_inv_def)
  have "pruned_as cutoff db db' \<and> audit_inv sha db'"
    using chain assms(2)
  proof (cases rule: prune_prefix_holds)
    case kept
    then show ?thesis using assms(1) pruned_as_refl by simp
  next
    case (pruned k)
    have "audit_trail db' = drop k (audit_trail db)" and "audit_trail db = map cw_record cs"
      using holds_chain_rows(2) [OF chain] holds_chain_rows(2) [OF pruned(2)]
      by (simp_all add: audit_trail_def drop_map)
    then have "pruned_as cutoff db db'"
      using pruned(1,3) unfolding pruned_as_def
      by (intro exI [of _ k]) (auto simp: take_map)
    moreover have "drop k cs \<noteq> []" using pruned(1) by simp
    ultimately show ?thesis using pruned(2) unfolding audit_inv_def by blast
  qed
  then show "pruned_as cutoff db db'" and "audit_inv sha db'" by simp_all
  have "filter (Not \<circ> chained) (filter (Not \<circ> below_seq q) rows) = filter (Not \<circ> chained) rows" for q rows
    by (induction rows) (auto simp: below_seq_def chained_def)
  then show "legacy_rows db' = legacy_rows db"
    using assms(2) by (auto simp: prune_prefix_def legacy_rows_def split: option.splits)
qed

lemma enforce_audit_retention_trail:
  assumes "audit_inv sha (conn g)"
    and "enforce_audit_retention ts now session_ok fault h g = (res, g')"
  shows "pruned_as (retention_cutoff ts now) (conn g) (conn g')"
    and "audit_inv sha (conn g')" and "legacy_rows (conn g') = legacy_rows (conn g)"
proof -
  let ?cutoff = "retention_cutoff ts now"
  define db where "db = (if session_ok then (conn g)\<lparr>session_audit_log :=
      filter (\<lambda>s. \<not> fst s < ?cutoff) (session_audit_log (conn g))\<rparr> else conn g)"
  have view: "audit_log db = audit_log (conn g)" "pruned_root db = pruned_root (conn g)"
    by (simp_all add: db_def)
  have "conn g' = conn g \<or> conn g' = snd (prune_prefix ?cutoff db)"
    using assms(2)
    by (auto simp: enforce_audit_retention_def retention_cutoff_def guard_run_def write_lock_def Let_def
        db_def split: if_splits option.splits prod.splits)
  then consider (same) "conn g' = conn g"
    | (ran) n where "prune_prefix ?cutoff db = (n, conn g')"
    by (metis prod.collapse)
  then have "pruned_as ?cutoff (conn g) (conn g') \<and> audit_inv sha (conn g') \<and>
      legacy_rows (conn g') = legacy_rows (conn g)"
  proof cases
    case same
    then show ?thesis using assms(1) pruned_as_refl by simp
  next
    case (ran n)
    then show ?thesis
      using prune_prefix_trail [OF _ ran, of sha] audit_view_cong [OF view] assms(1)
      by (simp add: pruned_as_def)
  qed
  then show "pruned_as ?cutoff (conn g) (conn g')" and "audit_inv sha (conn g')"
    and "legacy_rows (conn g') = legacy_rows (conn g)" by simp_all
qed

interpretation audit: invariant_machine "audit_step sha ts"
  "\<lambda>g. audit_inv sha (conn g) \<and> legacy_rows (conn g) = rows" for sha ts rows
proof
  fix g :: "AuditDb GuardedConnection" and x
  assume inv: "audit_inv sha (conn g) \<and> legacy_rows (conn g) = rows"
  show "audit_inv sha (conn (audit_step sha ts g x)) \<and> legacy_rows (conn (audit_step sha ts g x)) = rows"
  proof (cases x)
    case (SaveAudit autocommit fault durable e)
    then show ?thesis
      using save_audit_entry_trail(2,3) [OF conjunct1 [OF inv] prod.collapse [symmetric]] inv by simp
  next
    case (RetainAudit now session_ok fault h)
    then show ?thesis
      using enforce_audit_retention_trail(2,3) [OF conjunct1 [OF inv] prod.collapse [symmetric]] inv
      by simp
  qed
qed

text \<open>A table that an upgrade found: rows without a chain only.\<close>

definition upgraded :: "AuditDb \<Rightarrow> bool" where
  "upgraded db \<longleftrightarrow> list_all (\<lambda>r. \<not> chained r) (audit_log db) \<and> pruned_root db = None"

lemma upgraded_inv:
  assumes "upgraded db"
  shows "audit_inv sha db" and "legacy_rows db = audit_log db"
proof -
  have none: "filter chained (audit_log db) = []"
    using assms by (auto simp: upgraded_def list_all_iff filter_empty_conv)
  then have "holds_chain sha db 0 []" by (simp add: holds_chain_def)
  then show "audit_inv sha db" using assms by (auto simp: audit_inv_def upgraded_def)
  show "legacy_rows db = audit_log db"
    using assms by (auto simp: legacy_rows_def upgraded_def list_all_iff filter_id_conv)
qed

lemma upgraded_run:
  assumes "upgraded (conn g)"
  shows "audit_inv sha (conn (foldl (audit_step sha ts) g ops))"
    and "legacy_rows (conn (foldl (audit_step sha ts) g ops)) = audit_log (conn g)"
  using audit.run_inv [of sha g "audit_log (conn g)" ts ops] upgraded_inv [OF assms] by simp_all

text \<open>
  Deleting the newest rows is not noticed: the table still verifies when all chained rows from some
  sequence number on are removed, because nothing outside the table records the last hash.
\<close>

lemma newest_rows_can_vanish:
  assumes "audit_inv sha db"
  shows "rp_ok (verify_audit_chain sha
    (db\<lparr>audit_log := filter (\<lambda>r. \<not> chained r \<or> below_seq m r) (audit_log db)\<rparr>))"
proof -
  obtain s cs where chain: "holds_chain sha db s cs" using assms by (auto simp: audit_inv_def)
  define k where "k = min (length cs) (nat (m - s))"
  let ?rows = "filter chained (audit_log db)"
  let ?db = "db\<lparr>audit_log := filter (\<lambda>r. \<not> chained r \<or> below_seq m r) (audit_log db)\<rparr>"
  have len: "length ?rows = length cs"
    using chain unfolding holds_chain_def by (metis length_map)
  have below: "below_seq m (?rows ! i) \<longleftrightarrow> i < k" if "i < length cs" for i
    using holds_chain_nth(3) [OF chain that] that by (auto simp: below_seq_def k_def)
  have "filter (below_seq m) (take k ?rows) = take k ?rows"
    using below len by (auto simp: filter_id_conv in_set_conv_nth k_def)
  moreover have "filter (below_seq m) (drop k ?rows) = []"
    using below len by (auto simp: filter_empty_conv in_set_conv_nth)
  ultimately have "filter (below_seq m) ?rows = take k ?rows"
    by (metis append_Nil2 append_take_drop_id filter_append)
  moreover have "filter chained (filter (\<lambda>r. \<not> chained r \<or> below_seq m r) rows) =
      filter (below_seq m) (filter chained rows)" for rows
    by (induction rows) auto
  ultimately have rows: "filter chained (audit_log ?db) = take k ?rows" by simp
  have "map read_chain_row (filter chained (audit_log ?db)) = map Some (take k cs)"
    unfolding rows take_map [symmetric] using chain unfolding holds_chain_def by simp
  moreover have "linked sha (chain_root ?db) s (take k cs)"
    using chain linked_append [of sha "chain_root db" s "take k cs" "drop k cs"]
    by (simp add: holds_chain_def chain_root_def)
  ultimately have "holds_chain sha ?db s (take k cs)" by (simp add: holds_chain_def)
  then show ?thesis
    using holds_chain_rows(2) [of sha ?db s "take k cs"] verify_ok_iff [of sha ?db]
    by (auto simp: holds_chain_def)
qed

lemma length_GENESIS: "length GENESIS_PREV_HASH = 64"
  by (simp add: GENESIS_PREV_HASH_def)

text \<open>A small table for the witnesses: one row from before the chain.\<close>

definition sample_sha :: "string \<Rightarrow> string" where
  "sample_sha x = replicate 64 (CHR ''a'')"

definition sample_ts :: "instant \<Rightarrow> string" where
  "sample_ts t = ''2026-06-03T00:00:00+00:00''"

definition sample_entry :: AuditEntry where
  "sample_entry =
     \<lparr>ae_entry_id = ''aud-1'', ae_timestamp = 5, ae_session_id = ''s'', ae_command_id = ''c'',
      ae_action_type = ''MouseMove'', ae_status = AuditStarted, ae_details = None,
      ae_execution_time_ms = Some 42\<rparr>"

definition sample_legacy :: AuditRow where
  "sample_legacy =
     \<lparr>ar_entry_id = ''aud-0'', ar_timestamp = ''2025-01-01T00:00:00+00:00'', ar_session_id = ''s'',
      ar_command_id = ''c'', ar_action_type = ''KeyPress'', ar_status = ''Completed'',
      ar_details = None, ar_execution_time_ms = None, ar_seq = None, ar_prev_hash = None,
      ar_entry_hash = None\<rparr>"

definition sample_audit_db :: "AuditRow list \<Rightarrow> AuditDb" where
  "sample_audit_db rows =
     \<lparr>audit_log = rows, pruned_root = None, session_audit_log = [], conn_path = Some ''audit.db'',
      journal_mode = ''wal'', sync_settings = (1, 0)\<rparr>"

definition sample_audit :: "AuditDb GuardedConnection" where
  "sample_audit = \<lparr>conn = sample_audit_db [sample_legacy], gc_deletion_flag = 0, gc_erasing = 1\<rparr>"

lemmas audit_sample_defs = sample_sha_def sample_ts_def sample_entry_def sample_legacy_def sample_audit_db_def
  sample_audit_def

lemma sample_audit_upgraded: "upgraded (conn sample_audit)"
  by (simp add: upgraded_def chained_def audit_sample_defs)

subsection \<open>Properties\<close>

text \<open> C21. Starting from any table of rows without a chain, after any sequence of saves, plain or
  durable, of new or repeated entries, with statements that fail, and of retention runs, the
  verification of the audit chain reports success: every chained row is verified, there is no break,
  and the rows from before the chain are all still there. \<close>

theorem audit_chain_always_verifies:
  fixes sha :: "string \<Rightarrow> string" and ts :: "instant \<Rightarrow> string" and ops :: "audit_op list"
  assumes "upgraded (conn g)"
  defines "report \<equiv> verify_audit_chain sha (conn (foldl (audit_step sha ts) g ops))"
  shows "rp_ok report \<and> rp_first_break report = None \<and>
    rp_verified_count report =
      length (filter chained (audit_log (conn (foldl (audit_step sha ts) g ops)))) \<and>
    rp_legacy_unchained_count report = length (audit_log (conn g))"
proof -
  let ?db = "conn (foldl (audit_step sha ts) g ops)"
  note run = upgraded_run [OF assms(1), of sha ts ops]
  note ok = audit_inv_verifies [OF run(1)]
  have "rp_legacy_unchained_count report = length (legacy_rows ?db)"
    by (simp add: report_def verify_audit_chain_def legacy_rows_def Let_def split: list.split prod.split)
  then show ?thesis
    using ok run(2) verify_break unfolding report_def by simp
qed

theorem audit_chain_always_verifies_witness:
  "upgraded (conn sample_audit) \<and>
   rp_ok (verify_audit_chain sample_sha
     (conn (foldl (audit_step sample_sha sample_ts) sample_audit
       [SaveAudit True None None sample_entry, SaveAudit True None None sample_entry,
        RetainAudit 9 True None [False, False]])))"
  using audit_chain_always_verifies [of sample_audit sample_sha sample_ts
      "[SaveAudit True None None sample_entry, SaveAudit True None None sample_entry,
        RetainAudit 9 True None [False, False]]"]
    sample_audit_upgraded by simp

text \<open> C36. The audit table is an append-only log with a bounded age. From any reachable table, a save
  that is acknowledged as new puts exactly its record behind all the others, under an entry id that
  was not in the table; a save that is not acknowledged changes nothing, or adds that same record.
  A retention run drops a prefix of records that are all older than two years, and never the last
  record. \<close>

theorem audit_log_is_append_only:
  fixes sha :: "string \<Rightarrow> string" and ts :: "instant \<Rightarrow> string" and ops :: "audit_op list"
  assumes "upgraded (conn g0)"
  defines "g \<equiv> foldl (audit_step sha ts) g0 ops"
  shows "(case save_audit_entry_with_durability sha ts autocommit fault durable e g of (res, g') \<Rightarrow>
      if res = Inr True then saved_as ts e (conn g) (conn g')
      else audit_trail (conn g') = audit_trail (conn g) \<or> saved_as ts e (conn g) (conn g')) \<and>
    pruned_as (retention_cutoff ts now) (conn g)
      (conn (snd (enforce_audit_retention ts now session_ok fault' h g)))"
proof -
  have inv: "audit_inv sha (conn g)" unfolding g_def by (rule upgraded_run(1) [OF assms(1)])
  obtain res g' where save: "save_audit_entry_with_durability sha ts autocommit fault durable e g = (res, g')"
    by fastforce
  show ?thesis
    using save save_audit_entry_trail(1) [OF inv save]
      enforce_audit_retention_trail(1) [OF inv prod.collapse [symmetric], of ts now session_ok fault' h]
    by auto
qed

theorem audit_log_is_append_only_witness:
  "upgraded (conn sample_audit) \<and>
   saved_as sample_ts sample_entry (conn sample_audit)
     (conn (snd (save_audit_entry_with_durability sample_sha sample_ts True None None sample_entry
        sample_audit)))"
proof -
  have "fst (save_audit_entry_with_durability sample_sha sample_ts True None None sample_entry
      sample_audit) = Inr True"
    by (simp add: save_audit_entry_with_durability_def retained_run_def audit_append_def and_then_def
        chain_tip_def chained_rows_def chained_def next_link_def compute_entry_hash_def
        canonical_bytes_def push_str_field_def push_len_prefix_def push_opt_str_field_def
        insert_or_ignore_def entry_row_def entry_record_def audit_sample_defs)
  then show ?thesis
    using audit_log_is_append_only [of sample_audit, where sha = sample_sha and ts = sample_ts and
        ops = "[]" and autocommit = True and fault = None and durable = None and e = sample_entry]
      sample_audit_upgraded by (auto simp: case_prod_beta)
qed



end
