(* ===== verification/Policy_Token.thy ===== *)
theory Policy_Token
  imports Prelude
begin

text \<open>
  Execution tickets of the automation policies (\<open>crates/maekon-automation/src/policy/token.rs\<close> and
  \<open>policy/models.rs\<close>): parsing, issuing, the signature and its verification.

  A token is \<open>policy_id:nonce[:h<hash>][:<signature>]\<close>. HMAC-SHA256 (\<open>hmac key payload\<close>, the bytes of
  the tag) is a parameter; the signing secret is the value of an environment variable
  (\<open>secret_env\<close>). White space is the ASCII one.
\<close>

subsection \<open>Data\<close>

datatype AuditLevel = LevelNone | LevelBasic | LevelDetailed | LevelFull

datatype SandboxProfile = Permissive | Standard | Strict

datatype ConfirmationRequirement = ConfirmAuto | ConfirmAsk | ConfirmBlock

record ExecutionPolicy =
  policy_id :: string
  process_name :: string
  process_hash :: "string option"
  allowed_args :: "string list"
  requires_sudo :: bool
  max_execution_time_ms :: u64
  audit_level :: AuditLevel
  sandbox_profile :: "SandboxProfile option"
  allowed_paths :: "string list"
  allow_network :: "bool option"
  require_signed_token :: bool
  confirmation :: ConfirmationRequirement

datatype CommandOrigin = InternalOrigin | ExternalOrigin

datatype AutomationAction =
    MouseMove int int
  | MouseClick string int int
  | KeyType string
  | KeyPress string
  | KeyRelease string
  | Hotkey "string list"

record AutomationCommand =
  cmd_command_id :: string
  cmd_session_id :: string
  cmd_action :: AutomationAction
  cmd_timeout_ms :: "u64 option"
  cmd_policy_token :: string
  cmd_origin :: CommandOrigin

datatype AutomationError =
    InvalidArguments string
  | PolicyDenied string
  | PolicyBlocked
  | UserDenied
  | AutomationInternal string
  | ConfigMissing string
  | ExecutionTimeout u64

record ParsedPolicyToken =
  tok_policy_id :: string
  tok_nonce :: string
  tok_command_hash :: "string option"
  tok_signature :: "string option"

subsection \<open>Hexadecimal\<close>

definition ascii_digit :: "char \<Rightarrow> bool" where
  "ascii_digit c \<longleftrightarrow> CHR ''0'' \<le> c \<and> c \<le> CHR ''9''"

definition ascii_alphanumeric :: "char \<Rightarrow> bool" where
  "ascii_alphanumeric c \<longleftrightarrow> ascii_digit c \<or> (CHR ''a'' \<le> c \<and> c \<le> CHR ''z'') \<or>
     (CHR ''A'' \<le> c \<and> c \<le> CHR ''Z'')"

text \<open>\<open>char::to_digit(16)\<close>\<close>

definition hex_value :: "char \<Rightarrow> nat option" where
  "hex_value c =
     (if ascii_digit c then Some (of_char c - 48)
      else if CHR ''a'' \<le> c \<and> c \<le> CHR ''f'' then Some (of_char c - 87)
      else if CHR ''A'' \<le> c \<and> c \<le> CHR ''F'' then Some (of_char c - 55)
      else None)"

definition is_hexdigit :: "char \<Rightarrow> bool" where
  "is_hexdigit c \<longleftrightarrow> hex_value c \<noteq> None"

definition hex_digit :: "nat \<Rightarrow> char" where
  "hex_digit n = (if n < 10 then char_of (48 + n) else char_of (87 + n))"

text \<open>\<open>format!("{byte:02x}")\<close> over all bytes.\<close>

definition encode_byte :: "u8 \<Rightarrow> string" where
  "encode_byte b = [hex_digit (unat b div 16), hex_digit (unat b mod 16)]"

definition hex_encode :: "u8 list \<Rightarrow> string" where
  "hex_encode bs = concat (map encode_byte bs)"

text \<open>\<open>u8::from_str_radix(pair, 16)\<close> on two characters: a leading plus sign is accepted.\<close>

definition from_str_radix16 :: "char \<Rightarrow> char \<Rightarrow> u8 option" where
  "from_str_radix16 a b =
     (if a = CHR ''+'' then map_option of_nat (hex_value b)
      else (case (hex_value a, hex_value b) of
              (Some x, Some y) \<Rightarrow> Some (of_nat (16 * x + y))
            | _ \<Rightarrow> None))"

fun decode_pairs :: "string \<Rightarrow> u8 list option" where
  "decode_pairs [] = Some []"
| "decode_pairs [a] = Some []"
| "decode_pairs (a # b # s) =
     (case from_str_radix16 a b of
        None \<Rightarrow> None
      | Some x \<Rightarrow> map_option ((#) x) (decode_pairs s))"

definition is_ascii :: "char \<Rightarrow> bool" where
  "is_ascii c \<longleftrightarrow> of_char c < (128 :: nat)"

definition hex_decode :: "string \<Rightarrow> u8 list option" where
  "hex_decode s =
     (if \<not> list_all is_ascii s \<or> odd (length s) then None else decode_pairs s)"

subsection \<open>Formats\<close>

definition is_valid_hash :: "string \<Rightarrow> bool" where
  "is_valid_hash h \<longleftrightarrow> length h = 64 \<and> list_all is_hexdigit h"

definition is_valid_signature :: "string \<Rightarrow> bool" where
  "is_valid_signature s \<longleftrightarrow> is_valid_hash s"

definition is_valid_nonce :: "string \<Rightarrow> bool" where
  "is_valid_nonce n \<longleftrightarrow> 8 \<le> length n \<and>
     list_all (\<lambda>c. ascii_alphanumeric c \<or> c = CHR ''-'' \<or> c = CHR ''_'') n"

definition COMMAND_HASH_SEGMENT_PREFIX :: char where
  "COMMAND_HASH_SEGMENT_PREFIX = CHR ''h''"

definition parse_command_hash_segment :: "string \<Rightarrow> string option" where
  "parse_command_hash_segment seg =
     (case seg of
        [] \<Rightarrow> None
      | c # h \<Rightarrow>
          if c \<noteq> COMMAND_HASH_SEGMENT_PREFIX then None
          else if \<not> is_valid_hash h then None else Some h)"

definition parsed_token ::
  "string \<Rightarrow> string \<Rightarrow> string option \<Rightarrow> string option \<Rightarrow> ParsedPolicyToken option" where
  "parsed_token pid nonce chash sig =
     (if pid = [] \<or> nonce = [] then None
      else if (case chash of None \<Rightarrow> False | Some h \<Rightarrow> \<not> is_valid_hash h) then None
      else if sig = Some [] then None
      else Some \<lparr>tok_policy_id = pid, tok_nonce = nonce, tok_command_hash = chash,
                 tok_signature = sig\<rparr>)"

definition parse_policy_token :: "string \<Rightarrow> ParsedPolicyToken option" where
  "parse_policy_token token =
     (case map trim (split_on (CHR '':'') token) of
        [pid, nonce] \<Rightarrow> parsed_token pid nonce None None
      | [pid, nonce, third] \<Rightarrow>
          (case parse_command_hash_segment third of
             Some h \<Rightarrow> parsed_token pid nonce (Some h) None
           | None \<Rightarrow> parsed_token pid nonce None (Some third))
      | [pid, nonce, third, fourth] \<Rightarrow>
          (case parse_command_hash_segment third of
             None \<Rightarrow> None
           | Some h \<Rightarrow> parsed_token pid nonce (Some h) (Some fourth))
      | _ \<Rightarrow> None)"

subsection \<open>Signing\<close>

definition load_signing_secret :: "string option \<Rightarrow> string option" where
  "load_signing_secret secret_env =
     (case secret_env of
        None \<Rightarrow> None
      | Some v \<Rightarrow> let s = trim v in if s = [] then None else Some s)"

definition build_signature_payload :: "string \<Rightarrow> string \<Rightarrow> string option \<Rightarrow> string" where
  "build_signature_payload pid nonce chash =
     (case chash of
        Some h \<Rightarrow> pid @ '':'' @ nonce @ '':'' @ h
      | None \<Rightarrow> pid @ '':'' @ nonce)"

definition compute_policy_token_signature ::
  "(string \<Rightarrow> string \<Rightarrow> u8 list) \<Rightarrow> string \<Rightarrow> string \<Rightarrow> string option \<Rightarrow> string \<Rightarrow> string" where
  "compute_policy_token_signature hmac pid nonce chash secret =
     hex_encode (hmac secret (build_signature_payload pid nonce chash))"

definition verify_policy_token_signature ::
  "(string \<Rightarrow> string \<Rightarrow> u8 list) \<Rightarrow> string option \<Rightarrow> string \<Rightarrow> string \<Rightarrow> string option \<Rightarrow> string
    \<Rightarrow> bool" where
  "verify_policy_token_signature hmac secret_env pid nonce chash sig =
     (case load_signing_secret secret_env of
        None \<Rightarrow> False
      | Some secret \<Rightarrow>
          (case hex_decode sig of
             None \<Rightarrow> False
           | Some bytes \<Rightarrow> bytes = hmac secret (build_signature_payload pid nonce chash)))"

subsection \<open>The scope of a command\<close>

text \<open>
  \<open>compute_command_scope_hash\<close>: \<open>scope_digest\<close> is the hexadecimal SHA-256 of the JSON of the scope, or
  no value when the serialisation fails. The scope has no token and no origin.
\<close>

type_synonym policy_scope = "string \<times> string \<times> AutomationAction \<times> u64 option"

definition command_scope :: "AutomationCommand \<Rightarrow> policy_scope" where
  "command_scope cmd =
     (cmd_command_id cmd, cmd_session_id cmd, cmd_action cmd, cmd_timeout_ms cmd)"

definition compute_command_scope_hash ::
  "(policy_scope \<Rightarrow> string option) \<Rightarrow> AutomationCommand \<Rightarrow> AutomationError + string" where
  "compute_command_scope_hash scope_digest cmd =
     (case scope_digest (command_scope cmd) of
        None \<Rightarrow> Inl (AutomationInternal ''Failed to serialize policy token command scope'')
      | Some h \<Rightarrow> Inr h)"

subsection \<open>Issuing\<close>

definition issue_command_token_for_policy ::
  "(string \<Rightarrow> string \<Rightarrow> u8 list) \<Rightarrow> string option \<Rightarrow> ExecutionPolicy \<Rightarrow> string \<Rightarrow> string option
    \<Rightarrow> AutomationError + string" where
  "issue_command_token_for_policy hmac secret_env policy nonce chash =
     (if \<not> is_valid_nonce nonce
      then Inl (InvalidArguments ''policy token nonce format is invalid'')
      else if (case chash of None \<Rightarrow> False | Some h \<Rightarrow> \<not> is_valid_hash h)
      then Inl (InvalidArguments ''policy token command hash format is invalid'')
      else
        (let token = policy_id policy @ '':'' @ nonce @
               (case chash of
                  None \<Rightarrow> []
                | Some h \<Rightarrow> '':'' @ [COMMAND_HASH_SEGMENT_PREFIX] @ h)
         in if require_signed_token policy
            then (case load_signing_secret secret_env of
                    None \<Rightarrow> Inl (ConfigMissing ''signature policy is enabled but the secret is empty'')
                  | Some secret \<Rightarrow>
                      Inr (token @ '':'' @
                        compute_policy_token_signature hmac (policy_id policy) nonce chash secret))
            else Inr token))"

subsection \<open>Hexadecimal round trip\<close>

lemma hex_value_digit: "n < 16 \<Longrightarrow> hex_value (hex_digit n) = Some n"
proof -
  assume "n < 16"
  then have "n \<in> set [0..<16]" by simp
  then show ?thesis
    by (simp add: upt_conv_Cons eval_nat_numeral)
      (auto simp: hex_digit_def hex_value_def ascii_digit_def less_eq_char_def)
qed

lemma hex_digit_plain:
  assumes "n < 16"
  shows "hex_digit n \<noteq> CHR ''+''" and "is_ascii (hex_digit n)" and "is_hexdigit (hex_digit n)"
    and "hex_digit n \<noteq> CHR '':''" and "\<not> is_space (hex_digit n)"
    and "hex_digit n \<noteq> COMMAND_HASH_SEGMENT_PREFIX"
proof -
  have hv: "hex_value (hex_digit n) = Some n" by (rule hex_value_digit [OF assms])
  show "is_hexdigit (hex_digit n)" by (simp add: is_hexdigit_def hv)
  show "hex_digit n \<noteq> CHR ''+''" "hex_digit n \<noteq> CHR '':''" "\<not> is_space (hex_digit n)"
    "hex_digit n \<noteq> COMMAND_HASH_SEGMENT_PREFIX"
    using hv by (auto simp: hex_value_def ascii_digit_def is_space_def less_eq_char_def
        COMMAND_HASH_SEGMENT_PREFIX_def)
  show "is_ascii (hex_digit n)"
    using assms by (auto simp: hex_digit_def is_ascii_def)
qed

lemma unat_byte_nibbles:
  fixes b :: u8
  shows "unat b div 16 < 16" and "unat b mod 16 < 16"
proof -
  have "unat b < 2 ^ LENGTH(8)" by (rule unsigned_less)
  then show "unat b div 16 < 16" by simp
qed simp

lemma decode_encode_byte:
  "from_str_radix16 (hex_digit (unat b div 16)) (hex_digit (unat b mod 16)) = Some (b :: u8)"
proof -
  have "16 * (unat b div 16) + unat b mod 16 = unat b" by simp
  moreover have "of_nat (unat b) = b" by simp
  ultimately have "(of_nat (16 * (unat b div 16) + unat b mod 16) :: u8) = b" by metis
  then show ?thesis
    using hex_digit_plain(1) [OF unat_byte_nibbles(1), of b] hex_value_digit unat_byte_nibbles
    unfolding from_str_radix16_def by simp
qed

lemma decode_pairs_encode: "decode_pairs (hex_encode bs) = Some bs"
  by (induction bs) (simp_all add: hex_encode_def encode_byte_def decode_encode_byte)

lemma length_hex_encode [simp]: "length (hex_encode bs) = 2 * length bs"
  by (induction bs) (simp_all add: hex_encode_def encode_byte_def)

lemma set_hex_encode:
  assumes "c \<in> set (hex_encode bs)"
  obtains n where "n < 16" "c = hex_digit n"
proof -
  obtain b :: u8 where "c \<in> set (encode_byte b)" using assms by (auto simp: hex_encode_def)
  then have "c = hex_digit (unat b div 16) \<or> c = hex_digit (unat b mod 16)"
    by (simp add: encode_byte_def)
  then show ?thesis using that unat_byte_nibbles [of b] by blast
qed

lemma hex_decode_encode: "hex_decode (hex_encode bs) = Some bs"
  by (auto simp: hex_decode_def decode_pairs_encode list_all_iff elim!: set_hex_encode
      dest: hex_digit_plain(2))

lemma hex_encode_valid: "length bs = 32 \<Longrightarrow> is_valid_hash (hex_encode bs)"
  by (auto simp: is_valid_hash_def list_all_iff elim!: set_hex_encode dest: hex_digit_plain(3))

subsection \<open>An issued token parses back\<close>

text \<open>A string without a colon and without white space.\<close>

definition solid :: "string \<Rightarrow> bool" where
  "solid s \<longleftrightarrow> list_all (\<lambda>c. c \<noteq> CHR '':'' \<and> \<not> is_space c) s"

lemma solid_simps [simp]:
  "solid (a @ b) \<longleftrightarrow> solid a \<and> solid b"
  "solid (c # a) \<longleftrightarrow> c \<noteq> CHR '':'' \<and> \<not> is_space c \<and> solid a"
  "solid []"
  by (auto simp: solid_def)

lemma solid_no_colon: "solid s \<Longrightarrow> CHR '':'' \<notin> set s"
  by (auto simp: solid_def list_all_iff)

lemma solid_trim: "solid s \<Longrightarrow> trim s = s"
  by (rule trim_free) (auto simp: solid_def list_all_iff)

lemma hexdigit_solid: "is_hexdigit c \<Longrightarrow> c \<noteq> CHR '':'' \<and> \<not> is_space c"
  by (auto simp: is_hexdigit_def hex_value_def ascii_digit_def is_space_def less_eq_char_def
      split: if_splits)

lemma hash_solid: "is_valid_hash h \<Longrightarrow> solid h"
  using hexdigit_solid by (auto simp: is_valid_hash_def solid_def list_all_iff)

lemma nonce_solid: "is_valid_nonce n \<Longrightarrow> solid n"
  by (auto simp: is_valid_nonce_def solid_def list_all_iff ascii_alphanumeric_def ascii_digit_def
      is_space_def less_eq_char_def)

lemma nonce_nonempty: "is_valid_nonce n \<Longrightarrow> n \<noteq> []"
  by (auto simp: is_valid_nonce_def)

lemma hash_nonempty: "is_valid_hash h \<Longrightarrow> h \<noteq> []"
  by (auto simp: is_valid_hash_def)

text \<open>A valid hash has 64 characters, a hash segment 65: a signature is never read as one.\<close>

lemma hash_not_segment: "is_valid_hash s \<Longrightarrow> parse_command_hash_segment s = None"
  by (cases s) (auto simp: parse_command_hash_segment_def is_valid_hash_def)

lemma segment_round_trip:
  "is_valid_hash h \<Longrightarrow> parse_command_hash_segment (COMMAND_HASH_SEGMENT_PREFIX # h) = Some h"
  by (simp add: parse_command_hash_segment_def)

text \<open>A policy id that a token can carry.\<close>

definition plain_id :: "string \<Rightarrow> bool" where
  "plain_id pid \<longleftrightarrow> pid \<noteq> [] \<and> CHR '':'' \<notin> set pid \<and> trim pid = pid"

lemma trim_fixed:
  assumes "trim s = s" and "s \<noteq> []"
  shows "\<not> is_space (hd s)" and "\<not> is_space (last s)"
proof -
  have len: "length (trim t) \<le> length (dropWhile is_space t)" for t
    by (metis length_dropWhile_le length_rev trim_def)
  show hd: "\<not> is_space (hd s)"
  proof
    assume "is_space (hd s)"
    then have "length (dropWhile is_space s) < length s"
      using assms(2) by (cases s) (simp_all add: le_imp_less_Suc length_dropWhile_le)
    then show False using len [of s] assms(1) by simp
  qed
  then have "dropWhile is_space s = s" using assms(2) by (cases s) simp_all
  then have "dropWhile is_space (rev s) = rev s" using assms(1) by (simp add: trim_def rev_swap)
  then show "\<not> is_space (last s)"
    using assms(2) hd_dropWhile [of is_space "rev s"] by (simp add: hd_rev)
qed

lemma trim_trim [simp]: "trim (trim s) = trim s"
proof (cases "trim s = []")
  case True
  then show ?thesis by simp
next
  case False
  define t where "t = dropWhile is_space s"
  have t: "trim s = rev (dropWhile is_space (rev t))" by (simp add: trim_def t_def)
  have "t \<noteq> []" using False by (auto simp: t)
  then have "\<not> is_space (hd t)" unfolding t_def by (metis hd_dropWhile)
  obtain u where u: "t = trim s @ u"
    using takeWhile_dropWhile_id [of is_space "rev t"] t by (metis rev_append rev_rev_ident)
  have "\<not> is_space (hd (trim s))" using \<open>\<not> is_space (hd t)\<close> False by (simp add: u hd_append)
  moreover have "\<not> is_space (last (trim s))"
    using False hd_dropWhile [of is_space "rev t"] by (simp add: t last_rev)
  ultimately show ?thesis by (intro trim_solid) simp
qed

definition token_of :: "string \<Rightarrow> string \<Rightarrow> string option \<Rightarrow> string option \<Rightarrow> string" where
  "token_of pid nonce chash sig =
     pid @ '':'' @ nonce @
     (case chash of None \<Rightarrow> [] | Some h \<Rightarrow> '':'' @ [COMMAND_HASH_SEGMENT_PREFIX] @ h) @
     (case sig of None \<Rightarrow> [] | Some x \<Rightarrow> '':'' @ x)"

lemma issue_token_of:
  assumes "issue_command_token_for_policy hmac secret_env policy nonce chash = Inr token"
  obtains (unsigned) "\<not> require_signed_token policy" "is_valid_nonce nonce"
      "pred_option is_valid_hash chash" "token = token_of (policy_id policy) nonce chash None"
    | (signed) secret where "require_signed_token policy" "is_valid_nonce nonce"
      "pred_option is_valid_hash chash" "load_signing_secret secret_env = Some secret"
      "token = token_of (policy_id policy) nonce chash
         (Some (compute_policy_token_signature hmac (policy_id policy) nonce chash secret))"
proof (cases "require_signed_token policy")
  case True
  then obtain secret where "load_signing_secret secret_env = Some secret"
    using assms by (auto simp: issue_command_token_for_policy_def Let_def split: if_splits option.splits)
  then show ?thesis
    using assms True
    by (intro signed [of secret])
      (auto simp: issue_command_token_for_policy_def token_of_def Let_def split: if_splits option.splits)
next
  case False
  then show ?thesis
    using assms
    by (intro unsigned)
      (auto simp: issue_command_token_for_policy_def token_of_def Let_def split: if_splits option.splits)
qed

lemma split_on_segment:
  assumes "is_valid_hash h"
  shows "split_on (CHR '':'') (COMMAND_HASH_SEGMENT_PREFIX # h @ CHR '':'' # t) =
    (COMMAND_HASH_SEGMENT_PREFIX # h) # split_on (CHR '':'') t"
proof -
  have "CHR '':'' \<notin> set (COMMAND_HASH_SEGMENT_PREFIX # h)"
    using solid_no_colon [OF hash_solid [OF assms]] by (simp add: COMMAND_HASH_SEGMENT_PREFIX_def)
  then show ?thesis
    using split_on_append [of "CHR '':''" "COMMAND_HASH_SEGMENT_PREFIX # h" t] by simp
qed

lemma parse_token_of:
  assumes "plain_id pid" and "is_valid_nonce nonce" and "pred_option is_valid_hash chash"
    and "pred_option is_valid_hash sig"
  shows "parse_policy_token (token_of pid nonce chash sig) =
    Some \<lparr>tok_policy_id = pid, tok_nonce = nonce, tok_command_hash = chash, tok_signature = sig\<rparr>"
proof -
  have pid: "CHR '':'' \<notin> set pid" "trim pid = pid" "pid \<noteq> []"
    using assms(1) by (auto simp: plain_id_def)
  have nonce: "CHR '':'' \<notin> set nonce" "trim nonce = nonce" "nonce \<noteq> []"
    using nonce_solid [OF assms(2)] nonce_nonempty [OF assms(2)] solid_no_colon solid_trim by auto
  have hash: "CHR '':'' \<notin> set x" "trim x = x" "x \<noteq> []" "CHR '':'' \<notin> set (COMMAND_HASH_SEGMENT_PREFIX # x)"
      "trim (COMMAND_HASH_SEGMENT_PREFIX # x) = COMMAND_HASH_SEGMENT_PREFIX # x"
    if "is_valid_hash x" for x
  proof -
    have "solid x" by (rule hash_solid [OF that])
    moreover have "solid (COMMAND_HASH_SEGMENT_PREFIX # x)"
      using calculation by (simp add: COMMAND_HASH_SEGMENT_PREFIX_def is_space_def)
    ultimately show "CHR '':'' \<notin> set x" "trim x = x" "x \<noteq> []"
      "CHR '':'' \<notin> set (COMMAND_HASH_SEGMENT_PREFIX # x)"
      "trim (COMMAND_HASH_SEGMENT_PREFIX # x) = COMMAND_HASH_SEGMENT_PREFIX # x"
      using solid_no_colon solid_trim hash_nonempty [OF that] by blast+
  qed
  show ?thesis
    using assms(3,4) pid nonce hash hash_not_segment segment_round_trip
    by (cases chash; cases sig)
      (simp_all add: token_of_def parse_policy_token_def parsed_token_def split_on_append
        split_on_plain split_on_segment del: split_on.simps set_simps)
qed

lemma trim_token_of:
  assumes "plain_id pid" and "is_valid_nonce nonce" and "pred_option is_valid_hash chash"
    and "pred_option is_valid_hash sig"
  shows "trim (token_of pid nonce chash sig) = token_of pid nonce chash sig"
proof (rule trim_solid, rule disjI2, rule conjI)
  show "\<not> is_space (hd (token_of pid nonce chash sig))"
    using assms(1) trim_fixed(1) by (simp add: token_of_def plain_id_def)
  have last_solid: "\<not> is_space (last x)" if "solid x" "x \<noteq> []" for x
    using that last_in_set [of x] by (auto simp: solid_def list_all_iff)
  show "\<not> is_space (last (token_of pid nonce chash sig))"
    using assms(2-4) last_solid nonce_solid nonce_nonempty hash_solid hash_nonempty
    by (cases chash; cases sig) (simp_all add: token_of_def)
qed

subsection \<open>Other spellings of a token\<close>

text \<open>The parts of a token are trimmed one by one, so a space after the first colon is not seen.\<close>

definition respell :: "string \<Rightarrow> string" where
  "respell t =
     (case dropWhile (\<lambda>c. c \<noteq> CHR '':'') t of
        [] \<Rightarrow> t
      | c # b \<Rightarrow> takeWhile (\<lambda>c. c \<noteq> CHR '':'') t @ c # CHR '' '' # b)"

lemma respell_split:
  assumes "CHR '':'' \<notin> set a"
  shows "respell (a @ CHR '':'' # b) = a @ CHR '':'' # CHR '' '' # b"
proof -
  have "dropWhile (\<lambda>c. c \<noteq> CHR '':'') (a @ CHR '':'' # b) = CHR '':'' # b"
    and "takeWhile (\<lambda>c. c \<noteq> CHR '':'') (a @ CHR '':'' # b) = a"
    using assms by (induction a) auto
  then show ?thesis by (simp add: respell_def)
qed

lemma split_on_space: "map trim (split_on (CHR '':'') (CHR '' '' # b)) = map trim (split_on (CHR '':'') b)"
  by (cases "split_on (CHR '':'') b") (simp_all add: trim_space is_space_def)

lemma parsed_has_colon:
  assumes "parse_policy_token t = Some tok"
  obtains a b where "t = a @ CHR '':'' # b" "CHR '':'' \<notin> set a" "a \<noteq> []" "b \<noteq> []"
proof -
  have "CHR '':'' \<in> set t"
  proof (rule ccontr)
    assume "CHR '':'' \<notin> set t"
    then show False using assms by (simp add: parse_policy_token_def split_on_plain)
  qed
  then obtain a b where ab: "t = a @ CHR '':'' # b" "CHR '':'' \<notin> set a"
    by (metis split_list_first)
  have parts: "split_on (CHR '':'') t = a # split_on (CHR '':'') b"
    unfolding ab(1) by (rule split_on_append [OF ab(2)])
  have "a \<noteq> []" and "b \<noteq> []"
    using assms
    by (auto simp: parse_policy_token_def parts parsed_token_def
        split: list.splits option.splits if_splits)
  then show ?thesis using that ab by blast
qed

lemma respell_parses:
  assumes "parse_policy_token t = Some tok" and "trim t = t"
  shows "parse_policy_token (respell t) = Some tok" and "trim (respell t) = respell t"
    and "length (respell t) = Suc (length t)"
proof -
  obtain a b where ab: "t = a @ CHR '':'' # b" "CHR '':'' \<notin> set a" "a \<noteq> []" "b \<noteq> []"
    using parsed_has_colon [OF assms(1)] .
  have respelled: "respell t = a @ CHR '':'' # CHR '' '' # b"
    unfolding ab(1) by (rule respell_split [OF ab(2)])
  have "parse_policy_token (respell t) = parse_policy_token t"
    unfolding parse_policy_token_def respelled unfolding ab(1) split_on_append [OF ab(2)] list.map
      split_on_space ..
  then show "parse_policy_token (respell t) = Some tok" using assms(1) by simp
  show "length (respell t) = Suc (length t)" unfolding respelled by (simp add: ab(1))
  have "\<not> is_space (hd t)" and "\<not> is_space (last t)"
    using trim_fixed [OF assms(2)] ab(3) by (simp_all add: ab(1))
  then show "trim (respell t) = respell t"
    unfolding respelled by (intro trim_solid) (simp add: ab)
qed

end
