(* ===== verification/Policy_Client.thy ===== *)
theory Policy_Client
  imports Policy_Token
begin

text \<open>
  The policy client of the automation (\<open>crates/maekon-automation/src/policy/mod.rs\<close> and
  \<open>policy/persistence.rs\<close>): the cached policies, the index of allowed processes, the used tokens, the
  file that makes policies durable, and the approval verdict built on it
  (\<open>src-tauri/src/codex_approval_policy.rs\<close>).

  The JSON of the policy store (\<open>to_json\<close>, \<open>of_json\<close>) and the digest of the scope of a command
  (\<open>scope_digest\<close>) are parameters. Each
  operation is one step; \<open>update_policies\<close> and \<open>add_policy\<close> write the file after they release the
  lock, so their two halves are separate definitions.
\<close>

subsection \<open>State\<close>

record PolicyCache =
  policies :: "ExecutionPolicy list"
  last_updated :: instant
  ttl_seconds :: u64

record 'j PolicyFiles =
  store_file :: "'j option"
  store_tmp :: "'j option"

record 'j PolicyClient =
  policy_cache :: PolicyCache
  allowed_processes :: "string set"
  validated_tokens :: "(string \<times> instant) list"
  has_storage :: bool
  policy_files :: "'j PolicyFiles"

definition POLICY_STORE_SCHEMA_VERSION :: u32 where
  "POLICY_STORE_SCHEMA_VERSION = 1"

definition default_cache :: "instant \<Rightarrow> PolicyCache" where
  "default_cache now = \<lparr>policies = [], last_updated = now, ttl_seconds = 300\<rparr>"

subsection \<open>Time\<close>

text \<open>
  \<open>signed_duration_since(..).num_seconds()\<close>: whole seconds, rounded towards zero, of the signed
  distance in nanoseconds; \<open>as u64\<close> wraps a negative one, \<open>as i64\<close> reads a word as signed.
\<close>

definition num_seconds :: "instant \<Rightarrow> instant \<Rightarrow> int" where
  "num_seconds now before =
     (let d = int now - int before
      in if 0 \<le> d then d div 1000000000 else - ((- d) div 1000000000))"

definition elapsed_u64 :: "instant \<Rightarrow> instant \<Rightarrow> u64" where
  "elapsed_u64 now before = word_of_int (num_seconds now before)"

subsection \<open>The file\<close>

definition load_policies ::
  "('j \<Rightarrow> (u32 \<times> ExecutionPolicy list) option) \<Rightarrow> 'j PolicyFiles \<Rightarrow> ExecutionPolicy list" where
  "load_policies of_json fs =
     (case store_file fs of
        None \<Rightarrow> []
      | Some data \<Rightarrow>
          (case of_json data of
             None \<Rightarrow> []
           | Some (v, ps) \<Rightarrow> if v \<noteq> POLICY_STORE_SCHEMA_VERSION then [] else ps))"

text \<open>
  \<open>save_policies\<close>: the temporary file, then the rename. A fault before the rename leaves the store
  as it was; a failed write may leave anything in the temporary file.
\<close>

datatype 'j store_fault = StoreOk | SerializeFault | CreateDirFault | TmpFault "'j option" | RenameFault

definition save_policies ::
  "(u32 \<times> ExecutionPolicy list \<Rightarrow> 'j) \<Rightarrow> 'j store_fault \<Rightarrow> ExecutionPolicy list \<Rightarrow> 'j PolicyFiles
    \<Rightarrow> bool \<times> 'j PolicyFiles" where
  "save_policies to_json fault ps fs =
     (let json = to_json (POLICY_STORE_SCHEMA_VERSION, ps)
      in case fault of
           SerializeFault \<Rightarrow> (False, fs)
         | CreateDirFault \<Rightarrow> (False, fs)
         | TmpFault left \<Rightarrow> (False, fs\<lparr>store_tmp := left\<rparr>)
         | RenameFault \<Rightarrow> (False, fs\<lparr>store_tmp := Some json\<rparr>)
         | StoreOk \<Rightarrow> (True, \<lparr>store_file = Some json, store_tmp = None\<rparr>))"

subsection \<open>Construction\<close>

definition policy_client_new :: "instant \<Rightarrow> 'j PolicyFiles \<Rightarrow> 'j PolicyClient" where
  "policy_client_new now fs =
     \<lparr>policy_cache = default_cache now, allowed_processes = {}, validated_tokens = [],
      has_storage = False, policy_files = fs\<rparr>"

definition with_persistence ::
  "('j \<Rightarrow> (u32 \<times> ExecutionPolicy list) option) \<Rightarrow> instant \<Rightarrow> 'j PolicyFiles \<Rightarrow> 'j PolicyClient" where
  "with_persistence of_json now fs =
     (let ps = load_policies of_json fs
      in \<lparr>policy_cache = (default_cache now)\<lparr>policies := ps\<rparr>,
          allowed_processes = process_name ` set ps, validated_tokens = [],
          has_storage = True, policy_files = fs\<rparr>)"

subsection \<open>Persisting\<close>

definition persist ::
  "(u32 \<times> ExecutionPolicy list \<Rightarrow> 'j) \<Rightarrow> 'j store_fault \<Rightarrow> ExecutionPolicy list
    \<Rightarrow> 'j PolicyClient \<Rightarrow> 'j PolicyClient" where
  "persist to_json fault ps c =
     (if has_storage c
      then c\<lparr>policy_files := snd (save_policies to_json fault ps (policy_files c))\<rparr> else c)"

definition persist_checked ::
  "(u32 \<times> ExecutionPolicy list \<Rightarrow> 'j) \<Rightarrow> 'j store_fault \<Rightarrow> ExecutionPolicy list
    \<Rightarrow> 'j PolicyClient \<Rightarrow> (AutomationError + unit) \<times> 'j PolicyClient" where
  "persist_checked to_json fault ps c =
     (if has_storage c
      then (let (ok, fs) = save_policies to_json fault ps (policy_files c)
            in (if ok then Inr () else Inl (AutomationInternal ''failed to persist policy revocation''),
                c\<lparr>policy_files := fs\<rparr>))
      else (Inr (), c))"

subsection \<open>Changing the policies\<close>

definition update_policies_locked ::
  "instant \<Rightarrow> ExecutionPolicy list \<Rightarrow> 'j PolicyClient \<Rightarrow> 'j PolicyClient" where
  "update_policies_locked now ps c =
     c\<lparr>allowed_processes := process_name ` set ps,
       policy_cache := (policy_cache c)\<lparr>policies := ps, last_updated := now\<rparr>,
       validated_tokens := []\<rparr>"

definition update_policies ::
  "(u32 \<times> ExecutionPolicy list \<Rightarrow> 'j) \<Rightarrow> 'j store_fault \<Rightarrow> instant \<Rightarrow> ExecutionPolicy list
    \<Rightarrow> 'j PolicyClient \<Rightarrow> 'j PolicyClient" where
  "update_policies to_json fault now ps c =
     persist to_json fault ps (update_policies_locked now ps c)"

definition add_policy_locked :: "instant \<Rightarrow> ExecutionPolicy \<Rightarrow> 'j PolicyClient \<Rightarrow> 'j PolicyClient" where
  "add_policy_locked now p c =
     c\<lparr>policy_cache := (policy_cache c)\<lparr>
         policies := filter (\<lambda>q. policy_id q \<noteq> policy_id p) (policies (policy_cache c)) @ [p],
         last_updated := now\<rparr>,
       allowed_processes := insert (process_name p) (allowed_processes c)\<rparr>"

definition add_policy ::
  "(u32 \<times> ExecutionPolicy list \<Rightarrow> 'j) \<Rightarrow> 'j store_fault \<Rightarrow> instant \<Rightarrow> ExecutionPolicy
    \<Rightarrow> 'j PolicyClient \<Rightarrow> 'j PolicyClient" where
  "add_policy to_json fault now p c =
     (let c' = add_policy_locked now p c
      in persist to_json fault (policies (policy_cache c')) c')"

definition remove_policy ::
  "(u32 \<times> ExecutionPolicy list \<Rightarrow> 'j) \<Rightarrow> 'j store_fault \<Rightarrow> instant \<Rightarrow> string
    \<Rightarrow> 'j PolicyClient \<Rightarrow> (AutomationError + bool) \<times> 'j PolicyClient" where
  "remove_policy to_json fault now pid c =
     (let ps = policies (policy_cache c);
          updated = filter (\<lambda>p. policy_id p \<noteq> pid) ps
      in if length updated = length ps then (Inr False, c)
         else (case persist_checked to_json fault updated c of
                 (Inl e, c') \<Rightarrow> (Inl e, c')
               | (Inr _, c') \<Rightarrow>
                   (Inr True, c'\<lparr>allowed_processes := process_name ` set updated,
                      policy_cache := (policy_cache c')\<lparr>policies := updated, last_updated := now\<rparr>\<rparr>)))"

subsection \<open>Queries\<close>

definition is_cache_valid :: "instant \<Rightarrow> 'j PolicyClient \<Rightarrow> bool" where
  "is_cache_valid now c \<longleftrightarrow>
     elapsed_u64 now (last_updated (policy_cache c)) < ttl_seconds (policy_cache c)"

definition get_policy_for_process :: "string \<Rightarrow> 'j PolicyClient \<Rightarrow> ExecutionPolicy option" where
  "get_policy_for_process name c =
     List.find (\<lambda>p. process_name p = name) (policies (policy_cache c))"

definition is_process_allowed :: "string \<Rightarrow> 'j PolicyClient \<Rightarrow> bool" where
  "is_process_allowed name c \<longleftrightarrow> name \<in> allowed_processes c"

definition get_policy_for_token :: "string \<Rightarrow> 'j PolicyClient \<Rightarrow> ExecutionPolicy option" where
  "get_policy_for_token token c =
     (let pid = (case parse_policy_token token of Some t \<Rightarrow> tok_policy_id t | None \<Rightarrow> token)
      in List.find (\<lambda>p. policy_id p = pid) (policies (policy_cache c)))"

definition list_policies :: "'j PolicyClient \<Rightarrow> ExecutionPolicy list" where
  "list_policies c = policies (policy_cache c)"

definition starts_with :: "string \<Rightarrow> string \<Rightarrow> bool" where
  "starts_with s p \<longleftrightarrow> take (length p) s = p"

definition ends_with :: "string \<Rightarrow> string \<Rightarrow> bool" where
  "ends_with s p \<longleftrightarrow> length p \<le> length s \<and> drop (length s - length p) s = p"

definition arg_matches :: "string \<Rightarrow> string \<Rightarrow> bool" where
  "arg_matches arg pat =
     (if CHR ''*'' \<in> set pat
      then (case split_on (CHR ''*'') pat of
              [a, b] \<Rightarrow> starts_with arg a \<and> ends_with arg b
            | _ \<Rightarrow> arg = pat)
      else arg = pat)"

definition validate_args :: "ExecutionPolicy \<Rightarrow> string list \<Rightarrow> bool" where
  "validate_args policy args =
     (allowed_args policy = [] \<or>
      list_all (\<lambda>arg. list_ex (arg_matches arg) (allowed_args policy)) args)"

subsection \<open>Issuing tokens\<close>

text \<open>The nonce is a fresh UUID without dashes, an argument here.\<close>

definition issue_command_token ::
  "(string \<Rightarrow> string \<Rightarrow> u8 list) \<Rightarrow> string option \<Rightarrow> string \<Rightarrow> string \<Rightarrow> 'j PolicyClient
    \<Rightarrow> AutomationError + string" where
  "issue_command_token hmac secret_env nonce pid c =
     (case List.find (\<lambda>p. policy_id p = pid) (policies (policy_cache c)) of
        None \<Rightarrow> Inl (PolicyDenied (''Unknown policy ID: '' @ pid))
      | Some p \<Rightarrow> issue_command_token_for_policy hmac secret_env p nonce None)"

definition issue_command_token_for_command ::
  "(string \<Rightarrow> string \<Rightarrow> u8 list) \<Rightarrow> string option \<Rightarrow> (policy_scope \<Rightarrow> string option)
    \<Rightarrow> string \<Rightarrow> string \<Rightarrow> AutomationCommand \<Rightarrow> 'j PolicyClient \<Rightarrow> AutomationError + string" where
  "issue_command_token_for_command hmac secret_env scope_digest nonce pid cmd c =
     (case List.find (\<lambda>p. policy_id p = pid) (policies (policy_cache c)) of
        None \<Rightarrow> Inl (PolicyDenied (''Unknown policy ID: '' @ pid))
      | Some p \<Rightarrow>
          (case compute_command_scope_hash scope_digest cmd of
             Inl e \<Rightarrow> Inl e
           | Inr h \<Rightarrow> issue_command_token_for_policy hmac secret_env p nonce (Some h)))"

subsection \<open>Validating a command\<close>

text \<open>\<open>eq_ignore_ascii_case\<close>\<close>

definition lower_ascii :: "char \<Rightarrow> char" where
  "lower_ascii c = (if CHR ''A'' \<le> c \<and> c \<le> CHR ''Z'' then char_of (of_char c + (32 :: nat)) else c)"

definition eq_ignore_ascii_case :: "string \<Rightarrow> string \<Rightarrow> bool" where
  "eq_ignore_ascii_case a b \<longleftrightarrow> map lower_ascii a = map lower_ascii b"

definition signature_ok ::
  "(string \<Rightarrow> string \<Rightarrow> u8 list) \<Rightarrow> string option \<Rightarrow> ParsedPolicyToken \<Rightarrow> bool" where
  "signature_ok hmac secret_env t =
     (case tok_signature t of
        None \<Rightarrow> False
      | Some sig \<Rightarrow>
          is_valid_signature sig \<and>
          verify_policy_token_signature hmac secret_env (tok_policy_id t) (tok_nonce t)
            (tok_command_hash t) sig)"

text \<open>The checks before the used tokens are looked at.\<close>

definition token_checks ::
  "(string \<Rightarrow> string \<Rightarrow> u8 list) \<Rightarrow> string option \<Rightarrow> (policy_scope \<Rightarrow> string option)
    \<Rightarrow> instant \<Rightarrow> AutomationCommand \<Rightarrow> 'j PolicyClient \<Rightarrow> AutomationError + bool" where
  "token_checks hmac secret_env scope_digest now cmd c =
     (let token = trim (cmd_policy_token cmd)
      in if ttl_seconds (policy_cache c) = 0 \<or> token = [] then Inr False
         else (case parse_policy_token token of
                 None \<Rightarrow> Inr False
               | Some t \<Rightarrow>
                   if \<not> is_valid_nonce (tok_nonce t) then Inr False
                   else if ttl_seconds (policy_cache c) \<le> elapsed_u64 now (last_updated (policy_cache c))
                   then Inr False
                   else (case get_policy_for_token token c of
                           None \<Rightarrow> Inr False
                         | Some policy \<Rightarrow>
                             if (require_signed_token policy \<or> cmd_origin cmd = ExternalOrigin) \<and>
                                \<not> signature_ok hmac secret_env t
                             then Inr False
                             else (case tok_command_hash t of
                                     None \<Rightarrow> Inr True
                                   | Some h \<Rightarrow>
                                       (case compute_command_scope_hash scope_digest cmd of
                                          Inl e \<Rightarrow> Inl e
                                        | Inr expected \<Rightarrow> Inr (eq_ignore_ascii_case h expected))))))"

text \<open>Under the write lock: forget the old tokens, refuse a known one, remember this one.\<close>

definition fresh_entry :: "u64 \<Rightarrow> instant \<Rightarrow> string \<times> instant \<Rightarrow> bool" where
  "fresh_entry ttl now e \<longleftrightarrow> num_seconds now (snd e) < sint ttl"

definition claim_token :: "u64 \<Rightarrow> instant \<Rightarrow> string \<Rightarrow> 'j PolicyClient \<Rightarrow> bool \<times> 'j PolicyClient" where
  "claim_token ttl now token c =
     (let kept = filter (fresh_entry ttl now) (validated_tokens c)
      in if token \<in> fst ` set kept then (False, c\<lparr>validated_tokens := kept\<rparr>)
         else (True, c\<lparr>validated_tokens := (token, now) # kept\<rparr>))"

definition validate_command ::
  "(string \<Rightarrow> string \<Rightarrow> u8 list) \<Rightarrow> string option \<Rightarrow> (policy_scope \<Rightarrow> string option)
    \<Rightarrow> instant \<Rightarrow> AutomationCommand \<Rightarrow> 'j PolicyClient
    \<Rightarrow> (AutomationError + bool) \<times> 'j PolicyClient" where
  "validate_command hmac secret_env scope_digest now cmd c =
     (case token_checks hmac secret_env scope_digest now cmd c of
        Inl e \<Rightarrow> (Inl e, c)
      | Inr False \<Rightarrow> (Inr False, c)
      | Inr True \<Rightarrow>
          (let (ok, c') = claim_token (ttl_seconds (policy_cache c)) now
                            (trim (cmd_policy_token cmd)) c
           in (Inr ok, c')))"

subsection \<open>The approval verdict\<close>

datatype PolicyVerdict =
    VerdictAuto string bool
  | VerdictConfirm string
  | VerdictBlock string
  | VerdictNoMatch

definition verdict_for :: "string \<Rightarrow> string list \<Rightarrow> 'j PolicyClient \<Rightarrow> PolicyVerdict" where
  "verdict_for name args c =
     (case get_policy_for_process name c of
        None \<Rightarrow> VerdictNoMatch
      | Some p \<Rightarrow>
          if \<not> validate_args p args then VerdictBlock (policy_id p)
          else (case confirmation p of
                  ConfirmAuto \<Rightarrow> VerdictAuto (policy_id p) (allow_network p = Some True)
                | ConfirmAsk \<Rightarrow> VerdictConfirm (policy_id p)
                | ConfirmBlock \<Rightarrow> VerdictBlock (policy_id p)))"

end
