(* ===== verification/Permission_Profile.thy ===== *)
theory Permission_Profile
  imports Policy_Client
begin

unbundle bit_operations_syntax

text \<open>
  The permission profiles of \<open>maekon-core/src/config/sections/privacy.rs\<close> and the address classes of
  \<open>net_policy.rs\<close>: path rules, deny globs, network and socket decisions, and the profile of a legacy
  sandbox configuration. Strings are their bytes; the parser of IP addresses is the one of Rust's
  standard library. The section on globs compares the matcher with the usual meaning of a glob.
\<close>

section \<open>Strings\<close>

definition strip_prefix :: "string \<Rightarrow> string \<Rightarrow> string option" where
  "strip_prefix p s = (if take (length p) s = p then Some (drop (length p) s) else None)"

definition strip_suffix :: "string \<Rightarrow> string \<Rightarrow> string option" where
  "strip_suffix p s = map_option rev (strip_prefix (rev p) (rev s))"

text \<open>\<open>str::find\<close> for a substring: the smallest index.\<close>

fun find_sub :: "string \<Rightarrow> string \<Rightarrow> nat option" where
  "find_sub p [] = (if p = [] then Some 0 else None)"
| "find_sub p (c # s) =
     (if strip_prefix p (c # s) \<noteq> None then Some 0 else map_option Suc (find_sub p s))"

definition split_once_at :: "string \<Rightarrow> string \<Rightarrow> (string \<times> string) option" where
  "split_once_at sep s =
     map_option (\<lambda>i. (take i s, drop (i + length sep) s)) (find_sub sep s)"

text \<open>\<open>rsplit_once\<close> and \<open>rsplit(..).next()\<close> for one character: what follows its last occurrence.\<close>

definition after_last :: "char \<Rightarrow> string \<Rightarrow> string" where
  "after_last c s = rev (takeWhile (\<lambda>x. x \<noteq> c) (rev s))"

definition trim_end_matches :: "char \<Rightarrow> string \<Rightarrow> string" where
  "trim_end_matches c s = rev (dropWhile (\<lambda>x. x = c) (rev s))"

section \<open>Paths\<close>

datatype PermissionAccess = AccessDenied | AccessRead | AccessWrite

record PermissionFileSystemRules =
  fs_read :: "string list"
  fs_write :: "string list"
  fs_deny :: "string list"
  fs_deny_globs :: "string list"

definition default_secret_deny_globs :: "string list" where
  "default_secret_deny_globs =
     [''.env'', ''**/.env'', ''**/.env.*'', ''*.pem'', ''**/*.pem'', ''*.key'', ''**/*.key'',
      ''**/id_rsa'', ''**/id_ed25519'', ''**/*credential*.json'', ''**/*credentials*.json'',
      ''**/*token*'', ''**/.aws/**'', ''**/.config/gh/**'', ''**/.docker/config.json'',
      ''**/.npmrc'', ''**/.pypirc'', ''**/.netrc'']"

definition default_filesystem :: PermissionFileSystemRules where
  "default_filesystem =
     \<lparr>fs_read = [], fs_write = [], fs_deny = [], fs_deny_globs = default_secret_deny_globs\<rparr>"

definition normalize_permission_path :: "string \<Rightarrow> string" where
  "normalize_permission_path value =
     (let normalized = map (\<lambda>c. if c = CHR 0x5C then CHR ''/'' else c) (trim value)
      in if length normalized > 1 then trim_end_matches (CHR ''/'') normalized else normalized)"

definition path_rule_matches :: "string \<Rightarrow> string \<Rightarrow> bool" where
  "path_rule_matches rule0 path0 =
     (let rule = normalize_permission_path rule0;
          path = normalize_permission_path path0
      in if rule = ''*'' \<or> rule = ''**'' then True
         else (case strip_suffix ''/**'' rule of
                 Some prefix0 \<Rightarrow>
                   (let prefix = normalize_permission_path prefix0
                    in path = prefix \<or> starts_with path (prefix @ ''/''))
               | None \<Rightarrow> path = rule \<or> starts_with path (rule @ ''/'')))"

text \<open>The loop of \<open>wildcard_matches\<close>: each part at its first occurrence, giving the remainder.\<close>

fun match_parts :: "string list \<Rightarrow> string \<Rightarrow> string option" where
  "match_parts [] remainder = Some remainder"
| "match_parts (part # parts) remainder =
     (case find_sub part remainder of
        None \<Rightarrow> None
      | Some index \<Rightarrow> match_parts parts (drop (index + length part) remainder))"

definition wildcard_matches :: "string \<Rightarrow> string \<Rightarrow> bool" where
  "wildcard_matches pattern value =
     (if pattern = ''*'' \<or> pattern = ''**'' then True
      else if CHR ''*'' \<notin> set pattern then path_rule_matches pattern value
      else
        (let parts = filter (\<lambda>p. p \<noteq> []) (split_on (CHR ''*'') pattern);
             anchored = (hd pattern \<noteq> CHR ''*'');
             open_end = (last pattern = CHR ''*'')
         in if parts = [] then True
            else (case (if anchored then strip_prefix (hd parts) value else Some value) of
                    None \<Rightarrow> False
                  | Some remainder \<Rightarrow>
                      (case match_parts (if anchored then tl parts else parts) remainder of
                         None \<Rightarrow> False
                       | Some rest \<Rightarrow> open_end \<or> rest = []))))"

definition glob_rule_matches :: "string \<Rightarrow> string \<Rightarrow> bool" where
  "glob_rule_matches pattern0 path0 =
     (let pattern = normalize_permission_path pattern0;
          path = normalize_permission_path path0;
          filename = after_last (CHR ''/'') path
      in if CHR ''*'' \<notin> set pattern \<and> CHR ''/'' \<notin> set pattern
         then filename = pattern \<or> path = pattern
         else wildcard_matches pattern path \<or>
              (CHR ''/'' \<notin> set pattern \<and> wildcard_matches pattern filename) \<or>
              (case strip_prefix ''**/'' pattern of
                 None \<Rightarrow> False
               | Some suffix \<Rightarrow> wildcard_matches suffix path \<or> wildcard_matches suffix filename))"

definition access_for_path :: "PermissionFileSystemRules \<Rightarrow> string \<Rightarrow> PermissionAccess" where
  "access_for_path rules path =
     (if list_ex (\<lambda>rule. path_rule_matches rule path) (fs_deny rules) \<or>
         list_ex (\<lambda>pattern. glob_rule_matches pattern path) (fs_deny_globs rules)
      then AccessDenied
      else if list_ex (\<lambda>rule. path_rule_matches rule path) (fs_write rules) then AccessWrite
      else if list_ex (\<lambda>rule. path_rule_matches rule path) (fs_read rules) then AccessRead
      else AccessDenied)"

section \<open>IP addresses\<close>

datatype IpAddr = V4 u8 u8 u8 u8 | V6 "16 word list"

definition digit_in :: "nat \<Rightarrow> char \<Rightarrow> bool" where
  "digit_in radix c \<longleftrightarrow> (case hex_value c of None \<Rightarrow> False | Some d \<Rightarrow> d < radix)"

definition read_number ::
  "nat \<Rightarrow> nat \<Rightarrow> bool \<Rightarrow> nat \<Rightarrow> string \<Rightarrow> (nat \<times> string) option" where
  "read_number radix max_digits allow_zero_prefix limit s =
     (let ds = takeWhile (digit_in radix) s;
          n = foldl (\<lambda>a c. a * radix + the (hex_value c)) 0 ds
      in if ds = [] \<or> length ds > max_digits \<or> n \<ge> limit \<or>
            (\<not> allow_zero_prefix \<and> hd ds = CHR ''0'' \<and> length ds > 1)
         then None
         else Some (n, dropWhile (digit_in radix) s))"

definition read_sep :: "char \<Rightarrow> bool \<Rightarrow> (string \<Rightarrow> 'a option) \<Rightarrow> string \<Rightarrow> 'a option" where
  "read_sep c first f s =
     (if first then f s
      else (case s of [] \<Rightarrow> None | x # r \<Rightarrow> if x = c then f r else None))"

fun read_octets :: "nat \<Rightarrow> bool \<Rightarrow> string \<Rightarrow> (nat list \<times> string) option" where
  "read_octets 0 first s = Some ([], s)"
| "read_octets (Suc n) first s =
     (case read_sep (CHR ''.'') first (read_number 10 3 False 256) s of
        None \<Rightarrow> None
      | Some (x, r) \<Rightarrow> map_option (\<lambda>(xs, r'). (x # xs, r')) (read_octets n False r))"

definition read_ipv4 :: "string \<Rightarrow> (nat list \<times> string) option" where
  "read_ipv4 = read_octets 4 True"

fun read_groups :: "nat \<Rightarrow> bool \<Rightarrow> string \<Rightarrow> nat list \<times> bool \<times> string" where
  "read_groups 0 first s = ([], False, s)"
| "read_groups (Suc n) first s =
     (case (if n > 0 then read_sep (CHR '':'') first read_ipv4 s else None) of
        Some (os, r) \<Rightarrow> ([os ! 0 * 256 + os ! 1, os ! 2 * 256 + os ! 3], True, r)
      | None \<Rightarrow>
          (case read_sep (CHR '':'') first (read_number 16 4 True 65536) s of
             None \<Rightarrow> ([], False, s)
           | Some (g, r) \<Rightarrow>
               (let (gs, v4, r') = read_groups n False r in (g # gs, v4, r'))))"

definition read_ipv6 :: "string \<Rightarrow> (nat list \<times> string) option" where
  "read_ipv6 s =
     (let (head, v4, r) = read_groups 8 True s
      in if length head = 8 then Some (head, r)
         else if v4 then None
         else (case strip_prefix ''::'' r of
                 None \<Rightarrow> None
               | Some r1 \<Rightarrow>
                   (let (tail, _, r2) = read_groups (8 - (length head + 1)) True r1
                    in Some (head @ replicate (8 - length head - length tail) 0 @ tail, r2))))"

definition parse_ip :: "string \<Rightarrow> IpAddr option" where
  "parse_ip host =
     (case read_ipv4 host of
        Some (os, r) \<Rightarrow>
          if r = [] then Some (V4 (of_nat (os ! 0)) (of_nat (os ! 1)) (of_nat (os ! 2)) (of_nat (os ! 3)))
          else None
      | None \<Rightarrow>
          (case read_ipv6 host of
             Some (gs, r) \<Rightarrow> if r = [] then Some (V6 (map of_nat gs)) else None
           | None \<Rightarrow> None))"

definition is_loopback4 :: "u8 \<times> u8 \<times> u8 \<times> u8 \<Rightarrow> bool" where
  "is_loopback4 = (\<lambda>(a, b, c, d). a = 127)"

definition is_ipv4_this_network :: "u8 \<times> u8 \<times> u8 \<times> u8 \<Rightarrow> bool" where
  "is_ipv4_this_network = (\<lambda>(a, b, c, d). a = 0)"

definition is_private4 :: "u8 \<times> u8 \<times> u8 \<times> u8 \<Rightarrow> bool" where
  "is_private4 = (\<lambda>(a, b, c, d).
     a = 10 \<or> a = 172 \<and> 16 \<le> b \<and> b \<le> 31 \<or> a = 192 \<and> b = 168)"

definition is_link_local4 :: "u8 \<times> u8 \<times> u8 \<times> u8 \<Rightarrow> bool" where
  "is_link_local4 = (\<lambda>(a, b, c, d). a = 169 \<and> b = 254)"

definition high_octet :: "16 word \<Rightarrow> u8" where
  "high_octet w = ucast (drop_bit 8 w)"

definition low_octet :: "16 word \<Rightarrow> u8" where
  "low_octet w = ucast w"

definition to_ipv4_mapped :: "16 word list \<Rightarrow> (u8 \<times> u8 \<times> u8 \<times> u8) option" where
  "to_ipv4_mapped gs =
     (case gs of
        [a, b, c, d, e, f, g, h] \<Rightarrow>
          if [a, b, c, d, e, f] = [0, 0, 0, 0, 0, 0xFFFF]
          then Some (high_octet g, low_octet g, high_octet h, low_octet h)
          else None
      | _ \<Rightarrow> None)"

definition is_loopback6 :: "16 word list \<Rightarrow> bool" where
  "is_loopback6 gs \<longleftrightarrow> gs = [0, 0, 0, 0, 0, 0, 0, 1]"

definition is_unique_local_ipv6 :: "16 word list \<Rightarrow> bool" where
  "is_unique_local_ipv6 gs \<longleftrightarrow> gs ! 0 AND 0xFE00 = 0xFC00"

definition is_link_local_ipv6 :: "16 word list \<Rightarrow> bool" where
  "is_link_local_ipv6 gs \<longleftrightarrow>
     high_octet (gs ! 0) = 0xFE \<and> low_octet (gs ! 0) AND 0xC0 = 0x80"

section \<open>Network targets\<close>

datatype PermissionNetworkMode = Connect | Bind
datatype PermissionNetworkDecision = NetDenied | NetAllowed

record PermissionNetworkRules =
  net_enabled :: bool
  allow_domains :: "string list"
  deny_domains :: "string list"
  allow_local_targets :: "string list"
  allow_local_binding :: bool

definition default_network :: PermissionNetworkRules where
  "default_network =
     \<lparr>net_enabled = False, allow_domains = [], deny_domains = [], allow_local_targets = [],
      allow_local_binding = False\<rparr>"

definition normalize_network_target :: "string \<Rightarrow> string" where
  "normalize_network_target target =
     map lower_ascii (trim_end_matches (CHR ''/'') (trim target))"

definition network_host :: "string \<Rightarrow> string" where
  "network_host target =
     (let after_scheme = (case split_once_at ''://'' target of None \<Rightarrow> target | Some (_, rest) \<Rightarrow> rest);
          without_path = hd (split_on (CHR ''/'') after_scheme);
          without_user = after_last (CHR ''@'') without_path
      in case strip_prefix ''['' without_user of
           Some stripped \<Rightarrow>
             (case split_once_at '']'' stripped of Some (host, _) \<Rightarrow> host | None \<Rightarrow> stripped)
         | None \<Rightarrow>
             if length (filter (\<lambda>c. c = CHR '':'') without_user) = 1
             then (case split_once_at '':'' without_user of
                     Some (host, _) \<Rightarrow> host
                   | None \<Rightarrow> without_user)
             else without_user)"

definition network_pattern_matches :: "string \<Rightarrow> string \<Rightarrow> string \<Rightarrow> bool" where
  "network_pattern_matches pattern0 target host =
     (let pattern = normalize_network_target pattern0
      in if pattern = ''*'' then True
         else (case strip_prefix ''*.'' pattern of
                 Some suffix \<Rightarrow> ends_with host (''.'' @ suffix) \<or> host = suffix
               | None \<Rightarrow> wildcard_matches pattern target \<or> wildcard_matches pattern host))"

definition is_local_network_host :: "string \<Rightarrow> bool" where
  "is_local_network_host host \<longleftrightarrow>
     host = ''localhost'' \<or> ends_with host ''.localhost'' \<or>
     (case parse_ip host of
        None \<Rightarrow> False
      | Some (V4 a b c d) \<Rightarrow> is_loopback4 (a, b, c, d) \<or> is_ipv4_this_network (a, b, c, d)
      | Some (V6 gs) \<Rightarrow>
          (case to_ipv4_mapped gs of
             Some m \<Rightarrow> is_loopback4 m \<or> is_ipv4_this_network m
           | None \<Rightarrow> is_loopback6 gs))"

definition is_private_network_host :: "string \<Rightarrow> bool" where
  "is_private_network_host host \<longleftrightarrow>
     (case parse_ip host of
        None \<Rightarrow> False
      | Some (V4 a b c d) \<Rightarrow> is_private4 (a, b, c, d) \<or> is_link_local4 (a, b, c, d)
      | Some (V6 gs) \<Rightarrow>
          (case to_ipv4_mapped gs of
             Some m \<Rightarrow> is_private4 m \<or> is_link_local4 m
           | None \<Rightarrow> is_unique_local_ipv6 gs \<or> is_link_local_ipv6 gs))"

definition decision_for_target ::
  "PermissionNetworkRules \<Rightarrow> string \<Rightarrow> PermissionNetworkMode \<Rightarrow> PermissionNetworkDecision" where
  "decision_for_target rules target mode =
     (if \<not> net_enabled rules then NetDenied
      else if mode = Bind then (if allow_local_binding rules then NetAllowed else NetDenied)
      else
        (let normalized = normalize_network_target target;
             host = network_host normalized;
             hit = list_ex (\<lambda>pattern. network_pattern_matches pattern normalized host)
         in if hit (deny_domains rules) then NetDenied
            else if is_local_network_host host \<or> is_private_network_host host
            then (if hit (allow_local_targets rules) then NetAllowed else NetDenied)
            else if allow_domains rules = [] \<or> hit (allow_domains rules) then NetAllowed
            else NetDenied))"

section \<open>Sockets and profiles\<close>

datatype PermissionUnixSocketDecision = SocketDenied | SocketAllowedAudited

record PermissionUnixSocketRules =
  sock_allow :: "string list"
  sock_deny :: "string list"
  audit_enabled :: bool

definition default_unix_sockets :: PermissionUnixSocketRules where
  "default_unix_sockets = \<lparr>sock_allow = [], sock_deny = [], audit_enabled = False\<rparr>"

definition decision_for_path ::
  "PermissionUnixSocketRules \<Rightarrow> string \<Rightarrow> PermissionUnixSocketDecision" where
  "decision_for_path rules path =
     (if list_ex (\<lambda>rule. path_rule_matches rule path) (sock_deny rules) then SocketDenied
      else if list_ex (\<lambda>rule. path_rule_matches rule path) (sock_allow rules) \<and> audit_enabled rules
      then SocketAllowedAudited
      else SocketDenied)"

record SandboxConfig =
  sandbox_enabled :: bool
  profile :: SandboxProfile
  allowed_read_paths :: "string list"
  allowed_write_paths :: "string list"
  config_allow_network :: bool
  max_memory_bytes :: u64
  max_cpu_time_ms :: u64

record PermissionProfileV2 =
  schema_version :: u8
  source_profile :: SandboxProfile
  filesystem :: PermissionFileSystemRules
  network :: PermissionNetworkRules
  unix_sockets :: PermissionUnixSocketRules
  v2_max_memory_bytes :: u64
  v2_max_cpu_time_ms :: u64

definition built_in :: "SandboxProfile \<Rightarrow> PermissionProfileV2" where
  "built_in p =
     (let base = \<lparr>schema_version = 2, source_profile = p, filesystem = default_filesystem,
                  network = default_network, unix_sockets = default_unix_sockets,
                  v2_max_memory_bytes = 0, v2_max_cpu_time_ms = 0\<rparr>
      in if p = Permissive
         then base\<lparr>filesystem := default_filesystem\<lparr>fs_read := [''*''], fs_write := [''*'']\<rparr>,
                   network := default_network\<lparr>net_enabled := True, allow_domains := [''*'']\<rparr>\<rparr>
         else base)"

definition from_legacy_sandbox :: "SandboxConfig \<Rightarrow> PermissionProfileV2" where
  "from_legacy_sandbox config =
     (let p = built_in (profile config)
      in p\<lparr>filesystem := (filesystem p)\<lparr>fs_read := allowed_read_paths config,
                                         fs_write := allowed_write_paths config\<rparr>,
           network := (network p)\<lparr>net_enabled := config_allow_network config\<rparr>,
           v2_max_memory_bytes := max_memory_bytes config,
           v2_max_cpu_time_ms := max_cpu_time_ms config\<rparr>)"

end
