(* ===== verification/Permission_Globs.thy ===== *)
theory Permission_Globs
  imports Permission_Profile
begin

text \<open>
  Globs: the matcher of the deny rules looks for the parts of a pattern one after the other, each at
  its first occurrence. It never matches more than the usual meaning of the glob, and it matches
  exactly that when the pattern ends with a star or the text after the last star occurs in the value
  only at its end. Without that condition a secret file can escape its deny glob.
\<close>

section \<open>First occurrences\<close>

lemma strip_prefix_iff: "strip_prefix p s = Some r \<longleftrightarrow> s = p @ r"
  by (auto simp: strip_prefix_def) (metis append_take_drop_id)

lemma strip_prefix_None_iff: "strip_prefix p s = None \<longleftrightarrow> (\<forall>r. s \<noteq> p @ r)"
  by (metis not_None_eq strip_prefix_iff)

lemma find_sub_Nil [simp]: "find_sub [] s = Some 0"
  by (cases s) (simp_all add: strip_prefix_def)

lemma find_sub_sound:
  assumes "find_sub p s = Some i"
  shows "s = take i s @ p @ drop (i + length p) s"
  using assms
proof (induction s arbitrary: i)
  case Nil
  then show ?case by (simp split: if_splits)
next
  case (Cons c s)
  show ?case
  proof (cases "strip_prefix p (c # s)")
    case None
    then obtain j where "find_sub p s = Some j" "i = Suc j" using Cons.prems by auto
    then show ?thesis using Cons.IH by simp
  next
    case (Some r)
    then have "i = 0" using Cons.prems by simp
    then show ?thesis using Some by (simp add: strip_prefix_iff)
  qed
qed

lemma find_sub_first:
  assumes "s = u @ p @ w"
  shows "\<exists>i \<le> length u. find_sub p s = Some i"
  using assms
proof (induction s arbitrary: u)
  case Nil
  then show ?case by simp
next
  case (Cons c s)
  show ?case
  proof (cases "strip_prefix p (c # s)")
    case None
    then have "u \<noteq> []" using Cons.prems by (auto simp: strip_prefix_None_iff)
    then obtain u' where u: "u = c # u'" "s = u' @ p @ w"
      using Cons.prems by (cases u) auto
    then obtain i where "i \<le> length u'" "find_sub p s = Some i" using Cons.IH by blast
    then show ?thesis using None u(1) by (intro exI [of _ "Suc i"]) simp
  next
    case (Some r)
    then show ?thesis by simp
  qed
qed

text \<open>The first occurrence leaves at least as much as any other one.\<close>

lemma find_sub_longest:
  assumes "s = u @ p @ w"
  shows "\<exists>i x. find_sub p s = Some i \<and> drop (i + length p) s = x @ w"
proof -
  obtain i where i: "i \<le> length u" "find_sub p s = Some i" using find_sub_first [OF assms] by blast
  have "drop (i + length p) s = drop (i + length p) (u @ p) @ w"
    using i(1) assms by simp
  then show ?thesis using i(2) by blast
qed

section \<open>Parts in order\<close>

text \<open>The parts occur one after the other, and \<open>r\<close> is what is left.\<close>

fun embeds :: "string list \<Rightarrow> string \<Rightarrow> string \<Rightarrow> bool" where
  "embeds [] v r \<longleftrightarrow> r = v"
| "embeds (p # ps) v r \<longleftrightarrow> (\<exists>u w. v = u @ p @ w \<and> embeds ps w r)"

lemma match_parts_sound: "match_parts ps v = Some r \<Longrightarrow> embeds ps v r"
proof (induction ps arbitrary: v)
  case Nil
  then show ?case by simp
next
  case (Cons p ps)
  then obtain i where i: "find_sub p v = Some i"
    and "match_parts ps (drop (i + length p) v) = Some r"
    by (auto split: option.splits)
  then show ?case using Cons.IH find_sub_sound [OF i] by auto
qed

lemma match_parts_mono:
  "match_parts ps w = Some r \<Longrightarrow> \<exists>z. match_parts ps (x @ w) = Some (z @ r)"
proof (induction ps arbitrary: w x)
  case Nil
  then show ?case by simp
next
  case (Cons p ps)
  then obtain i where i: "find_sub p w = Some i"
    and rest: "match_parts ps (drop (i + length p) w) = Some r"
    by (auto split: option.splits)
  have "x @ w = (x @ take i w) @ p @ drop (i + length p) w"
    using find_sub_sound [OF i] by simp
  then obtain j y where "find_sub p (x @ w) = Some j"
    and "drop (j + length p) (x @ w) = y @ drop (i + length p) w"
    using find_sub_longest by blast
  then show ?case using Cons.IH [OF rest, of y] by simp
qed

lemma match_parts_greedy:
  "embeds ps v r \<Longrightarrow> \<exists>z. match_parts ps v = Some (z @ r)"
proof (induction ps arbitrary: v)
  case Nil
  then show ?case by simp
next
  case (Cons p ps)
  then obtain u w where v: "v = u @ p @ w" and w: "embeds ps w r" by auto
  obtain i x where i: "find_sub p v = Some i" "drop (i + length p) v = x @ w"
    using find_sub_longest [OF v] by blast
  obtain z where "match_parts ps w = Some (z @ r)" using Cons.IH [OF w] by blast
  then obtain y where "match_parts ps (x @ w) = Some (y @ z @ r)" using match_parts_mono by blast
  then show ?case using i by (intro exI [of _ "y @ z"]) simp
qed

lemma embeds_append: "embeds (ps @ qs) v r \<longleftrightarrow> (\<exists>w. embeds ps v w \<and> embeds qs w r)"
  by (induction ps arbitrary: v) auto

lemma match_parts_append:
  "match_parts (ps @ qs) v = (case match_parts ps v of None \<Rightarrow> None | Some w \<Rightarrow> match_parts qs w)"
  by (induction ps arbitrary: v) (auto split: option.splits)

section \<open>The meaning of a glob\<close>

text \<open>A star stands for any text, every other character for itself.\<close>

fun glob :: "string \<Rightarrow> string \<Rightarrow> bool" where
  "glob [] v \<longleftrightarrow> v = []"
| "glob (c # p) v \<longleftrightarrow>
     (if c = CHR ''*'' then list_ex (\<lambda>k. glob p (drop k v)) [0..<Suc (length v)]
      else (case v of [] \<Rightarrow> False | x # w \<Rightarrow> x = c \<and> glob p w))"

lemma glob_star: "glob (CHR ''*'' # p) v \<longleftrightarrow> (\<exists>u w. v = u @ w \<and> glob p w)"
proof
  assume "glob (CHR ''*'' # p) v"
  then obtain k where "glob p (drop k v)" by (auto simp: list_ex_iff simp del: upt_Suc)
  then show "\<exists>u w. v = u @ w \<and> glob p w" by (metis append_take_drop_id)
next
  assume "\<exists>u w. v = u @ w \<and> glob p w"
  then obtain u w where "v = u @ w" "glob p w" by blast
  then have "length u \<in> set [0..<Suc (length v)]" "glob p (drop (length u) v)" by auto
  then show "glob (CHR ''*'' # p) v" unfolding glob.simps list_ex_iff by auto
qed

text \<open>The same with the pattern cut at its stars.\<close>

fun seg_glob :: "string list \<Rightarrow> string \<Rightarrow> bool" where
  "seg_glob [] v \<longleftrightarrow> False"
| "seg_glob [s] v \<longleftrightarrow> v = s"
| "seg_glob (s # t # ss) v \<longleftrightarrow> (\<exists>u w. v = s @ u @ w \<and> seg_glob (t # ss) w)"

lemma seg_glob_Cons: "seg_glob ((c # s) # ss) v \<longleftrightarrow> (\<exists>w. v = c # w \<and> seg_glob (s # ss) w)"
  by (cases ss) auto

lemma glob_iff_seg_glob: "glob p v \<longleftrightarrow> seg_glob (split_on (CHR ''*'') p) v"
proof (induction p arbitrary: v)
  case Nil
  then show ?case by simp
next
  case (Cons c p)
  obtain s ss where split: "split_on (CHR ''*'') p = s # ss"
    by (meson split_on_Nil neq_Nil_conv)
  show ?case
  proof (cases "c = CHR ''*''")
    case True
    then show ?thesis using Cons.IH split by (simp add: glob_star del: glob.simps)
  next
    case False
    then show ?thesis using Cons.IH split by (auto simp: seg_glob_Cons split: list.splits)
  qed
qed

text \<open>With at least one star: an anchored first part, free parts in order, and an end.\<close>

definition solid_parts :: "string list \<Rightarrow> string list" where
  "solid_parts = filter (\<lambda>p. p \<noteq> [])"

lemma embeds_prepend:
  assumes "embeds ps w (u @ l)"
  shows "\<exists>u'. embeds ps (x @ w) (u' @ l)"
proof (cases ps)
  case Nil
  then show ?thesis using assms by (auto intro: exI [of _ "x @ u"])
next
  case (Cons p qs)
  then obtain a b where "w = a @ p @ b" "embeds qs b (u @ l)" using assms by auto
  then have "x @ w = (x @ a) @ p @ b \<and> embeds qs b (u @ l)" by simp
  then show ?thesis using Cons by (metis embeds.simps(2))
qed

lemma seg_glob_embeds:
  assumes "ss \<noteq> []"
  shows "seg_glob (s # ss) v \<longleftrightarrow>
    (\<exists>w u. v = s @ w \<and> embeds (solid_parts (butlast ss)) w (u @ last ss))"
  using assms
proof (induction ss arbitrary: s v)
  case Nil
  then show ?case by simp
next
  case (Cons t ss)
  show ?case
  proof (cases "ss = []")
    case True
    then show ?thesis by (auto simp: solid_parts_def)
  next
    case False
    let ?fits = "\<lambda>w. \<exists>u. embeds (solid_parts (butlast ss)) w (u @ last ss)"
    have step: "seg_glob (s # t # ss) v \<longleftrightarrow> (\<exists>x w. v = s @ x @ t @ w \<and> ?fits w)"
      unfolding seg_glob.simps(3) Cons.IH [OF False, of t] by blast
    show ?thesis
    proof (cases "t = []")
      case True
      have "(\<exists>x w. v = s @ x @ w \<and> ?fits w) \<longleftrightarrow> (\<exists>w. v = s @ w \<and> ?fits w)"
        using embeds_prepend by (metis append_Nil)
      then show ?thesis using step True False by (simp add: solid_parts_def)
    next
      case solid: False
      have "solid_parts (butlast (t # ss)) = t # solid_parts (butlast ss)"
        using solid False by (simp add: solid_parts_def)
      then show ?thesis using step False by auto
    qed
  qed
qed

section \<open>The matcher against the meaning\<close>

lemma split_on_hd: "hd (split_on c p) = takeWhile (\<lambda>x. x \<noteq> c) p"
proof (induction p)
  case Nil
  then show ?case by simp
next
  case (Cons x p)
  then show ?case by (cases "split_on c p") auto
qed

lemma split_on_snoc:
  "split_on c (p @ [x]) =
    (if x = c then split_on c p @ [[]]
     else butlast (split_on c p) @ [last (split_on c p) @ [x]])"
proof (induction p)
  case Nil
  then show ?case by simp
next
  case (Cons y p)
  obtain s ss where "split_on c p = s # ss" by (meson split_on_Nil neq_Nil_conv)
  then show ?case using Cons.IH by (cases ss) (auto split: list.splits)
qed

lemma split_on_last: "last (split_on c p) = after_last c p"
  by (induction p rule: rev_induct) (auto simp: after_last_def split_on_snoc)

lemma split_on_single: "split_on c p = [s] \<Longrightarrow> c \<notin> set p"
  by (induction p arbitrary: s) (auto split: if_splits list.splits)

lemma match_parts_suffix: "match_parts ps w = Some r \<Longrightarrow> \<exists>x. w = x @ r"
proof -
  have "embeds ps v r \<Longrightarrow> \<exists>x. v = x @ r" for v by (induction ps arbitrary: v) force+
  then show "match_parts ps w = Some r \<Longrightarrow> \<exists>x. w = x @ r" using match_parts_sound by blast
qed

lemma solid_parts_split:
  "ss \<noteq> [] \<Longrightarrow> solid_parts ss =
    solid_parts (butlast ss) @ (if last ss = [] then [] else [last ss])"
proof -
  assume "ss \<noteq> []"
  then have "ss = butlast ss @ [last ss]" by simp
  then have "solid_parts ss = solid_parts (butlast ss @ [last ss])" by simp
  also have "\<dots> = solid_parts (butlast ss) @ (if last ss = [] then [] else [last ss])"
    unfolding solid_parts_def filter_append by simp
  finally show ?thesis .
qed

text \<open>What \<open>wildcard_matches\<close> computes, over the pattern cut at its stars.\<close>

lemma wildcard_matches_unfold:
  assumes star: "CHR ''*'' \<in> set pattern"
    and split: "split_on (CHR ''*'') pattern = s # ss"
  shows "wildcard_matches pattern v \<longleftrightarrow>
    (\<exists>w r. v = s @ w \<and> match_parts (solid_parts ss) w = Some r \<and> (last ss = [] \<or> r = []))"
proof -
  have ss: "ss \<noteq> []" using split split_on_single star by fastforce
  have anchored: "hd pattern \<noteq> CHR ''*'' \<longleftrightarrow> s \<noteq> []"
    using split_on_hd [of "CHR ''*''" pattern] split star by (cases pattern) auto
  have open_end: "last pattern = CHR ''*'' \<longleftrightarrow> last ss = []"
    using split_on_last [of "CHR ''*''" pattern] split ss star
    by (cases pattern rule: rev_cases) (auto simp: after_last_def)
  have parts: "filter (\<lambda>p. p \<noteq> []) (split_on (CHR ''*'') pattern) =
      (if s = [] then solid_parts ss else s # solid_parts ss)"
    by (simp add: split solid_parts_def)
  have ends: "solid_parts ss = [] \<Longrightarrow> last ss = []"
    using solid_parts_split [OF ss] by (auto split: if_splits)
  have only_stars: "wildcard_matches pattern v" if "s = []" "solid_parts ss = []"
    using that parts by (simp add: wildcard_matches_def star)
  show ?thesis
  proof (cases "s = [] \<and> solid_parts ss = []")
    case True
    then show ?thesis using only_stars ends by simp
  next
    case False
    then have "pattern \<noteq> ''*''" "pattern \<noteq> ''**''" using parts by (auto split: if_splits)
    then show ?thesis
      using False anchored open_end
      by (cases "s = []") (auto simp: wildcard_matches_def star parts strip_prefix_iff
          strip_prefix_None_iff split: option.splits)
  qed
qed

lemma find_sub_at_end:
  assumes "find_sub l v = Some (length v - length l)" and "v = x @ y"
    and "find_sub l y = Some i"
  shows "drop (i + length l) y = []"
proof -
  let ?d = "drop (i + length l) y"
  have y: "y = take i y @ l @ ?d" using find_sub_sound [OF assms(3)] .
  then have "v = (x @ take i y) @ l @ ?d" using assms(2) by simp
  then obtain j where "j \<le> length (x @ take i y)" "find_sub l v = Some j"
    using find_sub_first by blast
  moreover have "length v = length (x @ take i y) + length l + length ?d"
    using assms(2) y by (metis append.assoc length_append)
  ultimately have "length ?d = 0" using assms(1) by simp
  then show ?thesis by simp
qed

text \<open> The glob matcher of the deny rules is sound and, where the first occurrence of a part is the
  right one, complete. On a pattern with a star it never matches a value outside the meaning of the
  glob; it matches exactly that meaning when the pattern ends with a star or the text after the last
  star occurs in the value only at its end. \<close>

theorem wildcard_matches_glob:
  assumes "CHR ''*'' \<in> set pattern"
  shows "(wildcard_matches pattern v \<longrightarrow> glob pattern v) \<and>
    (last pattern = CHR ''*'' \<or>
       find_sub (after_last (CHR ''*'') pattern) v =
         Some (length v - length (after_last (CHR ''*'') pattern)) \<longrightarrow>
     wildcard_matches pattern v = glob pattern v)"
proof -
  obtain s ss where split: "split_on (CHR ''*'') pattern = s # ss"
    by (meson split_on_Nil neq_Nil_conv)
  have ss: "ss \<noteq> []" using split split_on_single assms by fastforce
  let ?mids = "solid_parts (butlast ss)" and ?l = "last ss"
  have l: "?l = after_last (CHR ''*'') pattern"
    using split_on_last [of "CHR ''*''" pattern] split ss by simp
  have last_star: "last pattern = CHR ''*'' \<longleftrightarrow> ?l = []"
    unfolding l using assms by (cases pattern rule: rev_cases) (auto simp: after_last_def)
  have matches: "wildcard_matches pattern v \<longleftrightarrow> (\<exists>w r. v = s @ w \<and>
      match_parts (?mids @ (if ?l = [] then [] else [?l])) w = Some r \<and> (?l = [] \<or> r = []))"
    using wildcard_matches_unfold [OF assms split] solid_parts_split [OF ss] by simp
  have means: "glob pattern v \<longleftrightarrow> (\<exists>w u. v = s @ w \<and> embeds ?mids w (u @ ?l))"
    using seg_glob_embeds [OF ss] by (simp add: glob_iff_seg_glob split)
  have sound: "glob pattern v" if matched: "wildcard_matches pattern v"
  proof -
    obtain w r where w: "v = s @ w" "match_parts (?mids @ (if ?l = [] then [] else [?l])) w = Some r"
      "?l = [] \<or> r = []" using matched matches by blast
    then obtain r1 where r1: "match_parts ?mids w = Some r1"
      "match_parts (if ?l = [] then [] else [?l]) r1 = Some r"
      by (auto simp: match_parts_append split: option.splits)
    have "\<exists>u. r1 = u @ ?l"
    proof (cases "?l = []")
      case False
      then obtain i where "find_sub ?l r1 = Some i" "drop (i + length ?l) r1 = []"
        using r1(2) w(3) by (auto split: option.splits)
      then show ?thesis using find_sub_sound by (metis append_Nil2)
    qed simp
    then show ?thesis using means w(1) match_parts_sound [OF r1(1)] by blast
  qed
  have complete: "wildcard_matches pattern v"
    if meant: "glob pattern v" and ends: "?l = [] \<or> find_sub ?l v = Some (length v - length ?l)"
  proof -
    obtain w u where w: "v = s @ w" "embeds ?mids w (u @ ?l)" using meant means by blast
    then obtain z where z: "match_parts ?mids w = Some (z @ u @ ?l)" using match_parts_greedy by blast
    show ?thesis
    proof (cases "?l = []")
      case True
      then show ?thesis using matches w(1) z by auto
    next
      case False
      obtain i where i: "find_sub ?l (z @ u @ ?l) = Some i"
        using find_sub_first [of "z @ u @ ?l" "z @ u" ?l "[]"] by auto
      obtain x where "v = x @ z @ u @ ?l" using match_parts_suffix [OF z] w(1) by (metis append.assoc)
      then have "drop (i + length ?l) (z @ u @ ?l) = []"
        using find_sub_at_end ends False i by blast
      then show ?thesis using matches w(1) z i False by (auto simp: match_parts_append)
    qed
  qed
  show ?thesis unfolding last_star l [symmetric] using sound complete by blast
qed

theorem wildcard_matches_glob_witness:
  "wildcard_matches ''*.pem'' ''key.pem'' \<and> glob ''*.pem'' ''key.pem'' \<and>
   \<not> wildcard_matches ''**/*token*'' ''a/tok'' \<and> \<not> glob ''**/*token*'' ''a/tok''"
  using wildcard_matches_glob [of "''*.pem''" "''key.pem''"]
    wildcard_matches_glob [of "''**/*token*''" "''a/tok''"]
  by (simp add: wildcard_matches_def after_last_def strip_prefix_def)

section \<open>Secret files\<close>

lemma denied_by_glob:
  assumes "pattern \<in> set (fs_deny_globs rules)" and "glob_rule_matches pattern path"
  shows "access_for_path rules path = AccessDenied"
  using assms by (auto simp: access_for_path_def list_ex_iff)

lemma normalize_plain:
  assumes "set p \<inter> {CHR 0x5C, CHR ''/''} = {}" and "list_all (Not \<circ> is_space) p"
  shows "normalize_permission_path p = p"
proof -
  have "map (\<lambda>c. if c = CHR 0x5C then CHR ''/'' else c) p = p"
    using assms(1) by (intro map_idI) auto
  moreover have "trim_end_matches (CHR ''/'') p = p"
    using assms(1) by (cases p rule: rev_cases) (auto simp: trim_end_matches_def)
  ultimately show ?thesis
    using assms(2) by (simp add: normalize_permission_path_def trim_free Let_def)
qed

text \<open>The file name of a path, as the deny globs see it.\<close>

definition file_name :: "string \<Rightarrow> string" where
  "file_name path = after_last (CHR ''/'') (normalize_permission_path path)"

lemma glob_on_file_name:
  assumes "normalize_permission_path pattern = pattern"
    and "CHR ''*'' \<in> set pattern \<or> CHR ''/'' \<in> set pattern"
    and "CHR ''/'' \<notin> set pattern \<and> wildcard_matches pattern (file_name path) \<or>
         (\<exists>suffix. pattern = ''**/'' @ suffix \<and> wildcard_matches suffix (file_name path))"
  shows "glob_rule_matches pattern path"
proof -
  have "strip_prefix ''**/'' (''**/'' @ s) = Some s" for s by (simp add: strip_prefix_def)
  then show ?thesis
    using assms by (auto simp: glob_rule_matches_def file_name_def Let_def)
qed

lemma star_suffix_matches:
  assumes "find_sub ext v = Some (length v - length ext)" and "ext \<noteq> []"
    and "CHR ''*'' \<notin> set ext"
  shows "wildcard_matches (CHR ''*'' # ext) v"
proof -
  have "length ext \<le> length v"
    using find_sub_sound [OF assms(1)] by (metis le_add1 le_add2 length_append order_trans)
  then have "\<exists>w r. v = [] @ w \<and> match_parts (solid_parts [ext]) w = Some r \<and> (last [ext] = [] \<or> r = [])"
    using assms by (simp add: solid_parts_def)
  then show ?thesis
    using wildcard_matches_unfold [of "CHR ''*'' # ext" "[]" "[ext]"] assms(3)
    by (simp add: split_on_plain)
qed

definition exact_secrets :: "string list" where
  "exact_secrets = [''.env'', ''id_rsa'', ''id_ed25519'', ''.npmrc'', ''.pypirc'', ''.netrc'']"

lemma plain_secret_matches:
  assumes "s \<in> set exact_secrets" and "file_name path = s"
  shows "glob_rule_matches (''**/'' @ s) path"
proof (rule glob_on_file_name)
  have plain: "normalize_permission_path s = s"
    using assms(1) by (intro normalize_plain) (auto simp: exact_secrets_def is_space_def)
  have "strip_suffix ''/**'' s = None"
    using assms(1) by (auto simp: exact_secrets_def strip_suffix_def strip_prefix_def)
  then have "path_rule_matches s s" using plain by (simp add: path_rule_matches_def)
  moreover have "CHR ''*'' \<notin> set s" using assms(1) by (auto simp: exact_secrets_def)
  ultimately have "wildcard_matches s (file_name path)"
    using assms(2) by (simp add: wildcard_matches_def)
  then show "CHR ''/'' \<notin> set (''**/'' @ s) \<and> wildcard_matches (''**/'' @ s) (file_name path) \<or>
      (\<exists>suffix. ''**/'' @ s = ''**/'' @ suffix \<and> wildcard_matches suffix (file_name path))"
    by blast
  show "normalize_permission_path (''**/'' @ s) = ''**/'' @ s"
    using assms(1) by (auto simp: exact_secrets_def normalize_permission_path_def
        trim_end_matches_def trim_def is_space_def)
qed simp

lemma key_file_matches:
  assumes "ext \<in> {''.pem'', ''.key''}"
    and "find_sub ext (file_name path) = Some (length (file_name path) - length ext)"
  shows "glob_rule_matches (CHR ''*'' # ext) path"
proof (rule glob_on_file_name)
  have "wildcard_matches (CHR ''*'' # ext) (file_name path)"
    by (rule star_suffix_matches [OF assms(2)]) (use assms(1) in auto)
  then show "CHR ''/'' \<notin> set (CHR ''*'' # ext) \<and> wildcard_matches (CHR ''*'' # ext) (file_name path) \<or>
      (\<exists>suffix. CHR ''*'' # ext = ''**/'' @ suffix \<and> wildcard_matches suffix (file_name path))"
    using assms(1) by auto
  show "normalize_permission_path (CHR ''*'' # ext) = CHR ''*'' # ext"
    using assms(1) by (intro normalize_plain) (auto simp: is_space_def)
qed simp

text \<open> C25. Secret files are denied whatever else the rules allow. With the default deny globs, a path
  whose file name is one of the known secret names, or has the extension of a key or a certificate
  (once, at the end), is neither readable nor writable, in any directory and under any read or write
  rule. \<close>

theorem secret_files_are_denied:
  assumes "set default_secret_deny_globs \<subseteq> set (fs_deny_globs rules)"
    and "file_name path \<in> set exact_secrets \<or>
      find_sub ''.pem'' (file_name path) = Some (length (file_name path) - 4) \<or>
      find_sub ''.key'' (file_name path) = Some (length (file_name path) - 4)"
  shows "access_for_path rules path = AccessDenied"
  using assms(2)
proof (elim disjE)
  assume secret: "file_name path \<in> set exact_secrets"
  have "''**/'' @ file_name path \<in> set default_secret_deny_globs"
    using secret by (auto simp: exact_secrets_def default_secret_deny_globs_def)
  then show ?thesis
    using denied_by_glob [OF _ plain_secret_matches [OF secret refl]] assms(1) by blast
next
  assume "find_sub ''.pem'' (file_name path) = Some (length (file_name path) - 4)"
  then have "glob_rule_matches ''*.pem'' path" using key_file_matches [of "''.pem''" path] by simp
  moreover have "''*.pem'' \<in> set default_secret_deny_globs" by (simp add: default_secret_deny_globs_def)
  ultimately show ?thesis using denied_by_glob assms(1) by blast
next
  assume "find_sub ''.key'' (file_name path) = Some (length (file_name path) - 4)"
  then have "glob_rule_matches ''*.key'' path" using key_file_matches [of "''.key''" path] by simp
  moreover have "''*.key'' \<in> set default_secret_deny_globs" by (simp add: default_secret_deny_globs_def)
  ultimately show ?thesis using denied_by_glob assms(1) by blast
qed

theorem secret_files_are_denied_witness:
  "access_for_path (default_filesystem\<lparr>fs_read := [''/home''], fs_write := [''*'']\<rparr>) ''/home/k.pem'' =
     AccessDenied"
  by (rule secret_files_are_denied)
    (simp_all add: default_filesystem_def file_name_def normalize_permission_path_def after_last_def
      trim_end_matches_def trim_def is_space_def strip_prefix_def)

text \<open>
  A key file whose name repeats the extension is readable: the matcher takes the first occurrence of
  \<open>.pem\<close>, text is left over, and the deny glob does not match although the file name fits it.
\<close>

theorem repeated_extension_is_readable:
  "glob ''*.pem'' ''k.pem.pem'' \<and>
   access_for_path (default_filesystem\<lparr>fs_read := [''/home'']\<rparr>) ''/home/k.pem.pem'' = AccessRead"
  by code_simp

text \<open>Path rules compare text: a parent reference leaves the allowed directory.\<close>

lemma parent_reference_is_allowed:
  "access_for_path (default_filesystem\<lparr>fs_read := [''/home/me'']\<rparr>) ''/home/me/../you/f'' = AccessRead"
  by code_simp

end
