(* ===== verification/Audit_Logger.thy ===== *)
theory Audit_Logger
  imports Audit_Chain Policy_Token
begin

text \<open>
  The audit logger of the automation (\<open>maekon-automation/src/audit/logger.rs\<close>) and the bounded channel
  between it and the database (\<open>audit/channel_persistence.rs\<close>). The channel is a queue with its drain
  task as separate steps; what the drain task hands to the inner callback is kept as a list. Fresh
  entry ids and the time of an entry are arguments; \<open>sanitize\<close> stands for \<open>sanitize_details\<close> on a text.
\<close>

section \<open>The channel\<close>

datatype AuditPersistError = ChannelFull | ChannelClosed

record ChannelAuditPersistence =
  ch_sender :: bool
  ch_capacity :: nat
  ch_queue :: "AuditEntry list"
  ch_closed :: bool
  ch_dropped :: nat
  ch_delivered :: "AuditEntry list"

definition channel_with_capacity :: "nat \<Rightarrow> ChannelAuditPersistence" where
  "channel_with_capacity capacity =
     \<lparr>ch_sender = True, ch_capacity = max capacity 1, ch_queue = [], ch_closed = False,
      ch_dropped = 0, ch_delivered = []\<rparr>"

definition new_sync_fallback :: ChannelAuditPersistence where
  "new_sync_fallback =
     \<lparr>ch_sender = False, ch_capacity = 0, ch_queue = [], ch_closed = False,
      ch_dropped = 0, ch_delivered = []\<rparr>"

text \<open>\<open>try_send\<close>: a closed channel is reported before a full one.\<close>

definition channel_persist_checked ::
  "AuditEntry \<Rightarrow> ChannelAuditPersistence \<Rightarrow> (AuditPersistError + unit) \<times> ChannelAuditPersistence" where
  "channel_persist_checked entry ch =
     (if \<not> ch_sender ch then (Inr (), ch\<lparr>ch_delivered := ch_delivered ch @ [entry]\<rparr>)
      else if ch_closed ch then (Inl ChannelClosed, ch\<lparr>ch_dropped := Suc (ch_dropped ch)\<rparr>)
      else if length (ch_queue ch) \<ge> ch_capacity ch
      then (Inl ChannelFull, ch\<lparr>ch_dropped := Suc (ch_dropped ch)\<rparr>)
      else (Inr (), ch\<lparr>ch_queue := ch_queue ch @ [entry]\<rparr>))"

definition channel_persist :: "AuditEntry \<Rightarrow> ChannelAuditPersistence \<Rightarrow> ChannelAuditPersistence" where
  "channel_persist entry ch = snd (channel_persist_checked entry ch)"

text \<open>
  The drain task: one received entry; the runtime stops (the receiver closes); and the final loop that
  empties the queue of the closed channel.
\<close>

definition drain_one :: "ChannelAuditPersistence \<Rightarrow> ChannelAuditPersistence" where
  "drain_one ch =
     (case ch_queue ch of
        [] \<Rightarrow> ch
      | e # es \<Rightarrow> ch\<lparr>ch_queue := es, ch_delivered := ch_delivered ch @ [e]\<rparr>)"

definition runtime_stopped :: "ChannelAuditPersistence \<Rightarrow> ChannelAuditPersistence" where
  "runtime_stopped ch = (if ch_sender ch then ch\<lparr>ch_closed := True\<rparr> else ch)"

definition drain_rest :: "ChannelAuditPersistence \<Rightarrow> ChannelAuditPersistence" where
  "drain_rest ch = ch\<lparr>ch_queue := [], ch_delivered := ch_delivered ch @ ch_queue ch\<rparr>"

section \<open>The logger\<close>

datatype AuditError = BufferOverflow nat | PersistRejected AuditPersistError

record AuditLogger =
  buffer :: "AuditEntry list"
  max_buffer_size :: nat
  batch_size :: nat
  persistence :: "ChannelAuditPersistence option"
  dropped_entries :: u64

definition logger_new :: "nat \<Rightarrow> nat \<Rightarrow> AuditLogger" where
  "logger_new max_size batch =
     \<lparr>buffer = [], max_buffer_size = max_size, batch_size = batch, persistence = None,
      dropped_entries = 0\<rparr>"

definition default_logger :: AuditLogger where
  "default_logger = logger_new 1000 50"

definition with_sink :: "ChannelAuditPersistence \<Rightarrow> AuditLogger \<Rightarrow> AuditLogger" where
  "with_sink ch l = l\<lparr>persistence := Some ch\<rparr>"

definition note_drop :: "AuditLogger \<Rightarrow> AuditLogger" where
  "note_drop l = l\<lparr>dropped_entries := dropped_entries l + 1\<rparr>"

text \<open>What a call knows of the outside: the fresh id, the clock and the sanitizer.\<close>

record log_env =
  fresh_id :: string
  log_time :: instant
  sanitize :: "string \<Rightarrow> string"

definition build_entry ::
  "log_env \<Rightarrow> string \<Rightarrow> string \<Rightarrow> string \<Rightarrow> AuditStatus \<Rightarrow> string option \<Rightarrow> u64 option \<Rightarrow> AuditEntry" where
  "build_entry env cid sid action st raw ms =
     \<lparr>ae_entry_id = fresh_id env, ae_timestamp = log_time env, ae_session_id = sid,
      ae_command_id = cid, ae_action_type = action, ae_status = st,
      ae_details = map_option (sanitize env) raw, ae_execution_time_ms = ms\<rparr>"

definition push_best_effort :: "AuditEntry \<Rightarrow> AuditLogger \<Rightarrow> AuditLogger" where
  "push_best_effort entry l =
     (let l1 = (if length (buffer l) \<ge> max_buffer_size l
                then note_drop (l\<lparr>buffer := tl (buffer l)\<rparr>) else l);
          l2 = l1\<lparr>persistence := map_option (channel_persist entry) (persistence l1)\<rparr>
      in l2\<lparr>buffer := buffer l2 @ [entry]\<rparr>)"

definition push_checked :: "AuditLevel \<Rightarrow> AuditEntry \<Rightarrow> AuditLogger \<Rightarrow> (AuditError + unit) \<times> AuditLogger" where
  "push_checked level entry l =
     (if level = LevelNone then (Inr (), l)
      else
        (let fail_closed = (level = LevelFull);
             (rejected, l1) =
               (case persistence l of
                  None \<Rightarrow> (None, l)
                | Some ch \<Rightarrow>
                    (case channel_persist_checked entry ch of
                       (Inr _, ch') \<Rightarrow> (None, l\<lparr>persistence := Some ch'\<rparr>)
                     | (Inl e, ch') \<Rightarrow> (Some e, note_drop (l\<lparr>persistence := Some ch'\<rparr>))))
         in case rejected of
              Some e \<Rightarrow>
                if fail_closed then (Inl (PersistRejected e), l1)
                else if length (buffer l1) \<ge> max_buffer_size l1
                then (Inr (), note_drop (l1\<lparr>buffer := tl (buffer l1) @ [entry]\<rparr>))
                else (Inr (), l1\<lparr>buffer := buffer l1 @ [entry]\<rparr>)
            | None \<Rightarrow>
                if length (buffer l1) \<ge> max_buffer_size l1
                then (if fail_closed then (Inl (BufferOverflow (max_buffer_size l1)), note_drop l1)
                      else (Inr (), note_drop (l1\<lparr>buffer := tl (buffer l1) @ [entry]\<rparr>)))
                else (Inr (), l1\<lparr>buffer := buffer l1 @ [entry]\<rparr>)))"

definition push_entry ::
  "log_env \<Rightarrow> string \<Rightarrow> string \<Rightarrow> string \<Rightarrow> AuditStatus \<Rightarrow> string option \<Rightarrow> AuditLogger \<Rightarrow> AuditLogger" where
  "push_entry env cid sid action st details l =
     push_best_effort (build_entry env cid sid action st details None) l"

definition push_entry_with_time ::
  "log_env \<Rightarrow> string \<Rightarrow> string \<Rightarrow> string \<Rightarrow> AuditStatus \<Rightarrow> string option \<Rightarrow> u64 option
    \<Rightarrow> AuditLogger \<Rightarrow> AuditLogger" where
  "push_entry_with_time env cid sid action st details ms l =
     push_best_effort (build_entry env cid sid action st details ms) l"

definition try_log_start_if ::
  "log_env \<Rightarrow> AuditLevel \<Rightarrow> string \<Rightarrow> string \<Rightarrow> string \<Rightarrow> AuditLogger
    \<Rightarrow> (AuditError + unit) \<times> AuditLogger" where
  "try_log_start_if env level cid sid action l =
     (if level = LevelNone then (Inr (), l)
      else push_checked level (build_entry env cid sid action AuditStarted None None) l)"

definition log_start_if ::
  "log_env \<Rightarrow> AuditLevel \<Rightarrow> string \<Rightarrow> string \<Rightarrow> string \<Rightarrow> AuditLogger \<Rightarrow> AuditLogger" where
  "log_start_if env level cid sid action l =
     (if level = LevelNone then l else push_entry env cid sid action AuditStarted None l)"

definition log_start :: "log_env \<Rightarrow> string \<Rightarrow> string \<Rightarrow> string \<Rightarrow> AuditLogger \<Rightarrow> AuditLogger" where
  "log_start env cid sid action l = push_entry env cid sid action AuditStarted None l"

definition log_complete :: "log_env \<Rightarrow> string \<Rightarrow> string \<Rightarrow> string \<Rightarrow> AuditLogger \<Rightarrow> AuditLogger" where
  "log_complete env cid sid details l =
     push_entry env cid sid ''complete'' AuditCompleted (Some details) l"

definition log_correlated_event_with_status ::
  "log_env \<Rightarrow> string \<Rightarrow> string \<Rightarrow> AuditStatus \<Rightarrow> string \<Rightarrow> AuditLogger \<Rightarrow> AuditLogger" where
  "log_correlated_event_with_status env action correlation st details l =
     push_entry env correlation correlation action st (Some details) l"

text \<open>\<open>evt\<close> is the generated command id of the event.\<close>

definition log_event_with_status ::
  "log_env \<Rightarrow> string \<Rightarrow> string \<Rightarrow> string \<Rightarrow> AuditStatus \<Rightarrow> string \<Rightarrow> AuditLogger \<Rightarrow> AuditLogger" where
  "log_event_with_status env evt action sid st details l =
     push_entry env evt sid action st (Some details) l"

definition log_event :: "log_env \<Rightarrow> string \<Rightarrow> string \<Rightarrow> string \<Rightarrow> string \<Rightarrow> AuditLogger \<Rightarrow> AuditLogger" where
  "log_event env evt action sid details l =
     log_event_with_status env evt action sid AuditCompleted details l"

definition log_complete_with_time ::
  "log_env \<Rightarrow> AuditLevel \<Rightarrow> string \<Rightarrow> string \<Rightarrow> string \<Rightarrow> u64 \<Rightarrow> AuditLogger \<Rightarrow> AuditLogger" where
  "log_complete_with_time env level cid sid details ms l =
     (if level = LevelNone then l
      else push_entry_with_time env cid sid ''complete'' AuditCompleted (Some details) (Some ms) l)"

definition try_log_with_status_and_time ::
  "log_env \<Rightarrow> AuditLevel \<Rightarrow> string \<Rightarrow> string \<Rightarrow> string \<Rightarrow> AuditStatus \<Rightarrow> string \<Rightarrow> u64
    \<Rightarrow> AuditLogger \<Rightarrow> (AuditError + unit) \<times> AuditLogger" where
  "try_log_with_status_and_time env level cid sid action st details ms l =
     (if level = LevelNone then (Inr (), l)
      else push_checked level (build_entry env cid sid action st (Some details) (Some ms)) l)"

definition log_denied :: "log_env \<Rightarrow> string \<Rightarrow> string \<Rightarrow> string \<Rightarrow> AuditLogger \<Rightarrow> AuditLogger" where
  "log_denied env cid sid action l = push_entry env cid sid action AuditDenied None l"

definition log_failed :: "log_env \<Rightarrow> string \<Rightarrow> string \<Rightarrow> string \<Rightarrow> AuditLogger \<Rightarrow> AuditLogger" where
  "log_failed env cid sid err l = push_entry env cid sid ''failed'' AuditFailed (Some err) l"

definition log_timeout ::
  "log_env \<Rightarrow> (u64 \<Rightarrow> string) \<Rightarrow> string \<Rightarrow> string \<Rightarrow> u64 \<Rightarrow> AuditLogger \<Rightarrow> AuditLogger" where
  "log_timeout env show_ms cid sid ms l =
     push_entry_with_time env cid sid ''timeout'' AuditTimeout
       (Some (''Exceeded '' @ show_ms ms @ ''ms'')) (Some ms) l"

definition log_with_status_and_time ::
  "log_env \<Rightarrow> AuditLevel \<Rightarrow> string \<Rightarrow> string \<Rightarrow> string \<Rightarrow> AuditStatus \<Rightarrow> string \<Rightarrow> u64
    \<Rightarrow> AuditLogger \<Rightarrow> AuditLogger" where
  "log_with_status_and_time env level cid sid action st details ms l =
     (if level = LevelNone then l
      else push_entry_with_time env cid sid action st (Some details) (Some ms) l)"

definition drain_batch :: "AuditLogger \<Rightarrow> AuditEntry list \<times> AuditLogger" where
  "drain_batch l =
     (let count = min (length (buffer l)) (batch_size l)
      in (take count (buffer l), l\<lparr>buffer := drop count (buffer l)\<rparr>))"

definition drain_all :: "AuditLogger \<Rightarrow> AuditEntry list \<times> AuditLogger" where
  "drain_all l = (buffer l, l\<lparr>buffer := []\<rparr>)"

section \<open>The channel loses nothing it accepted\<close>

datatype channel_op = SendOp AuditEntry | DrainOp | StopOp

fun channel_step :: "ChannelAuditPersistence \<times> AuditEntry list \<Rightarrow> channel_op
    \<Rightarrow> ChannelAuditPersistence \<times> AuditEntry list" where
  "channel_step (ch, accepted) (SendOp e) =
     (case channel_persist_checked e ch of
        (Inr _, ch') \<Rightarrow> (ch', accepted @ [e])
      | (Inl _, ch') \<Rightarrow> (ch', accepted))"
| "channel_step (ch, accepted) DrainOp = (drain_one ch, accepted)"
| "channel_step (ch, accepted) StopOp = (runtime_stopped ch, accepted)"

definition channel_inv :: "ChannelAuditPersistence \<times> AuditEntry list \<Rightarrow> bool" where
  "channel_inv = (\<lambda>(ch, accepted).
     ch_delivered ch @ ch_queue ch = accepted \<and> length (ch_queue ch) \<le> ch_capacity ch \<and>
     (ch_sender ch \<or> ch_queue ch = []))"

interpretation audit_channel: bounded_store channel_step channel_inv
  "\<lambda>(ch, _). length (ch_queue ch)" "\<lambda>(ch, _). ch_capacity ch"
proof unfold_locales
  show "channel_inv s \<Longrightarrow> channel_inv (channel_step s x)" for s x
    by (cases s; cases x)
      (auto simp: channel_inv_def channel_persist_checked_def drain_one_def runtime_stopped_def
        split: list.splits)
  show "channel_inv s \<Longrightarrow> (case s of (ch, _) \<Rightarrow> length (ch_queue ch)) \<le> (case s of (ch, _) \<Rightarrow> ch_capacity ch)"
    for s by (auto simp: channel_inv_def)
  show "(case channel_step s x of (ch, _) \<Rightarrow> ch_capacity ch) = (case s of (ch, _) \<Rightarrow> ch_capacity ch)" for s x
    by (cases s; cases x)
      (auto simp: channel_persist_checked_def drain_one_def runtime_stopped_def split: list.splits)
qed

text \<open> Every audit entry the channel accepts reaches the database exactly once and in order. Whatever
  sends, drain steps and shutdown happen in whatever order, the queue stays within its capacity, what
  was handed to the database is a prefix of what was accepted, and when the final loop has emptied the
  queue it is all of it. \<close>

theorem accepted_audit_entries_are_delivered:
  "case foldl channel_step (channel_with_capacity n, []) ops of
     (ch, accepted) \<Rightarrow>
       length (ch_queue ch) \<le> max n 1 \<and>
       ch_delivered ch @ ch_queue ch = accepted \<and>
       ch_delivered (drain_rest ch) = accepted \<and> ch_queue (drain_rest ch) = []"
proof -
  have start: "channel_inv (channel_with_capacity n, [])"
    by (simp add: channel_inv_def channel_with_capacity_def)
  have "channel_inv (foldl channel_step (channel_with_capacity n, []) ops)"
    by (rule audit_channel.run_inv [OF start])
  moreover have "(case foldl channel_step (channel_with_capacity n, []) ops of (ch, _) \<Rightarrow>
      length (ch_queue ch)) \<le> max n 1"
    using audit_channel.run_bounded [OF start, of ops] by (simp add: channel_with_capacity_def)
  ultimately show ?thesis by (auto simp: channel_inv_def drain_rest_def)
qed

section \<open>The strict level\<close>

lemma push_checked_full_Ok:
  assumes "push_checked LevelFull entry l = (Inr (), l')"
  shows "buffer l' = buffer l @ [entry]" and "length (buffer l') \<le> max_buffer_size l"
    and "\<And>ch. persistence l = Some ch \<Longrightarrow>
      \<exists>ch'. channel_persist_checked entry ch = (Inr (), ch') \<and> persistence l' = Some ch'"
  using assms
  by (auto simp: push_checked_def note_drop_def Let_def split: option.splits sum.splits prod.splits if_splits)

lemma push_checked_full_Err:
  assumes "push_checked LevelFull entry l = (Inl e, l')"
  shows "buffer l' = buffer l"
  using assms
  by (auto simp: push_checked_def note_drop_def Let_def split: option.splits sum.splits prod.splits if_splits)

text \<open>
  No code outside benchmarks and tests drains the buffer, so once it is full no start entry of the
  strict level is accepted again, whatever is logged in between.
\<close>

lemma full_buffer_refuses_strict_entries:
  assumes "length (buffer l) \<ge> max_buffer_size l"
  shows "\<exists>e l'. push_checked LevelFull entry l = (Inl e, l') \<and> length (buffer l') \<ge> max_buffer_size l'"
    and "length (buffer (push_best_effort entry' l)) \<ge> max_buffer_size (push_best_effort entry' l)"
  using assms
  by (auto simp: push_checked_def push_best_effort_def note_drop_def Let_def
      split: option.splits sum.splits prod.splits)

end
