(* ===== verification/Policy_Properties.thy ===== *)
theory Policy_Properties
  imports Policy_Client
begin

text \<open>
  What the policy client promises: which tokens it accepts, how often, and that a revoked policy
  stays revoked across failures and restarts. Two races and a spelling of tokens that the code does
  not close are shown as theorems as well.
\<close>

subsection \<open>Time\<close>

lemma truncated_mono:
  fixes d e k :: int
  assumes "d \<le> e" and "0 < k"
  shows "(if 0 \<le> d then d div k else - ((- d) div k)) \<le> (if 0 \<le> e then e div k else - ((- e) div k))"
proof -
  have "0 \<le> e \<Longrightarrow> 0 \<le> e div k" and "\<not> 0 \<le> d \<Longrightarrow> 0 \<le> (- d) div k"
    using assms(2) by (simp_all add: pos_imp_zdiv_nonneg_iff)
  moreover have "d div k \<le> e div k" and "(- e) div k \<le> (- d) div k"
    using assms by (simp_all add: zdiv_mono1)
  ultimately show ?thesis using assms(1) by auto
qed

lemma num_seconds_mono: "t \<le> t' \<Longrightarrow> num_seconds t b \<le> num_seconds t' b"
  unfolding num_seconds_def Let_def by (rule truncated_mono) simp_all

lemma num_seconds_antimono: "b \<le> b' \<Longrightarrow> num_seconds t b' \<le> num_seconds t b"
  unfolding num_seconds_def Let_def by (rule truncated_mono) simp_all

lemma num_seconds_bounds:
  assumes "t < 2 ^ 80" and "b < 2 ^ 80"
  shows "num_seconds t b < 2 ^ 63" and "- (2 ^ 63) < num_seconds t b"
  using assms by (auto simp: num_seconds_def Let_def)

text \<open>
  A fresh cache is younger than its time to live, also as a number; a cache from the future is never
  fresh, because the negative age wraps to a large word.
\<close>

lemma fresh_cache_age:
  assumes "elapsed_u64 now b < ttl" and "uint ttl < 2 ^ 63" and "now < 2 ^ 80" and "b < 2 ^ 80"
  shows "0 \<le> num_seconds now b" and "num_seconds now b < uint ttl"
proof -
  let ?d = "num_seconds now b"
  have "uint (elapsed_u64 now b) = ?d mod 2 ^ 64"
    by (simp add: elapsed_u64_def uint_word_of_int)
  moreover have "uint (elapsed_u64 now b) < uint ttl"
    using assms(1) by (simp add: word_less_def)
  ultimately have less: "?d mod 2 ^ 64 < uint ttl" by simp
  have bounds: "?d < 2 ^ 63" "- (2 ^ 63) < ?d" using num_seconds_bounds assms(3,4) by blast+
  show pos: "0 \<le> ?d"
  proof (rule ccontr)
    assume "\<not> 0 \<le> ?d"
    then have "(?d + 2 ^ 64) mod 2 ^ 64 = ?d + 2 ^ 64"
      using bounds by (intro mod_pos_pos_trivial) simp_all
    then have "?d mod 2 ^ 64 = ?d + 2 ^ 64" by simp
    then show False using less assms(2) bounds by simp
  qed
  have "?d mod 2 ^ 64 = ?d" using pos bounds by simp
  then show "?d < uint ttl" using less by simp
qed

lemma sint_small:
  assumes "uint (ttl :: u64) < 2 ^ 63"
  shows "sint ttl = uint ttl"
proof -
  have "- (2 ^ 63) \<le> uint ttl" by (rule order_trans [of _ 0]) simp_all
  then show ?thesis using assms by (simp add: sint_uint signed_take_bit_int_eq_self_iff)
qed

subsection \<open>What an accepted token is\<close>

text \<open>A token accepted by the checks, as one predicate.\<close>

definition token_admissible ::
  "(string \<Rightarrow> string \<Rightarrow> u8 list) \<Rightarrow> string option \<Rightarrow> (policy_scope \<Rightarrow> string option) \<Rightarrow> instant
    \<Rightarrow> AutomationCommand \<Rightarrow> 'j PolicyClient \<Rightarrow> ParsedPolicyToken \<Rightarrow> ExecutionPolicy \<Rightarrow> bool" where
  "token_admissible hmac secret_env scope_digest now cmd c t p \<longleftrightarrow>
     parse_policy_token (trim (cmd_policy_token cmd)) = Some t \<and>
     is_valid_nonce (tok_nonce t) \<and>
     elapsed_u64 now (last_updated (policy_cache c)) < ttl_seconds (policy_cache c) \<and>
     List.find (\<lambda>q. policy_id q = tok_policy_id t) (policies (policy_cache c)) = Some p \<and>
     (require_signed_token p \<or> cmd_origin cmd = ExternalOrigin \<longrightarrow> signature_ok hmac secret_env t) \<and>
     (\<forall>h. tok_command_hash t = Some h \<longrightarrow>
        (\<exists>e. scope_digest (command_scope cmd) = Some e \<and> eq_ignore_ascii_case h e))"

lemma parse_empty: "parse_policy_token [] = None"
  by (simp add: parse_policy_token_def)

lemma token_checks_True:
  "token_checks hmac secret_env scope_digest now cmd c = Inr True \<longleftrightarrow>
     (\<exists>t p. token_admissible hmac secret_env scope_digest now cmd c t p)"
  (is "?lhs \<longleftrightarrow> ?rhs")
proof
  assume ?lhs
  then obtain t p where "parse_policy_token (trim (cmd_policy_token cmd)) = Some t"
      "get_policy_for_token (trim (cmd_policy_token cmd)) c = Some p"
    by (auto simp: token_checks_def Let_def split: if_splits option.splits)
  with \<open>?lhs\<close> have "token_admissible hmac secret_env scope_digest now cmd c t p"
    by (auto simp: token_checks_def token_admissible_def get_policy_for_token_def Let_def not_le
        compute_command_scope_hash_def split: if_splits option.splits)
  then show ?rhs by blast
next
  assume ?rhs
  then obtain t p where adm: "token_admissible hmac secret_env scope_digest now cmd c t p" by blast
  then have "get_policy_for_token (trim (cmd_policy_token cmd)) c = Some p"
    by (simp add: token_admissible_def get_policy_for_token_def)
  moreover have "ttl_seconds (policy_cache c) \<noteq> 0" and "trim (cmd_policy_token cmd) \<noteq> []"
    using adm parse_empty by (auto simp: token_admissible_def)
  ultimately show ?lhs
    using adm by (auto simp: token_checks_def token_admissible_def Let_def not_le
        compute_command_scope_hash_def split: option.splits)
qed

lemma validate_accepted:
  assumes "validate_command hmac secret_env scope_digest now cmd c = (Inr True, c')"
  obtains t p where "token_admissible hmac secret_env scope_digest now cmd c t p"
    and "claim_token (ttl_seconds (policy_cache c)) now (trim (cmd_policy_token cmd)) c = (True, c')"
proof -
  have "token_checks hmac secret_env scope_digest now cmd c = Inr True"
    and "claim_token (ttl_seconds (policy_cache c)) now (trim (cmd_policy_token cmd)) c = (True, c')"
    using assms by (auto simp: validate_command_def split: sum.splits bool.splits prod.splits)
  then show ?thesis using that token_checks_True by blast
qed

lemma claim_token_cache [simp]: "policy_cache (snd (claim_token ttl now token c)) = policy_cache c"
  by (simp add: claim_token_def Let_def)

lemma validate_cache [simp]:
  "policy_cache (snd (validate_command hmac secret_env scope_digest now cmd c)) = policy_cache c"
proof -
  have "policy_cache (snd (claim_token ttl now token c)) = policy_cache c" for ttl token by simp
  then show ?thesis
    by (auto simp: validate_command_def case_prod_beta split: sum.splits bool.splits)
qed

subsection \<open>Runs of the client\<close>

text \<open>The operations of the client, and a restart of the program.\<close>

datatype 'j policy_op =
    UpdateOp instant "ExecutionPolicy list" "'j store_fault"
  | AddOp instant ExecutionPolicy "'j store_fault"
  | RemoveOp instant string "'j store_fault"
  | ValidateOp instant AutomationCommand
  | RestartOp instant

record 'j policy_env =
  env_hmac :: "string \<Rightarrow> string \<Rightarrow> u8 list"
  env_secret :: "string option"
  env_digest :: "policy_scope \<Rightarrow> string option"
  env_to_json :: "u32 \<times> ExecutionPolicy list \<Rightarrow> 'j"
  env_of_json :: "'j \<Rightarrow> (u32 \<times> ExecutionPolicy list) option"

fun policy_step :: "'j policy_env \<Rightarrow> 'j PolicyClient \<Rightarrow> 'j policy_op \<Rightarrow> 'j PolicyClient" where
  "policy_step env c (UpdateOp now ps fault) = update_policies (env_to_json env) fault now ps c"
| "policy_step env c (AddOp now p fault) = add_policy (env_to_json env) fault now p c"
| "policy_step env c (RemoveOp now pid fault) = snd (remove_policy (env_to_json env) fault now pid c)"
| "policy_step env c (ValidateOp now cmd) =
     snd (validate_command (env_hmac env) (env_secret env) (env_digest env) now cmd c)"
| "policy_step env c (RestartOp now) = with_persistence (env_of_json env) now (policy_files c)"

fun op_time :: "'j policy_op \<Rightarrow> instant" where
  "op_time (UpdateOp now ps fault) = now"
| "op_time (AddOp now p fault) = now"
| "op_time (RemoveOp now pid fault) = now"
| "op_time (ValidateOp now cmd) = now"
| "op_time (RestartOp now) = now"

text \<open>The operations that forget the used tokens.\<close>

fun forgets :: "'j policy_op \<Rightarrow> bool" where
  "forgets (UpdateOp now ps fault) = True"
| "forgets (RestartOp now) = True"
| "forgets _ = False"

fun only_validates :: "'j policy_op \<Rightarrow> bool" where
  "only_validates (ValidateOp now cmd) = True"
| "only_validates _ = False"

text \<open>Reading back what \<open>serde_json\<close> wrote.\<close>

definition json_round_trips :: "'j policy_env \<Rightarrow> bool" where
  "json_round_trips env \<longleftrightarrow> (\<forall>x. env_of_json env (env_to_json env x) = Some x)"

subsection \<open>A small client for the witnesses\<close>

definition sample_policy :: ExecutionPolicy where
  "sample_policy =
     \<lparr>policy_id = ''pol'', process_name = ''git'', process_hash = None, allowed_args = [],
      requires_sudo = False, max_execution_time_ms = 5000, audit_level = LevelFull,
      sandbox_profile = None, allowed_paths = [], allow_network = None, require_signed_token = True,
      confirmation = ConfirmAuto\<rparr>"

definition sample_client :: "(u32 \<times> ExecutionPolicy list) PolicyClient" where
  "sample_client =
     \<lparr>policy_cache = \<lparr>policies = [sample_policy], last_updated = 0, ttl_seconds = 300\<rparr>,
      allowed_processes = {''git''}, validated_tokens = [], has_storage = True,
      policy_files = \<lparr>store_file = Some (1, [sample_policy]), store_tmp = None\<rparr>\<rparr>"

definition sample_policy_env :: "(u32 \<times> ExecutionPolicy list) policy_env" where
  "sample_policy_env =
     \<lparr>env_hmac = \<lambda>k m. replicate 32 0, env_secret = Some ''k'', env_digest = \<lambda>s. None,
      env_to_json = id, env_of_json = Some\<rparr>"

definition sample_signature :: string where
  "sample_signature = replicate 64 (CHR ''0'')"

definition sample_token :: string where
  "sample_token = token_of ''pol'' ''nonce123'' None (Some sample_signature)"

definition sample_command :: AutomationCommand where
  "sample_command =
     \<lparr>cmd_command_id = ''c'', cmd_session_id = ''s'', cmd_action = KeyPress ''Enter'',
      cmd_timeout_ms = None, cmd_policy_token = sample_token, cmd_origin = ExternalOrigin\<rparr>"

lemma sample_signature_valid: "is_valid_hash sample_signature"
  by (simp add: sample_signature_def is_valid_hash_def list_all_iff is_hexdigit_def hex_value_def
      ascii_digit_def less_eq_char_def)

lemma sample_nonce_valid: "is_valid_nonce ''nonce123''"
  by (simp add: is_valid_nonce_def ascii_alphanumeric_def ascii_digit_def less_eq_char_def)

lemma sample_plain: "plain_id ''pol''"
  by (simp add: plain_id_def trim_def is_space_def)

lemma sample_token_parse:
  "parse_policy_token sample_token =
     Some \<lparr>tok_policy_id = ''pol'', tok_nonce = ''nonce123'', tok_command_hash = None,
           tok_signature = Some sample_signature\<rparr>" and sample_trim: "trim sample_token = sample_token"
  using parse_token_of [OF sample_plain sample_nonce_valid, of None "Some sample_signature"]
    trim_token_of [OF sample_plain sample_nonce_valid, of None "Some sample_signature"]
    sample_signature_valid
  by (simp_all add: sample_token_def)

lemma hex_encode_zeros: "hex_encode (replicate n 0) = replicate (2 * n) CHR ''0''"
  by (induction n) (simp_all add: hex_encode_def encode_byte_def hex_digit_def char_of_def bit_0)

lemma sample_signature_encodes: "hex_encode (replicate 32 0) = sample_signature"
  using hex_encode_zeros [of 32] by (simp add: sample_signature_def)

lemma sample_hmac: "hex_decode sample_signature = Some (replicate 32 0)"
  using hex_decode_encode [of "replicate 32 0"] by (simp add: sample_signature_encodes)

lemma sample_accepted:
  "fst (validate_command (env_hmac sample_policy_env) (env_secret sample_policy_env) (env_digest sample_policy_env) 1
     sample_command sample_client) = Inr True"
proof -
  let ?t = "\<lparr>tok_policy_id = ''pol'', tok_nonce = ''nonce123'', tok_command_hash = None,
           tok_signature = Some sample_signature\<rparr>"
  have "token_admissible (env_hmac sample_policy_env) (env_secret sample_policy_env) (env_digest sample_policy_env) 1
      sample_command sample_client ?t sample_policy"
    using sample_token_parse sample_trim sample_nonce_valid sample_signature_valid sample_hmac
    by (simp add: token_admissible_def sample_command_def sample_client_def sample_policy_def
        elapsed_u64_def num_seconds_def signature_ok_def is_valid_signature_def
        verify_policy_token_signature_def load_signing_secret_def sample_policy_env_def trim_def is_space_def)
  then have "token_checks (env_hmac sample_policy_env) (env_secret sample_policy_env) (env_digest sample_policy_env) 1
      sample_command sample_client = Inr True"
    using token_checks_True by blast
  then show ?thesis
    by (simp add: validate_command_def case_prod_beta claim_token_def sample_client_def)
qed

lemma sample_json: "json_round_trips sample_policy_env"
  by (simp add: json_round_trips_def sample_policy_env_def)



subsection \<open>A token is used once\<close>

lemma persist_simps [simp]:
  "policy_cache (persist to_json fault ps c) = policy_cache c"
  "validated_tokens (persist to_json fault ps c) = validated_tokens c"
  "has_storage (persist to_json fault ps c) = has_storage c"
  "allowed_processes (persist to_json fault ps c) = allowed_processes c"
  by (simp_all add: persist_def)

lemma persist_checked_simps [simp]:
  "policy_cache (snd (persist_checked to_json fault ps c)) = policy_cache c"
  "validated_tokens (snd (persist_checked to_json fault ps c)) = validated_tokens c"
  "has_storage (snd (persist_checked to_json fault ps c)) = has_storage c"
  "allowed_processes (snd (persist_checked to_json fault ps c)) = allowed_processes c"
  by (simp_all add: persist_checked_def case_prod_beta Let_def)

lemma remove_policy_cases:
  assumes "remove_policy to_json fault now pid c = (res, c')"
  obtains (absent) "res = Inr False" "c' = c" "pid \<notin> policy_id ` set (policies (policy_cache c))"
    | (failed) e where "res = Inl e" "has_storage c"
        "c' = c\<lparr>policy_files := snd (save_policies to_json fault
           (filter (\<lambda>p. policy_id p \<noteq> pid) (policies (policy_cache c))) (policy_files c))\<rparr>"
        "\<not> fst (save_policies to_json fault
           (filter (\<lambda>p. policy_id p \<noteq> pid) (policies (policy_cache c))) (policy_files c))"
    | (removed) c'' where "res = Inr True"
        "persist_checked to_json fault
           (filter (\<lambda>p. policy_id p \<noteq> pid) (policies (policy_cache c))) c = (Inr (), c'')"
        "c' = c''\<lparr>allowed_processes :=
               process_name ` set (filter (\<lambda>p. policy_id p \<noteq> pid) (policies (policy_cache c))),
             policy_cache := (policy_cache c)\<lparr>
               policies := filter (\<lambda>p. policy_id p \<noteq> pid) (policies (policy_cache c)),
               last_updated := now\<rparr>\<rparr>"
proof -
  define updated where "updated = filter (\<lambda>p. policy_id p \<noteq> pid) (policies (policy_cache c))"
  show ?thesis
  proof (cases "length updated = length (policies (policy_cache c))")
    case True
    then have "pid \<notin> policy_id ` set (policies (policy_cache c))"
      unfolding updated_def by (metis (mono_tags, lifting) imageE length_filter_less less_irrefl)
    then show ?thesis
      using assms True absent by (simp add: remove_policy_def Let_def updated_def)
  next
    case False
    obtain r c'' where pc: "persist_checked to_json fault updated c = (r, c'')" by fastforce
    show ?thesis
    proof (cases r)
      case (Inl e)
      then show ?thesis
        using assms False pc failed [of e]
        by (auto simp: remove_policy_def Let_def updated_def persist_checked_def case_prod_beta
            split: if_splits)
    next
      case (Inr u)
      have "policy_cache c'' = policy_cache c"
        using persist_checked_simps(1) [of to_json fault updated c] pc by simp
      then show ?thesis
        using assms False pc Inr removed [of c''] by (simp add: remove_policy_def Let_def updated_def)
    qed
  qed
qed

lemma remove_policy_keeps [simp]:
  "validated_tokens (snd (remove_policy to_json fault now pid c)) = validated_tokens c"
  "ttl_seconds (policy_cache (snd (remove_policy to_json fault now pid c))) =
     ttl_seconds (policy_cache c)"
  "has_storage (snd (remove_policy to_json fault now pid c)) = has_storage c"
proof -
  obtain res c' where r: "remove_policy to_json fault now pid c = (res, c')" by fastforce
  then have "validated_tokens c' = validated_tokens c \<and>
      ttl_seconds (policy_cache c') = ttl_seconds (policy_cache c) \<and> has_storage c' = has_storage c"
  proof (cases rule: remove_policy_cases)
    case (removed c'')
    then show ?thesis
      using persist_checked_simps [of to_json fault
          "filter (\<lambda>p. policy_id p \<noteq> pid) (policies (policy_cache c))" c] by simp
  qed simp_all
  then show "validated_tokens (snd (remove_policy to_json fault now pid c)) = validated_tokens c"
    "ttl_seconds (policy_cache (snd (remove_policy to_json fault now pid c))) =
       ttl_seconds (policy_cache c)"
    "has_storage (snd (remove_policy to_json fault now pid c)) = has_storage c"
    using r by simp_all
qed

lemma claim_token_remembers:
  assumes "(token, t) \<in> set (validated_tokens c)" and "num_seconds now t < sint ttl"
  shows "(token, t) \<in> set (validated_tokens (snd (claim_token ttl now other c)))"
    and "fst (claim_token ttl now token c) = False"
proof -
  have "(token, t) \<in> set (filter (fresh_entry ttl now) (validated_tokens c))"
    using assms by (simp add: fresh_entry_def)
  then show "(token, t) \<in> set (validated_tokens (snd (claim_token ttl now other c)))"
    and "fst (claim_token ttl now token c) = False"
    by (auto simp: claim_token_def Let_def image_iff)
qed

lemma validate_remembers:
  assumes "(token, t) \<in> set (validated_tokens c)"
    and "num_seconds now t < sint (ttl_seconds (policy_cache c))"
  shows "(token, t) \<in> set (validated_tokens
    (snd (validate_command hmac secret_env scope_digest now cmd c)))"
  using assms claim_token_remembers(1) [OF assms, of "trim (cmd_policy_token cmd)"]
  by (auto simp: validate_command_def case_prod_beta split: sum.split bool.split)

lemma policy_run_remembers:
  assumes "(token, t) \<in> set (validated_tokens c)"
    and "num_seconds last_time t < sint (ttl_seconds (policy_cache c))"
    and "list_all (\<lambda>x. op_time x \<le> last_time \<and> \<not> forgets x) ops"
  shows "(token, t) \<in> set (validated_tokens (foldl (policy_step env) c ops)) \<and>
    ttl_seconds (policy_cache (foldl (policy_step env) c ops)) = ttl_seconds (policy_cache c)"
  using assms
proof (induction ops arbitrary: c)
  case Nil
  then show ?case by simp
next
  case (Cons x ops)
  have "num_seconds (op_time x) t < sint (ttl_seconds (policy_cache c))"
    using num_seconds_mono [of "op_time x" last_time t] Cons.prems(2,3) by simp
  then have "(token, t) \<in> set (validated_tokens (policy_step env c x)) \<and>
      ttl_seconds (policy_cache (policy_step env c x)) = ttl_seconds (policy_cache c)"
    using Cons.prems(1,3) validate_remembers [of token t c]
    by (cases x) (simp_all add: add_policy_def add_policy_locked_def Let_def)
  then show ?case using Cons.IH [of "policy_step env c x"] Cons.prems(2,3) by simp
qed

lemma validate_run_cache:
  assumes "list_all only_validates ops"
  shows "policy_cache (foldl (policy_step env) c ops) = policy_cache c"
  using assms
proof (induction ops arbitrary: c)
  case (Cons x ops)
  then show ?case by (cases x) simp_all
qed simp

text \<open> A token is used once. After a token was accepted, the same token is refused as long as the
  program is not restarted and the policies are not replaced as a whole, whatever other commands are
  validated and policies added or removed meanwhile: always within the time to live of its first use,
  and for ever when the policies are not touched at all. \<close>

theorem policy_token_used_once:
  fixes env :: "'j policy_env" and c :: "'j PolicyClient"
  defines "validate \<equiv> validate_command (env_hmac env) (env_secret env) (env_digest env)"
  assumes "validate t1 cmd c = (Inr True, c1)"
    and "trim (cmd_policy_token cmd') = trim (cmd_policy_token cmd)"
    and "list_all (\<lambda>x. op_time x \<le> t2 \<and> \<not> forgets x) ops"
    and "num_seconds t2 t1 < sint (ttl_seconds (policy_cache c)) \<or>
      list_all only_validates ops \<and> last_updated (policy_cache c) \<le> t1 \<and>
      uint (ttl_seconds (policy_cache c)) < 2 ^ 63 \<and> t2 < 2 ^ 80 \<and>
      last_updated (policy_cache c) < 2 ^ 80"
  shows "fst (validate t2 cmd' (foldl (policy_step env) c1 ops)) \<noteq> Inr True"
proof
  let ?c2 = "foldl (policy_step env) c1 ops"
  let ?token = "trim (cmd_policy_token cmd)"
  let ?ttl = "ttl_seconds (policy_cache c)"
  assume "fst (validate t2 cmd' ?c2) = Inr True"
  then obtain c3 where accepted: "validate t2 cmd' ?c2 = (Inr True, c3)" by (metis prod.collapse)
  obtain t' p' where adm: "token_admissible (env_hmac env) (env_secret env) (env_digest env) t2 cmd' ?c2 t' p'"
    and claim: "claim_token (ttl_seconds (policy_cache ?c2)) t2 ?token ?c2 = (True, c3)"
    using validate_accepted [OF accepted [unfolded validate_def]] assms(3) by metis
  have c1: "policy_cache c1 = policy_cache c"
    using validate_cache assms(2) unfolding validate_def by (metis snd_conv)
  obtain t p where "claim_token ?ttl t1 ?token c = (True, c1)"
    using validate_accepted [OF assms(2) [unfolded validate_def]] by metis
  then have "(?token, t1) \<in> set (validated_tokens c1)"
    by (auto simp: claim_token_def Let_def split: if_splits)
  moreover have recent: "num_seconds t2 t1 < sint ?ttl"
  proof (cases "num_seconds t2 t1 < sint ?ttl")
    case False
    then have validates: "list_all only_validates ops" and lu: "last_updated (policy_cache c) \<le> t1"
      and bounds: "uint ?ttl < 2 ^ 63" "t2 < 2 ^ 80" "last_updated (policy_cache c) < 2 ^ 80"
      using assms(5) by auto
    have "elapsed_u64 t2 (last_updated (policy_cache c)) < ?ttl"
      using adm validate_run_cache [OF validates, of env c1] c1 by (simp add: token_admissible_def)
    then have "num_seconds t2 (last_updated (policy_cache c)) < uint ?ttl"
      using fresh_cache_age bounds by blast
    then show ?thesis
      using num_seconds_antimono [OF lu, of t2] sint_small [OF bounds(1)] by simp
  qed simp
  ultimately have "(?token, t1) \<in> set (validated_tokens ?c2) \<and> ttl_seconds (policy_cache ?c2) = ?ttl"
    using policy_run_remembers [OF _ _ assms(4), of ?token t1 c1 env] c1 by simp
  then show False
    using claim_token_remembers(2) [of ?token t1 ?c2 t2 ?ttl] recent claim by simp
qed

theorem policy_token_used_once_witness:
  "fst (validate_command (env_hmac sample_policy_env) (env_secret sample_policy_env) (env_digest sample_policy_env) 3
     sample_command (foldl (policy_step sample_policy_env)
       (snd (validate_command (env_hmac sample_policy_env) (env_secret sample_policy_env) (env_digest sample_policy_env) 1
          sample_command sample_client))
       [AddOp 2 sample_policy RenameFault])) \<noteq> Inr True"
proof -
  let ?validate = "validate_command (env_hmac sample_policy_env) (env_secret sample_policy_env) (env_digest sample_policy_env)"
  have "?validate 1 sample_command sample_client =
      (Inr True, snd (?validate 1 sample_command sample_client))"
    using sample_accepted by (metis prod.collapse)
  then show ?thesis
    by (rule policy_token_used_once) (simp_all add: sample_client_def num_seconds_def)
qed

subsection \<open>Issued tokens are accepted\<close>

lemma issued_token_signature:
  assumes "\<forall>k m. length (hmac k m) = 32"
    and "issue_command_token_for_policy hmac secret_env policy nonce chash = Inr token"
    and "plain_id (policy_id policy)"
  obtains t where "parse_policy_token (trim token) = Some t" "trim token = token"
    "tok_policy_id t = policy_id policy" "tok_nonce t = nonce" "tok_command_hash t = chash"
    "is_valid_nonce nonce" "require_signed_token policy \<Longrightarrow> signature_ok hmac secret_env t"
  using assms(2)
proof (cases rule: issue_token_of)
  case unsigned
  show ?thesis
    by (rule that [of "\<lparr>tok_policy_id = policy_id policy, tok_nonce = nonce,
            tok_command_hash = chash, tok_signature = None\<rparr>"])
      (use unsigned parse_token_of [OF assms(3) unsigned(2,3), of None]
        trim_token_of [OF assms(3) unsigned(2,3), of None] in simp_all)
next
  case (signed secret)
  let ?sig = "compute_policy_token_signature hmac (policy_id policy) nonce chash secret"
  have valid: "is_valid_hash ?sig"
    by (simp add: compute_policy_token_signature_def hex_encode_valid assms(1))
  then have "pred_option is_valid_hash (Some ?sig)" by simp
  note parse = parse_token_of [OF assms(3) signed(2,3) this]
    and trimmed = trim_token_of [OF assms(3) signed(2,3) this]
  show ?thesis
    by (rule that [of "\<lparr>tok_policy_id = policy_id policy, tok_nonce = nonce,
            tok_command_hash = chash, tok_signature = Some ?sig\<rparr>"])
      (use parse trimmed signed valid in \<open>simp_all add: signature_ok_def is_valid_signature_def
          verify_policy_token_signature_def compute_policy_token_signature_def hex_decode_encode\<close>)
qed

text \<open> A token issued for a policy of the cache, for any command under it or for one command only,
  is accepted for that command while the cache is fresh and the token has not been used: issuing,
  parsing, verifying the signature and matching the command hash fit together. Only an external
  command under a policy that does not sign its tokens has to bring a signature of its own. \<close>

theorem issued_token_is_accepted:
  assumes "\<forall>k m. length (hmac k m) = 32"
    and "List.find (\<lambda>q. policy_id q = policy_id p) (policies (policy_cache c)) = Some p"
    and "plain_id (policy_id p)"
    and "issue_command_token hmac secret_env nonce (policy_id p) c = Inr token \<or>
      issue_command_token_for_command hmac secret_env scope_digest nonce (policy_id p) cmd c = Inr token"
    and "elapsed_u64 now (last_updated (policy_cache c)) < ttl_seconds (policy_cache c)"
    and "token \<notin> fst ` set (validated_tokens c)"
    and "cmd_policy_token cmd = token" and "cmd_origin cmd = InternalOrigin \<or> require_signed_token p"
  shows "fst (validate_command hmac secret_env scope_digest now cmd c) = Inr True"
proof -
  obtain chash where issued: "issue_command_token_for_policy hmac secret_env p nonce chash = Inr token"
    and hash: "\<And>h. chash = Some h \<Longrightarrow> scope_digest (command_scope cmd) = Some h"
    using assms(2,4)
    by (auto simp: issue_command_token_def issue_command_token_for_command_def
        compute_command_scope_hash_def split: option.splits)
  obtain t where t: "parse_policy_token (trim token) = Some t" "trim token = token"
      "tok_policy_id t = policy_id p" "tok_nonce t = nonce" "tok_command_hash t = chash"
      "is_valid_nonce nonce" "require_signed_token p \<Longrightarrow> signature_ok hmac secret_env t"
    using issued_token_signature [OF assms(1) issued assms(3)] by metis
  have "token_admissible hmac secret_env scope_digest now cmd c t p"
    unfolding token_admissible_def
    using t assms(2,5,7,8) hash by (auto simp: eq_ignore_ascii_case_def)
  then have "token_checks hmac secret_env scope_digest now cmd c = Inr True"
    using token_checks_True by blast
  moreover have "fst (claim_token (ttl_seconds (policy_cache c)) now token c) = True"
    using assms(6) by (auto simp: claim_token_def Let_def)
  ultimately show ?thesis
    using t(2) assms(7) by (simp add: validate_command_def case_prod_beta)
qed

theorem issued_token_is_accepted_witness:
  "issue_command_token (env_hmac sample_policy_env) (env_secret sample_policy_env) ''nonce123'' ''pol'' sample_client =
     Inr sample_token \<and>
   fst (validate_command (env_hmac sample_policy_env) (env_secret sample_policy_env) (env_digest sample_policy_env) 1
     sample_command sample_client) = Inr True"
proof -
  have issued: "issue_command_token (env_hmac sample_policy_env) (env_secret sample_policy_env) ''nonce123''
      (policy_id sample_policy) sample_client = Inr sample_token"
    using sample_nonce_valid sample_signature_encodes
    by (simp add: issue_command_token_def issue_command_token_for_policy_def sample_client_def
        sample_policy_def load_signing_secret_def sample_policy_env_def trim_def is_space_def
        compute_policy_token_signature_def sample_token_def token_of_def)
  have "fst (validate_command (env_hmac sample_policy_env) (env_secret sample_policy_env) (env_digest sample_policy_env) 1
      sample_command sample_client) = Inr True"
    by (rule issued_token_is_accepted [where p = sample_policy and token = sample_token and
          nonce = "''nonce123''", OF _ _ _ disjI1 [OF issued]])
      (simp_all add: sample_policy_env_def sample_client_def sample_policy_def sample_command_def
        elapsed_u64_def num_seconds_def sample_plain)
  then show ?thesis using issued by (simp add: sample_policy_def)
qed

subsection \<open>A used token in another spelling\<close>

text \<open>
  The used tokens are remembered as text, the parts of a token are trimmed: right after a token was
  accepted, the same token with a space behind the first colon is accepted again.
\<close>

theorem respelled_token_is_accepted_again:
  assumes "validate_command hmac secret_env scope_digest now cmd c = (Inr True, c1)"
    and "\<forall>e \<in> set (validated_tokens c). fst e \<noteq> respell (trim (cmd_policy_token cmd))"
  shows "fst (validate_command hmac secret_env scope_digest now
    (cmd\<lparr>cmd_policy_token := respell (trim (cmd_policy_token cmd))\<rparr>) c1) = Inr True"
proof -
  let ?token = "trim (cmd_policy_token cmd)"
  let ?cmd = "cmd\<lparr>cmd_policy_token := respell ?token\<rparr>"
  obtain t p where adm: "token_admissible hmac secret_env scope_digest now cmd c t p"
    and claim: "claim_token (ttl_seconds (policy_cache c)) now ?token c = (True, c1)"
    using validate_accepted [OF assms(1)] .
  have parse: "parse_policy_token ?token = Some t" using adm by (simp add: token_admissible_def)
  have "trim ?token = ?token" by (rule trim_trim)
  note respelled = respell_parses [OF parse this]
  have cache: "policy_cache c1 = policy_cache c" using claim claim_token_cache by (metis snd_conv)
  have "token_admissible hmac secret_env scope_digest now ?cmd c1 t p"
    using adm respelled(1,2) by (simp add: token_admissible_def cache command_scope_def)
  then have "token_checks hmac secret_env scope_digest now ?cmd c1 = Inr True"
    using token_checks_True by blast
  moreover have "respell ?token \<notin> fst ` set (validated_tokens c1)"
    using claim assms(2) respelled(3) by (fastforce simp: claim_token_def Let_def split: if_splits)
  then have "fst (claim_token (ttl_seconds (policy_cache c1)) now (respell ?token) c1) = True"
    by (auto simp: claim_token_def Let_def)
  ultimately show ?thesis
    using respelled(2) by (simp add: validate_command_def case_prod_beta)
qed

subsection \<open>Revocation\<close>

definition granted :: "'j policy_env \<Rightarrow> string \<Rightarrow> 'j PolicyClient \<Rightarrow> bool" where
  "granted env pid c \<longleftrightarrow>
     pid \<in> policy_id ` set (policies (policy_cache c)) \<or>
     pid \<in> policy_id ` set (load_policies (env_of_json env) (policy_files c))"

text \<open>The operations that give a policy of this id again.\<close>

fun regrants :: "string \<Rightarrow> 'j policy_op \<Rightarrow> bool" where
  "regrants pid (UpdateOp now ps fault) \<longleftrightarrow> pid \<in> policy_id ` set ps"
| "regrants pid (AddOp now p fault) \<longleftrightarrow> policy_id p = pid"
| "regrants pid _ \<longleftrightarrow> False"

lemma load_saved:
  assumes "json_round_trips env"
  shows "load_policies (env_of_json env) (snd (save_policies (env_to_json env) fault ps fs)) =
    (if fault = StoreOk then ps else load_policies (env_of_json env) fs)"
  using assms by (cases fault) (simp_all add: save_policies_def load_policies_def json_round_trips_def)

lemma load_persisted:
  assumes "json_round_trips env"
  shows "set (load_policies (env_of_json env) (policy_files (persist (env_to_json env) fault ps c)))
    \<subseteq> set ps \<union> set (load_policies (env_of_json env) (policy_files c))"
  using load_saved [OF assms] by (auto simp: persist_def split: if_splits)

lemma load_persist_checked:
  assumes "json_round_trips env"
    and "persist_checked (env_to_json env) fault ps c = (Inr (), c')" and "has_storage c"
  shows "load_policies (env_of_json env) (policy_files c') = ps"
  using assms(2,3) load_saved [OF assms(1), of fault ps "policy_files c"]
  by (cases fault) (auto simp: persist_checked_def case_prod_beta save_policies_def split: if_splits)

lemma remove_policy_granted:
  assumes json: "json_round_trips env"
    and "remove_policy (env_to_json env) fault now other c = (res, c')" and "has_storage c"
    and "\<not> granted env pid c"
  shows "\<not> granted env pid c'"
  using assms(2)
proof (cases rule: remove_policy_cases)
  case absent
  then show ?thesis using assms(4) by simp
next
  case (failed e)
  then show ?thesis using assms(4) load_saved [OF json] by (auto simp: granted_def split: if_splits)
next
  case (removed c'')
  have "load_policies (env_of_json env) (policy_files c'') =
      filter (\<lambda>p. policy_id p \<noteq> other) (policies (policy_cache c))"
    by (rule load_persist_checked [OF json removed(2) assms(3)])
  then show ?thesis using assms(4) removed(3) by (auto simp: granted_def)
qed

lemma policy_step_storage: "has_storage c \<Longrightarrow> has_storage (policy_step env c x)"
  by (cases x)
    (auto simp: update_policies_def update_policies_locked_def add_policy_def add_policy_locked_def
      Let_def with_persistence_def validate_command_def claim_token_def case_prod_beta
      split: sum.split bool.split)

lemma validate_files [simp]:
  "policy_files (snd (validate_command hmac secret_env scope_digest now cmd c)) = policy_files c"
  by (auto simp: validate_command_def claim_token_def Let_def case_prod_beta split: sum.split bool.split)

lemma policy_step_granted:
  assumes json: "json_round_trips env"
    and "has_storage c" and "\<not> granted env pid c" and "\<not> regrants pid x"
  shows "\<not> granted env pid (policy_step env c x)"
proof (cases x)
  case (UpdateOp now ps fault)
  then show ?thesis
    using assms(3,4) load_persisted [OF json, of fault ps "update_policies_locked now ps c"]
    by (auto simp: granted_def update_policies_def update_policies_locked_def)
next
  case (AddOp now p fault)
  then show ?thesis
    using assms(3,4) load_persisted [OF json, of fault _ "add_policy_locked now p c"]
    by (fastforce simp: granted_def add_policy_def add_policy_locked_def Let_def)
next
  case (RemoveOp now other fault)
  then show ?thesis
    using remove_policy_granted [OF json prod.collapse [symmetric] assms(2,3)] by simp
next
  case (ValidateOp now cmd)
  then show ?thesis using assms(3) by (simp add: granted_def)
next
  case (RestartOp now)
  then show ?thesis using assms(3) by (simp add: granted_def with_persistence_def Let_def)
qed

interpretation revoked: guarded_machine "policy_step env"
  "\<lambda>c. json_round_trips env \<longrightarrow> has_storage c \<and> \<not> granted env pid c"
  "\<lambda>x. \<not> regrants pid x" for env pid
  by unfold_locales (auto intro: policy_step_storage dest: policy_step_granted)

lemma denied_without_policy:
  assumes "\<not> granted env pid c"
    and "parse_policy_token (trim (cmd_policy_token cmd)) = Some t" and "tok_policy_id t = pid"
  shows "fst (validate_command hmac secret_env scope_digest now cmd c) \<noteq> Inr True"
proof
  assume "fst (validate_command hmac secret_env scope_digest now cmd c) = Inr True"
  then obtain c' where "validate_command hmac secret_env scope_digest now cmd c = (Inr True, c')"
    by (metis prod.collapse)
  then obtain t' p where "token_admissible hmac secret_env scope_digest now cmd c t' p"
    using validate_accepted by metis
  then have "List.find (\<lambda>q. policy_id q = pid) (policies (policy_cache c)) = Some p"
    using assms(2,3) by (simp add: token_admissible_def)
  then show False using assms(1) find_SomeD by (fastforce simp: granted_def)
qed



subsection \<open>Writes after the lock\<close>

text \<open>
  \<open>add_policy\<close> writes its snapshot after it released the lock. When a revocation runs in between, the
  late write puts the revoked policy back into the file, and a restart grants it again although the
  revocation reported success.
\<close>

theorem add_race_restores_revoked_policy:
  fixes env :: "'j policy_env" and now :: instant
  assumes "json_round_trips env" and "has_storage c"
    and "p \<in> set (policies (policy_cache c))" and "policy_id q \<noteq> policy_id p"
  defines "c1 \<equiv> add_policy_locked now q c"
  defines "c2 \<equiv> snd (remove_policy (env_to_json env) StoreOk now (policy_id p) c1)"
  defines "c3 \<equiv> persist (env_to_json env) StoreOk (policies (policy_cache c1)) c2"
  shows "fst (remove_policy (env_to_json env) StoreOk now (policy_id p) c1) = Inr True"
    and "policy_id p \<notin> policy_id ` set (list_policies c3)"
    and "p \<in> set (list_policies (with_persistence (env_of_json env) later (policy_files c3)))"
proof -
  obtain res c' where r: "remove_policy (env_to_json env) StoreOk now (policy_id p) c1 = (res, c')"
    by fastforce
  have p: "p \<in> set (policies (policy_cache c1))"
    using assms(3,4) by (auto simp: c1_def add_policy_locked_def)
  from r have "res = Inr True \<and> policy_id p \<notin> policy_id ` set (policies (policy_cache c'))"
  proof (cases rule: remove_policy_cases)
    case absent
    then show ?thesis using p by auto
  next
    case (failed e)
    then show ?thesis by (simp add: save_policies_def)
  next
    case (removed c'')
    then show ?thesis by auto
  qed
  then show "fst (remove_policy (env_to_json env) StoreOk now (policy_id p) c1) = Inr True"
    and "policy_id p \<notin> policy_id ` set (list_policies c3)"
    using r by (simp_all add: c3_def c2_def list_policies_def)
  have "has_storage c2" using assms(2) by (simp add: c2_def c1_def add_policy_locked_def)
  then have "load_policies (env_of_json env) (policy_files c3) = policies (policy_cache c1)"
    using load_saved [OF assms(1), of StoreOk] by (simp add: c3_def persist_def)
  then show "p \<in> set (list_policies (with_persistence (env_of_json env) later (policy_files c3)))"
    using p by (simp add: with_persistence_def list_policies_def Let_def)
qed

text \<open>
  Replacing a policy by a stricter one goes through \<open>add_policy\<close>, whose failed write is only logged:
  after a restart the looser policy decides again.
\<close>

theorem tightened_policy_is_lost_on_restart:
  fixes env :: "'j policy_env" and now :: instant
  assumes "has_storage c" and "load_policies (env_of_json env) (policy_files c) = [loose]"
    and "confirmation loose = ConfirmAuto" and "allowed_args loose = []"
    and "policy_id strict = policy_id loose" and "process_name strict = process_name loose"
    and "confirmation strict = ConfirmBlock" and "allowed_args strict = []"
    and "policies (policy_cache c) = [loose]"
  defines "c1 \<equiv> add_policy (env_to_json env) RenameFault now strict c"
  shows "verdict_for (process_name loose) args c1 = VerdictBlock (policy_id loose) \<and>
    verdict_for (process_name loose) args (with_persistence (env_of_json env) later (policy_files c1)) =
      VerdictAuto (policy_id loose) (allow_network loose = Some True)"
proof -
  have "load_policies (env_of_json env) (policy_files c1) = [loose]"
    using assms(1,2) by (simp add: c1_def add_policy_def add_policy_locked_def persist_def
        save_policies_def load_policies_def Let_def)
  then show ?thesis
    using assms(3-9)
    by (simp add: c1_def add_policy_def add_policy_locked_def with_persistence_def verdict_for_def
        get_policy_for_process_def validate_args_def Let_def)
qed

text \<open>A replaced policy leaves its process in the index of allowed processes.\<close>

lemma replaced_process_stays_allowed:
  assumes "is_process_allowed name c"
  shows "is_process_allowed name (add_policy to_json fault now p c)"
  using assms by (simp add: is_process_allowed_def add_policy_def add_policy_locked_def Let_def)

text \<open>A pattern with one star may match an argument shorter than its two ends together.\<close>

lemma star_ends_may_overlap: "arg_matches ''ab'' ''ab*b''"
  by (simp add: arg_matches_def starts_with_def ends_with_def)

end
