(* ===== verification/Automation_Gate.thy ===== *)
theory Automation_Gate
  imports Permission_Profile Audit_Logger Policy_Properties
begin

text \<open>
  The execution gate of the automation: the sandbox resolver (\<open>maekon-automation/src/resolver.rs\<close>), the
  action dispatcher (\<open>action_dispatcher.rs\<close>) and \<open>CommandExecutionGate\<close> (\<open>controller/gate.rs\<close>), over the
  policy client and the audit logger. What reaches the operating system is an \<open>effect\<close> value; the input
  driver, the platform sandbox and the rendering of numbers and \<open>Debug\<close> texts are arguments. Between the
  validation of a token and the lookup of its policy the gate holds no lock: \<open>meanwhile\<close> is what other
  tasks do to the policies there.
\<close>

section \<open>Resolving the sandbox\<close>

definition resolve_sandbox_profile :: "ExecutionPolicy \<Rightarrow> SandboxProfile" where
  "resolve_sandbox_profile policy =
     (case sandbox_profile policy of
        Some p \<Rightarrow> p
      | None \<Rightarrow>
          (let base = (case audit_level policy of
                         LevelNone \<Rightarrow> Permissive
                       | LevelBasic \<Rightarrow> Standard
                       | LevelDetailed \<Rightarrow> Strict
                       | LevelFull \<Rightarrow> Strict)
           in if requires_sudo policy \<and> base = Permissive then Standard else base))"

fun add_paths :: "string list \<Rightarrow> string list \<Rightarrow> string list" where
  "add_paths acc [] = acc"
| "add_paths acc (p # ps) = add_paths (if p \<in> set acc then acc else acc @ [p]) ps"

definition resolve_sandbox_config :: "ExecutionPolicy \<Rightarrow> SandboxConfig \<Rightarrow> SandboxConfig" where
  "resolve_sandbox_config policy base =
     (let p = resolve_sandbox_profile policy
      in \<lparr>sandbox_enabled = sandbox_enabled base, profile = p,
          allowed_read_paths = add_paths (allowed_read_paths base) (allowed_paths policy),
          allowed_write_paths = allowed_write_paths base,
          config_allow_network = (case allow_network policy of Some b \<Rightarrow> b | None \<Rightarrow> p = Permissive),
          max_memory_bytes = max_memory_bytes base,
          max_cpu_time_ms = (if max_execution_time_ms policy > 0 then max_execution_time_ms policy
                             else max_cpu_time_ms base)\<rparr>)"

definition resolve_permission_profile_v2 :: "ExecutionPolicy \<Rightarrow> SandboxConfig \<Rightarrow> PermissionProfileV2" where
  "resolve_permission_profile_v2 policy base = from_legacy_sandbox (resolve_sandbox_config policy base)"

definition probe_targets :: "(string \<times> PermissionNetworkMode) list" where
  "probe_targets = [(''127.0.0.1:0'', Bind), (''127.0.0.1:11434'', Connect), (''192.168.1.10:8080'', Connect)]"

definition validate_permission_profile_v2_runtime_support :: "PermissionProfileV2 \<Rightarrow> string + unit" where
  "validate_permission_profile_v2_runtime_support p =
     (let fs = filesystem p; socks = unix_sockets p
      in if (fs_read fs \<noteq> [] \<or> fs_write fs \<noteq> []) \<and> (fs_deny fs \<noteq> [] \<or> fs_deny_globs fs \<noteq> [])
         then Inl ''deny_globs/deny filesystem rules cannot be represented by the legacy SandboxConfig runtime''
         else if net_enabled (network p) \<and>
                 list_ex (\<lambda>(target, mode). decision_for_target (network p) target mode = NetDenied) probe_targets
         then Inl ''network local/private target or bind rules cannot be represented by the legacy SandboxConfig runtime''
         else if sock_allow socks \<noteq> [] \<or> sock_deny socks \<noteq> [] \<or> audit_enabled socks
         then Inl ''unix socket allow/deny/audit rules cannot be represented by the legacy SandboxConfig runtime''
         else Inr ())"

definition validate_sandbox_config_runtime_support :: "SandboxConfig \<Rightarrow> string + unit" where
  "validate_sandbox_config_runtime_support config =
     validate_permission_profile_v2_runtime_support (from_legacy_sandbox config)"

record SandboxCapabilities =
  filesystem_isolation :: bool
  syscall_filtering :: bool
  network_isolation :: bool
  resource_limits :: bool
  process_isolation :: bool
  privilege_restriction :: bool

definition strongest_enforceable_profile :: "SandboxCapabilities \<Rightarrow> SandboxProfile" where
  "strongest_enforceable_profile c =
     (if filesystem_isolation c \<and> syscall_filtering c \<and> network_isolation c \<and> privilege_restriction c
      then Strict
      else if process_isolation c \<and> privilege_restriction c then Permissive
      else Strict)"

definition default_strict_config :: "SandboxConfig \<Rightarrow> SandboxConfig" where
  "default_strict_config base =
     \<lparr>sandbox_enabled = sandbox_enabled base, profile = Strict,
      allowed_read_paths = allowed_read_paths base, allowed_write_paths = [],
      config_allow_network = False, max_memory_bytes = max_memory_bytes base,
      max_cpu_time_ms = max_cpu_time_ms base\<rparr>"

definition enforceable_strict_config :: "SandboxConfig \<Rightarrow> SandboxCapabilities \<Rightarrow> SandboxConfig" where
  "enforceable_strict_config base c =
     (default_strict_config base)\<lparr>profile := strongest_enforceable_profile c\<rparr>"

section \<open>Dispatching\<close>

datatype CommandResult = Success | Failed string | Timeout | Denied

datatype effect = InlineInput AutomationAction | SandboxRun AutomationAction SandboxConfig

record dispatch_env =
  inline_driver :: "(AutomationAction \<Rightarrow> string + unit) option"
  sandbox_platform :: string
  sandbox_available :: bool
  sandbox_capabilities :: SandboxCapabilities
  execute_sandboxed :: "AutomationAction \<Rightarrow> SandboxConfig \<Rightarrow> string + unit"

definition is_permissive_noop :: "SandboxConfig \<Rightarrow> bool" where
  "is_permissive_noop config \<longleftrightarrow>
     profile config = Permissive \<and> max_memory_bytes config = 0 \<and> max_cpu_time_ms config = 0"

definition MAX_SYNTHESIZED_INPUT_LEN :: nat where
  "MAX_SYNTHESIZED_INPUT_LEN = 4096"

text \<open>\<open>chars().count()\<close> on the bytes of a string: the continuation bytes of UTF-8 do not count.\<close>

definition char_count :: "string \<Rightarrow> nat" where
  "char_count s = length (filter (\<lambda>c. of_char c < (128 :: nat) \<or> of_char c \<ge> (192 :: nat)) s)"

definition parse_mouse_button :: "string \<Rightarrow> string option" where
  "parse_mouse_button button =
     (let b = map lower_ascii button
      in if b = ''left'' \<or> b = ''l'' then Some ''left''
         else if b = ''right'' \<or> b = ''r'' then Some ''right''
         else if b = ''middle'' \<or> b = ''m'' then Some ''middle''
         else None)"

text \<open>\<open>execute_inline\<close>: the checked call for the driver, or the error before it.\<close>

definition inline_call :: "AutomationAction \<Rightarrow> string + AutomationAction" where
  "inline_call action =
     (case action of
        MouseClick button x y \<Rightarrow>
          (case parse_mouse_button button of
             None \<Rightarrow> Inl (''unknown mouse button: '' @ button)
           | Some b \<Rightarrow> Inr (MouseClick b x y))
      | KeyType text \<Rightarrow>
          if char_count text > MAX_SYNTHESIZED_INPUT_LEN then Inl ''KeyType text exceeds 4096 chars''
          else Inr action
      | Hotkey keys \<Rightarrow>
          if length keys > MAX_SYNTHESIZED_INPUT_LEN then Inl ''Hotkey exceeds 4096 keys''
          else Inr action
      | _ \<Rightarrow> Inr action)"

definition execute_inline ::
  "(AutomationAction \<Rightarrow> string + unit) \<Rightarrow> AutomationAction \<Rightarrow> CommandResult \<times> effect option" where
  "execute_inline driver action =
     (case inline_call action of
        Inl e \<Rightarrow> (Failed (''Inline execution failed: '' @ e), None)
      | Inr call \<Rightarrow>
          (case driver call of
             Inr _ \<Rightarrow> (Success, Some (InlineInput call))
           | Inl e \<Rightarrow> (Failed (''Inline execution failed: '' @ e), Some (InlineInput call))))"

definition dispatch ::
  "dispatch_env \<Rightarrow> AutomationAction \<Rightarrow> SandboxConfig \<Rightarrow> CommandResult \<times> effect option" where
  "dispatch env action config =
     (if \<not> sandbox_enabled config
      then (case inline_driver env of
              Some driver \<Rightarrow> execute_inline driver action
            | None \<Rightarrow> (Failed ''Sandbox disabled and no inline input driver is wired'', None))
      else if is_permissive_noop config
      then (case inline_driver env of
              Some driver \<Rightarrow> execute_inline driver action
            | None \<Rightarrow> (Failed ''Permissive no-op requires an inline input driver'', None))
      else if sandbox_platform env = ''noop'' \<or> \<not> sandbox_available env
      then (Failed ''Sandbox enabled but the wired sandbox provides no enforcement; refusing to run the action uncontained'', None)
      else (case execute_sandboxed env action config of
              Inr _ \<Rightarrow> (Success, Some (SandboxRun action config))
            | Inl e \<Rightarrow> (Failed (''Sandbox execution failed: '' @ e), Some (SandboxRun action config))))"

section \<open>The gate\<close>

definition internal_tokens :: "string list" where
  "internal_tokens = [''gui-session'', ''intent-hint'', ''scene-action'', ''workflow-step'']"

definition uses_internal_policy_token :: "string \<Rightarrow> bool" where
  "uses_internal_policy_token token \<longleftrightarrow> token \<in> set internal_tokens"

definition is_trusted_internal :: "CommandOrigin \<Rightarrow> string \<Rightarrow> bool" where
  "is_trusted_internal origin token \<longleftrightarrow> origin = InternalOrigin \<and> uses_internal_policy_token token"

definition resolve_for_command ::
  "dispatch_env \<Rightarrow> SandboxConfig \<Rightarrow> AutomationCommand \<Rightarrow> 'j PolicyClient \<Rightarrow> SandboxConfig \<times> AuditLevel" where
  "resolve_for_command env base cmd c =
     (if is_trusted_internal (cmd_origin cmd) (cmd_policy_token cmd)
      then (enforceable_strict_config base (sandbox_capabilities env), LevelBasic)
      else (case get_policy_for_token (cmd_policy_token cmd) c of
              Some policy \<Rightarrow> (resolve_sandbox_config policy base, audit_level policy)
            | None \<Rightarrow> (default_strict_config base, LevelBasic)))"

definition timeout_of :: "AutomationCommand \<Rightarrow> SandboxConfig \<Rightarrow> u64 option" where
  "timeout_of cmd config =
     (case cmd_timeout_ms cmd of
        Some t \<Rightarrow> Some t
      | None \<Rightarrow> if max_cpu_time_ms config > 0 then Some (max_cpu_time_ms config) else None)"

definition effective_timeout_ms ::
  "dispatch_env \<Rightarrow> SandboxConfig \<Rightarrow> AutomationCommand \<Rightarrow> 'j PolicyClient \<Rightarrow> u64 option" where
  "effective_timeout_ms env base cmd c = timeout_of cmd (fst (resolve_for_command env base cmd c))"

record 'j gate_env =
  token_env :: "'j policy_env"
  meanwhile :: "'j PolicyClient \<Rightarrow> 'j PolicyClient"
  dispatcher :: dispatch_env
  base_config :: SandboxConfig
  show_int :: "int \<Rightarrow> string"
  show_u64 :: "u64 \<Rightarrow> string"
  show_result :: "CommandResult \<Rightarrow> string"
  validated_at :: instant
  timed_out :: bool
  elapsed_ms :: u64
  first_log :: log_env
  second_log :: log_env

fun join :: "string \<Rightarrow> string list \<Rightarrow> string" where
  "join sep [] = []"
| "join sep [x] = x"
| "join sep (x # y # xs) = x @ sep @ join sep (y # xs)"

definition audit_action_label :: "(int \<Rightarrow> string) \<Rightarrow> AutomationAction \<Rightarrow> string" where
  "audit_action_label show_i action =
     (case action of
        MouseMove x y \<Rightarrow> ''MouseMove { x='' @ show_i x @ '', y='' @ show_i y @ '' }''
      | MouseClick b x y \<Rightarrow>
          ''MouseClick { button='' @ b @ '', x='' @ show_i x @ '', y='' @ show_i y @ '' }''
      | KeyType text \<Rightarrow> ''KeyType { text_len='' @ show_i (int (char_count text)) @ '' }''
      | KeyPress key \<Rightarrow> ''KeyPress { key='' @ key @ '' }''
      | KeyRelease key \<Rightarrow> ''KeyRelease { key='' @ key @ '' }''
      | Hotkey keys \<Rightarrow> ''Hotkey { keys='' @ join ''+'' keys @ '' }'')"

fun outcome_label :: "CommandResult \<Rightarrow> string \<times> AuditStatus" where
  "outcome_label Success = (''complete'', AuditCompleted)"
| "outcome_label (Failed _) = (''failed'', AuditFailed)"
| "outcome_label Denied = (''denied'', AuditDenied)"
| "outcome_label Timeout = (''timeout'', AuditTimeout)"

text \<open>The part of \<open>execute\<close> after the authorisation: checks, start entry, dispatch and outcome entry.\<close>

definition execute_resolved ::
  "'j gate_env \<Rightarrow> AutomationCommand \<Rightarrow> SandboxConfig \<Rightarrow> AuditLevel \<Rightarrow> AuditLogger
    \<Rightarrow> CommandResult \<times> AuditLogger \<times> effect option" where
  "execute_resolved env cmd config level l =
     (case validate_sandbox_config_runtime_support config of
        Inl reason \<Rightarrow>
          (let message = ''permission profile v2 runtime unsupported: '' @ reason
           in (Failed message,
               log_failed (first_log env) (cmd_command_id cmd) (cmd_session_id cmd) message l, None))
      | Inr _ \<Rightarrow>
          (case try_log_start_if (first_log env) level (cmd_command_id cmd) (cmd_session_id cmd)
                  (audit_action_label (show_int env) (cmd_action cmd)) l of
             (Inl _, l1) \<Rightarrow> (Denied, l1, None)
           | (Inr _, l1) \<Rightarrow>
               (let (result, eff) = dispatch (dispatcher env) (cmd_action cmd) config
                in case (timeout_of cmd config, timed_out env) of
                     (Some t, True) \<Rightarrow>
                       (Timeout,
                        log_timeout (second_log env) (show_u64 env) (cmd_command_id cmd)
                          (cmd_session_id cmd) t l1, eff)
                   | _ \<Rightarrow>
                       (result,
                        log_with_status_and_time (second_log env) level (cmd_command_id cmd)
                          (cmd_session_id cmd) (fst (outcome_label result)) (snd (outcome_label result))
                          (show_result env result) (elapsed_ms env) l1, eff))))"

definition gate_execute ::
  "'j gate_env \<Rightarrow> AutomationCommand \<Rightarrow> 'j PolicyClient \<times> AuditLogger
    \<Rightarrow> (AutomationError + CommandResult) \<times> ('j PolicyClient \<times> AuditLogger) \<times> effect option" where
  "gate_execute env cmd st =
     (let (c, l) = st;
          (verdict, c1) =
            (if is_trusted_internal (cmd_origin cmd) (cmd_policy_token cmd) then (Inr True, c)
             else validate_command (env_hmac (token_env env)) (env_secret (token_env env))
                    (env_digest (token_env env)) (validated_at env) cmd c)
      in case verdict of
           Inl e \<Rightarrow> (Inl e, (c1, l), None)
         | Inr False \<Rightarrow>
             (Inr Denied,
              (c1, log_denied (first_log env) (cmd_command_id cmd) (cmd_session_id cmd)
                     (audit_action_label (show_int env) (cmd_action cmd)) l), None)
         | Inr True \<Rightarrow>
             (let c2 = meanwhile env c1;
                  (config, level) = resolve_for_command (dispatcher env) (base_config env) cmd c2;
                  (result, l', eff) = execute_resolved env cmd config level l
              in (Inr result, (c2, l'), eff)))"

end
