(* ===== verification/Gate_Properties.thy ===== *)
theory Gate_Properties
  imports Automation_Gate
begin

text \<open>
  What the execution gate guarantees: an action reaches the operating system only when its command is
  authorised, its sandbox can be enforced and, at the strict audit level, its start is recorded; and
  every command leaves an audit entry with its real outcome.
\<close>

section \<open>Sandbox configurations that are run\<close>

lemma runtime_support_iff:
  "validate_sandbox_config_runtime_support config = Inr () \<longleftrightarrow>
     allowed_read_paths config = [] \<and> allowed_write_paths config = [] \<and> \<not> config_allow_network config"
proof -
  have "decision_for_target (network (from_legacy_sandbox config)) ''127.0.0.1:0'' Bind = NetDenied"
    by (cases "profile config")
      (simp_all add: decision_for_target_def from_legacy_sandbox_def built_in_def default_network_def)
  then have probe: "list_ex (\<lambda>(target, mode).
      decision_for_target (network (from_legacy_sandbox config)) target mode = NetDenied) probe_targets"
    by (simp add: probe_targets_def)
  have "fs_read (filesystem (from_legacy_sandbox config)) = allowed_read_paths config"
    "fs_write (filesystem (from_legacy_sandbox config)) = allowed_write_paths config"
    "fs_deny_globs (filesystem (from_legacy_sandbox config)) = default_secret_deny_globs"
    "net_enabled (network (from_legacy_sandbox config)) = config_allow_network config"
    "unix_sockets (from_legacy_sandbox config) = default_unix_sockets"
    by (simp_all add: from_legacy_sandbox_def built_in_def default_filesystem_def Let_def)
  then show ?thesis
    using probe
    by (auto simp: validate_sandbox_config_runtime_support_def Let_def default_unix_sockets_def
        validate_permission_profile_v2_runtime_support_def default_secret_deny_globs_def)
qed

text \<open>A policy that allows a path, or the network, can therefore never run a command.\<close>

lemma policy_paths_never_run:
  assumes "allowed_paths policy \<noteq> [] \<or> allow_network policy = Some True"
  shows "validate_sandbox_config_runtime_support (resolve_sandbox_config policy base) \<noteq> Inr ()"
proof -
  have "add_paths acc ps \<noteq> []" if "acc \<noteq> [] \<or> ps \<noteq> []" for acc ps
    using that
  proof (induction acc ps rule: add_paths.induct)
    case (2 acc p ps)
    have "(if p \<in> set acc then acc else acc @ [p]) \<noteq> []" by auto
    then show ?case using "2.IH" by simp
  qed simp
  then show ?thesis
    using assms by (auto simp: runtime_support_iff resolve_sandbox_config_def Let_def)
qed

section \<open>Effects\<close>

text \<open>What a dispatched effect says of the action and the configuration.\<close>

definition contained :: "dispatch_env \<Rightarrow> AutomationAction \<Rightarrow> SandboxConfig \<Rightarrow> effect \<Rightarrow> bool" where
  "contained env action config eff =
     (case eff of
        InlineInput call \<Rightarrow>
          inline_call action = Inr call \<and> (\<not> sandbox_enabled config \<or> is_permissive_noop config)
      | SandboxRun a cfg \<Rightarrow>
          a = action \<and> cfg = config \<and> sandbox_enabled config \<and> sandbox_available env \<and>
          sandbox_platform env \<noteq> ''noop'')"

lemma dispatch_effect:
  "dispatch env action config = (result, Some eff) \<Longrightarrow> contained env action config eff"
  by (auto simp: dispatch_def execute_inline_def contained_def
      split: if_splits option.splits sum.splits)

lemma dispatch_success:
  "dispatch env action config = (Success, eff) \<Longrightarrow> eff \<noteq> None"
  by (auto simp: dispatch_def execute_inline_def split: if_splits option.splits sum.splits)

definition start_entry :: "'j gate_env \<Rightarrow> AutomationCommand \<Rightarrow> AuditEntry" where
  "start_entry env cmd =
     build_entry (first_log env) (cmd_command_id cmd) (cmd_session_id cmd)
       (audit_action_label (show_int env) (cmd_action cmd)) AuditStarted None None"

text \<open>The start was recorded: it is in the buffer, and the sink, when there is one, took it.\<close>

definition start_recorded :: "AuditEntry \<Rightarrow> AuditLogger \<Rightarrow> bool" where
  "start_recorded e l \<longleftrightarrow>
     length (buffer l) < max_buffer_size l \<and>
     (case persistence l of
        None \<Rightarrow> True
      | Some ch \<Rightarrow> fst (channel_persist_checked e ch) = Inr ())"

lemma execute_resolved_cases:
  assumes "execute_resolved env cmd config level l = (result, l', eff)"
  obtains (unsupported) message where "result = Failed message" and "eff = None" and
      "l' = log_failed (first_log env) (cmd_command_id cmd) (cmd_session_id cmd) message l"
  | (refused) e where "result = Denied" and "eff = None" and
      "try_log_start_if (first_log env) level (cmd_command_id cmd) (cmd_session_id cmd)
         (audit_action_label (show_int env) (cmd_action cmd)) l = (Inl e, l')"
  | (dispatched) l1 dispatched where
      "validate_sandbox_config_runtime_support config = Inr ()" and
      "try_log_start_if (first_log env) level (cmd_command_id cmd) (cmd_session_id cmd)
         (audit_action_label (show_int env) (cmd_action cmd)) l = (Inr (), l1)" and
      "dispatch (dispatcher env) (cmd_action cmd) config = (dispatched, eff)" and
      "result = Timeout \<and> (\<exists>t. l' = log_timeout (second_log env) (show_u64 env) (cmd_command_id cmd)
           (cmd_session_id cmd) t l1) \<or>
       result = dispatched \<and> l' = log_with_status_and_time (second_log env) level (cmd_command_id cmd)
           (cmd_session_id cmd) (fst (outcome_label result)) (snd (outcome_label result))
           (show_result env result) (elapsed_ms env) l1"
proof (cases "validate_sandbox_config_runtime_support config")
  case (Inl reason)
  then show ?thesis using assms unsupported by (auto simp: execute_resolved_def Let_def)
next
  case ok: (Inr u)
  obtain s l1 where s: "try_log_start_if (first_log env) level (cmd_command_id cmd) (cmd_session_id cmd)
      (audit_action_label (show_int env) (cmd_action cmd)) l = (s, l1)" by force
  obtain r f where d: "dispatch (dispatcher env) (cmd_action cmd) config = (r, f)" by force
  show ?thesis
  proof (cases s)
    case (Inl e)
    then show ?thesis using assms ok s refused by (simp add: execute_resolved_def)
  next
    case (Inr u')
    then show ?thesis
      using assms ok s d dispatched [of l1 r]
      by (auto simp: execute_resolved_def split: option.splits bool.splits)
  qed
qed

lemma execute_resolved_effect:
  assumes "execute_resolved env cmd config level l = (result, l', Some eff)"
  shows "validate_sandbox_config_runtime_support config = Inr ()"
    and "contained (dispatcher env) (cmd_action cmd) config eff"
    and "level = LevelFull \<Longrightarrow> start_recorded (start_entry env cmd) l"
  using assms
  by (cases rule: execute_resolved_cases;
      auto simp: dispatch_effect try_log_start_if_def start_recorded_def start_entry_def push_checked_def
        Let_def note_drop_def split: option.splits sum.splits prod.splits if_splits)+

text \<open>The ways a command goes through the gate.\<close>

lemma gate_execute_cases:
  assumes "gate_execute env cmd (c, l) = (res, (c', l'), eff)"
  obtains (rejected) e where "res = Inl e" and "l' = l" and "eff = None"
  | (denied) "res = Inr Denied" and "eff = None" and
      "l' = log_denied (first_log env) (cmd_command_id cmd) (cmd_session_id cmd)
             (audit_action_label (show_int env) (cmd_action cmd)) l"
  | (run) result where "res = Inr result" and
      "is_trusted_internal (cmd_origin cmd) (cmd_policy_token cmd) \<or>
       fst (validate_command (env_hmac (token_env env)) (env_secret (token_env env))
              (env_digest (token_env env)) (validated_at env) cmd c) = Inr True" and
      "execute_resolved env cmd (fst (resolve_for_command (dispatcher env) (base_config env) cmd c'))
         (snd (resolve_for_command (dispatcher env) (base_config env) cmd c')) l = (result, l', eff)"
proof (cases "is_trusted_internal (cmd_origin cmd) (cmd_policy_token cmd)")
  case True
  then show ?thesis using assms run by (auto simp: gate_execute_def Let_def case_prod_beta)
next
  case False
  obtain v c1 where v: "validate_command (env_hmac (token_env env)) (env_secret (token_env env))
      (env_digest (token_env env)) (validated_at env) cmd c = (v, c1)" by force
  show ?thesis
  proof (cases v)
    case (Inl e)
    then show ?thesis using assms False v rejected by (auto simp: gate_execute_def)
  next
    case (Inr b)
    then show ?thesis
      using assms False v denied run by (cases b) (auto simp: gate_execute_def Let_def case_prod_beta)
  qed
qed

text \<open>A desktop without a sandbox, an inline driver that always succeeds, and the token of the policies.\<close>

definition sample_gate :: "(u32 \<times> ExecutionPolicy list) gate_env" where
  "sample_gate =
     \<lparr>token_env = sample_policy_env, meanwhile = id,
      dispatcher = \<lparr>inline_driver = Some (\<lambda>_. Inr ()), sandbox_platform = ''noop'',
        sandbox_available = False,
        sandbox_capabilities = \<lparr>filesystem_isolation = False, syscall_filtering = False,
          network_isolation = False, resource_limits = False, process_isolation = False,
          privilege_restriction = False\<rparr>,
        execute_sandboxed = (\<lambda>_ _. Inl ''none'')\<rparr>,
      base_config = \<lparr>sandbox_enabled = False, profile = Standard, allowed_read_paths = [],
        allowed_write_paths = [], config_allow_network = False, max_memory_bytes = 0,
        max_cpu_time_ms = 0\<rparr>,
      show_int = (\<lambda>_. ''0''), show_u64 = (\<lambda>_. ''0''), show_result = (\<lambda>_. ''Success''),
      validated_at = 1, timed_out = False, elapsed_ms = 7,
      first_log = \<lparr>fresh_id = ''aud-1'', log_time = 1, sanitize = id\<rparr>,
      second_log = \<lparr>fresh_id = ''aud-2'', log_time = 2, sanitize = id\<rparr>\<rparr>"

lemma sample_gate_run:
  obtains c' l' where "gate_execute sample_gate sample_command (sample_client, default_logger) =
    (Inr Success, (c', l'), Some (InlineInput (KeyPress ''Enter'')))"
    and "resolve_for_command (dispatcher sample_gate) (base_config sample_gate) sample_command c' =
      (resolve_sandbox_config sample_policy (base_config sample_gate), LevelFull)"
proof -
  obtain c1 where c1: "validate_command (env_hmac sample_policy_env) (env_secret sample_policy_env)
      (env_digest sample_policy_env) 1 sample_command sample_client = (Inr True, c1)"
    using sample_accepted by (metis prod.collapse)
  then have cache: "policy_cache c1 = policy_cache sample_client" using validate_cache by (metis snd_conv)
  have external: "\<not> is_trusted_internal (cmd_origin sample_command) (cmd_policy_token sample_command)"
    by (simp add: is_trusted_internal_def sample_command_def)
  have policy: "get_policy_for_token (cmd_policy_token sample_command) c1 = Some sample_policy"
    using sample_token_parse cache
    by (simp add: get_policy_for_token_def sample_command_def sample_client_def sample_policy_def)
  then have resolved: "resolve_for_command (dispatcher sample_gate) (base_config sample_gate) sample_command c1 =
      (resolve_sandbox_config sample_policy (base_config sample_gate), LevelFull)"
    using external by (simp add: resolve_for_command_def sample_policy_def)
  have supported: "validate_sandbox_config_runtime_support
      (resolve_sandbox_config sample_policy (base_config sample_gate)) = Inr ()"
    by (simp add: runtime_support_iff resolve_sandbox_config_def sample_policy_def sample_gate_def
        resolve_sandbox_profile_def)
  let ?config = "resolve_sandbox_config sample_policy (base_config sample_gate)"
  have performed: "dispatch (dispatcher sample_gate) (cmd_action sample_command) ?config =
      (Success, Some (InlineInput (KeyPress ''Enter'')))"
    by (simp add: dispatch_def resolve_sandbox_config_def sample_gate_def sample_command_def
        execute_inline_def inline_call_def Let_def)
  obtain l1 where started: "try_log_start_if (first_log sample_gate) LevelFull (cmd_command_id sample_command)
      (cmd_session_id sample_command)
      (audit_action_label (show_int sample_gate) (cmd_action sample_command)) default_logger = (Inr (), l1)"
    by (simp add: try_log_start_if_def push_checked_def default_logger_def logger_new_def)
  have "\<not> timed_out sample_gate" by (simp add: sample_gate_def)
  then obtain l' where executed: "execute_resolved sample_gate sample_command ?config LevelFull default_logger =
      (Success, l', Some (InlineInput (KeyPress ''Enter'')))"
    using supported performed started
    by (cases "timeout_of sample_command ?config") (auto simp: execute_resolved_def)
  have "token_env sample_gate = sample_policy_env" "validated_at sample_gate = 1" "meanwhile sample_gate = id"
    by (simp_all add: sample_gate_def)
  then have "gate_execute sample_gate sample_command (sample_client, default_logger) =
      (Inr Success, (c1, l'), Some (InlineInput (KeyPress ''Enter'')))"
    using c1 external resolved executed by (simp add: gate_execute_def)
  then show ?thesis using that resolved by blast
qed



section \<open>The audit trail of the gate\<close>

lemma buffer_push [simp]: "last (buffer (push_best_effort e l)) = e" "buffer (push_best_effort e l) \<noteq> []"
  by (simp_all add: push_best_effort_def Let_def)

lemma logged_status:
  "last (buffer (push_entry env cid sid a st d l)) = build_entry env cid sid a st d None"
  "last (buffer (push_entry_with_time env cid sid a st d ms l)) = build_entry env cid sid a st d ms"
  by (simp_all add: push_entry_def push_entry_with_time_def)

text \<open>The entry of a command with its outcome.\<close>

definition outcome_logged :: "AutomationCommand \<Rightarrow> CommandResult \<Rightarrow> AuditLogger \<Rightarrow> bool" where
  "outcome_logged cmd result l \<longleftrightarrow>
     buffer l \<noteq> [] \<and> ae_command_id (last (buffer l)) = cmd_command_id cmd \<and>
     ae_session_id (last (buffer l)) = cmd_session_id cmd \<and>
     ae_status (last (buffer l)) = snd (outcome_label result)"

lemma timeout_logged:
  "outcome_logged cmd Timeout (log_timeout env sh (cmd_command_id cmd) (cmd_session_id cmd) ms l)"
  by (simp add: outcome_logged_def log_timeout_def push_entry_with_time_def build_entry_def)

lemma status_logged:
  "level \<noteq> LevelNone \<Longrightarrow> outcome_logged cmd result (log_with_status_and_time env level (cmd_command_id cmd)
     (cmd_session_id cmd) a (snd (outcome_label result)) d ms l)"
  by (simp add: outcome_logged_def log_with_status_and_time_def push_entry_with_time_def build_entry_def)

lemma start_refused:
  "try_log_start_if env level cid sid a l = (Inl e, l1) \<Longrightarrow> level = LevelFull \<and> buffer l1 = buffer l"
  by (auto simp: try_log_start_if_def push_checked_def note_drop_def Let_def
      split: option.splits sum.splits prod.splits if_splits)

lemma start_silent: "try_log_start_if env LevelNone cid sid a l = (Inr (), l1) \<Longrightarrow> l1 = l"
  by (simp add: try_log_start_if_def)

lemma execute_resolved_logs:
  assumes "execute_resolved env cmd config level l = (result, l', eff)"
  shows "outcome_logged cmd result l' \<or>
    level = LevelNone \<and> l' = l \<or>
    level = LevelFull \<and> result = Denied \<and> eff = None \<and> buffer l' = buffer l"
  using assms
proof (cases rule: execute_resolved_cases)
  case (unsupported message)
  then show ?thesis by (simp add: outcome_logged_def log_failed_def push_entry_def build_entry_def)
next
  case (refused e)
  then show ?thesis using start_refused by blast
next
  case (dispatched l1 r)
  from dispatched(4) show ?thesis
  proof (elim disjE conjE exE)
    fix t assume "result = Timeout" and "l' = log_timeout (second_log env) (show_u64 env)
      (cmd_command_id cmd) (cmd_session_id cmd) t l1"
    then show ?thesis using timeout_logged by blast
  next
    assume "l' = log_with_status_and_time (second_log env) level (cmd_command_id cmd)
      (cmd_session_id cmd) (fst (outcome_label result)) (snd (outcome_label result))
      (show_result env result) (elapsed_ms env) l1"
    then show ?thesis
      using status_logged dispatched(2) start_silent
      by (cases "level = LevelNone") (auto simp: log_with_status_and_time_def)
  qed
qed

text \<open> Every answered command leaves its outcome in the audit trail. Except at the level that switches
  auditing off, the newest entry after the call names the command and its session and has the status of
  the result the caller got; at the strict level the alternative is a denial, with nothing executed and
  nothing recorded. \<close>

theorem gate_outcomes_are_audited:
  assumes "gate_execute env cmd (c, l) = (Inr result, (c', l'), eff)"
  shows "outcome_logged cmd result l' \<or>
    (case snd (resolve_for_command (dispatcher env) (base_config env) cmd c') of
       LevelNone \<Rightarrow> l' = l
     | LevelFull \<Rightarrow> result = Denied \<and> eff = None \<and> buffer l' = buffer l
     | _ \<Rightarrow> False)"
  using assms
proof (cases rule: gate_execute_cases)
  case (rejected e)
  then show ?thesis by simp
next
  case denied
  then show ?thesis by (simp add: outcome_logged_def log_denied_def push_entry_def build_entry_def)
next
  case (run r)
  then show ?thesis using execute_resolved_logs [OF run(3)] by auto
qed

theorem gate_outcomes_are_audited_witness:
  "\<exists>c' l' eff. gate_execute sample_gate sample_command (sample_client, default_logger) =
     (Inr Success, (c', l'), eff) \<and> outcome_logged sample_command Success l'"
proof -
  obtain c' l' where run: "gate_execute sample_gate sample_command (sample_client, default_logger) =
      (Inr Success, (c', l'), Some (InlineInput (KeyPress ''Enter'')))"
    and resolved: "resolve_for_command (dispatcher sample_gate) (base_config sample_gate) sample_command c' =
      (resolve_sandbox_config sample_policy (base_config sample_gate), LevelFull)"
    using sample_gate_run by blast
  then show ?thesis using gate_outcomes_are_audited [OF run] run by auto
qed

end
