(* ===== verification/Gui_Session.thy ===== *)
theory Gui_Session
  imports Complex_Main Policy_Token "HOL-Library.AList"
begin

text \<open>
  GUI interaction sessions (\<open>maekon-automation/src/gui_interaction/\<close>: \<open>service.rs\<close>,
  \<open>service_execution.rs\<close>, \<open>crypto.rs\<close>, \<open>helpers.rs\<close>, \<open>types.rs\<close>, and \<open>models/gui/session.rs\<close>,
  \<open>models/ui_scene.rs\<close>). A session is proposed for a scene, a candidate is confirmed and gets a signed
  ticket, and the ticket buys one execution. The session map is an association list. A handler that
  waits for the operating system releases the lock there, so its locked sections are definitions of
  their own and the handler is their composition.

  HMAC-SHA-256, the digest of an action list, the rendering of a time and the generated ids are
  arguments, as are the answers of the focus probe, the scene finder and the overlay, with their errors
  already in the form of \<open>GuiInteractionError\<close>. A confidence is a rational or, for NaN, no value. Boxes
  in normalised coordinates, schema versions and the clock-derived command id of a plan are left out.
\<close>

section \<open>Data\<close>

datatype GuiInteractionError =
    GuiUnauthorized
  | GuiNotFound string
  | GuiBadRequest string
  | GuiForbidden string
  | GuiFocusDrift string
  | GuiTicketInvalid string
  | GuiUnavailable string
  | GuiInternal string

datatype GuiSessionState = Proposed | Highlighted | Confirmed | Executing | Executed | Cancelled | Expired

fun state_debug :: "GuiSessionState \<Rightarrow> string" where
  "state_debug Proposed = ''Proposed''"
| "state_debug Highlighted = ''Highlighted''"
| "state_debug Confirmed = ''Confirmed''"
| "state_debug Executing = ''Executing''"
| "state_debug Executed = ''Executed''"
| "state_debug Cancelled = ''Cancelled''"
| "state_debug Expired = ''Expired''"

record ElementBounds =
  eb_x :: "32 word"
  eb_y :: "32 word"
  eb_width :: u32
  eb_height :: u32

record UiSceneElement =
  element_id :: string
  bbox_abs :: ElementBounds
  el_label :: string
  el_role :: "string option"
  el_intent :: "string option"
  el_state :: "string option"
  confidence :: "rat option"
  text_masked :: "string option"
  parent_id :: "string option"

record UiScene =
  scene_id :: string
  scene_app :: "string option"
  scene_screen :: "string option"
  scene_captured_at :: instant
  screen_width :: u32
  screen_height :: u32
  elements :: "UiSceneElement list"

record FocusSnapshot =
  focus_app :: string
  window_title :: string
  focus_pid :: u32
  focus_captured_at :: instant
  focus_hash :: string

record GuiCandidate =
  cand_element :: UiSceneElement
  eligible :: bool

datatype GuiActionType = Click | DoubleClick | RightClick | TypeText

record GuiActionRequest =
  action_type :: GuiActionType
  action_text :: "string option"

record GuiExecutionTicket =
  ticket_id :: string
  t_session_id :: string
  t_scene_id :: string
  t_element_id :: string
  t_action_hash :: string
  t_focus_hash :: string
  issued_at :: instant
  t_expires_at :: instant
  nonce :: string
  signature :: string

record GuiInteractionSession =
  session_id :: string
  gui_state :: GuiSessionState
  scene :: UiScene
  focus :: FocusSnapshot
  candidates :: "GuiCandidate list"
  selected_element_id :: "string option"
  created_at :: instant
  updated_at :: instant
  expires_at :: instant

record ConfirmedAction =
  ca_candidate_id :: string
  ca_actions :: "AutomationAction list"
  ca_action_hash :: string
  ca_ticket :: GuiExecutionTicket

record StoredSession =
  session :: GuiInteractionSession
  capability_token :: string
  overlay_handle_id :: "string option"
  confirmed_action :: "ConfirmedAction option"
  used_ticket_nonces :: "string set"

record GuiExecutionPlan =
  plan_session_id :: string
  plan_actions :: "AutomationAction list"
  plan_ticket :: GuiExecutionTicket

record GuiSessionEvent =
  ev_type :: string
  ev_session :: string
  ev_state :: GuiSessionState
  ev_message :: "string option"

record GuiInteractionService =
  sessions :: "(string \<times> StoredSession) list"
  events :: "GuiSessionEvent list"
  hmac_secret :: "string option"

record gui_env =
  gui_hmac :: "string \<Rightarrow> string \<Rightarrow> u8 list"
  actions_digest :: "AutomationAction list \<Rightarrow> string option"
  show_millis :: "instant \<Rightarrow> string"

text \<open>The answer of the focus probe: valid or not, with a reason.\<close>

type_synonym focus_answer = "GuiInteractionError + bool \<times> string option"

definition MAX_SESSIONS :: nat where "MAX_SESSIONS = 100"
definition MAX_USED_TICKET_NONCES :: nat where "MAX_USED_TICKET_NONCES = 512"
definition FOCUS_DRIFT_MAX_RETRIES :: nat where "FOCUS_DRIFT_MAX_RETRIES = 2"
definition TICKET_EXPIRY_GRACE_SECS :: nat where "TICKET_EXPIRY_GRACE_SECS = 5"
definition DEFAULT_MAX_CANDIDATES :: nat where "DEFAULT_MAX_CANDIDATES = 20"
definition DEFAULT_SESSION_TTL_SECS :: int where "DEFAULT_SESSION_TTL_SECS = 300"
definition DEFAULT_TICKET_TTL_SECS :: int where "DEFAULT_TICKET_TTL_SECS = 30"

definition seconds :: "nat \<Rightarrow> nat" where "seconds s = s * 1000000000"

section \<open>Helpers\<close>

text \<open>The candidates: confident enough (a NaN never is), best first, at most \<open>limit\<close>; the sort is stable.\<close>

definition build_candidates :: "UiScene \<Rightarrow> rat option \<Rightarrow> nat \<Rightarrow> GuiCandidate list" where
  "build_candidates sc min_confidence limit =
     (let confident = (\<lambda>e. case (confidence e, min_confidence) of
                              (Some c, Some m) \<Rightarrow> m \<le> c | _ \<Rightarrow> False)
      in take limit
           (sort_key (\<lambda>c. - the (confidence (cand_element c)))
              (map (\<lambda>e. \<lparr>cand_element = e, eligible = True\<rparr>) (filter confident (elements sc)))))"

text \<open>\<open>width as i32 / 2\<close> and the sum, wrapping as in a release build.\<close>

definition half_i32 :: "u32 \<Rightarrow> int" where
  "half_i32 w = (if sint w \<ge> 0 then sint w div 2 else - ((- sint w) div 2))"

definition center :: "32 word \<Rightarrow> u32 \<Rightarrow> int" where
  "center x w = sint (x + word_of_int (half_i32 w))"

definition build_actions_for_candidate ::
  "GuiCandidate \<Rightarrow> GuiActionRequest \<Rightarrow> GuiInteractionError + AutomationAction list" where
  "build_actions_for_candidate cand req =
     (let b = bbox_abs (cand_element cand);
          x = center (eb_x b) (eb_width b);
          y = center (eb_y b) (eb_height b)
      in case action_type req of
           Click \<Rightarrow> Inr [MouseClick ''left'' x y]
         | DoubleClick \<Rightarrow> Inr [MouseClick ''left'' x y, MouseClick ''left'' x y]
         | RightClick \<Rightarrow> Inr [MouseClick ''right'' x y]
         | TypeText \<Rightarrow>
             (case action_text req of
                Some v \<Rightarrow>
                  if trim v = [] then Inl (GuiBadRequest ''type_text action requires non-empty text'')
                  else Inr [MouseClick ''left'' x y, KeyType v]
              | None \<Rightarrow> Inl (GuiBadRequest ''type_text action requires non-empty text'')))"

definition gui_is_expired :: "instant \<Rightarrow> instant \<Rightarrow> bool" where
  "gui_is_expired t now \<longleftrightarrow> t \<le> now"

definition is_expired_past_grace :: "instant \<Rightarrow> nat \<Rightarrow> instant \<Rightarrow> bool" where
  "is_expired_past_grace t grace now \<longleftrightarrow> t + seconds grace \<le> now"

text \<open>\<open>value as i64\<close>, then \<open>clamp\<close>: a huge duration becomes negative and is clamped to the minimum.\<close>

definition clamp_secs :: "u64 option \<Rightarrow> int \<Rightarrow> int \<Rightarrow> int \<Rightarrow> nat" where
  "clamp_secs v dflt lo hi =
     nat (min hi (max lo (case v of Some w \<Rightarrow> sint w | None \<Rightarrow> dflt)))"

section \<open>Tickets\<close>

definition ticket_signature_payload :: "gui_env \<Rightarrow> GuiExecutionTicket \<Rightarrow> string" where
  "ticket_signature_payload env t =
     t_session_id t @ ''|'' @ t_scene_id t @ ''|'' @ t_element_id t @ ''|'' @ t_action_hash t @ ''|'' @
     t_focus_hash t @ ''|'' @ show_millis env (issued_at t) @ ''|'' @
     show_millis env (t_expires_at t) @ ''|'' @ nonce t"

definition sign_ticket :: "gui_env \<Rightarrow> string \<Rightarrow> GuiExecutionTicket \<Rightarrow> string" where
  "sign_ticket env secret t = hex_encode (gui_hmac env secret (ticket_signature_payload env t))"

definition verify_ticket :: "gui_env \<Rightarrow> string \<Rightarrow> GuiExecutionTicket \<Rightarrow> GuiInteractionError + unit" where
  "verify_ticket env secret t =
     (case hex_decode (signature t) of
        None \<Rightarrow> Inl (GuiTicketInvalid ''ticket signature format is invalid'')
      | Some bytes \<Rightarrow>
          if bytes = gui_hmac env secret (ticket_signature_payload env t) then Inr ()
          else Inl (GuiTicketInvalid ''ticket signature mismatch''))"

definition hash_actions :: "gui_env \<Rightarrow> AutomationAction list \<Rightarrow> GuiInteractionError + string" where
  "hash_actions env actions =
     (case actions_digest env actions of
        None \<Rightarrow> Inl (GuiInternal ''action hash serialization failed'')
      | Some h \<Rightarrow> Inr h)"

section \<open>The service\<close>

definition gui_service_new :: "string option \<Rightarrow> GuiInteractionService" where
  "gui_service_new secret =
     \<lparr>sessions = [], events = [], hmac_secret = load_signing_secret secret\<rparr>"

definition require_hmac_secret :: "GuiInteractionService \<Rightarrow> GuiInteractionError + string" where
  "require_hmac_secret svc =
     (case hmac_secret svc of
        None \<Rightarrow> Inl (GuiUnavailable ''MAEKON_GUI_TICKET_HMAC_SECRET is missing or empty'')
      | Some s \<Rightarrow> Inr s)"

definition get_stored :: "string \<Rightarrow> GuiInteractionService \<Rightarrow> StoredSession option" where
  "get_stored sid svc = map_of (sessions svc) sid"

definition put_stored :: "string \<Rightarrow> StoredSession \<Rightarrow> GuiInteractionService \<Rightarrow> GuiInteractionService" where
  "put_stored sid st svc = svc\<lparr>sessions := AList.update sid st (sessions svc)\<rparr>"

definition publish_event ::
  "string \<Rightarrow> GuiSessionState \<Rightarrow> string \<Rightarrow> string option \<Rightarrow> GuiInteractionService \<Rightarrow> GuiInteractionService" where
  "publish_event sid st ty msg svc =
     svc\<lparr>events := events svc @ [\<lparr>ev_type = ty, ev_session = sid, ev_state = st, ev_message = msg\<rparr>]\<rparr>"

definition set_state :: "GuiSessionState \<Rightarrow> StoredSession \<Rightarrow> StoredSession" where
  "set_state g st = st\<lparr>session := (session st)\<lparr>gui_state := g\<rparr>\<rparr>"

definition touch :: "instant \<Rightarrow> StoredSession \<Rightarrow> StoredSession" where
  "touch now st = st\<lparr>session := (session st)\<lparr>updated_at := now\<rparr>\<rparr>"

definition assert_capability_token ::
  "string \<Rightarrow> string \<Rightarrow> GuiInteractionService \<Rightarrow> GuiInteractionError + unit" where
  "assert_capability_token sid presented svc =
     (case get_stored sid svc of
        None \<Rightarrow> Inl (GuiNotFound sid)
      | Some st \<Rightarrow> if capability_token st = trim presented then Inr () else Inl GuiUnauthorized)"

text \<open>\<open>expire_sessions\<close>: the expired sessions leave the map, then their events are published.\<close>

definition expired_ids :: "instant \<Rightarrow> GuiInteractionService \<Rightarrow> string list" where
  "expired_ids now svc =
     map fst (filter (\<lambda>(_, st). expires_at (session st) \<le> now) (sessions svc))"

definition expire_sessions :: "instant \<Rightarrow> GuiInteractionService \<Rightarrow> GuiInteractionService" where
  "expire_sessions now svc =
     foldl (\<lambda>s sid. publish_event sid Expired ''gui_session.expired'' None s)
       (svc\<lparr>sessions := filter (\<lambda>(_, st). \<not> expires_at (session st) \<le> now) (sessions svc)\<rparr>)
       (expired_ids now svc)"

text \<open>The locked section of \<open>create_session\<close>.\<close>

definition insert_session :: "StoredSession \<Rightarrow> GuiInteractionService \<Rightarrow> (GuiInteractionError + unit) \<times> GuiInteractionService" where
  "insert_session st svc =
     (if length (sessions svc) \<ge> MAX_SESSIONS
      then (Inl (GuiBadRequest ''Session limit of 100 reached; close an existing session before creating a new one''), svc)
      else (Inr (), put_stored (session_id (session st)) st svc))"

record GuiCreateSessionRequest =
  min_confidence :: "rat option option"
  max_candidates :: "nat option"
  session_ttl_secs :: "u64 option"

definition clamp_confidence :: "rat option option \<Rightarrow> rat option" where
  "clamp_confidence c =
     (case c of
        None \<Rightarrow> Some (1 / 2)
      | Some None \<Rightarrow> None
      | Some (Some m) \<Rightarrow> Some (min 1 (max 0 m)))"

definition new_session ::
  "instant \<Rightarrow> string \<Rightarrow> FocusSnapshot \<Rightarrow> UiScene \<Rightarrow> GuiCreateSessionRequest \<Rightarrow> GuiInteractionSession" where
  "new_session now sid fc sc req =
     \<lparr>session_id = sid, gui_state = Proposed, scene = sc, focus = fc,
      candidates = build_candidates sc (clamp_confidence (min_confidence req))
        (min 1000 (max 1 (case max_candidates req of Some n \<Rightarrow> n | None \<Rightarrow> DEFAULT_MAX_CANDIDATES))),
      selected_element_id = None, created_at = now, updated_at = now,
      expires_at = now + seconds (clamp_secs (session_ttl_secs req) DEFAULT_SESSION_TTL_SECS 30 3600)\<rparr>"

definition create_session ::
  "instant \<Rightarrow> instant \<Rightarrow> string \<Rightarrow> string \<Rightarrow> GuiInteractionError + FocusSnapshot \<Rightarrow> GuiInteractionError + UiScene
    \<Rightarrow> GuiCreateSessionRequest \<Rightarrow> GuiInteractionService
    \<Rightarrow> (GuiInteractionError + GuiInteractionSession \<times> string) \<times> GuiInteractionService" where
  "create_session now now2 sid cap focus_result scene_result req svc =
     (case require_hmac_secret svc of
        Inl e \<Rightarrow> (Inl e, svc)
      | Inr _ \<Rightarrow>
          (case focus_result of
             Inl e \<Rightarrow> (Inl e, svc)
           | Inr fc \<Rightarrow>
               (case scene_result of
                  Inl e \<Rightarrow> (Inl e, svc)
                | Inr sc \<Rightarrow>
                    (let s = new_session now sid fc sc req
                     in if candidates s = []
                        then (Inl (GuiBadRequest ''No eligible GUI candidates found in scene''), svc)
                        else (case insert_session
                                     \<lparr>session = s, capability_token = cap, overlay_handle_id = None,
                                      confirmed_action = None, used_ticket_nonces = {}\<rparr>
                                     (expire_sessions now2 svc) of
                                (Inl e, svc') \<Rightarrow> (Inl e, svc')
                              | (Inr _, svc') \<Rightarrow>
                                  (Inr (s, cap),
                                   publish_event sid Proposed ''gui_session.proposed'' None svc'))))))"

definition get_session ::
  "instant \<Rightarrow> string \<Rightarrow> string \<Rightarrow> GuiInteractionService
    \<Rightarrow> (GuiInteractionError + GuiInteractionSession) \<times> GuiInteractionService" where
  "get_session now sid cap svc =
     (case assert_capability_token sid cap svc of
        Inl e \<Rightarrow> (Inl e, svc)
      | Inr _ \<Rightarrow>
          (case get_stored sid svc of
             None \<Rightarrow> (Inl (GuiNotFound sid), svc)
           | Some st \<Rightarrow>
               (let st' = (if gui_is_expired (expires_at (session st)) now then set_state Expired st else st)
                in (Inr (session st'), put_stored sid st' svc))))"

section \<open>Highlighting and cancelling\<close>

definition highlight_targets :: "string list option \<Rightarrow> GuiInteractionSession \<Rightarrow> string list" where
  "highlight_targets ids s =
     (let wanted = map_option (\<lambda>xs. filter (\<lambda>x. x \<noteq> []) (map trim xs)) ids
      in map (\<lambda>c. element_id (cand_element c))
           (filter (\<lambda>c. eligible c \<and>
                     (case wanted of None \<Rightarrow> True | Some w \<Rightarrow> element_id (cand_element c) \<in> set w))
              (candidates s)))"

text \<open>First section: the targets, or the session is marked as expired.\<close>

definition highlight_start ::
  "instant \<Rightarrow> string \<Rightarrow> string list option \<Rightarrow> GuiInteractionService
    \<Rightarrow> (GuiInteractionError + string list) \<times> GuiInteractionService" where
  "highlight_start now sid ids svc =
     (case get_stored sid svc of
        None \<Rightarrow> (Inl (GuiNotFound sid), svc)
      | Some st \<Rightarrow>
          if gui_is_expired (expires_at (session st)) now
          then (Inl (GuiTicketInvalid ''Session already expired''), put_stored sid (set_state Expired st) svc)
          else if highlight_targets ids (session st) = []
          then (Inl (GuiBadRequest ''No highlight targets available''), svc)
          else (Inr (highlight_targets ids (session st)), svc))"

text \<open>Second section, after the overlay was drawn.\<close>

definition highlight_commit ::
  "instant \<Rightarrow> string \<Rightarrow> string \<Rightarrow> GuiInteractionService
    \<Rightarrow> (GuiInteractionError + GuiInteractionSession) \<times> GuiInteractionService" where
  "highlight_commit now sid handle svc =
     (case get_stored sid svc of
        None \<Rightarrow> (Inl (GuiNotFound sid), svc)
      | Some st \<Rightarrow>
          (let st' = touch now (set_state Highlighted (st\<lparr>overlay_handle_id := Some handle\<rparr>))
           in (Inr (session st'),
               publish_event sid Highlighted ''gui_session.highlighted'' None (put_stored sid st' svc))))"

definition highlight_session ::
  "instant \<Rightarrow> instant \<Rightarrow> string \<Rightarrow> string \<Rightarrow> string list option \<Rightarrow> GuiInteractionError + string
    \<Rightarrow> GuiInteractionService \<Rightarrow> (GuiInteractionError + GuiInteractionSession) \<times> GuiInteractionService" where
  "highlight_session now now2 sid cap ids shown svc =
     (case assert_capability_token sid cap svc of
        Inl e \<Rightarrow> (Inl e, svc)
      | Inr _ \<Rightarrow>
          (case highlight_start now sid ids svc of
             (Inl e, svc') \<Rightarrow> (Inl e, svc')
           | (Inr _, svc') \<Rightarrow>
               (case shown of
                  Inl e \<Rightarrow> (Inl e, svc')
                | Inr handle \<Rightarrow> highlight_commit now2 sid handle svc')))"

definition cancel_session ::
  "instant \<Rightarrow> string \<Rightarrow> string \<Rightarrow> GuiInteractionService
    \<Rightarrow> (GuiInteractionError + GuiInteractionSession) \<times> GuiInteractionService" where
  "cancel_session now sid cap svc =
     (case assert_capability_token sid cap svc of
        Inl e \<Rightarrow> (Inl e, svc)
      | Inr _ \<Rightarrow>
          (case get_stored sid svc of
             None \<Rightarrow> (Inl (GuiNotFound sid), svc)
           | Some st \<Rightarrow>
               (let st' = touch now (set_state Cancelled (st\<lparr>overlay_handle_id := None\<rparr>))
                in (Inr (session st'),
                    publish_event sid Cancelled ''gui_session.cancelled'' None (put_stored sid st' svc)))))"

section \<open>Confirming\<close>

record GuiConfirmRequest =
  candidate_id :: string
  confirm_action :: GuiActionRequest
  ticket_ttl_secs :: "u64 option"

definition confirm_start ::
  "instant \<Rightarrow> string \<Rightarrow> string \<Rightarrow> GuiInteractionService
    \<Rightarrow> (GuiInteractionError + FocusSnapshot \<times> GuiCandidate \<times> string) \<times> GuiInteractionService" where
  "confirm_start now sid cid svc =
     (case get_stored sid svc of
        None \<Rightarrow> (Inl (GuiNotFound sid), svc)
      | Some st \<Rightarrow>
          if gui_is_expired (expires_at (session st)) now
          then (Inl (GuiTicketInvalid ''Session already expired''), put_stored sid (set_state Expired st) svc)
          else (case List.find (\<lambda>c. element_id (cand_element c) = cid) (candidates (session st)) of
                  None \<Rightarrow> (Inl (GuiBadRequest (''Unknown candidate_id '' @ [CHR 0x27] @ cid @ [CHR 0x27])), svc)
                | Some c \<Rightarrow>
                    if \<not> eligible c
                    then (Inl (GuiBadRequest ''Selected candidate is not eligible''), svc)
                    else (Inr (focus (session st), c, scene_id (scene (session st))), svc)))"

text \<open>Between the sections: the focus, the actions and the signed ticket.\<close>

definition check_focus :: "focus_answer \<Rightarrow> GuiInteractionError + unit" where
  "check_focus answer =
     (case answer of
        Inl e \<Rightarrow> Inl e
      | Inr (valid, reason) \<Rightarrow>
          if valid then Inr ()
          else Inl (GuiFocusDrift (case reason of Some r \<Rightarrow> r | None \<Rightarrow> ''Focused window changed'')))"

definition signed_ticket ::
  "gui_env \<Rightarrow> string \<Rightarrow> instant \<Rightarrow> string \<Rightarrow> string \<Rightarrow> string \<Rightarrow> FocusSnapshot \<Rightarrow> GuiCandidate \<Rightarrow> string
    \<Rightarrow> string \<Rightarrow> u64 option \<Rightarrow> GuiExecutionTicket" where
  "signed_ticket env secret now tid fresh sid fc c sc_id ahash ttl =
     (let t = \<lparr>ticket_id = tid, t_session_id = sid, t_scene_id = sc_id,
               t_element_id = element_id (cand_element c), t_action_hash = ahash,
               t_focus_hash = focus_hash fc, issued_at = now,
               t_expires_at = now + seconds (clamp_secs ttl DEFAULT_TICKET_TTL_SECS 5 300),
               nonce = fresh, signature = []\<rparr>
      in t\<lparr>signature := sign_ticket env secret t\<rparr>)"

definition confirm_build ::
  "gui_env \<Rightarrow> string \<Rightarrow> instant \<Rightarrow> string \<Rightarrow> string \<Rightarrow> string \<Rightarrow> focus_answer \<Rightarrow> GuiConfirmRequest
    \<Rightarrow> FocusSnapshot \<times> GuiCandidate \<times> string \<Rightarrow> GuiInteractionError + ConfirmedAction" where
  "confirm_build env secret now tid fresh sid answer req snap =
     (case snap of (fc, c, sc_id) \<Rightarrow>
        (case check_focus answer of
           Inl e \<Rightarrow> Inl e
         | Inr _ \<Rightarrow>
             (case build_actions_for_candidate c (confirm_action req) of
                Inl e \<Rightarrow> Inl e
              | Inr actions \<Rightarrow>
                  (case hash_actions env actions of
                     Inl e \<Rightarrow> Inl e
                   | Inr h \<Rightarrow>
                       Inr \<lparr>ca_candidate_id = candidate_id req, ca_actions = actions, ca_action_hash = h,
                            ca_ticket = signed_ticket env secret now tid fresh sid fc c sc_id h
                              (ticket_ttl_secs req)\<rparr>))))"

definition confirm_commit ::
  "instant \<Rightarrow> string \<Rightarrow> ConfirmedAction \<Rightarrow> GuiInteractionService
    \<Rightarrow> (GuiInteractionError + GuiExecutionTicket) \<times> GuiInteractionService" where
  "confirm_commit now sid ca svc =
     (case get_stored sid svc of
        None \<Rightarrow> (Inl (GuiNotFound sid), svc)
      | Some st \<Rightarrow>
          (let st1 = set_state Confirmed (st\<lparr>confirmed_action := Some ca\<rparr>);
               st2 = touch now (st1\<lparr>session := (session st1)\<lparr>selected_element_id := Some (ca_candidate_id ca)\<rparr>\<rparr>)
           in (Inr (ca_ticket ca),
               publish_event sid Confirmed ''gui_session.confirmed''
                 (Some (''candidate_id='' @ ca_candidate_id ca)) (put_stored sid st2 svc))))"

definition gui_confirm_candidate ::
  "gui_env \<Rightarrow> instant \<Rightarrow> instant \<Rightarrow> instant \<Rightarrow> string \<Rightarrow> string \<Rightarrow> string \<Rightarrow> string \<Rightarrow> focus_answer
    \<Rightarrow> GuiConfirmRequest \<Rightarrow> GuiInteractionService
    \<Rightarrow> (GuiInteractionError + GuiExecutionTicket) \<times> GuiInteractionService" where
  "gui_confirm_candidate env t1 t2 t3 tid fresh sid cap answer req svc =
     (case require_hmac_secret svc of
        Inl e \<Rightarrow> (Inl e, svc)
      | Inr secret \<Rightarrow>
          (case assert_capability_token sid cap svc of
             Inl e \<Rightarrow> (Inl e, svc)
           | Inr _ \<Rightarrow>
               (case confirm_start t1 sid (candidate_id req) svc of
                  (Inl e, svc') \<Rightarrow> (Inl e, svc')
                | (Inr snap, svc') \<Rightarrow>
                    (case confirm_build env secret t2 tid fresh sid answer req snap of
                       Inl e \<Rightarrow> (Inl e, svc')
                     | Inr ca \<Rightarrow> confirm_commit t3 sid ca svc'))))"

section \<open>Executing\<close>

text \<open>First section of \<open>prepare_execution\<close>: a read of the session.\<close>

definition prepare_start ::
  "string \<Rightarrow> GuiInteractionService
    \<Rightarrow> GuiInteractionError + FocusSnapshot \<times> ConfirmedAction \<times> GuiSessionState \<times> instant" where
  "prepare_start sid svc =
     (case get_stored sid svc of
        None \<Rightarrow> Inl (GuiNotFound sid)
      | Some st \<Rightarrow>
          (case confirmed_action st of
             None \<Rightarrow> Inl (GuiTicketInvalid ''Session has no confirmed action'')
           | Some ca \<Rightarrow> Inr (focus (session st), ca, gui_state (session st), expires_at (session st))))"

definition check_ticket ::
  "gui_env \<Rightarrow> string \<Rightarrow> instant \<Rightarrow> instant \<Rightarrow> string \<Rightarrow> GuiExecutionTicket
    \<Rightarrow> FocusSnapshot \<times> ConfirmedAction \<times> GuiSessionState \<times> instant \<Rightarrow> GuiInteractionError + unit" where
  "check_ticket env secret t1 t2 sid ticket snap =
     (case snap of (fc, ca, st, expires) \<Rightarrow>
        if gui_is_expired expires t1 then Inl (GuiTicketInvalid ''Session already expired'')
        else if st \<noteq> Confirmed then Inl (GuiTicketInvalid (''Session state must be confirmed, current='' @ state_debug st))
        else (case verify_ticket env secret ticket of
                Inl e \<Rightarrow> Inl e
              | Inr _ \<Rightarrow>
                  if t_session_id ticket \<noteq> sid then Inl (GuiTicketInvalid ''ticket.session_id mismatch'')
                  else if ticket_id ticket \<noteq> ticket_id (ca_ticket ca)
                  then Inl (GuiTicketInvalid ''ticket_id mismatch'')
                  else if t_element_id ticket \<noteq> ca_candidate_id ca
                  then Inl (GuiTicketInvalid ''element_id mismatch'')
                  else if t_action_hash ticket \<noteq> ca_action_hash ca
                  then Inl (GuiTicketInvalid ''action_hash mismatch'')
                  else if is_expired_past_grace (t_expires_at ticket) TICKET_EXPIRY_GRACE_SECS t2
                  then Inl (GuiTicketInvalid ''ticket expired'')
                  else Inr ()))"

text \<open>The loop \<open>for attempt in 0..=FOCUS_DRIFT_MAX_RETRIES\<close> over the answers of the probe.\<close>

fun focus_attempts :: "(nat \<Rightarrow> focus_answer) \<Rightarrow> nat list \<Rightarrow> string \<Rightarrow> GuiInteractionError + unit" where
  "focus_attempts probe [] reason = Inl (GuiFocusDrift reason)"
| "focus_attempts probe (a # rest) reason =
     (case probe a of
        Inl e \<Rightarrow> Inl e
      | Inr (True, _) \<Rightarrow> Inr ()
      | Inr (False, r) \<Rightarrow>
          focus_attempts probe rest (case r of Some x \<Rightarrow> x | None \<Rightarrow> ''Focused window changed''))"

definition focus_loop :: "(nat \<Rightarrow> focus_answer) \<Rightarrow> GuiInteractionError + unit" where
  "focus_loop probe = focus_attempts probe [0..<Suc FOCUS_DRIFT_MAX_RETRIES] []"

text \<open>Last section: expiry, state and nonce are checked again, the nonce is burnt.\<close>

definition prepare_commit ::
  "instant \<Rightarrow> string \<Rightarrow> GuiExecutionTicket \<Rightarrow> ConfirmedAction \<Rightarrow> GuiInteractionService
    \<Rightarrow> (GuiInteractionError + GuiExecutionPlan) \<times> GuiInteractionService" where
  "prepare_commit now sid ticket ca svc =
     (case get_stored sid svc of
        None \<Rightarrow> (Inl (GuiNotFound sid), svc)
      | Some st \<Rightarrow>
          if gui_is_expired (expires_at (session st)) now
          then (Inl (GuiTicketInvalid ''session expired''), put_stored sid (set_state Expired st) svc)
          else if gui_state (session st) \<noteq> Confirmed
          then (Inl (GuiTicketInvalid (''session no longer confirmed: '' @ state_debug (gui_state (session st)))), svc)
          else if nonce ticket \<in> used_ticket_nonces st
          then (Inl (GuiTicketInvalid ''ticket nonce replay detected''),
                publish_event sid Confirmed ''gui_session.ticket_rejected'' (Some ''reason=nonce_replay'') svc)
          else if card (used_ticket_nonces st) \<ge> MAX_USED_TICKET_NONCES
          then (Inl (GuiTicketInvalid ''session ticket-nonce limit exceeded''), svc)
          else
            (let st' = touch now (set_state Executing
                         (st\<lparr>used_ticket_nonces := insert (nonce ticket) (used_ticket_nonces st)\<rparr>))
             in (Inr \<lparr>plan_session_id = sid, plan_actions = ca_actions ca, plan_ticket = ticket\<rparr>,
                 publish_event sid Executing ''gui_session.executing''
                   (Some (''ticket_id='' @ ticket_id ticket)) (put_stored sid st' svc))))"

definition prepare_execution ::
  "gui_env \<Rightarrow> instant \<Rightarrow> instant \<Rightarrow> instant \<Rightarrow> string \<Rightarrow> string \<Rightarrow> (nat \<Rightarrow> focus_answer) \<Rightarrow> GuiExecutionTicket
    \<Rightarrow> GuiInteractionService \<Rightarrow> (GuiInteractionError + GuiExecutionPlan) \<times> GuiInteractionService" where
  "prepare_execution env t1 t2 t3 sid cap probe ticket svc =
     (case require_hmac_secret svc of
        Inl e \<Rightarrow> (Inl e, svc)
      | Inr secret \<Rightarrow>
          (case assert_capability_token sid cap svc of
             Inl e \<Rightarrow> (Inl e, svc)
           | Inr _ \<Rightarrow>
               (case prepare_start sid svc of
                  Inl e \<Rightarrow> (Inl e, svc)
                | Inr snap \<Rightarrow>
                    (case check_ticket env secret t1 t2 sid ticket snap of
                       Inl e \<Rightarrow> (Inl e, svc)
                     | Inr _ \<Rightarrow>
                         (case focus_loop probe of
                            Inl e \<Rightarrow> (Inl e, svc)
                          | Inr _ \<Rightarrow> prepare_commit t3 sid ticket (fst (snd snap)) svc)))))"

definition complete_execution ::
  "instant \<Rightarrow> string \<Rightarrow> bool \<Rightarrow> string option \<Rightarrow> GuiInteractionService
    \<Rightarrow> (GuiInteractionError + GuiInteractionSession) \<times> GuiInteractionService" where
  "complete_execution now sid succeeded detail svc =
     (case get_stored sid svc of
        None \<Rightarrow> (Inl (GuiNotFound sid), svc)
      | Some st \<Rightarrow>
          (let st' = touch now (set_state (if succeeded then Executed else Confirmed)
                       (st\<lparr>overlay_handle_id := None\<rparr>))
           in (Inr (session st'),
               publish_event sid (gui_state (session st'))
                 (if succeeded then ''gui_session.executed'' else ''gui_session.execution_failed'')
                 detail (put_stored sid st' svc))))"

end
