(* ===== verification/Gui_Properties.thy ===== *)
theory Gui_Properties
  imports Gui_Session
begin

text \<open>
  GUI sessions under concurrency: every locked section of every handler is a step, in any order and for
  any number of calls in flight. In every reachable state a ticket nonce has bought at most one
  execution, and what was granted for execution is what was confirmed.
\<close>

section \<open>Steps\<close>

text \<open>
  Beside the service the world records the session ids handed out, the confirmations and executions
  between their sections, all confirmations that were built and all plans that were granted.
\<close>

record gui_world =
  svc :: GuiInteractionService
  minted :: "string set"
  confirming :: "(string \<times> ConfirmedAction) list"
  preparing :: "(string \<times> GuiExecutionTicket \<times> ConfirmedAction) list"
  approved :: "(string \<times> ConfirmedAction) list"
  plans :: "GuiExecutionPlan list"

definition gui_init :: "string option \<Rightarrow> gui_world" where
  "gui_init secret =
     \<lparr>svc = gui_service_new secret, minted = {}, confirming = [], preparing = [], approved = [], plans = []\<rparr>"

inductive gui_step :: "gui_env \<Rightarrow> gui_world \<Rightarrow> gui_world \<Rightarrow> bool" for env where
  expire: "gui_step env w (w\<lparr>svc := expire_sessions now (svc w)\<rparr>)"
| create: "sid \<notin> minted w \<Longrightarrow> session_id s = sid \<Longrightarrow>
    insert_session \<lparr>session = s, capability_token = cap, overlay_handle_id = None,
      confirmed_action = None, used_ticket_nonces = {}\<rparr> (svc w) = (Inr (), svc') \<Longrightarrow>
    gui_step env w (w\<lparr>svc := publish_event sid Proposed ''gui_session.proposed'' None svc',
      minted := insert sid (minted w)\<rparr>)"
| get: "gui_step env w (w\<lparr>svc := snd (get_session now sid cap (svc w))\<rparr>)"
| highlight_begin: "gui_step env w (w\<lparr>svc := snd (highlight_start now sid ids (svc w))\<rparr>)"
| highlight_end: "gui_step env w (w\<lparr>svc := snd (highlight_commit now sid handle (svc w))\<rparr>)"
| cancel: "gui_step env w (w\<lparr>svc := snd (cancel_session now sid cap (svc w))\<rparr>)"
| confirm_begin: "require_hmac_secret (svc w) = Inr secret \<Longrightarrow>
    assert_capability_token sid cap (svc w) = Inr () \<Longrightarrow>
    confirm_start t1 sid (candidate_id req) (svc w) = (Inr snap, svc') \<Longrightarrow>
    confirm_build env secret t2 tid fresh sid answer req snap = Inr ca \<Longrightarrow>
    gui_step env w (w\<lparr>svc := svc', confirming := (sid, ca) # confirming w,
      approved := (sid, ca) # approved w\<rparr>)"
| confirm_refused: "gui_step env w (w\<lparr>svc := snd (confirm_start t1 sid cid (svc w))\<rparr>)"
| confirm_end: "(sid, ca) \<in> set (confirming w) \<Longrightarrow>
    gui_step env w (w\<lparr>svc := snd (confirm_commit now sid ca (svc w)),
      confirming := remove1 (sid, ca) (confirming w)\<rparr>)"
| prepare_begin: "require_hmac_secret (svc w) = Inr secret \<Longrightarrow>
    assert_capability_token sid cap (svc w) = Inr () \<Longrightarrow>
    prepare_start sid (svc w) = Inr snap \<Longrightarrow>
    check_ticket env secret t1 t2 sid ticket snap = Inr () \<Longrightarrow>
    focus_loop probe = Inr () \<Longrightarrow>
    gui_step env w (w\<lparr>preparing := (sid, ticket, fst (snd snap)) # preparing w\<rparr>)"
| prepare_end: "(sid, ticket, ca) \<in> set (preparing w) \<Longrightarrow>
    prepare_commit now sid ticket ca (svc w) = (Inr plan, svc') \<Longrightarrow>
    gui_step env w (w\<lparr>svc := svc', preparing := remove1 (sid, ticket, ca) (preparing w),
      plans := plans w @ [plan]\<rparr>)"
| prepare_refused: "(sid, ticket, ca) \<in> set (preparing w) \<Longrightarrow>
    prepare_commit now sid ticket ca (svc w) = (Inl e, svc') \<Longrightarrow>
    gui_step env w (w\<lparr>svc := svc', preparing := remove1 (sid, ticket, ca) (preparing w)\<rparr>)"
| complete: "gui_step env w (w\<lparr>svc := snd (complete_execution now sid ok detail (svc w))\<rparr>)"

section \<open>What the sections do to the sessions\<close>

text \<open>A change of a stored session that leaves its confirmation and its used nonces alone.\<close>

definition benign :: "GuiInteractionService \<Rightarrow> GuiInteractionService \<Rightarrow> bool" where
  "benign s s' \<longleftrightarrow> hmac_secret s' = hmac_secret s \<and>
     (sessions s' = sessions s \<or>
      (\<exists>sid st st'. get_stored sid s = Some st \<and> sessions s' = AList.update sid st' (sessions s) \<and>
         confirmed_action st' = confirmed_action st \<and>
         used_ticket_nonces st' = used_ticket_nonces st))"

lemma publish_event_simps [simp]:
  "sessions (publish_event sid g ty msg s) = sessions s"
  "hmac_secret (publish_event sid g ty msg s) = hmac_secret s"
  by (simp_all add: publish_event_def)

lemma put_stored_simps [simp]:
  "sessions (put_stored sid st s) = AList.update sid st (sessions s)"
  "hmac_secret (put_stored sid st s) = hmac_secret s"
  by (simp_all add: put_stored_def)

lemma session_update_simps [simp]:
  "confirmed_action (set_state g st) = confirmed_action st"
  "used_ticket_nonces (set_state g st) = used_ticket_nonces st"
  "confirmed_action (touch now st) = confirmed_action st"
  "used_ticket_nonces (touch now st) = used_ticket_nonces st"
  "gui_state (session (set_state g st)) = g"
  "gui_state (session (touch now st)) = gui_state (session st)"
  "expires_at (session (set_state g st)) = expires_at (session st)"
  "expires_at (session (touch now st)) = expires_at (session st)"
  "focus (session (set_state g st)) = focus (session st)"
  "focus (session (touch now st)) = focus (session st)"
  "capability_token (set_state g st) = capability_token st"
  "capability_token (touch now st) = capability_token st"
  by (simp_all add: set_state_def touch_def)

lemma get_stored_publish [simp]: "get_stored k (publish_event sid g ty msg s) = get_stored k s"
  by (simp add: get_stored_def)

lemma get_stored_put [simp]:
  "get_stored k (put_stored sid st s) = (if k = sid then Some st else get_stored k s)"
  by (simp add: get_stored_def update_conv')

lemmas section_defs = get_session_def highlight_start_def highlight_commit_def cancel_session_def
  confirm_start_def complete_execution_def

lemma benign_refl [simp]: "benign s s"
  by (simp add: benign_def)

lemma benign_publish: "benign s (publish_event sid g ty msg s)"
  by (simp add: benign_def)

lemma benign_put:
  assumes "get_stored sid s = Some st" and "confirmed_action st' = confirmed_action st"
    and "used_ticket_nonces st' = used_ticket_nonces st"
  shows "benign s (put_stored sid st' s)" and "benign s (publish_event x g ty msg (put_stored sid st' s))"
  using assms by (auto simp: benign_def)

lemma sections_benign:
  "benign s (snd (get_session now sid cap s))"
  "benign s (snd (highlight_start now sid ids s))"
  "benign s (snd (highlight_commit now sid handle s))"
  "benign s (snd (cancel_session now sid cap s))"
  "benign s (snd (confirm_start now sid cid s))"
  "benign s (snd (complete_execution now sid ok detail s))"
  by (auto simp: section_defs Let_def benign_put split: option.splits sum.splits)

lemma prepare_refused_benign:
  assumes "prepare_commit now sid ticket ca s = (Inl e, s')"
  shows "benign s s'"
  using assms
  by (auto simp: prepare_commit_def Let_def benign_put benign_publish split: option.splits if_splits)

lemma prepare_granted:
  assumes "prepare_commit now sid ticket ca s = (Inr plan, s')"
  obtains st st' where "get_stored sid s = Some st" and "nonce ticket \<notin> used_ticket_nonces st"
    and "card (used_ticket_nonces st) < MAX_USED_TICKET_NONCES"
    and "sessions s' = AList.update sid st' (sessions s)"
    and "confirmed_action st' = confirmed_action st"
    and "used_ticket_nonces st' = insert (nonce ticket) (used_ticket_nonces st)"
    and "plan = \<lparr>plan_session_id = sid, plan_actions = ca_actions ca, plan_ticket = ticket\<rparr>"
    and "hmac_secret s' = hmac_secret s" and "gui_state (session st) = Confirmed"
    and "\<not> gui_is_expired (expires_at (session st)) now"
  using assms by (auto simp: prepare_commit_def Let_def split: option.splits if_splits)

lemma confirm_committed:
  obtains (gone) "snd (confirm_commit now sid ca s) = s"
  | (stored) st st' where "get_stored sid s = Some st"
    and "sessions (snd (confirm_commit now sid ca s)) = AList.update sid st' (sessions s)"
    and "confirmed_action st' = Some ca" and "used_ticket_nonces st' = used_ticket_nonces st"
    and "hmac_secret (snd (confirm_commit now sid ca s)) = hmac_secret s"
  by (cases "get_stored sid s") (auto simp: confirm_commit_def Let_def)

lemma expire_sessions_sessions:
  "sessions (expire_sessions now s) = filter (\<lambda>(_, st). \<not> expires_at (session st) \<le> now) (sessions s)"
  "hmac_secret (expire_sessions now s) = hmac_secret s"
proof -
  have "sessions (foldl (\<lambda>s sid. publish_event sid g ty msg s) s0 xs) = sessions s0 \<and>
      hmac_secret (foldl (\<lambda>s sid. publish_event sid g ty msg s) s0 xs) = hmac_secret s0" for g ty msg s0 xs
    by (induction xs arbitrary: s0) simp_all
  then show "sessions (expire_sessions now s) = filter (\<lambda>(_, st). \<not> expires_at (session st) \<le> now) (sessions s)"
    "hmac_secret (expire_sessions now s) = hmac_secret s"
    by (simp_all add: expire_sessions_def)
qed

section \<open>The invariant\<close>

definition ticket_fits :: "gui_env \<Rightarrow> string option \<Rightarrow> string \<Rightarrow> GuiExecutionTicket \<Rightarrow> ConfirmedAction \<Rightarrow> bool" where
  "ticket_fits env sec sid t ca \<longleftrightarrow>
     (\<exists>secret. sec = Some secret \<and> verify_ticket env secret t = Inr ()) \<and>
     t_session_id t = sid \<and> ticket_id t = ticket_id (ca_ticket ca) \<and>
     t_element_id t = ca_candidate_id ca \<and> t_action_hash t = ca_action_hash ca"

definition approval_ok :: "gui_env \<Rightarrow> string \<times> ConfirmedAction \<Rightarrow> bool" where
  "approval_ok env = (\<lambda>(sid, ca).
     actions_digest env (ca_actions ca) = Some (ca_action_hash ca) \<and>
     t_session_id (ca_ticket ca) = sid \<and> t_action_hash (ca_ticket ca) = ca_action_hash ca \<and>
     t_element_id (ca_ticket ca) = ca_candidate_id ca)"

definition session_ok ::
  "string set \<Rightarrow> (string \<times> ConfirmedAction) set \<Rightarrow> GuiExecutionPlan list \<Rightarrow> string \<Rightarrow> StoredSession \<Rightarrow> bool" where
  "session_ok M A P sid st \<longleftrightarrow>
     sid \<in> M \<and> (\<forall>ca. confirmed_action st = Some ca \<longrightarrow> (sid, ca) \<in> A) \<and>
     finite (used_ticket_nonces st) \<and> card (used_ticket_nonces st) \<le> MAX_USED_TICKET_NONCES \<and>
     (\<forall>p \<in> set P. plan_session_id p = sid \<longrightarrow> nonce (plan_ticket p) \<in> used_ticket_nonces st)"

definition service_ok ::
  "string option \<Rightarrow> string set \<Rightarrow> (string \<times> ConfirmedAction) set \<Rightarrow> GuiExecutionPlan list
    \<Rightarrow> GuiInteractionService \<Rightarrow> bool" where
  "service_ok sec M A P s \<longleftrightarrow>
     hmac_secret s = sec \<and> distinct (map fst (sessions s)) \<and> length (sessions s) \<le> MAX_SESSIONS \<and>
     (\<forall>sid st. get_stored sid s = Some st \<longrightarrow> session_ok M A P sid st)"

definition plan_key :: "GuiExecutionPlan \<Rightarrow> string \<times> string" where
  "plan_key p = (plan_session_id p, nonce (plan_ticket p))"

definition plan_ok ::
  "gui_env \<Rightarrow> string option \<Rightarrow> string set \<Rightarrow> (string \<times> ConfirmedAction) set \<Rightarrow> GuiExecutionPlan \<Rightarrow> bool" where
  "plan_ok env sec M A p \<longleftrightarrow>
     plan_session_id p \<in> M \<and>
     (\<exists>ca. (plan_session_id p, ca) \<in> A \<and> plan_actions p = ca_actions ca \<and>
        ticket_fits env sec (plan_session_id p) (plan_ticket p) ca)"

definition gui_inv :: "gui_env \<Rightarrow> string option \<Rightarrow> gui_world \<Rightarrow> bool" where
  "gui_inv env sec w \<longleftrightarrow>
     service_ok sec (minted w) (set (approved w)) (plans w) (svc w) \<and>
     set (confirming w) \<subseteq> set (approved w) \<and>
     (\<forall>x \<in> set (approved w). approval_ok env x) \<and>
     (\<forall>(sid, t, ca) \<in> set (preparing w). (sid, ca) \<in> set (approved w) \<and> ticket_fits env sec sid t ca) \<and>
     (\<forall>p \<in> set (plans w). plan_ok env sec (minted w) (set (approved w)) p) \<and>
     distinct (map plan_key (plans w))"

lemma length_update_known:
  "map_of xs k = Some v \<Longrightarrow> length (AList.update k v' xs) = length xs"
  by (induction xs) (auto split: if_splits)

lemma length_update_le: "length (AList.update k v xs) \<le> Suc (length xs)"
  by (induction xs) auto

text \<open>Replacing a stored session by one that is in order.\<close>

lemma service_ok_update:
  assumes "service_ok sec M A P s" and "get_stored sid s = Some st"
    and "sessions s' = AList.update sid st' (sessions s)" and "hmac_secret s' = hmac_secret s"
    and "session_ok M A P' sid st'"
    and "\<And>k x. k \<noteq> sid \<Longrightarrow> session_ok M A P k x \<Longrightarrow> session_ok M A P' k x"
  shows "service_ok sec M A P' s'"
proof -
  have "get_stored k s' = (if k = sid then Some st' else get_stored k s)" for k
    using assms(3) by (simp add: get_stored_def update_conv')
  then show ?thesis
    using assms by (auto simp: service_ok_def get_stored_def distinct_update length_update_known)
qed

lemma service_ok_benign:
  assumes "service_ok sec M A P s" and "benign s s'"
  shows "service_ok sec M A P s'"
proof (cases "sessions s' = sessions s")
  case True
  then show ?thesis using assms by (simp add: service_ok_def benign_def get_stored_def)
next
  case False
  then obtain sid st st' where st: "get_stored sid s = Some st" "confirmed_action st' = confirmed_action st"
    "used_ticket_nonces st' = used_ticket_nonces st" "sessions s' = AList.update sid st' (sessions s)"
    "hmac_secret s' = hmac_secret s"
    using assms(2) by (auto simp: benign_def)
  moreover have "session_ok M A P sid st'"
    using assms(1) st by (auto simp: service_ok_def session_ok_def)
  ultimately show ?thesis using service_ok_update assms(1) by blast
qed

lemma service_ok_expire:
  assumes "service_ok sec M A P s"
  shows "service_ok sec M A P (expire_sessions now s)"
proof -
  let ?f = "filter (\<lambda>(_, st). \<not> expires_at (session st) \<le> now) (sessions s)"
  have "map_of ?f k = Some st \<Longrightarrow> map_of (sessions s) k = Some st" for k st
    using assms by (auto simp: service_ok_def dest!: map_of_SomeD intro: map_of_is_SomeI)
  moreover have "distinct (map fst ?f)" "length ?f \<le> MAX_SESSIONS"
    using assms length_filter_le [of "\<lambda>(_, st). \<not> expires_at (session st) \<le> now" "sessions s"]
    by (simp_all add: service_ok_def del: length_filter_le)
  ultimately show ?thesis
    using assms by (simp add: service_ok_def get_stored_def expire_sessions_sessions)
qed

lemma service_ok_create:
  assumes "service_ok sec M A P s" and "sid \<notin> M" and "session_id d = sid"
    and "insert_session \<lparr>session = d, capability_token = cap, overlay_handle_id = None,
      confirmed_action = None, used_ticket_nonces = {}\<rparr> s = (Inr (), s')"
    and "\<forall>p \<in> set P. plan_session_id p \<in> M"
  shows "service_ok sec (insert sid M) A P s'"
proof -
  have s': "sessions s' = AList.update sid \<lparr>session = d, capability_token = cap, overlay_handle_id = None,
      confirmed_action = None, used_ticket_nonces = {}\<rparr> (sessions s)"
    and room: "length (sessions s) < MAX_SESSIONS" and sec: "hmac_secret s' = hmac_secret s"
    using assms(3,4) by (auto simp: insert_session_def split: if_splits)
  have "length (sessions s') \<le> MAX_SESSIONS"
    using room length_update_le [of sid _ "sessions s"] unfolding s' by (meson Suc_leI order_trans)
  moreover have "distinct (map fst (sessions s'))"
    using assms(1) unfolding s' by (simp add: service_ok_def distinct_update)
  moreover have "session_ok (insert sid M) A P k st" if "get_stored k s' = Some st" for k st
    using that assms(1,2,5) by (auto simp: get_stored_def s' update_conv' service_ok_def session_ok_def split: if_splits)
  ultimately show ?thesis using assms(1) sec by (simp add: service_ok_def)
qed

lemma service_ok_mono:
  assumes "service_ok sec M A P s" and "A \<subseteq> A'"
  shows "service_ok sec M A' P s"
  using assms by (auto simp: service_ok_def session_ok_def)

lemma confirm_build_ok:
  assumes "confirm_start t1 sid (candidate_id req) s = (Inr snap, s')"
    and "confirm_build env secret t2 tid fresh sid answer req snap = Inr ca"
  shows "approval_ok env (sid, ca)"
proof -
  obtain fc c sc where snap: "snap = (fc, c, sc)" by (cases snap)
  have "element_id (cand_element c) = candidate_id req"
    using assms(1) snap
    by (auto simp: confirm_start_def dest: find_SomeD split: option.splits if_splits)
  then show ?thesis
    using assms(2) snap
    by (auto simp: confirm_build_def approval_ok_def hash_actions_def signed_ticket_def Let_def
        split: sum.splits option.splits)
qed

lemma check_ticket_ok:
  assumes "check_ticket env secret t1 t2 sid ticket snap = Inr ()"
  shows "ticket_fits env (Some secret) sid ticket (fst (snd snap))"
  using assms
  by (cases snap) (auto simp: check_ticket_def ticket_fits_def split: sum.splits if_splits)

text \<open>A granted plan: the nonce is fresh for the session, and is used afterwards.\<close>

lemma service_ok_grant:
  assumes ok: "service_ok sec M A P s" and grant: "prepare_commit now sid ticket ca s = (Inr plan, s')"
  shows "service_ok sec M A (P @ [plan]) s'" and "plan_key plan \<notin> plan_key ` set P"
    and "plan = \<lparr>plan_session_id = sid, plan_actions = ca_actions ca, plan_ticket = ticket\<rparr>"
    and "sid \<in> M"
proof -
  obtain st st' where st: "get_stored sid s = Some st" "nonce ticket \<notin> used_ticket_nonces st"
    "card (used_ticket_nonces st) < MAX_USED_TICKET_NONCES"
    "sessions s' = AList.update sid st' (sessions s)" "confirmed_action st' = confirmed_action st"
    "used_ticket_nonces st' = insert (nonce ticket) (used_ticket_nonces st)"
    "plan = \<lparr>plan_session_id = sid, plan_actions = ca_actions ca, plan_ticket = ticket\<rparr>"
    "hmac_secret s' = hmac_secret s"
    using prepare_granted [OF grant] by metis
  have before: "session_ok M A P sid st" using ok st(1) by (simp add: service_ok_def)
  then have "session_ok M A (P @ [plan]) sid st'"
    using st by (auto simp: session_ok_def)
  then show "service_ok sec M A (P @ [plan]) s'"
    using service_ok_update [OF ok st(1,4,8)] st(7) by (fastforce simp: session_ok_def)
  show "plan_key plan \<notin> plan_key ` set P"
    using before st(2,7) by (auto simp: plan_key_def session_ok_def)
  show "plan = \<lparr>plan_session_id = sid, plan_actions = ca_actions ca, plan_ticket = ticket\<rparr>" by (rule st(7))
  show "sid \<in> M" using before by (simp add: session_ok_def)
qed

lemma gui_inv_init: "gui_inv env (load_signing_secret secret) (gui_init secret)"
  by (simp add: gui_inv_def gui_init_def service_ok_def gui_service_new_def get_stored_def)

lemma gui_inv_benign:
  assumes "gui_inv env sec w" and "benign (svc w) s'"
  shows "gui_inv env sec (w\<lparr>svc := s'\<rparr>)"
  using assms service_ok_benign by (auto simp: gui_inv_def)

lemma gui_step_inv:
  assumes "gui_step env w w'" and inv: "gui_inv env sec w"
  shows "gui_inv env sec w'"
  using assms(1)
proof cases
  case (expire now)
  then show ?thesis using inv service_ok_expire by (auto simp: gui_inv_def)
next
  case (create sid s cap s')
  have "\<forall>p \<in> set (plans w). plan_session_id p \<in> minted w" using inv by (auto simp: gui_inv_def plan_ok_def)
  then have "service_ok sec (insert sid (minted w)) (set (approved w)) (plans w) s'"
    using service_ok_create [OF _ create(2-4)] inv by (simp add: gui_inv_def)
  then show ?thesis
    using create(1) inv service_ok_benign [OF _ benign_publish] by (auto simp: gui_inv_def plan_ok_def)
next
  case (confirm_begin secret sid cap t1 req snap s' t2 tid fresh answer ca)
  have "benign (svc w) s'" using sections_benign(5) [of "svc w" t1 sid "candidate_id req"] confirm_begin(4) by simp
  then have "service_ok sec (minted w) (set (approved w)) (plans w) s'"
    using inv service_ok_benign by (auto simp: gui_inv_def)
  then have "service_ok sec (minted w) (insert (sid, ca) (set (approved w))) (plans w) s'"
    by (rule service_ok_mono) blast
  then show ?thesis
    using confirm_begin(1) inv confirm_build_ok [OF confirm_begin(4,5)]
    by (auto simp: gui_inv_def plan_ok_def)
next
  case (confirm_end sid ca now)
  have approval: "(sid, ca) \<in> set (approved w)" using inv confirm_end(2) by (auto simp: gui_inv_def)
  have ok: "service_ok sec (minted w) (set (approved w)) (plans w) (svc w)" using inv by (simp add: gui_inv_def)
  have "service_ok sec (minted w) (set (approved w)) (plans w) (snd (confirm_commit now sid ca (svc w)))"
  proof (cases rule: confirm_committed [of now sid ca "svc w"])
    case gone
    then show ?thesis using ok by simp
  next
    case (stored st st')
    then have "session_ok (minted w) (set (approved w)) (plans w) sid st'"
      using ok approval by (auto simp: service_ok_def session_ok_def)
    then show ?thesis using service_ok_update [OF ok stored(1,2,5)] by blast
  qed
  then show ?thesis
    using confirm_end(1) inv set_remove1_subset [of "(sid, ca)" "confirming w"] by (auto simp: gui_inv_def)
next
  case (prepare_begin secret sid cap snap t1 t2 ticket probe)
  have "sec = Some secret"
    using prepare_begin(2) inv by (auto simp: require_hmac_secret_def gui_inv_def service_ok_def split: option.splits)
  then have "ticket_fits env sec sid ticket (fst (snd snap))" using check_ticket_ok [OF prepare_begin(5)] by simp
  moreover have "(sid, fst (snd snap)) \<in> set (approved w)"
    using prepare_begin(4) inv
    by (auto simp: prepare_start_def gui_inv_def service_ok_def session_ok_def split: option.splits)
  ultimately show ?thesis using prepare_begin(1) inv by (auto simp: gui_inv_def)
next
  case (prepare_end sid ticket ca now plan s')
  have pending: "(sid, ca) \<in> set (approved w)" "ticket_fits env sec sid ticket ca"
    using inv prepare_end(2) by (auto simp: gui_inv_def)
  have ok: "service_ok sec (minted w) (set (approved w)) (plans w) (svc w)" using inv by (simp add: gui_inv_def)
  note grant = service_ok_grant [OF ok prepare_end(3)]
  have "plan_ok env sec (minted w) (set (approved w)) plan"
    using pending grant(3,4) by (auto simp: plan_ok_def)
  then show ?thesis
    using prepare_end(1) inv grant(1,2) set_remove1_subset [of "(sid, ticket, ca)" "preparing w"]
    by (auto simp: gui_inv_def)
next
  case (prepare_refused sid ticket ca now e s')
  then show ?thesis
    using gui_inv_benign [OF inv prepare_refused_benign [OF prepare_refused(3)]]
      set_remove1_subset [of "(sid, ticket, ca)" "preparing w"]
    by (auto simp: gui_inv_def)
qed (use inv gui_inv_benign sections_benign in auto)

text \<open>The states reachable from an empty service.\<close>

definition gui_reachable :: "gui_env \<Rightarrow> string option \<Rightarrow> gui_world \<Rightarrow> bool" where
  "gui_reachable env secret w \<longleftrightarrow> (gui_step env)\<^sup>*\<^sup>* (gui_init secret) w"

lemma gui_reachable_inv:
  assumes "gui_reachable env secret w"
  shows "gui_inv env (load_signing_secret secret) w"
  using assms unfolding gui_reachable_def
  by (induction rule: rtranclp_induct) (auto intro: gui_inv_init gui_step_inv)

section \<open>The handlers are runs of their sections\<close>

lemma gui_confirm_candidate_cases:
  assumes "gui_confirm_candidate env t1 t2 t3 tid fresh sid cap answer req s = (Inr ticket, s1)"
  obtains secret snap s' ca where "require_hmac_secret s = Inr secret"
    and "assert_capability_token sid cap s = Inr ()"
    and "confirm_start t1 sid (candidate_id req) s = (Inr snap, s')"
    and "confirm_build env secret t2 tid fresh sid answer req snap = Inr ca"
    and "confirm_commit t3 sid ca s' = (Inr ticket, s1)"
  using assms by (auto simp: gui_confirm_candidate_def split: sum.splits prod.splits)

lemma prepare_execution_cases:
  assumes "prepare_execution env t1 t2 t3 sid cap probe ticket s = (Inr plan, s1)"
  obtains secret snap where "require_hmac_secret s = Inr secret"
    and "assert_capability_token sid cap s = Inr ()"
    and "prepare_start sid s = Inr snap"
    and "check_ticket env secret t1 t2 sid ticket snap = Inr ()"
    and "focus_loop probe = Inr ()"
    and "prepare_commit t3 sid ticket (fst (snd snap)) s = (Inr plan, s1)"
  using assms by (auto simp: prepare_execution_def split: sum.splits)

lemma gui_reachable_step: "gui_reachable env secret w \<Longrightarrow> gui_step env w w' \<Longrightarrow> gui_reachable env secret w'"
  unfolding gui_reachable_def by (rule rtranclp.rtrancl_into_rtrancl)

lemma gui_confirm_candidate_run:
  assumes "gui_reachable env secret w"
    and "gui_confirm_candidate env t1 t2 t3 tid fresh sid cap answer req (svc w) = (Inr ticket, s1)"
  shows "\<exists>w'. gui_reachable env secret w' \<and> svc w' = s1 \<and> plans w' = plans w"
proof -
  obtain key snap s' ca where *: "require_hmac_secret (svc w) = Inr key"
    "assert_capability_token sid cap (svc w) = Inr ()"
    "confirm_start t1 sid (candidate_id req) (svc w) = (Inr snap, s')"
    "confirm_build env key t2 tid fresh sid answer req snap = Inr ca"
    "confirm_commit t3 sid ca s' = (Inr ticket, s1)"
    using gui_confirm_candidate_cases [OF assms(2)] by metis
  let ?w = "w\<lparr>svc := s', confirming := (sid, ca) # confirming w, approved := (sid, ca) # approved w\<rparr>"
  have "gui_reachable env secret ?w"
    by (rule gui_reachable_step [OF assms(1) confirm_begin [OF *(1-4)]])
  then have "gui_reachable env secret (?w\<lparr>svc := snd (confirm_commit t3 sid ca (svc ?w)),
      confirming := remove1 (sid, ca) (confirming ?w)\<rparr>)"
    by (rule gui_reachable_step) (rule confirm_end, simp)
  then show ?thesis using *(5) by (intro exI, intro conjI) (assumption, simp_all)
qed

lemma prepare_execution_run:
  assumes "gui_reachable env secret w"
    and "prepare_execution env t1 t2 t3 sid cap probe ticket (svc w) = (Inr plan, s1)"
  shows "\<exists>w'. gui_reachable env secret w' \<and> svc w' = s1 \<and> plans w' = plans w @ [plan]"
proof -
  obtain key snap where *: "require_hmac_secret (svc w) = Inr key"
    "assert_capability_token sid cap (svc w) = Inr ()" "prepare_start sid (svc w) = Inr snap"
    "check_ticket env key t1 t2 sid ticket snap = Inr ()" "focus_loop probe = Inr ()"
    "prepare_commit t3 sid ticket (fst (snd snap)) (svc w) = (Inr plan, s1)"
    using prepare_execution_cases [OF assms(2)] by metis
  let ?w = "w\<lparr>preparing := (sid, ticket, fst (snd snap)) # preparing w\<rparr>"
  have "gui_reachable env secret ?w"
    by (rule gui_reachable_step [OF assms(1) prepare_begin [OF *(1-5)]])
  then have "gui_reachable env secret (?w\<lparr>svc := s1,
      preparing := remove1 (sid, ticket, fst (snd snap)) (preparing ?w), plans := plans ?w @ [plan]\<rparr>)"
    by (rule gui_reachable_step) (rule prepare_end [where now = t3 and ca = "fst (snd snap)"], use *(6) in simp_all)
  then show ?thesis by (intro exI, intro conjI) (assumption, simp_all)
qed

section \<open>A confirmed ticket can be used\<close>

text \<open>The ticket built for a confirmation passes the checks against it.\<close>

lemma own_ticket:
  assumes "confirm_start t1 sid (candidate_id req) s = (Inr snap, s')"
    and "confirm_build env secret t2 tid fresh sid answer req snap = Inr ca"
  shows "verify_ticket env secret (ca_ticket ca) = Inr ()" and "nonce (ca_ticket ca) = fresh"
    and "t_session_id (ca_ticket ca) = sid" and "t_element_id (ca_ticket ca) = ca_candidate_id ca"
    and "t_action_hash (ca_ticket ca) = ca_action_hash ca"
    and "build_actions_for_candidate (fst (snd snap)) (confirm_action req) = Inr (ca_actions ca)"
proof -
  show "verify_ticket env secret (ca_ticket ca) = Inr ()" "nonce (ca_ticket ca) = fresh"
    "build_actions_for_candidate (fst (snd snap)) (confirm_action req) = Inr (ca_actions ca)"
    using assms(2)
    by (cases snap; auto simp: confirm_build_def signed_ticket_def sign_ticket_def verify_ticket_def
        ticket_signature_payload_def hex_decode_encode Let_def split: sum.splits)+
  show "t_session_id (ca_ticket ca) = sid" "t_element_id (ca_ticket ca) = ca_candidate_id ca"
    "t_action_hash (ca_ticket ca) = ca_action_hash ca"
    using confirm_build_ok [OF assms] by (simp_all add: approval_ok_def)
qed

lemma confirm_start_known:
  assumes "confirm_start t1 sid cid s = (Inr snap, s')" and "get_stored sid s = Some st"
  shows "s' = s" and "snd (snd snap) = scene_id (scene (session st))" and "fst snap = focus (session st)"
    and "fst (snd snap) \<in> set (candidates (session st))" and "eligible (fst (snd snap))"
    and "element_id (cand_element (fst (snd snap))) = cid"
  using assms by (auto simp: confirm_start_def dest: find_SomeD split: option.splits if_splits)

lemma usable_ticket:
  assumes "gui_confirm_candidate env t1 t2 t3 tid fresh sid cap answer req s = (Inr ticket, s1)"
    and "get_stored sid s = Some st"
    and "t4 < expires_at (session st)" and "t6 < expires_at (session st)"
    and "t5 < t_expires_at ticket + seconds TICKET_EXPIRY_GRACE_SECS"
    and "focus_loop probe = Inr ()"
    and "fresh \<notin> used_ticket_nonces st" and "card (used_ticket_nonces st) < MAX_USED_TICKET_NONCES"
  shows "\<exists>c actions s2 st2.
    c \<in> set (candidates (session st)) \<and> eligible c \<and> element_id (cand_element c) = candidate_id req \<and>
    build_actions_for_candidate c (confirm_action req) = Inr actions \<and>
    prepare_execution env t4 t5 t6 sid cap probe ticket s1 =
      (Inr \<lparr>plan_session_id = sid, plan_actions = actions, plan_ticket = ticket\<rparr>, s2) \<and>
    get_stored sid s2 = Some st2 \<and> gui_state (session st2) = Executing \<and>
    used_ticket_nonces st2 = insert fresh (used_ticket_nonces st)"
proof -
  obtain secret snap s' ca where *: "require_hmac_secret s = Inr secret"
    "assert_capability_token sid cap s = Inr ()"
    "confirm_start t1 sid (candidate_id req) s = (Inr snap, s')"
    "confirm_build env secret t2 tid fresh sid answer req snap = Inr ca"
    "confirm_commit t3 sid ca s' = (Inr ticket, s1)"
    using gui_confirm_candidate_cases [OF assms(1)] by metis
  note known = confirm_start_known [OF *(3) assms(2)] and own = own_ticket [OF *(3,4)]
  have ticket: "ticket = ca_ticket ca"
    using *(5) by (auto simp: confirm_commit_def Let_def split: option.splits)
  obtain st1 where st1: "get_stored sid s1 = Some st1" "confirmed_action st1 = Some ca"
    "gui_state (session st1) = Confirmed" "expires_at (session st1) = expires_at (session st)"
    "used_ticket_nonces st1 = used_ticket_nonces st" "capability_token st1 = capability_token st"
    "hmac_secret s1 = hmac_secret s"
    using *(5) known(1) assms(2) by (auto simp: confirm_commit_def Let_def)
  have start: "prepare_start sid s1 = Inr (focus (session st1), ca, Confirmed, expires_at (session st))"
    using st1 by (simp add: prepare_start_def)
  have check: "check_ticket env secret t4 t5 sid ticket
      (focus (session st1), ca, Confirmed, expires_at (session st)) = Inr ()"
    using own assms(3,5) by (simp add: check_ticket_def ticket gui_is_expired_def is_expired_past_grace_def)
  let ?plan = "\<lparr>plan_session_id = sid, plan_actions = ca_actions ca, plan_ticket = ticket\<rparr>"
  obtain s2 st2 where s2: "prepare_commit t6 sid ticket ca s1 = (Inr ?plan, s2)"
    "get_stored sid s2 = Some st2" "gui_state (session st2) = Executing"
    "used_ticket_nonces st2 = insert fresh (used_ticket_nonces st)"
    using st1 assms(4,7,8) own(2) ticket by (simp add: prepare_commit_def gui_is_expired_def Let_def)
  have "require_hmac_secret s1 = Inr secret" "assert_capability_token sid cap s1 = Inr ()"
    using *(1,2) st1 assms(2) by (simp_all add: require_hmac_secret_def assert_capability_token_def split: if_splits)
  then have "prepare_execution env t4 t5 t6 sid cap probe ticket s1 = (Inr ?plan, s2)"
    using start check assms(6) s2(1) by (simp add: prepare_execution_def)
  then show ?thesis using known(4-6) own(6) s2(2-4) by blast
qed

text \<open> A confirmation can be executed. When a candidate was confirmed for a session, the returned
  ticket, used before it and the session expire and with the window still in focus, yields a plan with
  exactly the actions of that candidate for that request, and the session is executing. \<close>

theorem confirmed_ticket_executes:
  assumes "gui_confirm_candidate env t1 t2 t3 tid fresh sid cap answer req s = (Inr ticket, s1)"
    and "get_stored sid s = Some st"
    and "t4 < expires_at (session st)" and "t6 < expires_at (session st)"
    and "t5 < t_expires_at ticket + seconds TICKET_EXPIRY_GRACE_SECS"
    and "focus_loop probe = Inr ()"
    and "fresh \<notin> used_ticket_nonces st" and "card (used_ticket_nonces st) < MAX_USED_TICKET_NONCES"
  shows "\<exists>c actions s2 st2.
    c \<in> set (candidates (session st)) \<and> eligible c \<and> element_id (cand_element c) = candidate_id req \<and>
    build_actions_for_candidate c (confirm_action req) = Inr actions \<and>
    prepare_execution env t4 t5 t6 sid cap probe ticket s1 =
      (Inr \<lparr>plan_session_id = sid, plan_actions = actions, plan_ticket = ticket\<rparr>, s2) \<and>
    get_stored sid s2 = Some st2 \<and> gui_state (session st2) = Executing \<and>
    used_ticket_nonces st2 = insert fresh (used_ticket_nonces st)"
  using usable_ticket [OF assms] .

section \<open>A small session for the witnesses\<close>

definition sample_element :: UiSceneElement where
  "sample_element =
     \<lparr>element_id = ''save'', bbox_abs = \<lparr>eb_x = 10, eb_y = 20, eb_width = 100, eb_height = 30\<rparr>,
      el_label = ''Save'', el_role = None, el_intent = None, el_state = None, confidence = Some 1,
      text_masked = None, parent_id = None\<rparr>"

definition sample_gui_session :: GuiInteractionSession where
  "sample_gui_session =
     \<lparr>session_id = ''ses'', gui_state = Proposed,
      scene = \<lparr>scene_id = ''scene'', scene_app = None, scene_screen = None, scene_captured_at = 0,
        screen_width = 0, screen_height = 0, elements = [sample_element]\<rparr>,
      focus = \<lparr>focus_app = ''app'', window_title = ''w'', focus_pid = 1, focus_captured_at = 0,
        focus_hash = ''f''\<rparr>,
      candidates = [\<lparr>cand_element = sample_element, eligible = True\<rparr>],
      selected_element_id = None, created_at = 0, updated_at = 0, expires_at = 1000\<rparr>"

definition sample_stored :: StoredSession where
  "sample_stored =
     \<lparr>session = sample_gui_session, capability_token = ''cap'', overlay_handle_id = None,
      confirmed_action = None, used_ticket_nonces = {}\<rparr>"

definition sample_gui_env :: gui_env where
  "sample_gui_env =
     \<lparr>gui_hmac = \<lambda>_ _. [7], actions_digest = \<lambda>_. Some ''hash'', show_millis = \<lambda>_. ''0''\<rparr>"

definition sample_gui_confirm :: GuiConfirmRequest where
  "sample_gui_confirm =
     \<lparr>candidate_id = ''save'', confirm_action = \<lparr>action_type = Click, action_text = None\<rparr>,
      ticket_ttl_secs = None\<rparr>"

definition sample_service :: GuiInteractionService where
  "sample_service =
     publish_event ''ses'' Proposed ''gui_session.proposed'' None
       (put_stored ''ses'' sample_stored (gui_service_new (Some ''key'')))"

lemma sample_service_reachable:
  "gui_reachable sample_gui_env (Some ''key'') ((gui_init (Some ''key''))\<lparr>svc := sample_service, minted := {''ses''}\<rparr>)"
proof (rule gui_reachable_step)
  show "gui_reachable sample_gui_env (Some ''key'') (gui_init (Some ''key''))"
    by (simp add: gui_reachable_def)
  have "insert_session sample_stored (svc (gui_init (Some ''key''))) =
      (Inr (), put_stored ''ses'' sample_stored (gui_service_new (Some ''key'')))"
    by (simp add: insert_session_def gui_init_def gui_service_new_def MAX_SESSIONS_def sample_stored_def
        sample_gui_session_def)
  then show "gui_step sample_gui_env (gui_init (Some ''key''))
      ((gui_init (Some ''key''))\<lparr>svc := sample_service, minted := {''ses''}\<rparr>)"
    using create [of "''ses''" "gui_init (Some ''key'')" sample_gui_session "''cap''"]
    by (simp add: sample_stored_def sample_service_def gui_init_def sample_gui_session_def)
qed

lemma sample_gui_confirmed:
  obtains ticket s1 where "gui_confirm_candidate sample_gui_env 1 2 3 ''tkt'' ''nonce'' ''ses'' ''cap''
      (Inr (True, None)) sample_gui_confirm sample_service = (Inr ticket, s1)"
    and "t_expires_at ticket = 2 + seconds 30" and "nonce ticket = ''nonce''"
proof -
  have stored: "get_stored ''ses'' sample_service = Some sample_stored" by (simp add: sample_service_def)
  let ?c = "\<lparr>cand_element = sample_element, eligible = True\<rparr>"
  let ?snap = "(focus sample_gui_session, ?c, ''scene'')"
  have secret: "require_hmac_secret sample_service = Inr ''key''"
    by (simp add: require_hmac_secret_def sample_service_def gui_service_new_def load_signing_secret_def
        trim_def is_space_def)
  have token: "assert_capability_token ''ses'' ''cap'' sample_service = Inr ()"
    by (simp add: assert_capability_token_def stored sample_stored_def trim_def is_space_def)
  have start: "confirm_start 1 ''ses'' (candidate_id sample_gui_confirm) sample_service = (Inr ?snap, sample_service)"
    by (simp add: confirm_start_def stored sample_stored_def sample_gui_session_def sample_gui_confirm_def
        gui_is_expired_def sample_element_def)
  have ttl: "clamp_secs None DEFAULT_TICKET_TTL_SECS 5 300 = 30"
    by (simp add: clamp_secs_def DEFAULT_TICKET_TTL_SECS_def)
  obtain ca where built: "confirm_build sample_gui_env ''key'' 2 ''tkt'' ''nonce'' ''ses''
      (Inr (True, None)) sample_gui_confirm ?snap = Inr ca"
    and "t_expires_at (ca_ticket ca) = 2 + seconds 30"
    by (simp add: confirm_build_def check_focus_def build_actions_for_candidate_def hash_actions_def
        sample_gui_env_def sample_gui_confirm_def signed_ticket_def Let_def ttl)
  moreover obtain s1 where "confirm_commit 3 ''ses'' ca sample_service = (Inr (ca_ticket ca), s1)"
    by (simp add: confirm_commit_def stored Let_def)
  ultimately show ?thesis
    using that [of "ca_ticket ca" s1] secret token start own_ticket(2) [OF start built]
    by (simp add: gui_confirm_candidate_def)
qed

lemma sample_probe: "focus_loop (\<lambda>_. Inr (True, None)) = Inr ()"
  by (simp add: focus_loop_def FOCUS_DRIFT_MAX_RETRIES_def numeral_2_eq_2)

theorem confirmed_ticket_executes_witness:
  "\<exists>ticket s1 s2 actions.
     gui_confirm_candidate sample_gui_env 1 2 3 ''tkt'' ''nonce'' ''ses'' ''cap'' (Inr (True, None))
       sample_gui_confirm sample_service = (Inr ticket, s1) \<and>
     prepare_execution sample_gui_env 4 5 6 ''ses'' ''cap'' (\<lambda>_. Inr (True, None)) ticket s1 =
       (Inr \<lparr>plan_session_id = ''ses'', plan_actions = actions, plan_ticket = ticket\<rparr>, s2)"
proof -
  obtain ticket s1 where run: "gui_confirm_candidate sample_gui_env 1 2 3 ''tkt'' ''nonce'' ''ses'' ''cap''
      (Inr (True, None)) sample_gui_confirm sample_service = (Inr ticket, s1)"
    and expiry: "t_expires_at ticket = 2 + seconds 30"
    using sample_gui_confirmed by metis
  have stored: "get_stored ''ses'' sample_service = Some sample_stored" by (simp add: sample_service_def)
  show ?thesis
    using confirmed_ticket_executes [OF run stored _ _ _ sample_probe, of 4 6 5] run expiry
    by (auto simp: sample_stored_def sample_gui_session_def seconds_def MAX_USED_TICKET_NONCES_def)
qed

lemma sample_plan_reachable:
  obtains w p where "gui_reachable sample_gui_env (Some ''key'') w" and "plans w = [p]"
proof -
  obtain ticket s1 where run: "gui_confirm_candidate sample_gui_env 1 2 3 ''tkt'' ''nonce'' ''ses'' ''cap''
      (Inr (True, None)) sample_gui_confirm sample_service = (Inr ticket, s1)"
    and expiry: "t_expires_at ticket = 2 + seconds 30" and fresh: "nonce ticket = ''nonce''"
    using sample_gui_confirmed by metis
  let ?w = "(gui_init (Some ''key''))\<lparr>svc := sample_service, minted := {''ses''}\<rparr>"
  obtain w1 where w1: "gui_reachable sample_gui_env (Some ''key'') w1" "svc w1 = s1" "plans w1 = []"
    using gui_confirm_candidate_run [OF sample_service_reachable, of 1 2 3 "''tkt''" "''nonce''" "''ses''" "''cap''"
        "Inr (True, None)" sample_gui_confirm ticket s1] run
    by (auto simp: gui_init_def)
  obtain plan s2 where "prepare_execution sample_gui_env 4 5 6 ''ses'' ''cap'' (\<lambda>_. Inr (True, None)) ticket s1 =
      (Inr plan, s2)"
    using usable_ticket [OF run _ _ _ _ sample_probe, of sample_stored 4 6 5] expiry
    by (auto simp: sample_service_def sample_stored_def sample_gui_session_def seconds_def
        MAX_USED_TICKET_NONCES_def)
  then show ?thesis using prepare_execution_run [OF w1(1)] w1(2,3) that by fastforce
qed

section \<open>One execution for a ticket\<close>

text \<open> C14. A ticket buys at most one execution, in every interleaving of the locked sections of any number
  of calls, with any number of sessions: no two granted plans of a session share a nonce. In every
  reachable state there are at most 100 sessions, and a session remembers at most 512 used nonces. \<close>

theorem ticket_executes_at_most_once:
  assumes "gui_reachable env secret w"
  shows "distinct (map (\<lambda>p. (plan_session_id p, nonce (plan_ticket p))) (plans w)) \<and>
    length (sessions (svc w)) \<le> 100 \<and>
    (get_stored sid (svc w) = Some st \<longrightarrow> card (used_ticket_nonces st) \<le> 512)"
  using gui_reachable_inv [OF assms]
  by (auto simp: gui_inv_def service_ok_def session_ok_def plan_key_def MAX_SESSIONS_def
      MAX_USED_TICKET_NONCES_def cong: map_cong)

theorem ticket_executes_at_most_once_witness:
  "\<exists>w p. gui_reachable sample_gui_env (Some ''key'') w \<and> plans w = [p] \<and> length (sessions (svc w)) \<le> 100"
proof -
  obtain w p where "gui_reachable sample_gui_env (Some ''key'') w" "plans w = [p]"
    using sample_plan_reachable by metis
  then show ?thesis using ticket_executes_at_most_once by blast
qed



section \<open>What the states do not guard\<close>

text \<open>
  Only \<open>prepare_execution\<close> looks at the state of a session. A cancelled session can be confirmed and
  executed; the end of an execution overwrites a cancellation; and a ticket that passed the first checks
  is executed although the session was confirmed again for something else in between.
\<close>

lemma cancelled_session_can_be_confirmed:
  assumes "gui_confirm_candidate env t1 t2 t3 tid fresh sid cap answer req s = (Inr ticket, s1)"
    and "get_stored sid s = Some st"
  shows "\<exists>s1'. gui_confirm_candidate env t1 t2 t3 tid fresh sid cap answer req
    (put_stored sid (set_state Cancelled st) s) = (Inr ticket, s1')"
proof -
  obtain secret snap s' ca where *: "require_hmac_secret s = Inr secret"
    "assert_capability_token sid cap s = Inr ()"
    "confirm_start t1 sid (candidate_id req) s = (Inr snap, s')"
    "confirm_build env secret t2 tid fresh sid answer req snap = Inr ca"
    "confirm_commit t3 sid ca s' = (Inr ticket, s1)"
    using gui_confirm_candidate_cases [OF assms(1)] by metis
  let ?s = "put_stored sid (set_state Cancelled st) s"
  have "require_hmac_secret ?s = Inr secret" "assert_capability_token sid cap ?s = Inr ()"
    using *(1,2) assms(2) by (simp_all add: require_hmac_secret_def assert_capability_token_def split: if_splits)
  moreover have "confirm_start t1 sid (candidate_id req) ?s = (Inr snap, ?s)"
    using *(3) assms(2) by (auto simp: confirm_start_def set_state_def split: option.splits if_splits)
  moreover have "\<exists>s1'. confirm_commit t3 sid ca ?s = (Inr ticket, s1')"
    using *(5) by (auto simp: confirm_commit_def Let_def split: option.splits)
  ultimately show ?thesis using *(4) by (auto simp: gui_confirm_candidate_def)
qed

lemma completion_overwrites_cancellation:
  assumes "get_stored sid s = Some st" and "gui_state (session st) = Cancelled"
  shows "\<exists>s1 st1. snd (complete_execution now sid False detail s) = s1 \<and> get_stored sid s1 = Some st1 \<and>
    gui_state (session st1) = Confirmed"
  using assms by (simp add: complete_execution_def Let_def)

lemma superseded_ticket_executes:
  assumes "get_stored sid s = Some st" and "confirmed_action st = Some later" and "later \<noteq> ca"
    and "gui_state (session st) = Confirmed" and "now < expires_at (session st)"
    and "nonce ticket \<notin> used_ticket_nonces st" and "card (used_ticket_nonces st) < MAX_USED_TICKET_NONCES"
  shows "fst (prepare_commit now sid ticket ca s) =
    Inr \<lparr>plan_session_id = sid, plan_actions = ca_actions ca, plan_ticket = ticket\<rparr>"
  using assms by (simp add: prepare_commit_def gui_is_expired_def Let_def)

end
