(* ===== verification/Hlc.thy ===== *)
theory Hlc
  imports Prelude
begin

text \<open>
  The hybrid logical clock of \<open>crates/maekon-core/src/sync/hlc.rs\<close>. The wall clock is an
  argument: \<open>now\<close> is what \<open>current_time_ms\<close> returned at that call. \<open>counter += 1\<close> is the
  wrapping addition of a release build.
\<close>

subsection \<open>Timestamps and their order\<close>

datatype Hlc = Hlc (wall_ms: u64) (counter: u32) (device_id: string)

text \<open>The derived order: \<open>wall_ms\<close>, then \<open>counter\<close>, then \<open>device_id\<close>.\<close>

instantiation Hlc :: linorder
begin

definition less_eq_Hlc :: "Hlc \<Rightarrow> Hlc \<Rightarrow> bool" where
  "less_eq_Hlc a b \<longleftrightarrow>
     wall_ms a < wall_ms b \<or>
     wall_ms a = wall_ms b \<and>
       (counter a < counter b \<or> counter a = counter b \<and> device_id a \<le> device_id b)"

definition less_Hlc :: "Hlc \<Rightarrow> Hlc \<Rightarrow> bool" where
  "less_Hlc a b \<longleftrightarrow>
     wall_ms a < wall_ms b \<or>
     wall_ms a = wall_ms b \<and>
       (counter a < counter b \<or> counter a = counter b \<and> device_id a < device_id b)"

instance
  by standard (auto simp: less_eq_Hlc_def less_Hlc_def intro: Hlc.expand)

end

definition Hlc_default :: Hlc where
  "Hlc_default = Hlc 0 0 []"

definition MAX_CLOCK_DRIFT_MS :: u64 where
  "MAX_CLOCK_DRIFT_MS = 3600000"

text \<open>
  \<open>SystemTime::now()\<close> is given in nanoseconds since the epoch; a clock before the epoch reads as
  zero (\<open>unwrap_or_default\<close>), and \<open>as u64\<close> keeps the low 64 bits.
\<close>

definition current_time_ms :: "int \<Rightarrow> u64" where
  "current_time_ms system_time = word_of_int (max 0 system_time div 1000000)"

subsection \<open>Operations\<close>

definition now_hlc :: "u64 \<Rightarrow> string \<Rightarrow> Hlc" where
  "now_hlc now dev = Hlc now 0 dev"

definition tick :: "u64 \<Rightarrow> Hlc \<Rightarrow> Hlc" where
  "tick now h =
     (if now > wall_ms h then Hlc now 0 (device_id h)
      else Hlc (wall_ms h) (counter h + 1) (device_id h))"

text \<open>
  \<open>merge\<close> reads the clock once; on the rejecting path the call of \<open>tick\<close> reads it again, which is
  the second argument.
\<close>

definition merge :: "u64 \<Rightarrow> u64 \<Rightarrow> Hlc \<Rightarrow> Hlc \<Rightarrow> Hlc" where
  "merge now now' self remote =
     (if wall_ms remote > now + MAX_CLOCK_DRIFT_MS then tick now' self
      else
        let max_wall = max (max now (wall_ms self)) (wall_ms remote);
            c = (if max_wall = wall_ms self \<and> max_wall = wall_ms remote
                   then max (counter self) (counter remote) + 1
                 else if max_wall = wall_ms self then counter self + 1
                 else if max_wall = wall_ms remote then counter remote + 1
                 else 0)
        in Hlc max_wall c (device_id self))"

definition is_after :: "Hlc \<Rightarrow> Hlc \<Rightarrow> bool" where
  "is_after self other \<longleftrightarrow> self > other"

definition wall_ms_within_drift_bound :: "u64 \<Rightarrow> u64 \<Rightarrow> bool" where
  "wall_ms_within_drift_bound now remote_wall_ms \<longleftrightarrow>
     remote_wall_ms \<le> saturating_add now MAX_CLOCK_DRIFT_MS"

lemmas hlc_defs = tick_def merge_def Let_def less_Hlc_def less_eq_Hlc_def

subsection \<open>Local facts\<close>

lemma tick_less:
  assumes "now > wall_ms h \<or> counter h \<noteq> - 1"
  shows "h < tick now h"
  using assms by (cases h) (auto simp: hlc_defs intro: word_inc_less)

lemma device_id_tick [hlc_simps]: "device_id (tick now h) = device_id h"
  by (simp add: tick_def)

lemma device_id_merge [hlc_simps]: "device_id (merge now now' h r) = device_id h"
  by (simp add: merge_def tick_def Let_def)

lemma wall_ms_tick [hlc_simps]: "wall_ms (tick now h) = max now (wall_ms h)"
  by (auto simp: tick_def max_def)

lemma wall_ms_merge [hlc_simps]:
  "wall_ms (merge now now' h r) =
     (if wall_ms r > now + MAX_CLOCK_DRIFT_MS then max now' (wall_ms h)
      else max (max now (wall_ms h)) (wall_ms r))"
  by (simp add: merge_def wall_ms_tick Let_def)

text \<open>The counter that \<open>tick\<close> or \<open>merge\<close> increments is not at \<open>u32::MAX\<close>.\<close>

definition no_counter_overflow :: "u64 \<Rightarrow> u64 \<Rightarrow> Hlc \<Rightarrow> Hlc \<Rightarrow> bool" where
  "no_counter_overflow now now' h r \<longleftrightarrow> counter h \<noteq> - 1 \<and> counter r \<noteq> - 1"

lemma below_inc:
  fixes a b :: "'a::len word"
  assumes "b \<noteq> - 1" and "a \<le> b"
  shows "a < b + 1"
  using word_inc_less [OF assms(1)] assms(2) by (rule order.strict_trans1 [rotated])

lemma merge_less_self:
  assumes "no_counter_overflow now now' h r"
  shows "h < merge now now' h r"
proof (cases "wall_ms r > now + MAX_CLOCK_DRIFT_MS")
  case True
  with assms show ?thesis by (simp add: merge_def no_counter_overflow_def tick_less)
next
  case False
  with assms show ?thesis
    by (auto simp: merge_def Let_def less_Hlc_def no_counter_overflow_def max_def
        intro: below_inc)
qed

lemma merge_less_remote:
  assumes "no_counter_overflow now now' h r" and "\<not> wall_ms r > now + MAX_CLOCK_DRIFT_MS"
  shows "r < merge now now' h r"
  using assms
  by (auto simp: merge_def Let_def less_Hlc_def no_counter_overflow_def max_def
      intro: below_inc)

text \<open>A clock event of one device: a local tick, or the receipt of a remote stamp.\<close>

datatype clock_event = Local u64 | Receive u64 u64 Hlc

fun clock_step :: "Hlc \<Rightarrow> clock_event \<Rightarrow> Hlc" where
  "clock_step h (Local now) = tick now h"
| "clock_step h (Receive now now' r) = merge now now' h r"

fun clock_enabled :: "Hlc \<Rightarrow> clock_event \<Rightarrow> bool" where
  "clock_enabled h (Local now) = (now > wall_ms h \<or> counter h \<noteq> - 1)"
| "clock_enabled h (Receive now now' r) = no_counter_overflow now now' h r"

interpretation hlc_clock: strict_clock clock_step clock_enabled id
proof
  fix h x
  assume "clock_enabled h x"
  then show "id h < id (clock_step h x)"
    by (cases x) (auto intro: tick_less merge_less_self)
qed

subsection \<open>Properties\<close>

text \<open>
  Along any run of local ticks and received stamps that does not overflow the counter, the
  stamps of a device are strictly increasing, so no stamp is issued twice.
\<close>

theorem hlc_run_strictly_increasing:
  assumes "enabled_run clock_step clock_enabled h evs"
  shows "sorted_wrt (<) (readings clock_step id h evs)"
  using assms by (rule hlc_clock.readings_sorted)

theorem hlc_run_strictly_increasing_witness:
  "enabled_run clock_step clock_enabled (Hlc 5 0 ''a'')
     [Local 5, Receive 6 6 (Hlc 9 4 ''b''), Receive 6 6 (Hlc 9000000 4 ''c''), Local 12] \<and>
   sorted_wrt (<) (readings clock_step id (Hlc 5 0 ''a'')
     [Local 5, Receive 6 6 (Hlc 9 4 ''b''), Receive 6 6 (Hlc 9000000 4 ''c''), Local 12])"
proof -
  let ?evs = "[Local 5, Receive 6 6 (Hlc 9 4 ''b''), Receive 6 6 (Hlc 9000000 4 ''c''), Local 12]"
  have "enabled_run clock_step clock_enabled (Hlc 5 0 ''a'') ?evs"
    by (simp add: merge_def tick_def no_counter_overflow_def MAX_CLOCK_DRIFT_MS_def Let_def)
  with hlc_run_strictly_increasing [OF this] show ?thesis by blast
qed

text \<open>
  C38. Receiving a plausible remote stamp gives a stamp above both the local and the remote one and
  keeps the device; an implausible one (more than an hour ahead) cannot move the wall clock past
  the drift bound, so a single far-future device does not poison the order.
\<close>

theorem merge_causal_and_bounded:
  assumes "counter h \<noteq> - 1" and "counter r \<noteq> - 1"
    and "uint now + uint MAX_CLOCK_DRIFT_MS < 2 ^ 64"
  shows "h < merge now now' h r \<and> device_id (merge now now' h r) = device_id h \<and>
    (wall_ms r \<le> now + MAX_CLOCK_DRIFT_MS \<longrightarrow> r < merge now now' h r) \<and>
    wall_ms (merge now now' h r) \<le> max (max (wall_ms h) now') (now + MAX_CLOCK_DRIFT_MS)"
proof -
  have nov: "no_counter_overflow now now' h r" using assms(1,2) by (simp add: no_counter_overflow_def)
  have "now \<le> now + MAX_CLOCK_DRIFT_MS"
    using assms(3) uint_add_lem [of now MAX_CLOCK_DRIFT_MS] uint_ge_0 [of MAX_CLOCK_DRIFT_MS]
    by (simp add: word_le_def)
  then have "wall_ms (merge now now' h r) \<le> max (max (wall_ms h) now') (now + MAX_CLOCK_DRIFT_MS)"
    by (auto simp: wall_ms_merge le_max_iff_disj)
  then show ?thesis
    using merge_less_self [OF nov] merge_less_remote [OF nov] by (auto simp: device_id_merge)
qed

theorem merge_causal_and_bounded_witness:
  "Hlc 5 0 ''a'' < merge 6 6 (Hlc 5 0 ''a'') (Hlc 9 4 ''b'') \<and>
   Hlc 9 4 ''b'' < merge 6 6 (Hlc 5 0 ''a'') (Hlc 9 4 ''b'') \<and>
   wall_ms (merge 6 6 (Hlc 5 0 ''a'') (Hlc 9000000 4 ''b'')) \<le> 3600006"
  using merge_causal_and_bounded [of "Hlc 5 0 ''a''" "Hlc 9 4 ''b''" 6 6]
    merge_causal_and_bounded [of "Hlc 5 0 ''a''" "Hlc 9000000 4 ''b''" 6 6]
  by (simp add: MAX_CLOCK_DRIFT_MS_def)

end
