(* ===== verification/Sync_Descriptor.thy ===== *)
theory Sync_Descriptor
  imports Hlc Guarded_Connection
begin

text \<open>
  The wire model of cross-device sync (\<open>crates/maekon-core/src/models/sync.rs\<close>) and the table
  descriptors of \<open>crates/maekon-storage/src/sync_table_descriptor.rs\<close>: the six synced tables with
  their columns, keys and merge modes, and the codec from a JSON row to bound column values. A JSON
  number is an integer or the bit pattern of a double. The hex decoder is a parameter.
\<close>

subsection \<open>JSON\<close>

datatype json =
    JNull | JBool bool | JInt int | JFloat u64 | JStr string
  | JArr "json list" | JObj "(string \<times> json) list"

fun json_get :: "json \<Rightarrow> string \<Rightarrow> json option" where
  "json_get (JObj m) k = map_of m k"
| "json_get _ k = None"

fun as_str :: "json \<Rightarrow> string option" where
  "as_str (JStr s) = Some s"
| "as_str _ = None"

fun as_i64 :: "json \<Rightarrow> int option" where
  "as_i64 (JInt i) = (if - (2 ^ 63) \<le> i \<and> i < 2 ^ 63 then Some i else None)"
| "as_i64 _ = None"

fun as_u64 :: "json \<Rightarrow> u64 option" where
  "as_u64 (JInt i) = (if 0 \<le> i \<and> i < 2 ^ 64 then Some (of_int i) else None)"
| "as_u64 _ = None"

text \<open>A double is kept as the integer it was read from or as its bits.\<close>

datatype sql_real = OfInt int | Bits u64

fun as_f64 :: "json \<Rightarrow> sql_real option" where
  "as_f64 (JInt i) = Some (OfInt i)"
| "as_f64 (JFloat b) = Some (Bits b)"
| "as_f64 _ = None"

definition json_str :: "json \<Rightarrow> string \<Rightarrow> StorageError + string" where
  "json_str v key =
     (case Option.bind (json_get v key) as_str of
        None \<Rightarrow> Inl (Internal (''missing string field: '' @ key)) | Some s \<Rightarrow> Inr s)"

definition json_str_opt :: "json \<Rightarrow> string \<Rightarrow> string option" where
  "json_str_opt v key = Option.bind (json_get v key) as_str"

definition json_str_or_default :: "json \<Rightarrow> string \<Rightarrow> string \<Rightarrow> string" where
  "json_str_or_default v key d = (case json_str_opt v key of None \<Rightarrow> d | Some s \<Rightarrow> s)"

definition json_i64 :: "json \<Rightarrow> string \<Rightarrow> StorageError + int" where
  "json_i64 v key =
     (case Option.bind (json_get v key) as_i64 of
        None \<Rightarrow> Inl (Internal (''missing i64 field: '' @ key)) | Some i \<Rightarrow> Inr i)"

definition json_i64_or_default :: "json \<Rightarrow> string \<Rightarrow> int \<Rightarrow> int" where
  "json_i64_or_default v key d =
     (case Option.bind (json_get v key) as_i64 of None \<Rightarrow> d | Some i \<Rightarrow> i)"

definition json_u64 :: "json \<Rightarrow> string \<Rightarrow> StorageError + u64" where
  "json_u64 v key =
     (case Option.bind (json_get v key) as_u64 of
        None \<Rightarrow> Inl (Internal (''missing u64 field: '' @ key)) | Some w \<Rightarrow> Inr w)"

definition json_f64 :: "json \<Rightarrow> string \<Rightarrow> StorageError + sql_real" where
  "json_f64 v key =
     (case Option.bind (json_get v key) as_f64 of
        None \<Rightarrow> Inl (Internal (''missing f64 field: '' @ key)) | Some f \<Rightarrow> Inr f)"

subsection \<open>Descriptors\<close>

datatype PrimaryKey = Simple string | CompositeWithSurrogate string string string

datatype MergeMode = AppendOnly | LastWriteWins | LastWriteWinsWithTiebreak "string list"

datatype ExtractorGate = Always | IncludeLlmSummary | IncludeContentActivities | IncludeEmbeddingText

record SyncConfig =
  include_content_activities :: bool
  include_llm_summary :: bool
  include_embedding_text :: bool

fun gate_is_open :: "ExtractorGate \<Rightarrow> SyncConfig \<Rightarrow> bool" where
  "gate_is_open Always c = True"
| "gate_is_open IncludeLlmSummary c = include_llm_summary c"
| "gate_is_open IncludeContentActivities c = include_content_activities c"
| "gate_is_open IncludeEmbeddingText c = include_embedding_text c"

datatype ColumnKind =
    KText | KTextDefault string | KTextOptional | KInteger | KIntegerDefault int | KReal | KHexBlob

record ColumnSpec =
  col_name :: string
  col_kind :: ColumnKind
  extractor_only :: bool
  extractor_gate :: ExtractorGate
  immutable_on_update :: bool

record TableDescriptor =
  data_table :: string
  pk :: PrimaryKey
  mode :: MergeMode
  columns :: "ColumnSpec list"

definition col :: "string \<Rightarrow> ColumnKind \<Rightarrow> ColumnSpec" where
  "col n k = \<lparr>col_name = n, col_kind = k, extractor_only = False, extractor_gate = Always,
              immutable_on_update = False\<rparr>"

definition col_gated :: "string \<Rightarrow> ColumnKind \<Rightarrow> ExtractorGate \<Rightarrow> ColumnSpec" where
  "col_gated n k g = (col n k)\<lparr>extractor_gate := g\<rparr>"

definition col_extractor_only :: "string \<Rightarrow> ColumnKind \<Rightarrow> ColumnSpec" where
  "col_extractor_only n k = (col n k)\<lparr>extractor_only := True\<rparr>"

definition col_immutable :: "string \<Rightarrow> ColumnKind \<Rightarrow> ColumnSpec" where
  "col_immutable n k = (col n k)\<lparr>immutable_on_update := True\<rparr>"

definition ACTIVITY_SEGMENTS :: TableDescriptor where
  "ACTIVITY_SEGMENTS =
     \<lparr>data_table = ''activity_segments'', pk = Simple ''id'', mode = AppendOnly,
      columns =
        [col ''id'' KText, col ''start_time'' KText, col ''end_time'' KText,
         col ''duration_secs'' KInteger, col ''trigger_reason'' (KTextDefault ''sync''),
         col ''regime_id'' KTextOptional, col ''dominant_category'' KText,
         col ''app_breakdown'' (KTextDefault ''{}''),
         col_gated ''llm_summary'' KTextOptional IncludeLlmSummary,
         col_gated ''llm_summary_status_json'' (KTextDefault ''{}'') IncludeLlmSummary,
         col_gated ''content_activities_json'' (KTextDefault ''[]'') IncludeContentActivities]\<rparr>"

definition REGIMES :: TableDescriptor where
  "REGIMES =
     \<lparr>data_table = ''regimes'', pk = Simple ''id'', mode = LastWriteWins,
      columns =
        [col ''id'' KText, col ''label'' KText, col ''detected_at'' KText,
         col ''last_seen_at'' KText, col ''occurrence_count'' KInteger, col ''avg_density'' KReal,
         col ''avg_importance'' KReal, col ''dominant_category'' KText,
         col ''params_snapshot_id'' KTextOptional, col ''is_active'' KInteger,
         col ''is_deleted'' (KIntegerDefault 0), col ''deleted_at'' KTextOptional]\<rparr>"

definition REGIME_OVERRIDES :: TableDescriptor where
  "REGIME_OVERRIDES =
     \<lparr>data_table = ''regime_overrides'', pk = Simple ''override_id'', mode = AppendOnly,
      columns =
        [col ''override_id'' KText, col ''segment_id'' KText,
         col ''original_regime_id'' KTextOptional, col ''action_type'' KText,
         col ''action_data'' KTextOptional, col ''created_at'' KText]\<rparr>"

definition EMBEDDING_VECTORS :: TableDescriptor where
  "EMBEDDING_VECTORS =
     \<lparr>data_table = ''embedding_vectors'',
      pk = CompositeWithSurrogate ''segment_id'' ''model_id'' ''id'', mode = LastWriteWins,
      columns =
        [col_extractor_only ''id'' KInteger, col ''segment_id'' KText, col ''content_type'' KText,
         col ''content_label'' KTextOptional,
         col_gated ''original_text'' KTextOptional IncludeEmbeddingText,
         col ''vector'' KHexBlob, col ''model_id'' KText, col ''timestamp'' KText,
         col ''is_stale'' (KIntegerDefault 0), col ''is_deleted'' (KIntegerDefault 0),
         col ''deleted_at'' KTextOptional]\<rparr>"

definition SUGGESTIONS :: TableDescriptor where
  "SUGGESTIONS =
     \<lparr>data_table = ''suggestions'', pk = Simple ''suggestion_id'',
      mode = LastWriteWinsWithTiebreak [''acted_at'', ''dismissed_at'', ''shown_at''],
      columns =
        [col ''suggestion_id'' KText, col ''suggestion_type'' KText, col ''source'' KText,
         col ''content'' KText, col ''priority'' KText, col ''confidence_score'' KReal,
         col ''relevance_score'' KReal, col ''is_actionable'' KInteger,
         col ''reasoning'' KTextOptional, col ''context_app'' KTextOptional,
         col ''context_window'' KTextOptional, col ''context_target_id'' KTextOptional,
         col ''shown_at'' KTextOptional, col ''dismissed_at'' KTextOptional,
         col ''acted_at'' KTextOptional, col_immutable ''created_at'' KText,
         col ''expires_at'' KTextOptional, col ''is_deleted'' (KIntegerDefault 0),
         col ''deleted_at'' KTextOptional]\<rparr>"

definition TRIGGER_PARAMS_SNAPSHOTS :: TableDescriptor where
  "TRIGGER_PARAMS_SNAPSHOTS =
     \<lparr>data_table = ''trigger_params_snapshots'', pk = Simple ''id'', mode = AppendOnly,
      columns =
        [col ''id'' KText, col ''created_at'' KText, col ''preset'' KText,
         col ''params_json'' KText]\<rparr>"

definition SYNC_TABLES :: "TableDescriptor list" where
  "SYNC_TABLES =
     [ACTIVITY_SEGMENTS, REGIMES, REGIME_OVERRIDES, EMBEDDING_VECTORS, SUGGESTIONS,
      TRIGGER_PARAMS_SNAPSHOTS]"

definition ALL_TABLE_NAMES :: "string list" where
  "ALL_TABLE_NAMES = map data_table SYNC_TABLES"

definition tombstone_pk_col :: "string \<Rightarrow> string option" where
  "tombstone_pk_col table =
     Option.bind (List.find (\<lambda>d. data_table d = table) SYNC_TABLES)
       (\<lambda>d. case pk d of Simple p \<Rightarrow> Some p | CompositeWithSurrogate _ _ _ \<Rightarrow> None)"

definition descriptor_for :: "string \<Rightarrow> TableDescriptor option" where
  "descriptor_for table = List.find (\<lambda>d. data_table d = table) SYNC_TABLES"

subsection \<open>Row codec\<close>

datatype BoundValue =
    BText string | BTextOpt "string option" | BInt int | BReal sql_real | BBlob "u8 list"

text \<open>\<open>ColumnSpec::extract\<close>; \<open>Inr None\<close> is a corrupt blob, which skips the row.\<close>

definition extract_col ::
  "(string \<Rightarrow> u8 list option) \<Rightarrow> ColumnSpec \<Rightarrow> json \<Rightarrow> StorageError + BoundValue option" where
  "extract_col hex_decode spec row =
     (let n = col_name spec in
      case col_kind spec of
        KText \<Rightarrow> (case json_str row n of Inl e \<Rightarrow> Inl e | Inr s \<Rightarrow> Inr (Some (BText s)))
      | KTextDefault d \<Rightarrow> Inr (Some (BText (json_str_or_default row n d)))
      | KTextOptional \<Rightarrow> Inr (Some (BTextOpt (json_str_opt row n)))
      | KInteger \<Rightarrow> (case json_i64 row n of Inl e \<Rightarrow> Inl e | Inr i \<Rightarrow> Inr (Some (BInt i)))
      | KIntegerDefault d \<Rightarrow> Inr (Some (BInt (json_i64_or_default row n d)))
      | KReal \<Rightarrow> (case json_f64 row n of Inl e \<Rightarrow> Inl e | Inr f \<Rightarrow> Inr (Some (BReal f)))
      | KHexBlob \<Rightarrow>
          (case json_str row n of
             Inl e \<Rightarrow> Inl e | Inr h \<Rightarrow> Inr (map_option BBlob (hex_decode h))))"

fun pk_cols :: "PrimaryKey \<Rightarrow> string list" where
  "pk_cols (Simple p) = [p]"
| "pk_cols (CompositeWithSurrogate a b _) = [a, b]"

definition pk_values :: "TableDescriptor \<Rightarrow> json \<Rightarrow> StorageError + string list" where
  "pk_values desc row =
     (case pk desc of
        Simple p \<Rightarrow> (case json_str row p of Inl e \<Rightarrow> Inl e | Inr s \<Rightarrow> Inr [s])
      | CompositeWithSurrogate a b _ \<Rightarrow>
          (case json_str row a of
             Inl e \<Rightarrow> Inl e
           | Inr s \<Rightarrow> (case json_str row b of Inl e \<Rightarrow> Inl e | Inr t \<Rightarrow> Inr [s, t])))"

definition EMB_KEY_SEP :: char where
  "EMB_KEY_SEP = CHR 0x1F"

text \<open>
  \<open>tombstone_key\<close>, on the values of the key columns; the expression of \<open>tombstone_row_id_sql\<close>
  computes the same text in SQL.
\<close>

definition tombstone_key :: "TableDescriptor \<Rightarrow> string list \<Rightarrow> string" where
  "tombstone_key desc ks =
     (case pk desc of
        Simple _ \<Rightarrow> ks ! 0
      | CompositeWithSurrogate _ _ _ \<Rightarrow> ks ! 0 @ [EMB_KEY_SEP] @ ks ! 1)"

fun bind_columns ::
  "(string \<Rightarrow> u8 list option) \<Rightarrow> json \<Rightarrow> ColumnSpec list
     \<Rightarrow> StorageError + (string \<times> BoundValue) list option" where
  "bind_columns dec row [] = Inr (Some [])"
| "bind_columns dec row (spec # specs) =
     (if extractor_only spec then bind_columns dec row specs
      else case extract_col dec spec row of
             Inl e \<Rightarrow> Inl e
           | Inr None \<Rightarrow> Inr None
           | Inr (Some v) \<Rightarrow>
              (case bind_columns dec row specs of
                 Inl e \<Rightarrow> Inl e
               | Inr None \<Rightarrow> Inr None
               | Inr (Some vs) \<Rightarrow> Inr (Some ((col_name spec, v) # vs))))"

definition bind_all_columns ::
  "(string \<Rightarrow> u8 list option) \<Rightarrow> TableDescriptor \<Rightarrow> json
     \<Rightarrow> StorageError + (string \<times> BoundValue) list option" where
  "bind_all_columns dec desc row = bind_columns dec row (columns desc)"

definition excluded_from_update :: "TableDescriptor \<Rightarrow> string \<Rightarrow> bool" where
  "excluded_from_update desc n \<longleftrightarrow>
     (case pk desc of Simple p \<Rightarrow> p = n | CompositeWithSurrogate _ _ _ \<Rightarrow> False) \<or>
     (case List.find (\<lambda>c. col_name c = n) (columns desc) of
        None \<Rightarrow> False | Some c \<Rightarrow> immutable_on_update c)"

fun join_commas :: "string list \<Rightarrow> string" where
  "join_commas [] = []"
| "join_commas [w] = w"
| "join_commas (w # ws) = w @ '','' @ join_commas ws"

definition quote :: "string \<Rightarrow> string" where
  "quote s = [CHR 0x27] @ s @ [CHR 0x27]"

definition extractor_select_expr :: "TableDescriptor \<Rightarrow> SyncConfig \<Rightarrow> string" where
  "extractor_select_expr desc cfg =
     (let parts = map (\<lambda>c. quote (col_name c) @ '','' @
                         (if col_kind c = KHexBlob then ''hex('' @ col_name c @ '')'' else col_name c))
                    (filter (\<lambda>c. gate_is_open (extractor_gate c) cfg) (columns desc));
          trailer = map (\<lambda>n. quote n @ '','' @ n) [''hlc_wall_ms'', ''hlc_counter'', ''origin_device_id'']
      in ''json_object('' @ join_commas (parts @ trailer) @ '')'')"

text \<open>\<open>Inr None\<close> is a counter beyond \<open>u32\<close>, which skips the row.\<close>

definition extract_hlc_counter :: "json \<Rightarrow> StorageError + u32 option" where
  "extract_hlc_counter row =
     (case json_u64 row ''hlc_counter'' of
        Inl e \<Rightarrow> Inl e
      | Inr raw \<Rightarrow> Inr (if raw < 2 ^ 32 then Some (ucast raw) else None))"

definition extract_hlc :: "json \<Rightarrow> StorageError + Hlc option" where
  "extract_hlc row =
     (case extract_hlc_counter row of
        Inl e \<Rightarrow> Inl e
      | Inr None \<Rightarrow> Inr None
      | Inr (Some c) \<Rightarrow>
         (case json_u64 row ''hlc_wall_ms'' of
            Inl e \<Rightarrow> Inl e
          | Inr w \<Rightarrow>
             (case json_str row ''origin_device_id'' of
                Inl e \<Rightarrow> Inl e
              | Inr d \<Rightarrow> Inr (Some (Hlc w c d)))))"

text \<open>\<open>StatusTiebreak::ordinal\<close>: the first column that is present decides.\<close>

fun presence_ordinal :: "(string \<Rightarrow> bool) \<Rightarrow> string list \<Rightarrow> nat" where
  "presence_ordinal present [] = 0"
| "presence_ordinal present (c # cs) =
     (if present c then Suc (length cs) else presence_ordinal present cs)"

definition ordinal :: "string list \<Rightarrow> json \<Rightarrow> nat" where
  "ordinal rank row = presence_ordinal (\<lambda>c. json_str_opt row c \<noteq> None) rank"

subsection \<open>Wire model\<close>

datatype ChangeSetKind = Data | DeletionEvent

record Tombstone =
  t_table :: string
  t_row_id :: string
  t_origin :: string
  t_wall :: u64
  t_counter :: u32
  t_deleted_at :: string

record ChangeSet =
  kind :: ChangeSetKind
  cs_origin :: string
  cs_origin_name :: string
  watermark :: Hlc
  segments :: "json list"
  regimes :: "json list"
  overrides :: "json list"
  embeddings :: "json list"
  suggestions :: "json list"
  param_snapshots :: "json list"
  preferences :: "json list"
  tombstones :: "Tombstone list"

definition changeset_row_count :: "ChangeSet \<Rightarrow> nat" where
  "changeset_row_count c =
     length (segments c) + length (regimes c) + length (overrides c) + length (embeddings c)
     + length (suggestions c) + length (param_snapshots c) + length (preferences c)
     + length (tombstones c)"

definition changeset_is_empty :: "ChangeSet \<Rightarrow> bool" where
  "changeset_is_empty c \<longleftrightarrow>
     segments c = [] \<and> regimes c = [] \<and> overrides c = [] \<and> embeddings c = []
     \<and> suggestions c = [] \<and> param_snapshots c = [] \<and> preferences c = [] \<and> tombstones c = []"

record SyncResult =
  applied :: nat
  skipped_lww :: nat
  skipped_dup :: nat
  tombstoned :: nat
  new_watermark :: Hlc
  push_attempted :: bool
  pushed_to_peers :: nat

definition sync_result_default :: SyncResult where
  "sync_result_default =
     \<lparr>applied = 0, skipped_lww = 0, skipped_dup = 0, tombstoned = 0, new_watermark = Hlc_default,
      push_attempted = False, pushed_to_peers = 0\<rparr>"

lemma changeset_empty_iff: "changeset_is_empty c \<longleftrightarrow> changeset_row_count c = 0"
  by (auto simp: changeset_is_empty_def changeset_row_count_def)

end
