(* ===== verification/Codex_Approval.thy ===== *)
theory Codex_Approval
  imports Automation_Gate Sync_Descriptor Guarded_Connection
begin

text \<open>
  The approval of commands and file changes that a Codex app server asks for
  (\<open>maekon-core/src/codex_approval.rs\<close>, \<open>ports/codex_approval.rs\<close>), and the registry of pending questions
  (\<open>src-tauri/src/provider_adapters/codex_ui_approval_hook.rs\<close>, \<open>commands/ai_session.rs\<close>). The policy port
  and the answer of the user are arguments of the decider; its audit port is the logger of
  \<open>Audit_Logger\<close>, which \<open>audit/adapter.rs\<close> puts behind it. Loops over indices are recursions over the
  rest of the list. White space is ASCII white space.
\<close>

section \<open>Text\<close>

definition contains :: "string \<Rightarrow> string \<Rightarrow> bool" where
  "contains s p \<longleftrightarrow> find_sub p s \<noteq> None"

fun split_spaces :: "string \<Rightarrow> string list" where
  "split_spaces [] = [[]]"
| "split_spaces (x # xs) =
     (if is_space x then [] # split_spaces xs
      else (case split_spaces xs of [] \<Rightarrow> [[x]] | p # ps \<Rightarrow> (x # p) # ps))"

definition shell_split :: "string \<Rightarrow> string list" where
  "shell_split cmd = filter (\<lambda>w. w \<noteq> []) (split_spaces cmd)"

definition ascii_alphabetic :: "char \<Rightarrow> bool" where
  "ascii_alphabetic c \<longleftrightarrow>
     (CHR ''a'' \<le> c \<and> c \<le> CHR ''z'') \<or> (CHR ''A'' \<le> c \<and> c \<le> CHR ''Z'')"

text \<open>\<open>str::lines().count()\<close>: a final line break ends the last line.\<close>

definition line_count :: "string \<Rightarrow> nat" where
  "line_count s = length (filter (\<lambda>c. c = CHR 0x0A) s) +
     (if s = [] \<or> last s = CHR 0x0A then 0 else 1)"

section \<open>Requests\<close>

datatype ApprovalKind =
    CommandExecution "string list" "string option" "string option" bool
  | FileChange string bool

definition is_command_approval :: "string \<Rightarrow> bool" where
  "is_command_approval meth =
     (let m = map lower_ascii meth
      in contains m ''commandexecution'' \<and> (contains m ''requestapproval'' \<or> contains m ''approvalrequest''))"

definition is_file_change_approval :: "string \<Rightarrow> bool" where
  "is_file_change_approval meth =
     (let m = map lower_ascii meth
      in contains m ''filechange'' \<and> (contains m ''requestapproval'' \<or> contains m ''approvalrequest''))"

fun as_array :: "json \<Rightarrow> json list option" where
  "as_array (JArr xs) = Some xs"
| "as_array _ = None"

fun first_some :: "'a option \<Rightarrow> 'a option \<Rightarrow> 'a option" where
  "first_some (Some x) _ = Some x"
| "first_some None y = y"

definition parse_argv :: "json \<Rightarrow> string list option" where
  "parse_argv params =
     (let command = json_get params ''command'';
          array = Option.bind
            (first_some (json_get params ''argv'')
               (case command of Some v \<Rightarrow> if as_array v \<noteq> None then Some v else None | None \<Rightarrow> None)) as_array
      in case array of
           Some vs \<Rightarrow> Some (List.map_filter as_str vs)
         | None \<Rightarrow>
             map_option shell_split
               (Option.bind (first_some command (first_some (json_get params ''call'') (json_get params ''cmd''))) as_str))"

definition parse_request :: "string \<Rightarrow> json \<Rightarrow> ApprovalKind option" where
  "parse_request meth params =
     (let wants_network = (json_get params ''networkApprovalContext'' \<noteq> None \<or>
                           json_get params ''network_approval_context'' \<noteq> None);
          str_field = (\<lambda>k. Option.bind (json_get params k) as_str)
      in if is_command_approval meth
         then (case parse_argv params of
                 None \<Rightarrow> None
               | Some argv \<Rightarrow>
                   if argv = [] then None
                   else Some (CommandExecution argv (str_field ''cwd'') (str_field ''reason'') wants_network))
         else if is_file_change_approval meth
         then Some (FileChange
                (case Option.bind (first_some (json_get params ''diff'')
                        (first_some (json_get params ''unifiedDiff'') (json_get params ''unified_diff''))) as_str of
                   Some d \<Rightarrow> d | None \<Rightarrow> []) wants_network)
         else None)"

section \<open>The screen for dangerous commands\<close>

definition is_quote :: "char \<Rightarrow> bool" where
  "is_quote c \<longleftrightarrow> c = CHR 0x22 \<or> c = CHR 0x27"

definition strip_surrounding_quotes :: "string \<Rightarrow> string" where
  "strip_surrounding_quotes token =
     (if length token \<ge> 2 \<and> is_quote (hd token) \<and> hd token = last token
      then butlast (tl token) else token)"

definition MAX_WRAPPER_DEPTH :: nat where
  "MAX_WRAPPER_DEPTH = 3"

definition SHELL_INTERPRETERS :: "string list" where
  "SHELL_INTERPRETERS = [''sh'', ''bash'', ''zsh'', ''dash'', ''ksh'', ''fish'']"

definition EXEC_WRAPPERS :: "string list" where
  "EXEC_WRAPPERS = [''sudo'', ''doas'', ''env'', ''nice'', ''timeout'', ''nohup'', ''xargs'', ''stdbuf'', ''setsid'']"

definition program_basename_lower :: "string \<Rightarrow> string" where
  "program_basename_lower token = map lower_ascii (after_last (CHR ''/'') token)"

definition env_assignment :: "string \<Rightarrow> bool" where
  "env_assignment token =
     (case split_once_at ''='' token of
        None \<Rightarrow> False
      | Some (name, _) \<Rightarrow>
          name \<noteq> [] \<and> list_all (\<lambda>c. ascii_alphabetic c \<or> ascii_digit c \<or> c = CHR ''_'') name)"

definition option_takes_value :: "string \<Rightarrow> char list \<Rightarrow> string list \<Rightarrow> bool" where
  "option_takes_value token short long =
     (if starts_with token ''--''
      then (case split_once_at ''='' token of Some (name, _) \<Rightarrow> name | None \<Rightarrow> token) \<in> set long
      else length token \<ge> 2 \<and> starts_with token ''-'' \<and> token ! 1 \<in> set short)"

definition takes_separate_value :: "string \<Rightarrow> char list \<Rightarrow> string list \<Rightarrow> bool" where
  "takes_separate_value arg short long \<longleftrightarrow>
     option_takes_value arg short long \<and> CHR ''='' \<notin> set arg \<and>
     (length arg = 2 \<or> starts_with arg ''--'')"

fun skip_wrapper_options :: "char list \<Rightarrow> string list \<Rightarrow> string list \<Rightarrow> string list" where
  "skip_wrapper_options short long [] = []"
| "skip_wrapper_options short long (arg # rest) =
     (if arg = ''--'' then rest
      else if \<not> starts_with arg ''-'' \<or> arg = ''-'' then arg # rest
      else skip_wrapper_options short long
             (if takes_separate_value arg short long then drop 1 rest else rest))"

definition payload_from :: "string list \<Rightarrow> string list option" where
  "payload_from rest = (if rest = [] then None else Some rest)"

fun env_wrapper_payload :: "string list \<Rightarrow> string list option" where
  "env_wrapper_payload [] = None"
| "env_wrapper_payload (arg # rest) =
     (if arg = ''--'' then payload_from rest
      else if arg = ''-S'' \<or> arg = ''--split-string''
      then (if rest = [] then None else Some (shell_split (strip_surrounding_quotes (join '' '' rest))))
      else (case strip_prefix ''--split-string='' arg of
              Some script \<Rightarrow> Some (shell_split (strip_surrounding_quotes script))
            | None \<Rightarrow>
                if env_assignment arg then env_wrapper_payload rest
                else if starts_with arg ''-'' \<and> arg \<noteq> ''-''
                then env_wrapper_payload
                       (if takes_separate_value arg ''uC'' [''--unset'', ''--chdir''] then drop 1 rest else rest)
                else payload_from (arg # rest)))"

definition exec_wrapper_payload :: "string list \<Rightarrow> string list option" where
  "exec_wrapper_payload norm =
     (if length norm < 2 then None
      else
        (let wrapper = program_basename_lower (hd norm); rest = tl norm
         in if wrapper \<notin> set EXEC_WRAPPERS then None
            else if wrapper = ''sudo'' \<or> wrapper = ''doas''
            then payload_from (skip_wrapper_options ''ughpCDrtUT''
                   [''--user'', ''--group'', ''--host'', ''--prompt'', ''--chdir'', ''--role'', ''--type'',
                    ''--other-user'', ''--command-timeout''] rest)
            else if wrapper = ''env'' then env_wrapper_payload rest
            else if wrapper = ''nice'' then payload_from (skip_wrapper_options ''n'' [''--adjustment''] rest)
            else if wrapper = ''timeout''
            then payload_from (drop 1 (skip_wrapper_options ''ks'' [''--kill-after'', ''--signal''] rest))
            else if wrapper = ''nohup'' then payload_from rest
            else if wrapper = ''xargs''
            then payload_from (skip_wrapper_options ''adEeIiLlnPs''
                   [''--arg-file'', ''--delimiter'', ''--eof'', ''--replace'', ''--max-lines'', ''--max-args'',
                    ''--max-procs'', ''--max-chars''] rest)
            else if wrapper = ''stdbuf''
            then payload_from (skip_wrapper_options ''ioe'' [''--input'', ''--output'', ''--error''] rest)
            else if wrapper = ''setsid'' then payload_from (skip_wrapper_options [] [] rest)
            else None))"

definition is_command_flag :: "string \<Rightarrow> bool" where
  "is_command_flag flag \<longleftrightarrow>
     flag = ''--command'' \<or>
     length flag \<ge> 2 \<and> starts_with flag ''-'' \<and> \<not> starts_with flag ''--'' \<and>
     list_all ascii_alphabetic (tl flag) \<and> CHR ''c'' \<in> set (tl flag)"

definition short_bundle_has :: "string \<Rightarrow> char \<Rightarrow> bool" where
  "short_bundle_has token needle \<longleftrightarrow>
     length token \<ge> 2 \<and> starts_with token ''-'' \<and> \<not> starts_with token ''--'' \<and>
     list_all ascii_alphabetic (tl token) \<and>
     list_ex (\<lambda>c. lower_ascii c = lower_ascii needle) (tl token)"

text \<open>The script after the first command flag of a shell, split again.\<close>

definition inline_script :: "string list \<Rightarrow> string list \<Rightarrow> string list option" where
  "inline_script argv norm =
     (let before = takeWhile (\<lambda>a. \<not> is_command_flag a) (tl norm);
          script_start = length before + 2
      in if length before < length (tl norm) \<and> script_start < length argv
         then Some (shell_split (strip_surrounding_quotes (join '' '' (drop script_start argv))))
         else None)"

definition rm_rule :: "string list \<Rightarrow> string \<Rightarrow> bool" where
  "rm_rule norm joined =
     (let recursive = list_ex (\<lambda>a. let a = map lower_ascii a in
            a = ''-r'' \<or> a = ''--recursive'' \<or> short_bundle_has a (CHR ''r'')) norm;
          force = list_ex (\<lambda>a. let a = map lower_ascii a in
            a = ''--force'' \<or> short_bundle_has a (CHR ''f'')) norm;
          targets_root = list_ex (\<lambda>a. a = ''/'' \<or> a = ''/*'' \<or> a = ''~'' \<or> a = ''~/'' \<or> starts_with a ''/.'') norm
      in recursive \<and> force \<and> targets_root \<or> contains joined ''rm -rf /'' \<or> contains joined ''rm -fr /'')"

definition plain_rules :: "string \<Rightarrow> string list \<Rightarrow> string \<Rightarrow> bool" where
  "plain_rules program norm joined \<longleftrightarrow>
     program = ''rm'' \<and> rm_rule norm joined \<or>
     contains joined '':(){'' \<or> contains (filter (\<lambda>c. c \<noteq> CHR '' '') joined) '':(){:|:&};:'' \<or>
     program = ''mkfs'' \<or> starts_with program ''mkfs.'' \<or>
     program = ''dd'' \<and> contains joined ''of=/dev/'' \<or>
     (contains joined ''curl'' \<or> contains joined ''wget'') \<and>
       (contains joined ''| sh'' \<or> contains joined ''|sh'' \<or> contains joined ''| bash'' \<or> contains joined ''|bash'') \<or>
     contains joined ''> /dev/sd'' \<or> contains joined ''>/dev/sd''"

function is_dangerous_inner :: "string list \<Rightarrow> nat \<Rightarrow> bool" where
  "is_dangerous_inner argv depth =
     (if argv = [] then False
      else
        (let norm = map strip_surrounding_quotes argv;
             program = program_basename_lower (hd norm);
             joined = map lower_ascii (filter (\<lambda>c. \<not> is_quote c) (join '' '' norm))
         in if (if depth < MAX_WRAPPER_DEPTH
                then (case exec_wrapper_payload norm of
                        Some inner \<Rightarrow> is_dangerous_inner inner (Suc depth) | None \<Rightarrow> False)
                else False) then True
            else if (if depth < MAX_WRAPPER_DEPTH \<and> program \<in> set SHELL_INTERPRETERS
                     then (case inline_script argv norm of
                             Some inner \<Rightarrow> is_dangerous_inner inner (Suc depth) | None \<Rightarrow> False)
                     else False) then True
            else plain_rules program norm joined))"
  by pat_completeness auto
termination
  by (relation "measure (\<lambda>(_, depth). MAX_WRAPPER_DEPTH - depth)") auto

declare is_dangerous_inner.simps [simp del]

definition is_dangerous :: "string list \<Rightarrow> bool" where
  "is_dangerous argv = is_dangerous_inner argv 0"

section \<open>The decider\<close>

datatype ApprovalDecision = Accept | Decline

record UiApprovalContext =
  request_id :: u64
  ctx_summary :: string
  ctx_kind :: string
  ctx_process_name :: "string option"
  ctx_args :: "string list"
  ctx_diff_line_count :: "nat option"
  ctx_network_host :: "string option"

text \<open>How the question to the user ends: an answer, a dropped channel, or nothing in time.\<close>

datatype ui_answer = Answered bool | ChannelDropped | Elapsed

record approval_env =
  policy_port :: "string \<Rightarrow> string list \<Rightarrow> string + PolicyVerdict"
  ask_user :: "UiApprovalContext \<Rightarrow> ui_answer"
  ui_timeout_ms :: nat
  show_count :: "nat \<Rightarrow> string"
  event_id :: string
  approval_log :: log_env

definition APPROVAL_AUDIT_SESSION :: string where
  "APPROVAL_AUDIT_SESSION = ''codex_approval''"

definition audit_event :: "approval_env \<Rightarrow> string \<Rightarrow> string \<Rightarrow> AuditLogger \<Rightarrow> AuditLogger" where
  "audit_event env action details l =
     log_event (approval_log env) (event_id env) action APPROVAL_AUDIT_SESSION details l"

definition audit_accept :: "approval_env \<Rightarrow> string \<Rightarrow> string \<Rightarrow> AuditLogger \<Rightarrow> AuditLogger" where
  "audit_accept env tag details l = audit_event env (''codex.approval.'' @ tag @ ''.approved'') details l"

definition audit_decline :: "approval_env \<Rightarrow> string \<Rightarrow> string \<Rightarrow> AuditLogger \<Rightarrow> AuditLogger" where
  "audit_decline env tag details l = audit_event env (''codex.approval.'' @ tag @ ''.denied'') details l"

definition declined ::
  "approval_env \<Rightarrow> string \<Rightarrow> string \<Rightarrow> AuditLogger \<Rightarrow> ApprovalDecision \<times> AuditLogger" where
  "declined env tag details l = (Decline, audit_decline env tag details l)"

definition command_context :: "u64 \<Rightarrow> string list \<Rightarrow> UiApprovalContext" where
  "command_context rid argv =
     \<lparr>request_id = rid, ctx_summary = ''command: '' @ join '' '' argv, ctx_kind = ''command'',
      ctx_process_name = Some (hd argv), ctx_args = tl argv, ctx_diff_line_count = None,
      ctx_network_host = None\<rparr>"

definition file_change_context :: "approval_env \<Rightarrow> u64 \<Rightarrow> string \<Rightarrow> UiApprovalContext" where
  "file_change_context env rid diff =
     \<lparr>request_id = rid,
      ctx_summary = ''file change ('' @ show_count env (line_count diff) @ '' diff lines)'',
      ctx_kind = ''file_change'', ctx_process_name = None, ctx_args = [],
      ctx_diff_line_count = Some (line_count diff), ctx_network_host = None\<rparr>"

definition escalate_to_ui ::
  "approval_env \<Rightarrow> string \<Rightarrow> UiApprovalContext \<Rightarrow> string \<Rightarrow> AuditLogger \<Rightarrow> ApprovalDecision \<times> AuditLogger" where
  "escalate_to_ui env tag ctx detail l =
     (case ask_user env ctx of
        Answered True \<Rightarrow> (Accept, audit_accept env tag (''decision=approved source=ui '' @ detail) l)
      | Answered False \<Rightarrow> declined env tag (''decision=denied source=ui '' @ detail) l
      | ChannelDropped \<Rightarrow> declined env tag (''decision=denied source=ui_channel_dropped '' @ detail) l
      | Elapsed \<Rightarrow>
          (Decline, audit_event env ''codex.approval.timeout''
             (''decision=denied source=ui_timeout timeout_ms='' @ show_count env (ui_timeout_ms env) @ '' '' @ detail) l))"

definition or_none :: "string option \<Rightarrow> string" where
  "or_none v = (case v of Some s \<Rightarrow> s | None \<Rightarrow> ''<none>'')"

definition decide_command ::
  "approval_env \<Rightarrow> u64 \<Rightarrow> string list \<Rightarrow> string option \<Rightarrow> string option \<Rightarrow> bool \<Rightarrow> AuditLogger
    \<Rightarrow> ApprovalDecision \<times> AuditLogger" where
  "decide_command env rid argv cwd reason wants_network l =
     (if is_dangerous argv
      then declined env ''command''
             (''decision=denied verdict=dangerous process_name='' @ (if argv = [] then ''<empty>'' else hd argv) @
              '' cwd='' @ or_none cwd @ '' reason='' @ or_none reason) l
      else (case argv of
              [] \<Rightarrow> declined env ''command'' ''decision=denied verdict=empty_argv'' l
            | name # args \<Rightarrow>
                (case policy_port env name args of
                   Inl err \<Rightarrow>
                     declined env ''command''
                       (''decision=denied verdict=policy_error process_name='' @ name @ '' error='' @ err) l
                 | Inr (VerdictAuto pid allow) \<Rightarrow>
                     if wants_network \<and> \<not> allow
                     then declined env ''command''
                            (''decision=denied verdict=network_default_deny policy_id='' @ pid @
                             '' process_name='' @ name) l
                     else (Accept, audit_accept env ''command''
                            (''decision=approved verdict=auto policy_id='' @ pid @ '' process_name='' @ name @
                             '' cwd='' @ or_none cwd @ '' reason='' @ or_none reason) l)
                 | Inr (VerdictConfirm pid) \<Rightarrow>
                     if wants_network
                     then declined env ''command''
                            (''decision=denied verdict=network_default_deny_confirm policy_id='' @ pid @
                             '' process_name='' @ name) l
                     else escalate_to_ui env ''command'' (command_context rid argv)
                            (''verdict=confirm policy_id='' @ pid @ '' process_name='' @ name) l
                 | Inr (VerdictBlock pid) \<Rightarrow>
                     declined env ''command''
                       (''decision=denied verdict=block policy_id='' @ pid @ '' process_name='' @ name) l
                 | Inr VerdictNoMatch \<Rightarrow>
                     escalate_to_ui env ''command'' (command_context rid argv)
                       (''verdict=no_match process_name='' @ name) l)))"

definition decide_file_change ::
  "approval_env \<Rightarrow> u64 \<Rightarrow> string \<Rightarrow> bool \<Rightarrow> AuditLogger \<Rightarrow> ApprovalDecision \<times> AuditLogger" where
  "decide_file_change env rid diff wants_network l =
     (if wants_network
      then declined env ''file_change'' ''decision=denied verdict=network_default_deny_file_change'' l
      else escalate_to_ui env ''file_change'' (file_change_context env rid diff)
             (''verdict=file_change diff_lines='' @ show_count env (line_count diff)) l)"

definition decide ::
  "approval_env \<Rightarrow> u64 \<Rightarrow> string \<Rightarrow> json \<Rightarrow> AuditLogger \<Rightarrow> ApprovalDecision \<times> AuditLogger" where
  "decide env rid meth params l =
     (case parse_request meth params of
        None \<Rightarrow>
          declined env meth (''method='' @ meth @ '' reason=unparseable_or_unknown_approval'') l
      | Some (CommandExecution argv cwd reason wants_network) \<Rightarrow>
          decide_command env rid argv cwd reason wants_network l
      | Some (FileChange diff wants_network) \<Rightarrow> decide_file_change env rid diff wants_network l)"

text \<open>The policy port over the policy client, which never fails.\<close>

definition policy_client_port :: "'j PolicyClient \<Rightarrow> string \<Rightarrow> string list \<Rightarrow> string + PolicyVerdict" where
  "policy_client_port c name args = Inr (verdict_for name args c)"

section \<open>Questions to the user\<close>

text \<open>
  A question is parked in the registry under an id of the hook's own counter; the asking session and its
  request are kept with it, as the receiver of its channel. \<open>delivered\<close> holds the answers that reached
  their receiver.
\<close>

record 's approval_hook =
  next_ui_id :: u64
  parked :: "u64 \<rightharpoonup> 's"
  shown :: "(u64 \<times> UiApprovalContext) list"
  answers :: "('s \<times> bool) list"

definition hook_new :: "'s approval_hook" where
  "hook_new = \<lparr>next_ui_id = 1, parked = Map.empty, shown = [], answers = []\<rparr>"

definition request_approval :: "bool \<Rightarrow> 's \<Rightarrow> UiApprovalContext \<Rightarrow> 's approval_hook \<Rightarrow> 's approval_hook" where
  "request_approval emitted asker ctx h =
     (let ui_id = next_ui_id h;
          payload = ctx\<lparr>request_id := ui_id\<rparr>
      in if emitted
         then h\<lparr>next_ui_id := ui_id + 1, parked := (parked h)(ui_id \<mapsto> asker), shown := shown h @ [(ui_id, payload)]\<rparr>
         else h\<lparr>next_ui_id := ui_id + 1, parked := ((parked h)(ui_id \<mapsto> asker))(ui_id := None)\<rparr>)"

definition decision_to_bool :: "string \<Rightarrow> bool" where
  "decision_to_bool decision \<longleftrightarrow> decision = ''accept''"

definition respond_codex_approval ::
  "u64 \<Rightarrow> string \<Rightarrow> 's approval_hook \<Rightarrow> (IpcError + unit) \<times> 's approval_hook" where
  "respond_codex_approval rid decision h =
     (case parked h rid of
        None \<Rightarrow> (Inl (IpcNew ''approval request not found or already resolved''), h)
      | Some asker \<Rightarrow>
          (Inr (), h\<lparr>parked := (parked h)(rid := None),
                    answers := answers h @ [(asker, decision_to_bool decision)]\<rparr>))"

end
