(* ===== verification/Codex_Properties.thy ===== *)
theory Codex_Properties
  imports Codex_Approval Policy_Properties
begin

text \<open>
  What an approval is worth: it was given by a policy or by the user, it is in the audit trail, and a
  recursive removal of the root is never approved, however it is wrapped within the depth of the screen.
  The last section holds the commands the screen does not see through.
\<close>

section \<open>Authority\<close>

lemma declined_simps [simp]:
  "fst (declined env tag details l) = Decline"
  by (simp add: declined_def)

lemma escalate_accept:
  assumes "fst (escalate_to_ui env tag ctx detail l) = Accept"
  shows "ask_user env ctx = Answered True"
  using assms by (auto simp: escalate_to_ui_def split: ui_answer.splits bool.splits if_splits)

lemma decide_command_accept:
  assumes "fst (decide_command env rid argv cwd reason net l) = Accept"
    and "policy_port env = policy_client_port c"
  shows "argv \<noteq> [] \<and> \<not> is_dangerous argv \<and>
    (case get_policy_for_process (hd argv) c of
       None \<Rightarrow> ask_user env (command_context rid argv) = Answered True
     | Some p \<Rightarrow> validate_args p (tl argv) \<and>
         (confirmation p = ConfirmAuto \<and> (net \<longrightarrow> allow_network p = Some True) \<or>
          confirmation p = ConfirmAsk \<and> \<not> net \<and> ask_user env (command_context rid argv) = Answered True))"
  using assms
  by (auto simp: decide_command_def policy_client_port_def verdict_for_def dest: escalate_accept
      split: if_splits list.splits option.splits ConfirmationRequirement.splits)


section \<open>Evidence\<close>

definition approval_logged :: "ApprovalDecision \<Rightarrow> AuditLogger \<Rightarrow> AuditLogger \<Rightarrow> bool" where
  "approval_logged d l l' \<longleftrightarrow>
     (\<exists>e. buffer l' = (if length (buffer l) \<ge> max_buffer_size l then tl (buffer l) else buffer l) @ [e] \<and>
        ae_session_id e = ''codex_approval'' \<and>
        (strip_suffix ''.approved'' (ae_action_type e) \<noteq> None \<longleftrightarrow> d = Accept))"

lemma strip_suffix_append [simp]: "strip_suffix p (s @ p) = Some s"
  by (simp add: strip_suffix_def strip_prefix_def)

lemma denied_not_approved [simp]: "strip_suffix ''.approved'' (s @ ''.denied'') = None"
  by (simp add: strip_suffix_def strip_prefix_def)

lemma audit_event_logged:
  assumes "strip_suffix ''.approved'' action \<noteq> None \<longleftrightarrow> d = Accept"
  shows "approval_logged d l (audit_event env action details l)"
  using assms
  by (auto simp: approval_logged_def audit_event_def log_event_def log_event_with_status_def push_entry_def
      push_best_effort_def note_drop_def build_entry_def APPROVAL_AUDIT_SESSION_def Let_def)

lemma audit_accept_logged: "approval_logged Accept l (audit_accept env tag details l)"
  unfolding audit_accept_def
  by (rule audit_event_logged) (metis append.assoc option.distinct(1) strip_suffix_append)

lemma declined_logged: "case declined env tag details l of (d, l') \<Rightarrow> approval_logged d l l'"
  unfolding declined_def audit_decline_def prod.case
  by (rule audit_event_logged) (metis append.assoc ApprovalDecision.distinct(1) denied_not_approved)

lemma escalate_logged: "case escalate_to_ui env tag ctx detail l of (d, l') \<Rightarrow> approval_logged d l l'"
proof -
  have "strip_suffix ''.approved'' ''codex.approval.timeout'' = None" by code_simp
  then have "approval_logged Decline l (audit_event env ''codex.approval.timeout'' details l)" for details
    by (intro audit_event_logged) simp
  then show ?thesis
    using declined_logged [where env = env and tag = tag and l = l]
    by (auto simp: escalate_to_ui_def audit_accept_logged split: ui_answer.splits bool.splits)
qed

text \<open> Every decision on a Codex request leaves exactly one entry as the newest of the audit buffer, in
  the session of approvals, and the entry says approved exactly when the request was approved. \<close>

theorem codex_decisions_are_audited:
  "case decide env rid meth params l of (d, l') \<Rightarrow> approval_logged d l l'"
  unfolding decide_def decide_command_def decide_file_change_def
  using declined_logged [where env = env and l = l] escalate_logged [where env = env and l = l]
    audit_accept_logged [where env = env and l = l]
  by (auto split: option.splits ApprovalKind.splits list.splits sum.splits PolicyVerdict.splits)

section \<open>Removing the root\<close>

definition flag_bundle :: "char set \<Rightarrow> string \<Rightarrow> bool" where
  "flag_bundle cs t \<longleftrightarrow>
     (\<exists>letters. t = CHR ''-'' # letters \<and> list_all ascii_alphabetic letters \<and> (\<exists>c \<in> set letters. c \<in> cs))"

text \<open>Recursion and force in any spelling, and a target that is the root or the home directory.\<close>

definition removes_root :: "string list \<Rightarrow> bool" where
  "removes_root args \<longleftrightarrow>
     (\<exists>t \<in> set args. t = ''--recursive'' \<or> flag_bundle {CHR ''r'', CHR ''R''} t) \<and>
     (\<exists>t \<in> set args. t = ''--force'' \<or> flag_bundle {CHR ''f'', CHR ''F''} t) \<and>
     (\<exists>t \<in> set args. t \<in> {''/'', ''/*'', ''~'', ''~/''})"

definition plain_wrappers :: "string list" where
  "plain_wrappers = [''sudo'', ''doas'', ''env'', ''nice'', ''nohup'', ''xargs'', ''stdbuf'', ''setsid'']"

definition rm_programs :: "string list" where
  "rm_programs = [''rm'', ''/bin/rm'', ''/usr/bin/rm'']"

lemma unquoted:
  assumes "t = [] \<or> \<not> is_quote (hd t)"
  shows "strip_surrounding_quotes t = t"
  using assms by (auto simp: strip_surrounding_quotes_def)

lemma alphabetic_lower:
  assumes "ascii_alphabetic c"
  shows "ascii_alphabetic (lower_ascii c)" and "lower_ascii c \<noteq> CHR ''-''"
proof -
  have "\<forall>c. ascii_alphabetic c \<longrightarrow> ascii_alphabetic (lower_ascii c) \<and> lower_ascii c \<noteq> CHR ''-''"
    by code_simp
  then show "ascii_alphabetic (lower_ascii c)" and "lower_ascii c \<noteq> CHR ''-''" using assms by auto
qed

lemma bundle_short:
  assumes "flag_bundle {c, d} t" and "lower_ascii c = e" and "lower_ascii d = e" and "lower_ascii e = e"
  shows "short_bundle_has (map lower_ascii t) e"
proof -
  obtain letters where t: "t = CHR ''-'' # letters" and alpha: "list_all ascii_alphabetic letters"
    and mem: "c \<in> set letters \<or> d \<in> set letters"
    using assms(1) by (auto simp: flag_bundle_def)
  obtain l ls where ls: "letters = l # ls" using mem by (cases letters) auto
  have "lower_ascii (CHR ''-'') = CHR ''-''" by code_simp
  moreover have "list_all ascii_alphabetic (map lower_ascii letters)"
    using alpha alphabetic_lower(1) by (auto simp: list_all_iff)
  moreover obtain x where "x \<in> set letters" "lower_ascii x = e" using mem assms(2,3) by auto
  then have "list_ex (\<lambda>x. lower_ascii x = lower_ascii e) (map lower_ascii letters)"
    by (auto simp: list_ex_iff)
  moreover have "lower_ascii l \<noteq> CHR ''-''" using alpha ls alphabetic_lower(2) by simp
  ultimately show ?thesis by (simp add: short_bundle_has_def t ls starts_with_def)
qed

lemma removes_rootE:
  assumes "removes_root args"
  obtains r f g where "r \<in> set args" "r = ''--recursive'' \<or> flag_bundle {CHR ''r'', CHR ''R''} r"
    "f \<in> set args" "f = ''--force'' \<or> flag_bundle {CHR ''f'', CHR ''F''} f"
    "g \<in> set args" "g \<in> {''/'', ''/*'', ''~'', ''~/''}"
    "strip_surrounding_quotes r = r" "strip_surrounding_quotes f = f" "strip_surrounding_quotes g = g"
proof -
  obtain r f g where *: "r \<in> set args" "r = ''--recursive'' \<or> flag_bundle {CHR ''r'', CHR ''R''} r"
    "f \<in> set args" "f = ''--force'' \<or> flag_bundle {CHR ''f'', CHR ''F''} f"
    "g \<in> set args" "g \<in> {''/'', ''/*'', ''~'', ''~/''}"
    using assms by (auto simp: removes_root_def)
  have dashed: "strip_surrounding_quotes t = t" if "flag_bundle cs t" for cs t
    using that by (auto simp: flag_bundle_def is_quote_def intro!: unquoted)
  have "strip_surrounding_quotes r = r" using *(2) dashed [of _ r] unquoted [of r] by (auto simp: is_quote_def)
  moreover have "strip_surrounding_quotes f = f" using *(4) dashed [of _ f] unquoted [of f] by (auto simp: is_quote_def)
  moreover have "strip_surrounding_quotes g = g" using *(6) by (auto simp: is_quote_def intro!: unquoted)
  ultimately show ?thesis using * that by blast
qed

lemma removes_root_rule:
  assumes "removes_root args" and "set args \<subseteq> set norm"
  shows "rm_rule norm joined"
proof -
  have letters: "lower_ascii CHR ''r'' = CHR ''r''" "lower_ascii CHR ''R'' = CHR ''r''"
    "lower_ascii CHR ''f'' = CHR ''f''" "lower_ascii CHR ''F'' = CHR ''f''"
    "map lower_ascii ''--recursive'' = ''--recursive''" "map lower_ascii ''--force'' = ''--force''"
    by code_simp+
  obtain r f g where *: "r \<in> set args" "r = ''--recursive'' \<or> flag_bundle {CHR ''r'', CHR ''R''} r"
    "f \<in> set args" "f = ''--force'' \<or> flag_bundle {CHR ''f'', CHR ''F''} f"
    "g \<in> set args" "g \<in> {''/'', ''/*'', ''~'', ''~/''}"
    using assms(1) by (rule removes_rootE)
  have "map lower_ascii r = ''--recursive'' \<or> short_bundle_has (map lower_ascii r) (CHR ''r'')"
    using *(2) bundle_short [OF _ letters(1,2,1)] letters(5) by metis
  moreover have "map lower_ascii f = ''--force'' \<or> short_bundle_has (map lower_ascii f) (CHR ''f'')"
    using *(4) bundle_short [OF _ letters(3,4,3)] letters(6) by metis
  moreover have "g = ''/'' \<or> g = ''/*'' \<or> g = ''~'' \<or> g = ''~/'' \<or> starts_with g ''/.''" using *(6) by blast
  moreover have "r \<in> set norm" "f \<in> set norm" "g \<in> set norm" using *(1,3,5) assms(2) by auto
  ultimately show ?thesis unfolding rm_rule_def Let_def list_ex_iff
    by (intro disjI1 conjI) (rule bexI [of _ r] bexI [of _ f] bexI [of _ g]; simp)+
qed

lemma removes_root_normal:
  assumes "removes_root args"
  shows "removes_root (map strip_surrounding_quotes args)"
proof -
  obtain r f g where *: "r \<in> set args" "r = ''--recursive'' \<or> flag_bundle {CHR ''r'', CHR ''R''} r"
    "f \<in> set args" "f = ''--force'' \<or> flag_bundle {CHR ''f'', CHR ''F''} f"
    "g \<in> set args" "g \<in> {''/'', ''/*'', ''~'', ''~/''}"
    "strip_surrounding_quotes r = r" "strip_surrounding_quotes f = f" "strip_surrounding_quotes g = g"
    using assms by (rule removes_rootE)
  have "r \<in> set (map strip_surrounding_quotes args)" "f \<in> set (map strip_surrounding_quotes args)"
    "g \<in> set (map strip_surrounding_quotes args)"
    using *(1,3,5,7-9) by (metis image_eqI list.set_map)+
  then show ?thesis using *(2,4,6) unfolding removes_root_def by blast
qed

lemma rm_is_dangerous:
  assumes "p \<in> set rm_programs" and "removes_root args"
  shows "is_dangerous_inner (p # args) d"
proof -
  have p: "strip_surrounding_quotes p = p" "program_basename_lower p = ''rm''"
    using assms(1) by (auto simp: rm_programs_def unquoted is_quote_def; code_simp)+
  have "rm_rule (p # map strip_surrounding_quotes args) joined" for joined
    by (rule removes_root_rule [OF removes_root_normal [OF assms(2)]]) auto
  then show ?thesis
    by (subst is_dangerous_inner.simps) (simp add: p plain_rules_def Let_def)
qed

text \<open>A word that a wrapper without options takes as the command.\<close>

definition command_word :: "string \<Rightarrow> bool" where
  "command_word w \<longleftrightarrow> w \<noteq> [] \<and> \<not> is_quote (hd w) \<and> \<not> starts_with w ''-'' \<and> \<not> env_assignment w"

lemma command_words:
  assumes "w \<in> set (plain_wrappers @ rm_programs @ SHELL_INTERPRETERS)"
  shows "command_word w"
proof -
  have "list_all command_word (plain_wrappers @ rm_programs @ SHELL_INTERPRETERS)" by code_simp
  then show ?thesis using assms by (simp add: list_all_iff)
qed

lemma skip_options_stop: "\<not> starts_with x ''-'' \<Longrightarrow> skip_wrapper_options short long (x # xs) = x # xs"
  by (auto simp: starts_with_def)

lemma plain_wrapper_payload:
  assumes "w \<in> set plain_wrappers" and "command_word x"
  shows "exec_wrapper_payload (w # x # xs) = Some (x # xs)"
proof -
  have x: "\<not> starts_with x ''-''" "\<not> env_assignment x" using assms(2) by (auto simp: command_word_def)
  then have "strip_prefix ''--split-string='' x = None" "x \<noteq> ''--''" "x \<noteq> ''-S''" "x \<noteq> ''--split-string''"
    by (auto simp: starts_with_def strip_prefix_def split: if_splits) (cases x; simp)+
  then have env: "env_wrapper_payload (x # xs) = Some (x # xs)" using x by (simp add: payload_from_def)
  have "list_all (\<lambda>w. program_basename_lower w = w \<and> w \<in> set EXEC_WRAPPERS \<and> w \<noteq> ''timeout'') plain_wrappers"
    by code_simp
  then have "program_basename_lower w = w" "w \<in> set EXEC_WRAPPERS" "w \<noteq> ''timeout''"
    using assms(1) by (auto simp: list_all_iff)
  then show ?thesis
    using assms(1) env skip_options_stop [OF x(1)]
    by (simp add: exec_wrapper_payload_def payload_from_def Let_def plain_wrappers_def) auto
qed

lemma wrapped_dangerous:
  assumes "set ws \<subseteq> set plain_wrappers" and "d + length ws \<le> MAX_WRAPPER_DEPTH" and "command_word x"
    and "\<And>as. R as \<Longrightarrow> is_dangerous_inner (x # as) (d + length ws)"
    and "\<And>as. R as \<Longrightarrow> R (map strip_surrounding_quotes as)" and "R args"
  shows "is_dangerous_inner (ws @ x # args) d"
  using assms(1,2,4,6)
proof (induction ws arbitrary: d args)
  case (Cons w ws)
  let ?rest = "ws @ x # map strip_surrounding_quotes args"
  have stable: "strip_surrounding_quotes v = v" if "command_word v" for v
    using that by (simp add: command_word_def unquoted)
  have words: "command_word v" if "v \<in> set (w # ws)" for v
    using that Cons.prems(1) command_words by auto
  have norm: "map strip_surrounding_quotes (w # ws @ x # args) = w # ?rest"
    using words stable assms(3) by (auto intro: map_idI)
  have "exec_wrapper_payload (w # ?rest) = Some ?rest"
    using plain_wrapper_payload [of w] words Cons.prems(1) assms(3) by (cases ws) auto
  moreover have "is_dangerous_inner ?rest (Suc d)"
    using Cons.IH [of "Suc d"] Cons.prems assms(5) by simp
  ultimately show ?case
    using norm Cons.prems(2) by (subst is_dangerous_inner.simps) (simp add: Let_def)
qed simp

lemma shell_is_dangerous:
  assumes "sh \<in> set SHELL_INTERPRETERS" and "is_command_flag f" and "strip_surrounding_quotes script = script"
    and "shell_split script = p # args" and "p \<in> set rm_programs" and "removes_root args"
    and "d < MAX_WRAPPER_DEPTH"
  shows "is_dangerous_inner [sh, f, script] d"
proof -
  have "strip_surrounding_quotes f = f"
    using assms(2) by (cases f) (auto simp: is_command_flag_def starts_with_def is_quote_def intro!: unquoted)
  moreover have sh: "strip_surrounding_quotes sh = sh"
    using command_words assms(1) by (auto simp: command_word_def unquoted)
  moreover have "list_all (\<lambda>s. program_basename_lower s = s) SHELL_INTERPRETERS" by code_simp
  then have "program_basename_lower sh = sh" using assms(1) by (simp add: list_all_iff)
  ultimately show ?thesis
    using assms rm_is_dangerous [OF assms(5,6)]
    by (subst is_dangerous_inner.simps) (simp add: Let_def inline_script_def)
qed


section \<open>An answer reaches its question\<close>

datatype 's hook_op = AskOp bool 's UiApprovalContext | AnswerOp u64 string

fun hook_step :: "'s approval_hook \<Rightarrow> 's hook_op \<Rightarrow> 's approval_hook" where
  "hook_step h (AskOp emitted asker ctx) = request_approval emitted asker ctx h"
| "hook_step h (AnswerOp rid decision) = snd (respond_codex_approval rid decision h)"

fun asked :: "'s hook_op list \<Rightarrow> (bool \<times> 's \<times> UiApprovalContext) list" where
  "asked [] = []"
| "asked (AskOp emitted asker ctx # ops) = (emitted, asker, ctx) # asked ops"
| "asked (AnswerOp _ _ # ops) = asked ops"

definition question :: "(bool \<times> 's \<times> UiApprovalContext) list \<Rightarrow> u64 \<Rightarrow> 's \<Rightarrow> UiApprovalContext \<Rightarrow> bool" where
  "question qs ui_id asker ctx \<longleftrightarrow>
     (\<exists>n < length qs. ui_id = of_nat (Suc n) \<and>
        (\<exists>c. qs ! n = (True, asker, c) \<and> ctx = c\<lparr>request_id := ui_id\<rparr>))"

definition hook_inv :: "(bool \<times> 's \<times> UiApprovalContext) list \<Rightarrow> 's approval_hook \<Rightarrow> bool" where
  "hook_inv qs h \<longleftrightarrow>
     next_ui_id h = of_nat (Suc (length qs)) \<and>
     (\<forall>i a. parked h i = Some a \<longrightarrow> (\<exists>c. (i, c) \<in> set (shown h) \<and> question qs i a c)) \<and>
     (\<forall>(i, c) \<in> set (shown h). \<exists>a. question qs i a c)"

lemma asked_append: "asked (xs @ ys) = asked xs @ asked ys"
  by (induction xs rule: asked.induct) auto

lemma question_extend: "question qs i a c \<Longrightarrow> question (qs @ [q]) i a c"
  unfolding question_def by (metis length_append_singleton less_SucI nth_append)

lemma question_new: "question (qs @ [(True, a, c)]) (of_nat (Suc (length qs))) a
    (c\<lparr>request_id := of_nat (Suc (length qs))\<rparr>)"
  by (auto simp: question_def intro!: exI [of _ "length qs"])

lemma question_unique:
  assumes "question qs i a c" and "question qs i b d" and "length qs < 2 ^ 64 - 1"
  shows "a = b \<and> c = d"
proof -
  obtain n m where "n < length qs" "i = of_nat (Suc n)" "\<exists>x. qs ! n = (True, a, x) \<and> c = x\<lparr>request_id := i\<rparr>"
    "m < length qs" "i = of_nat (Suc m)" "\<exists>x. qs ! m = (True, b, x) \<and> d = x\<lparr>request_id := i\<rparr>"
    using assms(1,2) by (auto simp: question_def)
  moreover have "unat (of_nat (Suc k) :: u64) = Suc k" if "k < length qs" for k
    using that assms(3) by (simp add: unat_of_nat del: of_nat_Suc)
  ultimately show ?thesis by (metis Pair_inject Suc_inject)
qed

lemma request_inv:
  assumes "hook_inv qs h"
  shows "hook_inv (qs @ [(emitted, a, ctx)]) (request_approval emitted a ctx h)"
proof -
  let ?i = "of_nat (Suc (length qs)) :: u64"
  have i: "next_ui_id h = ?i" and
    parked: "\<And>j b. parked h j = Some b \<Longrightarrow> \<exists>c. (j, c) \<in> set (shown h) \<and> question qs j b c" and
    shown: "\<And>j c. (j, c) \<in> set (shown h) \<Longrightarrow> \<exists>b. question qs j b c"
    using assms by (auto simp: hook_inv_def)
  let ?h = "request_approval emitted a ctx h" and ?qs = "qs @ [(emitted, a, ctx)]"
  have ext: "question ?qs j b c" if "question qs j b c" for j b c using that by (rule question_extend)
  have new: "question ?qs ?i a (ctx\<lparr>request_id := ?i\<rparr>)" if emitted
    using that question_new [of qs a ctx] by simp
  have "next_ui_id ?h = of_nat (Suc (length ?qs))" by (simp add: request_approval_def Let_def i add.commute)
  moreover have "\<exists>c. (j, c) \<in> set (shown ?h) \<and> question ?qs j b c" if "parked ?h j = Some b" for j b
  proof (cases "j = ?i")
    case True
    with that i have "emitted" "b = a" by (auto simp: request_approval_def Let_def split: if_splits)
    with True i new show ?thesis by (auto simp: request_approval_def Let_def)
  next
    case False
    with that i have "parked h j = Some b" by (auto simp: request_approval_def Let_def split: if_splits)
    with parked ext show ?thesis by (fastforce simp: request_approval_def Let_def)
  qed
  moreover have "\<exists>b. question ?qs j b c" if "(j, c) \<in> set (shown ?h)" for j c
    using that i shown [of j c] ext new by (auto simp: request_approval_def Let_def split: if_splits)
  ultimately show ?thesis unfolding hook_inv_def by blast
qed

lemma respond_inv:
  assumes "hook_inv qs h"
  shows "hook_inv qs (snd (respond_codex_approval rid decision h))"
  using assms by (auto simp: hook_inv_def respond_codex_approval_def split: option.splits)

lemma hook_run_inv: "hook_inv (asked ops) (foldl hook_step hook_new ops)"
proof (induction ops rule: rev_induct)
  case Nil
  show ?case by (simp add: hook_inv_def hook_new_def)
next
  case (snoc op ops)
  then show ?case by (cases op) (simp_all add: asked_append request_inv respond_inv)
qed

text \<open>
  As long as fewer than \<open>2 ^ 64 - 1\<close> questions were asked, an answer that is accepted for an id goes to the
  session whose question was shown under that id, and the same id is not accepted again.
\<close>

lemma answers_reach_their_question:
  assumes "length (asked ops) < 2 ^ 64 - 1"
    and "h = foldl hook_step hook_new ops" and "(rid, ctx) \<in> set (shown h)"
    and "respond_codex_approval rid decision h = (Inr (), h')"
  shows "\<exists>asker. question (asked ops) rid asker ctx \<and>
    answers h' = answers h @ [(asker, decision = ''accept'')] \<and>
    (\<exists>e. respond_codex_approval rid again h' = (Inl e, h'))"
proof -
  have inv: "hook_inv (asked ops) h" using hook_run_inv assms(2) by metis
  obtain a where a: "parked h rid = Some a"
    "h' = h\<lparr>parked := (parked h)(rid := None), answers := answers h @ [(a, decision = ''accept'')]\<rparr>"
    using assms(4) by (auto simp: respond_codex_approval_def decision_to_bool_def split: option.splits)
  obtain c where "question (asked ops) rid a c" using inv a(1) by (fastforce simp: hook_inv_def)
  moreover obtain b where "question (asked ops) rid b ctx" using inv assms(3) by (fastforce simp: hook_inv_def)
  ultimately have "question (asked ops) rid a ctx" using question_unique assms(1) by metis
  then show ?thesis using a(2) by (auto simp: respond_codex_approval_def)
qed

section \<open>Samples\<close>

definition command_method :: string where
  "command_method = ''item/commandExecution/requestApproval''"

definition sample_approval :: "bool \<Rightarrow> approval_env" where
  "sample_approval yes =
     \<lparr>policy_port = policy_client_port sample_client, ask_user = \<lambda>_. Answered yes, ui_timeout_ms = 30000,
      show_count = \<lambda>_. ''n'', event_id = ''e'',
      approval_log = \<lparr>fresh_id = ''i'', log_time = 0, sanitize = id\<rparr>\<rparr>"

definition argv_request :: "string list \<Rightarrow> json" where
  "argv_request argv = JObj [(''argv'', JArr (map JStr argv))]"

lemma sample_parsed:
  "parse_request command_method (JObj [(''command'', JStr ''git status'')]) =
     Some (CommandExecution [''git'', ''status''] None None False)"
  by code_simp

lemma sample_git_safe: "\<not> is_dangerous [''git'', ''status'']"
  by code_simp



section \<open>What the screen does not see\<close>

text \<open>
  A fourth wrapper, an assignment after \<open>sudo\<close> and a second command of a script hide the removal of the
  root, and a request for the network without a policy is put to the user, whose answer approves it.
\<close>

lemma hidden_root_removals:
  "\<not> is_dangerous [''sudo'', ''env'', ''nice'', ''nohup'', ''rm'', ''-rf'', ''/'']"
  "\<not> is_dangerous [''sudo'', ''X=1'', ''rm'', ''-rf'', ''/'']"
  "\<not> is_dangerous [''bash'', ''-c'', ''true; rm -rf /'']"
  by code_simp+

lemma network_request_approved_by_user:
  "fst (decide (sample_approval True) 1 command_method
     (JObj [(''command'', JStr ''nc host 80''), (''networkApprovalContext'', JNull)]) default_logger) = Accept"
proof -
  have "parse_request command_method
     (JObj [(''command'', JStr ''nc host 80''), (''networkApprovalContext'', JNull)]) =
     Some (CommandExecution [''nc'', ''host'', ''80''] None None True)"
    and "\<not> is_dangerous [''nc'', ''host'', ''80'']"
    by code_simp+
  moreover have "verdict_for ''nc'' [''host'', ''80''] sample_client = VerdictNoMatch"
    by (simp add: verdict_for_def get_policy_for_process_def sample_client_def sample_policy_def)
  ultimately show ?thesis
    by (simp add: decide_def decide_command_def sample_approval_def policy_client_port_def escalate_to_ui_def)
qed

end
