(* ===== verification/Ai_Provider.thy ===== *)
theory Ai_Provider
  imports Complex_Main Permission_Profile
begin

text \<open>
  The AI provider section of the configuration (\<open>maekon-core/src/config/sections/ai.rs\<close>,
  \<open>ai_validation.rs\<close>), the provider surfaces (\<open>provider_surface.rs\<close>) and the lifecycle of models
  (\<open>ai_model_lifecycle_policy/\<close>): which remote endpoints a configuration may select, and until when.

  The catalogues are files embedded at compile time; what parsing them gives is the argument
  \<open>AiCatalog\<close>, with the RFC 3339 parser of chrono. A floating-point number is its rational value,
  \<open>None\<close> when it is not finite. An error carries the dotted name of the field its message names.
\<close>

section \<open>Data\<close>

datatype ConfigCode = CodeInvalid | CodeMissing | CodeOutOfRange | CodeSchemaTooNew

datatype ConfigFailure =
    ConfigError ConfigCode string
  | ModelDenied string
  | CatalogError string

datatype AiAccessMode = ProviderApiKey | LocalModel | ProviderSubscriptionCli | ProviderOAuth

datatype AiProviderType = Anthropic | OpenAi | Google | Ollama | Bedrock | Copilot | Generic

datatype OcrProviderType = OcrLocal | OcrRemote

datatype LlmProviderType = LlmLocal | LlmRemote

datatype ProviderSurfaceTransport = DirectApi | ManagedOAuth | SubprocessCli

record ProviderSurfaceProjection =
  surface_spec_id :: string
  surface_vendor_id :: string
  surface_provider_type :: AiProviderType
  surface_transport :: ProviderSurfaceTransport
  supports_llm :: bool
  supports_ocr :: bool
  uses_no_auth :: bool

record ProviderVendorInfo =
  vendor_id :: string
  vendor_provider_type :: AiProviderType
  vendor_aliases :: "string list"

datatype ModelLifecycleAction = WarnOnly | WarnThenBlock | BlockModel

record ModelLifecycleRule =
  rule_provider_type :: string
  rule_surface_id :: "string option"
  rule_model :: string
  rule_warn_at :: "string option"
  rule_block_at :: "string option"
  rule_action :: ModelLifecycleAction

record AiCatalog =
  surface_catalog :: "ProviderSurfaceProjection list option"
  vendor_catalog :: "ProviderVendorInfo list option"
  lifecycle_json :: "ModelLifecycleRule list option"
  parse_rfc3339 :: "string \<Rightarrow> instant option"

datatype CredentialAuthMode = AuthApiKey | AuthManagedOAuth | AuthCliBridge

record CredentialBinding =
  auth_mode :: CredentialAuthMode
  secret_ref :: "(string \<times> string) option"

record ExternalApiEndpoint =
  ep_endpoint :: string
  ep_api_key :: string
  ep_model :: "string option"
  ep_timeout_secs :: u64
  ep_provider_type :: AiProviderType
  ep_surface_id :: "string option"
  ep_credential :: "CredentialBinding option"

record OcrValidationConfig =
  ocr_validation_enabled :: bool
  ocr_min_confidence :: "rat option"
  ocr_max_invalid_ratio :: "rat option"

record SceneActionOverrideConfig =
  override_enabled :: bool
  override_reason :: "string option"
  override_approved_by :: "string option"
  override_expires_at :: "instant option"

record SceneIntelligenceConfig =
  scene_min_confidence :: "rat option"
  scene_max_elements :: u64
  calibration_min_elements :: u64
  calibration_min_avg_confidence :: "rat option"

record AiProviderConfig =
  access_mode :: AiAccessMode
  ocr_provider :: OcrProviderType
  llm_provider :: LlmProviderType
  ocr_api :: "ExternalApiEndpoint option"
  llm_api :: "ExternalApiEndpoint option"
  llm_api_fallback :: "ExternalApiEndpoint option"
  bypass_pii_filter_for_external_ocr :: bool
  ocr_validation :: OcrValidationConfig
  scene_action_override :: SceneActionOverrideConfig
  scene_intelligence :: SceneIntelligenceConfig

definition default_ai_provider :: AiProviderConfig where
  "default_ai_provider =
     \<lparr>access_mode = ProviderApiKey, ocr_provider = OcrLocal, llm_provider = LlmLocal, ocr_api = None,
      llm_api = None, llm_api_fallback = None, bypass_pii_filter_for_external_ocr = False,
      ocr_validation = \<lparr>ocr_validation_enabled = True, ocr_min_confidence = Some (1 / 4),
                         ocr_max_invalid_ratio = Some (6 / 10)\<rparr>,
      scene_action_override = \<lparr>override_enabled = False, override_reason = None,
                                override_approved_by = None, override_expires_at = None\<rparr>,
      scene_intelligence = \<lparr>scene_min_confidence = Some (35 / 100), scene_max_elements = 120,
                             calibration_min_elements = 8,
                             calibration_min_avg_confidence = Some (55 / 100)\<rparr>\<rparr>"

section \<open>Provider surfaces\<close>

definition provider_surface_spec :: "AiCatalog \<Rightarrow> string \<Rightarrow> ProviderSurfaceProjection option" where
  "provider_surface_spec cat raw =
     (case surface_catalog cat of
        None \<Rightarrow> None
      | Some specs \<Rightarrow>
          List.find (\<lambda>spec. eq_ignore_ascii_case (surface_spec_id spec) (map lower_ascii (trim raw))) specs)"

definition canonical_provider_surface_id :: "AiCatalog \<Rightarrow> string \<Rightarrow> string option" where
  "canonical_provider_surface_id cat raw = map_option surface_spec_id (provider_surface_spec cat raw)"

definition provider_surface_supports_llm :: "AiCatalog \<Rightarrow> string \<Rightarrow> bool" where
  "provider_surface_supports_llm cat raw =
     (case provider_surface_spec cat raw of None \<Rightarrow> False | Some spec \<Rightarrow> supports_llm spec)"

definition provider_surface_supports_ocr :: "AiCatalog \<Rightarrow> string \<Rightarrow> bool" where
  "provider_surface_supports_ocr cat raw =
     (case provider_surface_spec cat raw of None \<Rightarrow> False | Some spec \<Rightarrow> supports_ocr spec)"

definition provider_surface_uses_no_auth :: "AiCatalog \<Rightarrow> string \<Rightarrow> bool" where
  "provider_surface_uses_no_auth cat raw =
     (case provider_surface_spec cat raw of None \<Rightarrow> False | Some spec \<Rightarrow> uses_no_auth spec)"

definition vendor_info_from_vendor_id :: "AiCatalog \<Rightarrow> string \<Rightarrow> ProviderVendorInfo option" where
  "vendor_info_from_vendor_id cat raw =
     (let normalized = map lower_ascii (trim raw)
      in if normalized = [] then None
         else (case vendor_catalog cat of
                 None \<Rightarrow> None
               | Some vendors \<Rightarrow>
                   List.find (\<lambda>v. eq_ignore_ascii_case (vendor_id v) normalized \<or>
                                   list_ex (\<lambda>a. eq_ignore_ascii_case a normalized) (vendor_aliases v))
                     vendors))"

definition provider_type_from_vendor_id :: "AiCatalog \<Rightarrow> string \<Rightarrow> AiProviderType option" where
  "provider_type_from_vendor_id cat raw =
     map_option vendor_provider_type (vendor_info_from_vendor_id cat raw)"

definition canonical_vendor_id :: "AiCatalog \<Rightarrow> string \<Rightarrow> string option" where
  "canonical_vendor_id cat raw = map_option vendor_id (vendor_info_from_vendor_id cat raw)"

section \<open>Model lifecycle\<close>

datatype ModelLifecycleDecision = ModelAllowed | ModelWarn | ModelBlock

definition parse_utc_opt :: "AiCatalog \<Rightarrow> string option \<Rightarrow> ConfigFailure + instant option" where
  "parse_utc_opt cat raw =
     (case raw of
        None \<Rightarrow> Inr None
      | Some r \<Rightarrow>
          if trim r = [] then Inr None
          else (case parse_rfc3339 cat (trim r) of
                  None \<Rightarrow> Inl (CatalogError (trim r))
                | Some t \<Rightarrow> Inr (Some t)))"

definition provider_rule_matches ::
  "AiCatalog \<Rightarrow> AiProviderType \<Rightarrow> string option \<Rightarrow> ModelLifecycleRule \<Rightarrow> bool" where
  "provider_rule_matches cat ptype sid rule =
     (case rule_surface_id rule of
        Some rsid \<Rightarrow>
          (case canonical_provider_surface_id cat rsid of
             None \<Rightarrow> False
           | Some expected \<Rightarrow>
               (case Option.bind sid (canonical_provider_surface_id cat) of
                  None \<Rightarrow> False
                | Some actual \<Rightarrow> expected = actual))
      | None \<Rightarrow>
          if provider_type_from_vendor_id cat (rule_provider_type rule) \<noteq> Some ptype then False
          else if ptype = Generic
          then (case canonical_vendor_id cat (rule_provider_type rule) of
                  None \<Rightarrow> False
                | Some rv \<Rightarrow>
                    (case map_option surface_vendor_id (Option.bind sid (provider_surface_spec cat)) of
                       None \<Rightarrow> False
                     | Some cv \<Rightarrow> eq_ignore_ascii_case rv cv))
          else True)"

fun validate_policy_catalog :: "AiCatalog \<Rightarrow> ModelLifecycleRule list \<Rightarrow> ConfigFailure + unit" where
  "validate_policy_catalog cat [] = Inr ()"
| "validate_policy_catalog cat (rule # rules) =
     (if provider_type_from_vendor_id cat (rule_provider_type rule) = None
      then Inl (CatalogError (rule_provider_type rule))
      else if (case rule_surface_id rule of
                 None \<Rightarrow> False
               | Some sid \<Rightarrow> canonical_provider_surface_id cat sid = None)
      then Inl (CatalogError (the (rule_surface_id rule)))
      else if trim (rule_model rule) = [] then Inl (CatalogError ''model'')
      else (case parse_utc_opt cat (rule_warn_at rule) of
              Inl e \<Rightarrow> Inl e
            | Inr warn \<Rightarrow>
                (case parse_utc_opt cat (rule_block_at rule) of
                   Inl e \<Rightarrow> Inl e
                 | Inr block \<Rightarrow>
                     if (case (warn, block) of (Some w, Some b) \<Rightarrow> w > b | _ \<Rightarrow> False)
                     then Inl (CatalogError (rule_model rule))
                     else validate_policy_catalog cat rules)))"

definition policy_catalog :: "AiCatalog \<Rightarrow> ConfigFailure + ModelLifecycleRule list" where
  "policy_catalog cat =
     (case lifecycle_json cat of
        None \<Rightarrow> Inl (CatalogError ''json'')
      | Some rules \<Rightarrow>
          (case validate_policy_catalog cat rules of Inl e \<Rightarrow> Inl e | Inr _ \<Rightarrow> Inr rules))"

definition due :: "instant \<Rightarrow> instant option \<Rightarrow> bool" where
  "due now deadline = (case deadline of None \<Rightarrow> False | Some t \<Rightarrow> now \<ge> t)"

definition rule_decision ::
  "ModelLifecycleAction \<Rightarrow> instant option \<Rightarrow> instant option \<Rightarrow> instant \<Rightarrow> ModelLifecycleDecision" where
  "rule_decision action warn_at block_at now =
     (case action of
        WarnOnly \<Rightarrow> if due now warn_at then ModelWarn else ModelAllowed
      | WarnThenBlock \<Rightarrow>
          if due now block_at then ModelBlock
          else if due now warn_at then ModelWarn
          else ModelAllowed
      | BlockModel \<Rightarrow> if block_at = None \<or> due now block_at then ModelBlock else ModelAllowed)"

definition evaluate_model_lifecycle ::
  "AiCatalog \<Rightarrow> AiProviderType \<Rightarrow> string option \<Rightarrow> string \<Rightarrow> instant \<Rightarrow>
   ConfigFailure + ModelLifecycleDecision" where
  "evaluate_model_lifecycle cat ptype sid model now =
     (if trim model = [] then Inr ModelAllowed
      else (case policy_catalog cat of
              Inl e \<Rightarrow> Inl e
            | Inr rules \<Rightarrow>
                (case List.find (\<lambda>r. provider_rule_matches cat ptype sid r \<and>
                                      eq_ignore_ascii_case (trim (rule_model r)) (trim model)) rules of
                   None \<Rightarrow> Inr ModelAllowed
                 | Some rule \<Rightarrow>
                     (case parse_utc_opt cat (rule_warn_at rule) of
                        Inl e \<Rightarrow> Inl e
                      | Inr warn_at \<Rightarrow>
                          (case parse_utc_opt cat (rule_block_at rule) of
                             Inl e \<Rightarrow> Inl e
                           | Inr block_at \<Rightarrow>
                               Inr (rule_decision (rule_action rule) warn_at block_at now))))))"

definition reject_blocked_model ::
  "AiCatalog \<Rightarrow> instant \<Rightarrow> ExternalApiEndpoint \<Rightarrow> ConfigFailure + unit" where
  "reject_blocked_model cat now ep =
     (case ep_model ep of
        None \<Rightarrow> Inr ()
      | Some m \<Rightarrow>
          if trim m = [] then Inr ()
          else (case evaluate_model_lifecycle cat (ep_provider_type ep) (ep_surface_id ep) (trim m) now of
                  Inl e \<Rightarrow> Inl e
                | Inr ModelBlock \<Rightarrow> Inl (ModelDenied (trim m))
                | Inr _ \<Rightarrow> Inr ()))"

section \<open>Endpoints\<close>

definition is_loopback :: "IpAddr \<Rightarrow> bool" where
  "is_loopback ip = (case ip of V4 a b c d \<Rightarrow> is_loopback4 (a, b, c, d) | V6 gs \<Rightarrow> is_loopback6 gs)"

definition authority_host :: "string \<Rightarrow> string option" where
  "authority_host rest =
     (let authority = takeWhile (\<lambda>c. c \<notin> {CHR ''/'', CHR ''?'', CHR ''#''}) rest;
          host_port = after_last (CHR ''@'') authority
      in case strip_prefix ''['' host_port of
           Some after_bracket \<Rightarrow> map_option fst (split_once_at '']'' after_bracket)
         | None \<Rightarrow> Some (takeWhile (\<lambda>c. c \<noteq> CHR '':'') host_port))"

definition endpoint_is_confident_remote_ip :: "string \<Rightarrow> bool" where
  "endpoint_is_confident_remote_ip url =
     (case split_once_at ''://'' url of
        None \<Rightarrow> False
      | Some (_, rest) \<Rightarrow>
          (case authority_host rest of
             None \<Rightarrow> False
           | Some host \<Rightarrow>
               (case parse_ip (trim host) of None \<Rightarrow> False | Some ip \<Rightarrow> \<not> is_loopback ip)))"

text \<open>The checks on the URL that both validators of HTTP endpoints make.\<close>

definition check_endpoint_url :: "string \<Rightarrow> string \<Rightarrow> ConfigFailure + unit" where
  "check_endpoint_url field url =
     (if url = [] then Inl (ConfigError CodeMissing (field @ ''.endpoint''))
      else if \<not> (starts_with url ''http://'' \<or> starts_with url ''https://'')
      then Inl (ConfigError CodeInvalid (field @ ''.endpoint''))
      else if starts_with url ''http://'' \<and> endpoint_is_confident_remote_ip url
      then Inl (ConfigError CodeInvalid (field @ ''.endpoint''))
      else Inr ())"

definition has_api_key_binding :: "ExternalApiEndpoint \<Rightarrow> bool" where
  "has_api_key_binding ep =
     (case ep_credential ep of
        None \<Rightarrow> False
      | Some b \<Rightarrow> auth_mode b = AuthApiKey \<and> secret_ref b \<noteq> None)"

definition requires_plaintext_api_key :: "AiCatalog \<Rightarrow> ExternalApiEndpoint \<Rightarrow> bool" where
  "requires_plaintext_api_key cat ep =
     (case ep_surface_id ep of
        None \<Rightarrow> True
      | Some sid \<Rightarrow> \<not> provider_surface_uses_no_auth cat sid)"

definition validate_remote_endpoint ::
  "AiCatalog \<Rightarrow> instant \<Rightarrow> ExternalApiEndpoint option \<Rightarrow> string \<Rightarrow> ConfigFailure + unit" where
  "validate_remote_endpoint cat now endpoint field =
     (case endpoint of
        None \<Rightarrow> Inl (ConfigError CodeMissing field)
      | Some ep \<Rightarrow>
          (case check_endpoint_url field (trim (ep_endpoint ep)) of
             Inl e \<Rightarrow> Inl e
           | Inr _ \<Rightarrow>
               if requires_plaintext_api_key cat ep \<and> trim (ep_api_key ep) = [] \<and>
                  \<not> has_api_key_binding ep
               then Inl (ConfigError CodeMissing (field @ ''.api_key''))
               else if ep_timeout_secs ep = 0
               then Inl (ConfigError CodeOutOfRange (field @ ''.timeout_secs''))
               else reject_blocked_model cat now ep))"

definition validate_local_model_ollama_endpoint ::
  "AiCatalog \<Rightarrow> instant \<Rightarrow> ExternalApiEndpoint option \<Rightarrow> string \<Rightarrow> ConfigFailure + unit" where
  "validate_local_model_ollama_endpoint cat now endpoint field =
     (case endpoint of
        None \<Rightarrow> Inr ()
      | Some ep \<Rightarrow>
          (case check_endpoint_url field (trim (ep_endpoint ep)) of
             Inl e \<Rightarrow> Inl e
           | Inr _ \<Rightarrow>
               if ep_timeout_secs ep = 0
               then Inl (ConfigError CodeOutOfRange (field @ ''.timeout_secs''))
               else reject_blocked_model cat now ep))"

text \<open>A field that is present and not blank, trimmed.\<close>

definition nonblank :: "string option \<Rightarrow> string option" where
  "nonblank v = (case v of None \<Rightarrow> None | Some s \<Rightarrow> if trim s = [] then None else Some (trim s))"

definition validate_non_http_surface_endpoint ::
  "AiCatalog \<Rightarrow> instant \<Rightarrow> ExternalApiEndpoint option \<Rightarrow> string \<Rightarrow> ProviderSurfaceTransport \<Rightarrow>
   (string \<Rightarrow> bool) \<Rightarrow> ConfigFailure + unit" where
  "validate_non_http_surface_endpoint cat now endpoint field expected capability_check =
     (case endpoint of
        None \<Rightarrow> Inl (ConfigError CodeMissing field)
      | Some ep \<Rightarrow>
          (case nonblank (ep_surface_id ep) of
             None \<Rightarrow> Inl (ConfigError CodeMissing (field @ ''.surface_id''))
           | Some sid \<Rightarrow>
               (case provider_surface_spec cat sid of
                  None \<Rightarrow> Inl (ConfigError CodeInvalid (field @ ''.surface_id''))
                | Some spec \<Rightarrow>
                    if surface_provider_type spec \<noteq> ep_provider_type ep \<or>
                       surface_transport spec \<noteq> expected \<or> \<not> capability_check sid
                    then Inl (ConfigError CodeInvalid (field @ ''.surface_id''))
                    else reject_blocked_model cat now ep)))"

text \<open>
  \<open>validate_subprocess_or_remote_endpoint\<close> and \<open>validate_managed_or_remote_endpoint\<close> have the same
  body.
\<close>

definition validate_surface_or_remote_endpoint ::
  "AiCatalog \<Rightarrow> instant \<Rightarrow> ExternalApiEndpoint option \<Rightarrow> string \<Rightarrow> ProviderSurfaceTransport \<Rightarrow>
   (string \<Rightarrow> bool) \<Rightarrow> ConfigFailure + unit" where
  "validate_surface_or_remote_endpoint cat now endpoint field managed capability_check =
     (case endpoint of
        None \<Rightarrow> Inl (ConfigError CodeMissing field)
      | Some ep \<Rightarrow>
          if (case Option.bind (nonblank (ep_surface_id ep)) (provider_surface_spec cat) of
                None \<Rightarrow> False
              | Some surface \<Rightarrow> surface_transport surface = managed)
          then validate_non_http_surface_endpoint cat now (Some ep) field managed capability_check
          else validate_remote_endpoint cat now (Some ep) field)"

section \<open>The section\<close>

definition unit_interval :: "rat option \<Rightarrow> bool" where
  "unit_interval v = (case v of None \<Rightarrow> False | Some x \<Rightarrow> 0 \<le> x \<and> x \<le> 1)"

definition validate_ocr :: "OcrValidationConfig \<Rightarrow> ConfigFailure + unit" where
  "validate_ocr c =
     (if \<not> ocr_validation_enabled c then Inr ()
      else if \<not> unit_interval (ocr_min_confidence c)
      then Inl (ConfigError CodeOutOfRange ''ai_provider.ocr_validation.min_confidence'')
      else if \<not> unit_interval (ocr_max_invalid_ratio c)
      then Inl (ConfigError CodeOutOfRange ''ai_provider.ocr_validation.max_invalid_ratio'')
      else Inr ())"

definition is_active_at :: "SceneActionOverrideConfig \<Rightarrow> instant \<Rightarrow> bool" where
  "is_active_at c now \<longleftrightarrow>
     override_enabled c \<and> nonblank (override_reason c) \<noteq> None \<and>
     nonblank (override_approved_by c) \<noteq> None \<and>
     (case override_expires_at c of None \<Rightarrow> False | Some t \<Rightarrow> t > now)"

definition validate_override :: "instant \<Rightarrow> SceneActionOverrideConfig \<Rightarrow> ConfigFailure + unit" where
  "validate_override now c =
     (if \<not> override_enabled c then Inr ()
      else if nonblank (override_reason c) = None
      then Inl (ConfigError CodeMissing ''ai_provider.scene_action_override.reason'')
      else if nonblank (override_approved_by c) = None
      then Inl (ConfigError CodeMissing ''ai_provider.scene_action_override.approved_by'')
      else (case override_expires_at c of
              None \<Rightarrow> Inl (ConfigError CodeMissing ''ai_provider.scene_action_override.expires_at'')
            | Some t \<Rightarrow>
                if t \<le> now
                then Inl (ConfigError CodeInvalid ''ai_provider.scene_action_override.expires_at'')
                else Inr ()))"

definition validate_scene :: "SceneIntelligenceConfig \<Rightarrow> ConfigFailure + unit" where
  "validate_scene c =
     (if \<not> unit_interval (scene_min_confidence c)
      then Inl (ConfigError CodeOutOfRange ''ai_provider.scene_intelligence.min_confidence'')
      else if scene_max_elements c = 0 \<or> scene_max_elements c > 1000
      then Inl (ConfigError CodeOutOfRange ''ai_provider.scene_intelligence.max_elements'')
      else if calibration_min_elements c = 0 \<or> calibration_min_elements c > 1000
      then Inl (ConfigError CodeOutOfRange ''ai_provider.scene_intelligence.calibration_min_elements'')
      else if \<not> unit_interval (calibration_min_avg_confidence c)
      then Inl (ConfigError CodeOutOfRange
                  ''ai_provider.scene_intelligence.calibration_min_avg_confidence'')
      else Inr ())"

text \<open>The operator \<open>?\<close> between checks that return nothing.\<close>

definition then_check :: "'e + unit \<Rightarrow> 'e + unit \<Rightarrow> 'e + unit" where
  "then_check a b = (case a of Inl e \<Rightarrow> Inl e | Inr _ \<Rightarrow> b)"

definition validate_selected_remote_endpoints ::
  "AiCatalog \<Rightarrow> instant \<Rightarrow> AiProviderConfig \<Rightarrow> ConfigFailure + unit" where
  "validate_selected_remote_endpoints cat now c =
     then_check (validate_ocr (ocr_validation c))
    (then_check (validate_override now (scene_action_override c))
    (then_check (validate_scene (scene_intelligence c))
     (case access_mode c of
        ProviderApiKey \<Rightarrow>
          then_check
            (if ocr_provider c = OcrRemote
             then validate_remote_endpoint cat now (ocr_api c) ''ocr_api'' else Inr ())
            (if llm_provider c = LlmRemote
             then validate_remote_endpoint cat now (llm_api c) ''llm_api'' else Inr ())
      | LocalModel \<Rightarrow>
          (if (case llm_api c of None \<Rightarrow> False | Some ep \<Rightarrow> ep_provider_type ep = Ollama)
           then validate_local_model_ollama_endpoint cat now (llm_api c) ''llm_api'' else Inr ())
      | ProviderSubscriptionCli \<Rightarrow>
          then_check
            (if ocr_provider c = OcrRemote
             then validate_surface_or_remote_endpoint cat now (ocr_api c) ''ocr_api'' SubprocessCli
                    (provider_surface_supports_ocr cat) else Inr ())
            (if llm_provider c = LlmRemote
             then validate_non_http_surface_endpoint cat now (llm_api c) ''llm_api'' SubprocessCli
                    (provider_surface_supports_llm cat) else Inr ())
      | ProviderOAuth \<Rightarrow>
          then_check
            (if llm_provider c = LlmRemote
             then validate_surface_or_remote_endpoint cat now (llm_api c) ''llm_api'' ManagedOAuth
                    (provider_surface_supports_llm cat) else Inr ())
            (if ocr_provider c = OcrRemote
             then validate_surface_or_remote_endpoint cat now (ocr_api c) ''ocr_api'' ManagedOAuth
                    (provider_surface_supports_ocr cat) else Inr ()))))"


section \<open>Properties\<close>

lemma then_check_Inr [simp]: "then_check a b = Inr () \<longleftrightarrow> a = Inr () \<and> b = Inr ()"
  by (auto simp: then_check_def split: sum.splits)

lemma then_check_units [simp]: "then_check (Inr ()) b = b"
  by (simp add: then_check_def)

text \<open>A model that is blocked stays blocked, so a check that passes would have passed before.\<close>

lemma due_mono: "due now t \<Longrightarrow> now \<le> later \<Longrightarrow> due later t"
  by (auto simp: due_def split: option.splits)

lemma rule_block_mono:
  "rule_decision a w b now = ModelBlock \<Longrightarrow> now \<le> later \<Longrightarrow> rule_decision a w b later = ModelBlock"
  by (cases a) (auto simp: rule_decision_def due_mono split: if_splits)

lemma block_persists:
  assumes "evaluate_model_lifecycle cat ptype sid model now = Inr ModelBlock" and "now \<le> later"
  shows "evaluate_model_lifecycle cat ptype sid model later = Inr ModelBlock"
  using assms(1) rule_block_mono [OF _ assms(2)]
  by (auto simp: evaluate_model_lifecycle_def split: sum.splits option.splits if_splits)

lemma lifecycle_error_timeless:
  "evaluate_model_lifecycle cat ptype sid model now = Inl e \<longleftrightarrow>
   evaluate_model_lifecycle cat ptype sid model later = Inl e"
  by (auto simp: evaluate_model_lifecycle_def split: sum.splits option.splits)

lemma reject_blocked_model_earlier:
  assumes "reject_blocked_model cat later ep = Inr ()" and "now \<le> later"
  shows "reject_blocked_model cat now ep = Inr ()"
proof (cases "nonblank (ep_model ep)")
  case None
  then show ?thesis by (auto simp: reject_blocked_model_def nonblank_def split: option.splits if_splits)
next
  case (Some m)
  then obtain s where s: "ep_model ep = Some s" "trim s \<noteq> []" "m = trim s"
    by (auto simp: nonblank_def split: option.splits if_splits)
  let ?at = "evaluate_model_lifecycle cat (ep_provider_type ep) (ep_surface_id ep) m"
  obtain d where "?at later = Inr d" "d \<noteq> ModelBlock"
    using assms(1) s by (auto simp: reject_blocked_model_def split: sum.splits ModelLifecycleDecision.splits)
  then obtain d' where "?at now = Inr d'" "d' \<noteq> ModelBlock"
    using lifecycle_error_timeless [of cat _ _ m now _ later] block_persists [OF _ assms(2)]
    by (metis sum.exhaust sum.inject(2) sum.distinct(1))
  then show ?thesis
    using s by (cases d') (simp_all add: reject_blocked_model_def)
qed

lemma validate_remote_earlier:
  "validate_remote_endpoint cat later ep f = Inr () \<Longrightarrow> now \<le> later \<Longrightarrow>
     validate_remote_endpoint cat now ep f = Inr ()"
  using reject_blocked_model_earlier [of cat later "the ep" now]
  by (cases ep) (auto simp: validate_remote_endpoint_def split: option.splits sum.splits if_splits)

lemma validate_ollama_earlier:
  "validate_local_model_ollama_endpoint cat later ep f = Inr () \<Longrightarrow> now \<le> later \<Longrightarrow>
     validate_local_model_ollama_endpoint cat now ep f = Inr ()"
  using reject_blocked_model_earlier [of cat later "the ep" now]
  by (cases ep) (auto simp: validate_local_model_ollama_endpoint_def split: option.splits sum.splits if_splits)

lemma validate_non_http_earlier:
  "validate_non_http_surface_endpoint cat later ep f tr chk = Inr () \<Longrightarrow> now \<le> later \<Longrightarrow>
     validate_non_http_surface_endpoint cat now ep f tr chk = Inr ()"
  using reject_blocked_model_earlier [of cat later "the ep" now]
  by (cases ep) (auto simp: validate_non_http_surface_endpoint_def split: option.splits if_splits)

lemma validate_surface_earlier:
  "validate_surface_or_remote_endpoint cat later ep f tr chk = Inr () \<Longrightarrow> now \<le> later \<Longrightarrow>
     validate_surface_or_remote_endpoint cat now ep f tr chk = Inr ()"
  using validate_remote_earlier [of cat later ep f now]
    validate_non_http_earlier [of cat later ep f tr chk now]
  by (cases ep) (simp_all add: validate_surface_or_remote_endpoint_def split: if_splits)

lemma validate_override_earlier:
  "validate_override later c = Inr () \<Longrightarrow> now \<le> later \<Longrightarrow> validate_override now c = Inr ()"
  by (auto simp: validate_override_def split: option.splits if_splits)

text \<open>Time only takes validity away: what is valid later is valid now.\<close>

lemma selected_endpoints_earlier:
  assumes "validate_selected_remote_endpoints cat later c = Inr ()" and "now \<le> later"
  shows "validate_selected_remote_endpoints cat now c = Inr ()"
  using assms validate_remote_earlier [OF _ assms(2)] validate_ollama_earlier [OF _ assms(2)]
    validate_surface_earlier [OF _ assms(2)] validate_non_http_earlier [OF _ assms(2)]
    validate_override_earlier [OF _ assms(2)]
  by (auto simp: validate_selected_remote_endpoints_def split: AiAccessMode.splits if_splits)

text \<open>What the check of an HTTP endpoint gives.\<close>

definition endpoint_sound :: "AiCatalog \<Rightarrow> instant \<Rightarrow> ExternalApiEndpoint \<Rightarrow> bool" where
  "endpoint_sound cat now ep \<longleftrightarrow>
     (starts_with (trim (ep_endpoint ep)) ''https://'' \<or>
      starts_with (trim (ep_endpoint ep)) ''http://'' \<and>
        \<not> endpoint_is_confident_remote_ip (trim (ep_endpoint ep))) \<and>
     ep_timeout_secs ep \<noteq> 0 \<and>
     (case nonblank (ep_model ep) of
        None \<Rightarrow> True
      | Some m \<Rightarrow> evaluate_model_lifecycle cat (ep_provider_type ep) (ep_surface_id ep) m now \<noteq> Inr ModelBlock)"

lemma reject_blocked_model_sound:
  "reject_blocked_model cat now ep = Inr () \<Longrightarrow> nonblank (ep_model ep) = Some m \<Longrightarrow>
     evaluate_model_lifecycle cat (ep_provider_type ep) (ep_surface_id ep) m now \<noteq> Inr ModelBlock"
  by (auto simp: reject_blocked_model_def nonblank_def split: option.splits if_splits)

lemma validate_remote_sound:
  assumes "validate_remote_endpoint cat now api f = Inr ()"
  obtains ep where "api = Some ep" and "endpoint_sound cat now ep"
proof -
  obtain ep where ep: "api = Some ep" "check_endpoint_url f (trim (ep_endpoint ep)) = Inr ()"
      "ep_timeout_secs ep \<noteq> 0" "reject_blocked_model cat now ep = Inr ()"
    using assms by (auto simp: validate_remote_endpoint_def split: option.splits sum.splits if_splits)
  have "endpoint_sound cat now ep"
    using ep(2,3) reject_blocked_model_sound [OF ep(4)]
    by (auto simp: endpoint_sound_def check_endpoint_url_def split: option.split if_splits)
  with ep(1) show ?thesis by (rule that)
qed

lemma validate_non_http_sound:
  assumes "validate_non_http_surface_endpoint cat now api f tr chk = Inr ()"
  obtains ep sid spec where "api = Some ep" "nonblank (ep_surface_id ep) = Some sid"
    "provider_surface_spec cat sid = Some spec" "surface_transport spec = tr"
    "surface_provider_type spec = ep_provider_type ep"
  using assms by (auto simp: validate_non_http_surface_endpoint_def split: option.splits if_splits)

end
