(* ===== verification/App_Settings.thy ===== *)
theory App_Settings
  imports Ai_Provider
begin

text \<open>
  The configuration (\<open>maekon-core/src/config/app_config.rs\<close>, \<open>enums.rs\<close> and \<open>sections/\<close>): its sections
  with their bounds, the checks of the write path, the clamps of the load path, the default and the
  recovery configurations. \<open>AppSettings\<close> holds every field that one of these functions, a managed policy
  or a migration reads or writes; the others are gathered in \<open>settings_rest\<close>. Numbers have their machine
  width. The base64 decoder and the semver parser are parameters.
\<close>

section \<open>Data\<close>

datatype PiiFilterLevel = PiiOff | PiiBasic | PiiStandard | PiiStrict

fun pii_rank :: "PiiFilterLevel \<Rightarrow> nat" where
  "pii_rank PiiOff = 0"
| "pii_rank PiiBasic = 1"
| "pii_rank PiiStandard = 2"
| "pii_rank PiiStrict = 3"

instantiation PiiFilterLevel :: linorder
begin

definition less_eq_PiiFilterLevel :: "PiiFilterLevel \<Rightarrow> PiiFilterLevel \<Rightarrow> bool" where
  "less_eq_PiiFilterLevel a b \<longleftrightarrow> pii_rank a \<le> pii_rank b"

definition less_PiiFilterLevel :: "PiiFilterLevel \<Rightarrow> PiiFilterLevel \<Rightarrow> bool" where
  "less_PiiFilterLevel a b \<longleftrightarrow> pii_rank a < pii_rank b"

instance
proof
  fix a b :: PiiFilterLevel
  show "a \<le> b \<Longrightarrow> b \<le> a \<Longrightarrow> a = b"
    by (cases a; cases b) (simp_all add: less_eq_PiiFilterLevel_def)
qed (auto simp: less_eq_PiiFilterLevel_def less_PiiFilterLevel_def)

end

datatype CloudSttPolicy = SttAllow | SttRequireAdminApproval | SttDisabled

definition permits_cloud_egress :: "CloudSttPolicy \<Rightarrow> bool" where
  "permits_cloud_egress p \<longleftrightarrow> p = SttAllow"

record MonitorSection =
  poll_interval_ms :: u64
  sync_interval_ms :: u64
  heartbeat_interval_ms :: u64
  upload_enabled :: bool

record StorageSection =
  retention_days :: u32
  max_storage_mb :: u64

record VisionSection =
  capture_enabled :: bool
  capture_throttle_ms :: u64
  ocr_enabled :: bool

record AnalysisSection =
  throttle_secs :: u64
  interval_secs :: u64
  full_interval_secs :: u64
  max_suggestions :: u64

record UpdateSection =
  update_enabled :: bool
  require_signature_verification :: bool
  signature_public_key :: string
  min_allowed_version :: "string option"
  max_allowed_version :: "string option"

record WebSection =
  web_port :: "16 word"
  allow_external :: bool
  integration_auth_token :: "string option"
  grpc_port :: "16 word"

record TelemetrySection =
  telemetry_enabled :: bool
  crash_reports :: bool
  usage_analytics :: bool
  performance_metrics :: bool

record AutomationSection =
  automation_enabled :: bool
  sandbox :: SandboxConfig

record 'r AppSettings =
  settings_version :: u32
  monitor :: MonitorSection
  storage :: StorageSection
  vision :: VisionSection
  update_settings :: UpdateSection
  web :: WebSection
  idle_notification_mins :: u32
  telemetry :: TelemetrySection
  pii_filter_level :: PiiFilterLevel
  automation :: AutomationSection
  ai_provider :: AiProviderConfig
  audit_retention_days :: u32
  analysis :: AnalysisSection
  sync_enabled :: bool
  cloud_stt_policy :: CloudSttPolicy
  settings_rest :: 'r

definition CONFIG_SCHEMA_VERSION :: u32 where
  "CONFIG_SCHEMA_VERSION = 3"

definition default_settings :: "string \<Rightarrow> 'r \<Rightarrow> 'r AppSettings" where
  "default_settings build_version rest =
     \<lparr>settings_version = CONFIG_SCHEMA_VERSION,
      monitor = \<lparr>poll_interval_ms = 1000, sync_interval_ms = 10000, heartbeat_interval_ms = 30000,
                 upload_enabled = False\<rparr>,
      storage = \<lparr>retention_days = 30, max_storage_mb = 500\<rparr>,
      vision = \<lparr>capture_enabled = True, capture_throttle_ms = 5000, ocr_enabled = False\<rparr>,
      update_settings = \<lparr>update_enabled = True, require_signature_verification = True,
                         signature_public_key = [], min_allowed_version = Some build_version,
                         max_allowed_version = None\<rparr>,
      web = \<lparr>web_port = 10090, allow_external = False, integration_auth_token = None,
             grpc_port = 10080\<rparr>,
      idle_notification_mins = 30,
      telemetry = \<lparr>telemetry_enabled = False, crash_reports = False, usage_analytics = False,
                   performance_metrics = False\<rparr>,
      pii_filter_level = PiiStandard,
      automation = \<lparr>automation_enabled = False,
                    sandbox = \<lparr>sandbox_enabled = False, profile = Standard, allowed_read_paths = [],
                               allowed_write_paths = [], config_allow_network = False,
                               max_memory_bytes = 0, max_cpu_time_ms = 0\<rparr>\<rparr>,
      ai_provider = default_ai_provider,
      audit_retention_days = 30,
      analysis = \<lparr>throttle_secs = 120, interval_secs = 300, full_interval_secs = 1800,
                  max_suggestions = 3\<rparr>,
      sync_enabled = False,
      cloud_stt_policy = SttAllow,
      settings_rest = rest\<rparr>"

definition fail_closed_recovery_default :: "string \<Rightarrow> 'r \<Rightarrow> 'r AppSettings" where
  "fail_closed_recovery_default build_version rest =
     (let c = default_settings build_version rest
      in c\<lparr>telemetry := \<lparr>telemetry_enabled = False, crash_reports = False, usage_analytics = False,
                         performance_metrics = False\<rparr>,
           monitor := (monitor c)\<lparr>upload_enabled := False\<rparr>,
           vision := (vision c)\<lparr>capture_enabled := False, ocr_enabled := False\<rparr>\<rparr>)"

section \<open>Clamps\<close>

text \<open>
  Clamping code is a sequence of \<open>if\<close> statements: when a condition holds of the value as it is by
  then, repair it and push the names of the fields. Such a sequence is a list of \<open>clamp\<close>s.
\<close>

record 'a clamp =
  fires :: "'a \<Rightarrow> bool"
  repair :: "'a \<Rightarrow> 'a"
  clamp_names :: "string list"

fun run_clamps :: "'a clamp list \<Rightarrow> 'a \<Rightarrow> 'a \<times> string list" where
  "run_clamps [] s = (s, [])"
| "run_clamps (c # cs) s =
     (if fires c s
      then (let (s', ns) = run_clamps cs (repair c s) in (s', clamp_names c @ ns))
      else run_clamps cs s)"

definition satisfied :: "'a clamp list \<Rightarrow> 'a \<Rightarrow> bool" where
  "satisfied cs s \<longleftrightarrow> list_all (\<lambda>c. \<not> fires c s) cs"

text \<open>A later clamp \<open>d\<close> does not undo an earlier one.\<close>

definition keeps :: "'a clamp \<Rightarrow> 'a clamp \<Rightarrow> bool" where
  "keeps c d \<longleftrightarrow> (\<forall>s. \<not> fires c s \<longrightarrow> fires d s \<longrightarrow> \<not> fires c (repair d s))"

definition effective :: "'a clamp \<Rightarrow> bool" where
  "effective c \<longleftrightarrow> (\<forall>s. fires c s \<longrightarrow> \<not> fires c (repair c s))"

lemma run_clamps_append:
  "run_clamps (cs @ ds) s =
     (let (s', ns) = run_clamps cs s; (s'', ms) = run_clamps ds s' in (s'', ns @ ms))"
  by (induction cs arbitrary: s) (auto simp: split_beta Let_def)

lemma run_clamps_satisfied: "satisfied cs s \<Longrightarrow> run_clamps cs s = (s, [])"
  by (induction cs) (auto simp: satisfied_def)

lemma run_clamps_silent:
  assumes "list_all (\<lambda>c. \<forall>s. fires c s \<longrightarrow> clamp_names c \<noteq> []) cs"
  shows "snd (run_clamps cs s) = [] \<longleftrightarrow> satisfied cs s"
  using assms by (induction cs arbitrary: s) (auto simp: satisfied_def split_beta Let_def)

lemma run_clamps_keeps:
  assumes "list_all (\<lambda>d. \<forall>s. P s \<longrightarrow> fires d s \<longrightarrow> P (repair d s)) cs" and "P s"
  shows "P (fst (run_clamps cs s))"
  using assms by (induction cs arbitrary: s) (auto simp: split_beta Let_def)

text \<open>
  At the end, a clamp that every later one keeps does not fire; so none does when all of them keep
  the earlier ones.
\<close>

lemma run_clamps_settles:
  assumes "list_all (\<lambda>c. Q c \<longrightarrow> effective c) cs" and "sorted_wrt (\<lambda>c d. Q c \<longrightarrow> keeps c d) cs"
  shows "list_all (\<lambda>c. Q c \<longrightarrow> \<not> fires c (fst (run_clamps cs s))) cs"
  using assms
proof (induction cs arbitrary: s)
  case (Cons c cs)
  have step: "Q c \<Longrightarrow> \<not> fires c s' \<Longrightarrow> \<not> fires c (fst (run_clamps cs s'))" for s'
    by (rule run_clamps_keeps) (use Cons.prems in \<open>auto simp: list_all_iff keeps_def\<close>)
  have "Q c \<longrightarrow> \<not> fires c (fst (run_clamps (c # cs) s))"
    using Cons.prems step [of s] step [of "repair c s"]
    by (auto simp: effective_def split_beta Let_def)
  moreover have "list_all (\<lambda>d. Q d \<longrightarrow> \<not> fires d (fst (run_clamps (c # cs) s))) cs"
    using Cons by (auto simp: split_beta Let_def)
  ultimately show ?case by simp
qed simp

lemma run_clamps_settled:
  assumes "list_all effective cs" and "sorted_wrt keeps cs"
  shows "satisfied cs (fst (run_clamps cs s))"
  using run_clamps_settles [of "\<lambda>_. True" cs s] assms by (simp add: satisfied_def)

lemma run_clamps_establishes:
  assumes "\<And>s. P (fst (run_clamps xs s))"
    and "list_all (\<lambda>d. \<forall>s. P s \<longrightarrow> fires d s \<longrightarrow> P (repair d s)) ys"
  shows "P (fst (run_clamps (xs @ ys) s))"
  using run_clamps_keeps [OF assms(2) assms(1) [of s]] by (simp add: run_clamps_append split_beta Let_def)

section \<open>Sections\<close>

text \<open>
  Each section has its check for the write path and its clamp for the load path, which gives the
  section and the names of the fields it changed.
\<close>

definition validate_storage :: "StorageSection \<Rightarrow> string + unit" where
  "validate_storage s =
     (if retention_days s < 1 then Inl ''storage.retention_days''
      else if max_storage_mb s < 100 then Inl ''storage.max_storage_mb''
      else if max_storage_mb s > 10000 then Inl ''storage.max_storage_mb''
      else Inr ())"

definition clamp_storage :: "StorageSection clamp list" where
  "clamp_storage =
     [\<lparr>fires = \<lambda>s. retention_days s < 1, repair = \<lambda>s. s\<lparr>retention_days := 1\<rparr>,
       clamp_names = [''storage.retention_days'']\<rparr>,
      \<lparr>fires = \<lambda>s. max_storage_mb s < 100 \<or> max_storage_mb s > 10000,
       repair = \<lambda>s. s\<lparr>max_storage_mb := if max_storage_mb s < 100 then 100 else 10000\<rparr>,
       clamp_names = [''storage.max_storage_mb'']\<rparr>]"

definition validate_vision :: "VisionSection \<Rightarrow> string + unit" where
  "validate_vision v = (if capture_throttle_ms v < 1000 then Inl ''vision.capture_throttle_ms'' else Inr ())"

definition clamp_vision :: "VisionSection clamp list" where
  "clamp_vision =
     [\<lparr>fires = \<lambda>v. capture_throttle_ms v < 1000, repair = \<lambda>v. v\<lparr>capture_throttle_ms := 1000\<rparr>,
       clamp_names = [''vision.capture_throttle_ms'']\<rparr>]"

definition validate_monitor :: "MonitorSection \<Rightarrow> string + unit" where
  "validate_monitor m =
     (if poll_interval_ms m < 1000 then Inl ''monitor.poll_interval_ms''
      else if sync_interval_ms m < 1000 then Inl ''monitor.sync_interval_ms''
      else if heartbeat_interval_ms m < 5000 then Inl ''monitor.heartbeat_interval_ms''
      else Inr ())"

definition clamp_monitor :: "MonitorSection clamp list" where
  "clamp_monitor =
     [\<lparr>fires = \<lambda>m. poll_interval_ms m < 1000, repair = \<lambda>m. m\<lparr>poll_interval_ms := 1000\<rparr>,
       clamp_names = [''monitor.poll_interval_ms'']\<rparr>,
      \<lparr>fires = \<lambda>m. sync_interval_ms m < 1000, repair = \<lambda>m. m\<lparr>sync_interval_ms := 1000\<rparr>,
       clamp_names = [''monitor.sync_interval_ms'']\<rparr>,
      \<lparr>fires = \<lambda>m. heartbeat_interval_ms m < 5000, repair = \<lambda>m. m\<lparr>heartbeat_interval_ms := 5000\<rparr>,
       clamp_names = [''monitor.heartbeat_interval_ms'']\<rparr>]"

definition validate_analysis :: "AnalysisSection \<Rightarrow> string + unit" where
  "validate_analysis a =
     (if interval_secs a < 10 then Inl ''analysis.interval_secs''
      else if full_interval_secs a < interval_secs a then Inl ''analysis.full_interval_secs''
      else if throttle_secs a < 10 then Inl ''analysis.throttle_secs''
      else if max_suggestions a < 1 then Inl ''analysis.max_suggestions''
      else if max_suggestions a > 200 then Inl ''analysis.max_suggestions''
      else Inr ())"

definition clamp_analysis :: "AnalysisSection clamp list" where
  "clamp_analysis =
     [\<lparr>fires = \<lambda>a. interval_secs a < 10, repair = \<lambda>a. a\<lparr>interval_secs := 10\<rparr>,
       clamp_names = [''analysis.interval_secs'']\<rparr>,
      \<lparr>fires = \<lambda>a. full_interval_secs a < interval_secs a,
       repair = \<lambda>a. a\<lparr>full_interval_secs := interval_secs a\<rparr>,
       clamp_names = [''analysis.full_interval_secs'']\<rparr>,
      \<lparr>fires = \<lambda>a. throttle_secs a < 10, repair = \<lambda>a. a\<lparr>throttle_secs := 10\<rparr>,
       clamp_names = [''analysis.throttle_secs'']\<rparr>,
      \<lparr>fires = \<lambda>a. max_suggestions a < 1 \<or> max_suggestions a > 200,
       repair = \<lambda>a. a\<lparr>max_suggestions := if max_suggestions a < 1 then 1 else 200\<rparr>,
       clamp_names = [''analysis.max_suggestions'']\<rparr>]"

definition validate_notification :: "u32 \<Rightarrow> string + unit" where
  "validate_notification n = (if n < 1 then Inl ''notification.idle_notification_mins'' else Inr ())"

definition clamp_notification :: "u32 clamp list" where
  "clamp_notification =
     [\<lparr>fires = \<lambda>n. n < 1, repair = \<lambda>n. 1, clamp_names = [''notification.idle_notification_mins'']\<rparr>]"

definition ascii_lowercase :: "char \<Rightarrow> bool" where
  "ascii_lowercase c \<longleftrightarrow> CHR ''a'' \<le> c \<and> c \<le> CHR ''z''"

definition ascii_uppercase :: "char \<Rightarrow> bool" where
  "ascii_uppercase c \<longleftrightarrow> CHR ''A'' \<le> c \<and> c \<le> CHR ''Z''"

definition token_classes :: "string \<Rightarrow> nat" where
  "token_classes token =
     length (filter (\<lambda>present. present)
       [list_ex ascii_lowercase token, list_ex ascii_uppercase token, list_ex ascii_digit token,
        list_ex (\<lambda>c. \<not> ascii_lowercase c \<and> \<not> ascii_uppercase c \<and> \<not> ascii_digit c) token])"

definition validate_integration_auth_token_strength :: "string \<Rightarrow> string + unit" where
  "validate_integration_auth_token_strength raw =
     (let token = trim raw
      in if token = [] \<or> length token < 32 \<or> token_classes token < 2
         then Inl ''web.integration_auth_token'' else Inr ())"

definition web_token :: "WebSection \<Rightarrow> string" where
  "web_token w = (case integration_auth_token w of None \<Rightarrow> [] | Some t \<Rightarrow> t)"

definition port_in_range :: "16 word \<Rightarrow> bool" where
  "port_in_range p \<longleftrightarrow> 10090 \<le> p \<and> p \<le> 10099"

definition validate_web :: "WebSection \<Rightarrow> string + unit" where
  "validate_web w =
     (if \<not> port_in_range (web_port w) then Inl ''web.port''
      else if allow_external w then validate_integration_auth_token_strength (web_token w)
      else Inr ())"

definition clamp_web :: "WebSection clamp list" where
  "clamp_web =
     [\<lparr>fires = \<lambda>w. \<not> port_in_range (web_port w), repair = \<lambda>w. w\<lparr>web_port := 10090\<rparr>,
       clamp_names = [''web.port'']\<rparr>,
      \<lparr>fires = \<lambda>w. allow_external w \<and> validate_integration_auth_token_strength (web_token w) \<noteq> Inr (),
       repair = \<lambda>w. w\<lparr>allow_external := False\<rparr>, clamp_names = [''web.allow_external'']\<rparr>]"

section \<open>The whole configuration\<close>

text \<open>The checks of the sections, without the one of the AI provider.\<close>

definition validate_sections :: "'r AppSettings \<Rightarrow> string + unit" where
  "validate_sections c =
     then_check (validate_storage (storage c))
    (then_check (validate_vision (vision c))
    (then_check (validate_monitor (monitor c))
    (then_check (validate_analysis (analysis c))
    (then_check (validate_notification (idle_notification_mins c))
              (validate_web (web c))))))"

fun failure_field :: "ConfigFailure \<Rightarrow> string" where
  "failure_field (ConfigError _ field) = field"
| "failure_field (ModelDenied model) = model"
| "failure_field (CatalogError field) = field"

definition validate_bounds :: "AiCatalog \<Rightarrow> instant \<Rightarrow> 'r AppSettings \<Rightarrow> string + unit" where
  "validate_bounds cat now c =
     then_check (validate_sections c)
       (case validate_selected_remote_endpoints cat now (ai_provider c) of
          Inl e \<Rightarrow> Inl (failure_field e)
        | Inr _ \<Rightarrow> Inr ())"

definition clamp_bounds :: "'r AppSettings \<Rightarrow> 'r AppSettings \<times> string list" where
  "clamp_bounds c =
     (let (st, f1) = run_clamps clamp_storage (storage c);
          (vi, f2) = run_clamps clamp_vision (vision c);
          (mo, f3) = run_clamps clamp_monitor (monitor c);
          (an, f4) = run_clamps clamp_analysis (analysis c);
          (no, f5) = run_clamps clamp_notification (idle_notification_mins c);
          (we, f6) = run_clamps clamp_web (web c)
      in (c\<lparr>storage := st, vision := vi, monitor := mo, analysis := an, idle_notification_mins := no,
            web := we\<rparr>, f1 @ f2 @ f3 @ f4 @ f5 @ f6))"

record 'v UpdateEnv =
  decode_base64 :: "string \<Rightarrow> u8 list option"
  parse_semver :: "string \<Rightarrow> 'v option"
  semver_less :: "'v \<Rightarrow> 'v \<Rightarrow> bool"

definition key_token :: "string \<Rightarrow> string option" where
  "key_token s =
     (case filter (\<lambda>w. w \<noteq> []) (split_on (CHR '' '') (map (\<lambda>c. if is_space c then CHR '' '' else c) s)) of
        [] \<Rightarrow> None
      | w # _ \<Rightarrow> Some w)"

definition nonblank_version :: "string option \<Rightarrow> string option" where
  "nonblank_version v = (case v of None \<Rightarrow> None | Some s \<Rightarrow> if trim s = [] then None else Some s)"

definition validate_key :: "'v UpdateEnv \<Rightarrow> UpdateSection \<Rightarrow> ConfigFailure + unit" where
  "validate_key env u =
     (case key_token (signature_public_key u) of
        None \<Rightarrow> Inr ()
      | Some k \<Rightarrow>
          (case decode_base64 env k of
             None \<Rightarrow> Inl (ConfigError CodeInvalid ''update.signature_public_key'')
           | Some bytes \<Rightarrow>
               if length bytes \<noteq> 32
               then Inl (ConfigError CodeInvalid ''update.signature_public_key'') else Inr ()))"

definition validate_version_window :: "'v UpdateEnv \<Rightarrow> UpdateSection \<Rightarrow> ConfigFailure + unit" where
  "validate_version_window env u =
     then_check
       (case nonblank_version (min_allowed_version u) of
          None \<Rightarrow> Inr ()
        | Some lo \<Rightarrow>
            (if parse_semver env lo = None
             then Inl (ConfigError CodeInvalid ''update.min_allowed_version'') else Inr ()))
       (case nonblank_version (max_allowed_version u) of
          None \<Rightarrow> Inr ()
        | Some hi \<Rightarrow>
            (case parse_semver env hi of
               None \<Rightarrow> Inl (ConfigError CodeInvalid ''update.max_allowed_version'')
             | Some upper \<Rightarrow>
                 (case nonblank_version (min_allowed_version u) of
                    None \<Rightarrow> Inr ()
                  | Some lo \<Rightarrow>
                      (case parse_semver env lo of
                         None \<Rightarrow> Inl (ConfigError CodeInvalid ''update.min_allowed_version'')
                       | Some lower \<Rightarrow>
                           if semver_less env upper lower
                           then Inl (ConfigError CodeInvalid ''update.max_allowed_version'')
                           else Inr ()))))"

definition validate_integrity_policy :: "'v UpdateEnv \<Rightarrow> UpdateSection \<Rightarrow> ConfigFailure + unit" where
  "validate_integrity_policy env u =
     (if \<not> update_enabled u then Inr ()
      else if \<not> require_signature_verification u
      then Inl (ConfigError CodeInvalid ''update.require_signature_verification'')
      else then_check (validate_key env u) (validate_version_window env u))"

definition LEGACY_GRPC_DASHBOARD_PORT :: "16 word" where
  "LEGACY_GRPC_DASHBOARD_PORT = 10091"

definition DEFAULT_GRPC_DASHBOARD_PORT :: "16 word" where
  "DEFAULT_GRPC_DASHBOARD_PORT = 10080"

definition migrate_loaded_config :: "'r AppSettings \<Rightarrow> 'r AppSettings \<times> bool" where
  "migrate_loaded_config c =
     (let (c1, m1) = (if grpc_port (web c) = LEGACY_GRPC_DASHBOARD_PORT
                      then (c\<lparr>web := (web c)\<lparr>grpc_port := DEFAULT_GRPC_DASHBOARD_PORT\<rparr>\<rparr>, True)
                      else (c, False))
      in if settings_version c1 < CONFIG_SCHEMA_VERSION
         then (c1\<lparr>settings_version := CONFIG_SCHEMA_VERSION\<rparr>, True)
         else (c1, m1))"

section \<open>Bounds\<close>

text \<open>The check of a section passes exactly when none of its clamps fires.\<close>

lemma validate_storage_iff: "validate_storage s = Inr () \<longleftrightarrow> satisfied clamp_storage s"
  by (auto simp: validate_storage_def satisfied_def clamp_storage_def)

lemma validate_vision_iff: "validate_vision s = Inr () \<longleftrightarrow> satisfied clamp_vision s"
  by (auto simp: validate_vision_def satisfied_def clamp_vision_def)

lemma validate_monitor_iff: "validate_monitor s = Inr () \<longleftrightarrow> satisfied clamp_monitor s"
  by (auto simp: validate_monitor_def satisfied_def clamp_monitor_def)

lemma validate_analysis_iff: "validate_analysis s = Inr () \<longleftrightarrow> satisfied clamp_analysis s"
  unfolding validate_analysis_def satisfied_def clamp_analysis_def by simp

lemma validate_notification_iff: "validate_notification s = Inr () \<longleftrightarrow> satisfied clamp_notification s"
  by (auto simp: validate_notification_def satisfied_def clamp_notification_def)

lemma validate_web_iff: "validate_web s = Inr () \<longleftrightarrow> satisfied clamp_web s"
  by (auto simp: validate_web_def satisfied_def clamp_web_def)

lemmas validate_section_iff = validate_storage_iff validate_vision_iff validate_monitor_iff
  validate_analysis_iff validate_notification_iff validate_web_iff

lemma sections_settle:
  "satisfied clamp_storage (fst (run_clamps clamp_storage st))"
  "satisfied clamp_vision (fst (run_clamps clamp_vision vi))"
  "satisfied clamp_monitor (fst (run_clamps clamp_monitor mo))"
  "satisfied clamp_analysis (fst (run_clamps clamp_analysis an))"
  "satisfied clamp_notification (fst (run_clamps clamp_notification no))"
  "satisfied clamp_web (fst (run_clamps clamp_web we))"
  by (rule run_clamps_settled;
      simp add: effective_def keeps_def clamp_storage_def clamp_vision_def clamp_monitor_def
        clamp_analysis_def clamp_notification_def clamp_web_def port_in_range_def web_token_def)+

lemma clamp_bounds_valid: "validate_sections (fst (clamp_bounds c)) = Inr ()"
  by (simp add: clamp_bounds_def validate_sections_def validate_section_iff sections_settle Let_def
      split_beta)

lemma clamp_bounds_id: "validate_sections c = Inr () \<Longrightarrow> clamp_bounds c = (c, [])"
  by (simp add: clamp_bounds_def validate_sections_def validate_section_iff run_clamps_satisfied)

end
