(* ===== verification/Managed_Policy.thy ===== *)
theory Managed_Policy
  imports App_Settings
begin

text \<open>
  The managed policy of an administrator (\<open>maekon-core/src/config/managed.rs\<close>): loading it, clamping a
  configuration to it, the violations and the locked fields shown to the user.

  \<open>apply_policy\<close> is the sequence of clamps of \<open>ManagedConfig::apply\<close> in the order of the code. It is
  compared with two readings of a policy: every rule taken literally (\<open>complies\<close>), and the rules with
  the precedence of the code where they contradict each other (\<open>guarantees\<close>).
\<close>

section \<open>Policies\<close>

datatype ManagedFeaturePin = PinDisabled | PinAllowedWithUserConsent

record ManagedFeaturePins =
  pin_automation :: "ManagedFeaturePin option"
  pin_browser_verification :: "ManagedFeaturePin option"
  pin_record_to_template :: "ManagedFeaturePin option"
  pin_remote_observe_approve :: "ManagedFeaturePin option"
  pin_external_ocr_llm :: "ManagedFeaturePin option"
  pin_telemetry :: "ManagedFeaturePin option"
  pin_sync :: "ManagedFeaturePin option"

record ManagedPermissionProfilePolicy =
  allowed_profiles :: "string list"
  denied_profiles :: "string list"

record ManagedProviderSurfacePolicy =
  enforce :: bool
  allowlist :: "string list"

record ManagedSandboxNetworkPolicy =
  require_sandbox_enabled :: bool
  minimum_profile :: "SandboxProfile option"
  deny_network :: bool
  deny_local_targets :: bool
  deny_local_binding :: bool

record ManagedConfig =
  managed_schema_version :: u32
  lock_pii_filter_level :: "PiiFilterLevel option"
  min_pii_filter_level :: "PiiFilterLevel option"
  lock_telemetry_enabled :: "bool option"
  lock_crash_reports :: "bool option"
  lock_capture_enabled :: "bool option"
  lock_cloud_stt_policy :: "CloudSttPolicy option"
  lock_update_enabled :: "bool option"
  lock_min_allowed_version :: "string option"
  lock_max_allowed_version :: "string option"
  features :: ManagedFeaturePins
  permission_profiles :: ManagedPermissionProfilePolicy
  provider_surfaces :: ManagedProviderSurfacePolicy
  sandbox_network :: ManagedSandboxNetworkPolicy
  min_retention_days :: "u32 option"
  export_required :: bool
  require_signature :: bool
  bundle_signature :: "string option"

definition SUPPORTED_SCHEMA_VERSION :: u32 where
  "SUPPORTED_SCHEMA_VERSION = 2"

definition empty_policy :: ManagedConfig where
  "empty_policy =
     \<lparr>managed_schema_version = SUPPORTED_SCHEMA_VERSION, lock_pii_filter_level = None,
      min_pii_filter_level = None, lock_telemetry_enabled = None, lock_crash_reports = None,
      lock_capture_enabled = None, lock_cloud_stt_policy = None, lock_update_enabled = None,
      lock_min_allowed_version = None, lock_max_allowed_version = None,
      features = \<lparr>pin_automation = None, pin_browser_verification = None, pin_record_to_template = None,
                  pin_remote_observe_approve = None, pin_external_ocr_llm = None, pin_telemetry = None,
                  pin_sync = None\<rparr>,
      permission_profiles = \<lparr>allowed_profiles = [], denied_profiles = []\<rparr>,
      provider_surfaces = \<lparr>enforce = False, allowlist = []\<rparr>,
      sandbox_network = \<lparr>require_sandbox_enabled = False, minimum_profile = None, deny_network = False,
                         deny_local_targets = False, deny_local_binding = False\<rparr>,
      min_retention_days = None, export_required = False, require_signature = False,
      bundle_signature = None\<rparr>"

definition normalize_policy_token :: "string \<Rightarrow> string" where
  "normalize_policy_token value =
     map (\<lambda>c. if c = CHR ''-'' then CHR ''_'' else c) (map lower_ascii (trim value))"

fun sandbox_profile_rank :: "SandboxProfile \<Rightarrow> nat" where
  "sandbox_profile_rank Permissive = 0"
| "sandbox_profile_rank Standard = 1"
| "sandbox_profile_rank Strict = 2"

fun sandbox_profile_id :: "SandboxProfile \<Rightarrow> string" where
  "sandbox_profile_id Permissive = ''permissive''"
| "sandbox_profile_id Standard = ''standard''"
| "sandbox_profile_id Strict = ''strict''"

definition allows_profile :: "ManagedPermissionProfilePolicy \<Rightarrow> string \<Rightarrow> bool" where
  "allows_profile p profile_id =
     (let normalized = normalize_policy_token profile_id
      in if list_ex (\<lambda>c. normalize_policy_token c = normalized) (denied_profiles p) then False
         else allowed_profiles p = [] \<or>
              list_ex (\<lambda>c. normalize_policy_token c = normalized) (allowed_profiles p))"

definition profile_locked_fields :: "ManagedPermissionProfilePolicy \<Rightarrow> string list" where
  "profile_locked_fields p =
     (if allowed_profiles p \<noteq> [] then [''permission_profiles.allowed_profiles''] else []) @
     (if denied_profiles p \<noteq> [] then [''permission_profiles.denied_profiles''] else [])"

definition strictest_allowed_builtin_profile :: "ManagedPermissionProfilePolicy \<Rightarrow> SandboxProfile" where
  "strictest_allowed_builtin_profile p =
     (case List.find (\<lambda>q. allows_profile p (sandbox_profile_id q)) [Strict, Standard, Permissive] of
        Some q \<Rightarrow> q
      | None \<Rightarrow> Strict)"

definition has_supported_builtin_profile :: "ManagedPermissionProfilePolicy \<Rightarrow> bool" where
  "has_supported_builtin_profile p =
     list_ex (\<lambda>q. allows_profile p (sandbox_profile_id q)) [Strict, Standard, Permissive]"

definition is_enforced :: "ManagedProviderSurfacePolicy \<Rightarrow> bool" where
  "is_enforced p \<longleftrightarrow> enforce p \<or> allowlist p \<noteq> []"

definition allows_surface ::
  "AiCatalog \<Rightarrow> ManagedProviderSurfacePolicy \<Rightarrow> string option \<Rightarrow> bool" where
  "allows_surface cat p sid =
     (if \<not> is_enforced p then True
      else (case Option.bind sid (canonical_provider_surface_id cat) of
              None \<Rightarrow> False
            | Some s \<Rightarrow>
                list_ex (\<lambda>c. case canonical_provider_surface_id cat c of
                               None \<Rightarrow> False | Some allowed \<Rightarrow> allowed = s) (allowlist p)))"

definition feature_locked_fields :: "ManagedFeaturePins \<Rightarrow> string list" where
  "feature_locked_fields f =
     (if pin_automation f \<noteq> None then [''features.automation''] else []) @
     (if pin_external_ocr_llm f \<noteq> None then [''features.external_ocr_llm''] else []) @
     (if pin_telemetry f \<noteq> None then [''features.telemetry''] else []) @
     (if pin_sync f \<noteq> None then [''features.sync''] else [])"

definition unsupported_runtime_pins :: "ManagedFeaturePins \<Rightarrow> string list" where
  "unsupported_runtime_pins f =
     (if pin_browser_verification f \<noteq> None then [''features.browser_verification''] else []) @
     (if pin_record_to_template f \<noteq> None then [''features.record_to_template''] else []) @
     (if pin_remote_observe_approve f \<noteq> None then [''features.remote_observe_approve''] else [])"

definition sandbox_locked_fields :: "ManagedSandboxNetworkPolicy \<Rightarrow> string list" where
  "sandbox_locked_fields p =
     (if require_sandbox_enabled p then [''sandbox_network.require_sandbox_enabled''] else []) @
     (if minimum_profile p \<noteq> None then [''sandbox_network.minimum_profile''] else []) @
     (if deny_network p then [''sandbox_network.deny_network''] else []) @
     (if deny_local_targets p then [''sandbox_network.deny_local_targets''] else []) @
     (if deny_local_binding p then [''sandbox_network.deny_local_binding''] else [])"

definition locked_fields :: "ManagedConfig \<Rightarrow> string list" where
  "locked_fields m =
     (if lock_pii_filter_level m \<noteq> None then [''privacy.pii_filter_level''] else []) @
     (if min_pii_filter_level m \<noteq> None then [''privacy.min_pii_filter_level''] else []) @
     (if lock_telemetry_enabled m \<noteq> None then [''telemetry.enabled''] else []) @
     (if lock_crash_reports m \<noteq> None then [''telemetry.crash_reports''] else []) @
     (if lock_capture_enabled m \<noteq> None then [''vision.capture_enabled''] else []) @
     (if lock_cloud_stt_policy m \<noteq> None then [''audio.cloud_stt_policy''] else []) @
     (if lock_update_enabled m \<noteq> None then [''update.enabled''] else []) @
     (if lock_min_allowed_version m \<noteq> None then [''update.min_allowed_version''] else []) @
     (if lock_max_allowed_version m \<noteq> None then [''update.max_allowed_version''] else []) @
     feature_locked_fields (features m) @
     profile_locked_fields (permission_profiles m) @
     (if is_enforced (provider_surfaces m) then [''provider_surfaces.allowlist''] else []) @
     sandbox_locked_fields (sandbox_network m) @
     (if min_retention_days m \<noteq> None then [''audit.min_retention_days''] else []) @
     (if export_required m then [''audit.export_required''] else [])"

section \<open>Clamping\<close>

text \<open>A field locked to a value: get it, set it.\<close>

definition lock ::
  "'v option \<Rightarrow> ('c \<Rightarrow> 'v) \<Rightarrow> ('v \<Rightarrow> 'c \<Rightarrow> 'c) \<Rightarrow> string \<Rightarrow> 'c clamp" where
  "lock v get put name =
     \<lparr>fires = \<lambda>c. (case v of None \<Rightarrow> False | Some x \<Rightarrow> get c \<noteq> x),
      repair = \<lambda>c. (case v of None \<Rightarrow> c | Some x \<Rightarrow> put x c),
      clamp_names = [name]\<rparr>"

definition value_clamps :: "ManagedConfig \<Rightarrow> 'r AppSettings clamp list" where
  "value_clamps m =
     [lock (lock_pii_filter_level m) pii_filter_level (\<lambda>v c. c\<lparr>pii_filter_level := v\<rparr>)
        ''privacy.pii_filter_level'',
      \<lparr>fires = \<lambda>c. (case min_pii_filter_level m of None \<Rightarrow> False | Some v \<Rightarrow> pii_filter_level c < v),
       repair = \<lambda>c. c\<lparr>pii_filter_level := the (min_pii_filter_level m)\<rparr>,
       clamp_names = [''privacy.min_pii_filter_level'']\<rparr>,
      lock (lock_telemetry_enabled m) (\<lambda>c. telemetry_enabled (telemetry c))
        (\<lambda>v c. c\<lparr>telemetry := (telemetry c)\<lparr>telemetry_enabled := v\<rparr>\<rparr>) ''telemetry.enabled'',
      lock (lock_crash_reports m) (\<lambda>c. crash_reports (telemetry c))
        (\<lambda>v c. c\<lparr>telemetry := (telemetry c)\<lparr>crash_reports := v\<rparr>\<rparr>) ''telemetry.crash_reports'',
      lock (lock_capture_enabled m) (\<lambda>c. capture_enabled (vision c))
        (\<lambda>v c. c\<lparr>vision := (vision c)\<lparr>capture_enabled := v\<rparr>\<rparr>) ''vision.capture_enabled'',
      lock (lock_cloud_stt_policy m) cloud_stt_policy (\<lambda>v c. c\<lparr>cloud_stt_policy := v\<rparr>)
        ''audio.cloud_stt_policy'',
      lock (lock_update_enabled m) (\<lambda>c. update_enabled (update_settings c))
        (\<lambda>v c. c\<lparr>update_settings := (update_settings c)\<lparr>update_enabled := v\<rparr>\<rparr>) ''update.enabled'',
      lock (map_option Some (lock_min_allowed_version m)) (\<lambda>c. min_allowed_version (update_settings c))
        (\<lambda>v c. c\<lparr>update_settings := (update_settings c)\<lparr>min_allowed_version := v\<rparr>\<rparr>)
        ''update.min_allowed_version'',
      lock (map_option Some (lock_max_allowed_version m)) (\<lambda>c. max_allowed_version (update_settings c))
        (\<lambda>v c. c\<lparr>update_settings := (update_settings c)\<lparr>max_allowed_version := v\<rparr>\<rparr>)
        ''update.max_allowed_version'']"

definition local_ocr :: "AiProviderConfig \<Rightarrow> AiProviderConfig" where
  "local_ocr a = a\<lparr>ocr_provider := OcrLocal, ocr_api := None\<rparr>"

definition local_llm :: "AiProviderConfig \<Rightarrow> AiProviderConfig" where
  "local_llm a = a\<lparr>llm_provider := LlmLocal, llm_api := None, llm_api_fallback := None\<rparr>"

definition disable_external :: "AiProviderConfig \<Rightarrow> AiProviderConfig" where
  "disable_external a0 =
     (let a1 = (if ocr_provider a0 = OcrRemote then local_ocr a0 else a0);
          a2 = (if llm_provider a1 = LlmRemote then local_llm a1 else a1)
      in if bypass_pii_filter_for_external_ocr a2
         then a2\<lparr>bypass_pii_filter_for_external_ocr := False\<rparr> else a2)"

definition apply_feature_pins :: "ManagedConfig \<Rightarrow> 'r AppSettings clamp list" where
  "apply_feature_pins m =
     [\<lparr>fires = \<lambda>c. pin_automation (features m) = Some PinDisabled \<and> automation_enabled (automation c),
       repair = \<lambda>c. c\<lparr>automation := (automation c)\<lparr>automation_enabled := False\<rparr>\<rparr>,
       clamp_names = [''features.automation'']\<rparr>,
      \<lparr>fires = \<lambda>c. pin_telemetry (features m) = Some PinDisabled \<and> telemetry_enabled (telemetry c),
       repair = \<lambda>c. c\<lparr>telemetry := (telemetry c)\<lparr>telemetry_enabled := False\<rparr>\<rparr>,
       clamp_names = [''features.telemetry'']\<rparr>,
      \<lparr>fires = \<lambda>c. pin_sync (features m) = Some PinDisabled \<and> sync_enabled c,
       repair = \<lambda>c. c\<lparr>sync_enabled := False\<rparr>,
       clamp_names = [''features.sync'']\<rparr>,
      \<lparr>fires = \<lambda>c. pin_external_ocr_llm (features m) = Some PinDisabled \<and>
                (ocr_provider (ai_provider c) = OcrRemote \<or> llm_provider (ai_provider c) = LlmRemote \<or>
                 bypass_pii_filter_for_external_ocr (ai_provider c)),
       repair = \<lambda>c. c\<lparr>ai_provider := disable_external (ai_provider c)\<rparr>,
       clamp_names = [''features.external_ocr_llm'']\<rparr>]"

definition map_sandbox :: "(SandboxConfig \<Rightarrow> SandboxConfig) \<Rightarrow> 'r AppSettings \<Rightarrow> 'r AppSettings" where
  "map_sandbox f c = c\<lparr>automation := (automation c)\<lparr>sandbox := f (sandbox (automation c))\<rparr>\<rparr>"

definition apply_permission_profile_policy :: "ManagedConfig \<Rightarrow> 'r AppSettings clamp list" where
  "apply_permission_profile_policy m =
     [\<lparr>fires = \<lambda>c. profile_locked_fields (permission_profiles m) \<noteq> [] \<and>
                   \<not> allows_profile (permission_profiles m)
                       (sandbox_profile_id (profile (sandbox (automation c)))),
       repair = map_sandbox (\<lambda>s. s\<lparr>profile := strictest_allowed_builtin_profile (permission_profiles m)\<rparr>),
       clamp_names = profile_locked_fields (permission_profiles m)\<rparr>]"

definition forbidden_ocr :: "AiCatalog \<Rightarrow> ManagedProviderSurfacePolicy \<Rightarrow> AiProviderConfig \<Rightarrow> bool" where
  "forbidden_ocr cat p a \<longleftrightarrow>
     ocr_provider a = OcrRemote \<and> \<not> allows_surface cat p (Option.bind (ocr_api a) ep_surface_id)"

definition forbidden_llm :: "AiCatalog \<Rightarrow> ManagedProviderSurfacePolicy \<Rightarrow> AiProviderConfig \<Rightarrow> bool" where
  "forbidden_llm cat p a \<longleftrightarrow>
     llm_provider a = LlmRemote \<and> \<not> allows_surface cat p (Option.bind (llm_api a) ep_surface_id)"

definition restrict_surfaces ::
  "AiCatalog \<Rightarrow> ManagedProviderSurfacePolicy \<Rightarrow> AiProviderConfig \<Rightarrow> AiProviderConfig" where
  "restrict_surfaces cat p a0 =
     (let a1 = (if forbidden_ocr cat p a0 then local_ocr a0 else a0)
      in if forbidden_llm cat p a1 then local_llm a1 else a1)"

definition apply_provider_surface_policy ::
  "AiCatalog \<Rightarrow> ManagedConfig \<Rightarrow> 'r AppSettings clamp list" where
  "apply_provider_surface_policy cat m =
     [\<lparr>fires = \<lambda>c. is_enforced (provider_surfaces m) \<and>
                   (forbidden_ocr cat (provider_surfaces m) (ai_provider c) \<or>
                    forbidden_llm cat (provider_surfaces m) (ai_provider c)),
       repair = \<lambda>c. c\<lparr>ai_provider := restrict_surfaces cat (provider_surfaces m) (ai_provider c)\<rparr>,
       clamp_names = [''provider_surfaces.allowlist'']\<rparr>]"

definition network_denial_fields :: "ManagedSandboxNetworkPolicy \<Rightarrow> string list" where
  "network_denial_fields p =
     (if deny_network p then [''sandbox_network.deny_network''] else []) @
     (if deny_local_targets p then [''sandbox_network.deny_local_targets''] else []) @
     (if deny_local_binding p then [''sandbox_network.deny_local_binding''] else [])"

definition apply_sandbox_network_policy :: "ManagedConfig \<Rightarrow> 'r AppSettings clamp list" where
  "apply_sandbox_network_policy m =
     [\<lparr>fires = \<lambda>c. require_sandbox_enabled (sandbox_network m) \<and>
                   \<not> sandbox_enabled (sandbox (automation c)),
       repair = map_sandbox (\<lambda>s. s\<lparr>sandbox_enabled := True\<rparr>),
       clamp_names = [''sandbox_network.require_sandbox_enabled'']\<rparr>,
      \<lparr>fires = \<lambda>c. (case minimum_profile (sandbox_network m) of
                      None \<Rightarrow> False
                    | Some minimum \<Rightarrow>
                        sandbox_profile_rank (profile (sandbox (automation c)))
                          < sandbox_profile_rank minimum),
       repair = map_sandbox (\<lambda>s. s\<lparr>profile := the (minimum_profile (sandbox_network m))\<rparr>),
       clamp_names = [''sandbox_network.minimum_profile'']\<rparr>,
      \<lparr>fires = \<lambda>c. config_allow_network (sandbox (automation c)) \<and>
                   network_denial_fields (sandbox_network m) \<noteq> [],
       repair = map_sandbox (\<lambda>s. s\<lparr>config_allow_network := False\<rparr>),
       clamp_names = network_denial_fields (sandbox_network m)\<rparr>]"

definition apply_audit_policy :: "ManagedConfig \<Rightarrow> 'r AppSettings clamp list" where
  "apply_audit_policy m =
     [\<lparr>fires = \<lambda>c. (case min_retention_days m of
                      None \<Rightarrow> False
                    | Some days \<Rightarrow> audit_retention_days c < days),
       repair = \<lambda>c. c\<lparr>audit_retention_days := the (min_retention_days m)\<rparr>,
       clamp_names = [''audit.min_retention_days'']\<rparr>]"

definition policy_clamps :: "AiCatalog \<Rightarrow> ManagedConfig \<Rightarrow> 'r AppSettings clamp list" where
  "policy_clamps cat m =
     value_clamps m @ apply_feature_pins m @ apply_permission_profile_policy m @
     apply_provider_surface_policy cat m @ apply_sandbox_network_policy m @ apply_audit_policy m"

definition apply_policy ::
  "AiCatalog \<Rightarrow> ManagedConfig \<Rightarrow> 'r AppSettings \<Rightarrow> 'r AppSettings \<times> string list" where
  "apply_policy cat m = run_clamps (policy_clamps cat m)"

definition violations :: "AiCatalog \<Rightarrow> ManagedConfig \<Rightarrow> 'r AppSettings \<Rightarrow> string list" where
  "violations cat m candidate = snd (apply_policy cat m candidate)"

section \<open>Loading\<close>

definition validate_signature :: "ManagedConfig \<Rightarrow> string + unit" where
  "validate_signature m =
     (if require_signature m \<and> nonblank (bundle_signature m) = None
      then Inl ''bundle_signature'' else Inr ())"

definition validate_bundle :: "AiCatalog \<Rightarrow> ManagedConfig \<Rightarrow> string + unit" where
  "validate_bundle cat m =
     then_check (validate_signature m)
       (case unsupported_runtime_pins (features m) of
          pin # _ \<Rightarrow> Inl pin
        | [] \<Rightarrow>
            if profile_locked_fields (permission_profiles m) \<noteq> [] \<and>
               \<not> has_supported_builtin_profile (permission_profiles m)
            then Inl ''permission_profiles''
            else (case List.find (\<lambda>s. canonical_provider_surface_id cat s = None)
                         (allowlist (provider_surfaces m)) of
                    Some s \<Rightarrow> Inl s
                  | None \<Rightarrow> Inr ()))"

datatype PolicyFile = PolicyAbsent | PolicyUnreadable | PolicyMalformed | PolicyParsed ManagedConfig

definition load_managed_config :: "AiCatalog \<Rightarrow> PolicyFile \<Rightarrow> ConfigFailure + ManagedConfig option" where
  "load_managed_config cat file =
     (case file of
        PolicyAbsent \<Rightarrow> Inr None
      | PolicyUnreadable \<Rightarrow> Inl (ConfigError CodeInvalid ''unreadable'')
      | PolicyMalformed \<Rightarrow> Inl (ConfigError CodeInvalid ''malformed'')
      | PolicyParsed m \<Rightarrow>
          if managed_schema_version m > SUPPORTED_SCHEMA_VERSION
          then Inl (ConfigError CodeInvalid ''schema_version'')
          else (case validate_bundle cat m of
                  Inl e \<Rightarrow> Inl (ConfigError CodeInvalid e)
                | Inr _ \<Rightarrow> Inr (Some m)))"

section \<open>The report\<close>

record ManagedEffectiveSetting =
  setting_path :: string
  user_value :: bool
  effective_value :: bool
  managed_reason :: string

definition feature_pin_reason :: "string \<Rightarrow> ManagedFeaturePin \<Rightarrow> string" where
  "feature_pin_reason feature pin =
     ''managed.feature.'' @ feature @
     (case pin of PinDisabled \<Rightarrow> ''.disabled''
      | PinAllowedWithUserConsent \<Rightarrow> ''.allowed_with_user_consent'')"

definition push_feature_effective_entry ::
  "string \<Rightarrow> ManagedFeaturePin option \<Rightarrow> bool \<Rightarrow> bool \<Rightarrow> ManagedEffectiveSetting list" where
  "push_feature_effective_entry feature pin user effective_v =
     (case pin of
        None \<Rightarrow> []
      | Some p \<Rightarrow>
          [\<lparr>setting_path = ''features.'' @ feature, user_value = user, effective_value = effective_v,
            managed_reason = feature_pin_reason feature p\<rparr>])"

definition uses_external :: "AiProviderConfig \<Rightarrow> bool" where
  "uses_external a \<longleftrightarrow> ocr_provider a = OcrRemote \<or> llm_provider a = LlmRemote"

definition effective_report ::
  "AiCatalog \<Rightarrow> ManagedConfig \<Rightarrow> 'r AppSettings \<Rightarrow> ManagedEffectiveSetting list" where
  "effective_report cat m candidate =
     (let result = fst (apply_policy cat m candidate)
      in push_feature_effective_entry ''automation'' (pin_automation (features m))
           (automation_enabled (automation candidate)) (automation_enabled (automation result)) @
         push_feature_effective_entry ''telemetry'' (pin_telemetry (features m))
           (telemetry_enabled (telemetry candidate)) (telemetry_enabled (telemetry result)) @
         push_feature_effective_entry ''sync'' (pin_sync (features m))
           (sync_enabled candidate) (sync_enabled result) @
         push_feature_effective_entry ''external_ocr_llm'' (pin_external_ocr_llm (features m))
           (uses_external (ai_provider candidate)) (uses_external (ai_provider result)))"

end
