(* ===== verification/Managed_Properties.thy ===== *)
theory Managed_Properties
  imports Managed_Policy
begin

text \<open>
  What a managed policy guarantees: the clamps against the literal reading of the policy, the policies
  whose rules contradict each other, and what holds of a clamped configuration in every case.
\<close>

section \<open>Readings of a policy\<close>

definition demands :: "'v option \<Rightarrow> ('v \<Rightarrow> bool) \<Rightarrow> bool" where
  "demands v P = (case v of None \<Rightarrow> True | Some x \<Rightarrow> P x)"

definition listed :: "AiCatalog \<Rightarrow> string list \<Rightarrow> ExternalApiEndpoint option \<Rightarrow> bool" where
  "listed cat allowed api =
     (case api of
        None \<Rightarrow> False
      | Some ep \<Rightarrow>
          (case ep_surface_id ep of
             None \<Rightarrow> False
           | Some sid \<Rightarrow>
               canonical_provider_surface_id cat sid \<noteq> None \<and>
               list_ex (\<lambda>a. canonical_provider_surface_id cat a = canonical_provider_surface_id cat sid)
                 allowed))"

definition builtin_allowed :: "ManagedConfig \<Rightarrow> SandboxProfile \<Rightarrow> bool" where
  "builtin_allowed m p \<longleftrightarrow>
     profile_locked_fields (permission_profiles m) = [] \<or>
     allows_profile (permission_profiles m) (sandbox_profile_id p)"

definition box :: "'r AppSettings \<Rightarrow> SandboxConfig" where
  "box c = sandbox (automation c)"

text \<open>The rules that cannot be overridden by another rule.\<close>

definition holds_firmly :: "AiCatalog \<Rightarrow> ManagedConfig \<Rightarrow> 'r AppSettings \<Rightarrow> bool" where
  "holds_firmly cat m c \<longleftrightarrow>
     demands (min_pii_filter_level m) (\<lambda>v. v \<le> pii_filter_level c) \<and>
     demands (lock_crash_reports m) (\<lambda>v. crash_reports (telemetry c) = v) \<and>
     demands (lock_capture_enabled m) (\<lambda>v. capture_enabled (vision c) = v) \<and>
     demands (lock_cloud_stt_policy m) (\<lambda>v. cloud_stt_policy c = v) \<and>
     demands (lock_update_enabled m) (\<lambda>v. update_enabled (update_settings c) = v) \<and>
     demands (lock_min_allowed_version m) (\<lambda>v. min_allowed_version (update_settings c) = Some v) \<and>
     demands (lock_max_allowed_version m) (\<lambda>v. max_allowed_version (update_settings c) = Some v) \<and>
     (pin_automation (features m) = Some PinDisabled \<longrightarrow> \<not> automation_enabled (automation c)) \<and>
     (pin_telemetry (features m) = Some PinDisabled \<longrightarrow> \<not> telemetry_enabled (telemetry c)) \<and>
     (pin_sync (features m) = Some PinDisabled \<longrightarrow> \<not> sync_enabled c) \<and>
     (pin_external_ocr_llm (features m) = Some PinDisabled \<longrightarrow>
        \<not> uses_external (ai_provider c) \<and> \<not> bypass_pii_filter_for_external_ocr (ai_provider c)) \<and>
     (is_enforced (provider_surfaces m) \<longrightarrow>
        (ocr_provider (ai_provider c) = OcrRemote \<longrightarrow>
           listed cat (allowlist (provider_surfaces m)) (ocr_api (ai_provider c))) \<and>
        (llm_provider (ai_provider c) = LlmRemote \<longrightarrow>
           listed cat (allowlist (provider_surfaces m)) (llm_api (ai_provider c)))) \<and>
     (require_sandbox_enabled (sandbox_network m) \<longrightarrow> sandbox_enabled (box c)) \<and>
     demands (minimum_profile (sandbox_network m))
       (\<lambda>q. sandbox_profile_rank q \<le> sandbox_profile_rank (profile (box c))) \<and>
     (deny_network (sandbox_network m) \<or> deny_local_targets (sandbox_network m) \<or>
        deny_local_binding (sandbox_network m) \<longrightarrow> \<not> config_allow_network (box c)) \<and>
     demands (min_retention_days m) (\<lambda>days. days \<le> audit_retention_days c)"

text \<open>Every rule, taken literally.\<close>

definition complies :: "AiCatalog \<Rightarrow> ManagedConfig \<Rightarrow> 'r AppSettings \<Rightarrow> bool" where
  "complies cat m c \<longleftrightarrow>
     holds_firmly cat m c \<and>
     demands (lock_pii_filter_level m) (\<lambda>v. pii_filter_level c = v) \<and>
     demands (lock_telemetry_enabled m) (\<lambda>v. telemetry_enabled (telemetry c) = v) \<and>
     builtin_allowed m (profile (box c))"

text \<open>
  The rules with their precedence: a minimum filter level beats a lower locked level, a disabled
  feature beats a locked switch, and a minimum profile beats the list of profiles.
\<close>

definition guarantees :: "AiCatalog \<Rightarrow> ManagedConfig \<Rightarrow> 'r AppSettings \<Rightarrow> bool" where
  "guarantees cat m c \<longleftrightarrow>
     holds_firmly cat m c \<and>
     demands (lock_pii_filter_level m)
       (\<lambda>v. pii_filter_level c =
              (case min_pii_filter_level m of None \<Rightarrow> v | Some w \<Rightarrow> max v w)) \<and>
     demands (lock_telemetry_enabled m)
       (\<lambda>v. telemetry_enabled (telemetry c) = (v \<and> pin_telemetry (features m) \<noteq> Some PinDisabled)) \<and>
     (builtin_allowed m (profile (box c)) \<or>
      minimum_profile (sandbox_network m) = Some (profile (box c)))"

definition pii_conflict :: "ManagedConfig \<Rightarrow> bool" where
  "pii_conflict m =
     (case (lock_pii_filter_level m, min_pii_filter_level m) of (Some v, Some w) \<Rightarrow> v < w | _ \<Rightarrow> False)"

definition telemetry_conflict :: "ManagedConfig \<Rightarrow> bool" where
  "telemetry_conflict m \<longleftrightarrow>
     lock_telemetry_enabled m = Some True \<and> pin_telemetry (features m) = Some PinDisabled"

definition profile_conflict :: "ManagedConfig \<Rightarrow> bool" where
  "profile_conflict m \<longleftrightarrow>
     (case minimum_profile (sandbox_network m) of
        None \<Rightarrow> False
      | Some q \<Rightarrow> \<not> builtin_allowed m q \<and>
          list_ex (\<lambda>p. builtin_allowed m p \<and> sandbox_profile_rank p < sandbox_profile_rank q)
            [Permissive, Standard, Strict])"

definition consistent :: "ManagedConfig \<Rightarrow> bool" where
  "consistent m \<longleftrightarrow> \<not> pii_conflict m \<and> \<not> telemetry_conflict m \<and> \<not> profile_conflict m"

section \<open>Violations\<close>

lemmas policy_clamp_defs = policy_clamps_def value_clamps_def apply_feature_pins_def
  apply_permission_profile_policy_def apply_provider_surface_policy_def
  apply_sandbox_network_policy_def apply_audit_policy_def

lemma lock_simps [simp]:
  "fires (lock v get put n) c \<longleftrightarrow> (\<exists>x. v = Some x \<and> get c \<noteq> x)"
  "repair (lock v get put n) c = (case v of None \<Rightarrow> c | Some x \<Rightarrow> put x c)"
  "clamp_names (lock v get put n) = [n]"
  by (auto simp: lock_def split: option.splits)

lemma policy_clamps_named:
  "list_all (\<lambda>c. \<forall>s. fires c s \<longrightarrow> clamp_names c \<noteq> []) (policy_clamps cat m)"
  by (simp add: policy_clamp_defs)

lemma forbidden_ocr_iff:
  assumes "is_enforced p"
  shows "forbidden_ocr cat p a \<longleftrightarrow> ocr_provider a = OcrRemote \<and> \<not> listed cat (allowlist p) (ocr_api a)"
  using assms
  by (auto simp: forbidden_ocr_def allows_surface_def listed_def list_ex_iff split: option.splits)

lemma forbidden_llm_iff:
  assumes "is_enforced p"
  shows "forbidden_llm cat p a \<longleftrightarrow> llm_provider a = LlmRemote \<and> \<not> listed cat (allowlist p) (llm_api a)"
  using assms
  by (auto simp: forbidden_llm_def allows_surface_def listed_def list_ex_iff split: option.splits)

lemma satisfied_append [simp]: "satisfied (xs @ ys) s \<longleftrightarrow> satisfied xs s \<and> satisfied ys s"
  by (simp add: satisfied_def)

lemma network_denial_fields_iff:
  "network_denial_fields p = [] \<longleftrightarrow> \<not> deny_network p \<and> \<not> deny_local_targets p \<and> \<not> deny_local_binding p"
  by (simp add: network_denial_fields_def)

lemma demands_iff: "demands v P \<longleftrightarrow> (\<forall>x. v = Some x \<longrightarrow> P x)"
  by (auto simp: demands_def split: option.splits)

lemma satisfied_iff_complies: "satisfied (policy_clamps cat m) c \<longleftrightarrow> complies cat m c"
proof -
  have 1: "satisfied (value_clamps m) c \<longleftrightarrow>
     demands (lock_pii_filter_level m) (\<lambda>v. pii_filter_level c = v) \<and>
     demands (min_pii_filter_level m) (\<lambda>v. v \<le> pii_filter_level c) \<and>
     demands (lock_telemetry_enabled m) (\<lambda>v. telemetry_enabled (telemetry c) = v) \<and>
     demands (lock_crash_reports m) (\<lambda>v. crash_reports (telemetry c) = v) \<and>
     demands (lock_capture_enabled m) (\<lambda>v. capture_enabled (vision c) = v) \<and>
     demands (lock_cloud_stt_policy m) (\<lambda>v. cloud_stt_policy c = v) \<and>
     demands (lock_update_enabled m) (\<lambda>v. update_enabled (update_settings c) = v) \<and>
     demands (lock_min_allowed_version m) (\<lambda>v. min_allowed_version (update_settings c) = Some v) \<and>
     demands (lock_max_allowed_version m) (\<lambda>v. max_allowed_version (update_settings c) = Some v)"
    by (simp add: satisfied_def value_clamps_def demands_iff not_less split: option.splits) blast
  have 2: "satisfied (apply_feature_pins m) c \<longleftrightarrow>
     (pin_automation (features m) = Some PinDisabled \<longrightarrow> \<not> automation_enabled (automation c)) \<and>
     (pin_telemetry (features m) = Some PinDisabled \<longrightarrow> \<not> telemetry_enabled (telemetry c)) \<and>
     (pin_sync (features m) = Some PinDisabled \<longrightarrow> \<not> sync_enabled c) \<and>
     (pin_external_ocr_llm (features m) = Some PinDisabled \<longrightarrow>
        \<not> uses_external (ai_provider c) \<and> \<not> bypass_pii_filter_for_external_ocr (ai_provider c))"
    by (auto simp: satisfied_def apply_feature_pins_def uses_external_def)
  have 3: "satisfied (apply_permission_profile_policy m) c \<longleftrightarrow> builtin_allowed m (profile (box c))"
    by (auto simp: satisfied_def apply_permission_profile_policy_def builtin_allowed_def box_def)
  have 4: "satisfied (apply_provider_surface_policy cat m) c \<longleftrightarrow>
     (is_enforced (provider_surfaces m) \<longrightarrow>
        (ocr_provider (ai_provider c) = OcrRemote \<longrightarrow>
           listed cat (allowlist (provider_surfaces m)) (ocr_api (ai_provider c))) \<and>
        (llm_provider (ai_provider c) = LlmRemote \<longrightarrow>
           listed cat (allowlist (provider_surfaces m)) (llm_api (ai_provider c))))"
    by (auto simp: satisfied_def apply_provider_surface_policy_def forbidden_ocr_iff forbidden_llm_iff)
  have 5: "satisfied (apply_sandbox_network_policy m) c \<longleftrightarrow>
     (require_sandbox_enabled (sandbox_network m) \<longrightarrow> sandbox_enabled (box c)) \<and>
     demands (minimum_profile (sandbox_network m))
       (\<lambda>q. sandbox_profile_rank q \<le> sandbox_profile_rank (profile (box c))) \<and>
     (deny_network (sandbox_network m) \<or> deny_local_targets (sandbox_network m) \<or>
        deny_local_binding (sandbox_network m) \<longrightarrow> \<not> config_allow_network (box c))"
    by (auto simp: satisfied_def apply_sandbox_network_policy_def demands_iff box_def not_less
        network_denial_fields_iff split: option.splits)
  have 6: "satisfied (apply_audit_policy m) c \<longleftrightarrow>
     demands (min_retention_days m) (\<lambda>days. days \<le> audit_retention_days c)"
    by (auto simp: satisfied_def apply_audit_policy_def demands_iff not_less split: option.splits)
  show ?thesis
    unfolding policy_clamps_def satisfied_append 1 2 3 4 5 6 complies_def holds_firmly_def by blast
qed

lemma violations_iff: "violations cat m c = [] \<longleftrightarrow> complies cat m c"
  unfolding violations_def apply_policy_def
  using run_clamps_silent [OF policy_clamps_named] satisfied_iff_complies by blast


section \<open>Clamping settles\<close>

text \<open>The clamps another rule of the policy overrides.\<close>

definition overridden :: "ManagedConfig \<Rightarrow> 'r AppSettings clamp \<Rightarrow> bool" where
  "overridden m c \<longleftrightarrow>
     (clamp_names c = [''privacy.pii_filter_level''] \<and> pii_conflict m) \<or>
     (clamp_names c = [''telemetry.enabled''] \<and> telemetry_conflict m) \<or>
     (clamp_names c = profile_locked_fields (permission_profiles m) \<and> profile_conflict m)"

lemma keeps_lock:
  assumes "\<And>s. get (repair d s) = get s"
  shows "keeps (lock v get put n) d"
  using assms by (simp add: keeps_def)

lemma local_simps [simp]:
  "ocr_provider (local_ocr a) = OcrLocal" "llm_provider (local_ocr a) = llm_provider a"
  "llm_api (local_ocr a) = llm_api a"
  "bypass_pii_filter_for_external_ocr (local_ocr a) = bypass_pii_filter_for_external_ocr a"
  "llm_provider (local_llm a) = LlmLocal" "ocr_provider (local_llm a) = ocr_provider a"
  "ocr_api (local_llm a) = ocr_api a"
  "bypass_pii_filter_for_external_ocr (local_llm a) = bypass_pii_filter_for_external_ocr a"
  by (simp_all add: local_ocr_def local_llm_def)

lemma disable_external_off [simp]:
  "ocr_provider (disable_external a) \<noteq> OcrRemote"
  "llm_provider (disable_external a) \<noteq> LlmRemote"
  "\<not> bypass_pii_filter_for_external_ocr (disable_external a)"
  by (auto simp: disable_external_def Let_def)

lemma restrict_surfaces_keeps:
  "ocr_provider a \<noteq> OcrRemote \<Longrightarrow> ocr_provider (restrict_surfaces cat p a) \<noteq> OcrRemote"
  "llm_provider a \<noteq> LlmRemote \<Longrightarrow> llm_provider (restrict_surfaces cat p a) \<noteq> LlmRemote"
  "bypass_pii_filter_for_external_ocr (restrict_surfaces cat p a) = bypass_pii_filter_for_external_ocr a"
  by (auto simp: restrict_surfaces_def Let_def)

lemma restrict_surfaces_off [simp]:
  "\<not> forbidden_ocr cat p (restrict_surfaces cat p a)"
  "\<not> forbidden_llm cat p (restrict_surfaces cat p a)"
  by (auto simp: restrict_surfaces_def forbidden_ocr_def forbidden_llm_def Let_def)

lemma strictest_allowed:
  "has_supported_builtin_profile p \<Longrightarrow>
     allows_profile p (sandbox_profile_id (strictest_allowed_builtin_profile p))"
  by (auto simp: has_supported_builtin_profile_def strictest_allowed_builtin_profile_def)

lemma map_sandbox_simps [simp]:
  "automation (map_sandbox f c) = (automation c)\<lparr>sandbox := f (sandbox (automation c))\<rparr>"
  "telemetry (map_sandbox f c) = telemetry c" "vision (map_sandbox f c) = vision c"
  "pii_filter_level (map_sandbox f c) = pii_filter_level c"
  "cloud_stt_policy (map_sandbox f c) = cloud_stt_policy c"
  "update_settings (map_sandbox f c) = update_settings c" "sync_enabled (map_sandbox f c) = sync_enabled c"
  "ai_provider (map_sandbox f c) = ai_provider c"
  "audit_retention_days (map_sandbox f c) = audit_retention_days c"
  by (simp_all add: map_sandbox_def)

text \<open>
  A clamp whose condition reads what another does not write is kept by it. The three pairs that are
  left are the possible contradictions of a policy.
\<close>

lemma keeps_independent: "(\<And>s. fires c (repair d s) = fires c s) \<Longrightarrow> keeps c d"
  by (simp add: keeps_def)

lemma pii_kept:
  "\<not> pii_conflict m \<Longrightarrow> lock_pii_filter_level m = Some v \<Longrightarrow> min_pii_filter_level m = Some w \<Longrightarrow> \<not> v < w"
  by (simp add: pii_conflict_def)

lemma telemetry_kept:
  "\<not> telemetry_conflict m \<Longrightarrow> pin_telemetry (features m) = Some PinDisabled \<Longrightarrow>
     lock_telemetry_enabled m \<noteq> Some True"
  by (simp add: telemetry_conflict_def)

lemma profile_kept:
  assumes "\<not> profile_conflict m" and "minimum_profile (sandbox_network m) = Some q"
    and "builtin_allowed m p" and "sandbox_profile_rank p < sandbox_profile_rank q"
  shows "builtin_allowed m q"
  using assms by (cases p) (auto simp: profile_conflict_def)

lemma policy_ordered:
  "sorted_wrt (\<lambda>c d. \<not> overridden m c \<longrightarrow> keeps c d) (policy_clamps cat m)"
  apply (simp only: policy_clamp_defs append.simps sorted_wrt.simps list.simps insert_iff ball_simps simp_thms)
  apply (intro conjI impI;
    ((rule keeps_lock, (simp split: option.split; fail)) |
     (rule keeps_independent, (simp split: option.split; fail)) | succeed))
  subgoal by (auto simp: keeps_def overridden_def pii_conflict_def split: option.splits)
  subgoal by (auto simp: keeps_def overridden_def telemetry_conflict_def)
  subgoal by (simp add: keeps_def restrict_surfaces_keeps)
  subgoal by (auto simp: keeps_def overridden_def builtin_allowed_def dest: profile_kept split: option.splits)
  done

definition bundle_ok :: "ManagedConfig \<Rightarrow> bool" where
  "bundle_ok m \<longleftrightarrow>
     profile_locked_fields (permission_profiles m) = [] \<or>
     has_supported_builtin_profile (permission_profiles m)"

lemma policy_effective:
  assumes "bundle_ok m"
  shows "list_all effective (policy_clamps cat m)"
  using assms strictest_allowed [of "permission_profiles m"]
  by (simp add: policy_clamp_defs effective_def bundle_ok_def split: option.split) blast

lemma policy_settles:
  fixes c :: "'r AppSettings"
  assumes "bundle_ok m" and "d \<in> set (policy_clamps cat m)" and "\<not> overridden m d"
  shows "\<not> fires d (fst (apply_policy cat m c))"
proof -
  have "list_all effective (policy_clamps cat m :: 'r AppSettings clamp list)"
    by (rule policy_effective [OF assms(1)])
  then have "list_all (\<lambda>d. \<not> overridden m d \<longrightarrow> \<not> fires d (fst (run_clamps (policy_clamps cat m) c)))
               (policy_clamps cat m)"
    by (intro run_clamps_settles policy_ordered) (simp add: list_all_iff)
  then show ?thesis using assms(2,3) by (simp add: apply_policy_def list_all_iff)
qed

lemma consistent_complies:
  fixes c :: "'r AppSettings"
  assumes "bundle_ok m" and "consistent m"
  shows "complies cat m (fst (apply_policy cat m c))"
proof -
  have "\<not> overridden m d" for d :: "'r AppSettings clamp"
    using assms(2) by (auto simp: overridden_def consistent_def)
  with policy_settles [OF assms(1), where c = c]
  have "satisfied (policy_clamps cat m) (fst (apply_policy cat m c))"
    by (simp add: satisfied_def list_all_iff)
  then show ?thesis by (simp add: satisfied_iff_complies)
qed

section \<open>What always holds\<close>

text \<open>
  The part of a policy that no rule overrides is a policy of its own, whose clamps are among those of
  the whole policy that are never overridden.
\<close>

definition firm_part :: "ManagedConfig \<Rightarrow> ManagedConfig" where
  "firm_part m =
     m\<lparr>lock_pii_filter_level := None, lock_telemetry_enabled := None,
       permission_profiles := \<lparr>allowed_profiles = [], denied_profiles = []\<rparr>\<rparr>"

lemma firm_part_complies: "complies cat (firm_part m) c \<longleftrightarrow> holds_firmly cat m c"
  by (simp add: complies_def holds_firmly_def firm_part_def demands_def builtin_allowed_def
      profile_locked_fields_def)

lemma one_profile_name:
  "[s] = profile_locked_fields p \<longleftrightarrow>
     (s = ''permission_profiles.allowed_profiles'' \<and> allowed_profiles p \<noteq> [] \<and> denied_profiles p = []) \<or>
     (s = ''permission_profiles.denied_profiles'' \<and> allowed_profiles p = [] \<and> denied_profiles p \<noteq> [])"
  by (auto simp: profile_locked_fields_def)

lemma network_names:
  "network_denial_fields q = profile_locked_fields p \<longleftrightarrow>
     network_denial_fields q = [] \<and> profile_locked_fields p = []"
  "network_denial_fields q \<noteq> [''privacy.pii_filter_level'']"
  "network_denial_fields q \<noteq> [''telemetry.enabled'']"
  by (auto simp: profile_locked_fields_def network_denial_fields_def)

lemma guarantees_firmly:
  fixes c :: "'r AppSettings"
  assumes "bundle_ok m"
  shows "holds_firmly cat m (fst (apply_policy cat m c))"
proof -
  let ?r = "fst (apply_policy cat m c)"
  have "list_all (\<lambda>d. clamp_names d \<in> {[''privacy.pii_filter_level''], [''telemetry.enabled''],
          profile_locked_fields (permission_profiles m)} \<or> \<not> fires d ?r) (policy_clamps cat m)"
    using policy_settles [OF assms, where c = c] by (auto simp: list_all_iff overridden_def)
  then have "satisfied (policy_clamps cat (firm_part m)) ?r"
    by (simp add: satisfied_def policy_clamp_defs one_profile_name network_names firm_part_def
        profile_locked_fields_def [of "\<lparr>allowed_profiles = [], denied_profiles = []\<rparr>"]) blast
  then show ?thesis by (simp add: satisfied_iff_complies firm_part_complies)
qed

text \<open>What the locked filter level and the locked telemetry switch become.\<close>

lemma run_clamps_untouched:
  assumes "list_all (\<lambda>d. \<forall>s. sel (repair d s) = sel s) cs"
  shows "sel (fst (run_clamps cs s)) = sel s"
  using assms by (induction cs arbitrary: s) (auto simp: split_beta Let_def)

lemma apply_policy_pii:
  "pii_filter_level (fst (apply_policy cat m c)) =
     (let v = (case lock_pii_filter_level m of None \<Rightarrow> pii_filter_level c | Some v \<Rightarrow> v)
      in case min_pii_filter_level m of None \<Rightarrow> v | Some w \<Rightarrow> max v w)"
proof -
  have split: "policy_clamps cat m = take 2 (policy_clamps cat m) @ drop 2 (policy_clamps cat m)"
    by simp
  have rest: "pii_filter_level (fst (run_clamps (drop 2 (policy_clamps cat m)) s)) = pii_filter_level s"
    for s :: "'a AppSettings"
    by (rule run_clamps_untouched) (simp add: policy_clamp_defs split: option.split)
  have "pii_filter_level (fst (apply_policy cat m c)) =
          pii_filter_level (fst (run_clamps (take 2 (policy_clamps cat m)) c))"
    unfolding apply_policy_def
    by (subst split) (simp add: run_clamps_append split_beta Let_def rest del: append_take_drop_id)
  then show ?thesis
    by (auto simp: policy_clamp_defs Let_def max_def split: option.split)
qed

lemma lock_settles:
  fixes c :: "'r AppSettings"
  assumes "bundle_ok m" and "\<not> telemetry_conflict m" and "lock_telemetry_enabled m = Some v"
  shows "telemetry_enabled (telemetry (fst (apply_policy cat m c))) = v"
proof -
  let ?d = "lock (lock_telemetry_enabled m) (\<lambda>c. telemetry_enabled (telemetry c))
      (\<lambda>v c. c\<lparr>telemetry := (telemetry c)\<lparr>telemetry_enabled := v\<rparr>\<rparr>) ''telemetry.enabled''
      :: 'r AppSettings clamp"
  have "?d \<in> set (policy_clamps cat m)" by (simp add: policy_clamps_def value_clamps_def)
  moreover have "\<not> overridden m ?d"
    using assms(2) by (simp add: overridden_def one_profile_name)
  ultimately have "\<not> fires ?d (fst (apply_policy cat m c))"
    by (rule policy_settles [OF assms(1)])
  then show ?thesis using assms(3) by simp
qed

lemma apply_policy_profile:
  "profile (box (fst (apply_policy cat m c))) =
     (let p = (if builtin_allowed m (profile (box c)) then profile (box c)
               else strictest_allowed_builtin_profile (permission_profiles m))
      in case minimum_profile (sandbox_network m) of
           None \<Rightarrow> p
         | Some q \<Rightarrow> if sandbox_profile_rank p < sandbox_profile_rank q then q else p)"
proof -
  have quiet:
    "profile (box (fst (run_clamps (value_clamps m) s))) = profile (box s)"
    "profile (box (fst (run_clamps (apply_feature_pins m) s))) = profile (box s)"
    "profile (box (fst (run_clamps (apply_provider_surface_policy cat m) s))) = profile (box s)"
    "profile (box (fst (run_clamps (apply_audit_policy m) s))) = profile (box s)"
    for s :: "'a AppSettings"
    by (rule run_clamps_untouched,
        simp add: value_clamps_def apply_feature_pins_def apply_provider_surface_policy_def
          apply_audit_policy_def box_def split: option.split)+
  have perm: "profile (box (fst (run_clamps (apply_permission_profile_policy m) s))) =
      (if builtin_allowed m (profile (box s)) then profile (box s)
       else strictest_allowed_builtin_profile (permission_profiles m))" for s :: "'a AppSettings"
    by (simp add: apply_permission_profile_policy_def builtin_allowed_def box_def)
  have sand: "profile (box (fst (run_clamps (apply_sandbox_network_policy m) s))) =
      (case minimum_profile (sandbox_network m) of
         None \<Rightarrow> profile (box s)
       | Some q \<Rightarrow> if sandbox_profile_rank (profile (box s)) < sandbox_profile_rank q then q
                   else profile (box s))" for s :: "'a AppSettings"
    by (simp add: apply_sandbox_network_policy_def box_def split_beta Let_def split: option.split)
  show ?thesis
    by (simp add: apply_policy_def policy_clamps_def run_clamps_append split_beta Let_def quiet perm sand
        split: option.split)
qed

lemma apply_guarantees:
  assumes "bundle_ok m"
  shows "guarantees cat m (fst (apply_policy cat m c))"
proof -
  have firm: "holds_firmly cat m (fst (apply_policy cat m c))" by (rule guarantees_firmly [OF assms])
  have "demands (lock_telemetry_enabled m) (\<lambda>v. telemetry_enabled (telemetry (fst (apply_policy cat m c))) =
          (v \<and> pin_telemetry (features m) \<noteq> Some PinDisabled))"
  proof (cases "pin_telemetry (features m) = Some PinDisabled")
    case True
    then show ?thesis using firm by (simp add: holds_firmly_def demands_iff)
  next
    case False
    then show ?thesis
      using lock_settles [OF assms, where c = c] by (simp add: demands_iff telemetry_conflict_def)
  qed
  moreover have "builtin_allowed m (profile (box (fst (apply_policy cat m c)))) \<or>
      minimum_profile (sandbox_network m) = Some (profile (box (fst (apply_policy cat m c))))"
    using assms strictest_allowed [of "permission_profiles m"]
    by (auto simp: apply_policy_profile bundle_ok_def builtin_allowed_def Let_def split: option.split)
  moreover have "demands (lock_pii_filter_level m) (\<lambda>v. pii_filter_level (fst (apply_policy cat m c)) =
      (case min_pii_filter_level m of None \<Rightarrow> v | Some w \<Rightarrow> max v w))"
    by (auto simp: apply_policy_pii demands_iff Let_def split: option.split)
  ultimately show ?thesis
    using firm by (simp add: guarantees_def)
qed

lemma validate_bundle_ok: "validate_bundle cat m = Inr () \<Longrightarrow> bundle_ok m"
  by (auto simp: validate_bundle_def bundle_ok_def split: list.splits if_splits)

section \<open>Contradictory policies\<close>

text \<open>A policy with a contradiction is violated by what it makes of some configuration.\<close>

lemma compliesD:
  assumes "complies cat m c"
  shows "lock_pii_filter_level m = Some v \<Longrightarrow> pii_filter_level c = v"
    and "min_pii_filter_level m = Some w \<Longrightarrow> w \<le> pii_filter_level c"
    and "lock_telemetry_enabled m = Some b \<Longrightarrow> telemetry_enabled (telemetry c) = b"
    and "pin_telemetry (features m) = Some PinDisabled \<Longrightarrow> \<not> telemetry_enabled (telemetry c)"
    and "builtin_allowed m (profile (box c))"
  using assms by (simp_all add: complies_def holds_firmly_def demands_iff)

lemma complies_consistent:
  fixes c :: "'r AppSettings"
  assumes "\<And>c :: 'r AppSettings. complies cat m (fst (apply_policy cat m c))"
  shows "consistent m"
proof -
  note result = compliesD [OF assms [of c]]
  have "\<not> pii_conflict m"
    using result(1,2) by (fastforce simp: pii_conflict_def split: option.splits)
  moreover have "\<not> telemetry_conflict m"
    using result(3,4) by (auto simp: telemetry_conflict_def)
  moreover have "\<not> profile_conflict m"
  proof
    assume "profile_conflict m"
    then obtain p q where q: "minimum_profile (sandbox_network m) = Some q" "\<not> builtin_allowed m q"
      and p: "builtin_allowed m p" "sandbox_profile_rank p < sandbox_profile_rank q"
      by (auto simp: profile_conflict_def split: option.splits)
    have "profile (box (fst (apply_policy cat m (map_sandbox (\<lambda>s. s\<lparr>profile := p\<rparr>) c)))) = q"
      using p q(1) by (simp add: apply_policy_profile Let_def) (simp add: box_def)
    then show False using compliesD(5) [OF assms [of "map_sandbox (\<lambda>s. s\<lparr>profile := p\<rparr>) c"]] q(2) by simp
  qed
  ultimately show ?thesis by (simp add: consistent_def)
qed


section \<open>Properties\<close>

definition sample_catalog :: AiCatalog where
  "sample_catalog =
     \<lparr>surface_catalog = Some [\<lparr>surface_spec_id = ''provider_surface.openai.managed_oauth'',
        surface_vendor_id = ''openai'', surface_provider_type = OpenAi, surface_transport = ManagedOAuth,
        supports_llm = True, supports_ocr = False, uses_no_auth = False\<rparr>],
      vendor_catalog = Some [\<lparr>vendor_id = ''openai'', vendor_provider_type = OpenAi, vendor_aliases = []\<rparr>],
      lifecycle_json = Some [], parse_rfc3339 = \<lambda>_. None\<rparr>"

definition sample_managed_policy :: ManagedConfig where
  "sample_managed_policy =
     empty_policy\<lparr>min_pii_filter_level := Some PiiStrict, lock_capture_enabled := Some False,
       provider_surfaces := \<lparr>enforce = True, allowlist = [''provider_surface.openai.managed_oauth'']\<rparr>,
       permission_profiles := \<lparr>allowed_profiles = [], denied_profiles = ['' PERMISSIVE'']\<rparr>\<rparr>"

lemma sample_managed_policy_valid: "validate_bundle sample_catalog sample_managed_policy = Inr ()"
  by code_simp





text \<open>
  A policy that locks the filter level below its own minimum loads, and its result violates it again:
  every later write of the user is reported as a violation.
\<close>

theorem contradictory_policy_loads:
  "validate_bundle cat (empty_policy\<lparr>lock_pii_filter_level := Some PiiOff,
                                   min_pii_filter_level := Some PiiStandard\<rparr>) = Inr () \<and>
   (\<forall>c. violations cat (empty_policy\<lparr>lock_pii_filter_level := Some PiiOff,
                                   min_pii_filter_level := Some PiiStandard\<rparr>) c \<noteq> [])"
proof -
  have "\<not> complies cat (empty_policy\<lparr>lock_pii_filter_level := Some PiiOff,
          min_pii_filter_level := Some PiiStandard\<rparr>) c" for c :: "'a AppSettings"
    by (auto simp: complies_def holds_firmly_def demands_def empty_policy_def less_eq_PiiFilterLevel_def)
  then show ?thesis
    by (simp add: violations_iff)
      (simp add: validate_bundle_def validate_signature_def empty_policy_def unsupported_runtime_pins_def
        profile_locked_fields_def)
qed

text \<open>A minimum profile puts back a profile that the same policy denies.\<close>

theorem minimum_profile_beats_denial:
  "profile (box (fst (apply_policy cat
      (empty_policy\<lparr>permission_profiles := \<lparr>allowed_profiles = [], denied_profiles = [''strict'']\<rparr>,
        sandbox_network := (sandbox_network empty_policy)\<lparr>minimum_profile := Some Strict\<rparr>\<rparr>)
      (default_settings v rest)))) = Strict"
  unfolding apply_policy_profile
  by (simp add: empty_policy_def default_settings_def box_def builtin_allowed_def
      allows_profile_def normalize_policy_token_def profile_locked_fields_def
      strictest_allowed_builtin_profile_def Let_def)

text \<open>
  The allow list of surfaces governs the selected endpoints only: a fallback endpoint of a surface
  that is not listed survives.
\<close>

theorem fallback_escapes_allowlist:
  assumes "complies cat m c" and "\<not> listed cat (allowlist (provider_surfaces m)) (Some ep)"
  shows "llm_api_fallback (ai_provider (fst (apply_policy cat m
           (c\<lparr>ai_provider := (ai_provider c)\<lparr>llm_api_fallback := Some ep\<rparr>\<rparr>)))) = Some ep"
proof -
  let ?c = "c\<lparr>ai_provider := (ai_provider c)\<lparr>llm_api_fallback := Some ep\<rparr>\<rparr>"
  have "complies cat m ?c"
    using assms(1) by (simp add: complies_def holds_firmly_def box_def uses_external_def)
  then have "fst (apply_policy cat m ?c) = ?c"
    by (metis apply_policy_def fst_conv run_clamps_satisfied satisfied_iff_complies)
  then show ?thesis by simp
qed

text \<open>
  The report of the effective settings tells the truth about disabled features: such a feature is
  listed with the effective value off.
\<close>

theorem report_of_disabled_features:
  assumes "validate_bundle cat m = Inr ()" and "pin_automation (features m) = Some PinDisabled"
  shows "\<lparr>setting_path = ''features.automation'', user_value = automation_enabled (automation c),
          effective_value = False, managed_reason = ''managed.feature.automation.disabled''\<rparr>
         \<in> set (effective_report cat m c)"
  using guarantees_firmly [OF validate_bundle_ok [OF assms(1)], of cat c] assms(2)
  by (simp add: effective_report_def push_feature_effective_entry_def feature_pin_reason_def
      holds_firmly_def Let_def)

end
