(* ===== verification/Config_Manager.thy ===== *)
theory Config_Manager
  imports Managed_Properties
begin

text \<open>
  The configuration manager (\<open>maekon-core/src/config_manager/\<close>: \<open>mod.rs\<close>, \<open>persistence.rs\<close>,
  \<open>migration.rs\<close>): start-up with its migration, recovery and clamps, the two writers, the reload, and
  the file they share with newer clients, with hand edits and with an administrator.

  The file is what parsing it gives; a save writes a temporary file and renames it, so it either
  replaces the file or leaves it (\<open>ok\<close> says which). The lock makes every operation one step. The
  broadcast keeps only the last value, so the value in memory is the model of the channel.
\<close>

section \<open>Files\<close>

datatype PathComponent = RootDir | CurDir | ParentDir | NormalComponent string

definition validate_config_file_path :: "PathComponent list \<Rightarrow> ConfigFailure + unit" where
  "validate_config_file_path path =
     (if path = [] \<or> (case last path of NormalComponent _ \<Rightarrow> False | _ \<Rightarrow> True)
      then Inl (ConfigError CodeInvalid ''path'')
      else if ParentDir \<in> set path then Inl (ConfigError CodeInvalid ''traversal'')
      else Inr ())"

datatype 'r ConfigFile = FileAbsent | FileBroken | FileHolds "'r AppSettings"

definition config_load_from_file ::
  "PathComponent list \<Rightarrow> 'r ConfigFile \<Rightarrow> ConfigFailure + 'r AppSettings" where
  "config_load_from_file path file =
     (case validate_config_file_path path of
        Inl e \<Rightarrow> Inl e
      | Inr _ \<Rightarrow>
          (case file of
             FileAbsent \<Rightarrow> Inl (ConfigError CodeInvalid ''canonicalize'')
           | FileBroken \<Rightarrow> Inl (ConfigError CodeInvalid ''parse'')
           | FileHolds c \<Rightarrow> Inr c))"

definition config_save_to_file ::
  "PathComponent list \<Rightarrow> bool \<Rightarrow> 'r AppSettings \<Rightarrow> 'r ConfigFile \<Rightarrow> (ConfigFailure + unit) \<times> 'r ConfigFile" where
  "config_save_to_file path ok config file =
     (case validate_config_file_path path of
        Inl e \<Rightarrow> (Inl e, file)
      | Inr _ \<Rightarrow>
          if ok then (Inr (), FileHolds config) else (Inl (ConfigError CodeInvalid ''write''), file))"

definition load_and_migrate_from_file ::
  "PathComponent list \<Rightarrow> bool \<Rightarrow> 'r ConfigFile \<Rightarrow> (ConfigFailure + 'r AppSettings) \<times> 'r ConfigFile" where
  "load_and_migrate_from_file path ok file =
     (case config_load_from_file path file of
        Inl e \<Rightarrow> (Inl e, file)
      | Inr config \<Rightarrow>
          if settings_version config > CONFIG_SCHEMA_VERSION
          then (Inl (ConfigError CodeSchemaTooNew ''schema_version''), file)
          else (let (config', migrated) = migrate_loaded_config config
                in if migrated then (Inr config', snd (config_save_to_file path ok config' file))
                   else (Inr config', file)))"

section \<open>The manager\<close>

record ('v, 'r) ManagerEnv =
  env_catalog :: AiCatalog
  env_update :: "'v UpdateEnv"
  env_build_version :: string
  env_rest :: 'r

record 'r ManagerState =
  current :: "'r AppSettings"
  managed :: "ManagedConfig option"
  config_reset_from_corruption :: bool

text \<open>Which system calls of a start succeed.\<close>

record StartCalls =
  directory_ok :: bool
  migration_ok :: bool
  seed_ok :: bool
  managed_ok :: bool
  bounds_ok :: bool

definition load_initial ::
  "('v, 'r) ManagerEnv \<Rightarrow> PathComponent list \<Rightarrow> StartCalls \<Rightarrow> 'r ConfigFile \<Rightarrow>
   (ConfigFailure + 'r AppSettings \<times> bool \<times> bool) \<times> 'r ConfigFile" where
  "load_initial env path calls file =
     (if file = FileAbsent
      then (let c = default_settings (env_build_version env) (env_rest env)
            in case config_save_to_file path (seed_ok calls) c file of
                 (Inl e, file') \<Rightarrow> (Inl e, file')
               | (Inr _, file') \<Rightarrow> (Inr (c, False, False), file'))
      else (case load_and_migrate_from_file path (migration_ok calls) file of
              (Inr c, file') \<Rightarrow> (Inr (c, False, False), file')
            | (Inl e, file') \<Rightarrow>
                (let c = fail_closed_recovery_default (env_build_version env) (env_rest env)
                 in case e of
                      ConfigError CodeSchemaTooNew _ \<Rightarrow> (Inr (c, True, True), file')
                    | _ \<Rightarrow> (Inr (c, True, False), snd (config_save_to_file path (seed_ok calls) c file')))))"

definition enforce_managed_overlay ::
  "AiCatalog \<Rightarrow> ManagedConfig option \<Rightarrow> 'r AppSettings \<Rightarrow> 'r AppSettings \<times> string list" where
  "enforce_managed_overlay cat policy c =
     (case policy of None \<Rightarrow> (c, []) | Some m \<Rightarrow> apply_policy cat m c)"

text \<open>A clamp at start-up rewrites the file, unless a newer client wrote it.\<close>

definition persist_clamp ::
  "PathComponent list \<Rightarrow> bool \<Rightarrow> bool \<Rightarrow> string list \<Rightarrow> 'r AppSettings \<Rightarrow> 'r ConfigFile \<Rightarrow> 'r ConfigFile" where
  "persist_clamp path ok newer clamped c file =
     (if clamped = [] \<or> newer then file else snd (config_save_to_file path ok c file))"

definition with_paths ::
  "('v, 'r) ManagerEnv \<Rightarrow> PathComponent list \<Rightarrow> PolicyFile option \<Rightarrow> StartCalls \<Rightarrow> 'r ConfigFile \<Rightarrow>
   (ConfigFailure + 'r ManagerState) \<times> 'r ConfigFile" where
  "with_paths env path policy_path calls file =
     (case validate_config_file_path path of
        Inl e \<Rightarrow> (Inl e, file)
      | Inr _ \<Rightarrow>
          (case (case policy_path of
                   None \<Rightarrow> Inr None
                 | Some pf \<Rightarrow> load_managed_config (env_catalog env) pf) of
             Inl e \<Rightarrow> (Inl e, file)
           | Inr policy \<Rightarrow>
               if \<not> directory_ok calls then (Inl (ConfigError CodeInvalid ''directory''), file)
               else (case load_initial env path calls file of
                       (Inl e, file1) \<Rightarrow> (Inl e, file1)
                     | (Inr (c0, reset, newer), file1) \<Rightarrow>
                         (let (c1, clamped) = enforce_managed_overlay (env_catalog env) policy c0;
                              file2 = persist_clamp path (managed_ok calls) newer clamped c1 file1;
                              (c2, bounded) = clamp_bounds c1;
                              file3 = persist_clamp path (bounds_ok calls) newer bounded c2 file2
                          in (Inr \<lparr>current = c2, managed = policy, config_reset_from_corruption = reset\<rparr>,
                              file3)))))"

text \<open>What both writers do with a new configuration, after the closure of \<open>update_with\<close>.\<close>

definition update ::
  "('v, 'r) ManagerEnv \<Rightarrow> PathComponent list \<Rightarrow> instant \<Rightarrow> bool \<Rightarrow> 'r AppSettings \<Rightarrow> 'r ManagerState \<Rightarrow>
   'r ConfigFile \<Rightarrow> (ConfigFailure + unit) \<times> 'r ManagerState \<times> 'r ConfigFile" where
  "update env path now ok new_config s file =
     (let c = fst (enforce_managed_overlay (env_catalog env) (managed s) new_config)
      in case validate_bounds (env_catalog env) now c of
           Inl message \<Rightarrow> (Inl (ConfigError CodeInvalid message), s, file)
         | Inr _ \<Rightarrow>
             (case validate_integrity_policy (env_update env) (update_settings c) of
                Inl e \<Rightarrow> (Inl e, s, file)
              | Inr _ \<Rightarrow>
                  (case config_save_to_file path ok c file of
                     (Inl e, file') \<Rightarrow> (Inl e, s, file')
                   | (Inr _, file') \<Rightarrow> (Inr (), s\<lparr>current := c\<rparr>, file'))))"

definition update_with ::
  "('v, 'r) ManagerEnv \<Rightarrow> PathComponent list \<Rightarrow> instant \<Rightarrow> bool \<Rightarrow>
   ('r AppSettings \<Rightarrow> string + 'r AppSettings) \<Rightarrow> 'r ManagerState \<Rightarrow> 'r ConfigFile \<Rightarrow>
   (ConfigFailure + 'r AppSettings) \<times> 'r ManagerState \<times> 'r ConfigFile" where
  "update_with env path now ok updater s file =
     (case updater (current s) of
        Inl message \<Rightarrow> (Inl (ConfigError CodeInvalid message), s, file)
      | Inr c \<Rightarrow>
          (case update env path now ok c s file of
             (Inl e, s', file') \<Rightarrow> (Inl e, s', file')
           | (Inr _, s', file') \<Rightarrow> (Inr (current s'), s', file')))"

definition reload ::
  "('v, 'r) ManagerEnv \<Rightarrow> PathComponent list \<Rightarrow> instant \<Rightarrow> bool \<Rightarrow> 'r ManagerState \<Rightarrow> 'r ConfigFile \<Rightarrow>
   (ConfigFailure + unit) \<times> 'r ManagerState \<times> 'r ConfigFile" where
  "reload env path now ok s file =
     (case load_and_migrate_from_file path ok file of
        (Inl e, file') \<Rightarrow> (Inl e, s, file')
      | (Inr c0, file') \<Rightarrow>
          (let c = fst (enforce_managed_overlay (env_catalog env) (managed s) c0)
           in case validate_bounds (env_catalog env) now c of
                Inl message \<Rightarrow> (Inl (ConfigError CodeInvalid message), s, file')
              | Inr _ \<Rightarrow> (Inr (), s\<lparr>current := c\<rparr>, file')))"

definition detect_managed_violations :: "AiCatalog \<Rightarrow> 'r ManagerState \<Rightarrow> 'r AppSettings \<Rightarrow> string list" where
  "detect_managed_violations cat s candidate =
     (case managed s of None \<Rightarrow> [] | Some m \<Rightarrow> violations cat m candidate)"

definition managed_locked_fields :: "'r ManagerState \<Rightarrow> string list" where
  "managed_locked_fields s = (case managed s of None \<Rightarrow> [] | Some m \<Rightarrow> locked_fields m)"

section \<open>Histories\<close>

text \<open>
  A device: the two files and the running process. The file changes under the process by hand edits
  and other clients, the policy by the administrator; the process starts, stops and crashes.
\<close>

record 'r ConfigWorld =
  config_file :: "'r ConfigFile"
  policy_file :: PolicyFile
  running :: "'r ManagerState option"

datatype 'r config_op =
    StartOp StartCalls
  | UpdateOp instant bool "'r AppSettings"
  | UpdateWithOp instant bool "'r AppSettings \<Rightarrow> string + 'r AppSettings"
  | ReloadOp instant bool
  | StopOp
  | EditFileOp "'r ConfigFile"
  | DeployPolicyOp PolicyFile

definition in_process ::
  "('r ManagerState \<Rightarrow> 'r ConfigFile \<Rightarrow> 'x \<times> 'r ManagerState \<times> 'r ConfigFile) \<Rightarrow> 'r ConfigWorld \<Rightarrow>
   'r ConfigWorld" where
  "in_process f w =
     (case running w of
        None \<Rightarrow> w
      | Some s \<Rightarrow> (let (_, s', file') = f s (config_file w) in w\<lparr>running := Some s', config_file := file'\<rparr>))"

fun config_step ::
  "('v, 'r) ManagerEnv \<Rightarrow> PathComponent list \<Rightarrow> 'r ConfigWorld \<Rightarrow> 'r config_op \<Rightarrow> 'r ConfigWorld" where
  "config_step env path w (StartOp calls) =
     (case with_paths env path (Some (policy_file w)) calls (config_file w) of
        (Inl _, file') \<Rightarrow> w\<lparr>running := None, config_file := file'\<rparr>
      | (Inr s, file') \<Rightarrow> w\<lparr>running := Some s, config_file := file'\<rparr>)"
| "config_step env path w (UpdateOp now ok c) = in_process (update env path now ok c) w"
| "config_step env path w (UpdateWithOp now ok f) = in_process (update_with env path now ok f) w"
| "config_step env path w (ReloadOp now ok) = in_process (reload env path now ok) w"
| "config_step env path w StopOp = w\<lparr>running := None\<rparr>"
| "config_step env path w (EditFileOp file) = w\<lparr>config_file := file\<rparr>"
| "config_step env path w (DeployPolicyOp pf) = w\<lparr>policy_file := pf\<rparr>"

end
