(* ===== verification/Config_Properties.thy ===== *)
theory Config_Properties
  imports Config_Manager
begin

text \<open>
  The guarantees of the configuration manager over all histories of starts, writes, reloads, crashes,
  hand edits and policy changes.
\<close>

section \<open>The invariant\<close>

definition policy_holds :: "AiCatalog \<Rightarrow> ManagedConfig option \<Rightarrow> 'r AppSettings \<Rightarrow> bool" where
  "policy_holds cat policy c = (case policy of None \<Rightarrow> True | Some m \<Rightarrow> guarantees cat m c)"

definition state_ok :: "('v, 'r) ManagerEnv \<Rightarrow> 'r ManagerState \<Rightarrow> bool" where
  "state_ok env s \<longleftrightarrow>
     demands (managed s) bundle_ok \<and> policy_holds (env_catalog env) (managed s) (current s) \<and>
     validate_sections (current s) = Inr ()"

definition world_ok :: "('v, 'r) ManagerEnv \<Rightarrow> 'r ConfigWorld \<Rightarrow> bool" where
  "world_ok env w \<longleftrightarrow> demands (running w) (state_ok env)"

lemma overlay_holds:
  "demands policy bundle_ok \<Longrightarrow>
     policy_holds cat policy (fst (enforce_managed_overlay cat policy c))"
  by (simp add: policy_holds_def enforce_managed_overlay_def demands_def apply_guarantees split: option.splits)

text \<open>Clamping to the bounds touches nothing a policy speaks of.\<close>

lemma clamp_vision_capture:
  "capture_enabled (fst (run_clamps clamp_vision v)) = capture_enabled v"
  "ocr_enabled (fst (run_clamps clamp_vision v)) = ocr_enabled v"
  by (simp_all add: clamp_vision_def)

lemma clamp_bounds_frame:
  "capture_enabled (vision (fst (clamp_bounds c))) = capture_enabled (vision c)"
  "ocr_enabled (vision (fst (clamp_bounds c))) = ocr_enabled (vision c)"
  "telemetry (fst (clamp_bounds c)) = telemetry c"
  "pii_filter_level (fst (clamp_bounds c)) = pii_filter_level c"
  "cloud_stt_policy (fst (clamp_bounds c)) = cloud_stt_policy c"
  "update_settings (fst (clamp_bounds c)) = update_settings c"
  "automation (fst (clamp_bounds c)) = automation c"
  "sync_enabled (fst (clamp_bounds c)) = sync_enabled c"
  "ai_provider (fst (clamp_bounds c)) = ai_provider c"
  "audit_retention_days (fst (clamp_bounds c)) = audit_retention_days c"
  by (simp_all add: clamp_bounds_def clamp_vision_capture split_beta Let_def)

lemma clamp_bounds_upload: "upload_enabled (monitor (fst (clamp_bounds c))) = upload_enabled (monitor c)"
  by (simp add: clamp_bounds_def clamp_monitor_def split_beta Let_def)

lemma clamp_bounds_policy:
  "policy_holds cat policy (fst (clamp_bounds c)) \<longleftrightarrow> policy_holds cat policy c"
  by (simp add: policy_holds_def guarantees_def holds_firmly_def box_def clamp_bounds_frame
      split: option.split)

lemma load_managed_ok: "load_managed_config cat pf = Inr policy \<Longrightarrow> demands policy bundle_ok"
  by (auto simp: load_managed_config_def demands_def validate_bundle_ok
      split: PolicyFile.splits if_splits sum.splits option.splits)

text \<open>The result of a start that succeeds, in terms of the configuration it loaded.\<close>

lemma start_cases:
  assumes "with_paths env path (Some pf) calls file = (Inr s, file')"
  obtains policy c0 reset newer file1 c1 c2 where
    "validate_config_file_path path = Inr ()"
    "load_managed_config (env_catalog env) pf = Inr policy"
    "load_initial env path calls file = (Inr (c0, reset, newer), file1)"
    "c1 = fst (enforce_managed_overlay (env_catalog env) policy c0)" "c2 = fst (clamp_bounds c1)"
    "s = \<lparr>current = c2, managed = policy, config_reset_from_corruption = reset\<rparr>"
    "file' = persist_clamp path (bounds_ok calls) newer (snd (clamp_bounds c1)) c2
       (persist_clamp path (managed_ok calls) newer
          (snd (enforce_managed_overlay (env_catalog env) policy c0)) c1 file1)"
proof -
  obtain r1 file1 where li: "load_initial env path calls file = (r1, file1)" by force
  have path: "validate_config_file_path path = Inr ()"
    using assms by (cases "validate_config_file_path path") (auto simp: with_paths_def)
  then obtain policy where policy: "load_managed_config (env_catalog env) pf = Inr policy"
    using assms by (cases "load_managed_config (env_catalog env) pf") (auto simp: with_paths_def)
  have dir: "directory_ok calls"
    using assms path policy by (auto simp: with_paths_def split: if_splits)
  obtain c0 reset newer where r1: "r1 = Inr (c0, reset, newer)"
    using assms path policy dir li by (cases r1) (auto simp: with_paths_def)
  show ?thesis
    using assms path policy dir li r1 by (intro that) (auto simp: with_paths_def Let_def split_beta)
qed

lemma start_ok:
  assumes "with_paths env path (Some pf) calls file = (Inr s, file')"
  shows "state_ok env s"
  using assms
proof (cases rule: start_cases)
  case (1 policy c0 reset newer file1 c1 c2)
  then show ?thesis
    using load_managed_ok [OF 1(2)]
    by (simp add: state_ok_def clamp_bounds_policy overlay_holds clamp_bounds_valid)
qed

lemma validate_bounds_sections: "validate_bounds cat now c = Inr () \<Longrightarrow> validate_sections c = Inr ()"
  by (simp add: validate_bounds_def)

lemma save_cases:
  obtains (failed) e where "config_save_to_file path ok c file = (Inl e, file)"
  | (written) "config_save_to_file path ok c file = (Inr (), FileHolds c)"
  by (cases "validate_config_file_path path"; cases ok) (auto simp: config_save_to_file_def)

lemma update_cases:
  assumes "update env path now ok c s file = (r, s', file')"
  obtains (rejected) e where "r = Inl e" "s' = s" "file' = file"
  | (saved) d where "r = Inr ()" "d = fst (enforce_managed_overlay (env_catalog env) (managed s) c)"
      "s' = s\<lparr>current := d\<rparr>" "file' = FileHolds d"
      "validate_bounds (env_catalog env) now d = Inr ()"
      "validate_integrity_policy (env_update env) (update_settings d) = Inr ()"
proof -
  define d where "d = fst (enforce_managed_overlay (env_catalog env) (managed s) c)"
  show ?thesis
  proof (cases "validate_bounds (env_catalog env) now d")
    case (Inl e)
    then show ?thesis using assms rejected by (auto simp: update_def Let_def simp flip: d_def)
  next
    case bounds: (Inr u)
    show ?thesis
    proof (cases "validate_integrity_policy (env_update env) (update_settings d)")
      case (Inl e)
      then show ?thesis using assms bounds rejected [of e] by (simp add: update_def Let_def flip: d_def)
    next
      case (Inr u')
      consider e where "config_save_to_file path ok d file = (Inl e, file)"
        | "config_save_to_file path ok d file = (Inr (), FileHolds d)" by (rule save_cases)
      then show ?thesis
        using assms bounds Inr by cases (auto simp: update_def Let_def simp flip: d_def
            intro: rejected saved [OF _ d_def])
    qed
  qed
qed

lemma update_ok:
  assumes "state_ok env s" and "update env path now ok c s file = (r, s', file')"
  shows "state_ok env s'"
  using assms(2)
proof (cases rule: update_cases)
  case rejected
  then show ?thesis using assms(1) by simp
next
  case (saved d)
  have "validate_sections d = Inr ()" by (rule validate_bounds_sections [OF saved(5)])
  then show ?thesis
    using assms(1) overlay_holds [of "managed s" "env_catalog env" c] saved(2,3) by (simp add: state_ok_def)
qed

lemma reload_ok:
  assumes "state_ok env s" and "reload env path now ok s file = (r, s', file')"
  shows "state_ok env s'"
  using assms overlay_holds
  by (auto simp: reload_def state_ok_def Let_def dest: validate_bounds_sections
      split: prod.splits sum.splits)

lemma update_with_ok:
  assumes "state_ok env s" and "update_with env path now ok f s file = (r, s', file')"
  shows "state_ok env s'"
  using assms
  by (auto simp: update_with_def dest: update_ok split: sum.splits prod.splits)

lemma config_step_ok:
  assumes "world_ok env w"
  shows "world_ok env (config_step env path w x)"
proof (cases x)
  case (StartOp calls)
  then show ?thesis
    using start_ok by (fastforce simp: world_ok_def demands_def split: prod.splits sum.splits)
qed (use assms in \<open>auto simp: world_ok_def demands_def in_process_def Let_def
        dest: update_ok update_with_ok reload_ok split: option.splits prod.splits\<close>)

interpretation config_machine: invariant_machine "config_step env path" "world_ok env" for env path
  by unfold_locales (rule config_step_ok)


section \<open>Properties\<close>

text \<open>The bounds, as the scheduler, the collectors and the local server rely on them.\<close>

definition safe_to_run :: "'r AppSettings \<Rightarrow> bool" where
  "safe_to_run c \<longleftrightarrow>
     1000 \<le> poll_interval_ms (monitor c) \<and> 1000 \<le> sync_interval_ms (monitor c) \<and>
     5000 \<le> heartbeat_interval_ms (monitor c) \<and> 1000 \<le> capture_throttle_ms (vision c) \<and>
     1 \<le> retention_days (storage c) \<and>
     100 \<le> max_storage_mb (storage c) \<and> max_storage_mb (storage c) \<le> 10000 \<and>
     10 \<le> interval_secs (analysis c) \<and> interval_secs (analysis c) \<le> full_interval_secs (analysis c) \<and>
     10 \<le> throttle_secs (analysis c) \<and>
     1 \<le> max_suggestions (analysis c) \<and> max_suggestions (analysis c) \<le> 200 \<and>
     1 \<le> idle_notification_mins c \<and>
     10090 \<le> web_port (web c) \<and> web_port (web c) \<le> 10099 \<and>
     (allow_external (web c) \<longrightarrow>
        32 \<le> length (trim (web_token (web c))) \<and> 2 \<le> token_classes (trim (web_token (web c))))"

lemma reject_if: "(if P then Inl e else r) = Inr () \<longleftrightarrow> \<not> P \<and> r = Inr ()"
  by simp

lemma validate_sections_safe: "validate_sections c = Inr () \<longleftrightarrow> safe_to_run c"
proof -
  have "validate_storage (storage c) = Inr () \<longleftrightarrow> 1 \<le> retention_days (storage c) \<and>
     100 \<le> max_storage_mb (storage c) \<and> max_storage_mb (storage c) \<le> 10000"
    by (simp only: validate_storage_def reject_if not_less simp_thms)
  moreover have "validate_vision (vision c) = Inr () \<longleftrightarrow> 1000 \<le> capture_throttle_ms (vision c)"
    by (simp only: validate_vision_def reject_if not_less simp_thms)
  moreover have "validate_monitor (monitor c) = Inr () \<longleftrightarrow> 1000 \<le> poll_interval_ms (monitor c) \<and>
     1000 \<le> sync_interval_ms (monitor c) \<and> 5000 \<le> heartbeat_interval_ms (monitor c)"
    by (simp only: validate_monitor_def reject_if not_less simp_thms)
  moreover have "validate_analysis (analysis c) = Inr () \<longleftrightarrow> 10 \<le> interval_secs (analysis c) \<and>
     interval_secs (analysis c) \<le> full_interval_secs (analysis c) \<and> 10 \<le> throttle_secs (analysis c) \<and>
     1 \<le> max_suggestions (analysis c) \<and> max_suggestions (analysis c) \<le> 200"
    by (simp only: validate_analysis_def reject_if not_less simp_thms)
  moreover have "validate_notification (idle_notification_mins c) = Inr () \<longleftrightarrow> 1 \<le> idle_notification_mins c"
    by (simp only: validate_notification_def reject_if not_less simp_thms)
  moreover have "validate_web (web c) = Inr () \<longleftrightarrow> 10090 \<le> web_port (web c) \<and> web_port (web c) \<le> 10099 \<and>
     (allow_external (web c) \<longrightarrow>
        32 \<le> length (trim (web_token (web c))) \<and> 2 \<le> token_classes (trim (web_token (web c))))"
    by (auto simp: validate_web_def port_in_range_def validate_integration_auth_token_strength_def Let_def)
  ultimately show ?thesis
    by (simp add: validate_sections_def safe_to_run_def) blast
qed

definition sample_config_env :: "(nat, unit) ManagerEnv" where
  "sample_config_env =
     \<lparr>env_catalog = sample_catalog,
      env_update = \<lparr>decode_base64 = \<lambda>_. None, parse_semver = \<lambda>s. Some (length s), semver_less = (<)\<rparr>,
      env_build_version = ''1.0.0'', env_rest = ()\<rparr>"

definition sample_path :: "PathComponent list" where
  "sample_path = [RootDir, NormalComponent ''config.json'']"

definition all_calls :: StartCalls where
  "all_calls = \<lparr>directory_ok = True, migration_ok = True, seed_ok = True, managed_ok = True, bounds_ok = True\<rparr>"

definition fresh_world :: "unit ConfigWorld" where
  "fresh_world = \<lparr>config_file = FileAbsent, policy_file = PolicyParsed sample_managed_policy, running = None\<rparr>"



text \<open>
  C26. A write is all or nothing: a rejected write leaves the configuration and the file as they were,
  whichever check or system call failed, and an accepted one leaves file and memory equal to the
  requested configuration clamped to the policy, which passes every check.
\<close>

theorem update_is_all_or_nothing:
  assumes "update env path now ok c s file = (r, s', file')"
  shows "(\<forall>e. r = Inl e \<longrightarrow> s' = s \<and> file' = file) \<and>
         (r = Inr () \<longrightarrow>
           current s' = fst (enforce_managed_overlay (env_catalog env) (managed s) c) \<and>
           managed s' = managed s \<and> file' = FileHolds (current s') \<and>
           validate_bounds (env_catalog env) now (current s') = Inr () \<and>
           validate_integrity_policy (env_update env) (update_settings (current s')) = Inr ())"
  using assms by (auto elim: update_cases)


theorem update_is_all_or_nothing_witness:
  "let s = \<lparr>current = default_settings ''1.0.0'' (), managed = Some sample_managed_policy,
            config_reset_from_corruption = False\<rparr>;
       c = (default_settings ''1.0.0'' ())\<lparr>idle_notification_mins := 5\<rparr>;
       bad = (default_settings ''1.0.0'' ())\<lparr>idle_notification_mins := 0\<rparr>;
       (r, s', file') = update sample_config_env sample_path 0 True c s FileAbsent;
       (r2, s2, file2) = update sample_config_env sample_path 0 True bad s FileAbsent
   in r = Inr () \<and> idle_notification_mins (current s') = 5 \<and>
      \<not> capture_enabled (vision (current s')) \<and> file' = FileHolds (current s') \<and>
      r2 = Inl (ConfigError CodeInvalid ''notification.idle_notification_mins'') \<and> s2 = s \<and> file2 = FileAbsent"
proof -
  let ?s = "\<lparr>current = default_settings ''1.0.0'' (), managed = Some sample_managed_policy,
            config_reset_from_corruption = False\<rparr>"
  let ?c = "(default_settings ''1.0.0'' ())\<lparr>idle_notification_mins := 5\<rparr>"
  let ?bad = "(default_settings ''1.0.0'' ())\<lparr>idle_notification_mins := 0\<rparr>"
  obtain r s' file' where u: "update sample_config_env sample_path 0 True ?c ?s FileAbsent = (r, s', file')"
    by (metis prod_cases3)
  obtain r2 s2 file2 where u2: "update sample_config_env sample_path 0 True ?bad ?s FileAbsent = (r2, s2, file2)"
    by (metis prod_cases3)
  have "fst (update sample_config_env sample_path 0 True ?c ?s FileAbsent) = Inr ()" by code_simp
  then have r: "r = Inr ()" using u by simp
  have "idle_notification_mins (fst (enforce_managed_overlay (env_catalog sample_config_env) (managed ?s) ?c)) = 5 \<and>
        \<not> capture_enabled (vision (fst (enforce_managed_overlay (env_catalog sample_config_env) (managed ?s) ?c)))"
    by code_simp
  with update_is_all_or_nothing [OF u] r
  have good: "idle_notification_mins (current s') = 5 \<and> \<not> capture_enabled (vision (current s')) \<and>
      file' = FileHolds (current s')" by simp
  have "fst (update sample_config_env sample_path 0 True ?bad ?s FileAbsent) =
      Inl (ConfigError CodeInvalid ''notification.idle_notification_mins'')" by code_simp
  then have r2: "r2 = Inl (ConfigError CodeInvalid ''notification.idle_notification_mins'')" using u2 by simp
  from update_is_all_or_nothing [OF u2] good r r2 u u2 show ?thesis by (simp add: Let_def)
qed

section \<open>Restarts\<close>

lemma overlay_idle:
  assumes "demands policy (\<lambda>m. bundle_ok m \<and> consistent m)"
    and "d = fst (enforce_managed_overlay cat policy c)"
  shows "enforce_managed_overlay cat policy d = (d, [])"
proof (cases policy)
  case (Some m)
  then have "complies cat m d"
    using assms consistent_complies [of m cat c] by (simp add: demands_def enforce_managed_overlay_def)
  then show ?thesis
    using Some by (simp add: enforce_managed_overlay_def apply_policy_def run_clamps_satisfied
        satisfied_iff_complies)
qed (simp add: enforce_managed_overlay_def)

text \<open>A configuration that is stable under migration, policy and bounds is loaded as it is.\<close>

lemma stable_start:
  assumes "validate_config_file_path path = Inr ()"
    and "load_managed_config (env_catalog env) pf = Inr policy"
    and "directory_ok calls"
    and "settings_version d = CONFIG_SCHEMA_VERSION" and "grpc_port (web d) \<noteq> LEGACY_GRPC_DASHBOARD_PORT"
    and "enforce_managed_overlay (env_catalog env) policy d = (d, [])"
    and "validate_sections d = Inr ()"
  shows "with_paths env path (Some pf) calls (FileHolds d) =
     (Inr \<lparr>current = d, managed = policy, config_reset_from_corruption = False\<rparr>, FileHolds d)"
proof -
  have "load_initial env path calls (FileHolds d) = (Inr (d, False, False), FileHolds d)"
    using assms(1,4,5)
    by (simp add: load_initial_def load_and_migrate_from_file_def config_load_from_file_def
        migrate_loaded_config_def)
  then show ?thesis
    using assms by (simp add: with_paths_def clamp_bounds_id persist_clamp_def)
qed



definition sample_state :: "unit ManagerState" where
  "sample_state = \<lparr>current = default_settings ''1.0.0'' (), managed = Some sample_managed_policy,
                   config_reset_from_corruption = True\<rparr>"

definition sample_change :: "unit AppSettings" where
  "sample_change = (default_settings ''1.0.0'' ())\<lparr>idle_notification_mins := 5\<rparr>"

definition running_world :: "unit ConfigWorld" where
  "running_world = fresh_world\<lparr>running := Some sample_state\<rparr>"


section \<open>Failing closed\<close>

lemma apply_policy_collects:
  "capture_enabled (vision (fst (apply_policy cat m c))) \<Longrightarrow>
     capture_enabled (vision c) \<or> lock_capture_enabled m = Some True"
  "telemetry_enabled (telemetry (fst (apply_policy cat m c))) \<Longrightarrow>
     telemetry_enabled (telemetry c) \<or> lock_telemetry_enabled m = Some True"
proof -
  let ?P = "\<lambda>s. capture_enabled (vision s) \<longrightarrow>
              capture_enabled (vision c) \<or> lock_capture_enabled m = Some True"
  let ?Q = "\<lambda>s. telemetry_enabled (telemetry s) \<longrightarrow>
              telemetry_enabled (telemetry c) \<or> lock_telemetry_enabled m = Some True"
  have "?P (fst (run_clamps (policy_clamps cat m) c))"
    by (rule run_clamps_keeps) (auto simp: policy_clamp_defs split: option.split)
  then show "capture_enabled (vision (fst (apply_policy cat m c))) \<Longrightarrow>
     capture_enabled (vision c) \<or> lock_capture_enabled m = Some True"
    by (simp add: apply_policy_def)
  have "?Q (fst (run_clamps (policy_clamps cat m) c))"
    by (rule run_clamps_keeps) (auto simp: policy_clamp_defs split: option.split)
  then show "telemetry_enabled (telemetry (fst (apply_policy cat m c))) \<Longrightarrow>
     telemetry_enabled (telemetry c) \<or> lock_telemetry_enabled m = Some True"
    by (simp add: apply_policy_def)
qed

lemma apply_policy_quiet:
  "monitor (fst (apply_policy cat m c)) = monitor c"
  "ocr_enabled (vision (fst (apply_policy cat m c))) = ocr_enabled (vision c)"
  unfolding apply_policy_def
  by (rule run_clamps_untouched, simp add: policy_clamp_defs map_sandbox_def split: option.split)
    (rule run_clamps_untouched [where sel = "\<lambda>c. ocr_enabled (vision c)"],
      simp add: policy_clamp_defs split: option.split)

text \<open>What a configuration may collect: only what its policy forces on.\<close>

definition collects_only_forced :: "ManagedConfig option \<Rightarrow> 'r AppSettings \<Rightarrow> bool" where
  "collects_only_forced policy c \<longleftrightarrow>
     \<not> upload_enabled (monitor c) \<and> \<not> ocr_enabled (vision c) \<and>
     (capture_enabled (vision c) \<longrightarrow> (\<exists>m. policy = Some m \<and> lock_capture_enabled m = Some True)) \<and>
     (telemetry_enabled (telemetry c) \<longrightarrow> (\<exists>m. policy = Some m \<and> lock_telemetry_enabled m = Some True))"

lemma recovery_collects_nothing:
  "collects_only_forced policy (fst (enforce_managed_overlay cat policy (fail_closed_recovery_default v rest)))"
proof (cases policy)
  case None
  then show ?thesis
    by (simp add: collects_only_forced_def enforce_managed_overlay_def fail_closed_recovery_default_def
        default_settings_def Let_def)
next
  case (Some m)
  let ?c = "fail_closed_recovery_default v rest"
  have "\<not> capture_enabled (vision ?c)" "\<not> telemetry_enabled (telemetry ?c)" "\<not> ocr_enabled (vision ?c)"
      "\<not> upload_enabled (monitor ?c)"
    by (simp_all add: fail_closed_recovery_default_def default_settings_def Let_def)
  then show ?thesis
    using Some apply_policy_collects [of cat m ?c]
    by (auto simp: collects_only_forced_def enforce_managed_overlay_def apply_policy_quiet)
qed

definition unusable :: "'r ConfigFile \<Rightarrow> bool" where
  "unusable file =
     (case file of
        FileAbsent \<Rightarrow> False
      | FileBroken \<Rightarrow> True
      | FileHolds c \<Rightarrow> settings_version c > CONFIG_SCHEMA_VERSION)"

lemma unusable_initial:
  assumes "unusable file" and "validate_config_file_path path = Inr ()"
    and "load_initial env path calls file = (Inr (c0, reset, newer), file1)"
  shows "c0 = fail_closed_recovery_default (env_build_version env) (env_rest env)" and "reset"
    and "file = FileHolds d \<Longrightarrow> newer \<and> file1 = file"
  using assms
  by (auto simp: unusable_def load_initial_def load_and_migrate_from_file_def config_load_from_file_def Let_def
      split: ConfigFile.splits if_splits)


definition newer_settings :: "unit AppSettings" where
  "newer_settings = (default_settings ''1.0.0'' ())\<lparr>settings_version := 4\<rparr>"


section \<open>Limits\<close>

text \<open>
  The file of a newer client is preserved by the start only: the first accepted write replaces it.
\<close>

theorem newer_settings_are_overwritten:
  "let w = fresh_world\<lparr>config_file := FileHolds newer_settings\<rparr>;
       w1 = config_step sample_config_env sample_path w (StartOp all_calls);
       w2 = config_step sample_config_env sample_path w1 (UpdateWithOp 0 True Inr)
   in config_file w1 = FileHolds newer_settings \<and>
      (case config_file w2 of FileHolds c \<Rightarrow> settings_version c = 3 | _ \<Rightarrow> False)"
  by code_simp

text \<open>
  A reload accepts what a write rejects: updates without verified signatures.
\<close>

theorem reload_skips_integrity:
  "let c = (default_settings ''1.0.0'' ())\<lparr>update_settings :=
             (update_settings (default_settings ''1.0.0'' ()))\<lparr>require_signature_verification := False\<rparr>\<rparr>;
       s = sample_state\<lparr>managed := None\<rparr>
   in fst (update sample_config_env sample_path 0 True c s FileAbsent) =
        Inl (ConfigError CodeInvalid ''update.require_signature_verification'') \<and>
      (let (r, s', _) = reload sample_config_env sample_path 0 True s (FileHolds c)
       in r = Inr () \<and> update_enabled (update_settings (current s')) \<and>
          \<not> require_signature_verification (update_settings (current s')))"
  by code_simp

text \<open>
  Clamping to the bounds does not give a configuration that passes the check: the selected endpoints
  are not clamped. Then no write that leaves the AI section alone is accepted.
\<close>

theorem clamped_configuration_fails_check:
  "let c = (default_settings ''1.0.0'' ())\<lparr>ai_provider := default_ai_provider\<lparr>llm_provider := LlmRemote\<rparr>\<rparr>
   in clamp_bounds c = (c, []) \<and> validate_bounds sample_catalog 0 c = Inl ''llm_api''"
  by code_simp

theorem invalid_ai_section_blocks_all_writes:
  assumes "validate_selected_remote_endpoints (env_catalog env) now
             (ai_provider (fst (enforce_managed_overlay (env_catalog env) (managed s) c))) = Inl e"
  shows "\<exists>message. update env path now ok c s file = (Inl (ConfigError CodeInvalid message), s, file)"
proof -
  let ?d = "fst (enforce_managed_overlay (env_catalog env) (managed s) c)"
  have "validate_bounds (env_catalog env) now ?d \<noteq> Inr ()"
    using assms by (simp add: validate_bounds_def)
  then obtain message where "validate_bounds (env_catalog env) now ?d = Inl message"
    by (cases "validate_bounds (env_catalog env) now ?d") auto
  then show ?thesis by (simp add: update_def Let_def)
qed

text \<open>So a scene override that runs out blocks every later write until it is switched off.\<close>

theorem expired_override_blocks_all_writes:
  assumes "managed s = None" and "override_enabled (scene_action_override (ai_provider c))"
    and "override_expires_at (scene_action_override (ai_provider c)) = Some t" and "t \<le> now"
  shows "\<exists>message. update env path now ok c s file = (Inl (ConfigError CodeInvalid message), s, file)"
proof -
  have "validate_selected_remote_endpoints (env_catalog env) now (ai_provider c) \<noteq> Inr ()"
    using assms(2-4) by (auto simp: validate_selected_remote_endpoints_def validate_override_def)
  then obtain e where "validate_selected_remote_endpoints (env_catalog env) now (ai_provider c) = Inl e"
    by (cases "validate_selected_remote_endpoints (env_catalog env) now (ai_provider c)") auto
  then show ?thesis
    using invalid_ai_section_blocks_all_writes [of env now s c e] assms(1)
    by (simp add: enforce_managed_overlay_def)
qed

text \<open>The port that was the default once is not kept over a restart, even when a user chose it.\<close>

theorem legacy_port_is_rewritten:
  "let c = (default_settings ''1.0.0'' ())\<lparr>web := (web (default_settings ''1.0.0'' ()))\<lparr>grpc_port := 10091\<rparr>\<rparr>;
       w = foldl (config_step sample_config_env sample_path) (running_world\<lparr>policy_file := PolicyAbsent\<rparr>)
             [UpdateOp 0 True c, StopOp, StartOp all_calls]
   in map_option (\<lambda>s. grpc_port (web (current s))) (running w) = Some 10080"
  by code_simp

end
