(* ===== verification/Pii_Masking.thy ===== *)
theory Pii_Masking
  imports App_Settings Codex_Approval
begin

text \<open>
  The redaction of personal data in window titles and recognised text:
  \<open>crates/maekon-vision/src/privacy/redaction.rs\<close> and \<open>detection.rs\<close>, with \<open>secret_redaction.rs\<close>
  and \<open>path_redaction.rs\<close> of \<open>maekon-core\<close>. Text is ASCII, so characters, bytes and offsets
  coincide. The loops of the code keep an index into the text and the output; here a loop position is
  the text before the index, reversed, and the text from it, and \<open>scan\<close> is the loop most of the
  maskers share: at each position either a match is replaced or one character is copied.
\<close>

section \<open>The scanner\<close>

text \<open>
  A matcher is given the position and answers with the number of characters it consumes, at least
  one, and what is written for them.
\<close>

type_synonym matcher = "string \<Rightarrow> string \<Rightarrow> (nat \<times> string) option"

function scan :: "matcher \<Rightarrow> string \<Rightarrow> string \<Rightarrow> string" where
  "scan m prev [] = []"
| "scan m prev (c # cs) =
     (case m prev (c # cs) of
        Some (n, out) \<Rightarrow> out @ scan m (rev (take n (c # cs)) @ prev) (drop (n - 1) cs)
      | None \<Rightarrow> c # scan m (c # prev) cs)"
  by pat_completeness auto
termination by (relation "measure (\<lambda>(m, prev, rest). length rest)") auto

definition preceded_by :: "(char \<Rightarrow> bool) \<Rightarrow> string \<Rightarrow> bool" where
  "preceded_by P prev \<longleftrightarrow> prev \<noteq> [] \<and> P (hd prev)"

definition followed_by :: "(char \<Rightarrow> bool) \<Rightarrow> string \<Rightarrow> bool" where
  "followed_by P rest \<longleftrightarrow> rest \<noteq> [] \<and> P (hd rest)"

section \<open>E-mail addresses\<close>

definition left_delim :: "char \<Rightarrow> bool" where
  "left_delim c \<longleftrightarrow> is_space c \<or> c = CHR ''<'' \<or> c = CHR ''(''"

definition right_delim :: "char \<Rightarrow> bool" where
  "right_delim c \<longleftrightarrow> is_space c \<or> c = CHR ''>'' \<or> c = CHR '')''"

text \<open>What follows the last left delimiter, if there is one, and what comes up to it.\<close>

definition after_delim :: "string \<Rightarrow> string" where
  "after_delim s = rev (takeWhile (Not \<circ> left_delim) (rev s))"

definition upto_delim :: "string \<Rightarrow> string" where
  "upto_delim s = rev (dropWhile (Not \<circ> left_delim) (rev s))"

text \<open>
  The local part reaches back to the last delimiter of the whole text before the at sign, and to the
  position itself when there is none.
\<close>

definition email_local :: "string \<Rightarrow> string \<Rightarrow> string" where
  "email_local prev lead =
     (if list_ex left_delim lead then after_delim lead
      else if list_ex left_delim prev then rev (takeWhile (Not \<circ> left_delim) prev) @ lead
      else lead)"

definition email_match :: matcher where
  "email_match prev rest =
     (if CHR ''@'' \<in> set rest
      then let lead = takeWhile (\<lambda>c. c \<noteq> CHR ''@'') rest;
               domain = takeWhile (Not \<circ> right_delim) (drop (length lead + 1) rest)
           in if email_local prev lead \<noteq> [] \<and> domain \<noteq> []
              then Some (length lead + 1 + length domain,
                         (if list_ex left_delim lead then upto_delim lead else []) @ ''[EMAIL]'')
              else None
      else None)"

definition mask_emails :: "string \<Rightarrow> string" where
  "mask_emails text = scan email_match [] text"

section \<open>IP addresses and phone numbers\<close>

definition dec_value :: "string \<Rightarrow> nat" where
  "dec_value ds = foldl (\<lambda>n c. n * 10 + (of_char c - 48)) 0 ds"

text \<open>The loop over the octets; \<open>k\<close> octets are left and \<open>i\<close> characters are consumed.\<close>

fun ipv4_octets :: "nat \<Rightarrow> nat \<Rightarrow> string \<Rightarrow> nat option" where
  "ipv4_octets 0 i s = (if followed_by ascii_digit s then None else Some i)"
| "ipv4_octets (Suc k) i s =
     (let ds = takeWhile ascii_digit s; r = drop (length ds) s
      in if ds = [] \<or> 3 < length ds \<or> 255 < dec_value ds then None
         else if k = 0 then ipv4_octets 0 (i + length ds) r
         else if followed_by (\<lambda>c. c = CHR ''.'') r then ipv4_octets k (i + length ds + 1) (tl r)
         else None)"

definition try_parse_ipv4 :: "string \<Rightarrow> (nat \<times> bool) option" where
  "try_parse_ipv4 rest = map_option (\<lambda>i. (i, True)) (ipv4_octets 4 0 rest)"

definition is_phone_number_start :: "string \<Rightarrow> string \<Rightarrow> bool" where
  "is_phone_number_start prev rest \<longleftrightarrow>
     \<not> preceded_by (\<lambda>c. ascii_digit c \<or> ascii_alphabetic c \<or> c = CHR ''.'' \<or> c = CHR ''+'') prev \<and>
     followed_by (\<lambda>c. c = CHR ''+'' \<or> ascii_digit c) rest"

definition group_separator :: "char \<Rightarrow> bool" where
  "group_separator c \<longleftrightarrow> c = CHR ''-'' \<or> c = CHR '' '' \<or> c = CHR ''.''"

text \<open>Digits, separators, whether a dot was one of them, the position and the end of the last digit.\<close>

fun phone_loop ::
  "nat \<Rightarrow> nat \<Rightarrow> bool \<Rightarrow> nat \<Rightarrow> nat \<Rightarrow> string \<Rightarrow> nat \<times> nat \<times> bool \<times> nat" where
  "phone_loop d s dot i e [] = (d, s, dot, e)"
| "phone_loop d s dot i e (c # cs) =
     (if ascii_digit c then phone_loop (d + 1) s dot (i + 1) (i + 1) cs
      else if group_separator c
      then if 9 \<le> d \<or> \<not> followed_by ascii_digit cs then (d, s, dot, e)
           else phone_loop d (s + 1) (dot \<or> c = CHR ''.'') (i + 1) e cs
      else (d, s, dot, e))"

definition find_phone_number_end :: "string \<Rightarrow> nat option" where
  "find_phone_number_end rest =
     (let (d, s, dot, e) =
            (if followed_by (\<lambda>c. c = CHR ''+'') rest then phone_loop 0 0 False 1 0 (tl rest)
             else phone_loop 0 0 False 0 0 rest)
      in if (1 \<le> s \<and> d \<in> {9..15} \<or> s = 0 \<and> d \<in> {10..15}) \<and> \<not> (dot \<and> s < 2)
         then Some e else None)"

definition phone_match :: matcher where
  "phone_match prev rest =
     (case (if followed_by ascii_digit rest then try_parse_ipv4 rest else None) of
        Some (n, _) \<Rightarrow> Some (n, take n rest)
      | None \<Rightarrow>
          if is_phone_number_start prev rest
          then map_option (\<lambda>n. (n, ''[PHONE]'')) (find_phone_number_end rest)
          else None)"

definition mask_phone_numbers :: "string \<Rightarrow> string" where
  "mask_phone_numbers text = scan phone_match [] text"

text \<open>Colons, whether \<open>::\<close> was seen, the digits of the group, the groups and the position.\<close>

definition ascii_hexdigit :: "char \<Rightarrow> bool" where
  "ascii_hexdigit c \<longleftrightarrow> ascii_digit c \<or> (CHR ''a'' \<le> c \<and> c \<le> CHR ''f'') \<or>
     (CHR ''A'' \<le> c \<and> c \<le> CHR ''F'')"

fun ipv6_loop ::
  "nat \<Rightarrow> bool \<Rightarrow> nat \<Rightarrow> nat \<Rightarrow> nat \<Rightarrow> string \<Rightarrow> (nat \<times> bool \<times> nat \<times> nat \<times> nat) option" where
  "ipv6_loop colons dbl gd g i [] = Some (colons, dbl, gd, g, i)"
| "ipv6_loop colons dbl gd g i (c # cs) =
     (if ascii_hexdigit c
      then if 4 < gd + 1 then None else ipv6_loop colons dbl (gd + 1) g (i + 1) cs
      else if c = CHR '':''
      then let g' = (if 0 < gd then g + 1 else g)
           in if followed_by (\<lambda>c. c = CHR '':'') cs
              then if dbl then None else ipv6_loop (colons + 2) True 0 g' (i + 2) (tl cs)
              else ipv6_loop (colons + 1) dbl 0 g' (i + 1) cs
      else Some (colons, dbl, gd, g, i))"

definition try_parse_ipv6 :: "string \<Rightarrow> string \<Rightarrow> nat option" where
  "try_parse_ipv6 prev rest =
     (if preceded_by (\<lambda>c. ascii_hexdigit c \<or> c = CHR '':'') prev then None
      else (case ipv6_loop 0 False 0 0 0 rest of
              None \<Rightarrow> None
            | Some (colons, dbl, gd, g, i) \<Rightarrow>
                let groups = (if 0 < gd then g + 1 else g)
                in if (7 \<le> colons \<or> dbl) \<and> (2 \<le> groups \<or> dbl) then Some i else None))"

definition ip_match :: matcher where
  "ip_match prev rest =
     (case (if followed_by ascii_digit rest then try_parse_ipv4 rest else None) of
        Some (n, True) \<Rightarrow> Some (n, ''[IP]'')
      | _ \<Rightarrow>
          if followed_by (\<lambda>c. ascii_hexdigit c \<or> c = CHR '':'') rest
          then map_option (\<lambda>n. (n, ''[IP]'')) (try_parse_ipv6 prev rest)
          else None)"

definition mask_ip_addresses :: "string \<Rightarrow> string" where
  "mask_ip_addresses text = scan ip_match [] text"

section \<open>Numbers\<close>

text \<open>A run of digits in groups: the digits and the length of the run.\<close>

fun card_run :: "nat \<Rightarrow> nat \<Rightarrow> string \<Rightarrow> nat \<times> nat" where
  "card_run d i [] = (d, i)"
| "card_run d i (c # cs) =
     (if ascii_digit c then card_run (d + 1) (i + 1) cs
      else if group_separator c \<and> followed_by ascii_digit cs then card_run d (i + 1) cs
      else (d, i))"

definition card_match :: matcher where
  "card_match prev rest =
     (if followed_by ascii_digit rest
      then let (d, n) = card_run 0 0 rest
           in Some (n, if d \<in> {13..19} then ''[CARD]'' else take n rest)
      else None)"

definition mask_credit_cards :: "string \<Rightarrow> string" where
  "mask_credit_cards text = scan card_match [] text"

text \<open>
  The marker replaces the digits before the dash, which are taken off the output. The length to which
  the output is truncated is a \<open>usize\<close>: when the output is shorter than the digits, it wraps and the
  truncation does nothing.
\<close>

definition take_off :: "nat \<Rightarrow> string \<Rightarrow> string" where
  "take_off n rout = (if n \<le> length rout then drop n rout else rout)"

function korean_loop :: "string \<Rightarrow> string \<Rightarrow> string \<Rightarrow> string" where
  "korean_loop prev rout [] = rev rout"
| "korean_loop prev rout (c # cs) =
     (let lead = length (takeWhile ascii_digit prev); ds = takeWhile ascii_digit cs
      in if c = CHR ''-'' \<and> 6 \<le> lead \<and> 7 \<le> length ds
         then korean_loop (rev ds @ c # prev) (rev ''[KR_ID]'' @ take_off lead rout) (drop (length ds) cs)
         else korean_loop (c # prev) (c # rout) cs)"
  by pat_completeness auto
termination by (relation "measure (\<lambda>(prev, rout, rest). length rest)") auto

definition mask_korean_id :: "string \<Rightarrow> string" where
  "mask_korean_id text = korean_loop [] [] text"

definition digit_at :: "string \<Rightarrow> nat \<Rightarrow> bool" where
  "digit_at s k \<longleftrightarrow> k < length s \<and> ascii_digit (s ! k)"

definition ssn_extends :: "string \<Rightarrow> nat \<Rightarrow> bool" where
  "ssn_extends s k \<longleftrightarrow>
     digit_at s k \<or> k < length s \<and> group_separator (s ! k) \<and> digit_at s (k + 1)"

definition ssn_match_len :: "string \<Rightarrow> string \<Rightarrow> nat option" where
  "ssn_match_len prev s =
     (if 11 \<le> length s \<and> group_separator (s ! 3) \<and> s ! 6 = s ! 3 \<and>
         list_all (digit_at s) [0, 1, 2, 4, 5, 7, 8, 9, 10] \<and> \<not> ssn_extends s 11 \<and>
         \<not> (preceded_by (\<lambda>c. c = s ! 3) prev \<and> (s ! 3 = CHR ''-'' \<or> s ! 3 = CHR ''.''))
      then Some 11
      else if 9 \<le> length s \<and> list_all (digit_at s) [0, 1, 2, 3, 4, 5, 6, 7, 8] \<and>
         \<not> preceded_by (\<lambda>c. c = CHR ''.'') prev \<and> \<not> ssn_extends s 9
      then Some 9
      else None)"

definition ssn_match :: matcher where
  "ssn_match prev rest =
     (if followed_by ascii_digit rest \<and> \<not> preceded_by ascii_digit prev
      then map_option (\<lambda>n. (n, ''[SSN]'')) (ssn_match_len prev rest)
      else None)"

definition mask_ssn :: "string \<Rightarrow> string" where
  "mask_ssn text = scan ssn_match [] text"

text \<open>The groups of an account number: the length of the last run, the characters, the position.\<close>

function iban_body :: "nat \<Rightarrow> nat \<Rightarrow> nat \<Rightarrow> string \<Rightarrow> nat \<times> nat" where
  "iban_body prev_run alnum i s =
     (let sep = followed_by (\<lambda>c. c = CHR '' '' \<or> c = CHR ''-'') s;
          joined = (prev_run = 4 \<and> followed_by ascii_alphanumeric (tl s));
          s' = (if sep then tl s else s);
          i' = (if sep then i + 1 else i);
          run = takeWhile ascii_alphanumeric s'
      in if sep \<and> \<not> joined \<or> run = [] then (alnum, i)
         else iban_body (length run) (alnum + length run) (i' + length run) (drop (length run) s'))"
  by pat_completeness auto
termination
proof (relation "measure (\<lambda>(p, a, i, s). length s)", goal_cases)
  case (2 prev_run alnum i s sep joined s' i' run)
  then have "0 < length run" "length run \<le> length s'" "length s' \<le> length s"
    by (auto simp: length_takeWhile_le)
  then have "length s' - length run < length s" by linarith
  then show ?case by simp
qed simp

declare iban_body.simps [simp del]

definition try_parse_iban :: "string \<Rightarrow> string \<Rightarrow> (nat \<times> nat) option" where
  "try_parse_iban prev rest =
     (if length rest < 15 \<or> preceded_by ascii_alphanumeric prev \<or>
         \<not> (ascii_uppercase (rest ! 0) \<and> ascii_uppercase (rest ! 1)) \<or>
         \<not> (ascii_digit (rest ! 2) \<and> ascii_digit (rest ! 3))
      then None
      else let (alnum, i) = iban_body 4 0 4 (drop 4 rest)
           in if alnum \<in> {11..30} then Some (i, 4) else None)"

definition iban_match :: matcher where
  "iban_match prev rest =
     map_option (\<lambda>(n, keep). (n, take keep rest @ ''[IBAN]'')) (try_parse_iban prev rest)"

definition mask_iban :: "string \<Rightarrow> string" where
  "mask_iban text = scan iban_match [] text"

definition passport_match :: matcher where
  "passport_match prev rest =
     (if followed_by ascii_alphabetic rest \<and> 8 \<le> length rest \<and> \<not> preceded_by ascii_alphanumeric prev
      then let ds = takeWhile ascii_digit (tl rest)
           in if length ds \<in> {7..8} \<and> \<not> followed_by ascii_alphanumeric (drop (length ds) (tl rest))
              then Some (1 + length ds, ''[PASSPORT]'') else None
      else None)"

definition mask_passport :: "string \<Rightarrow> string" where
  "mask_passport text = scan passport_match [] text"

section \<open>Credentials\<close>

definition SECRET_TOKEN_PREFIXES :: "string list" where
  "SECRET_TOKEN_PREFIXES =
     [''sk-'', ''pk-'', ''sk_'', ''pk_'', ''api_'', ''key_'', ''token_'', ''secret_'', ''AKIA'', ''ghp_'',
      ''gho_'', ''ghs_'', ''github_pat_'', ''xoxb-'', ''xoxp-'', ''xoxa-'', ''xoxr-'']"

definition key_terminator :: "char \<Rightarrow> bool" where
  "key_terminator c \<longleftrightarrow>
     is_space c \<or> c = CHR 0x22 \<or> c = CHR 0x27 \<or> c = CHR '','' \<or> c = CHR '';''"

text \<open>The length of the longest prefix at the position, 0 when there is none.\<close>

definition matched_prefix_len :: "string \<Rightarrow> nat" where
  "matched_prefix_len rest =
     foldl (\<lambda>m p. if m < length p \<and> starts_with rest p then length p else m) 0 SECRET_TOKEN_PREFIXES"

definition api_key_match :: matcher where
  "api_key_match prev rest =
     (let m = matched_prefix_len rest;
          token = takeWhile (Not \<circ> key_terminator) (drop m rest)
      in if m = 0 then None
         else if 8 \<le> length token then Some (m + length token, ''[API_KEY]'')
         else Some (m, take m rest))"

definition bearer_match :: matcher where
  "bearer_match prev rest =
     (let token = takeWhile (Not \<circ> key_terminator) (drop 7 rest)
      in if 7 \<le> length rest \<and> eq_ignore_ascii_case (take 7 rest) ''bearer ''
         then if 8 \<le> length token then Some (7 + length token, ''Bearer [API_KEY]'')
              else Some (7, take 7 rest)
         else None)"

definition mask_bearer_tokens :: "string \<Rightarrow> string" where
  "mask_bearer_tokens text = scan bearer_match [] text"

lemma find_sub_bound: "find_sub p s = Some i \<Longrightarrow> i + length p \<le> length s"
  by (induction s arbitrary: i)
    (auto simp: strip_prefix_def split: if_splits dest: arg_cong [where f = length])

text \<open>Where a key block ends; one without its end marker reaches to the end of the text.\<close>

definition pem_block_end :: "string \<Rightarrow> nat \<Rightarrow> string \<Rightarrow> nat" where
  "pem_block_end s b label =
     (let end_marker = ''-----END '' @ label @ ''-----''
      in case find_sub end_marker (drop b s) of
           Some r \<Rightarrow> b + r + length end_marker
         | None \<Rightarrow> length s)"

lemma pem_block_end_pos: "s \<noteq> [] \<Longrightarrow> 0 < pem_block_end s b label"
  by (auto simp: pem_block_end_def Let_def split: option.splits)

text \<open>The loop, on the text from the cursor on.\<close>

function pem_loop :: "string \<Rightarrow> string" where
  "pem_loop s =
     (case find_sub ''-----BEGIN '' s of
        None \<Rightarrow> s
      | Some b \<Rightarrow>
          (case find_sub ''-----'' (drop (b + 11) s) of
             None \<Rightarrow> s
           | Some h \<Rightarrow>
               (let label = take h (drop (b + 11) s)
                in if \<not> contains label ''PRIVATE KEY''
                   then take (b + 11) s @ pem_loop (drop (b + 11) s)
                   else take b s @ ''[PRIVATE_KEY]'' @ pem_loop (drop (pem_block_end s b label) s))))"
  by pat_completeness auto

termination
proof (relation "measure length", goal_cases)
  case (2 s b h label)
  then show ?case using find_sub_bound [OF 2(1)] by simp
next
  case (3 s b h label)
  then have "s \<noteq> []" using find_sub_bound [OF 3(1)] by auto
  with pem_block_end_pos [OF this] show ?case by simp
qed simp

declare pem_loop.simps [simp del]

definition mask_private_key_blocks :: "string \<Rightarrow> string" where
  "mask_private_key_blocks text =
     (if contains text ''-----BEGIN '' \<and> contains text ''PRIVATE KEY-----'' then pem_loop text else text)"

definition mask_api_keys :: "string \<Rightarrow> string" where
  "mask_api_keys text = mask_private_key_blocks (mask_bearer_tokens (scan api_key_match [] text))"

subsection \<open>Credentials without a prefix\<close>

definition MIN_SECRET_LEN :: nat where
  "MIN_SECRET_LEN = 12"

definition MIN_SECRET_ENTROPY_BITS :: real where
  "MIN_SECRET_ENTROPY_BITS = 3"

definition MIN_SECRET_CHAR_CLASSES :: nat where
  "MIN_SECRET_CHAR_CLASSES = 3"

definition character_class_count :: "string \<Rightarrow> nat" where
  "character_class_count token = token_classes token"

text \<open>The entropy in exact arithmetic, where the code has an \<open>f64\<close>.\<close>

definition shannon_entropy_bits :: "string \<Rightarrow> real" where
  "shannon_entropy_bits token =
     (if token = [] then 0
      else sum_list (map (\<lambda>c. let p = real (count_list token c) / real (length token) in - p * log 2 p)
                         (remdups token)))"

definition trim_punctuation :: "string \<Rightarrow> string" where
  "trim_punctuation s =
     rev (dropWhile (Not \<circ> ascii_alphanumeric) (rev (dropWhile (Not \<circ> ascii_alphanumeric) s)))"

definition looks_like_high_entropy_secret :: "string \<Rightarrow> bool" where
  "looks_like_high_entropy_secret token \<longleftrightarrow>
     \<not> list_ex (\<lambda>c. c = CHR ''/'' \<or> c = CHR 0x5C \<or> c = CHR ''['' \<or> c = CHR '':'') token \<and>
     (let core = trim_punctuation token
      in MIN_SECRET_LEN \<le> length core \<and> MIN_SECRET_CHAR_CLASSES \<le> character_class_count core \<and>
         MIN_SECRET_ENTROPY_BITS \<le> shannon_entropy_bits core)"

definition redact_secret_token :: "string \<Rightarrow> string \<Rightarrow> string" where
  "redact_secret_token token marker =
     (if MIN_SECRET_LEN \<le> length token \<and> list_ex (\<lambda>p. starts_with token p) SECRET_TOKEN_PREFIXES
      then marker
      else if looks_like_high_entropy_secret token then marker
      else token)"

text \<open>The token read so far, reversed.\<close>

fun redact_loop :: "string \<Rightarrow> string \<Rightarrow> string \<Rightarrow> string" where
  "redact_loop marker token [] = (if token = [] then [] else redact_secret_token (rev token) marker)"
| "redact_loop marker token (c # cs) =
     (if is_space c
      then (if token = [] then [] else redact_secret_token (rev token) marker) @ c # redact_loop marker [] cs
      else redact_loop marker (c # token) cs)"

definition redact_secrets_with_marker :: "string \<Rightarrow> string \<Rightarrow> string" where
  "redact_secrets_with_marker text marker = redact_loop marker [] text"

definition mask_high_entropy_secrets :: "string \<Rightarrow> string" where
  "mask_high_entropy_secrets text = redact_secrets_with_marker text ''[API_KEY]''"

section \<open>Home directories\<close>

text \<open>
  The search for the next occurrence of the prefix, with the text before it copied, is the scan; the
  case of the prefix is kept.
\<close>

definition same_text :: "bool \<Rightarrow> string \<Rightarrow> string \<Rightarrow> bool" where
  "same_text case_insensitive a b \<longleftrightarrow> (if case_insensitive then eq_ignore_ascii_case a b else a = b)"

definition path_match :: "string \<Rightarrow> char \<Rightarrow> bool \<Rightarrow> matcher" where
  "path_match prefix sep case_insensitive prev rest =
     (let k = length prefix; home = take k rest; after = drop k rest;
          user = takeWhile (\<lambda>c. \<not> (c = sep \<or> is_space c)) after
      in if \<not> same_text case_insensitive home prefix then None
         else if after = [] then Some (length rest, rest)
         else if user = [] then Some (k, home)
         else Some (k + length user, home @ ''[USER]''))"

definition mask_user_paths_os :: "string \<Rightarrow> string \<Rightarrow> char \<Rightarrow> bool \<Rightarrow> string" where
  "mask_user_paths_os text prefix sep case_insensitive =
     scan (path_match prefix sep case_insensitive) [] text"

definition users_dir :: string where
  "users_dir = CHR 0x5C # ''Users'' @ [CHR 0x5C]"

definition mask_user_paths :: "string \<Rightarrow> string" where
  "mask_user_paths text =
     mask_user_paths_os
       (mask_user_paths_os (mask_user_paths_os text ''/Users/'' (CHR ''/'') True) ''/home/'' (CHR ''/'') True)
       users_dir (CHR 0x5C) True"

section \<open>The levels\<close>

definition mask_structural_chain :: "string \<Rightarrow> string" where
  "mask_structural_chain title =
     mask_api_keys (mask_user_paths (mask_phone_numbers (mask_credit_cards (mask_ssn (mask_korean_id
       (mask_iban (mask_emails title)))))))"

fun sanitize_title_with_level :: "string \<Rightarrow> PiiFilterLevel \<Rightarrow> string" where
  "sanitize_title_with_level title PiiOff = title"
| "sanitize_title_with_level title PiiBasic = mask_phone_numbers (mask_emails title)"
| "sanitize_title_with_level title PiiStandard = mask_high_entropy_secrets (mask_structural_chain title)"
| "sanitize_title_with_level title PiiStrict =
     mask_high_entropy_secrets (mask_passport (mask_ip_addresses (mask_structural_chain title)))"

definition sanitize_title :: "string \<Rightarrow> string" where
  "sanitize_title title = sanitize_title_with_level title PiiStandard"

datatype PiiMarker =
  Email | Phone | Card | KoreanId | Ssn | Iban | ApiKey | Ip | UserPath | Passport

definition marker_table :: "(string \<times> PiiMarker) list" where
  "marker_table =
     [(''[EMAIL]'', Email), (''[PHONE]'', Phone), (''[CARD]'', Card), (''[KR_ID]'', KoreanId), (''[SSN]'', Ssn),
      (''[IBAN]'', Iban), (''[API_KEY]'', ApiKey), (''[IP]'', Ip), (''[USER]'', UserPath),
      (''[PASSPORT]'', Passport)]"

definition marker_inserted :: "string \<Rightarrow> string \<Rightarrow> string \<Rightarrow> bool" where
  "marker_inserted original masked marker \<longleftrightarrow>
     contains masked marker \<and> (\<not> contains original marker \<or> masked \<noteq> original)"

definition detect_pii_markers_with_level :: "string \<Rightarrow> PiiFilterLevel \<Rightarrow> PiiMarker list" where
  "detect_pii_markers_with_level text level =
     (let masked = sanitize_title_with_level text level
      in map snd (filter (\<lambda>(marker, _). marker_inserted text masked marker) marker_table))"

definition is_sensitive_segment_with_level :: "string \<Rightarrow> PiiFilterLevel \<Rightarrow> bool" where
  "is_sensitive_segment_with_level text level \<longleftrightarrow> detect_pii_markers_with_level text level \<noteq> []"

end
