(* ===== verification/Capture_Exclusion.thy ===== *)
theory Capture_Exclusion
  imports Pii_Masking
begin

text \<open>
  Which windows are kept out of capture and upload: the exclusion policy of
  \<open>crates/maekon-vision/src/privacy/detection.rs\<close>, over the privacy section of the configuration.
  Text is ASCII: the markers of private windows in other scripts cannot occur in it and are left out.
\<close>

section \<open>Tables\<close>

definition SENSITIVE_APP_KEYWORDS :: "string list" where
  "SENSITIVE_APP_KEYWORDS =
     [''1password'', ''lastpass'', ''bitwarden'', ''dashlane'', ''keepass'', ''enpass'', ''nordpass'',
      ''bank'', ''banking'', ''wallet'', ''trading'', ''crypto'', ''coinbase'', ''binance'',
      ''authenticator'', ''2fa'', ''otp'', ''authy'', ''vault'', ''keychain'',
      ''signal'', ''telegram'', ''whatsapp'', ''threema'', ''session'', ''wire'',
      ''protonmail'', ''proton mail'', ''tutanota'']"

definition SENSITIVE_APP_PRODUCT_NAMES :: "string list" where
  "SENSITIVE_APP_PRODUCT_NAMES =
     [''keeper'', ''keeper security'', ''roboform'', ''sticky password'', ''password safe'', ''strongbox'',
      ''standard notes'', ''standardnotes'', ''robinhood'', ''fidelity'', ''vanguard'', ''charles schwab'',
      ''schwab'', ''etrade'', ''e trade'', ''interactive brokers'', ''ibkr'', ''webull'', ''wealthfront'',
      ''betterment'', ''sofi'', ''paypal'', ''venmo'', ''cash app'', ''epic hyperspace'', ''epic haiku'',
      ''epic canto'', ''cerner'', ''oracle health'', ''athenahealth'', ''mychart'', ''doxy me'', ''doximity'',
      ''simplepractice'', ''clio'', ''mycase'', ''rocket matter'', ''netdocuments'', ''docusign'']"

definition SENSITIVE_APP_CATEGORY_PHRASES :: "string list" where
  "SENSITIVE_APP_CATEGORY_PHRASES =
     [''password manager'', ''secure notes'', ''credit union'', ''investment account'', ''brokerage account'',
      ''wealth management'', ''retirement account'', ''medical record'', ''health record'', ''patient chart'',
      ''electronic health record'', ''medical chart'', ''tax prep'', ''tax filing'', ''payroll portal'',
      ''law practice'', ''legal case'']"

definition SENSITIVE_APP_CATEGORY_TOKENS :: "string list" where
  "SENSITIVE_APP_CATEGORY_TOKENS =
     [''emr'', ''ehr'', ''hipaa'', ''patient'', ''clinic'', ''hospital'', ''medical'', ''health'', ''brokerage'',
      ''broker'', ''investment'', ''wealth'', ''retirement'', ''payroll'', ''tax'', ''legal'', ''attorney'',
      ''notary'']"

definition SENSITIVE_TITLE_SUBSTRINGS :: "string list" where
  "SENSITIVE_TITLE_SUBSTRINGS =
     [''proton mail'', ''protonmail'', ''tutanota'', ''signal'', ''telegram web'', ''whatsapp web'', ''wire web'',
      ''keepass'', ''bitwarden'', ''1password'', ''lastpass'', ''authy'']"

definition PRIVATE_WINDOW_TITLE_MARKERS :: "string list" where
  "PRIVATE_WINDOW_TITLE_MARKERS = [''incognito'', ''inprivate'', ''private browsing'', ''(private)'']"

section \<open>Names\<close>

definition normalize_app_name :: "string \<Rightarrow> string" where
  "normalize_app_name value =
     join '' '' (shell_split (map (\<lambda>c. if ascii_alphanumeric c then lower_ascii c else CHR '' '') value))"

definition compact_app_name :: "string \<Rightarrow> string" where
  "compact_app_name value = filter (\<lambda>c. c \<noteq> CHR '' '') (normalize_app_name value)"

definition compact_product_matches :: "string \<Rightarrow> string \<Rightarrow> bool" where
  "compact_product_matches compact_name product_name =
     (let normalized = normalize_app_name product_name
      in if length (shell_split normalized) < 2 then False
         else contains compact_name (compact_app_name normalized))"

text \<open>\<open>slice::windows\<close>: the sublists of a length, from left to right.\<close>

fun windows_of :: "nat \<Rightarrow> 'a list \<Rightarrow> 'a list list" where
  "windows_of n [] = []"
| "windows_of n (x # xs) = (if length xs + 1 < n then [] else take n (x # xs) # windows_of n xs)"

definition normalized_phrase_matches :: "string \<Rightarrow> string \<Rightarrow> bool" where
  "normalized_phrase_matches name phrase =
     (let p = normalize_app_name phrase
      in if p = [] then False
         else if name = p then True
         else list_ex (\<lambda>w. join '' '' w = p) (windows_of (length (shell_split p)) (shell_split name)))"

definition is_sensitive_app :: "string \<Rightarrow> bool" where
  "is_sensitive_app app_name =
     (if list_ex (\<lambda>kw. contains (map lower_ascii app_name) kw) SENSITIVE_APP_KEYWORDS then True
      else let normalized = normalize_app_name app_name
           in if normalized = [] then False
              else let compact = compact_app_name normalized
                   in list_ex (\<lambda>name. normalized_phrase_matches normalized name \<or>
                                      compact_product_matches compact name) SENSITIVE_APP_PRODUCT_NAMES \<or>
                      list_ex (normalized_phrase_matches normalized) SENSITIVE_APP_CATEGORY_PHRASES \<or>
                      list_ex (\<lambda>category. category \<in> set (shell_split normalized)) SENSITIVE_APP_CATEGORY_TOKENS)"

definition matches_exclusion_pattern :: "string \<Rightarrow> string list \<Rightarrow> bool" where
  "matches_exclusion_pattern app_name patterns =
     (let lower = map lower_ascii app_name
      in list_ex (\<lambda>pattern.
           let pat = map lower_ascii pattern
           in case strip_prefix ''*'' pat of
                Some rest \<Rightarrow>
                  (case strip_suffix ''*'' rest of
                     Some keyword \<Rightarrow> contains lower keyword
                   | None \<Rightarrow> ends_with lower rest)
              | None \<Rightarrow>
                  (case strip_suffix ''*'' pat of
                     Some prefix \<Rightarrow> starts_with lower prefix
                   | None \<Rightarrow> lower = pat)) patterns)"

definition title_reveals_sensitive_service :: "string \<Rightarrow> bool" where
  "title_reveals_sensitive_service window_title =
     (let title_lower = map lower_ascii window_title; normalized = normalize_app_name window_title
      in if list_ex (\<lambda>kw. contains title_lower kw) SENSITIVE_TITLE_SUBSTRINGS then True
         else if list_ex (\<lambda>kw. contains title_lower kw) [''coinbase'', ''binance''] then True
         else if normalized = [] then False
         else list_ex (normalized_phrase_matches normalized) SENSITIVE_APP_PRODUCT_NAMES \<or>
              list_ex (normalized_phrase_matches normalized) SENSITIVE_APP_CATEGORY_PHRASES)"

definition title_indicates_private_window :: "string \<Rightarrow> bool" where
  "title_indicates_private_window window_title =
     list_ex (\<lambda>marker. contains (map lower_ascii window_title) marker) PRIVATE_WINDOW_TITLE_MARKERS"

definition canonical_exact_app_identity :: "string \<Rightarrow> string" where
  "canonical_exact_app_identity app_name =
     (let normalized = map lower_ascii (trim app_name)
      in case strip_suffix ''.exe'' normalized of Some s \<Rightarrow> s | None \<Rightarrow> normalized)"

section \<open>The policy\<close>

record PrivacyConfig =
  excluded_apps :: "string list"
  excluded_app_patterns :: "string list"
  excluded_title_patterns :: "string list"
  auto_exclude_sensitive :: bool
  privacy_pii_level :: PiiFilterLevel

definition should_exclude ::
  "string \<Rightarrow> string \<Rightarrow> string list \<Rightarrow> string list \<Rightarrow> string list \<Rightarrow> bool \<Rightarrow> bool" where
  "should_exclude app_name window_title apps app_patterns title_patterns auto =
     (if list_ex (\<lambda>candidate. canonical_exact_app_identity candidate = canonical_exact_app_identity app_name) apps
      then True
      else if matches_exclusion_pattern app_name app_patterns then True
      else if matches_exclusion_pattern window_title title_patterns then True
      else if auto \<and> is_sensitive_app app_name then True
      else if auto \<and> title_reveals_sensitive_service window_title then True
      else if auto \<and> title_indicates_private_window window_title then True
      else False)"

definition should_exclude_by_policy :: "PrivacyConfig \<Rightarrow> string \<Rightarrow> string \<Rightarrow> bool" where
  "should_exclude_by_policy privacy app_name window_title =
     should_exclude app_name window_title (excluded_apps privacy) (excluded_app_patterns privacy)
       (excluded_title_patterns privacy) (auto_exclude_sensitive privacy)"

lemma should_exclude_iff:
  "should_exclude app title apps pats tpats auto \<longleftrightarrow>
     (\<exists>a \<in> set apps. canonical_exact_app_identity a = canonical_exact_app_identity app) \<or>
     matches_exclusion_pattern app pats \<or> matches_exclusion_pattern title tpats \<or>
     auto \<and> (is_sensitive_app app \<or> title_reveals_sensitive_service title \<or> title_indicates_private_window title)"
  by (auto simp: should_exclude_def list_ex_iff)

end
