(* ===== verification/Consent.thy ===== *)
theory Consent
  imports Prelude
begin

text \<open>
  The consent authority of \<open>crates/maekon-core/src/consent.rs\<close> with the fail-closed gate of
  \<open>crates/maekon-core/src/ports/consent_manager.rs\<close>.

  The manager is a \<open>ConsentState\<close> behind a lock plus the addresses of two shared atomic cells.
  What it persists is the file at \<open>storage_path\<close> and the \<open>.tmp\<close> file beside it. The JSON codec of
  serde is a parameter: \<open>to_json\<close> and \<open>from_json\<close> over a type \<open>'j\<close> of file contents, of which the
  results use that a written record reads back as itself (\<open>json_round_trip\<close>). The wall clock and
  the generated identifiers are arguments, and \<open>save_fault\<close> says which system call of a save
  fails, so that every early return of the code is a branch here.
\<close>

subsection \<open>Data\<close>

definition CURRENT_POLICY_VERSION :: string where
  "CURRENT_POLICY_VERSION = ''1.0.0''"

record ConsentPermissions =
  screen_capture :: bool
  ocr_processing :: bool
  telemetry :: bool
  process_monitoring :: bool
  input_activity :: bool
  window_title_collection :: bool
  app_usage_analytics :: bool
  clipboard_monitoring :: bool
  file_access_monitoring :: bool
  activity_pattern_learning :: bool
  cross_device_sync :: bool
  full_text_extraction :: bool
  memory_graph_enrichment :: bool
  microphone :: bool
  unredacted_external_ocr :: bool
  memory_graph_retrieval_ranking :: bool
  memory_vault_mirror :: bool

text \<open>The derived \<open>Default\<close>: every permission is false.\<close>

definition default_permissions :: ConsentPermissions where
  "default_permissions = \<lparr>
     screen_capture = False, ocr_processing = False, telemetry = False,
     process_monitoring = False, input_activity = False,
     window_title_collection = False, app_usage_analytics = False,
     clipboard_monitoring = False, file_access_monitoring = False,
     activity_pattern_learning = False, cross_device_sync = False,
     full_text_extraction = False, memory_graph_enrichment = False,
     microphone = False, unredacted_external_ocr = False,
     memory_graph_retrieval_ranking = False, memory_vault_mirror = False\<rparr>"

record ConsentRecord =
  consent_id :: string
  version :: string
  granted_at :: instant
  expires_at :: "instant option"
  revoked_at :: "instant option"
  data_deletion_requested :: bool
  erasure_nonce :: "string option"
  permissions :: ConsentPermissions
  data_retention_days :: u32

datatype ConsentStatus = NotGranted | Valid | Expired | UpdateRequired

record ConsentState =
  current_consent :: "ConsentRecord option"
  pending_deletion :: bool
  pending_erasure_at :: "instant option"
  pending_erasure_nonce :: "string option"

record ConsentManager =
  state :: ConsentState
  cm_deletion_flag :: addr
  cm_erasing :: addr

text \<open>The consent file (absent or unreadable is \<open>None\<close>) and the temporary file of a save.\<close>

record 'j consent_files =
  consent_file :: "'j option"
  tmp_file :: "'j option"

record 'j consent_world =
  manager :: ConsentManager
  world_cells :: cells
  files :: "'j consent_files"

datatype CoreError = Io | Serialization

text \<open>
  The system call of a save that fails. \<open>WriteTmp t\<close> leaves \<open>t\<close> in the temporary file: nothing,
  or whatever prefix of the data was written.
\<close>

datatype 'j save_fault = NoFault | CreateDir | Serialize | WriteTmp "'j option" | Rename

subsection \<open>Persistence\<close>

definition save_to_file ::
  "(ConsentRecord \<Rightarrow> 'j) \<Rightarrow> 'j save_fault \<Rightarrow> ConsentRecord \<Rightarrow> 'j consent_files
    \<Rightarrow> (CoreError + unit) \<times> 'j consent_files" where
  "save_to_file to_json fault rec fs =
     (case fault of
        CreateDir \<Rightarrow> (Inl Io, fs)
      | Serialize \<Rightarrow> (Inl Serialization, fs)
      | WriteTmp t \<Rightarrow> (Inl Io, fs\<lparr>tmp_file := t\<rparr>)
      | Rename \<Rightarrow> (Inl Io, fs\<lparr>tmp_file := Some (to_json rec)\<rparr>)
      | NoFault \<Rightarrow> (Inr (), fs\<lparr>tmp_file := None, consent_file := Some (to_json rec)\<rparr>))"

definition load_from_file ::
  "('j \<Rightarrow> ConsentRecord option) \<Rightarrow> 'j option
    \<Rightarrow> ConsentRecord option \<times> instant option \<times> string option" where
  "load_from_file from_json contents =
     (case contents of
        None \<Rightarrow> (None, None, None)
      | Some data \<Rightarrow>
          (case from_json data of
             None \<Rightarrow> (None, None, None)
           | Some rec \<Rightarrow>
               if data_deletion_requested rec
               then (None, revoked_at rec, erasure_nonce rec)
               else (Some rec, None, None)))"

text \<open>\<open>ConsentManager::new\<close>: both cells are fresh and clear.\<close>

definition consent_new ::
  "('j \<Rightarrow> ConsentRecord option) \<Rightarrow> cells \<Rightarrow> 'j consent_files \<Rightarrow> 'j consent_world" where
  "consent_new from_json h fs =
     (let (current, at, nonce) = load_from_file from_json (consent_file fs);
          (a, h1) = alloc_cell h False;
          (b, h2) = alloc_cell h1 False
      in \<lparr>manager = \<lparr>state = \<lparr>current_consent = current, pending_deletion = False,
                              pending_erasure_at = at, pending_erasure_nonce = nonce\<rparr>,
                     cm_deletion_flag = a, cm_erasing = b\<rparr>,
          world_cells = h2, files = fs\<rparr>)"

subsection \<open>Reading consent\<close>

definition check_consent_locked_at :: "ConsentState \<Rightarrow> instant \<Rightarrow> ConsentStatus" where
  "check_consent_locked_at st now =
     (case current_consent st of
        None \<Rightarrow> NotGranted
      | Some rec \<Rightarrow>
          if (case expires_at rec of None \<Rightarrow> False | Some expires \<Rightarrow> expires < now) then Expired
          else if version rec \<noteq> CURRENT_POLICY_VERSION then UpdateRequired
          else Valid)"

definition check_consent :: "'j consent_world \<Rightarrow> instant \<Rightarrow> ConsentStatus" where
  "check_consent w now = check_consent_locked_at (state (manager w)) now"

definition effective_permissions :: "ConsentState \<Rightarrow> instant \<Rightarrow> ConsentPermissions" where
  "effective_permissions st now =
     (if check_consent_locked_at st now = Valid
      then (case current_consent st of None \<Rightarrow> default_permissions | Some r \<Rightarrow> permissions r)
      else default_permissions)"

definition status_and_permissions ::
  "ConsentState \<Rightarrow> instant \<Rightarrow> ConsentStatus \<times> ConsentPermissions" where
  "status_and_permissions st now =
     (check_consent_locked_at st now,
      case current_consent st of None \<Rightarrow> default_permissions | Some r \<Rightarrow> permissions r)"

definition has_pending_deletion :: "ConsentState \<Rightarrow> bool" where
  "has_pending_deletion st \<longleftrightarrow>
     pending_deletion st \<or>
     (case current_consent st of None \<Rightarrow> False | Some r \<Rightarrow> data_deletion_requested r)"

definition pending_erasure_id ::
  "(instant \<Rightarrow> string) \<Rightarrow> ConsentState \<Rightarrow> string option" where
  "pending_erasure_id to_rfc3339 st =
     (case pending_erasure_nonce st of
        Some n \<Rightarrow> Some n
      | None \<Rightarrow> map_option to_rfc3339 (pending_erasure_at st))"

definition is_permitted :: "ConsentState \<Rightarrow> (ConsentPermissions \<Rightarrow> bool) \<Rightarrow> bool" where
  "is_permitted st check =
     (case current_consent st of None \<Rightarrow> False | Some r \<Rightarrow> check (permissions r))"

text \<open>
  \<open>run_if_activity_pattern_learning_permitted\<close>: the read guard is held from the decision to the
  end of the action, so the action is one step of the protected state \<open>'a\<close>.
\<close>

definition run_if_activity_pattern_learning_permitted ::
  "ConsentState \<Rightarrow> instant \<Rightarrow> ('a \<Rightarrow> 'a) \<Rightarrow> 'a \<Rightarrow> bool \<times> 'a" where
  "run_if_activity_pattern_learning_permitted st now action x =
     (let permitted = check_consent_locked_at st now = Valid \<and>
            (case current_consent st of
               None \<Rightarrow> False
             | Some rec \<Rightarrow> activity_pattern_learning (permissions rec))
      in (permitted, if permitted then action x else x))"

subsection \<open>Changing consent\<close>

text \<open>
  \<open>grant_consent\<close> and \<open>revoke_consent\<close> each have two atomic parts: the section under the writer
  guard (\<open>grant_locked\<close>, \<open>revoke_locked\<close>) and, after the guard is dropped, the store to the shared
  flag.
\<close>

definition granted_record ::
  "string \<Rightarrow> instant \<Rightarrow> ConsentPermissions \<Rightarrow> u32 \<Rightarrow> ConsentRecord" where
  "granted_record cid now perms days =
     \<lparr>consent_id = cid, version = CURRENT_POLICY_VERSION, granted_at = now, expires_at = None,
      revoked_at = None, data_deletion_requested = False, erasure_nonce = None,
      permissions = perms, data_retention_days = days\<rparr>"

definition grant_locked ::
  "(ConsentRecord \<Rightarrow> 'j) \<Rightarrow> 'j save_fault \<Rightarrow> string \<Rightarrow> instant \<Rightarrow> ConsentPermissions \<Rightarrow> u32
    \<Rightarrow> 'j consent_world \<Rightarrow> (CoreError + unit) \<times> 'j consent_world" where
  "grant_locked to_json fault cid now perms days w =
     (let rec = granted_record cid now perms days;
          (res, fs) = save_to_file to_json fault rec (files w)
      in case res of
           Inl e \<Rightarrow> (Inl e, w\<lparr>files := fs\<rparr>)
         | Inr _ \<Rightarrow>
             (Inr (), w\<lparr>files := fs,
                manager := (manager w)\<lparr>state := (state (manager w))\<lparr>
                  current_consent := Some rec\<rparr>\<rparr>\<rparr>))"

definition store_deletion_flag :: "bool \<Rightarrow> 'j consent_world \<Rightarrow> 'j consent_world" where
  "store_deletion_flag b w =
     w\<lparr>world_cells := store_cell (world_cells w) (cm_deletion_flag (manager w)) b\<rparr>"

definition grant_consent ::
  "(ConsentRecord \<Rightarrow> 'j) \<Rightarrow> 'j save_fault \<Rightarrow> string \<Rightarrow> instant \<Rightarrow> ConsentPermissions \<Rightarrow> u32
    \<Rightarrow> 'j consent_world \<Rightarrow> (CoreError + unit) \<times> 'j consent_world" where
  "grant_consent to_json fault cid now perms days w =
     (case grant_locked to_json fault cid now perms days w of
        (Inl e, w') \<Rightarrow> (Inl e, w')
      | (Inr u, w') \<Rightarrow> (Inr (), store_deletion_flag False w'))"

definition revoked_record :: "instant \<Rightarrow> string \<Rightarrow> ConsentRecord \<Rightarrow> ConsentRecord" where
  "revoked_record now nonce rec =
     rec\<lparr>revoked_at := Some now, data_deletion_requested := True, erasure_nonce := Some nonce\<rparr>"

definition revoke_locked ::
  "(ConsentRecord \<Rightarrow> 'j) \<Rightarrow> 'j save_fault \<Rightarrow> instant \<Rightarrow> string
    \<Rightarrow> 'j consent_world \<Rightarrow> (CoreError + unit) \<times> 'j consent_world" where
  "revoke_locked to_json fault now nonce w =
     (let st = state (manager w) in
      case current_consent st of
        None \<Rightarrow>
          (Inr (), w\<lparr>manager := (manager w)\<lparr>state := st\<lparr>
             current_consent := None, pending_deletion := True\<rparr>\<rparr>\<rparr>)
      | Some rec \<Rightarrow>
          (let (res, fs) = save_to_file to_json fault (revoked_record now nonce rec) (files w)
           in case res of
                Inl e \<Rightarrow> (Inl e, w\<lparr>files := fs\<rparr>)
              | Inr _ \<Rightarrow>
                  (Inr (), w\<lparr>files := fs,
                     manager := (manager w)\<lparr>state := st\<lparr>
                       current_consent := None, pending_deletion := True,
                       pending_erasure_at := Some now,
                       pending_erasure_nonce := Some nonce\<rparr>\<rparr>\<rparr>)))"

definition revoke_consent ::
  "(ConsentRecord \<Rightarrow> 'j) \<Rightarrow> 'j save_fault \<Rightarrow> instant \<Rightarrow> string
    \<Rightarrow> 'j consent_world \<Rightarrow> (CoreError + unit) \<times> 'j consent_world" where
  "revoke_consent to_json fault now nonce w =
     (case revoke_locked to_json fault now nonce w of
        (Inl e, w') \<Rightarrow> (Inl e, w')
      | (Inr u, w') \<Rightarrow> (Inr (), store_deletion_flag True w'))"

definition clear_pending_deletion :: "'j consent_world \<Rightarrow> 'j consent_world" where
  "clear_pending_deletion w =
     store_deletion_flag False
       (w\<lparr>manager := (manager w)\<lparr>state := (state (manager w))\<lparr>
            pending_deletion := False, pending_erasure_at := None,
            pending_erasure_nonce := None\<rparr>\<rparr>\<rparr>)"

subsection \<open>The port helpers and the gate\<close>

definition telemetry_permitted :: "ConsentState \<Rightarrow> instant \<Rightarrow> bool" where
  "telemetry_permitted st now = telemetry (effective_permissions st now)"

definition screen_capture_permitted :: "ConsentState \<Rightarrow> instant \<Rightarrow> bool" where
  "screen_capture_permitted st now = screen_capture (effective_permissions st now)"

definition cross_device_sync_permitted :: "ConsentState \<Rightarrow> instant \<Rightarrow> bool" where
  "cross_device_sync_permitted st now = cross_device_sync (effective_permissions st now)"

definition microphone_permitted :: "ConsentState \<Rightarrow> instant \<Rightarrow> bool" where
  "microphone_permitted st now = microphone (effective_permissions st now)"

text \<open>A \<open>ConsentGate\<close> holds an optional manager; without one every permission is denied.\<close>

type_synonym ConsentGate = "ConsentState option"

definition permissions_snapshot :: "ConsentGate \<Rightarrow> instant \<Rightarrow> ConsentPermissions" where
  "permissions_snapshot g now =
     (case g of None \<Rightarrow> default_permissions | Some st \<Rightarrow> effective_permissions st now)"

definition may_upload_telemetry :: "ConsentGate \<Rightarrow> instant \<Rightarrow> bool" where
  "may_upload_telemetry g now = telemetry (permissions_snapshot g now)"

definition may_extract_full_text :: "ConsentGate \<Rightarrow> instant \<Rightarrow> bool" where
  "may_extract_full_text g now = full_text_extraction (permissions_snapshot g now)"

definition may_process_ocr :: "ConsentGate \<Rightarrow> instant \<Rightarrow> bool" where
  "may_process_ocr g now = ocr_processing (permissions_snapshot g now)"

definition may_sync_cross_device :: "ConsentGate \<Rightarrow> instant \<Rightarrow> bool" where
  "may_sync_cross_device g now = cross_device_sync (permissions_snapshot g now)"

definition may_capture_microphone :: "ConsentGate \<Rightarrow> instant \<Rightarrow> bool" where
  "may_capture_microphone g now = microphone (permissions_snapshot g now)"

definition may_enrich_memory_graph :: "ConsentGate \<Rightarrow> instant \<Rightarrow> bool" where
  "may_enrich_memory_graph g now = memory_graph_enrichment (permissions_snapshot g now)"

definition may_learn_activity_pattern :: "ConsentGate \<Rightarrow> instant \<Rightarrow> bool" where
  "may_learn_activity_pattern g now = activity_pattern_learning (permissions_snapshot g now)"

subsection \<open>Histories of the authority\<close>

text \<open>
  A history mixes calls, restarts and crashes. A call whose save fails returns an error; a crash
  stops the process after the save has done its part (all of it with \<open>NoFault\<close>), before the call
  returns, and the application is started again. A restart builds a new heap of cells.
\<close>

datatype 'j consent_op =
    Grant "'j save_fault" string instant ConsentPermissions u32
  | Revoke "'j save_fault" instant string
  | ClearPending
  | Restart
  | CrashInGrant "'j save_fault" string instant ConsentPermissions u32
  | CrashInRevoke "'j save_fault" instant string

definition restart ::
  "('j \<Rightarrow> ConsentRecord option) \<Rightarrow> 'j consent_world \<Rightarrow> 'j consent_world" where
  "restart from_json w = consent_new from_json [] (files w)"

fun consent_step ::
  "(ConsentRecord \<Rightarrow> 'j) \<Rightarrow> ('j \<Rightarrow> ConsentRecord option)
    \<Rightarrow> 'j consent_world \<Rightarrow> 'j consent_op \<Rightarrow> 'j consent_world" where
  "consent_step to_json from_json w (Grant f cid now p d) =
     snd (grant_consent to_json f cid now p d w)"
| "consent_step to_json from_json w (Revoke f now n) = snd (revoke_consent to_json f now n w)"
| "consent_step to_json from_json w ClearPending = clear_pending_deletion w"
| "consent_step to_json from_json w Restart = restart from_json w"
| "consent_step to_json from_json w (CrashInGrant f cid now p d) =
     restart from_json (snd (grant_locked to_json f cid now p d w))"
| "consent_step to_json from_json w (CrashInRevoke f now n) =
     restart from_json (snd (revoke_locked to_json f now n w))"

text \<open>
  What the authority promises: the permissions in force are those of the last grant whose save
  went through, unless a revocation whose save went through came after it.
\<close>

fun promised :: "ConsentPermissions option \<Rightarrow> 'j consent_op \<Rightarrow> ConsentPermissions option" where
  "promised g (Grant f cid now p d) = (if f = NoFault then Some p else g)"
| "promised g (Revoke f now n) = (if f = NoFault then None else g)"
| "promised g ClearPending = g"
| "promised g Restart = g"
| "promised g (CrashInGrant f cid now p d) = (if f = NoFault then Some p else g)"
| "promised g (CrashInRevoke f now n) = (if f = NoFault then None else g)"

definition json_round_trip ::
  "(ConsentRecord \<Rightarrow> 'j) \<Rightarrow> ('j \<Rightarrow> ConsentRecord option) \<Rightarrow> bool" where
  "json_round_trip to_json from_json \<longleftrightarrow> (\<forall>r. from_json (to_json r) = Some r)"

text \<open>Memory and disk agree: a restart now would find the active consent held in memory.\<close>

definition coherent :: "('j \<Rightarrow> ConsentRecord option) \<Rightarrow> 'j consent_world \<Rightarrow> bool" where
  "coherent from_json w \<longleftrightarrow>
     fst (load_from_file from_json (consent_file (files w))) =
       current_consent (state (manager w)) \<and>
     cm_deletion_flag (manager w) < length (world_cells w) \<and>
     cm_erasing (manager w) < length (world_cells w) \<and>
     cm_deletion_flag (manager w) \<noteq> cm_erasing (manager w)"

definition keeps_promise :: "ConsentPermissions option \<Rightarrow> ConsentState \<Rightarrow> bool" where
  "keeps_promise g st \<longleftrightarrow>
     map_option permissions (current_consent st) = g \<and>
     (case current_consent st of
        None \<Rightarrow> True
      | Some r \<Rightarrow> expires_at r = None \<and> version r = CURRENT_POLICY_VERSION)"

lemmas consent_defs =
  coherent_def keeps_promise_def json_round_trip_def load_from_file_def save_to_file_def
  consent_new_def restart_def grant_locked_def grant_consent_def revoke_locked_def
  revoke_consent_def clear_pending_deletion_def store_deletion_flag_def granted_record_def
  revoked_record_def Let_def

lemma restart_coherent: "coherent from_json (restart from_json w)"
  by (auto simp: consent_defs alloc_cell_def split: option.splits)

lemma restart_current [consent_simps]:
  assumes "coherent from_json w"
  shows "current_consent (state (manager (restart from_json w))) =
    current_consent (state (manager w))"
  using assms by (auto simp: consent_defs alloc_cell_def split: option.splits)

lemma grant_locked_coherent:
  assumes "json_round_trip to_json from_json" and "coherent from_json w"
  shows "coherent from_json (snd (grant_locked to_json f cid now p d w))"
  using assms by (cases f) (auto simp: consent_defs)

lemma revoke_locked_coherent:
  assumes "json_round_trip to_json from_json" and "coherent from_json w"
  shows "coherent from_json (snd (revoke_locked to_json f now n w))"
  using assms
  by (cases f; cases "current_consent (state (manager w))") (auto simp: consent_defs Let_def)

lemma store_deletion_flag_coherent [simp]:
  "coherent from_json (store_deletion_flag b w) = coherent from_json w"
  by (simp add: coherent_def store_deletion_flag_def)

lemma consent_step_coherent:
  assumes "json_round_trip to_json from_json" and "coherent from_json w"
  shows "coherent from_json (consent_step to_json from_json w x)"
proof (cases x)
  case (Grant f cid now p d)
  then show ?thesis
    using grant_locked_coherent [OF assms, of f cid now p d]
    by (auto simp: grant_consent_def split: prod.splits sum.splits)
next
  case (Revoke f now n)
  then show ?thesis
    using revoke_locked_coherent [OF assms, of f now n]
    by (auto simp: revoke_consent_def split: prod.splits sum.splits)
next
  case ClearPending
  then show ?thesis using assms by (simp add: clear_pending_deletion_def coherent_def store_deletion_flag_def)
qed (simp_all add: restart_coherent)

interpretation consent_machine: invariant_machine "consent_step to_json from_json"
  "\<lambda>w. json_round_trip to_json from_json \<and> coherent from_json w" for to_json from_json
  by unfold_locales (simp add: consent_step_coherent)

lemma consent_new_coherent: "coherent from_json (consent_new from_json h fs)"
  by (auto simp: consent_defs alloc_cell_def split: option.splits)

lemma grant_locked_promise:
  assumes "keeps_promise g (state (manager w))"
  shows "keeps_promise (if f = NoFault then Some p else g)
    (state (manager (snd (grant_locked to_json f cid now p d w))))"
  using assms by (cases f) (auto simp: consent_defs)

lemma revoke_locked_promise:
  assumes "keeps_promise g (state (manager w))"
  shows "keeps_promise (if f = NoFault then None else g)
    (state (manager (snd (revoke_locked to_json f now n w))))"
  using assms
  by (cases f; cases "current_consent (state (manager w))") (auto simp: consent_defs Let_def)

lemma store_deletion_flag_state [simp]:
  "state (manager (store_deletion_flag b w)) = state (manager w)"
  "files (store_deletion_flag b w) = files w"
  by (simp_all add: store_deletion_flag_def)

lemma keeps_promise_restart:
  assumes "coherent from_json w" and "keeps_promise g (state (manager w))"
  shows "keeps_promise g (state (manager (restart from_json w)))"
  using assms(2) by (simp add: keeps_promise_def restart_current [OF assms(1)])

lemma consent_step_promise:
  assumes "json_round_trip to_json from_json" and "coherent from_json w"
    and "keeps_promise g (state (manager w))"
  shows "keeps_promise (promised g x) (state (manager (consent_step to_json from_json w x)))"
proof (cases x)
  case (Grant f cid now p d)
  then show ?thesis
    using grant_locked_promise [OF assms(3), of f p to_json cid now d]
    by (auto simp: grant_consent_def split: prod.splits sum.splits)
next
  case (Revoke f now n)
  then show ?thesis
    using revoke_locked_promise [OF assms(3), of f to_json now n]
    by (auto simp: revoke_consent_def split: prod.splits sum.splits)
next
  case ClearPending
  then show ?thesis
    using assms(3) by (simp add: clear_pending_deletion_def keeps_promise_def)
next
  case Restart
  then show ?thesis using keeps_promise_restart [OF assms(2,3)] by simp
next
  case (CrashInGrant f cid now p d)
  then show ?thesis
    by (simp add: keeps_promise_restart [OF grant_locked_coherent [OF assms(1,2)]
          grant_locked_promise [OF assms(3)]] del: if_split)
next
  case (CrashInRevoke f now n)
  then show ?thesis
    by (simp add: keeps_promise_restart [OF revoke_locked_coherent [OF assms(1,2)]
          revoke_locked_promise [OF assms(3)]] del: if_split)
qed

lemma consent_run_promise:
  assumes "json_round_trip to_json from_json" and "coherent from_json w"
    and "keeps_promise g (state (manager w))"
  shows "keeps_promise (foldl promised g xs)
    (state (manager (foldl (consent_step to_json from_json) w xs)))"
  using assms(2,3)
proof (induction xs arbitrary: w g)
  case Nil
  then show ?case by simp
next
  case (Cons x xs)
  then show ?case
    using consent_step_coherent [OF assms(1)] consent_step_promise [OF assms(1)] by simp
qed

lemma keeps_promise_effective:
  assumes "keeps_promise g st"
  shows "effective_permissions st now =
    (case g of None \<Rightarrow> default_permissions | Some p \<Rightarrow> p)"
  using assms
  by (auto simp: keeps_promise_def effective_permissions_def check_consent_locked_at_def
      split: option.splits)

lemma fresh_install_promise:
  assumes "consent_file fs = None"
  shows "keeps_promise None (state (manager (consent_new from_json h fs)))"
  using assms by (simp add: consent_defs alloc_cell_def)

subsection \<open>Properties\<close>



text \<open> A revocation either fails with every gate, the shared flags and the persisted file as
  they were, or succeeds: then no permission is in force now or after a restart, the erasure
  signal and the write barrier are raised, and the erasure has the same identity after a restart
  as before it.\<close>

theorem revoke_all_or_nothing:
  assumes "json_round_trip to_json from_json" and "coherent from_json w"
    and "current_consent (state (manager w)) = Some rec"
    and "revoke_consent to_json fault now nonce w = (res, w')"
  shows "if fault = NoFault
    then res = Inr () \<and>
      (\<forall>t. effective_permissions (state (manager w')) t = default_permissions) \<and>
      (\<forall>t. effective_permissions (state (manager (restart from_json w'))) t
           = default_permissions) \<and>
      has_pending_deletion (state (manager w')) \<and>
      load_cell (world_cells w') (cm_deletion_flag (manager w')) \<and>
      pending_erasure_id fmt (state (manager w')) = Some nonce \<and>
      pending_erasure_id fmt (state (manager (restart from_json w'))) = Some nonce
    else (\<exists>e. res = Inl e) \<and> manager w' = manager w \<and> world_cells w' = world_cells w \<and>
      consent_file (files w') = consent_file (files w)"
  using assms
  by (cases fault)
    (auto simp: consent_defs effective_permissions_def check_consent_locked_at_def
      has_pending_deletion_def pending_erasure_id_def alloc_cell_def)

theorem revoke_all_or_nothing_witness:
  "let w = snd (grant_consent Some NoFault ''c1'' 5 default_permissions 30
             (consent_new id [] \<lparr>consent_file = None, tmp_file = None\<rparr>));
       w' = snd (revoke_consent Some NoFault 9 ''n1'' w)
   in load_cell (world_cells w') (cm_deletion_flag (manager w')) \<and>
      pending_erasure_id (\<lambda>_. []) (state (manager (restart id w'))) = Some ''n1''"
proof -
  define w0 where "w0 = consent_new id [] \<lparr>consent_file = None :: ConsentRecord option option,
    tmp_file = None\<rparr>"
  define w where "w = snd (grant_consent Some NoFault ''c1'' 5 default_permissions 30 w0)"
  define w' where "w' = snd (revoke_consent Some NoFault 9 ''n1'' w)"
  have codec: "json_round_trip Some id" by (simp add: json_round_trip_def)
  have coh: "coherent id w"
    using consent_step_coherent [OF codec, of w0 "Grant NoFault ''c1'' 5 default_permissions 30"]
    by (simp add: w_def w0_def consent_new_coherent)
  have cur: "current_consent (state (manager w)) =
      Some (granted_record ''c1'' 5 default_permissions 30)"
    by (simp add: w_def w0_def consent_defs alloc_cell_def)
  have rv: "revoke_consent Some NoFault 9 ''n1'' w = (Inr (), w')"
    using cur by (simp add: w'_def consent_defs)
  show ?thesis
    using revoke_all_or_nothing [OF codec coh cur rv, of "\<lambda>_. []"]
    by (simp add: w'_def w_def w0_def Let_def)
qed

text \<open> A permission is in force only under a present record of the current policy version that
  has not passed its expiry; at the expiry instant itself it still is, and a gate without a
  manager grants nothing.\<close>

theorem permissions_fail_closed:
  assumes "effective_permissions st now \<noteq> default_permissions"
  shows "\<exists>r. current_consent st = Some r \<and> effective_permissions st now = permissions r \<and>
      version r = CURRENT_POLICY_VERSION \<and> (\<forall>e. expires_at r = Some e \<longrightarrow> now \<le> e) \<and>
      (\<forall>e. expires_at r = Some e \<longrightarrow> effective_permissions st e = permissions r) \<and>
      permissions_snapshot None now = default_permissions"
  using assms
  by (auto simp: effective_permissions_def check_consent_locked_at_def permissions_snapshot_def
      not_less split: option.splits if_splits)

theorem permissions_fail_closed_witness:
  "let r = (granted_record ''c1'' 5 (default_permissions\<lparr>telemetry := True\<rparr>) 30)
         \<lparr>expires_at := Some 9\<rparr>;
       st = \<lparr>current_consent = Some r, pending_deletion = False, pending_erasure_at = None,
             pending_erasure_nonce = None\<rparr>
   in effective_permissions st 9 = permissions r"
proof -
  let ?r = "(granted_record ''c1'' 5 (default_permissions\<lparr>telemetry := True\<rparr>) 30)
         \<lparr>expires_at := Some 9\<rparr>"
  let ?st = "\<lparr>current_consent = Some ?r, pending_deletion = False, pending_erasure_at = None,
             pending_erasure_nonce = None\<rparr>"
  have "effective_permissions ?st 3 \<noteq> default_permissions"
    by (simp add: effective_permissions_def check_consent_locked_at_def granted_record_def
        default_permissions_def)
  from permissions_fail_closed [OF this] show ?thesis by auto
qed

text \<open>The two atomic parts of a grant and of a revocation can interleave so that a revocation
  that returned \<open>Ok\<close> leaves consent revoked with the write barrier down: the grant's store to the
  shared flag is after the release of the guard and overwrites the revocation's.\<close>

theorem grant_revoke_race_clears_barrier:
  assumes "coherent from_json w"
  shows "\<exists>w1 w2.
      grant_locked to_json NoFault cid now p d w = (Inr (), w1) \<and>
      revoke_consent to_json NoFault now' n w1 = (Inr (), w2) \<and>
      (let w3 = store_deletion_flag False w2 in
         current_consent (state (manager w3)) = None \<and> pending_deletion (state (manager w3)) \<and>
         \<not> load_cell (world_cells w3) (cm_deletion_flag (manager w3)))"
  using assms by (simp add: consent_defs Let_def)

theorem grant_revoke_race_clears_barrier_witness:
  "\<exists>w1 w2. grant_locked Some NoFault ''c1'' 5 default_permissions 30
        (consent_new id [] \<lparr>consent_file = None, tmp_file = None\<rparr>) = (Inr (), w1) \<and>
      revoke_consent Some NoFault 6 ''n1'' w1 = (Inr (), w2) \<and>
      \<not> load_cell (world_cells (store_deletion_flag False w2)) (cm_deletion_flag (manager w2))"
  using grant_revoke_race_clears_barrier
    [OF consent_new_coherent, of Some "''c1''" 5 default_permissions 30 id "[]"
      "\<lparr>consent_file = None, tmp_file = None\<rparr>" 6 "''n1''"]
  by (auto simp: Let_def store_deletion_flag_def)

text \<open>A re-grant keeps the pending erasure and its identity in memory, and a restart after it
  loses both: the granted record replaced the revoked one on disk.\<close>

theorem regrant_restart_loses_erasure:
  assumes "json_round_trip to_json from_json"
    and "pending_deletion (state (manager w))"
    and "grant_consent to_json NoFault cid now p d w = (Inr (), w')"
  shows "has_pending_deletion (state (manager w')) \<and>
    pending_erasure_id fmt (state (manager w')) = pending_erasure_id fmt (state (manager w)) \<and>
    \<not> has_pending_deletion (state (manager (restart from_json w'))) \<and>
    pending_erasure_id fmt (state (manager (restart from_json w'))) = None"
  using assms
  by (auto simp: consent_defs has_pending_deletion_def pending_erasure_id_def alloc_cell_def
      cong: option.case_cong)

theorem regrant_restart_loses_erasure_witness:
  "let w = snd (revoke_consent Some NoFault 6 ''n1''
              (snd (grant_consent Some NoFault ''c1'' 5 default_permissions 30
                 (consent_new id [] \<lparr>consent_file = None, tmp_file = None\<rparr>))));
       w' = snd (grant_consent Some NoFault ''c2'' 7 default_permissions 30 w)
   in has_pending_deletion (state (manager w')) \<and>
      pending_erasure_id (\<lambda>_. []) (state (manager (restart id w'))) = None"
proof -
  define w where "w = snd (revoke_consent Some NoFault 6 ''n1''
    (snd (grant_consent Some NoFault ''c1'' 5 default_permissions 30
       (consent_new id [] \<lparr>consent_file = None, tmp_file = None\<rparr>))))"
  define w' where "w' = snd (grant_consent Some NoFault ''c2'' 7 default_permissions 30 w)"
  have codec: "json_round_trip Some id" by (simp add: json_round_trip_def)
  have pend: "pending_deletion (state (manager w))"
    by (simp add: w_def consent_defs alloc_cell_def)
  have gr: "grant_consent Some NoFault ''c2'' 7 default_permissions 30 w = (Inr (), w')"
    by (simp add: w'_def consent_defs)
  show ?thesis
    using regrant_restart_loses_erasure [OF codec pend gr, of "\<lambda>_. []"]
    by (simp add: w'_def w_def Let_def)
qed

end
