(* ===== verification/Tracking_Schedule.thy ===== *)
theory Tracking_Schedule
  imports Prelude
begin

text \<open>
  The wall-clock schedules: the tracking windows of
  \<open>crates/maekon-core/src/config/sections/tracking_schedule/\<close> (\<open>types.rs\<close>, \<open>overlap.rs\<close>) and the
  active hours of \<open>config/sections/monitoring.rs\<close>, read by \<open>should_run_now_with_time\<close> in
  \<open>capture_gate.rs\<close>. A \<open>DateTime<Local>\<close> is used by its weekday and its time of day only: a
  \<^emph>\<open>wall clock\<close>, with the time of day in nanoseconds. Both schedules are shown to be intervals
  on the cyclic week.
\<close>

datatype Weekday = Mon | Tue | Wed | Thu | Fri | Sat | Sun

fun num_days_from_sunday :: "Weekday \<Rightarrow> nat" where
  "num_days_from_sunday Sun = 0"
| "num_days_from_sunday Mon = 1"
| "num_days_from_sunday Tue = 2"
| "num_days_from_sunday Wed = 3"
| "num_days_from_sunday Thu = 4"
| "num_days_from_sunday Fri = 5"
| "num_days_from_sunday Sat = 6"

fun weekday_succ :: "Weekday \<Rightarrow> Weekday" where
  "weekday_succ Mon = Tue"
| "weekday_succ Tue = Wed"
| "weekday_succ Wed = Thu"
| "weekday_succ Thu = Fri"
| "weekday_succ Fri = Sat"
| "weekday_succ Sat = Sun"
| "weekday_succ Sun = Mon"

fun weekday_pred :: "Weekday \<Rightarrow> Weekday" where
  "weekday_pred Mon = Sun"
| "weekday_pred Tue = Mon"
| "weekday_pred Wed = Tue"
| "weekday_pred Thu = Wed"
| "weekday_pred Fri = Thu"
| "weekday_pred Sat = Fri"
| "weekday_pred Sun = Sat"

text \<open>Times of day, in nanoseconds since midnight.\<close>

definition minute :: nat where "minute = 60 * 10 ^ 9"
definition hour :: nat where "hour = 60 * minute"
definition day :: nat where "day = 24 * hour"

record wall_clock =
  weekday :: Weekday
  time_of_day :: nat

definition wf_clock :: "wall_clock \<Rightarrow> bool" where
  "wf_clock now \<longleftrightarrow> time_of_day now < day"

subsection \<open>Tracking windows\<close>

datatype window_error =
    EmptyField | NotHhmm | HourNotNumber | MinuteNotNumber | OutOfRange
  | StartEqualsEnd | WrapTooLong | UnknownTimezone

record TrackingWindow =
  start_text :: string
  end_text :: string
  days_of_week :: "Weekday list"
  label :: string

record TrackingScheduleConfig =
  enabled :: bool
  windows :: "TrackingWindow list"
  timezone :: string

text \<open>
  \<open>str::parse::<u32>\<close>: an optional plus sign and at least one decimal digit, within range.
\<close>

definition digit_value :: "char \<Rightarrow> nat option" where
  "digit_value c = (let n = of_char c in if 48 \<le> n \<and> n \<le> 57 then Some (n - 48) else None)"

fun digits_value :: "nat \<Rightarrow> string \<Rightarrow> nat option" where
  "digits_value acc [] = Some acc"
| "digits_value acc (c # cs) =
     (case digit_value c of None \<Rightarrow> None | Some d \<Rightarrow> digits_value (10 * acc + d) cs)"

definition parse_u32 :: "string \<Rightarrow> nat option" where
  "parse_u32 s =
     (let ds = (case s of CHR ''+'' # r \<Rightarrow> r | _ \<Rightarrow> s)
      in if ds = [] then None
         else case digits_value 0 ds of
                None \<Rightarrow> None
              | Some n \<Rightarrow> if n < 2 ^ 32 then Some n else None)"

text \<open>\<open>splitn(2, ':')\<close>\<close>

definition split_colon :: "string \<Rightarrow> string list" where
  "split_colon s =
     (let l = takeWhile (\<lambda>c. c \<noteq> CHR '':'') s
      in if CHR '':'' \<in> set s then [l, drop (Suc (length l)) s] else [l])"

text \<open>\<open>NaiveTime::from_hms_opt(h, m, 0)\<close>\<close>

definition from_hm :: "nat \<Rightarrow> nat \<Rightarrow> nat option" where
  "from_hm h m = (if h < 24 \<and> m < 60 then Some (h * hour + m * minute) else None)"

definition parse_hhmm :: "string \<Rightarrow> window_error + nat" where
  "parse_hhmm s =
     (if s = [] then Inl EmptyField
      else case split_colon s of
             [hs, ms] \<Rightarrow>
               if length hs \<noteq> 2 \<or> length ms \<noteq> 2 then Inl NotHhmm
               else (case parse_u32 hs of
                       None \<Rightarrow> Inl HourNotNumber
                     | Some h \<Rightarrow>
                        (case parse_u32 ms of
                           None \<Rightarrow> Inl MinuteNotNumber
                         | Some m \<Rightarrow>
                            (case from_hm h m of None \<Rightarrow> Inl OutOfRange | Some t \<Rightarrow> Inr t)))
           | _ \<Rightarrow> Inl NotHhmm)"

text \<open>\<open>TryFrom<TrackingWindowRaw>\<close>; the raw and the checked record have the same fields.\<close>

definition window_try_from :: "TrackingWindow \<Rightarrow> window_error + TrackingWindow" where
  "window_try_from raw =
     (case parse_hhmm (start_text raw) of
        Inl e \<Rightarrow> Inl e
      | Inr s \<Rightarrow>
         (case parse_hhmm (end_text raw) of
            Inl e \<Rightarrow> Inl e
          | Inr e \<Rightarrow>
             if s = e then Inl StartEqualsEnd
             else if e < s \<and> 16 * 60 < e div minute + 24 * 60 - s div minute then Inl WrapTooLong
             else Inr raw))"

text \<open>The time zone database is a parameter: which names it knows.\<close>

definition schedule_try_from ::
  "(string \<Rightarrow> bool) \<Rightarrow> TrackingScheduleConfig \<Rightarrow> window_error + TrackingScheduleConfig" where
  "schedule_try_from known_tz raw =
     (if timezone raw \<noteq> ''Local'' \<and> \<not> known_tz (timezone raw) then Inl UnknownTimezone
      else Inr raw)"

definition default_tracking_schedule :: TrackingScheduleConfig where
  "default_tracking_schedule = \<lparr>enabled = False, windows = [], timezone = ''Local''\<rparr>"

definition window_is_active :: "TrackingWindow \<Rightarrow> wall_clock \<Rightarrow> bool" where
  "window_is_active w now =
     (if days_of_week w = [] then False
      else case parse_hhmm (start_text w) of
             Inl _ \<Rightarrow> False
           | Inr s \<Rightarrow>
              (case parse_hhmm (end_text w) of
                 Inl _ \<Rightarrow> False
               | Inr e \<Rightarrow>
                  let t = time_of_day now; d = weekday now in
                  if s < e then d \<in> set (days_of_week w) \<and> s \<le> t \<and> t < e
                  else (d \<in> set (days_of_week w) \<and> s \<le> t) \<or>
                       (list_ex (\<lambda>x. weekday_succ x = d) (days_of_week w) \<and> t < e)))"

subsection \<open>Active hours\<close>

record ScheduleConfig =
  active_hours_enabled :: bool
  active_start_hour :: u8
  active_end_hour :: u8
  active_days :: "Weekday list"
  pause_on_screen_lock :: bool
  pause_on_battery_saver :: bool

definition default_schedule :: ScheduleConfig where
  "default_schedule =
     \<lparr>active_hours_enabled = False, active_start_hour = 9, active_end_hour = 18,
      active_days = [Mon, Tue, Wed, Thu, Fri], pause_on_screen_lock = True,
      pause_on_battery_saver = False\<rparr>"

definition should_run_now_with_time :: "ScheduleConfig \<Rightarrow> wall_clock \<Rightarrow> bool" where
  "should_run_now_with_time schedule now =
     (if \<not> active_hours_enabled schedule then True
      else
        let h = (of_nat (time_of_day now div hour) :: u8);
            start = active_start_hour schedule;
            en = active_end_hour schedule
        in if start < en then
             (if weekday now \<notin> set (active_days schedule) then False else start \<le> h \<and> h < en)
           else if en < start then
             (if start \<le> h then weekday now \<in> set (active_days schedule)
              else if h < en then weekday_pred (weekday now) \<in> set (active_days schedule)
              else False)
           else False)"

subsection \<open>The cyclic week\<close>

definition week_pos :: "Weekday \<Rightarrow> nat \<Rightarrow> int" where
  "week_pos d t = int (num_days_from_sunday d) * int day + int t"

text \<open>
  The specification: \<open>now\<close> lies in the interval of length \<open>len\<close> that opens at \<open>start\<close> on one of the
  days, on the week taken as a circle.
\<close>

definition in_weekly_interval :: "Weekday set \<Rightarrow> nat \<Rightarrow> nat \<Rightarrow> wall_clock \<Rightarrow> bool" where
  "in_weekly_interval days start len now \<longleftrightarrow>
     (\<exists>d \<in> days. (week_pos (weekday now) (time_of_day now) - week_pos d start) mod (7 * int day)
        < int len)"

lemma day_pos: "0 < day"
  by (simp add: day_def hour_def minute_def)

lemma weekday_difference:
  obtains j :: int where
    "int (num_days_from_sunday n) - int (num_days_from_sunday d) = j"
    "j \<in> {-6..6}" "n = d \<longleftrightarrow> j = 0" "weekday_succ d = n \<longleftrightarrow> j = 1 \<or> j = -6"
  by (cases d; cases n) (auto intro!: that)

lemma succ_pred: "weekday_succ d = n \<longleftrightarrow> d = weekday_pred n"
  by (cases d; cases n) simp_all

lemma cyclic_mod:
  fixes x M :: int
  assumes "- M \<le> x" and "x < M"
  shows "x mod M = (if 0 \<le> x then x else x + M)"
proof (cases "0 \<le> x")
  case False
  have "x mod M = (x + M) mod M" by simp
  also have "\<dots> = x + M" using assms False by (intro mod_pos_pos_trivial) auto
  finally show ?thesis using False by simp
qed (use assms in simp)

text \<open>The elapsed time since the last opening on day \<open>d\<close>.\<close>

lemma since_open:
  fixes s t D :: nat and j :: int
  assumes "s < D" and "t < D" and "j \<in> {-6..6}" and "len \<le> D"
  shows "(j * int D + int t - int s) mod (7 * int D) < int len \<longleftrightarrow>
    j = 0 \<and> s \<le> t \<and> t < s + len \<or> (j = 1 \<or> j = -6) \<and> t + D < s + len"
proof -
  have "j = -6 \<or> j = -5 \<or> j = -4 \<or> j = -3 \<or> j = -2 \<or> j = -1 \<or> j = 0
      \<or> j = 1 \<or> j = 2 \<or> j = 3 \<or> j = 4 \<or> j = 5 \<or> j = 6"
    using assms(3) unfolding atLeastAtMost_iff by presburger
  then show ?thesis
    using assms(1,2,4) by (elim disjE; simp add: cyclic_mod; linarith)
qed

lemma weekly_interval_day:
  assumes "s < day" and "wf_clock now" and "len \<le> day"
  shows "in_weekly_interval days s len now \<longleftrightarrow>
    (weekday now \<in> days \<and> s \<le> time_of_day now \<and> time_of_day now < s + len) \<or>
    (weekday_pred (weekday now) \<in> days \<and> time_of_day now + day < s + len)"
proof -
  have "(week_pos (weekday now) (time_of_day now) - week_pos d s) mod (7 * int day) < int len \<longleftrightarrow>
      (weekday now = d \<and> s \<le> time_of_day now \<and> time_of_day now < s + len) \<or>
      (d = weekday_pred (weekday now) \<and> time_of_day now + day < s + len)" for d
  proof -
    obtain j where j: "int (num_days_from_sunday (weekday now)) - int (num_days_from_sunday d) = j"
      "j \<in> {-6..6}" "weekday now = d \<longleftrightarrow> j = 0" "weekday_succ d = weekday now \<longleftrightarrow> j = 1 \<or> j = -6"
      by (rule weekday_difference)
    have "week_pos (weekday now) (time_of_day now) - week_pos d s =
        j * int day + int (time_of_day now) - int s"
      unfolding j(1) [symmetric] week_pos_def by (simp add: algebra_simps)
    then show ?thesis
      using since_open [OF assms(1) assms(2) [unfolded wf_clock_def] j(2) assms(3)] j(3,4)
      by (simp add: succ_pred)
  qed
  then show ?thesis
    unfolding in_weekly_interval_def by auto
qed

subsection \<open>Both schedules are weekly intervals\<close>

lemma parse_hhmm_range: "parse_hhmm s = Inr t \<Longrightarrow> t < day \<and> t mod minute = 0"
  by (auto simp: parse_hhmm_def from_hm_def day_def hour_def minute_def Let_def
      split: list.splits option.splits if_splits)

text \<open>The opening time of a window and the time from its opening to its closing.\<close>

definition window_start :: "TrackingWindow \<Rightarrow> nat" where
  "window_start w = (case parse_hhmm (start_text w) of Inl _ \<Rightarrow> 0 | Inr s \<Rightarrow> s)"

definition window_end :: "TrackingWindow \<Rightarrow> nat" where
  "window_end w = (case parse_hhmm (end_text w) of Inl _ \<Rightarrow> 0 | Inr e \<Rightarrow> e)"

definition window_span :: "TrackingWindow \<Rightarrow> nat" where
  "window_span w = (window_end w + day - window_start w) mod day"

definition valid_window :: "TrackingWindow \<Rightarrow> bool" where
  "valid_window w \<longleftrightarrow> window_try_from w = Inr w"

lemma valid_windowD:
  assumes "valid_window w"
  shows "parse_hhmm (start_text w) = Inr (window_start w)"
    and "parse_hhmm (end_text w) = Inr (window_end w)"
    and "window_start w < day" and "window_end w < day" and "window_start w \<noteq> window_end w"
  using assms parse_hhmm_range
  by (auto simp: valid_window_def window_try_from_def window_start_def window_end_def
      split: sum.splits if_splits)

lemma span_eq:
  assumes "s < day" and "e < day" and "s \<noteq> e"
  shows "(e + day - s) mod day = (if s < e then e - s else e + day - s)"
proof (cases "s < e")
  case True
  then have "e + day - s = (e - s) + day" by simp
  then show ?thesis using True assms by (simp only: mod_add_self2) simp
next
  case False
  then have "e + day - s < day" using assms by linarith
  then show ?thesis using False by simp
qed

text \<open>An accepted overnight window lasts at most 16 hours, and every accepted one less than a day.\<close>

lemma valid_window_span:
  assumes "valid_window w"
  shows "0 < window_span w \<and> window_span w < day \<and>
    (window_end w < window_start w \<longrightarrow> window_span w \<le> 16 * hour)"
proof -
  note v = valid_windowD [OF assms]
  have span: "window_span w =
      (if window_start w < window_end w then window_end w - window_start w
       else window_end w + day - window_start w)"
    unfolding window_span_def by (rule span_eq [OF v(3-5)])
  have "window_span w \<le> 16 * hour" if wrap: "window_end w < window_start w"
  proof -
    obtain a b where ab: "window_start w = a * minute" "window_end w = b * minute"
      using parse_hhmm_range [OF v(1)] parse_hhmm_range [OF v(2)]
      by (metis dvd_div_mult_self dvd_eq_mod_eq_0)
    have pos: "0 < minute" by (simp add: minute_def)
    have "\<not> 16 * 60 < b + 24 * 60 - a"
      using assms wrap v(1,2,5) pos ab
      by (auto simp: valid_window_def window_try_from_def split: if_splits)
    then have "b + 24 * 60 \<le> 16 * 60 + a" by linarith
    then have "(b + 24 * 60) * minute \<le> (16 * 60 + a) * minute" by (rule mult_le_mono1)
    then have "b * minute + day \<le> 16 * hour + a * minute"
      by (simp add: day_def hour_def algebra_simps)
    then show ?thesis using wrap ab span by simp
  qed
  then show ?thesis using span v(3-5) by auto
qed

lemma window_is_active_weekly:
  assumes w: "valid_window w" and now: "wf_clock now"
  shows "window_is_active w now \<longleftrightarrow>
    in_weekly_interval (set (days_of_week w)) (window_start w) (window_span w) now"
proof -
  note v = valid_windowD [OF w]
  have span: "window_span w =
      (if window_start w < window_end w then window_end w - window_start w
       else window_end w + day - window_start w)"
    unfolding window_span_def by (rule span_eq [OF v(3-5)])
  have "window_span w \<le> day" using valid_window_span [OF w] by simp
  note weekly = weekly_interval_day [OF v(3) now this]
  have ex: "list_ex (\<lambda>x. weekday_succ x = d) ds \<longleftrightarrow> weekday_pred d \<in> set ds" for d ds
    by (auto simp: list_ex_iff succ_pred)
  have t: "time_of_day now < day" using now by (simp add: wf_clock_def)
  show ?thesis
  proof (cases "window_start w < window_end w")
    case True
    then show ?thesis
      using v t unfolding weekly by (auto simp: span window_is_active_def Let_def)
  next
    case False
    then have "window_end w < window_start w" using v(5) by simp
    then show ?thesis
      using v t unfolding weekly by (auto simp: span window_is_active_def Let_def ex)
  qed
qed

text \<open>Active hours within a day: an opening hour below 24 and a closing hour of at most 24.\<close>

definition valid_hours :: "ScheduleConfig \<Rightarrow> bool" where
  "valid_hours sc \<longleftrightarrow> active_start_hour sc < 24 \<and> active_end_hour sc \<le> 24"

definition hours_span :: "ScheduleConfig \<Rightarrow> nat" where
  "hours_span sc =
     (let s = unat (active_start_hour sc); e = unat (active_end_hour sc)
      in (if s \<le> e then e - s else e + 24 - s) * hour)"

lemma hour_pos: "0 < hour"
  by (simp add: hour_def minute_def)

lemma hour_of_clock:
  assumes "wf_clock now"
  shows "unat (of_nat (time_of_day now div hour) :: u8) = time_of_day now div hour"
    and "time_of_day now div hour < 24"
proof -
  show lt: "time_of_day now div hour < 24"
    using assms by (simp add: wf_clock_def day_def less_mult_imp_div_less)
  then show "unat (of_nat (time_of_day now div hour) :: u8) = time_of_day now div hour"
    by (simp add: unat_of_nat)
qed

lemma should_run_weekly:
  assumes sc: "valid_hours sc" and now: "wf_clock now" and on: "active_hours_enabled sc"
  shows "should_run_now_with_time sc now \<longleftrightarrow>
    in_weekly_interval (set (active_days sc)) (unat (active_start_hour sc) * hour) (hours_span sc) now"
proof -
  let ?s = "unat (active_start_hour sc)" and ?e = "unat (active_end_hour sc)"
  let ?t = "time_of_day now"
  have s: "?s < 24" and e: "?e \<le> 24"
    using sc by (simp_all add: valid_hours_def word_less_nat_alt word_le_nat_alt)
  have "?s * hour < day" using s hour_pos by (simp add: day_def)
  moreover have "hours_span sc \<le> day"
    using s e by (auto simp: hours_span_def day_def Let_def)
  ultimately have weekly: "in_weekly_interval (set (active_days sc)) (?s * hour) (hours_span sc) now \<longleftrightarrow>
      (weekday now \<in> set (active_days sc) \<and> ?s * hour \<le> ?t \<and> ?t < ?s * hour + hours_span sc) \<or>
      (weekday_pred (weekday now) \<in> set (active_days sc) \<and> ?t + day < ?s * hour + hours_span sc)"
    using weekly_interval_day [OF _ now] by blast
  have le: "k * hour \<le> ?t \<longleftrightarrow> k \<le> ?t div hour" for k
    using hour_pos by (simp add: less_eq_div_iff_mult_less_eq)
  have lt: "?t < k * hour \<longleftrightarrow> ?t div hour < k" for k
    using le [of k] by (simp add: not_le [symmetric])
  have h: "?t div hour < 24" by (rule hour_of_clock(2) [OF now])
  have run: "should_run_now_with_time sc now \<longleftrightarrow>
      (if ?s < ?e then weekday now \<in> set (active_days sc) \<and> ?s * hour \<le> ?t \<and> ?t < ?e * hour
       else ?e < ?s \<and>
         (if ?s * hour \<le> ?t then weekday now \<in> set (active_days sc)
          else ?t < ?e * hour \<and> weekday_pred (weekday now) \<in> set (active_days sc)))"
    using on hour_of_clock(1) [OF now]
    by (simp add: should_run_now_with_time_def Let_def word_less_nat_alt word_le_nat_alt le lt)
  consider "?s < ?e" | "?s = ?e" | "?e < ?s" by linarith
  then show ?thesis
  proof cases
    case 1
    then have "?s * hour + hours_span sc = ?e * hour"
      by (simp add: hours_span_def Let_def add_mult_distrib [symmetric])
    moreover have "\<not> ?t + day < ?e * hour"
      using e le_trans [OF mult_le_mono1 [OF e, of hour]] by (simp add: day_def not_less trans_le_add2)
    ultimately show ?thesis using 1 run weekly by simp
  next
    case 2
    then have "hours_span sc = 0" by (simp add: hours_span_def)
    then show ?thesis using 2 \<open>?s * hour < day\<close> unfolding run weekly by simp
  next
    case 3
    have span: "?s * hour + hours_span sc = ?e * hour + day"
      using 3 s by (simp add: hours_span_def Let_def day_def add_mult_distrib [symmetric])
    have "?t < ?e * hour + day" using now by (simp add: wf_clock_def)
    moreover have "\<not> (?s * hour \<le> ?t \<and> ?t < ?e * hour)"
      using 3 by (simp add: le lt)
    ultimately show ?thesis
      using 3 unfolding run weekly span by auto
  qed
qed

text \<open>The two-character fields are parsed as signed numbers: a plus sign passes the format check.\<close>

lemma parse_hhmm_accepts_sign: "parse_hhmm ''+9:+5'' = Inr (9 * hour + 5 * minute)"
  by (simp add: parse_hhmm_def split_colon_def parse_u32_def digit_value_def from_hm_def)

end
