(* ===== verification/Capture_Gate.thy ===== *)
theory Capture_Gate
  imports Consent Tracking_Schedule
begin

text \<open>
  The capture policy of \<open>crates/maekon-core/src/capture_gate.rs\<close>: the composite privacy gates for
  the screen and the microphone, the notifications of schedule transitions, the cadence of the
  monitor loop and the edges of the operating system's permission. \<open>AppConfig\<close> is reduced to the
  fields the file reads. The monotone clock of \<open>Instant::now\<close> is an argument, in nanoseconds.
\<close>

record AppConfig =
  vision_capture_enabled :: bool
  audio_enabled :: bool
  schedule :: ScheduleConfig
  tracking_schedule :: TrackingScheduleConfig
  notify_tracking_schedule :: bool

definition default_config :: AppConfig where
  "default_config =
     \<lparr>vision_capture_enabled = True, audio_enabled = False, schedule = default_schedule,
      tracking_schedule = default_tracking_schedule, notify_tracking_schedule = True\<rparr>"

subsection \<open>Gates\<close>

definition tracking_schedule_active :: "AppConfig \<Rightarrow> wall_clock \<Rightarrow> bool" where
  "tracking_schedule_active cfg now =
     (let ts = tracking_schedule cfg
      in if \<not> enabled ts then False else list_ex (\<lambda>w. window_is_active w now) (windows ts))"

definition tracking_schedule_allows_capture :: "AppConfig \<Rightarrow> wall_clock \<Rightarrow> bool" where
  "tracking_schedule_allows_capture cfg now \<longleftrightarrow>
     \<not> enabled (tracking_schedule cfg) \<or> windows (tracking_schedule cfg) = []
     \<or> tracking_schedule_active cfg now"

definition capture_permitted_now_inner ::
  "AppConfig \<Rightarrow> bool \<Rightarrow> bool \<Rightarrow> bool \<Rightarrow> wall_clock \<Rightarrow> bool" where
  "capture_permitted_now_inner cfg enable consent_granted capture_paused now \<longleftrightarrow>
     enable \<and> consent_granted \<and> should_run_now_with_time (schedule cfg) now
     \<and> tracking_schedule_allows_capture cfg now \<and> \<not> capture_paused"

definition capture_permitted_now ::
  "AppConfig \<Rightarrow> ConsentPermissions \<Rightarrow> bool \<Rightarrow> wall_clock \<Rightarrow> bool" where
  "capture_permitted_now cfg consent capture_paused now =
     capture_permitted_now_inner cfg (vision_capture_enabled cfg) (screen_capture consent)
       capture_paused now"

definition audio_capture_permitted_now ::
  "AppConfig \<Rightarrow> ConsentPermissions \<Rightarrow> bool \<Rightarrow> wall_clock \<Rightarrow> bool" where
  "audio_capture_permitted_now cfg consent capture_paused now =
     capture_permitted_now_inner cfg (audio_enabled cfg) (microphone consent) capture_paused now"

definition capture_permitted_now_with_power ::
  "AppConfig \<Rightarrow> ConsentPermissions \<Rightarrow> bool \<Rightarrow> bool \<Rightarrow> wall_clock \<Rightarrow> bool" where
  "capture_permitted_now_with_power cfg consent capture_paused battery_saver_active now \<longleftrightarrow>
     capture_permitted_now cfg consent capture_paused now
     \<and> \<not> (pause_on_battery_saver (schedule cfg) \<and> battery_saver_active)"

definition audio_capture_permitted_now_with_power ::
  "AppConfig \<Rightarrow> ConsentPermissions \<Rightarrow> bool \<Rightarrow> bool \<Rightarrow> wall_clock \<Rightarrow> bool" where
  "audio_capture_permitted_now_with_power cfg consent capture_paused battery_saver_active now \<longleftrightarrow>
     audio_capture_permitted_now cfg consent capture_paused now
     \<and> \<not> (pause_on_battery_saver (schedule cfg) \<and> battery_saver_active)"

subsection \<open>Notifications of schedule transitions\<close>

datatype ts_notice = ScheduleActive | ScheduleEnded | ScheduleDisabled

record ts_state =
  prev_ts_active :: bool
  last_ts_notified_at :: "nat option"

text \<open>\<open>duration_since(last).as_secs()\<close>: saturating at zero, truncated to seconds.\<close>

definition elapsed_secs :: "nat \<Rightarrow> nat \<Rightarrow> nat" where
  "elapsed_secs now earlier = (now - earlier) div 10 ^ 9"

text \<open>The result is the debounce state and what is sent to the notifier, if there is one.\<close>

definition evaluate_and_notify_transitions ::
  "AppConfig \<Rightarrow> bool \<Rightarrow> bool \<Rightarrow> bool \<Rightarrow> nat \<Rightarrow> nat option \<Rightarrow> nat option \<times> ts_notice option" where
  "evaluate_and_notify_transitions cfg has_notifier prev_active now_active clock last_notified_at =
     (if \<not> notify_tracking_schedule cfg then (last_notified_at, None)
      else if prev_active = now_active then (last_notified_at, None)
      else if (case last_notified_at of None \<Rightarrow> False | Some t \<Rightarrow> elapsed_secs clock t < 60)
      then (last_notified_at, None)
      else (Some clock,
            if \<not> has_notifier then None
            else if now_active then Some ScheduleActive
            else if enabled (tracking_schedule cfg) \<and> windows (tracking_schedule cfg) \<noteq> []
            then Some ScheduleEnded else Some ScheduleDisabled))"

definition tick_ts_notifications ::
  "AppConfig option \<Rightarrow> bool \<Rightarrow> wall_clock \<Rightarrow> nat \<Rightarrow> ts_state \<Rightarrow> ts_state \<times> ts_notice option" where
  "tick_ts_notifications config has_notifier now clock st =
     (let cfg = (case config of Some c \<Rightarrow> c | None \<Rightarrow> default_config);
          now_active = tracking_schedule_active cfg now;
          (last', notice) = evaluate_and_notify_transitions cfg has_notifier (prev_ts_active st)
                              now_active clock (last_ts_notified_at st)
      in (\<lparr>prev_ts_active = now_active, last_ts_notified_at = last'\<rparr>, notice))"

subsection \<open>Monitor cadence\<close>

definition MONITOR_IDLE_BACKOFF_SECS :: u64 where "MONITOR_IDLE_BACKOFF_SECS = 30"
definition MONITOR_IDLE_CADENCE_SECS :: u64 where "MONITOR_IDLE_CADENCE_SECS = 5"
definition MONITOR_BATTERY_CADENCE_SECS :: u64 where "MONITOR_BATTERY_CADENCE_SECS = 3"

definition should_release_idle_frame :: "u64 \<Rightarrow> bool" where
  "should_release_idle_frame idle_secs \<longleftrightarrow> MONITOR_IDLE_BACKOFF_SECS \<le> idle_secs"

record MonitorTickDecision =
  process_tick :: bool
  skip_expensive :: bool

definition decide_monitor_tick :: "u64 \<Rightarrow> u64 \<Rightarrow> bool \<Rightarrow> MonitorTickDecision" where
  "decide_monitor_tick tick_counter idle_secs battery_saver =
     (let idle = MONITOR_IDLE_BACKOFF_SECS \<le> idle_secs;
          cadence = (case (idle, battery_saver) of
                       (False, False) \<Rightarrow> 1
                     | (True, False) \<Rightarrow> MONITOR_IDLE_CADENCE_SECS
                     | (False, True) \<Rightarrow> MONITOR_BATTERY_CADENCE_SECS
                     | (True, True) \<Rightarrow> max MONITOR_IDLE_CADENCE_SECS MONITOR_BATTERY_CADENCE_SECS)
      in \<lparr>process_tick = (cadence \<le> 1 \<or> unat tick_counter mod unat cadence = 0),
          skip_expensive = battery_saver\<rparr>)"

subsection \<open>Operating-system permission\<close>

datatype OsPermissionEdge = Revoked | Restored

record OsPermissionWatch =
  last_ok :: "bool option"

definition observe :: "bool \<Rightarrow> OsPermissionWatch \<Rightarrow> OsPermissionEdge option \<times> OsPermissionWatch" where
  "observe ok w =
     ((case last_ok w of
         Some p \<Rightarrow> if p = ok then None else if ok then Some Restored else Some Revoked
       | None \<Rightarrow> if ok then None else Some Revoked),
      w\<lparr>last_ok := Some ok\<rparr>)"

definition is_blocked :: "OsPermissionWatch \<Rightarrow> bool" where
  "is_blocked w \<longleftrightarrow> last_ok w = Some False"

subsection \<open>The gate is its specification\<close>

text \<open>
  What the user configured, read off the week: the interval of the active hours, if they are on,
  and the union of the tracking windows, if there are any and they are on.
\<close>

definition schedule_permits :: "AppConfig \<Rightarrow> wall_clock \<Rightarrow> bool" where
  "schedule_permits cfg now \<longleftrightarrow>
     (active_hours_enabled (schedule cfg) \<longrightarrow>
        in_weekly_interval (set (active_days (schedule cfg)))
          (unat (active_start_hour (schedule cfg)) * hour) (hours_span (schedule cfg)) now) \<and>
     (enabled (tracking_schedule cfg) \<and> windows (tracking_schedule cfg) \<noteq> [] \<longrightarrow>
        (\<exists>w \<in> set (windows (tracking_schedule cfg)).
           in_weekly_interval (set (days_of_week w)) (window_start w) (window_span w) now))"

definition valid_config :: "AppConfig \<Rightarrow> bool" where
  "valid_config cfg \<longleftrightarrow>
     valid_hours (schedule cfg) \<and> list_all valid_window (windows (tracking_schedule cfg))"

lemma gate_iff:
  assumes cfg: "valid_config cfg" and now: "wf_clock now"
  shows "capture_permitted_now_inner cfg en granted paused now \<longleftrightarrow>
    en \<and> granted \<and> \<not> paused \<and> schedule_permits cfg now"
proof -
  have hours: "should_run_now_with_time (schedule cfg) now \<longleftrightarrow>
      (active_hours_enabled (schedule cfg) \<longrightarrow>
        in_weekly_interval (set (active_days (schedule cfg)))
          (unat (active_start_hour (schedule cfg)) * hour) (hours_span (schedule cfg)) now)"
    using cfg should_run_weekly [OF _ now, of "schedule cfg"]
    by (cases "active_hours_enabled (schedule cfg)")
      (simp_all add: valid_config_def should_run_now_with_time_def)
  have "tracking_schedule_active cfg now \<longleftrightarrow>
      enabled (tracking_schedule cfg) \<and>
        (\<exists>w \<in> set (windows (tracking_schedule cfg)).
           in_weekly_interval (set (days_of_week w)) (window_start w) (window_span w) now)"
    using cfg window_is_active_weekly [OF _ now]
    by (auto simp: tracking_schedule_active_def Let_def valid_config_def list_ex_iff list_all_iff)
  then show ?thesis
    using hours
    by (auto simp: capture_permitted_now_inner_def tracking_schedule_allows_capture_def
        schedule_permits_def)
qed


definition night_config :: AppConfig where
  "night_config = default_config\<lparr>
     schedule := default_schedule\<lparr>active_hours_enabled := True, active_end_hour := 24\<rparr>,
     tracking_schedule :=
       \<lparr>enabled = True,
        windows = [\<lparr>start_text = ''22:30'', end_text = ''06:15'', days_of_week = [Mon], label = []\<rparr>],
        timezone = ''Local''\<rparr>\<rparr>"


subsection \<open>Notifications are debounced and truthful\<close>

type_synonym ts_tick = "AppConfig option \<times> bool \<times> wall_clock \<times> nat"

text \<open>The notices of a sequence of monitor ticks, each with its clock and the state it was sent in.\<close>

fun ts_run :: "ts_state \<Rightarrow> ts_tick list \<Rightarrow> (nat \<times> bool \<times> ts_notice) list" where
  "ts_run st [] = []"
| "ts_run st ((config, has_notifier, now, clock) # ticks) =
     (let (st', notice) = tick_ts_notifications config has_notifier now clock st
      in (case notice of None \<Rightarrow> [] | Some n \<Rightarrow> [(clock, prev_ts_active st', n)]) @ ts_run st' ticks)"

definition ripe :: "nat option \<Rightarrow> nat \<Rightarrow> bool" where
  "ripe last_at clock \<longleftrightarrow> (case last_at of None \<Rightarrow> True | Some l \<Rightarrow> l + 60 * 10 ^ 9 \<le> clock)"

lemma not_debounced:
  "(case last_at of None \<Rightarrow> False | Some l \<Rightarrow> elapsed_secs clock l < 60) \<longleftrightarrow> \<not> ripe last_at clock"
proof (cases last_at)
  case (Some l)
  have "elapsed_secs clock l < 60 \<longleftrightarrow> clock - l < 60 * 10 ^ 9"
    by (simp add: elapsed_secs_def div_less_iff_less_mult)
  then show ?thesis by (auto simp: Some ripe_def)
qed (simp add: ripe_def)

text \<open>One tick: what it may send, and how the debounce state moves.\<close>

lemma tick_facts:
  assumes "tick_ts_notifications config nf now clock st = (st', notice)"
  shows "notice = Some n \<Longrightarrow> ripe (last_ts_notified_at st) clock \<and> last_ts_notified_at st' = Some clock
           \<and> (n = ScheduleActive \<longleftrightarrow> prev_ts_active st') \<and> prev_ts_active st' \<noteq> prev_ts_active st"
    and "last_ts_notified_at st' = last_ts_notified_at st \<or>
         ripe (last_ts_notified_at st) clock \<and> last_ts_notified_at st' = Some clock"
  using assms
  by (auto simp: tick_ts_notifications_def evaluate_and_notify_transitions_def not_debounced Let_def
      split: if_splits option.splits)

lemma ripe_trans: "ripe last_at c \<Longrightarrow> ripe (Some c) c' \<Longrightarrow> ripe last_at c'"
  by (auto simp: ripe_def split: option.splits)

lemma ts_run_ripe: "e \<in> set (ts_run st ticks) \<Longrightarrow> ripe (last_ts_notified_at st) (fst e)"
proof (induction ticks arbitrary: st)
  case (Cons tick ticks)
  obtain config nf now clock where tick: "tick = (config, nf, now, clock)" by (cases tick) auto
  obtain st' notice where step: "tick_ts_notifications config nf now clock st = (st', notice)"
    by fastforce
  note facts = tick_facts [OF step]
  from Cons.prems consider n where "notice = Some n" "fst e = clock" | "e \<in> set (ts_run st' ticks)"
    by (auto simp: tick step split: option.splits)
  then show ?case
  proof cases
    case 1
    then show ?thesis using facts(1) by simp
  next
    case 2
    from Cons.IH [OF this] facts(2) show ?thesis by (auto intro: ripe_trans)
  qed
qed simp

text \<open> Over any sequence of monitor ticks, with whatever configurations, wall clocks and monotone
  clock readings, two notices of a tracking-schedule transition are at least 60 seconds apart, and
  a notice says that the schedule is active exactly when it was active at that tick.\<close>

theorem schedule_notices_debounced:
  "sorted_wrt (\<lambda>a b. fst a + 60 * 10 ^ 9 \<le> fst b) (ts_run st ticks) \<and>
   list_all (\<lambda>(_, active, n). n = ScheduleActive \<longleftrightarrow> active) (ts_run st ticks)"
proof (induction ticks arbitrary: st)
  case (Cons tick ticks)
  obtain config nf now clock where tick: "tick = (config, nf, now, clock)" by (cases tick) auto
  obtain st' notice where step: "tick_ts_notifications config nf now clock st = (st', notice)"
    by fastforce
  show ?case
  proof (cases notice)
    case None
    then show ?thesis using Cons.IH [of st'] by (simp add: tick step)
  next
    case (Some n)
    have "clock + 60 * 10 ^ 9 \<le> fst e" if "e \<in> set (ts_run st' ticks)" for e
      using ts_run_ripe [OF that] tick_facts(1) [OF step Some] by (simp add: ripe_def)
    then show ?thesis
      using Cons.IH [of st'] tick_facts(1) [OF step Some] by (simp add: tick step Some)
  qed
qed simp

subsection \<open>Cadence\<close>

lemma multiple_within:
  fixes t c :: nat
  assumes "0 < c"
  shows "\<exists>k < c. (t + k) mod c = 0"
proof -
  define m where "m = (t + c - 1) div c * c"
  have "m \<le> t + c - 1" "t + c - 1 < c + m" "m mod c = 0"
    unfolding m_def
    using div_times_less_eq_dividend [of "t + c - 1" c] dividend_less_div_times [OF assms, of "t + c - 1"]
      mod_mult_self2_is_0 [of "(t + c - 1) div c" c] by - assumption+
  then have "m - t < c" "t + (m - t) = m" using assms by linarith+
  with \<open>m mod c = 0\<close> show ?thesis by metis
qed

text \<open>Counting up from any value of the counter, also through its wrap-around, a multiple comes soon.\<close>

lemma counter_plus: "unat (t + of_nat k :: u64) = (unat t + k) mod 2 ^ 64"
proof -
  have "t + of_nat k = (of_nat (unat t + k) :: u64)" by simp
  then show ?thesis by (simp only: unat_of_nat) simp
qed

lemma word_multiple_within:
  fixes t :: u64
  assumes "0 < c"
  shows "\<exists>k < c. unat (t + of_nat k) mod c = 0"
proof (cases "unat t + c \<le> 2 ^ 64")
  case True
  obtain k where k: "k < c" "(unat t + k) mod c = 0" using multiple_within [OF assms, of "unat t"] by metis
  moreover have "unat (t + of_nat k) = unat t + k"
    using True k(1) by (simp only: counter_plus mod_less)
  ultimately show ?thesis by auto
next
  case False
  let ?k = "2 ^ 64 - unat t"
  have "unat t < 2 ^ LENGTH(64)" by (rule unsigned_less)
  then have le: "unat t \<le> 2 ^ 64" by simp
  have "unat (t + of_nat ?k) = 0" using le by (simp only: counter_plus) simp
  moreover have "?k < c" using False le by linarith
  ultimately show ?thesis by force
qed

lemma process_if_multiple_of_15:
  "unat n mod 15 = 0 \<Longrightarrow> process_tick (decide_monitor_tick n idle saver)"
  by (auto simp: decide_monitor_tick_def Let_def MONITOR_IDLE_CADENCE_SECS_def
      MONITOR_BATTERY_CADENCE_SECS_def max_def mod_mod_cancel split: bool.splits)

text \<open> The monitor loop is never starved: of any 15 consecutive values of the tick counter, also
  across its wrap-around and however idleness and battery saver change meanwhile, one is
  processed; in an unchanging mode one of 5 is. Without battery saver a tick is skipped only when
  the session has been idle long enough for the carried frame to be released, so input restores
  the full cadence at once.\<close>

theorem monitor_cadence_bounded:
  "(\<exists>k < 15. process_tick (decide_monitor_tick (t + of_nat k) (idle k) (saver k))) \<and>
   (\<exists>k < 5. process_tick (decide_monitor_tick (t + of_nat k) i s)) \<and>
   (process_tick (decide_monitor_tick t i False) \<or> should_release_idle_frame i) \<and>
   skip_expensive (decide_monitor_tick t i s) = s"
proof (intro conjI)
  obtain k where "k < 15" "unat (t + of_nat k) mod 15 = 0"
    using word_multiple_within [of 15 t] by auto
  then show "\<exists>k < 15. process_tick (decide_monitor_tick (t + of_nat k) (idle k) (saver k))"
    by (auto intro!: exI [of _ k] process_if_multiple_of_15)
  obtain k5 k3 where "k5 < 5" "unat (t + of_nat k5) mod 5 = 0" "k3 < 3" "unat (t + of_nat k3) mod 3 = 0"
    using word_multiple_within [of 5 t] word_multiple_within [of 3 t] by auto
  then show "\<exists>k < 5. process_tick (decide_monitor_tick (t + of_nat k) i s)"
    by (cases "MONITOR_IDLE_BACKOFF_SECS \<le> i"; cases s)
      (auto simp: decide_monitor_tick_def MONITOR_IDLE_CADENCE_SECS_def
        MONITOR_BATTERY_CADENCE_SECS_def max_def intro: exI [of _ k5] exI [of _ k3] exI [of _ 0])
  show "process_tick (decide_monitor_tick t i False) \<or> should_release_idle_frame i"
    by (cases "MONITOR_IDLE_BACKOFF_SECS \<le> i")
      (simp_all add: decide_monitor_tick_def should_release_idle_frame_def)
  show "skip_expensive (decide_monitor_tick t i s) = s"
    by (simp add: decide_monitor_tick_def Let_def)
qed

subsection \<open>Permission edges\<close>

text \<open>
  The edges reported for a sequence of probes alternate, starting with a revocation, and the watch
  is blocked exactly when the last one reported is a revocation: one notice per revocation.
\<close>

fun watch_run :: "OsPermissionWatch \<Rightarrow> bool list \<Rightarrow> OsPermissionEdge list" where
  "watch_run w [] = []"
| "watch_run w (ok # oks) =
     (case observe ok w of (e, w') \<Rightarrow> (case e of None \<Rightarrow> [] | Some x \<Rightarrow> [x]) @ watch_run w' oks)"

fun alternating :: "OsPermissionEdge \<Rightarrow> OsPermissionEdge list \<Rightarrow> bool" where
  "alternating e [] = True"
| "alternating e (x # xs) = (x = e \<and> alternating (if e = Revoked then Restored else Revoked) xs)"

lemma watch_edges_alternate:
  "alternating (if is_blocked w then Restored else Revoked) (watch_run w oks)"
proof (induction oks arbitrary: w)
  case (Cons ok oks)
  have "is_blocked (w\<lparr>last_ok := Some ok\<rparr>) = (\<not> ok)" by (simp add: is_blocked_def)
  with Cons.IH [of "w\<lparr>last_ok := Some ok\<rparr>"] show ?case
    by (cases "last_ok w"; cases ok) (auto simp: observe_def is_blocked_def)
qed simp

end
