(* ===== verification/Upload_Events.thy ===== *)
theory Upload_Events
  imports Capture_Exclusion Capture_Gate "HOL-Library.List_Lexorder"
begin

text \<open>
  The events that the monitors record (\<open>crates/maekon-core/src/models/event.rs\<close>), their table
  (\<open>crates/maekon-storage/src/sqlite/events.rs\<close>) and the policy that decides what of them may leave the
  device (\<open>src-tauri/src/scheduler/egress_policy.rs\<close>). A UUID and a path are their text, a float is a
  real number. The JSON of an event, chrono's RFC 3339 text and the decimal milliseconds of an
  instant are parameters. SQLite compares the text of the timestamps.
\<close>

section \<open>Events\<close>

datatype ClipboardContentType = ClipText | ClipImage | ClipOther
datatype FileEventType = FileCreated | FileModified | FileDeleted | FileRenamed
datatype UserEventType = WindowChange | AppSwitch | SignificantAction | FormSubmission
datatype SystemEventType = MetricsUpdate | AlertEvent | NetworkChange
datatype WindowLayoutEventType = WinFocus | WinResize | WinMove | WinMaximize | WinMinimize | WinRestore

record ClipboardEvent =
  clip_timestamp :: instant
  clip_content_type :: ClipboardContentType
  char_count :: nat
  preview :: "string option"

record FileAccessEvent =
  fa_timestamp :: instant
  relative_path :: string
  fa_event_type :: FileEventType
  extension :: "string option"

record UserEvent =
  user_event_id :: string
  user_event_type :: UserEventType
  user_timestamp :: instant
  user_app_name :: string
  user_window_title :: string

record SystemEvent =
  system_event_id :: string
  system_event_type :: SystemEventType
  system_timestamp :: instant
  system_data :: json

record ContextEvent =
  ctx_app_name :: string
  ctx_window_title :: string
  prev_app_name :: "string option"
  ctx_timestamp :: instant
  input_activity_level :: real

record KeystrokeProfile =
  enter_ratio :: real
  tab_ratio :: real
  arrow_ratio :: real
  backspace_ratio :: real
  special_ratio :: real
  profile_keystrokes :: u32

record MouseActivity =
  click_count :: u32
  move_distance :: real
  scroll_count :: u32
  last_position :: "(real \<times> real) option"
  double_click_count :: u32
  right_click_count :: u32

record KeyboardActivity =
  keystrokes_per_min :: u32
  total_keystrokes :: u32
  typing_bursts :: u32
  shortcut_count :: u32
  correction_count :: u32

record InputActivityEvent =
  input_timestamp :: instant
  period_secs :: u32
  mouse :: MouseActivity
  keyboard :: KeyboardActivity
  input_app_name :: string
  keystroke_profile :: "KeystrokeProfile option"

record ProcessDetail =
  process_label :: string
  pid :: u32
  cpu_percent :: real
  memory_mb :: real
  window_count :: u32
  is_foreground :: bool
  running_secs :: u64
  executable_path :: "string option"

record ProcessSnapshotEvent =
  proc_timestamp :: instant
  processes :: "ProcessDetail list"
  total_process_count :: u32

record WindowInfo =
  win_app_name :: string
  win_title :: string
  position :: "int \<times> int"
  win_size :: "nat \<times> nat"
  screen_ratio :: real
  is_fullscreen :: bool
  z_order :: u32

record WindowLayoutEvent =
  layout_timestamp :: instant
  layout_event_type :: WindowLayoutEventType
  layout_window :: WindowInfo
  screen_resolution :: "nat \<times> nat"
  monitor_index :: u32

datatype Event =
    User UserEvent
  | System SystemEvent
  | Context ContextEvent
  | Input InputActivityEvent
  | Process ProcessSnapshotEvent
  | Window WindowLayoutEvent
  | Clipboard ClipboardEvent
  | FileAccess FileAccessEvent

record event_env =
  ev_millis :: "instant \<Rightarrow> string"
  ev_rfc3339 :: "instant \<Rightarrow> string"
  ev_to_json :: "Event \<Rightarrow> string"
  ev_from_json :: "string \<Rightarrow> Event option"

text \<open>The names that \<open>{:?}\<close> prints.\<close>

fun debug_user :: "UserEventType \<Rightarrow> string" where
  "debug_user WindowChange = ''WindowChange''"
| "debug_user AppSwitch = ''AppSwitch''"
| "debug_user SignificantAction = ''SignificantAction''"
| "debug_user FormSubmission = ''FormSubmission''"

fun debug_system :: "SystemEventType \<Rightarrow> string" where
  "debug_system MetricsUpdate = ''MetricsUpdate''"
| "debug_system AlertEvent = ''Alert''"
| "debug_system NetworkChange = ''NetworkChange''"

fun debug_window :: "WindowLayoutEventType \<Rightarrow> string" where
  "debug_window WinFocus = ''Focus''"
| "debug_window WinResize = ''Resize''"
| "debug_window WinMove = ''Move''"
| "debug_window WinMaximize = ''Maximize''"
| "debug_window WinMinimize = ''Minimize''"
| "debug_window WinRestore = ''Restore''"

fun debug_file :: "FileEventType \<Rightarrow> string" where
  "debug_file FileCreated = ''Created''"
| "debug_file FileModified = ''Modified''"
| "debug_file FileDeleted = ''Deleted''"
| "debug_file FileRenamed = ''Renamed''"

fun storage_event_id :: "event_env \<Rightarrow> Event \<Rightarrow> string" where
  "storage_event_id env (User e) = user_event_id e"
| "storage_event_id env (System e) = system_event_id e"
| "storage_event_id env (Context e) =
     ''ctx_'' @ ev_millis env (ctx_timestamp e) @ ''_'' @ ctx_app_name e @ ''_'' @ take 20 (ctx_window_title e)"
| "storage_event_id env (Input e) =
     ''input_'' @ ev_millis env (input_timestamp e) @ ''_'' @ input_app_name e"
| "storage_event_id env (Process e) = ''proc_'' @ ev_millis env (proc_timestamp e)"
| "storage_event_id env (Window e) =
     ''win_'' @ ev_millis env (layout_timestamp e) @ ''_'' @ debug_window (layout_event_type e)"
| "storage_event_id env (Clipboard e) = ''clip_'' @ ev_millis env (clip_timestamp e)"
| "storage_event_id env (FileAccess e) =
     ''fa_'' @ ev_millis env (fa_timestamp e) @ ''_'' @ relative_path e"

fun extract_event_type :: "Event \<Rightarrow> string" where
  "extract_event_type (User e) = debug_user (user_event_type e)"
| "extract_event_type (System e) = debug_system (system_event_type e)"
| "extract_event_type (Context _) = ''context_change''"
| "extract_event_type (Input _) = ''input_activity''"
| "extract_event_type (Process _) = ''process_snapshot''"
| "extract_event_type (Window e) = ''window_'' @ debug_window (layout_event_type e)"
| "extract_event_type (Clipboard _) = ''clipboard_change''"
| "extract_event_type (FileAccess e) = ''file_'' @ debug_file (fa_event_type e)"

fun extract_timestamp :: "Event \<Rightarrow> instant" where
  "extract_timestamp (User e) = user_timestamp e"
| "extract_timestamp (System e) = system_timestamp e"
| "extract_timestamp (Context e) = ctx_timestamp e"
| "extract_timestamp (Input e) = input_timestamp e"
| "extract_timestamp (Process e) = proc_timestamp e"
| "extract_timestamp (Window e) = layout_timestamp e"
| "extract_timestamp (Clipboard e) = clip_timestamp e"
| "extract_timestamp (FileAccess e) = fa_timestamp e"

section \<open>The table\<close>

text \<open>
  The rows in the order of their rowids. \<open>io\<close> is what SQLite answers to the statement: \<open>Inl\<close> an error,
  with the table as it was.
\<close>

record event_row =
  er_event_id :: string
  er_event_type :: string
  er_timestamp :: string
  er_data :: string
  is_sent :: bool

type_synonym event_table = "event_row list"
type_synonym event_store = "event_table GuardedConnection"

definition insert_event :: "event_env \<Rightarrow> Event \<Rightarrow> event_table \<Rightarrow> event_table" where
  "insert_event env e rows =
     (if storage_event_id env e \<in> er_event_id ` set rows then rows
      else rows @ [\<lparr>er_event_id = storage_event_id env e, er_event_type = extract_event_type e,
                    er_timestamp = ev_rfc3339 env (extract_timestamp e), er_data = ev_to_json env e,
                    is_sent = False\<rparr>])"

definition run_statement :: "bool \<Rightarrow> (event_table \<Rightarrow> event_table) \<Rightarrow> event_table \<Rightarrow> (string + unit) \<times> event_table" where
  "run_statement fails f rows = (if fails then (Inl ''storage.failed'', rows) else (Inr (), f rows))"

definition save_event ::
  "event_env \<Rightarrow> cells \<Rightarrow> bool \<Rightarrow> Event \<Rightarrow> event_store \<Rightarrow> (string + unit) \<times> event_store" where
  "save_event env h fails e g = with_conn_mut h () (run_statement fails (insert_event env e)) g"

text \<open>The transaction of a batch: an error on the way leaves the table as it was.\<close>

definition save_events_batch ::
  "event_env \<Rightarrow> cells \<Rightarrow> bool \<Rightarrow> Event list \<Rightarrow> event_store \<Rightarrow> (string + nat) \<times> event_store" where
  "save_events_batch env h fails es g =
     (if es = [] then (Inr 0, g)
      else with_conn_mut h 0
             (\<lambda>rows. if fails then (Inl ''storage.failed'', rows)
                     else (Inr (length es), fold (insert_event env) es rows)) g)"

definition decode_rows :: "event_env \<Rightarrow> event_row list \<Rightarrow> Event list" where
  "decode_rows env rows = List.map_filter (\<lambda>r. ev_from_json env (er_data r)) rows"

definition pending_rows :: "nat \<Rightarrow> event_table \<Rightarrow> event_row list" where
  "pending_rows limit rows = take limit (sort_key er_timestamp (filter (\<lambda>r. \<not> is_sent r) rows))"

definition get_pending_events ::
  "event_env \<Rightarrow> cells \<Rightarrow> bool \<Rightarrow> nat \<Rightarrow> event_store \<Rightarrow> string + Event list" where
  "get_pending_events env h fails limit g =
     fst (with_conn_mut h []
            (\<lambda>rows. (if fails then Inl ''storage.failed'' else Inr (decode_rows env (pending_rows limit rows)), rows)) g)"

definition get_events ::
  "event_env \<Rightarrow> cells \<Rightarrow> bool \<Rightarrow> instant \<Rightarrow> instant \<Rightarrow> nat \<Rightarrow> event_store \<Rightarrow> string + Event list" where
  "get_events env h fails from to limit g =
     fst (with_conn_mut h []
            (\<lambda>rows. (if fails then Inl ''storage.failed''
                     else Inr (decode_rows env
                       (take limit (rev (sort_key er_timestamp
                         (filter (\<lambda>r. ev_rfc3339 env from \<le> er_timestamp r \<and> er_timestamp r \<le> ev_rfc3339 env to)
                                 rows))))), rows)) g)"

definition set_sent :: "string list \<Rightarrow> event_table \<Rightarrow> event_table" where
  "set_sent ids rows = map (\<lambda>r. if er_event_id r \<in> set ids then r\<lparr>is_sent := True\<rparr> else r) rows"

definition mark_as_sent ::
  "cells \<Rightarrow> bool \<Rightarrow> string list \<Rightarrow> event_store \<Rightarrow> (string + unit) \<times> event_store" where
  "mark_as_sent h fails ids g =
     (if ids = [] then (Inr (), g) else with_conn_mut h () (run_statement fails (set_sent ids)) g)"

definition MAX_UNSENT_EVENTS_RETAINED :: nat where
  "MAX_UNSENT_EVENTS_RETAINED = 10000"

text \<open>The two deletions of the retention, each a statement of its own.\<close>

definition drop_old_sent :: "string \<Rightarrow> event_table \<Rightarrow> event_table" where
  "drop_old_sent cutoff rows = filter (\<lambda>r. \<not> (er_timestamp r < cutoff \<and> is_sent r)) rows"

definition drop_unsent_overflow :: "nat \<Rightarrow> event_table \<Rightarrow> event_table" where
  "drop_unsent_overflow cap rows =
     (let overflow = drop cap (rev (sort_key er_timestamp (filter (\<lambda>r. \<not> is_sent r) rows)))
      in filter (\<lambda>r. r \<notin> set overflow) rows)"

definition enforce_retention ::
  "event_env \<Rightarrow> cells \<Rightarrow> bool \<Rightarrow> bool \<Rightarrow> instant \<Rightarrow> event_store \<Rightarrow> (string + nat) \<times> event_store" where
  "enforce_retention env h fails1 fails2 cutoff g =
     with_conn_mut h 0
       (\<lambda>rows. let rows1 = drop_old_sent (ev_rfc3339 env cutoff) rows;
                   rows2 = drop_unsent_overflow MAX_UNSENT_EVENTS_RETAINED rows1
               in if fails1 then (Inl ''storage.failed'', rows)
                  else if fails2 then (Inl ''storage.failed'', rows1)
                  else (Inr (length rows - length rows2), rows2)) g"

section \<open>What may leave the device\<close>

datatype ExternalDataPolicy = PiiFilterStrict | PiiFilterStandard | AllowFiltered

definition effective_egress_pii_level :: "ExternalDataPolicy \<Rightarrow> PiiFilterLevel \<Rightarrow> PiiFilterLevel" where
  "effective_egress_pii_level policy configured =
     (case policy of
        PiiFilterStrict \<Rightarrow> PiiStrict
      | PiiFilterStandard \<Rightarrow> PiiStandard
      | AllowFiltered \<Rightarrow> max configured PiiBasic)"

text \<open>
  The policy is built once. What it reads anew at every call is the \<open>view\<close>: the snapshot of the
  configuration, when a manager is bound, and the consent gate, with the clocks.
\<close>

record PlatformEgressPolicy =
  policy_enabled :: bool
  external_data_policy :: ExternalDataPolicy
  privacy_config :: PrivacyConfig

record egress_view =
  view_config :: "(bool \<times> AppConfig) option"
  view_consent :: ConsentGate
  view_now :: instant
  view_clock :: wall_clock

definition telemetry_consented :: "egress_view \<Rightarrow> bool" where
  "telemetry_consented v = may_upload_telemetry (view_consent v) (view_now v)"

definition tracking_schedule_allowed :: "egress_view \<Rightarrow> bool" where
  "tracking_schedule_allowed v =
     (case view_config v of
        Some (_, cfg) \<Rightarrow> tracking_schedule_allows_capture cfg (view_clock v)
      | None \<Rightarrow> True)"

definition upload_enabled_live :: "PlatformEgressPolicy \<Rightarrow> egress_view \<Rightarrow> bool" where
  "upload_enabled_live p v =
     (case view_config v of Some (upload, _) \<Rightarrow> upload | None \<Rightarrow> policy_enabled p)"

definition egress_enabled :: "PlatformEgressPolicy \<Rightarrow> egress_view \<Rightarrow> bool" where
  "egress_enabled p v \<longleftrightarrow> upload_enabled_live p v \<and> telemetry_consented v \<and> tracking_schedule_allowed v"

definition REDACTED_WINDOW_TITLE :: string where
  "REDACTED_WINDOW_TITLE = ''[REDACTED_WINDOW_TITLE]''"

definition egress_sanitize_title :: "PlatformEgressPolicy \<Rightarrow> string \<Rightarrow> string" where
  "egress_sanitize_title p title =
     (case external_data_policy p of
        AllowFiltered \<Rightarrow>
          sanitize_title_with_level title
            (effective_egress_pii_level AllowFiltered (privacy_pii_level (privacy_config p)))
      | _ \<Rightarrow> REDACTED_WINDOW_TITLE)"

definition should_skip :: "PlatformEgressPolicy \<Rightarrow> string \<Rightarrow> string \<Rightarrow> bool" where
  "should_skip p app_name window_title = should_exclude_by_policy (privacy_config p) app_name window_title"

text \<open>The \<open>match\<close> of \<open>prepare_event_for_upload\<close>, for a policy that is enabled.\<close>

fun filter_event :: "PlatformEgressPolicy \<Rightarrow> Event \<Rightarrow> Event option" where
  "filter_event p (Context e) =
     (if should_skip p (ctx_app_name e) (ctx_window_title e) then None
      else Some (Context (e\<lparr>ctx_window_title := egress_sanitize_title p (ctx_window_title e)\<rparr>)))"
| "filter_event p (Window e) =
     (let w = layout_window e
      in if should_skip p (win_app_name w) (win_title w) then None
         else Some (Window (e\<lparr>layout_window := w\<lparr>win_title := egress_sanitize_title p (win_title w)\<rparr>\<rparr>)))"
| "filter_event p (User e) =
     (if should_skip p (user_app_name e) (user_window_title e) then None
      else Some (User (e\<lparr>user_window_title := egress_sanitize_title p (user_window_title e)\<rparr>)))"
| "filter_event p (System e) = Some (System e)"
| "filter_event p (Input e) = Some (Input e)"
| "filter_event p (Process e) = Some (Process e)"
| "filter_event p (Clipboard _) = None"
| "filter_event p (FileAccess _) = None"

definition prepare_event_for_upload :: "PlatformEgressPolicy \<Rightarrow> egress_view \<Rightarrow> Event \<Rightarrow> Event option" where
  "prepare_event_for_upload p v e = (if \<not> egress_enabled p v then None else filter_event p e)"

definition show_bool :: "bool \<Rightarrow> string" where
  "show_bool b = (if b then ''true'' else ''false'')"

definition consent_state_snapshot :: "PlatformEgressPolicy \<Rightarrow> egress_view \<Rightarrow> string" where
  "consent_state_snapshot p v =
     ''upload_enabled='' @ show_bool (upload_enabled_live p v) @ '';telemetry='' @ show_bool (telemetry_consented v) @
     '';tracking_schedule_muted='' @ show_bool (\<not> tracking_schedule_allowed v)"

fun egress_event_type :: "Event \<Rightarrow> string" where
  "egress_event_type (Context _) = ''Context''"
| "egress_event_type (Window _) = ''Window''"
| "egress_event_type (User _) = ''User''"
| "egress_event_type (Input _) = ''Input''"
| "egress_event_type (Process _) = ''Process''"
| "egress_event_type (System _) = ''System''"
| "egress_event_type (Clipboard _) = ''Clipboard''"
| "egress_event_type (FileAccess _) = ''FileAccess''"

definition egress_byte_count :: "event_env \<Rightarrow> Event \<Rightarrow> nat" where
  "egress_byte_count env e = length (ev_to_json env e)"

end
