(* ===== verification/Http_Breaker.thy ===== *)
theory Http_Breaker
  imports Prelude
begin

text \<open>
  The three-state breaker of \<open>crates/maekon-http-core/src/circuit_breaker.rs\<close>, which the HTTP
  adapters and the batch uploader consult before they send, and the registry that shares one
  breaker among all adapters of an endpoint. Every method holds the breaker's mutex from its first
  line to its last, so a method is one function on the state; \<open>Instant::now()\<close> is the argument
  \<open>now\<close>. Instants and durations are natural numbers of one unit, without the overflow panics of
  \<open>Instant + Duration\<close>.
\<close>

record CircuitBreakerConfig =
  failure_threshold :: u32
  initial_cooldown :: nat
  max_cooldown :: nat
  half_open_probes :: u32

text \<open>\<open>CircuitBreakerConfig::default\<close>, in milliseconds.\<close>

definition breaker_config_default :: CircuitBreakerConfig where
  "breaker_config_default =
     \<lparr>failure_threshold = 3, initial_cooldown = 30000, max_cooldown = 300000, half_open_probes = 1\<rparr>"

datatype CircuitState = Closed | Open (until: instant) | HalfOpen

record HttpBreaker =
  breaker_config :: CircuitBreakerConfig
  status :: CircuitState
  breaker_failures :: u32
  current_cooldown :: nat
  half_open_in_flight :: u32
  half_open_window_start :: "instant option"

definition http_breaker_new :: "CircuitBreakerConfig \<Rightarrow> HttpBreaker" where
  "http_breaker_new cfg =
     \<lparr>breaker_config = cfg, status = Closed, breaker_failures = 0,
      current_cooldown = initial_cooldown cfg, half_open_in_flight = 0,
      half_open_window_start = None\<rparr>"

text \<open>The probe budget as a fresh window has it.\<close>

definition clear_window :: "HttpBreaker \<Rightarrow> HttpBreaker" where
  "clear_window b = b\<lparr>half_open_in_flight := 0, half_open_window_start := None\<rparr>"

text \<open>The three parts of \<open>check\<close>: the cooldown that has elapsed, the self-heal, the admission.\<close>

definition check_elapsed :: "instant \<Rightarrow> HttpBreaker \<Rightarrow> HttpBreaker" where
  "check_elapsed now b =
     (case status b of
        Open u \<Rightarrow> if u \<le> now then clear_window (b\<lparr>status := HalfOpen\<rparr>) else b
      | _ \<Rightarrow> b)"

definition self_heal :: "instant \<Rightarrow> HttpBreaker \<Rightarrow> HttpBreaker" where
  "self_heal now b =
     (case half_open_window_start b of
        Some started \<Rightarrow> if current_cooldown b \<le> now - started then clear_window b else b
      | None \<Rightarrow> b)"

definition admit_probe :: "instant \<Rightarrow> HttpBreaker \<Rightarrow> HttpBreaker \<times> CircuitState" where
  "admit_probe now b =
     (if half_open_in_flight b < half_open_probes (breaker_config b)
      then (b\<lparr>half_open_window_start :=
                 (if half_open_in_flight b = 0 then Some now else half_open_window_start b),
              half_open_in_flight := half_open_in_flight b + 1\<rparr>, HalfOpen)
      else (b, Open (now + current_cooldown b)))"

definition breaker_check :: "instant \<Rightarrow> HttpBreaker \<Rightarrow> HttpBreaker \<times> CircuitState" where
  "breaker_check now b =
     (let b = check_elapsed now b
      in if status b = HalfOpen then admit_probe now (self_heal now b) else (b, status b))"

definition breaker_success :: "HttpBreaker \<Rightarrow> HttpBreaker" where
  "breaker_success b =
     clear_window (b\<lparr>breaker_failures := 0, current_cooldown := initial_cooldown (breaker_config b),
                     status := Closed\<rparr>)"

definition breaker_failure :: "instant \<Rightarrow> HttpBreaker \<Rightarrow> HttpBreaker" where
  "breaker_failure now b =
     (let b = b\<lparr>breaker_failures := breaker_failures b + 1\<rparr>
      in case status b of
           Closed \<Rightarrow>
             if failure_threshold (breaker_config b) \<le> breaker_failures b
             then b\<lparr>status := Open (now + current_cooldown b)\<rparr> else b
         | HalfOpen \<Rightarrow>
             let c = min (current_cooldown b * 2) (max_cooldown (breaker_config b))
             in clear_window (b\<lparr>current_cooldown := c, status := Open (now + c)\<rparr>)
         | Open _ \<Rightarrow> b)"

record CircuitBreakerStats =
  stats_state :: string
  stats_failures :: u32
  stats_cooldown :: nat

definition breaker_stats :: "HttpBreaker \<Rightarrow> CircuitBreakerStats" where
  "breaker_stats b =
     \<lparr>stats_state = (case status b of Closed \<Rightarrow> ''closed'' | Open _ \<Rightarrow> ''open'' | HalfOpen \<Rightarrow> ''half_open''),
      stats_failures = breaker_failures b, stats_cooldown = current_cooldown b\<rparr>"

lemmas breaker_op_defs = check_elapsed_def self_heal_def admit_probe_def breaker_check_def
  breaker_success_def breaker_failure_def clear_window_def Let_def

subsection \<open>The registry\<close>

text \<open>An \<open>Arc<CircuitBreaker>\<close> is an index into the list of breakers made so far.\<close>

record CircuitBreakerRegistry =
  breakers :: "HttpBreaker list"
  endpoints :: "string \<rightharpoonup> nat"

definition registry_new :: CircuitBreakerRegistry where
  "registry_new = \<lparr>breakers = [], endpoints = Map.empty\<rparr>"

definition get_with_config ::
  "string \<Rightarrow> CircuitBreakerConfig \<Rightarrow> CircuitBreakerRegistry \<Rightarrow> CircuitBreakerRegistry \<times> nat" where
  "get_with_config key cfg r =
     (case endpoints r key of
        Some i \<Rightarrow> (r, i)
      | None \<Rightarrow> (r\<lparr>breakers := breakers r @ [http_breaker_new cfg],
                   endpoints := (endpoints r)(key \<mapsto> length (breakers r))\<rparr>, length (breakers r)))"

definition registry_get :: "string \<Rightarrow> CircuitBreakerRegistry \<Rightarrow> CircuitBreakerRegistry \<times> nat" where
  "registry_get key r = get_with_config key breaker_config_default r"

definition registry_ok :: "CircuitBreakerRegistry \<Rightarrow> bool" where
  "registry_ok r \<longleftrightarrow> inj_on (endpoints r) (dom (endpoints r)) \<and>
     (\<forall>i \<in> ran (endpoints r). i < length (breakers r))"

text \<open>
  Two endpoints never share a breaker, one endpoint always gets the same one, and handing it out
  never changes a breaker that exists.
\<close>

lemma get_with_config_facts:
  assumes "registry_ok r" and g: "get_with_config key cfg r = (r', i)"
  shows "registry_ok r'" and "endpoints r' key = Some i" and "endpoints r \<subseteq>\<^sub>m endpoints r'"
    and "take (length (breakers r)) (breakers r') = breakers r"
proof -
  have r: "inj_on (endpoints r) (dom (endpoints r))" "\<forall>i \<in> ran (endpoints r). i < length (breakers r)"
    using assms(1) by (simp_all add: registry_ok_def)
  have "registry_ok r' \<and> endpoints r' key = Some i \<and> endpoints r \<subseteq>\<^sub>m endpoints r' \<and>
      take (length (breakers r)) (breakers r') = breakers r"
  proof (cases "endpoints r key")
    case (Some j)
    then show ?thesis using assms g by (simp add: get_with_config_def)
  next
    case None
    then have eq: "endpoints r' = (endpoints r)(key \<mapsto> length (breakers r))"
        "breakers r' = breakers r @ [http_breaker_new cfg]" "i = length (breakers r)"
      using g by (auto simp: get_with_config_def)
    have "endpoints r k \<noteq> Some (length (breakers r))" for k
      using r(2) by (metis less_irrefl ranI)
    then have "inj_on (endpoints r') (dom (endpoints r'))"
      using r(1) None by (auto simp: eq inj_on_def split: if_splits)
    moreover have "\<forall>i \<in> ran (endpoints r'). i < length (breakers r')"
      using r(2) None by (auto simp: eq)
    ultimately show ?thesis using None by (auto simp: eq registry_ok_def map_le_def)
  qed
  then show "registry_ok r'" "endpoints r' key = Some i" "endpoints r \<subseteq>\<^sub>m endpoints r'"
    "take (length (breakers r)) (breakers r') = breakers r" by simp_all
qed

subsection \<open>The breaker over time\<close>

text \<open>
  A caller checks, or reports an outcome; between two calls time passes. The clocked breaker keeps
  the instant of the last call beside the breaker.
\<close>

datatype breaker_op = Check nat | Success nat | Failure nat

fun breaker_step :: "instant \<times> HttpBreaker \<Rightarrow> breaker_op \<Rightarrow> instant \<times> HttpBreaker" where
  "breaker_step (t, b) (Check d) = (t + d, fst (breaker_check (t + d) b))"
| "breaker_step (t, b) (Success d) = (t + d, breaker_success b)"
| "breaker_step (t, b) (Failure d) = (t + d, breaker_failure (t + d) b)"

definition config_ok :: "CircuitBreakerConfig \<Rightarrow> bool" where
  "config_ok cfg \<longleftrightarrow> initial_cooldown cfg \<le> max_cooldown cfg \<and> 0 < half_open_probes cfg"

text \<open>
  The budget is kept, an open breaker opens again within the longest cooldown, and a window that
  holds a probe started in the past; only the half-open state holds probes.
\<close>

definition breaker_inv :: "instant \<times> HttpBreaker \<Rightarrow> bool" where
  "breaker_inv s \<longleftrightarrow> (case s of (t, b) \<Rightarrow>
     let cfg = breaker_config b in
     config_ok cfg \<and>
     initial_cooldown cfg \<le> current_cooldown b \<and> current_cooldown b \<le> max_cooldown cfg \<and>
     half_open_in_flight b \<le> half_open_probes cfg \<and>
     (case status b of
        Closed \<Rightarrow> half_open_in_flight b = 0
      | Open u \<Rightarrow> u \<le> t + max_cooldown cfg \<and> half_open_in_flight b = 0
      | HalfOpen \<Rightarrow> half_open_in_flight b \<noteq> 0 \<longrightarrow>
                     (\<exists>st. half_open_window_start b = Some st \<and> st \<le> t)))"

lemma breaker_config_step [simp]:
  "breaker_config (snd (breaker_step s x)) = breaker_config (snd s)"
  by (cases s; cases x) (auto simp: breaker_op_defs split: CircuitState.splits option.splits)

lemma breaker_config_run: "breaker_config (snd (foldl breaker_step s xs)) = breaker_config (snd s)"
  by (induction xs arbitrary: s) simp_all

lemma budget_inc:
  assumes "k < (n :: u32)"
  shows "k + 1 \<le> n" and "k + 1 \<noteq> 0"
proof -
  have "k \<noteq> - 1" using assms word_order.extremum_strict by blast
  from unat_inc [OF this] assms show "k + 1 \<le> n" and "k + 1 \<noteq> 0"
    by (auto simp: word_less_nat_alt word_le_nat_alt)
qed

lemma check_inv:
  assumes "breaker_inv (t, b)" and "t \<le> now"
  shows "breaker_inv (now, fst (breaker_check now b))"
proof -
  let ?b = "self_heal now (check_elapsed now b)"
  show ?thesis
  proof (cases "status (check_elapsed now b) = HalfOpen \<and> half_open_in_flight ?b < half_open_probes (breaker_config ?b)")
    case True
    then show ?thesis
      using assms budget_inc [of "half_open_in_flight ?b" "half_open_probes (breaker_config ?b)"]
      by (auto simp: breaker_inv_def breaker_op_defs split: CircuitState.splits option.splits if_splits)
  next
    case False
    then show ?thesis
      using assms
      by (auto simp: breaker_inv_def breaker_op_defs config_ok_def split: CircuitState.splits option.splits if_splits)
  qed
qed

lemma http_breaker_step_inv: "breaker_inv s \<Longrightarrow> breaker_inv (breaker_step s x)"
proof (cases s)
  case (Pair t b)
  assume "breaker_inv s"
  then show ?thesis
    using check_inv [of t b] Pair
    by (cases x) (auto simp: breaker_inv_def breaker_success_def breaker_failure_def clear_window_def
        config_ok_def Let_def split: CircuitState.splits)
qed

interpretation breaker_machine: invariant_machine breaker_step breaker_inv
  by unfold_locales (rule http_breaker_step_inv)

lemma breaker_new_inv: "config_ok cfg \<Longrightarrow> breaker_inv (t, http_breaker_new cfg)"
  by (simp add: breaker_inv_def http_breaker_new_def config_ok_def)

text \<open>When a check turns the caller away.\<close>

definition refuses :: "instant \<Rightarrow> HttpBreaker \<Rightarrow> bool" where
  "refuses now b \<longleftrightarrow> (case snd (breaker_check now b) of Open _ \<Rightarrow> True | _ \<Rightarrow> False)"

definition cooling :: "instant \<Rightarrow> HttpBreaker \<Rightarrow> bool" where
  "cooling now b \<longleftrightarrow> (case status b of
     Closed \<Rightarrow> False
   | Open u \<Rightarrow> now < u
   | HalfOpen \<Rightarrow> half_open_in_flight b = half_open_probes (breaker_config b) \<and>
                 (\<exists>st. half_open_window_start b = Some st \<and> now < st + current_cooldown b))"

lemma refuses_iff_cooling:
  assumes "breaker_inv (t, b)" and "t \<le> now"
  shows "refuses now b \<longleftrightarrow> cooling now b"
  using assms
  by (auto simp: refuses_def cooling_def breaker_inv_def breaker_op_defs config_ok_def
      word_le_less_eq split: CircuitState.splits option.splits if_splits)

subsection \<open>Property\<close>

text \<open> C35. Whatever calls the adapters of an endpoint made, in whatever order and with probes that
  never reported an outcome among them, a check turns the caller away exactly while the breaker
  cools down: it is open and its instant has not come, or it is half-open, the whole probe budget is
  in flight and the probe window is younger than the current cooldown. The budget is never exceeded
  and the cooldown stays between its initial and its longest value, so a caller that waits the
  longest cooldown after the last call is let through: no leaked probe shuts an endpoint off for
  good.\<close>

theorem http_breaker_never_sticks:
  assumes "config_ok cfg"
    and run: "foldl breaker_step (t\<^sub>0, http_breaker_new cfg) xs = (t, b)"
    and later: "t \<le> now"
  shows "(refuses now b \<longleftrightarrow> cooling now b) \<and>
    half_open_in_flight (fst (breaker_check now b)) \<le> half_open_probes cfg \<and>
    current_cooldown b \<in> {initial_cooldown cfg..max_cooldown cfg} \<and>
    (t + max_cooldown cfg \<le> now \<longrightarrow> \<not> refuses now b)"
proof -
  have inv: "breaker_inv (t, b)"
    using breaker_machine.run_inv [OF breaker_new_inv [OF assms(1)], of t\<^sub>0 xs] by (simp add: run)
  have cfg: "breaker_config b = cfg"
    using breaker_config_run [of "(t\<^sub>0, http_breaker_new cfg)" xs]
    unfolding run by (simp add: http_breaker_new_def)
  have iff: "refuses now b \<longleftrightarrow> cooling now b" using refuses_iff_cooling [OF inv later] .
  have "\<not> cooling now b" if "t + max_cooldown cfg \<le> now"
    using inv that cfg by (auto simp: cooling_def breaker_inv_def config_ok_def split: CircuitState.splits)
  moreover have "half_open_in_flight (fst (breaker_check now b)) \<le> half_open_probes cfg"
    using check_inv [OF inv later] breaker_config_step [of "(now, b)" "Check 0"] cfg
    by (simp add: breaker_inv_def Let_def)
  ultimately show ?thesis using inv iff cfg by (simp add: breaker_inv_def Let_def)
qed

text \<open>
  Three failures open the breaker; the probe after the cooldown never reports, a second caller is
  refused, and one that comes when the window is as old as the cooldown is let through.
\<close>

definition short_cooldowns :: CircuitBreakerConfig where
  "short_cooldowns =
     \<lparr>failure_threshold = 3, initial_cooldown = 3, max_cooldown = 30, half_open_probes = 1\<rparr>"

definition leaky_calls :: "breaker_op list" where
  "leaky_calls = [Check 0, Failure 1, Check 0, Failure 1, Check 0, Failure 1, Check 3]"

theorem http_breaker_never_sticks_witness:
  "let (t, b) = foldl breaker_step (0, http_breaker_new short_cooldowns) leaky_calls
   in status b = HalfOpen \<and> refuses t b \<and> refuses (t + 2) b \<and>
      \<not> refuses (t + 3) b \<and> \<not> refuses (t + max_cooldown short_cooldowns) b"
proof -
  define s where "s = foldl breaker_step (0, http_breaker_new short_cooldowns) leaky_calls"
  have s: "status (snd s) = HalfOpen \<and> refuses (fst s) (snd s) \<and> refuses (fst s + 2) (snd s) \<and>
      \<not> refuses (fst s + 3) (snd s)"
    unfolding s_def by code_simp
  have "config_ok short_cooldowns" by code_simp
  moreover have "foldl breaker_step (0, http_breaker_new short_cooldowns) leaky_calls = (fst s, snd s)"
    by (simp add: s_def)
  ultimately have "\<not> refuses (fst s + max_cooldown short_cooldowns) (snd s)"
    using http_breaker_never_sticks le_add1 le_refl by blast
  with s show ?thesis by (simp add: s_def [symmetric] case_prod_unfold Let_def)
qed

end
