(* ===== verification/Batch_Uploader.thy ===== *)
theory Batch_Uploader
  imports Upload_Events Http_Breaker
begin

text \<open>
  The upload queue of \<open>crates/maekon-network/src/batch_uploader.rs\<close>. Every call is one step, except
  \<open>flush\<close>, which awaits the server: its start, which takes a batch off the queue, and each answer of the
  server are steps of their own, so that events are enqueued while a batch is under way. The sizes
  are natural numbers; ratios are compared without rounding.
\<close>

section \<open>Data\<close>

record QueuedUpload =
  storage_id :: string
  payload :: Event

datatype NetworkCode = TimeoutCode | RateLimitCode | GenericCode

text \<open>\<open>CoreError\<close>, with the variants that are told apart; \<open>CircuitOpen\<close> is the \<open>NetworkError\<close> of the breaker.\<close>

datatype upload_error =
    Network string
  | RequestTimeout NetworkCode
  | RateLimit NetworkCode
  | ServiceUnavailable string
  | Internal string
  | Rejected string
  | CircuitOpen

definition is_retryable :: "upload_error \<Rightarrow> bool" where
  "is_retryable e =
     (case e of
        Network _ \<Rightarrow> True
      | RequestTimeout c \<Rightarrow> c = TimeoutCode
      | ServiceUnavailable _ \<Rightarrow> True
      | RateLimit c \<Rightarrow> c = RateLimitCode
      | Internal _ \<Rightarrow> True
      | _ \<Rightarrow> False)"

definition MAX_UPLOAD_QUEUE_SIZE :: nat where
  "MAX_UPLOAD_QUEUE_SIZE = 10000"

record BatchUploader =
  upload_queue :: "QueuedUpload list"
  queue_size :: nat
  session_id :: string
  max_batch_size :: nat
  max_retries :: nat
  dynamic_batch :: bool
  max_queue_size :: nat
  pressure_warned :: bool
  failed_batches :: nat
  total_dropped :: nat
  last_upload_ok :: "bool option"
  circuit_breaker :: HttpBreaker
  cycle_dropped :: nat

definition uploader_new :: "string \<Rightarrow> nat \<Rightarrow> nat \<Rightarrow> BatchUploader" where
  "uploader_new sid batch retries =
     \<lparr>upload_queue = [], queue_size = 0, session_id = sid, max_batch_size = batch, max_retries = retries,
      dynamic_batch = True, max_queue_size = MAX_UPLOAD_QUEUE_SIZE, pressure_warned = False,
      failed_batches = 0, total_dropped = 0, last_upload_ok = None,
      circuit_breaker = http_breaker_new breaker_config_default, cycle_dropped = 0\<rparr>"

definition with_health_flag :: "bool \<Rightarrow> BatchUploader \<Rightarrow> BatchUploader" where
  "with_health_flag flag u = u\<lparr>last_upload_ok := Some flag\<rparr>"

definition with_dynamic_batch :: "bool \<Rightarrow> BatchUploader \<Rightarrow> BatchUploader" where
  "with_dynamic_batch b u = u\<lparr>dynamic_batch := b\<rparr>"

definition with_max_queue_size :: "nat \<Rightarrow> BatchUploader \<Rightarrow> BatchUploader" where
  "with_max_queue_size n u = u\<lparr>max_queue_size := n\<rparr>"

section \<open>The queue\<close>

definition drop_oldest :: "nat \<Rightarrow> BatchUploader \<Rightarrow> BatchUploader" where
  "drop_oldest n u =
     (let dropped = min n (length (upload_queue u))
      in if dropped = 0 then u
         else u\<lparr>upload_queue := drop dropped (upload_queue u),
                queue_size := queue_size u - dropped,
                total_dropped := total_dropped u + dropped,
                cycle_dropped := cycle_dropped u + dropped\<rparr>)"

text \<open>The critical and the warning threshold, nine and eight tenths; only the flag is kept.\<close>

definition check_pressure :: "nat \<Rightarrow> BatchUploader \<Rightarrow> BatchUploader" where
  "check_pressure current_size u =
     (if 9 * max_queue_size u \<le> 10 * current_size then u\<lparr>pressure_warned := True\<rparr>
      else if 8 * max_queue_size u \<le> 10 * current_size then u\<lparr>pressure_warned := True\<rparr>
      else u\<lparr>pressure_warned := False\<rparr>)"

definition push_all :: "QueuedUpload list \<Rightarrow> BatchUploader \<Rightarrow> BatchUploader" where
  "push_all qs u =
     u\<lparr>upload_queue := upload_queue u @ qs, queue_size := queue_size u + length qs\<rparr>"

definition enqueue :: "QueuedUpload \<Rightarrow> BatchUploader \<Rightarrow> BatchUploader" where
  "enqueue q u =
     (let u = (if max_queue_size u \<le> queue_size u then drop_oldest 1 u else u);
          u = push_all [q] u
      in check_pressure (queue_size u) u)"

definition make_room :: "nat \<Rightarrow> BatchUploader \<Rightarrow> BatchUploader" where
  "make_room n u =
     (if max_queue_size u < queue_size u + n
      then drop_oldest (queue_size u + n - max_queue_size u) u else u)"

definition enqueue_many :: "QueuedUpload list \<Rightarrow> BatchUploader \<Rightarrow> BatchUploader" where
  "enqueue_many qs u =
     (if qs = [] then u
      else let u = push_all qs (make_room (length qs) u) in check_pressure (queue_size u) u)"

definition requeue_failed_events :: "QueuedUpload list \<Rightarrow> BatchUploader \<Rightarrow> BatchUploader" where
  "requeue_failed_events qs u = push_all qs (make_room (length qs) u)"

definition take_dropped_since_last :: "BatchUploader \<Rightarrow> nat \<times> BatchUploader" where
  "take_dropped_since_last u = (cycle_dropped u, u\<lparr>cycle_dropped := 0\<rparr>)"

definition compute_batch_size :: "nat \<Rightarrow> BatchUploader \<Rightarrow> nat" where
  "compute_batch_size queue_len u =
     (if \<not> dynamic_batch u then max_batch_size u
      else if queue_len < 10 then queue_len
      else if 50 < queue_len then min (max_batch_size u * 2) queue_len
      else max_batch_size u)"

section \<open>Flushing\<close>

datatype flush_start = Returned "upload_error + string list" | Sending "QueuedUpload list"

text \<open>
  Up to the first request. \<open>suppressed\<close> is the answer of the predicate of the tracking schedule. The
  payloads of the batch are those of the items.
\<close>

definition flush_begin :: "bool \<Rightarrow> instant \<Rightarrow> BatchUploader \<Rightarrow> flush_start \<times> BatchUploader" where
  "flush_begin suppressed now u =
     (if suppressed then (Returned (Inr []), u)
      else if queue_size u = 0 then (Returned (Inr []), u)
      else
        (let (b, st) = breaker_check now (circuit_breaker u);
             u = u\<lparr>circuit_breaker := b\<rparr>
         in case st of
              Open _ \<Rightarrow> (Returned (Inl CircuitOpen), u)
            | _ \<Rightarrow>
                (let drain_count = min (queue_size u) (compute_batch_size (queue_size u) u);
                     items = take drain_count (upload_queue u)
                 in if items = []
                    then (Returned (Inr []),
                          if st = HalfOpen then u\<lparr>circuit_breaker := breaker_success b\<rparr> else u)
                    else (Sending items,
                          u\<lparr>upload_queue := drop drain_count (upload_queue u),
                            queue_size := queue_size u - length items\<rparr>))))"

definition set_health :: "bool \<Rightarrow> BatchUploader \<Rightarrow> BatchUploader" where
  "set_health b u = u\<lparr>last_upload_ok := map_option (\<lambda>_. b) (last_upload_ok u)\<rparr>"

text \<open>
  The answer to the request number \<open>attempt\<close>: \<open>None\<close> when the loop goes on to the next attempt, after a
  delay that it does not keep, and the result of the flush otherwise.
\<close>

definition upload_answer ::
  "nat \<Rightarrow> QueuedUpload list \<Rightarrow> upload_error + unit \<Rightarrow> instant \<Rightarrow> BatchUploader
    \<Rightarrow> (upload_error + string list) option \<times> BatchUploader" where
  "upload_answer attempt items answer now u =
     (case answer of
        Inr _ \<Rightarrow>
          (Some (Inr (map storage_id items)),
           set_health True (u\<lparr>circuit_breaker := breaker_success (circuit_breaker u)\<rparr>))
      | Inl e \<Rightarrow>
          if \<not> is_retryable e
          then (Some (Inl e),
                set_health False (u\<lparr>circuit_breaker := breaker_failure now (circuit_breaker u),
                  failed_batches := failed_batches u + 1,
                  total_dropped := total_dropped u + length items,
                  cycle_dropped := cycle_dropped u + length items\<rparr>))
          else if attempt < max_retries u then (None, u)
          else (Some (Inl e),
                requeue_failed_events items
                  (set_health False (u\<lparr>circuit_breaker := breaker_failure now (circuit_breaker u),
                     failed_batches := failed_batches u + 1\<rparr>))))"

lemma upload_answer_None: "upload_answer attempt items answer now u = (None, u') \<Longrightarrow> u' = u"
  by (auto simp: upload_answer_def split: sum.splits if_splits)

text \<open>
  The whole call, when nothing else happens meanwhile: \<open>replies\<close> and \<open>instants\<close> give what each attempt meets.
  The second component of the result is the number of requests.
\<close>

function upload_loop ::
  "nat \<Rightarrow> QueuedUpload list \<Rightarrow> (nat \<Rightarrow> upload_error + unit) \<Rightarrow> (nat \<Rightarrow> instant) \<Rightarrow> BatchUploader
    \<Rightarrow> (upload_error + string list) \<times> nat \<times> BatchUploader" where
  "upload_loop attempt items replies instants u =
     (if max_retries u < attempt then (Inr [], 0, u)
      else (case upload_answer attempt items (replies attempt) (instants attempt) u of
              (Some res, u') \<Rightarrow> (res, 1, u')
            | (None, u') \<Rightarrow>
                (case upload_loop (attempt + 1) items replies instants u' of
                   (res, n, u'') \<Rightarrow> (res, n + 1, u''))))"
  by pat_completeness auto

termination
  by (relation "measure (\<lambda>(attempt, items, replies, instants, u). max_retries u + 1 - attempt)")
    (auto dest!: upload_answer_None [OF sym])

declare upload_loop.simps [simp del]

definition flush ::
  "bool \<Rightarrow> instant \<Rightarrow> (nat \<Rightarrow> upload_error + unit) \<Rightarrow> (nat \<Rightarrow> instant) \<Rightarrow> BatchUploader
    \<Rightarrow> (upload_error + string list) \<times> nat \<times> BatchUploader" where
  "flush suppressed now replies instants u =
     (case flush_begin suppressed now u of
        (Returned res, u') \<Rightarrow> (res, 0, u')
      | (Sending items, u') \<Rightarrow> upload_loop 0 items replies instants u')"

record BatchStats =
  bs_queue_size :: nat
  bs_max_batch_size :: nat
  bs_max_queue_size :: nat
  bs_dynamic_batch_enabled :: bool
  bs_failed_batches :: nat
  bs_total_dropped :: nat
  bs_circuit_state :: string
  bs_circuit_failures :: u32

definition uploader_stats :: "BatchUploader \<Rightarrow> BatchStats" where
  "uploader_stats u =
     \<lparr>bs_queue_size = queue_size u, bs_max_batch_size = max_batch_size u,
      bs_max_queue_size = max_queue_size u, bs_dynamic_batch_enabled = dynamic_batch u,
      bs_failed_batches = failed_batches u, bs_total_dropped = total_dropped u,
      bs_circuit_state = stats_state (breaker_stats (circuit_breaker u)),
      bs_circuit_failures = stats_failures (breaker_stats (circuit_breaker u))\<rparr>"

end
