(* ===== verification/Upload_Ledger.thy ===== *)
theory Upload_Ledger
  imports Batch_Uploader "HOL-Library.Multiset"
begin

text \<open>
  What becomes of the events handed to the uploader, whatever the interleaving of producers with the
  answers of the server: each is queued, under way, acknowledged or counted as dropped, and the queue
  keeps its bound.
\<close>

section \<open>Flush alone\<close>

lemma upload_loop_returns:
  "attempt \<le> max_retries u \<Longrightarrow>
     (case upload_loop attempt items replies instants u of (res, n, u') \<Rightarrow>
        1 \<le> n \<and> n \<le> max_retries u + 1 - attempt \<and>
        upload_answer (attempt + n - 1) items (replies (attempt + n - 1)) (instants (attempt + n - 1)) u = (Some res, u') \<and>
        (\<forall>k. attempt \<le> k \<and> k < attempt + n - 1 \<longrightarrow> (\<exists>e. replies k = Inl e \<and> is_retryable e)))"
proof (induction attempt items replies instants u rule: upload_loop.induct)
  case (1 attempt items replies instants u)
  obtain r u' where a: "upload_answer attempt items (replies attempt) (instants attempt) u = (r, u')" by fastforce
  show ?case
  proof (cases r)
    case (Some res)
    then show ?thesis using 1(2) a by (auto simp: upload_loop.simps [of attempt])
  next
    case None
    with a have u': "u' = u" by (auto dest: upload_answer_None)
    have lt: "attempt < max_retries u" and err: "\<exists>e. replies attempt = Inl e \<and> is_retryable e"
      using a None by (auto simp: upload_answer_def split: sum.splits if_splits)
    obtain res n u'' where l: "upload_loop (attempt + 1) items replies instants u = (res, n, u'')"
      by (metis prod_cases3)
    have "\<not> max_retries u < attempt" using lt by simp
    from 1(1) [OF this, of r u'] a None u' lt l
    have ih: "1 \<le> n \<and> n \<le> max_retries u + 1 - (attempt + 1) \<and>
        upload_answer (attempt + 1 + n - 1) items (replies (attempt + 1 + n - 1)) (instants (attempt + 1 + n - 1)) u =
          (Some res, u'') \<and>
        (\<forall>k. attempt + 1 \<le> k \<and> k < attempt + 1 + n - 1 \<longrightarrow> (\<exists>e. replies k = Inl e \<and> is_retryable e))"
      by auto
    have "upload_loop attempt items replies instants u = (res, n + 1, u'')"
      using a None u' l 1(2) by (simp add: upload_loop.simps [of attempt])
    moreover have "\<exists>e. replies k = Inl e \<and> is_retryable e" if "attempt \<le> k" "k < attempt + n" for k
      using that ih err by (cases "k = attempt") auto
    ultimately show ?thesis using ih lt by auto
  qed
qed

section \<open>The ledger\<close>

text \<open>
  The uploader with the batches under way, each with the number of its attempt, and two ghosts: all
  items that were ever handed over, and those the server acknowledged.
\<close>

record upload_world =
  up :: BatchUploader
  under_way :: "(QueuedUpload list \<times> nat) list"
  accepted :: "QueuedUpload multiset"
  delivered :: "QueuedUpload multiset"

datatype upload_op =
    Enqueue QueuedUpload
  | EnqueueMany "QueuedUpload list"
  | Begin bool instant
  | Answer nat "upload_error + unit" instant
  | TakeDropped

definition remove_nth :: "nat \<Rightarrow> 'a list \<Rightarrow> 'a list" where
  "remove_nth i xs = take i xs @ drop (Suc i) xs"

fun upload_step :: "upload_world \<Rightarrow> upload_op \<Rightarrow> upload_world" where
  "upload_step w (Enqueue q) = w\<lparr>up := enqueue q (up w), accepted := add_mset q (accepted w)\<rparr>"
| "upload_step w (EnqueueMany qs) = w\<lparr>up := enqueue_many qs (up w), accepted := mset qs + accepted w\<rparr>"
| "upload_step w (Begin suppressed now) =
     (case flush_begin suppressed now (up w) of
        (Returned _, u) \<Rightarrow> w\<lparr>up := u\<rparr>
      | (Sending items, u) \<Rightarrow> w\<lparr>up := u, under_way := under_way w @ [(items, 0)]\<rparr>)"
| "upload_step w (Answer i answer now) =
     (if i < length (under_way w)
      then (case under_way w ! i of (items, attempt) \<Rightarrow>
              (case upload_answer attempt items answer now (up w) of
                 (None, u) \<Rightarrow> w\<lparr>up := u, under_way := (under_way w)[i := (items, attempt + 1)]\<rparr>
               | (Some res, u) \<Rightarrow>
                   w\<lparr>up := u, under_way := remove_nth i (under_way w),
                     delivered := (case res of Inr _ \<Rightarrow> mset items | Inl _ \<Rightarrow> {#}) + delivered w\<rparr>))
      else w)"
| "upload_step w TakeDropped = w\<lparr>up := snd (take_dropped_since_last (up w))\<rparr>"

definition upload_world_new :: "BatchUploader \<Rightarrow> upload_world" where
  "upload_world_new u = \<lparr>up = u, under_way = [], accepted = {#}, delivered = {#}\<rparr>"

text \<open>What is still in hand, and what is in hand or has arrived.\<close>

definition in_hand :: "upload_world \<Rightarrow> QueuedUpload multiset" where
  "in_hand w = mset (upload_queue (up w)) + mset (concat (map fst (under_way w)))"

definition ledger_ok :: "upload_world \<Rightarrow> bool" where
  "ledger_ok w \<longleftrightarrow>
     queue_size (up w) = length (upload_queue (up w)) \<and>
     in_hand w + delivered w \<subseteq># accepted w \<and>
     size (accepted w) = size (in_hand w + delivered w) + total_dropped (up w) \<and>
     (\<forall>(items, attempt) \<in> set (under_way w). attempt \<le> max_retries (up w))"

text \<open>How an operation of the queue moves the counters.\<close>

definition moves :: "QueuedUpload multiset \<Rightarrow> BatchUploader \<Rightarrow> BatchUploader \<Rightarrow> bool" where
  "moves new u u' \<longleftrightarrow>
     (queue_size u = length (upload_queue u) \<longrightarrow>
        queue_size u' = length (upload_queue u') \<and>
        mset (upload_queue u') \<subseteq># new + mset (upload_queue u) \<and>
        size new + length (upload_queue u) + total_dropped u = length (upload_queue u') + total_dropped u' \<and>
        max_retries u' = max_retries u \<and> max_queue_size u' = max_queue_size u)"

lemma moves_refl: "moves {#} u u"
  by (simp add: moves_def)

lemma moves_trans: "moves a u v \<Longrightarrow> moves b v w \<Longrightarrow> moves (a + b) u w"
  by (auto simp: moves_def intro: subset_mset.order_trans dest: subset_mset.add_left_mono [where c = b])

lemma drop_mset: "mset (drop n xs) \<subseteq># mset xs"
  by (metis append_take_drop_id mset_append mset_subset_eq_add_right)

lemma drop_oldest_moves: "moves {#} u (drop_oldest n u)"
  by (auto simp: moves_def drop_oldest_def Let_def drop_mset)

lemma make_room_moves: "moves {#} u (make_room n u)"
  by (simp add: make_room_def drop_oldest_moves moves_refl)

lemma push_all_moves: "moves (mset qs) u (push_all qs u)"
  by (simp add: moves_def push_all_def)

lemma check_pressure_fields [simp]:
  "upload_queue (check_pressure n u) = upload_queue u" "queue_size (check_pressure n u) = queue_size u"
  "total_dropped (check_pressure n u) = total_dropped u" "max_retries (check_pressure n u) = max_retries u"
  "max_queue_size (check_pressure n u) = max_queue_size u"
  by (simp_all add: check_pressure_def)

lemma enqueue_moves: "moves {#q#} u (enqueue q u)"
  using moves_trans [OF drop_oldest_moves [of u 1] push_all_moves [of "[q]"]] push_all_moves [of "[q]" u]
  by (simp add: enqueue_def Let_def moves_def)

lemma enqueue_many_moves: "moves (mset qs) u (enqueue_many qs u)"
proof (cases "qs = []")
  case False
  then show ?thesis
    using moves_trans [OF make_room_moves [of u "length qs"] push_all_moves [of qs]]
    by (simp add: enqueue_many_def Let_def moves_def)
qed (simp add: enqueue_many_def moves_refl)

lemma requeue_moves: "moves (mset qs) u (requeue_failed_events qs u)"
  using moves_trans [OF make_room_moves push_all_moves] by (simp add: requeue_failed_events_def)

lemma set_health_fields [simp]:
  "upload_queue (set_health b u) = upload_queue u" "queue_size (set_health b u) = queue_size u"
  "total_dropped (set_health b u) = total_dropped u" "max_retries (set_health b u) = max_retries u"
  "max_queue_size (set_health b u) = max_queue_size u"
  by (simp_all add: set_health_def)

text \<open>The start of a flush takes a batch off the front of the queue and touches no counter.\<close>

lemma flush_begin_cases:
  assumes "flush_begin suppressed now u = (st, u')"
  obtains res where "st = Returned res" "upload_queue u' = upload_queue u" "queue_size u' = queue_size u"
      "total_dropped u' = total_dropped u" "max_retries u' = max_retries u" "max_queue_size u' = max_queue_size u"
  | items where "st = Sending items" "items \<noteq> []" "upload_queue u = items @ upload_queue u'"
      "queue_size u' = queue_size u - length items"
      "total_dropped u' = total_dropped u" "max_retries u' = max_retries u" "max_queue_size u' = max_queue_size u"
  using assms
  by (fastforce simp: flush_begin_def Let_def split: if_splits prod.splits CircuitState.splits)

text \<open>An answer settles the batch: acknowledged, counted as dropped, or handed back to the queue.\<close>

lemma upload_answer_cases:
  assumes "upload_answer attempt items answer now u = (r, u')"
  obtains "r = None" "u' = u" "attempt < max_retries u"
  | "r = Some (Inr (map storage_id items))" "answer = Inr ()" "moves {#} u u'" "upload_queue u' = upload_queue u"
  | e where "r = Some (Inl e)" "answer = Inl e" "upload_queue u' = upload_queue u" "queue_size u' = queue_size u"
      "total_dropped u' = total_dropped u + length items" "max_retries u' = max_retries u"
      "max_queue_size u' = max_queue_size u"
  | e v where "r = Some (Inl e)" "answer = Inl e" "moves {#} u v" "u' = requeue_failed_events items v"
      "upload_queue v = upload_queue u"
proof (cases answer)
  case (Inr x)
  with assms that(2) show thesis by (auto simp: upload_answer_def moves_def)
next
  case (Inl e)
  let ?v = "set_health False (u\<lparr>circuit_breaker := breaker_failure now (circuit_breaker u),
    failed_batches := failed_batches u + 1\<rparr>)"
  consider "\<not> is_retryable e" | "is_retryable e" "attempt < max_retries u"
    | "is_retryable e" "\<not> attempt < max_retries u" by blast
  then show thesis
  proof cases
    case 1
    with assms Inl show thesis by (intro that(3) [of e]) (auto simp: upload_answer_def)
  next
    case 2
    with assms Inl show thesis by (intro that(1)) (auto simp: upload_answer_def)
  next
    case 3
    have "moves {#} u ?v" "upload_queue ?v = upload_queue u" by (simp_all add: moves_def)
    moreover have "r = Some (Inl e)" "u' = requeue_failed_events items ?v"
      using assms Inl 3 by (auto simp: upload_answer_def)
    ultimately show thesis using that(4) Inl by blast
  qed
qed

lemma in_hand_under_way:
  assumes "i < length (under_way w)" and "under_way w ! i = (items, attempt)"
  shows "mset (concat (map fst (under_way w))) =
    mset items + mset (concat (map fst (remove_nth i (under_way w))))"
    and "mset (concat (map fst ((under_way w)[i := (items, k)]))) = mset (concat (map fst (under_way w)))"
proof -
  obtain xs ys where w: "under_way w = xs @ (items, attempt) # ys" "length xs = i"
    using assms id_take_nth_drop [OF assms(1)] by (metis length_take min.absorb2 nat_less_le)
  then have "remove_nth i (under_way w) = xs @ ys" by (simp add: remove_nth_def)
  with w show "mset (concat (map fst (under_way w))) =
    mset items + mset (concat (map fst (remove_nth i (under_way w))))" by simp
  from w have "(under_way w)[i := (items, k)] = xs @ (items, k) # ys"
    by (auto simp: list_update_append)
  with w show "mset (concat (map fst ((under_way w)[i := (items, k)]))) = mset (concat (map fst (under_way w)))"
    by simp
qed

lemma set_remove_nth: "set (remove_nth i xs) \<subseteq> set xs"
  by (auto simp: remove_nth_def dest: in_set_takeD in_set_dropD)

text \<open>An operation that only moves items of the queue keeps the ledger.\<close>

lemma ledger_moves:
  assumes "ledger_ok w" and "moves new (up w) u"
  shows "ledger_ok (w\<lparr>up := u, accepted := new + accepted w\<rparr>)"
proof -
  have m: "queue_size u = length (upload_queue u)" "mset (upload_queue u) \<subseteq># new + mset (upload_queue (up w))"
    "size new + length (upload_queue (up w)) + total_dropped (up w) = length (upload_queue u) + total_dropped u"
    "max_retries u = max_retries (up w)"
    using assms by (auto simp: moves_def ledger_ok_def)
  let ?rest = "mset (concat (map fst (under_way w))) + delivered w"
  have "mset (upload_queue u) + ?rest \<subseteq># (new + mset (upload_queue (up w))) + ?rest"
    using m(2) by (rule subset_mset.add_right_mono)
  also have "\<dots> = new + (in_hand w + delivered w)" by (simp add: in_hand_def ac_simps)
  also have "\<dots> \<subseteq># new + accepted w" using assms(1) by (simp add: ledger_ok_def)
  finally show ?thesis using assms(1) m by (simp add: ledger_ok_def in_hand_def ac_simps)
qed

lemma ledger_begin:
  assumes "ledger_ok w"
  shows "ledger_ok (upload_step w (Begin suppressed now))"
proof -
  obtain st u where b: "flush_begin suppressed now (up w) = (st, u)" by fastforce
  then show ?thesis
  proof (cases rule: flush_begin_cases)
    case (1 res)
    then show ?thesis using assms b by (simp add: ledger_ok_def in_hand_def)
  next
    case (2 items)
    then show ?thesis using assms b by (auto simp: ledger_ok_def in_hand_def ac_simps)
  qed
qed

lemma ledger_settle:
  assumes ok: "ledger_ok w" and i: "i < length (under_way w)" "under_way w ! i = (items, attempt)"
    and hand: "mset (upload_queue u) \<subseteq># (if res = None then mset items else {#}) + mset (upload_queue (up w))"
    and keep: "queue_size u = length (upload_queue u)" "max_retries u = max_retries (up w)"
    and total: "length (upload_queue u) + (if res = None then 0 else size (the res)) + total_dropped u =
      length items + length (upload_queue (up w)) + total_dropped (up w)"
    and del: "res = None \<or> res = Some {#} \<or> res = Some (mset items)"
  shows "ledger_ok (w\<lparr>up := u, under_way := remove_nth i (under_way w),
    delivered := (case res of None \<Rightarrow> {#} | Some d \<Rightarrow> d) + delivered w\<rparr>)"
proof -
  let ?w = "w\<lparr>up := u, under_way := remove_nth i (under_way w),
    delivered := (case res of None \<Rightarrow> {#} | Some d \<Rightarrow> d) + delivered w\<rparr>"
  let ?others = "mset (concat (map fst (remove_nth i (under_way w))))"
  note split = in_hand_under_way(1) [OF i]
  have "in_hand ?w + delivered ?w =
      mset (upload_queue u) + (case res of None \<Rightarrow> {#} | Some d \<Rightarrow> d) + (?others + delivered w)"
    by (simp add: in_hand_def ac_simps)
  also have "\<dots> \<subseteq># (mset items + mset (upload_queue (up w))) + (?others + delivered w)"
  proof (rule subset_mset.add_right_mono)
    show "mset (upload_queue u) + (case res of None \<Rightarrow> {#} | Some d \<Rightarrow> d) \<subseteq># mset items + mset (upload_queue (up w))"
      using hand del by (auto simp: union_commute intro: subset_mset.order_trans
          [OF _ mset_subset_eq_add_right] split: if_splits)
  qed
  also have "\<dots> = in_hand w + delivered w" by (simp add: in_hand_def split ac_simps)
  finally have "in_hand ?w + delivered ?w \<subseteq># accepted w"
    using ok subset_mset.order_trans unfolding ledger_ok_def by blast
  moreover have "size (in_hand ?w + delivered ?w) + total_dropped u = size (in_hand w + delivered w) + total_dropped (up w)"
    using total by (cases res) (simp_all add: in_hand_def split)
  ultimately show ?thesis
    using ok keep set_remove_nth [of i "under_way w"] by (auto simp: ledger_ok_def)
qed

lemma ledger_answer:
  assumes "ledger_ok w"
  shows "ledger_ok (upload_step w (Answer i answer now))"
proof (cases "i < length (under_way w)")
  case True
  obtain items attempt where i: "under_way w ! i = (items, attempt)" by fastforce
  obtain r u where a: "upload_answer attempt items answer now (up w) = (r, u)" by fastforce
  have q: "queue_size (up w) = length (upload_queue (up w))" using assms by (simp add: ledger_ok_def)
  from a show ?thesis
  proof (cases rule: upload_answer_cases)
    case 1
    have "in_hand (w\<lparr>up := u, under_way := (under_way w)[i := (items, attempt + 1)]\<rparr>) = in_hand w"
      using in_hand_under_way(2) [OF True i] 1 by (simp add: in_hand_def)
    moreover have "\<forall>(items, attempt) \<in> set ((under_way w)[i := (items, attempt + 1)]). attempt \<le> max_retries (up w)"
      using assms 1(3) set_update_subset_insert [of "under_way w" i "(items, attempt + 1)"]
      by (auto simp: ledger_ok_def)
    ultimately show ?thesis using assms a 1 True i by (simp add: ledger_ok_def)
  next
    case 2
    have "ledger_ok (w\<lparr>up := u, under_way := remove_nth i (under_way w),
        delivered := (case Some (mset items) of None \<Rightarrow> {#} | Some d \<Rightarrow> d) + delivered w\<rparr>)"
      by (rule ledger_settle [OF assms True i]) (use 2 q in \<open>auto simp: moves_def\<close>)
    then show ?thesis using a 2 True i by simp
  next
    case (3 e)
    have "ledger_ok (w\<lparr>up := u, under_way := remove_nth i (under_way w),
        delivered := (case Some {#} of None \<Rightarrow> {#} | Some d \<Rightarrow> d) + delivered w\<rparr>)"
      by (rule ledger_settle [OF assms True i]) (use 3 q in auto)
    then show ?thesis using a 3 True i by simp
  next
    case (4 e v)
    have "moves (mset items) (up w) u" using moves_trans [OF 4(3) requeue_moves [of items v]] 4(4) by simp
    then have "ledger_ok (w\<lparr>up := u, under_way := remove_nth i (under_way w),
        delivered := (case None of None \<Rightarrow> {#} | Some d \<Rightarrow> d) + delivered w\<rparr>)"
      by (intro ledger_settle [OF assms True i]) (use q in \<open>auto simp: moves_def\<close>)
    then show ?thesis using a 4 True i by simp
  qed
qed (use assms in simp)

lemma ledger_step: "ledger_ok w \<Longrightarrow> ledger_ok (upload_step w x)"
proof (cases x)
  case (Enqueue q)
  assume "ledger_ok w"
  from ledger_moves [OF this enqueue_moves] Enqueue show ?thesis by simp
next
  case (EnqueueMany qs)
  assume "ledger_ok w"
  from ledger_moves [OF this enqueue_many_moves] EnqueueMany show ?thesis by simp
next
  case TakeDropped
  assume "ledger_ok w"
  with TakeDropped show ?thesis by (simp add: take_dropped_since_last_def ledger_ok_def in_hand_def)
qed (use ledger_begin ledger_answer in auto)

interpretation ledger: invariant_machine upload_step ledger_ok
  by unfold_locales (rule ledger_step)

lemma max_retries_step: "max_retries (up (upload_step w x)) = max_retries (up w)"
proof (cases x)
  case (Begin suppressed now)
  obtain st u where b: "flush_begin suppressed now (up w) = (st, u)" by fastforce
  show ?thesis by (cases rule: flush_begin_cases [OF b]) (use Begin b in auto)
next
  case (Answer i answer now)
  obtain items attempt where i: "under_way w ! i = (items, attempt)" by fastforce
  obtain r u where a: "upload_answer attempt items answer now (up w) = (r, u)" by fastforce
  then have "max_retries u = max_retries (up w)"
    by (auto simp: upload_answer_def requeue_failed_events_def push_all_def make_room_def drop_oldest_def Let_def
        split: sum.splits if_splits)
  then show ?thesis using Answer i a by (auto split: option.splits)
qed (auto simp: take_dropped_since_last_def enqueue_def enqueue_many_def push_all_def make_room_def drop_oldest_def Let_def)

lemma max_retries_run: "max_retries (up (foldl upload_step w xs)) = max_retries (up w)"
  by (induction xs arbitrary: w) (simp_all add: max_retries_step)

section \<open>The bound\<close>

definition within_bound :: "nat \<Rightarrow> upload_world \<Rightarrow> bool" where
  "within_bound cap w \<longleftrightarrow>
     max_queue_size (up w) = cap \<and> queue_size (up w) = length (upload_queue (up w)) \<and>
     length (upload_queue (up w)) \<le> cap \<and> (\<forall>(items, _) \<in> set (under_way w). length items \<le> cap)"

definition op_fits :: "nat \<Rightarrow> upload_op \<Rightarrow> bool" where
  "op_fits cap x = (case x of EnqueueMany qs \<Rightarrow> length qs \<le> cap | _ \<Rightarrow> 0 < cap)"

definition queue_fits :: "nat \<Rightarrow> BatchUploader \<Rightarrow> bool" where
  "queue_fits cap u \<longleftrightarrow>
     max_queue_size u = cap \<and> queue_size u = length (upload_queue u) \<and> length (upload_queue u) \<le> cap"

lemma within_bound_iff:
  "within_bound cap w \<longleftrightarrow> queue_fits cap (up w) \<and> (\<forall>(items, _) \<in> set (under_way w). length items \<le> cap)"
  by (auto simp: within_bound_def queue_fits_def)

lemma enqueue_fits: "queue_fits cap u \<Longrightarrow> 0 < cap \<Longrightarrow> queue_fits cap (enqueue q u)"
  by (auto simp: queue_fits_def enqueue_def Let_def drop_oldest_def push_all_def)

lemma push_room_fits:
  "queue_fits cap u \<Longrightarrow> length qs \<le> cap \<Longrightarrow> queue_fits cap (push_all qs (make_room (length qs) u))"
  by (auto simp: queue_fits_def make_room_def drop_oldest_def push_all_def Let_def min_def)

lemma bound_answer:
  assumes w: "within_bound cap w"
  shows "within_bound cap (upload_step w (Answer i answer now))"
proof (cases "i < length (under_way w)")
  case True
  obtain items attempt where i: "under_way w ! i = (items, attempt)" by fastforce
  obtain r u where a: "upload_answer attempt items answer now (up w) = (r, u)" by fastforce
  have len: "length items \<le> cap" using w True i nth_mem [OF True] by (auto simp: within_bound_def)
  have u: "queue_fits cap u"
    using a
  proof (cases rule: upload_answer_cases)
    case (4 e v)
    have "queue_fits cap v" using w 4 by (auto simp: within_bound_iff queue_fits_def moves_def)
    then show ?thesis using 4(4) push_room_fits len by (simp add: requeue_failed_events_def)
  qed (use w in \<open>auto simp: within_bound_iff queue_fits_def moves_def\<close>)
  have "\<forall>(items, _) \<in> set ((under_way w)[i := (items, attempt + 1)]). length items \<le> cap"
    using w len set_update_subset_insert [of "under_way w" i "(items, attempt + 1)"]
    by (auto simp: within_bound_def)
  with u w True i a set_remove_nth [of i "under_way w"] show ?thesis
    by (auto simp: within_bound_iff split: option.splits)
qed (use w in simp)

lemma bound_step:
  assumes "within_bound cap w" and "op_fits cap x"
  shows "within_bound cap (upload_step w x)"
proof (cases x)
  case (Enqueue q)
  then show ?thesis using assms enqueue_fits by (simp add: within_bound_iff op_fits_def)
next
  case (EnqueueMany qs)
  then show ?thesis using assms push_room_fits [of cap "up w" qs]
    by (auto simp: within_bound_iff op_fits_def enqueue_many_def queue_fits_def Let_def)
next
  case (Begin suppressed now)
  obtain st u where b: "flush_begin suppressed now (up w) = (st, u)" by fastforce
  show ?thesis by (cases rule: flush_begin_cases [OF b]) (use assms Begin b in \<open>auto simp: within_bound_def\<close>)
next
  case TakeDropped
  then show ?thesis using assms by (simp add: take_dropped_since_last_def within_bound_def)
qed (use assms bound_answer in simp)

interpretation bounded: guarded_machine upload_step "within_bound cap" "op_fits cap"
  by unfold_locales (rule bound_step)

section \<open>Properties\<close>


text \<open>
  Four events for a queue of two: the first pair is refused for good, one of the other two is
  dropped to make room and the last is acknowledged after a retry.
\<close>

definition queued_sample :: "string \<Rightarrow> QueuedUpload" where
  "queued_sample i =
     \<lparr>storage_id = i,
      payload = System \<lparr>system_event_id = i, system_event_type = NetworkChange, system_timestamp = 0, system_data = JNull\<rparr>\<rparr>"

definition busy_uploads :: "upload_op list" where
  "busy_uploads =
     [EnqueueMany [queued_sample ''a'', queued_sample ''b''], Begin False 0,
      Enqueue (queued_sample ''c''), Answer 0 (Inl (Rejected ''validation'')) 1,
      EnqueueMany [queued_sample ''d'', queued_sample ''e''], Begin False 2,
      Answer 0 (Inl (Network ''reset'')) 3, Answer 0 (Inr ()) 4]"

lemmas upload_eval = upload_world_new_def with_max_queue_size_def uploader_new_def MAX_UPLOAD_QUEUE_SIZE_def
  enqueue_def enqueue_many_def make_room_def drop_oldest_def push_all_def check_pressure_def
  flush_begin_def compute_batch_size_def http_breaker_new_def breaker_config_default_def breaker_check_def
  upload_answer_def is_retryable_def set_health_def breaker_success_def breaker_failure_def clear_window_def
  requeue_failed_events_def remove_nth_def check_elapsed_def self_heal_def admit_probe_def

lemma storage_id_sample [simp]: "storage_id (queued_sample i) = i"
  by (simp add: queued_sample_def)


section \<open>Limits\<close>

text \<open>A single call with more items than the bound leaves the queue above it.\<close>

theorem oversized_call_exceeds_bound:
  "queue_size (enqueue_many (map queued_sample [''a'', ''b'', ''c''])
     (with_max_queue_size 2 (uploader_new ''s'' 10 3))) = 3"
  by (simp add: upload_eval)

text \<open>
  Handing a failed batch back makes room at the front of the queue, so an event that was recorded
  while the batch was under way is dropped in favour of the older ones of the batch.
\<close>

theorem requeue_drops_the_newer:
  "map storage_id (upload_queue (up (foldl upload_step
       (upload_world_new (with_max_queue_size 2 (uploader_new ''s'' 10 0)))
       [Enqueue (queued_sample ''old''), Enqueue (queued_sample ''older''), Begin False 0,
        Enqueue (queued_sample ''new''), Answer 0 (Inl (Network ''reset'')) 1]))) = [''old'', ''older'']"
  by (simp add: upload_eval)

end
