(* ===== verification/Upload_Spool.thy ===== *)
theory Upload_Spool
  imports Upload_Ledger
begin

text \<open>
  The upload spool of \<open>src-tauri/src/scheduler/loops/network.rs\<close>: the table of events with its mark for
  what was sent, the upload queue, the producers of \<open>loops/events.rs\<close> and \<open>loops/monitor.rs\<close>, and the sync
  task, which puts unsent events back at its start, flushes at every tick, marks what the server
  acknowledged, and drains the queue at shutdown. The task is a program counter; every call that it
  awaits is a step, so that producers, an erasure and the end of the process come in between. What a
  step reads of the outside is its input. The sink is present; without one the task uploads nothing.
\<close>

section \<open>State\<close>

definition REPRIME_LIMIT :: nat where
  "REPRIME_LIMIT = 1000"

datatype sync_pc =
    Starting
  | Repriming "Event list" "string list"
  | Retiring "string list"
  | Selecting
  | Uploading bool "QueuedUpload list" nat
  | Marking bool "string list"
  | Draining
  | Upkeep
  | Ended

text \<open>
  The last four fields are ghosts: the events that were handed to the policy with the view it had and
  the item that came out, the items of every request, the ids that the server acknowledged and the
  events that were given up when they were put back.
\<close>

record spool =
  sp_store :: event_store
  sp_up :: BatchUploader
  sp_pc :: sync_pc
  sp_offers :: "Event list"
  server_health :: "bool option"
  prepared :: "(egress_view \<times> Event \<times> QueuedUpload) list"
  wire :: "QueuedUpload list"
  acked :: "string list"
  retired :: "(egress_view \<times> Event) list"

record sync_input =
  in_view :: egress_view
  in_cells :: cells
  in_fails :: bool
  in_fails_late :: bool
  in_now :: instant
  in_suppressed :: bool
  in_answer :: "upload_error + unit"
  in_cutoff :: instant
  in_shutdown :: bool

definition spool_new :: "event_store \<Rightarrow> BatchUploader \<Rightarrow> bool option \<Rightarrow> spool" where
  "spool_new g u health =
     \<lparr>sp_store = g, sp_up = u, sp_pc = Starting, sp_offers = [], server_health = health,
      prepared = [], wire = [], acked = [], retired = []\<rparr>"

section \<open>Steps\<close>

text \<open>The filtered payload travels with the id of the original event.\<close>

definition offer_event ::
  "event_env \<Rightarrow> PlatformEgressPolicy \<Rightarrow> egress_view \<Rightarrow> Event \<Rightarrow> spool \<Rightarrow> spool" where
  "offer_event env p v e s =
     (case prepare_event_for_upload p v e of
        Some upload_event \<Rightarrow>
          (let q = \<lparr>storage_id = storage_event_id env e, payload = upload_event\<rparr>
           in s\<lparr>sp_up := enqueue q (sp_up s), prepared := prepared s @ [(v, e, q)]\<rparr>)
      | None \<Rightarrow> s)"

definition begin_flush :: "bool \<Rightarrow> sync_input \<Rightarrow> spool \<Rightarrow> spool" where
  "begin_flush draining i s =
     (case flush_begin (in_suppressed i) (in_now i) (sp_up s) of
        (Sending items, u) \<Rightarrow> s\<lparr>sp_up := u, sp_pc := Uploading draining items 0\<rparr>
      | (Returned _, u) \<Rightarrow> s\<lparr>sp_up := u, sp_pc := (if draining then Ended else Upkeep)\<rparr>)"

definition server_answers ::
  "bool \<Rightarrow> QueuedUpload list \<Rightarrow> nat \<Rightarrow> sync_input \<Rightarrow> spool \<Rightarrow> spool" where
  "server_answers draining items attempt i s =
     (case upload_answer attempt items (in_answer i) (in_now i) (sp_up s) of
        (None, u) \<Rightarrow> s\<lparr>sp_up := u, sp_pc := Uploading draining items (attempt + 1), wire := wire s @ items\<rparr>
      | (Some (Inr sent_ids), u) \<Rightarrow>
          s\<lparr>sp_up := u, sp_pc := Marking draining sent_ids, wire := wire s @ items,
            acked := acked s @ sent_ids,
            server_health := (if draining then server_health s else map_option (\<lambda>_. True) (server_health s))\<rparr>
      | (Some (Inl _), u) \<Rightarrow>
          s\<lparr>sp_up := u, sp_pc := (if draining then Ended else Upkeep), wire := wire s @ items\<rparr>)"

fun sync_step :: "event_env \<Rightarrow> PlatformEgressPolicy \<Rightarrow> sync_pc \<Rightarrow> sync_input \<Rightarrow> spool \<Rightarrow> spool" where
  "sync_step env p Starting i s =
     (if egress_enabled p (in_view i)
      then (case get_pending_events env (in_cells i) (in_fails i) REPRIME_LIMIT (sp_store s) of
              Inl _ \<Rightarrow> s\<lparr>sp_pc := Selecting\<rparr>
            | Inr pending \<Rightarrow> s\<lparr>sp_pc := (if pending = [] then Selecting else Repriming pending [])\<rparr>)
      else s\<lparr>sp_pc := Selecting\<rparr>)"
| "sync_step env p (Repriming (e # es) ids) i s =
     (if prepare_event_for_upload p (in_view i) e = None
      then s\<lparr>sp_pc := Repriming es (ids @ [storage_event_id env e]),
             retired := retired s @ [(in_view i, e)]\<rparr>
      else (offer_event env p (in_view i) e s)\<lparr>sp_pc := Repriming es ids\<rparr>)"
| "sync_step env p (Repriming [] ids) i s = s\<lparr>sp_pc := (if ids = [] then Selecting else Retiring ids)\<rparr>"
| "sync_step env p (Retiring ids) i s =
     s\<lparr>sp_store := snd (mark_as_sent (in_cells i) (in_fails i) ids (sp_store s)), sp_pc := Selecting\<rparr>"
| "sync_step env p Selecting i s =
     (if egress_enabled p (in_view i) then begin_flush (in_shutdown i) i s
      else s\<lparr>sp_pc := (if in_shutdown i then Ended else Upkeep)\<rparr>)"
| "sync_step env p (Uploading draining items attempt) i s = server_answers draining items attempt i s"
| "sync_step env p (Marking draining ids) i s =
     s\<lparr>sp_store := snd (mark_as_sent (in_cells i) (in_fails i) ids (sp_store s)),
       sp_pc := (if draining then Draining else Upkeep)\<rparr>"
| "sync_step env p Draining i s = begin_flush True i s"
| "sync_step env p Upkeep i s =
     s\<lparr>sp_up := snd (take_dropped_since_last (sp_up s)),
       sp_store := snd (enforce_retention env (in_cells i) (in_fails i) (in_fails_late i) (in_cutoff i) (sp_store s)),
       sp_pc := Selecting\<rparr>"
| "sync_step env p Ended i s = s"

text \<open>
  A producer saves the event, whether or not that succeeds, and then offers it. \<open>Restart\<close> is the end of
  the process, at any point, and a new one with an uploader of its own over the same table. \<open>EraseEvents\<close>
  is the erasure as the table sees it.
\<close>

datatype spool_op =
    Sync sync_input
  | Save cells bool Event
  | Offer nat egress_view
  | Heartbeat egress_view bool
  | Restart BatchUploader
  | EraseEvents

fun spool_step :: "event_env \<Rightarrow> PlatformEgressPolicy \<Rightarrow> spool \<Rightarrow> spool_op \<Rightarrow> spool" where
  "spool_step env p s (Sync i) = sync_step env p (sp_pc s) i s"
| "spool_step env p s (Save h fails e) =
     s\<lparr>sp_store := snd (save_event env h fails e (sp_store s)), sp_offers := sp_offers s @ [e]\<rparr>"
| "spool_step env p s (Offer k v) =
     (if k < length (sp_offers s)
      then (offer_event env p v (sp_offers s ! k) s)\<lparr>sp_offers := remove_nth k (sp_offers s)\<rparr>
      else s)"
| "spool_step env p s (Heartbeat v reachable) =
     (if egress_enabled p v then s\<lparr>server_health := map_option (\<lambda>_. reachable) (server_health s)\<rparr> else s)"
| "spool_step env p s (Restart u) = s\<lparr>sp_up := u, sp_pc := Starting, sp_offers := []\<rparr>"
| "spool_step env p s EraseEvents = s\<lparr>sp_store := (sp_store s)\<lparr>conn := []\<rparr>\<rparr>"

end
