(* ===== verification/Pii_Address.thy ===== *)
theory Pii_Address
  imports Pii_Masking
begin

text \<open>
  When a masked text holds no e-mail address: the e-mail masker leaves none, and the other maskers,
  each an interpretation of the locale \<open>address_safe\<close>, make none.
\<close>

section \<open>Addresses\<close>

text \<open>
  An at sign is harmless when nothing that could be a local part stands before it, or nothing that
  could be a domain after it; a marker may stand after it.
\<close>

definition benign_left :: "char \<Rightarrow> bool" where
  "benign_left c \<longleftrightarrow> left_delim c \<or> c = CHR ''@''"

definition benign_right :: "char \<Rightarrow> bool" where
  "benign_right c \<longleftrightarrow> right_delim c \<or> c = CHR ''[''"

definition address_free :: "string \<Rightarrow> bool" where
  "address_free s \<longleftrightarrow>
     (\<forall>u l r v. s = u @ l # CHR ''@'' # r # v \<longrightarrow> benign_left l \<or> benign_right r)"

text \<open>The same as a recursion, in a context: whether what precedes and what follows is benign.\<close>

fun clean :: "bool \<Rightarrow> string \<Rightarrow> bool \<Rightarrow> bool" where
  "clean b [] e = True"
| "clean b (c # cs) e =
     ((c = CHR ''@'' \<longrightarrow> b \<or> (if cs = [] then e else benign_right (hd cs))) \<and> clean (benign_left c) cs e)"

definition right_context :: "string \<Rightarrow> bool \<Rightarrow> bool" where
  "right_context s e \<longleftrightarrow> (if s = [] then e else benign_right (hd s))"

definition left_context :: "bool \<Rightarrow> string \<Rightarrow> bool" where
  "left_context b s \<longleftrightarrow> (if s = [] then b else benign_left (last s))"

lemma clean_append:
  "clean b (xs @ ys) e \<longleftrightarrow> clean b xs (right_context ys e) \<and> clean (left_context b xs) ys e"
  by (induction xs arbitrary: b) (auto simp: right_context_def left_context_def)

lemma clean_mono: "clean b s e \<Longrightarrow> b \<longrightarrow> b' \<Longrightarrow> e \<longrightarrow> e' \<Longrightarrow> clean b' s e'"
proof (induction s arbitrary: b b')
  case (Cons c cs)
  from Cons.prems have "clean (benign_left c) cs e" by simp
  from Cons.IH [OF this] have "clean (benign_left c) cs e'" using Cons.prems by simp
  with Cons.prems show ?case by auto
qed simp

lemma clean_no_at: "CHR ''@'' \<notin> set s \<Longrightarrow> clean b s e"
  by (induction s arbitrary: b) auto

text \<open>What precedes matters only to a text that begins with an at sign.\<close>

lemma clean_start: "s = [] \<or> hd s \<noteq> CHR ''@'' \<Longrightarrow> clean b s e = clean b' s e"
  by (cases s) auto

lemma clean_address_free: "clean True s True \<Longrightarrow> address_free s"
  by (auto simp: address_free_def clean_append left_context_def)

subsection \<open>The e-mail masker\<close>

abbreviation domain_of :: "string \<Rightarrow> string" where
  "domain_of s \<equiv> takeWhile (Not \<circ> right_delim) s"

lemma domain_empty: "domain_of s = [] \<longleftrightarrow> s = [] \<or> right_delim (hd s)"
  by (cases s) auto

lemma domain_rest: "drop (length (domain_of s)) s = [] \<or> right_delim (hd (drop (length (domain_of s)) s))"
  using hd_dropWhile [of "Not \<circ> right_delim" s] by (auto simp: dropWhile_eq_drop)

lemma hd_upto_delim: "list_ex left_delim s \<Longrightarrow> upto_delim s \<noteq> [] \<and> hd (upto_delim s) = hd s"
proof -
  assume "list_ex left_delim s"
  then have ne: "upto_delim s \<noteq> []" by (auto simp: upto_delim_def list_ex_iff dropWhile_eq_Nil_conv)
  have "s = upto_delim s @ after_delim s"
    by (metis after_delim_def rev_append rev_rev_ident takeWhile_dropWhile_id upto_delim_def)
  with ne show ?thesis by (metis hd_append2)
qed

lemma set_upto_delim: "set (upto_delim s) \<subseteq> set s"
  by (auto simp: upto_delim_def dest: set_dropWhileD)

lemma scan_email_hd:
  assumes "rest \<noteq> []" and "right_delim (hd rest)"
  shows "right_context (scan email_match prev rest) e"
proof (cases rest)
  case (Cons c cs)
  have "hd (takeWhile (\<lambda>c. c \<noteq> CHR ''@'') rest) = c" if "list_ex left_delim (takeWhile (\<lambda>c. c \<noteq> CHR ''@'') rest)"
    using that Cons by auto
  then show ?thesis
    using assms Cons hd_upto_delim [of "takeWhile (\<lambda>c. c \<noteq> CHR ''@'') rest"]
    by (auto simp: email_match_def Let_def right_context_def benign_right_def split: if_splits)
qed (use assms in simp)

text \<open>A character that is copied before an at sign with a domain after it is itself harmless.\<close>

lemma email_none_copies:
  assumes "email_match prev (c # CHR ''@'' # cs) = None" and "domain_of cs \<noteq> []"
  shows "benign_left c"
proof (rule ccontr)
  assume c: "\<not> benign_left c"
  then have "email_local prev [c] \<noteq> []" by (simp add: email_local_def benign_left_def)
  with assms c show False by (simp add: email_match_def benign_left_def)
qed

lemma scan_email_clean:
  assumes "rest \<noteq> [] \<and> hd rest = CHR ''@'' \<and> domain_of (tl rest) \<noteq> [] \<longrightarrow> b"
  shows "clean b (scan email_match prev rest) True"
  using assms
proof (induction email_match prev rest arbitrary: b rule: scan.induct)
  case (2 prev c cs)
  let ?lead = "takeWhile (\<lambda>c. c \<noteq> CHR ''@'') (c # cs)"
  show ?case
  proof (cases "email_match prev (c # cs)")
    case None
    have "cs \<noteq> [] \<and> hd cs = CHR ''@'' \<and> domain_of (tl cs) \<noteq> [] \<longrightarrow> benign_left c"
    proof (intro impI)
      assume h: "cs \<noteq> [] \<and> hd cs = CHR ''@'' \<and> domain_of (tl cs) \<noteq> []"
      then have "c # cs = c # CHR ''@'' # tl cs" by (metis list.collapse)
      with None h show "benign_left c" using email_none_copies by metis
    qed
    then have "clean (benign_left c) (scan email_match (c # prev) cs) True" by (rule 2(1) [OF None])
    moreover have "b \<or> right_context (scan email_match (c # prev) cs) True" if c: "c = CHR ''@''"
    proof (cases "domain_of cs = []")
      case True
      then show ?thesis
        using scan_email_hd [of cs "c # prev" True] by (cases "cs = []") (simp_all add: domain_empty right_context_def)
    next
      case False
      then show ?thesis using 2(3) c by simp
    qed
    ultimately show ?thesis using None by (auto simp: right_context_def)
  next
    case (Some r)
    obtain n out where r: "r = (n, out)" by fastforce
    define d where "d = domain_of (drop (length ?lead + 1) (c # cs))"
    from Some r have n: "n = length ?lead + 1 + length d"
      and out: "out = (if list_ex left_delim ?lead then upto_delim ?lead else []) @ ''[EMAIL]''"
      by (auto simp: email_match_def Let_def d_def split: if_splits)
    have "CHR ''@'' \<notin> set out"
      using set_upto_delim [of ?lead] by (auto simp: out dest: set_takeWhileD)
    then have "clean b out e" for e by (rule clean_no_at)
    moreover have rest: "drop (n - 1) cs = drop (length d) (drop (length ?lead + 1) (c # cs))"
      by (simp add: n add.commute)
    then have "drop (n - 1) cs = [] \<or> hd (drop (n - 1) cs) \<noteq> CHR ''@''"
      using domain_rest [of "drop (length ?lead + 1) (c # cs)"] unfolding d_def
      by (auto simp: right_delim_def is_space_def)
    then have "clean b' (scan email_match (rev (take n (c # cs)) @ prev) (drop (n - 1) cs)) True" for b'
      by (intro 2(2) [OF Some r [symmetric]]) auto
    ultimately show ?thesis using Some r by (simp add: clean_append)
  qed
qed simp

subsection \<open>Maskers that cannot make an address\<close>

text \<open>
  A masker keeps a text free of addresses when each match is copied, or is replaced by a text
  without at signs that begins as harmlessly as the match did and, where an at sign follows, ends as
  harmlessly.
\<close>

locale address_safe =
  fixes m :: matcher
  assumes consumes: "m prev rest = Some (n, out) \<Longrightarrow> rest \<noteq> [] \<Longrightarrow> 0 < n"
    and replaces: "m prev rest = Some (n, out) \<Longrightarrow> rest \<noteq> [] \<Longrightarrow>
      out = take n rest \<or>
      out \<noteq> [] \<and> CHR ''@'' \<notin> set out \<and> (benign_right (hd rest) \<longrightarrow> benign_right (hd out)) \<and>
      (followed_by (\<lambda>c. c = CHR ''@'') (drop n rest) \<longrightarrow> \<not> benign_left (last (take n rest)))"
begin

lemma scan_unfold_Some:
  assumes "rest \<noteq> []" and "m prev rest = Some (n, out)"
  shows "scan m prev rest = out @ scan m (rev (take n rest) @ prev) (drop n rest)"
  using assms consumes [OF assms(2,1)] by (cases rest; cases n) auto

lemma scan_hd:
  assumes "rest \<noteq> []" and "benign_right (hd rest)"
  shows "right_context (scan m prev rest) e"
proof (cases "m prev rest")
  case None
  then show ?thesis using assms by (cases rest) (auto simp: right_context_def)
next
  case (Some r)
  obtain n out where r: "r = (n, out)" by fastforce
  have "out \<noteq> [] \<and> benign_right (hd out)"
    using replaces [OF Some [unfolded r] assms(1)] consumes [OF Some [unfolded r] assms(1)] assms
    by (cases rest; cases n) auto
  then show ?thesis using scan_unfold_Some [OF assms(1) Some [unfolded r]] by (simp add: right_context_def)
qed

lemma scan_context: "right_context rest e \<Longrightarrow> right_context (scan m prev rest) e"
proof (cases "rest = []")
  case False
  assume "right_context rest e"
  with False have "benign_right (hd rest)" by (simp add: right_context_def)
  from scan_hd [OF False this] show ?thesis .
qed (simp add: right_context_def)

lemma scan_clean:
  assumes "clean b rest e" and "rest \<noteq> [] \<and> hd rest = CHR ''@'' \<and> b \<longrightarrow> b'"
  shows "clean b' (scan m prev rest) e"
  using assms
proof (induction "length rest" arbitrary: prev rest b b' rule: less_induct)
  case less
  show ?case
  proof (cases rest)
    case (Cons c cs)
    show ?thesis
    proof (cases "m prev rest")
      case None
      have "clean (benign_left c) (scan m (c # prev) cs) e"
        using less(1) [of cs "benign_left c" "benign_left c"] less(2) Cons by simp
      moreover have "b' \<or> right_context (scan m (c # prev) cs) e" if "c = CHR ''@''"
      proof -
        have "b \<or> right_context cs e" using that less(2) Cons by (simp add: right_context_def)
        then show ?thesis using that less(3) Cons scan_context [of cs e "c # prev"] by auto
      qed
      ultimately show ?thesis using None Cons by (auto simp: right_context_def)
    next
      case (Some r)
      obtain n out where r: "r = (n, out)" by fastforce
      let ?seg = "take n rest" and ?r = "drop n rest"
      let ?t = "scan m (rev ?seg @ prev) ?r"
      have ne: "rest \<noteq> []" and n: "0 < n" using Cons consumes [OF Some [unfolded r]] by auto
      have seg: "clean b ?seg (right_context ?r e)" and r': "clean (benign_left (last ?seg)) ?r e"
        using less(2) clean_append [of b ?seg ?r e] ne n by (auto simp: left_context_def)
      have len: "length ?r < length rest" using ne n by simp
      have goal: "clean b' out (right_context ?t e) \<and> clean (left_context b' out) ?t e"
      proof (cases "out = ?seg")
        case True
        have "clean b' ?seg (right_context ?r e)"
          using less(3) clean_mono [OF seg, of b'] clean_start [of ?seg b "right_context ?r e" b'] seg Cons n
          by (cases n) auto
        then have "clean b' ?seg (right_context ?t e)"
          using clean_mono scan_context by blast
        with True less(1) [OF len r', of "benign_left (last ?seg)"] ne n show ?thesis
          by (simp add: left_context_def)
      next
        case False
        with replaces [OF Some [unfolded r] ne]
        have o: "out \<noteq> []" "CHR ''@'' \<notin> set out"
          "followed_by (\<lambda>c. c = CHR ''@'') ?r \<longrightarrow> \<not> benign_left (last ?seg)" by auto
        have "clean (benign_left (last out)) ?t e"
          by (rule less(1) [OF len r']) (use o(3) in \<open>auto simp: followed_by_def\<close>)
        then show ?thesis using o clean_no_at by (simp add: left_context_def)
      qed
      then show ?thesis using scan_unfold_Some [OF ne Some [unfolded r]] by (simp add: clean_append)
    qed
  qed simp
qed

lemma keeps_clean: "clean True text True \<Longrightarrow> clean True (scan m [] text) True"
  by (rule scan_clean) auto

end

subsection \<open>The maskers\<close>

text \<open>Each matcher consumes something, and its last character is one of a number or a token.\<close>

lemmas delim_defs = benign_left_def benign_right_def left_delim_def right_delim_def is_space_def

lemma digit_not_benign:
  "ascii_digit c \<Longrightarrow> \<not> benign_left c" "ascii_alphanumeric c \<Longrightarrow> \<not> benign_left c"
  "ascii_hexdigit c \<Longrightarrow> \<not> benign_left c" "\<not> benign_left (CHR '':'')"
  by (auto simp: delim_defs ascii_digit_def ascii_alphanumeric_def ascii_hexdigit_def less_eq_char_def)

lemma alnum_digit: "ascii_digit c \<Longrightarrow> ascii_alphanumeric c"
  by (simp add: ascii_alphanumeric_def)

lemma ipv4_octets_end:
  "ipv4_octets k i s = Some j \<Longrightarrow> i \<le> j \<and> j \<le> i + length s \<and>
     (0 < k \<longrightarrow> i < j \<and> ascii_digit (s ! (j - i - 1)))"
proof (induction k i s arbitrary: j rule: ipv4_octets.induct)
  case (2 k i s)
  let ?ds = "takeWhile ascii_digit s"
  let ?r = "drop (length ?ds) s"
  have ds: "?ds \<noteq> []" using 2(3) by (auto split: if_splits)
  have le: "length ?ds \<le> length s" by (rule length_takeWhile_le)
  have last: "ascii_digit (s ! (length ?ds - 1))"
    using ds nth_mem [of "length ?ds - 1" ?ds] set_takeWhileD [of _ ascii_digit s]
    by (simp add: takeWhile_nth)
  show ?case
  proof (cases "k = 0")
    case True
    then have "j = i + length ?ds" using 2(3) by (auto simp: Let_def split: if_splits)
    then show ?thesis using ds le last by simp
  next
    case False
    then have dot: "?r \<noteq> []" and rec: "ipv4_octets k (i + length ?ds + 1) (tl ?r) = Some j"
      using 2(3) by (auto simp: Let_def followed_by_def split: if_splits)
    from 2(2) [OF refl refl _ _ _ rec] 2(3) False
    have "i + length ?ds + 1 < j \<and> j \<le> i + length ?ds + 1 + length (tl ?r) \<and>
        ascii_digit (tl ?r ! (j - (i + length ?ds + 1) - 1))"
      by (auto simp: Let_def split: if_splits)
    moreover have "tl ?r ! (j - (i + length ?ds + 1) - 1) = s ! (j - i - 1)"
      if "i + length ?ds + 1 < j" "j \<le> i + length ?ds + 1 + length (tl ?r)"
    proof -
      have "tl ?r ! k = s ! (length ?ds + 1 + k)" if "k < length (tl ?r)" for k
        using that dot by (simp add: nth_tl)
      moreover have "length ?ds + 1 + (j - (i + length ?ds + 1) - 1) = j - i - 1"
        "j - (i + length ?ds + 1) - 1 < length (tl ?r)" using that by linarith+
      ultimately show ?thesis by metis
    qed
    ultimately show ?thesis using dot by auto
  qed
qed (simp split: if_splits)

lemma phone_loop_end:
  "phone_loop d s dot i e cs = (d', s', dot', e') \<Longrightarrow>
     d' = d \<and> e' = e \<or> i < e' \<and> e' \<le> i + length cs \<and> ascii_digit (cs ! (e' - i - 1))"
proof (induction d s dot i e cs rule: phone_loop.induct)
  case (2 d s dot i e c cs)
  then show ?case
    by (auto split: if_splits simp: nth_Cons')
qed simp

lemma card_run_end:
  "card_run d i cs = (d', n) \<Longrightarrow> i \<le> n \<and> n \<le> i + length cs \<and>
     (followed_by ascii_digit cs \<longrightarrow> i < n) \<and> (i < n \<longrightarrow> ascii_digit (cs ! (n - i - 1)))"
proof (induction d i cs rule: card_run.induct)
  case (2 d i c cs)
  then show ?case
    by (auto split: if_splits simp: nth_Cons' followed_by_def)
qed (simp add: followed_by_def)

lemma iban_body_end:
  "iban_body p a i s = (a', j) \<Longrightarrow>
     a' = a \<and> j = i \<or> i < j \<and> j \<le> i + length s \<and> ascii_alphanumeric (s ! (j - i - 1))"
proof (induction p a i s arbitrary: a' j rule: iban_body.induct)
  case (1 p a i s)
  note eq = 1(2) [unfolded iban_body.simps [of p a i s]]
  define sep where "sep = followed_by (\<lambda>c. c = CHR '' '' \<or> c = CHR ''-'') s"
  define s' where "s' = (if sep then tl s else s)"
  define i' where "i' = (if sep then i + 1 else i)"
  define run where "run = takeWhile ascii_alphanumeric s'"
  show ?case
  proof (cases "sep \<and> \<not> (p = 4 \<and> followed_by ascii_alphanumeric (tl s)) \<or> run = []")
    case True
    then show ?thesis using eq
      by (auto simp: sep_def s'_def run_def Let_def split: if_splits)
  next
    case False
    then have rec: "iban_body (length run) (a + length run) (i' + length run) (drop (length run) s') = (a', j)"
      using eq by (auto simp: sep_def s'_def i'_def run_def Let_def split: if_splits)
    have run: "run \<noteq> []" "length run \<le> length s'" using False by (auto simp: run_def length_takeWhile_le)
    have last: "ascii_alphanumeric (s' ! (length run - 1))"
      using run(1) nth_mem [of "length run - 1" run] set_takeWhileD [of _ ascii_alphanumeric s']
      by (simp add: run_def takeWhile_nth)
    have "a' = a + length run \<and> j = i' + length run \<or> i' + length run < j \<and>
        j \<le> i' + length run + length (drop (length run) s') \<and>
        ascii_alphanumeric (drop (length run) s' ! (j - (i' + length run) - 1))"
      using 1(1) [OF sep_def refl s'_def i'_def run_def _ rec] False by blast
    then have "i' < j \<and> j \<le> i' + length s' \<and> ascii_alphanumeric (s' ! (j - i' - 1))"
    proof (elim disjE conjE)
      assume "j = i' + length run"
      then show ?thesis using run last by (cases run) auto
    next
      assume a: "i' + length run < j" "j \<le> i' + length run + length (drop (length run) s')"
        "ascii_alphanumeric (drop (length run) s' ! (j - (i' + length run) - 1))"
      then have "length run + (j - (i' + length run) - 1) = j - i' - 1" by linarith
      with a run(2) show ?thesis by simp
    qed
    moreover have "sep \<longrightarrow> s \<noteq> []" by (simp add: sep_def followed_by_def)
    ultimately show ?thesis
      by (cases s) (auto simp: s'_def i'_def nth_Cons' split: if_splits)
  qed
qed

lemma ipv6_loop_end:
  "ipv6_loop colons dbl gd g i s = Some (c', d', gd', g', j) \<Longrightarrow>
     c' = colons \<and> d' = dbl \<and> j = i \<or>
     j = i + (j - i) \<and> j \<le> i + length s \<and> i \<le> j \<and>
     (i < j \<longrightarrow> ascii_hexdigit (s ! (j - i - 1)) \<or> s ! (j - i - 1) = CHR '':'') \<and>
     (i = j \<longrightarrow> c' = colons \<and> d' = dbl)"
proof (induction colons dbl gd g i s rule: ipv6_loop.induct)
  case (2 colons dbl gd g i c cs)
  then show ?case
    by (cases cs) (auto simp: Let_def followed_by_def nth_Cons' split: if_splits)
qed simp

lemma last_take: "0 < n \<Longrightarrow> n \<le> length s \<Longrightarrow> last (take n s) = s ! (n - 1)"
  by (cases s) (auto simp: last_conv_nth)

lemma bracket_benign [simp]: "benign_right (CHR ''['')"
  by (simp add: benign_right_def)

lemma ends_solid:
  "0 < n \<Longrightarrow> n \<le> length rest \<Longrightarrow> \<not> benign_left (rest ! (n - 1)) \<Longrightarrow> \<not> benign_left (last (take n rest))"
  by (simp add: last_take)

lemma try_parse_ipv4_end:
  assumes "try_parse_ipv4 rest = Some (n, v)"
  shows "0 < n" and "\<not> benign_left (last (take n rest))"
proof -
  from assms have "ipv4_octets 4 0 rest = Some n" by (auto simp: try_parse_ipv4_def)
  from ipv4_octets_end [OF this] have e: "0 < n" "n \<le> length rest" "ascii_digit (rest ! (n - 1))" by auto
  then show "0 < n" "\<not> benign_left (last (take n rest))" by (simp_all add: ends_solid digit_not_benign)
qed

lemma find_phone_number_end_end:
  assumes "find_phone_number_end rest = Some n"
  shows "0 < n" and "\<not> benign_left (last (take n rest))"
proof -
  define plus where "plus = followed_by (\<lambda>c. c = CHR ''+'') rest"
  define i where "i = (if plus then 1 else 0 :: nat)"
  define cs where "cs = (if plus then tl rest else rest)"
  obtain d s dot e where l: "phone_loop 0 0 False i 0 cs = (d, s, dot, e)" by (metis prod_cases4)
  have n: "n = e" and d: "0 < d" using assms l
    by (auto simp: find_phone_number_end_def plus_def [symmetric] i_def cs_def split: if_splits)
  from phone_loop_end [OF l] d have e: "i < e" "e \<le> i + length cs" "ascii_digit (cs ! (e - i - 1))" by auto
  have "e \<le> length rest \<and> rest ! (e - 1) = cs ! (e - i - 1)"
    using e(1,2) by (cases rest) (auto simp: cs_def i_def plus_def followed_by_def nth_Cons' split: if_splits)
  with e n show "0 < n" "\<not> benign_left (last (take n rest))" by (auto simp: ends_solid digit_not_benign)
qed

interpretation phone: address_safe phone_match
proof (unfold_locales, goal_cases)
  case (1 prev rest n out)
  then show ?case using try_parse_ipv4_end(1) find_phone_number_end_end(1)
    by (auto simp: phone_match_def split: option.splits if_splits)
next
  case (2 prev rest n out)
  then show ?case using find_phone_number_end_end(2) [of rest n]
    by (auto simp: phone_match_def split: option.splits if_splits)
qed

lemma try_parse_ipv6_end:
  assumes "try_parse_ipv6 prev rest = Some n"
  shows "0 < n" and "\<not> benign_left (last (take n rest))"
proof -
  obtain c d gd g where l: "ipv6_loop 0 False 0 0 0 rest = Some (c, d, gd, g, n)" and cd: "7 \<le> c \<or> d"
    using assms by (auto simp: try_parse_ipv6_def Let_def split: if_splits option.splits)
  from ipv6_loop_end [OF l] cd
  have "0 < n" "n \<le> length rest" "ascii_hexdigit (rest ! (n - 1)) \<or> rest ! (n - 1) = CHR '':''" by auto
  then show "0 < n" "\<not> benign_left (last (take n rest))" using digit_not_benign(3,4) by (auto simp: ends_solid)
qed

interpretation ip: address_safe ip_match
proof (unfold_locales, goal_cases)
  case (1 prev rest n out)
  then show ?case using try_parse_ipv4_end(1) try_parse_ipv6_end(1)
    by (auto simp: ip_match_def split: option.splits if_splits bool.splits)
next
  case (2 prev rest n out)
  then show ?case using try_parse_ipv4_end(2) [of rest n] try_parse_ipv6_end(2) [of prev rest n]
    by (auto simp: ip_match_def split: option.splits if_splits bool.splits)
qed

interpretation card: address_safe card_match
proof (unfold_locales, goal_cases)
  case (1 prev rest n out)
  then show ?case using card_run_end [of 0 0 rest]
    by (auto simp: card_match_def split: if_splits prod.splits)
next
  case (2 prev rest n out)
  obtain d k where r: "card_run 0 0 rest = (d, k)" by fastforce
  from 2 r have k: "n = k" "out = ''[CARD]'' \<or> out = take n rest" "followed_by ascii_digit rest"
    by (auto simp: card_match_def split: if_splits)
  from card_run_end [OF r] k have "\<not> benign_left (last (take n rest))"
    by (simp add: ends_solid digit_not_benign)
  with k show ?case by auto
qed

interpretation ssn: address_safe ssn_match
proof (unfold_locales, goal_cases)
  case (1 prev rest n out)
  then show ?case by (auto simp: ssn_match_def ssn_match_len_def split: if_splits)
next
  case (2 prev rest n out)
  then have n: "ssn_match_len prev rest = Some n" "out = ''[SSN]''" by (auto simp: ssn_match_def split: if_splits)
  then have "0 < n" "n \<le> length rest" "ascii_digit (rest ! (n - 1))"
    by (auto simp: ssn_match_len_def digit_at_def split: if_splits)
  with n show ?case by (simp add: ends_solid digit_not_benign)
qed

interpretation passport: address_safe passport_match
proof (unfold_locales, goal_cases)
  case (1 prev rest n out)
  then show ?case by (auto simp: passport_match_def Let_def split: if_splits)
next
  case (2 prev rest n out)
  then obtain c cs where rest: "rest = c # cs" by (cases rest) auto
  define ds where "ds = takeWhile ascii_digit cs"
  from 2 have n: "n = 1 + length ds" "out = ''[PASSPORT]''" "length ds \<noteq> 0"
    by (auto simp: passport_match_def Let_def rest ds_def split: if_splits)
  have "last (take n rest) = last ds"
    using n by (simp add: rest ds_def takeWhile_eq_take [symmetric])
  moreover have "ascii_digit (last ds)" using n(3) set_takeWhileD [of "last ds" ascii_digit cs]
    by (simp add: ds_def)
  ultimately show ?case using n by (simp add: digit_not_benign)
qed

lemma try_parse_iban_end:
  assumes "try_parse_iban prev rest = Some (n, keep)"
  shows "keep = 4" and "0 < n" and "\<not> benign_left (last (take n rest))" and "CHR ''@'' \<notin> set (take 4 rest)"
    and "take 4 rest \<noteq> []"
proof -
  obtain a where l: "iban_body 4 0 4 (drop 4 rest) = (a, n)" and a: "11 \<le> a" and keep: "keep = 4"
    and len: "15 \<le> length rest"
    using assms by (auto simp: try_parse_iban_def split: if_splits prod.splits)
  from iban_body_end [OF l] a
  have e: "4 < n" "n \<le> 4 + length (drop 4 rest)" "ascii_alphanumeric (drop 4 rest ! (n - 4 - 1))" by auto
  then have "n \<le> length rest" "ascii_alphanumeric (rest ! (n - 1))" using len by (auto simp: algebra_simps)
  with e keep show "keep = 4" "0 < n" "\<not> benign_left (last (take n rest))"
    by (simp_all add: ends_solid digit_not_benign)
  have "take 4 rest = [rest ! 0, rest ! 1, rest ! 2, rest ! 3]"
    using len by (cases rest; cases "tl rest"; cases "tl (tl rest)"; cases "tl (tl (tl rest))")
      (auto simp: numeral_eq_Suc)
  moreover have "ascii_uppercase (rest ! 0)" "ascii_uppercase (rest ! 1)" "ascii_digit (rest ! 2)" "ascii_digit (rest ! 3)"
    using assms by (auto simp: try_parse_iban_def split: if_splits)
  ultimately have "\<forall>c \<in> set (take 4 rest). ascii_uppercase c \<or> ascii_digit c" by simp
  moreover have "\<not> (ascii_uppercase (CHR ''@'') \<or> ascii_digit (CHR ''@''))" by code_simp
  ultimately show "CHR ''@'' \<notin> set (take 4 rest)" by blast
  show "take 4 rest \<noteq> []" using len by auto
qed

interpretation iban: address_safe iban_match
proof (unfold_locales, goal_cases)
  case (1 prev rest n out)
  then show ?case using try_parse_iban_end(2) by (auto simp: iban_match_def)
next
  case (2 prev rest n out)
  then obtain keep where k: "try_parse_iban prev rest = Some (n, keep)" "out = take keep rest @ ''[IBAN]''"
    by (auto simp: iban_match_def)
  from try_parse_iban_end [OF k(1)] k(2) have o: "out = take 4 rest @ ''[IBAN]''" "CHR ''@'' \<notin> set out"
    "hd out = hd rest" "\<not> benign_left (last (take n rest))" by (auto simp: hd_append hd_take)
  then show ?case by simp
qed

text \<open>A token ends where no at sign can stand.\<close>

lemma token_end: "\<not> followed_by (\<lambda>c. c = CHR ''@'') (drop (length (takeWhile (Not \<circ> key_terminator) s)) s)"
  using hd_dropWhile [of "Not \<circ> key_terminator" s]
  by (auto simp: dropWhile_eq_drop followed_by_def key_terminator_def is_space_def)

interpretation api_key: address_safe api_key_match
proof (unfold_locales, goal_cases)
  case (1 prev rest n out)
  then show ?case by (auto simp: api_key_match_def Let_def split: if_splits)
next
  case (2 prev rest n out)
  then show ?case using token_end [of "drop (matched_prefix_len rest) rest"]
    by (auto simp: api_key_match_def Let_def add.commute split: if_splits)
qed

interpretation bearer: address_safe bearer_match
proof (unfold_locales, goal_cases)
  case (1 prev rest n out)
  then show ?case by (auto simp: bearer_match_def Let_def split: if_splits)
next
  case (2 prev rest n out)
  have "\<not> benign_right (hd rest)" if "eq_ignore_ascii_case (take 7 rest) ''bearer ''"
  proof -
    from that \<open>rest \<noteq> []\<close> have "lower_ascii (hd rest) = lower_ascii (CHR ''b'')"
      by (cases rest) (auto simp: eq_ignore_ascii_case_def)
    moreover have "lower_ascii (CHR ''b'') = CHR ''b''" by code_simp
    ultimately have "lower_ascii (hd rest) = CHR ''b''" by simp
    then show ?thesis by (auto simp: delim_defs lower_ascii_def less_eq_char_def split: if_splits)
  qed
  with 2 token_end [of "drop 7 rest"] show ?case
    by (auto simp: bearer_match_def Let_def add.commute split: if_splits)
qed

lemma path_match_safe:
  assumes "prefix \<noteq> []" and "CHR ''@'' \<notin> set (map lower_ascii prefix)" and "sep \<noteq> CHR ''@''"
  shows "address_safe (path_match prefix sep True)"
proof (unfold_locales, goal_cases)
  case (1 prev rest n out)
  then show ?case using assms(1) by (auto simp: path_match_def Let_def split: if_splits)
next
  case (2 prev rest n out)
  let ?home = "take (length prefix) rest" and ?after = "drop (length prefix) rest"
  let ?user = "takeWhile (\<lambda>c. \<not> (c = sep \<or> is_space c)) ?after"
  show ?case
  proof (cases "out = take n rest")
    case False
    with 2 have o: "out = ?home @ ''[USER]''" "n = length prefix + length ?user"
      and same: "map lower_ascii ?home = map lower_ascii prefix"
      by (auto simp: path_match_def same_text_def eq_ignore_ascii_case_def Let_def split: if_splits)
    have "CHR ''@'' \<notin> set ?home"
    proof
      assume "CHR ''@'' \<in> set ?home"
      then have "lower_ascii (CHR ''@'') \<in> set (map lower_ascii ?home)" by auto
      with assms(2) same show False by (simp add: lower_ascii_def less_eq_char_def)
    qed
    moreover have "\<not> followed_by (\<lambda>c. c = CHR ''@'') (drop n rest)"
      using hd_dropWhile [of "\<lambda>c. \<not> (c = sep \<or> is_space c)" ?after] assms(3)
      by (auto simp: o(2) dropWhile_eq_drop followed_by_def is_space_def add.commute)
    moreover have "hd out = hd rest" using assms(1) 2(2) by (cases rest; cases prefix) (auto simp: o(1))
    ultimately show ?thesis using o(1) by auto
  qed simp
qed

interpretation unix_users: address_safe "path_match ''/Users/'' (CHR ''/'') True"
  by (rule path_match_safe) code_simp+

interpretation unix_home: address_safe "path_match ''/home/'' (CHR ''/'') True"
  by (rule path_match_safe) code_simp+

interpretation windows_users: address_safe "path_match users_dir (CHR 0x5C) True"
  by (rule path_match_safe) code_simp+

end
