(* ===== verification/Pii_Properties.thy ===== *)
theory Pii_Properties
  imports Pii_Address
begin

text \<open>
  What the redaction removes: no e-mail address leaves the filter at any level that filters, the card
  masker removes exactly the runs of a card's length, and where the maskers stop short of what their
  comments say.
\<close>

section \<open>Entropy in whole numbers\<close>

definition entropy_reaches :: "nat \<Rightarrow> string \<Rightarrow> bool" where
  "entropy_reaches b token \<longleftrightarrow>
     (let n = length token
      in 2 ^ (b * n) * prod_list (map (\<lambda>c. int (count_list token c) ^ count_list token c) (remdups token))
           \<le> int n ^ n)"

lemma sum_count_list: "sum_list (map (count_list xs) (remdups xs)) = length xs"
proof -
  have "sum_list (map (count_list xs) (remdups xs)) = (\<Sum>c \<in> set xs. count_list xs c)"
    by (simp add: sum_list_distinct_conv_sum_set)
  also have "\<dots> = length xs" by (simp add: sum_count_set)
  finally show ?thesis .
qed

lemma log_prod_list:
  assumes "\<forall>c \<in> set cs. 0 < f c"
  shows "log 2 (real (prod_list (map f cs))) = sum_list (map (\<lambda>c. log 2 (real (f c))) cs) \<and>
    0 < prod_list (map f cs)"
  using assms by (induction cs) (auto simp: log_mult)

lemma int_prod_list: "int (prod_list (map f cs)) = prod_list (map (\<lambda>c. int (f c)) cs)"
  by (induction cs) auto

lemma entropy_in_bits:
  fixes f :: "'a \<Rightarrow> nat" and n :: nat
  assumes "0 < n" and "\<forall>c \<in> set cs. 0 < f c"
  shows "real n * sum_list (map (\<lambda>c. let p = real (f c) / real n in - p * log 2 p) cs) =
    real (sum_list (map f cs)) * log 2 (real n) - sum_list (map (\<lambda>c. log 2 (real (f c ^ f c))) cs)"
  using assms(2)
proof (induction cs)
  case Nil
  then show ?case by simp
next
  case (Cons c cs)
  have "real n * (- (real (f c) / real n) * log 2 (real (f c) / real n)) =
      real (f c) * log 2 (real n) - log 2 (real (f c ^ f c))"
    using Cons.prems assms(1) by (simp add: log_divide log_nat_power algebra_simps)
  with Cons show ?case by (simp add: Let_def algebra_simps)
qed

lemma entropy_reaches_iff:
  assumes "token \<noteq> []"
  shows "real b \<le> shannon_entropy_bits token \<longleftrightarrow> entropy_reaches b token"
proof -
  let ?n = "length token" and ?f = "count_list token" and ?cs = "remdups token"
  let ?P = "prod_list (map (\<lambda>c. ?f c ^ ?f c) ?cs)"
  have pos: "\<forall>c \<in> set ?cs. 0 < ?f c" "0 < ?n" using assms by (auto simp: count_list_0_iff intro: gr0I)
  have P: "log 2 (real ?P) = sum_list (map (\<lambda>c. log 2 (real (?f c ^ ?f c))) ?cs)" "0 < ?P"
    using log_prod_list [of ?cs "\<lambda>c. ?f c ^ ?f c"] pos by auto
  have S: "real ?n * shannon_entropy_bits token = real ?n * log 2 (real ?n) - log 2 (real ?P)"
    using entropy_in_bits [of ?n ?cs ?f] pos assms P(1)
    by (simp add: shannon_entropy_bits_def sum_count_list)
  have "real b \<le> shannon_entropy_bits token \<longleftrightarrow> real ?n * real b \<le> real ?n * shannon_entropy_bits token"
    using pos(2) by simp
  also have "\<dots> \<longleftrightarrow> real ?n * real b + log 2 (real ?P) \<le> real ?n * log 2 (real ?n)"
    unfolding S by linarith
  also have "real ?n * real b + log 2 (real ?P) = log 2 (real (2 ^ (b * ?n) * ?P))"
    using P(2) by (simp add: log_mult log_nat_power)
  also have "real ?n * log 2 (real ?n) = log 2 (real (?n ^ ?n))"
    using pos(2) by (simp add: log_nat_power)
  also have "log 2 (real (2 ^ (b * ?n) * ?P)) \<le> log 2 (real (?n ^ ?n)) \<longleftrightarrow> 2 ^ (b * ?n) * ?P \<le> ?n ^ ?n"
    using P(2) pos(2) by (subst log_le_cancel_iff) (auto simp flip: of_nat_mult of_nat_power)
  also have "\<dots> \<longleftrightarrow> int (2 ^ (b * ?n) * ?P) \<le> int (?n ^ ?n)" by (rule zle_int [symmetric])
  also have "int (2 ^ (b * ?n) * ?P) =
      2 ^ (b * ?n) * prod_list (map (\<lambda>c. int (?f c) ^ ?f c) ?cs)"
    by (simp add: int_prod_list)
  finally show ?thesis by (simp add: entropy_reaches_def Let_def)
qed

lemma looks_like_high_entropy_secret_code [code]:
  "looks_like_high_entropy_secret token \<longleftrightarrow>
     \<not> list_ex (\<lambda>c. c = CHR ''/'' \<or> c = CHR 0x5C \<or> c = CHR ''['' \<or> c = CHR '':'') token \<and>
     (let core = trim_punctuation token
      in MIN_SECRET_LEN \<le> length core \<and> MIN_SECRET_CHAR_CLASSES \<le> character_class_count core \<and>
         entropy_reaches 3 core)"
proof (cases "trim_punctuation token = []")
  case True
  then show ?thesis by (simp add: looks_like_high_entropy_secret_def MIN_SECRET_LEN_def)
next
  case False
  from entropy_reaches_iff [OF this, of 3] show ?thesis
    by (simp add: looks_like_high_entropy_secret_def MIN_SECRET_ENTROPY_BITS_def Let_def)
qed

section \<open>The maskers that are not scans\<close>

subsection \<open>Resident numbers\<close>

lemma rev_take_off: "\<exists>z. rev rout = rev (take_off n rout) @ z"
  unfolding take_off_def by (metis append_take_drop_id rev_append append_Nil2)

lemma korean_match_clean:
  assumes c: "clean True (rev rout @ c # ds @ r) True" and ds: "ds \<noteq> []" "list_all ascii_digit ds"
  shows "clean True (rev (take_off n rout) @ ''[KR_ID]'' @ r) True"
proof -
  have "ascii_digit (last ds)" using ds by (simp add: list_all_iff)
  then have "left_context True (rev rout @ c # ds) = False"
    using ds(1) digit_not_benign(1) by (simp add: left_context_def)
  then have r: "clean False r True"
    using c clean_append [of True "rev rout @ c # ds" r True] by simp
  obtain z where "rev rout = rev (take_off n rout) @ z"
    using rev_take_off by blast
  then have "clean True (rev (take_off n rout) @ z @ c # ds @ r) True" using c by simp
  then have "clean True (rev (take_off n rout)) (right_context (z @ c # ds @ r) True)"
    unfolding clean_append by blast
  then have "clean True (rev (take_off n rout)) True" by (rule clean_mono) simp_all
  moreover have "clean b ''[KR_ID]'' e" for b e by (rule clean_no_at) simp
  moreover have "clean b r True" for b using r by (rule clean_mono) simp_all
  ultimately show ?thesis by (simp only: clean_append) (simp add: right_context_def)
qed

lemma korean_loop_clean:
  assumes "clean True (rev rout @ rest) True"
  shows "clean True (korean_loop prev rout rest) True"
  using assms
proof (induction prev rout rest rule: korean_loop.induct)
  case (2 prev rout c cs)
  let ?n = "length (takeWhile ascii_digit prev)" and ?ds = "takeWhile ascii_digit cs"
  show ?case
  proof (cases "c = CHR ''-'' \<and> 6 \<le> ?n \<and> 7 \<le> length ?ds")
    case True
    have "cs = ?ds @ drop (length ?ds) cs" by (metis append_take_drop_id takeWhile_eq_take)
    then have "clean True (rev rout @ c # ?ds @ drop (length ?ds) cs) True" using 2(3) by simp
    then have "clean True (rev (take_off ?n rout) @ ''[KR_ID]'' @ drop (length ?ds) cs) True"
      by (rule korean_match_clean) (use True in \<open>auto simp: list_all_iff dest: set_takeWhileD\<close>)
    then have "clean True (rev (rev ''[KR_ID]'' @ take_off ?n rout) @ drop (length ?ds) cs) True" by simp
    from 2(1) [OF refl refl True this] True show ?thesis by (simp add: Let_def)
  next
    case False
    have "clean True (rev (c # rout) @ cs) True" using 2(3) by simp
    from 2(2) [OF refl refl False this] False show ?thesis by (auto simp: Let_def)
  qed
qed simp

subsection \<open>Key blocks\<close>

lemma find_sub_splits:
  assumes "find_sub p s = Some i"
  shows "s = take i s @ p @ drop (i + length p) s"
  using assms
proof (induction s arbitrary: i)
  case Nil
  then show ?case by (auto split: if_splits)
next
  case (Cons c s)
  show ?case
  proof (cases "strip_prefix p (c # s)")
    case None
    then show ?thesis using Cons by auto
  next
    case (Some r)
    then have "i = 0" "take (length p) (c # s) = p" using Cons.prems by (auto simp: strip_prefix_def split: if_splits)
    then show ?thesis by (metis add_0 append_Nil append_take_drop_id take0)
  qed
qed

lemma pem_block_end_dash:
  "drop (pem_block_end s b label) s = [] \<or>
     0 < pem_block_end s b label \<and> pem_block_end s b label \<le> length s \<and> s ! (pem_block_end s b label - 1) = CHR ''-''"
proof (cases "find_sub (''-----END '' @ label @ ''-----'') (drop b s)")
  case None
  then show ?thesis by (simp add: pem_block_end_def)
next
  case (Some r)
  define mark where "mark = ''-----END '' @ label @ ''-----''"
  have e: "pem_block_end s b label = b + r + length mark"
    using Some by (simp add: pem_block_end_def mark_def)
  have bound: "r + length mark \<le> length (drop b s)" using find_sub_bound [OF Some] by (simp add: mark_def)
  have split: "drop b s = take r (drop b s) @ mark @ drop (r + length mark) (drop b s)"
    using find_sub_splits [OF Some] by (simp add: mark_def)
  have "drop b s ! (r + length mark - 1) = mark ! (length mark - 1)"
    by (subst split) (use bound in \<open>simp add: nth_append mark_def\<close>)
  also have "\<dots> = CHR ''-''" by (simp add: mark_def nth_append)
  finally have "s ! (b + r + length mark - 1) = CHR ''-''"
    using bound by (simp add: mark_def algebra_simps)
  moreover have "0 < length mark" "b + (r + length mark) \<le> length s" using bound by (auto simp: mark_def)
  ultimately show ?thesis unfolding e by linarith
qed

lemma pem_loop_cases:
  obtains "pem_loop s = s"
  | k where "0 < k" "k \<le> length s" "pem_loop s = take k s @ pem_loop (drop k s)"
  | k stop where "0 < stop" "s \<noteq> []" "pem_loop s = take k s @ ''[PRIVATE_KEY]'' @ pem_loop (drop stop s)"
      "drop stop s = [] \<or> stop \<le> length s \<and> s ! (stop - 1) = CHR ''-''"
proof -
  note eq = pem_loop.simps [of s]
  show thesis
  proof (cases "find_sub ''-----BEGIN '' s")
    case None
    then show thesis using eq that(1) by simp
  next
    case (Some b)
    have b: "b + 11 \<le> length s" using find_sub_bound [OF Some] by simp
    show thesis
    proof (cases "find_sub ''-----'' (drop (b + 11) s)")
      case None
      then show thesis using Some eq that(1) by simp
    next
      case h: (Some h)
      let ?label = "take h (drop (b + 11) s)"
      show thesis
      proof (cases "contains ?label ''PRIVATE KEY''")
        case True
        have "s \<noteq> []" using b by auto
        moreover have "pem_loop s = take b s @ ''[PRIVATE_KEY]'' @ pem_loop (drop (pem_block_end s b ?label) s)"
          using eq True Some h by simp
        ultimately show thesis using that(3) pem_block_end_pos pem_block_end_dash by blast
      next
        case False
        then show thesis using that(2) [of "b + 11"] b eq Some h by simp
      qed
    qed
  qed
qed

lemma pem_loop_clean:
  assumes "clean b s True" and "s \<noteq> [] \<and> hd s = CHR ''@'' \<and> b \<longrightarrow> b'"
  shows "clean b' (pem_loop s) True \<and> (right_context s True \<longrightarrow> right_context (pem_loop s) True)"
  using assms
proof (induction "length s" arbitrary: s b b' rule: less_induct)
  case less
  note ih = less(1)
  have s: "clean b' s True"
    using less(2,3) clean_mono [OF less(2), of b' True] clean_start [of s b True b'] by (cases "s = []") auto
  show ?case
  proof (cases rule: pem_loop_cases [of s])
    case 1
    then show ?thesis using s by simp
  next
    case (2 k)
    have split: "clean b' (take k s) (right_context (drop k s) True)" "clean (left_context b' (take k s)) (drop k s) True"
      using s clean_append [of b' "take k s" "drop k s" True] by simp_all
    have "length (drop k s) < length s" using 2 by simp
    from ih [OF this split(2), of "left_context b' (take k s)"]
    have r: "clean (left_context b' (take k s)) (pem_loop (drop k s)) True"
      "right_context (drop k s) True \<longrightarrow> right_context (pem_loop (drop k s)) True" by auto
    have "clean b' (take k s) (right_context (pem_loop (drop k s)) True)"
      using split(1) by (rule clean_mono) (use r in simp_all)
    with r(1) 2 have "clean b' (pem_loop s) True" by (simp add: clean_append)
    moreover have "hd (pem_loop s) = hd s" "pem_loop s \<noteq> []" "s \<noteq> []" using 2 by (cases s; cases k; simp)+
    ultimately show ?thesis by (auto simp: right_context_def)
  next
    case (3 k stop)
    have len: "length (drop stop s) < length s" using 3 by simp
    have "clean False (drop stop s) True"
    proof (cases "drop stop s = []")
      case False
      then have "last (take stop s) = CHR ''-''" "take stop s \<noteq> []" using 3 by (auto simp: last_take)
      moreover have "clean (left_context b' (take stop s)) (drop stop s) True"
        using s clean_append [of b' "take stop s" "drop stop s" True] by simp
      ultimately show ?thesis by (simp add: left_context_def delim_defs)
    qed simp
    then have r: "clean c (pem_loop (drop stop s)) True" for c using ih [OF len, of False c] by simp
    have "clean b' (take k s) (right_context (drop k s) True)"
      using s clean_append [of b' "take k s" "drop k s" True] by simp
    then have k: "clean b' (take k s) True" by (rule clean_mono) simp_all
    have "clean b' (pem_loop s) True"
      unfolding 3(3) clean_append using k r clean_no_at [of "''[PRIVATE_KEY]''"] by (simp add: right_context_def)
    moreover have "pem_loop s \<noteq> []" "take k s = [] \<or> hd (pem_loop s) = hd s" "take k s = [] \<longrightarrow> hd (pem_loop s) = CHR ''[''"
      using 3 by (cases s; cases k; simp)+
    ultimately show ?thesis by (auto simp: right_context_def)
  qed
qed

subsection \<open>Tokens\<close>

lemma redact_token_clean:
  "clean b token e \<Longrightarrow> clean b (redact_secret_token token ''[API_KEY]'') e"
  using clean_no_at [of "''[API_KEY]''" b e] by (simp add: redact_secret_token_def)

lemma redact_loop_clean:
  "clean b (rev token @ rest) True \<Longrightarrow> clean b (redact_loop ''[API_KEY]'' token rest) True"
proof (induction "''[API_KEY]''" token rest arbitrary: b rule: redact_loop.induct)
  case (1 token)
  then show ?case by (simp add: redact_token_clean)
next
  case (2 token c cs)
  show ?case
  proof (cases "is_space c")
    case True
    then have c: "benign_left c" "benign_right c" "c \<noteq> CHR ''@''" by (auto simp: delim_defs)
    from 2(3) have t: "clean b (rev token) True" "clean True cs True"
      by (auto simp: clean_append right_context_def left_context_def c)
    from t(2) have "clean True (redact_loop ''[API_KEY]'' [] cs) True" using 2(1) [OF True] by simp
    moreover have "clean b (if token = [] then [] else redact_secret_token (rev token) ''[API_KEY]'') True"
      using t(1) by (simp add: redact_token_clean)
    ultimately show ?thesis using True c by (simp only: redact_loop.simps if_True clean_append)
        (simp add: right_context_def)
  next
    case False
    then show ?thesis using 2(2) [OF False] 2(3) by simp
  qed
qed

section \<open>No address leaves the filter\<close>

lemma emails_clean: "clean True (mask_emails title) True"
  unfolding mask_emails_def by (rule scan_email_clean) simp

lemma bracket_steps:
  assumes "clean True text True"
  shows "clean True (mask_iban text) True" and "clean True (mask_korean_id text) True"
    and "clean True (mask_ssn text) True" and "clean True (mask_credit_cards text) True"
    and "clean True (mask_phone_numbers text) True" and "clean True (mask_user_paths text) True"
    and "clean True (mask_ip_addresses text) True" and "clean True (mask_passport text) True"
    and "clean True (mask_high_entropy_secrets text) True"
  using assms korean_loop_clean [of "[]" "text" "[]"] redact_loop_clean [of True "[]" "text"]
  by (simp_all add: mask_iban_def mask_korean_id_def mask_ssn_def mask_credit_cards_def
      mask_phone_numbers_def mask_user_paths_def mask_user_paths_os_def mask_ip_addresses_def
      mask_passport_def mask_high_entropy_secrets_def redact_secrets_with_marker_def
      iban.keeps_clean ssn.keeps_clean card.keeps_clean phone.keeps_clean ip.keeps_clean
      passport.keeps_clean unix_users.keeps_clean unix_home.keeps_clean windows_users.keeps_clean)

lemma api_keys_clean: "clean True text True \<Longrightarrow> clean True (mask_api_keys text) True"
  using pem_loop_clean [of True _ True] api_key.keeps_clean bearer.keeps_clean
  by (simp add: mask_api_keys_def mask_private_key_blocks_def mask_bearer_tokens_def)

lemma sanitized_clean: "level \<noteq> PiiOff \<Longrightarrow> clean True (sanitize_title_with_level title level) True"
proof -
  assume "level \<noteq> PiiOff"
  moreover have "clean True (mask_structural_chain title) True"
    unfolding mask_structural_chain_def by (intro api_keys_clean bracket_steps emails_clean)
  ultimately show ?thesis by (cases level) (simp_all add: bracket_steps emails_clean)
qed

text \<open> C8. Whatever the title or the recognised text, at every level but \<open>Off\<close> the filter's output
  holds no e-mail address: every at sign in it stands at the start of a word, after an opening bracket
  or another at sign, or at the end of one, before a closing bracket or a marker. The later maskers,
  which cut and rejoin the text around numbers, keys, paths and tokens, never put one together.\<close>

theorem no_address_leaves_the_filter:
  assumes "level \<noteq> PiiOff"
  shows "address_free (sanitize_title_with_level title level)"
  by (rule clean_address_free [OF sanitized_clean [OF assms]])

theorem no_address_leaves_the_filter_witness:
  "sanitize_title_with_level ''Re: <ann@corp.example>bob@b.org 555-123-4567'' PiiBasic =
     ''Re: <[EMAIL][EMAIL] [PHONE]'' \<and>
   address_free (sanitize_title_with_level ''Re: <ann@corp.example>bob@b.org 555-123-4567'' PiiBasic)"
proof
  show "sanitize_title_with_level ''Re: <ann@corp.example>bob@b.org 555-123-4567'' PiiBasic =
     ''Re: <[EMAIL][EMAIL] [PHONE]''" by code_simp
  show "address_free (sanitize_title_with_level ''Re: <ann@corp.example>bob@b.org 555-123-4567'' PiiBasic)"
    by (rule no_address_leaves_the_filter) simp
qed

section \<open>Cards\<close>

text \<open>The digits of each maximal run of grouped digits, from left to right.\<close>

function run_digits :: "string \<Rightarrow> nat list" where
  "run_digits [] = []"
| "run_digits (c # cs) =
     (if ascii_digit c then fst (card_run 0 0 (c # cs)) # run_digits (drop (snd (card_run 0 0 (c # cs)) - 1) cs)
      else run_digits cs)"
  by pat_completeness auto
termination by (relation "measure length") auto

definition stops_run :: "string \<Rightarrow> bool" where
  "stops_run s \<longleftrightarrow> \<not> followed_by ascii_digit s \<and>
     \<not> (followed_by group_separator s \<and> followed_by ascii_digit (tl s))"

lemma card_run_stops: "card_run d i s = (d', n) \<Longrightarrow> stops_run (drop (n - i) s)"
proof (induction d i s rule: card_run.induct)
  case (2 d i c cs)
  then show ?case using card_run_end [of "d + 1" "i + 1" cs] card_run_end [of d "i + 1" cs]
    by (cases "ascii_digit c") (auto simp: stops_run_def followed_by_def drop_Cons' Suc_diff_le split: if_splits)
qed (simp add: stops_run_def followed_by_def)

lemma card_run_replace:
  assumes "card_run d i s = (d', n)" and "stops_run x"
  shows "card_run d i (take (n - i) s @ x) = (d', n)"
  using assms(1)
proof (induction d i s rule: card_run.induct)
  case (1 d i)
  then show ?case using assms(2) by (cases x) (auto simp: stops_run_def followed_by_def)
next
  case (2 d i c cs)
  consider (digit) "ascii_digit c" | (sep) "\<not> ascii_digit c" "group_separator c \<and> followed_by ascii_digit cs"
    | (stop) "\<not> ascii_digit c" "\<not> (group_separator c \<and> followed_by ascii_digit cs)" by blast
  then show ?case
  proof cases
    case digit
    then have r: "card_run (d + 1) (i + 1) cs = (d', n)" using 2(3) by simp
    moreover have "n - i = Suc (n - (i + 1))" using card_run_end [OF r] by linarith
    ultimately show ?thesis using digit 2(1) [OF digit r] by simp
  next
    case sep
    then have r: "card_run d (i + 1) cs = (d', n)" using 2(3) by simp
    have n: "n - i = Suc (n - (i + 1))" "0 < n - (i + 1)" using card_run_end [OF r] sep by auto
    then have "followed_by ascii_digit (take (n - (i + 1)) cs @ x)"
      using sep by (cases cs; cases "n - (i + 1)") (auto simp: followed_by_def)
    then show ?thesis using sep n 2(2) [OF sep r] by simp
  next
    case stop
    then have "n = i" "d' = d" using 2(3) by auto
    then show ?thesis using assms(2) by (cases x) (auto simp: stops_run_def followed_by_def)
  qed
qed

lemma scan_copies: "\<not> followed_by ascii_digit s \<Longrightarrow> s \<noteq> [] \<Longrightarrow>
    scan card_match prev s = hd s # scan card_match (hd s # prev) (tl s)"
  by (cases s) (auto simp: card_match_def)

lemma scan_stops: "stops_run s \<Longrightarrow> stops_run (scan card_match prev s)"
proof (cases "s = []")
  case False
  assume s: "stops_run s"
  then have eq: "scan card_match prev s = hd s # scan card_match (hd s # prev) (tl s)"
    using False by (simp add: scan_copies stops_run_def)
  have "\<not> followed_by ascii_digit (scan card_match (hd s # prev) (tl s))" if "group_separator (hd s)"
  proof (cases "tl s = []")
    case False
    with s that have "\<not> followed_by ascii_digit (tl s)" by (auto simp: stops_run_def followed_by_def)
    then show ?thesis using scan_copies [OF _ False] False by (auto simp: followed_by_def)
  qed (simp add: followed_by_def)
  with s False eq show ?thesis by (auto simp: stops_run_def followed_by_def)
qed (simp add: stops_run_def followed_by_def)

lemma run_digits_skip: "\<forall>c \<in> set xs. \<not> ascii_digit c \<Longrightarrow> run_digits (xs @ s) = run_digits s"
  by (induction xs) auto

text \<open>
  The card masker removes the runs of thirteen to nineteen digits and leaves every other run as it
  was: no run is split or joined.
\<close>

theorem cards_masked_exactly:
  "run_digits (mask_credit_cards title) = filter (\<lambda>d. d \<notin> {13..19}) (run_digits title)"
proof -
  have "run_digits (scan card_match prev s) = filter (\<lambda>d. d \<notin> {13..19}) (run_digits s)" for prev s
  proof (induction s arbitrary: prev rule: run_digits.induct)
    case (2 c cs)
    show ?case
    proof (cases "ascii_digit c")
      case False
      then show ?thesis using 2(2) [OF False] by (simp add: card_match_def followed_by_def)
    next
      case True
      obtain d n where r: "card_run 0 0 (c # cs) = (d, n)" by fastforce
      have n: "0 < n" "n \<le> Suc (length cs)" using card_run_end [OF r] True by (auto simp: followed_by_def)
      define X where "X = scan card_match (rev (take n (c # cs)) @ prev) (drop (n - 1) cs)"
      have x: "run_digits X = filter (\<lambda>d. d \<notin> {13..19}) (run_digits (drop (n - 1) cs))"
        using 2(1) [OF True] r by (simp add: X_def)
      have stop: "stops_run X" unfolding X_def using card_run_stops [OF r] n by (intro scan_stops) (cases n; simp)
      have eq: "scan card_match prev (c # cs) = (if d \<in> {13..19} then ''[CARD]'' else take n (c # cs)) @ X"
        using True r by (simp add: card_match_def followed_by_def X_def)
      show ?thesis
      proof (cases "d \<in> {13..19}")
        case True
        have "\<forall>c \<in> set ''[CARD]''. \<not> ascii_digit c" by code_simp
        then have "run_digits (''[CARD]'' @ X) = run_digits X" by (rule run_digits_skip)
        moreover have "run_digits (c # cs) = d # run_digits (drop (n - 1) cs)" using r \<open>ascii_digit c\<close> by simp
        ultimately show ?thesis using True x unfolding eq by simp
      next
        case False
        have "card_run 0 0 (take n (c # cs) @ X) = (d, n)" using card_run_replace [OF r stop] by (simp only: diff_zero)
        then have run: "card_run 0 0 (c # take (n - 1) cs @ X) = (d, n)" using n by (cases n) simp_all
        have t: "take n (c # cs) @ X = c # take (n - 1) cs @ X" using n by (cases n) auto
        have "drop (n - 1) (take (n - 1) cs @ X) = X" using n by simp
        then have "run_digits (take n (c # cs) @ X) = d # run_digits X"
          unfolding t using \<open>ascii_digit c\<close> by (simp only: run_digits.simps if_True run fst_conv snd_conv)
        moreover have "run_digits (c # cs) = d # run_digits (drop (n - 1) cs)" using r \<open>ascii_digit c\<close> by simp
        ultimately show ?thesis using False by (simp only: eq x if_False filter.simps if_True not_False_eq_True)
      qed
    qed
  qed simp
  then show ?thesis by (simp add: mask_credit_cards_def)
qed

section \<open>Limits\<close>

text \<open>
  A card number followed by another number after a space or a dash counts as one run: with twenty
  digits or more it is no card, and as it is too long for a telephone number it leaves the strictest
  level unmasked.
\<close>

theorem card_before_a_number_is_kept:
  "sanitize_title_with_level ''pay 4111111111111111 202612'' PiiStrict = ''pay 4111111111111111 202612''"
  by code_simp

text \<open>
  The digits that follow a dash of one resident number are also the digits before the dash of a
  second: they are no longer in the output, and the text before the first number is cut instead.
  When the output is shorter than the digits, the subtraction underflows.
\<close>

theorem resident_number_cuts_other_text:
  "mask_korean_id ''to ann 901010-12345678901-1234567'' = ''to [KR_ID]''"
  by code_simp

end
