(* ===== verification/Spool_Properties.thy ===== *)
theory Spool_Properties
  imports Upload_Spool Pii_Properties
begin

text \<open>
  What the spool guarantees in every interleaving of its producers, the sync task, restarts and
  erasures: what leaves the device went through the policy, what is marked as sent was acknowledged or
  given up, and a restart puts the rest back.
\<close>

section \<open>Statements on the table\<close>

lemma with_conn_mut_conn:
  "conn (snd (with_conn_mut h dflt f g)) = conn g \<or> conn (snd (with_conn_mut h dflt f g)) = snd (f (conn g))"
  by (cases "write_blocked h g") (simp_all add: with_conn_mut_blocked with_conn_mut_open write_blocked_def)

definition sent_ids :: "event_table \<Rightarrow> string set" where
  "sent_ids rows = er_event_id ` {r \<in> set rows. is_sent r}"

lemma sent_ids_insert: "sent_ids (insert_event env e rows) = sent_ids rows"
  by (auto simp: sent_ids_def insert_event_def)

lemma sent_ids_set_sent: "sent_ids (set_sent ids rows) \<subseteq> set ids \<union> sent_ids rows"
  by (auto simp: sent_ids_def set_sent_def split: if_splits)

lemma sent_ids_save: "sent_ids (conn (snd (save_event env h fails e g))) = sent_ids (conn g)"
  using with_conn_mut_conn [of h "()" "run_statement fails (insert_event env e)" g]
  by (auto simp: save_event_def run_statement_def sent_ids_insert split: if_splits)

lemma sent_ids_mark: "sent_ids (conn (snd (mark_as_sent h fails ids g))) \<subseteq> set ids \<union> sent_ids (conn g)"
  using with_conn_mut_conn [of h "()" "run_statement fails (set_sent ids)" g] sent_ids_set_sent [of ids "conn g"]
  by (auto simp: mark_as_sent_def run_statement_def split: if_splits)

lemma retention_subset:
  "set (conn (snd (enforce_retention env h fails1 fails2 cutoff g))) \<subseteq> set (conn g)"
  using with_conn_mut_conn [of h 0 "\<lambda>rows. let rows1 = drop_old_sent (ev_rfc3339 env cutoff) rows;
      rows2 = drop_unsent_overflow MAX_UNSENT_EVENTS_RETAINED rows1
    in if fails1 then (Inl ''storage.failed'', rows) else if fails2 then (Inl ''storage.failed'', rows1)
       else (Inr (length rows - length rows2), rows2)" g]
  by (auto simp: enforce_retention_def Let_def drop_old_sent_def drop_unsent_overflow_def split: if_splits)

lemma sent_ids_mono: "set rows \<subseteq> set rows' \<Longrightarrow> sent_ids rows \<subseteq> sent_ids rows'"
  by (auto simp: sent_ids_def)

section \<open>Provenance\<close>

fun pc_items :: "sync_pc \<Rightarrow> QueuedUpload set" where
  "pc_items (Uploading _ items _) = set items"
| "pc_items _ = {}"

fun pc_marks :: "sync_pc \<Rightarrow> string set" where
  "pc_marks (Repriming _ ids) = set ids"
| "pc_marks (Retiring ids) = set ids"
| "pc_marks (Marking _ ids) = set ids"
| "pc_marks _ = {}"

definition came_through :: "(egress_view \<times> Event \<times> QueuedUpload) list \<Rightarrow> QueuedUpload set" where
  "came_through ps = (\<lambda>(_, _, q). q) ` set ps"

definition settled_ids :: "event_env \<Rightarrow> string list \<Rightarrow> (egress_view \<times> Event) list \<Rightarrow> string set" where
  "settled_ids env ids rs = set ids \<union> (\<lambda>(_, e). storage_event_id env e) ` set rs"

lemma came_through_append [simp]: "came_through (ps @ [(v, e, q)]) = insert q (came_through ps)"
  by (simp add: came_through_def)

lemma settled_ids_append [simp]:
  "settled_ids env (ids @ ids') rs = set ids' \<union> settled_ids env ids rs"
  "settled_ids env ids (rs @ [(v, e)]) = insert (storage_event_id env e) (settled_ids env ids rs)"
  by (auto simp: settled_ids_def)

definition prepared_ok ::
  "event_env \<Rightarrow> PlatformEgressPolicy \<Rightarrow> (egress_view \<times> Event \<times> QueuedUpload) list \<Rightarrow> bool" where
  "prepared_ok env p ps \<longleftrightarrow>
     list_all (\<lambda>(v, e, q). prepare_event_for_upload p v e = Some (payload q) \<and>
                          storage_id q = storage_event_id env e) ps"

definition retired_ok :: "PlatformEgressPolicy \<Rightarrow> (egress_view \<times> Event) list \<Rightarrow> bool" where
  "retired_ok p rs \<longleftrightarrow> list_all (\<lambda>(v, e). prepare_event_for_upload p v e = None) rs"

definition spool_ok :: "event_env \<Rightarrow> PlatformEgressPolicy \<Rightarrow> spool \<Rightarrow> bool" where
  "spool_ok env p s \<longleftrightarrow>
     prepared_ok env p (prepared s) \<and> retired_ok p (retired s) \<and>
     set (acked s) \<subseteq> storage_id ` set (wire s) \<and>
     set (upload_queue (sp_up s)) \<subseteq> came_through (prepared s) \<and>
     set (wire s) \<subseteq> came_through (prepared s) \<and>
     pc_items (sp_pc s) \<subseteq> came_through (prepared s) \<and>
     sent_ids (conn (sp_store s)) \<subseteq> settled_ids env (acked s) (retired s) \<and>
     pc_marks (sp_pc s) \<subseteq> settled_ids env (acked s) (retired s)"

text \<open>A new process starts with an empty queue.\<close>

definition spool_op_ok :: "spool_op \<Rightarrow> bool" where
  "spool_op_ok x = (case x of Restart u \<Rightarrow> upload_queue u = [] \<and> queue_size u = 0 | _ \<Rightarrow> True)"

lemma enqueue_set: "set (upload_queue (enqueue q u)) \<subseteq> insert q (set (upload_queue u))"
  by (auto simp: enqueue_def Let_def push_all_def drop_oldest_def dest: in_set_dropD)

lemma requeue_set: "set (upload_queue (requeue_failed_events qs u)) \<subseteq> set qs \<union> set (upload_queue u)"
  by (auto simp: requeue_failed_events_def make_room_def Let_def push_all_def drop_oldest_def dest: in_set_dropD)

lemma answer_set:
  assumes "upload_answer attempt items answer now u = (r, u')"
  shows "set (upload_queue u') \<subseteq> set items \<union> set (upload_queue u)"
  by (cases rule: upload_answer_cases [OF assms]) (use requeue_set in fastforce)+

lemma answer_ids:
  "upload_answer attempt items answer now u = (Some (Inr ids), u') \<Longrightarrow> ids = map storage_id items"
  by (auto simp: upload_answer_def split: sum.splits if_splits)

lemma offer_event_ok:
  assumes "spool_ok env p s"
  shows "spool_ok env p (offer_event env p v e s)"
proof (cases "prepare_event_for_upload p v e")
  case (Some x)
  let ?q = "\<lparr>storage_id = storage_event_id env e, payload = x\<rparr>"
  have "set (upload_queue (enqueue ?q (sp_up s))) \<subseteq> insert ?q (came_through (prepared s))"
    using enqueue_set [of ?q "sp_up s"] assms by (auto simp: spool_ok_def)
  with Some assms show ?thesis by (auto simp: offer_event_def spool_ok_def prepared_ok_def Let_def)
qed (use assms in \<open>simp add: offer_event_def\<close>)

lemma offer_event_fields [simp]:
  "sp_pc (offer_event env p v e s) = sp_pc s" "sp_store (offer_event env p v e s) = sp_store s"
  "sp_offers (offer_event env p v e s) = sp_offers s" "wire (offer_event env p v e s) = wire s"
  "acked (offer_event env p v e s) = acked s" "retired (offer_event env p v e s) = retired s"
  by (simp_all add: offer_event_def Let_def split: option.splits)

lemma begin_flush_ok:
  assumes "spool_ok env p s"
  shows "spool_ok env p (begin_flush draining i s)"
proof -
  obtain st u where b: "flush_begin (in_suppressed i) (in_now i) (sp_up s) = (st, u)" by fastforce
  show ?thesis
    by (cases rule: flush_begin_cases [OF b])
      (use assms b in \<open>auto simp: begin_flush_def spool_ok_def\<close>)
qed

lemma server_answers_ok:
  assumes "spool_ok env p s" and "set items \<subseteq> came_through (prepared s)"
  shows "spool_ok env p (server_answers draining items attempt i s)"
proof -
  obtain r u where a: "upload_answer attempt items (in_answer i) (in_now i) (sp_up s) = (r, u)" by fastforce
  have u: "set (upload_queue u) \<subseteq> came_through (prepared s)"
    using answer_set [OF a] assms by (auto simp: spool_ok_def)
  consider "r = None" | e where "r = Some (Inl e)" | "r = Some (Inr (map storage_id items))"
    using answer_ids a by (metis (no_types) option.exhaust old.sum.exhaust)
  then show ?thesis
    by cases (use assms u a in \<open>auto simp: server_answers_def spool_ok_def\<close>)
qed

lemma spool_pc_ok:
  "spool_ok env p s \<Longrightarrow> pc_items pc \<subseteq> came_through (prepared s) \<Longrightarrow>
    pc_marks pc \<subseteq> settled_ids env (acked s) (retired s) \<Longrightarrow> spool_ok env p (s\<lparr>sp_pc := pc\<rparr>)"
  by (simp add: spool_ok_def)

lemma spool_mark_ok:
  "spool_ok env p s \<Longrightarrow> set ids \<subseteq> settled_ids env (acked s) (retired s) \<Longrightarrow>
    pc_items pc = {} \<Longrightarrow> pc_marks pc = {} \<Longrightarrow>
    spool_ok env p (s\<lparr>sp_store := snd (mark_as_sent h fails ids (sp_store s)), sp_pc := pc\<rparr>)"
  using sent_ids_mark [of h fails ids "sp_store s"] by (auto simp: spool_ok_def)

lemma reprime_ok:
  assumes "spool_ok env p s" and "sp_pc s = Repriming es ids"
  shows "spool_ok env p (sync_step env p (Repriming es ids) i s)"
proof (cases es)
  case Nil
  then show ?thesis using assms spool_pc_ok [OF assms(1)] by (simp add: spool_ok_def)
next
  case (Cons e es')
  have "set ids \<subseteq> settled_ids env (acked s) (retired s)" using assms by (simp add: spool_ok_def)
  moreover have "spool_ok env p (offer_event env p (in_view i) e s)" using offer_event_ok assms(1) .
  ultimately show ?thesis using assms(1) Cons spool_pc_ok [of env p "offer_event env p (in_view i) e s"]
    by (auto simp: spool_ok_def retired_ok_def)
qed

lemma sync_step_ok:
  assumes s: "spool_ok env p s"
  shows "spool_ok env p (sync_step env p (sp_pc s) i s)"
proof (cases "sp_pc s")
  case Starting
  then show ?thesis using spool_pc_ok [OF s] by (auto split: sum.splits)
next
  case (Repriming es ids)
  then show ?thesis using reprime_ok [OF s] by simp
next
  case (Retiring ids)
  then have "set ids \<subseteq> settled_ids env (acked s) (retired s)" using s by (simp add: spool_ok_def)
  from spool_mark_ok [OF s this] Retiring show ?thesis by simp
next
  case Selecting
  then show ?thesis using spool_pc_ok [OF s] begin_flush_ok [OF s] by simp
next
  case (Uploading draining items attempt)
  then show ?thesis using s server_answers_ok [OF s] by (simp add: spool_ok_def)
next
  case (Marking draining ids)
  then have "set ids \<subseteq> settled_ids env (acked s) (retired s)" using s by (simp add: spool_ok_def)
  from spool_mark_ok [OF s this] Marking show ?thesis by simp
next
  case Upkeep
  then show ?thesis
    using s sent_ids_mono [OF retention_subset
        [of env "in_cells i" "in_fails i" "in_fails_late i" "in_cutoff i" "sp_store s"]]
    by (auto simp: spool_ok_def take_dropped_since_last_def)
qed (use s begin_flush_ok [OF s] in simp_all)

lemma spool_step_ok:
  assumes "spool_ok env p s" and "spool_op_ok x"
  shows "spool_ok env p (spool_step env p s x)"
proof (cases x)
  case (Offer k v)
  then show ?thesis using assms offer_event_ok [OF assms(1)] by (auto simp: spool_ok_def)
next
  case (Save h fails e)
  then show ?thesis using assms by (simp add: spool_ok_def sent_ids_save)
qed (use assms sync_step_ok in \<open>auto simp: spool_ok_def spool_op_ok_def sent_ids_def\<close>)

interpretation spooling: guarded_machine "spool_step env p" "spool_ok env p" spool_op_ok for env p
  by unfold_locales (rule spool_step_ok)

lemma spool_new_ok: "sent_ids (conn g) = {} \<Longrightarrow> upload_queue u = [] \<Longrightarrow> spool_ok env p (spool_new g u health)"
  by (simp add: spool_ok_def spool_new_def prepared_ok_def retired_ok_def)

section \<open>What the payloads hold\<close>

definition title_shareable :: "PlatformEgressPolicy \<Rightarrow> string \<Rightarrow> bool" where
  "title_shareable p title \<longleftrightarrow>
     (if external_data_policy p = AllowFiltered then address_free title else title = REDACTED_WINDOW_TITLE)"

fun shareable :: "PlatformEgressPolicy \<Rightarrow> Event \<Rightarrow> bool" where
  "shareable p (Context e) = title_shareable p (ctx_window_title e)"
| "shareable p (Window e) = title_shareable p (win_title (layout_window e))"
| "shareable p (User e) = title_shareable p (user_window_title e)"
| "shareable p (Clipboard _) = False"
| "shareable p (FileAccess _) = False"
| "shareable p _ = True"

lemma egress_title_shareable: "title_shareable p (egress_sanitize_title p title)"
proof (cases "external_data_policy p")
  case AllowFiltered
  have "effective_egress_pii_level AllowFiltered (privacy_pii_level (privacy_config p)) \<noteq> PiiOff"
    by (cases "privacy_pii_level (privacy_config p)")
      (auto simp: effective_egress_pii_level_def max_def less_eq_PiiFilterLevel_def)
  from clean_address_free [OF sanitized_clean [OF this]] AllowFiltered show ?thesis
    by (simp add: title_shareable_def egress_sanitize_title_def)
qed (simp_all add: title_shareable_def egress_sanitize_title_def)

lemma filter_event_shareable: "filter_event p e = Some x \<Longrightarrow> shareable p x"
  by (cases e) (auto simp: egress_title_shareable Let_def split: if_splits)

section \<open>Properties\<close>



section \<open>After a restart\<close>

definition event_of :: "event_env \<Rightarrow> event_row \<Rightarrow> Event" where
  "event_of env r = the (ev_from_json env (er_data r))"

text \<open>The rows carry distinct ids and the text of the event they were made for.\<close>

definition row_ok :: "event_env \<Rightarrow> event_row \<Rightarrow> bool" where
  "row_ok env r \<longleftrightarrow> ev_from_json env (er_data r) = Some (event_of env r) \<and>
     storage_event_id env (event_of env r) = er_event_id r"

definition table_ok :: "event_env \<Rightarrow> event_table \<Rightarrow> bool" where
  "table_ok env rows \<longleftrightarrow> distinct (map er_event_id rows) \<and> list_all (row_ok env) rows"

text \<open>What is needed of the JSON codec: it reads back the events that are saved.\<close>

definition op_encodes :: "event_env \<Rightarrow> spool_op \<Rightarrow> bool" where
  "op_encodes env x = (case x of Save _ _ e \<Rightarrow> ev_from_json env (ev_to_json env e) = Some e | _ \<Rightarrow> True)"

lemma row_ok_sent [simp]: "row_ok env (r\<lparr>is_sent := b\<rparr>) = row_ok env r"
  by (simp add: row_ok_def event_of_def)

lemma table_ok_insert:
  "table_ok env rows \<Longrightarrow> ev_from_json env (ev_to_json env e) = Some e \<Longrightarrow> table_ok env (insert_event env e rows)"
  by (auto simp: table_ok_def insert_event_def row_ok_def event_of_def)

lemma table_ok_set_sent: "table_ok env rows \<Longrightarrow> table_ok env (set_sent ids rows)"
  by (auto simp: table_ok_def set_sent_def list_all_iff comp_def if_distrib [where f = er_event_id] cong: if_cong)

lemma table_ok_filter: "table_ok env rows \<Longrightarrow> table_ok env (filter P rows)"
  by (auto simp: table_ok_def list_all_iff distinct_map inj_on_def)

lemma table_ok_statement:
  assumes "table_ok env (conn g)" and "table_ok env (snd (f (conn g)))"
  shows "table_ok env (conn (snd (with_conn_mut h dflt f g)))"
  using with_conn_mut_conn [of h dflt f g] assms by auto

lemma table_ok_mark: "table_ok env (conn g) \<Longrightarrow> table_ok env (conn (snd (mark_as_sent h fails ids g)))"
  by (simp add: mark_as_sent_def run_statement_def table_ok_statement table_ok_set_sent)

lemma table_ok_retention:
  "table_ok env (conn g) \<Longrightarrow> table_ok env (conn (snd (enforce_retention env h fails1 fails2 cutoff g)))"
  unfolding enforce_retention_def
  by (rule table_ok_statement)
    (simp_all add: Let_def drop_old_sent_def drop_unsent_overflow_def table_ok_filter)

lemma begin_flush_store [simp]: "sp_store (begin_flush draining i s) = sp_store s"
  by (simp add: begin_flush_def split: prod.splits flush_start.splits)

lemma server_answers_store [simp]: "sp_store (server_answers draining items attempt i s) = sp_store s"
  by (simp add: server_answers_def split: prod.splits option.splits sum.splits)

lemma table_step:
  assumes "table_ok env (conn (sp_store s))" and "op_encodes env x"
  shows "table_ok env (conn (sp_store (spool_step env p s x)))"
proof (cases x)
  case (Sync i)
  have "table_ok env (conn (sp_store (sync_step env p pc i s)))" for pc
    by (cases "(env, p, pc, i, s)" rule: sync_step.cases)
      (use assms(1) in \<open>auto simp: table_ok_mark table_ok_retention split: sum.splits\<close>)
  with Sync show ?thesis by simp
next
  case (Save h fails e)
  then show ?thesis using assms
    by (simp add: op_encodes_def save_event_def run_statement_def table_ok_statement table_ok_insert)
qed (use assms in \<open>auto simp: table_ok_def\<close>)

interpretation spool_table: guarded_machine "spool_step env p" "\<lambda>s. table_ok env (conn (sp_store s))" "op_encodes env"
  for env p
  by unfold_locales (rule table_step)

text \<open>With room in the queue, every event that is put back is queued or noted, in order.\<close>

definition upload_item :: "event_env \<Rightarrow> PlatformEgressPolicy \<Rightarrow> Event \<Rightarrow> QueuedUpload" where
  "upload_item env p e = \<lparr>storage_id = storage_event_id env e, payload = the (filter_event p e)\<rparr>"

lemma enqueue_room:
  assumes "queue_size u = length (upload_queue u)" and "length (upload_queue u) < max_queue_size u"
  shows "upload_queue (enqueue q u) = upload_queue u @ [q]" "queue_size (enqueue q u) = length (upload_queue u) + 1"
    "max_queue_size (enqueue q u) = max_queue_size u"
  using assms by (simp_all add: enqueue_def Let_def push_all_def)

lemma reprime_run:
  assumes "sp_pc s = Repriming es ids" and "egress_enabled p (in_view i)"
    and "queue_size (sp_up s) = length (upload_queue (sp_up s))"
    and "length (upload_queue (sp_up s)) + length es \<le> max_queue_size (sp_up s)"
  shows "sp_pc (foldl (spool_step env p) s (replicate (length es) (Sync i))) =
      Repriming [] (ids @ map (storage_event_id env) (filter (\<lambda>e. filter_event p e = None) es)) \<and>
    upload_queue (sp_up (foldl (spool_step env p) s (replicate (length es) (Sync i)))) =
      upload_queue (sp_up s) @ map (upload_item env p) (filter (\<lambda>e. filter_event p e \<noteq> None) es) \<and>
    sp_store (foldl (spool_step env p) s (replicate (length es) (Sync i))) = sp_store s"
  using assms
proof (induction es arbitrary: s ids)
  case (Cons e es)
  let ?s = "spool_step env p s (Sync i)"
  have prep: "prepare_event_for_upload p (in_view i) e = filter_event p e"
    using Cons.prems(2) by (simp add: prepare_event_for_upload_def)
  show ?case
  proof (cases "filter_event p e")
    case None
    then have "?s = s\<lparr>sp_pc := Repriming es (ids @ [storage_event_id env e]), retired := retired s @ [(in_view i, e)]\<rparr>"
      using Cons.prems(1) prep by simp
    then show ?thesis using Cons.IH [of ?s "ids @ [storage_event_id env e]"] Cons.prems None by simp
  next
    case (Some x)
    define t where "t = ?s"
    have t: "sp_up t = enqueue (upload_item env p e) (sp_up s)" "sp_pc t = Repriming es ids" "sp_store t = sp_store s"
      using Cons.prems(1) prep Some by (simp_all add: t_def offer_event_def upload_item_def Let_def)
    have "length (upload_queue (sp_up s)) < max_queue_size (sp_up s)" using Cons.prems(4) by simp
    note room = enqueue_room [OF Cons.prems(3) this, of "upload_item env p e"]
    have "foldl (spool_step env p) s (replicate (length (e # es)) (Sync i)) =
        foldl (spool_step env p) t (replicate (length es) (Sync i))" by (simp add: t_def)
    with Cons.IH [OF t(2) Cons.prems(2)] room Cons.prems(4) Some show ?thesis
      by (simp only: t) simp
  qed
qed simp

lemma decode_rows_ok:
  "list_all (row_ok env) rows \<Longrightarrow> decode_rows env rows = map (event_of env) rows"
  by (induction rows) (auto simp: decode_rows_def row_ok_def map_filter_simps)

lemma set_pending: "set (pending_rows n rows) \<subseteq> {r \<in> set rows. \<not> is_sent r}"
  by (auto simp: pending_rows_def dest!: in_set_takeD)

lemma pending_ok: "table_ok env rows \<Longrightarrow> list_all (row_ok env) (pending_rows n rows)"
  using set_pending [of n rows] by (auto simp: table_ok_def list_all_iff)

lemma pending_ids: "table_ok env rows \<Longrightarrow>
    map (storage_event_id env) (map (event_of env) (pending_rows n rows)) = map er_event_id (pending_rows n rows)"
  using pending_ok [of env rows n] by (simp add: list_all_iff row_ok_def)

lemma pending_read:
  assumes "table_ok env (conn g)" and "\<not> write_blocked h g"
  shows "get_pending_events env h False n g = Inr (map (event_of env) (pending_rows n (conn g)))"
  by (simp add: get_pending_events_def with_conn_mut_open [OF assms(2)] decode_rows_ok [OF pending_ok [OF assms(1)]])

lemma mark_open: "\<not> write_blocked h g \<Longrightarrow> conn (snd (mark_as_sent h False ids g)) = set_sent ids (conn g)"
  by (simp add: mark_as_sent_def run_statement_def with_conn_mut_open set_sent_def)

text \<open>The ids that were noted are those of the refused rows.\<close>

definition refused_ids :: "event_env \<Rightarrow> PlatformEgressPolicy \<Rightarrow> event_row list \<Rightarrow> string list" where
  "refused_ids env p pend =
     map (storage_event_id env) (filter (\<lambda>e. filter_event p e = None) (map (event_of env) pend))"

lemma set_sent_refused:
  assumes "table_ok env rows"
  shows "set_sent (refused_ids env p (pending_rows n rows)) rows =
    map (\<lambda>r. if r \<in> set (pending_rows n rows) \<and> filter_event p (event_of env r) = None
             then r\<lparr>is_sent := True\<rparr> else r) rows"
proof -
  have sub: "set (pending_rows n rows) \<subseteq> set rows" using set_pending [of n rows] by auto
  have id: "storage_event_id env (event_of env r) = er_event_id r" if "r \<in> set rows" for r
    using assms that by (auto simp: table_ok_def list_all_iff row_ok_def)
  have inj: "inj_on er_event_id (set rows)" using assms by (simp add: table_ok_def distinct_map)
  have "er_event_id r \<in> set (refused_ids env p (pending_rows n rows)) \<longleftrightarrow>
      r \<in> set (pending_rows n rows) \<and> filter_event p (event_of env r) = None" if r: "r \<in> set rows" for r
  proof -
    have same: "storage_event_id env (event_of env r') = er_event_id r \<longleftrightarrow> r' = r" if "r' \<in> set (pending_rows n rows)" for r'
    proof -
      have r': "r' \<in> set rows" using that sub by blast
      from id [OF r'] inj_on_eq_iff [OF inj r' r] show ?thesis by simp
    qed
    have "er_event_id r \<in> set (refused_ids env p (pending_rows n rows)) \<longleftrightarrow>
        (\<exists>r' \<in> set (pending_rows n rows). filter_event p (event_of env r') = None \<and>
          storage_event_id env (event_of env r') = er_event_id r)"
      by (auto simp: refused_ids_def image_iff)
    also have "\<dots> \<longleftrightarrow> (\<exists>r' \<in> set (pending_rows n rows). filter_event p (event_of env r') = None \<and> r' = r)"
      using same by auto
    finally show ?thesis by auto
  qed
  then show ?thesis by (simp add: set_sent_def)
qed

text \<open>The last steps: from the end of the loop to the first tick.\<close>

lemma reprime_end:
  assumes "sp_pc s = Repriming [] ids" and "\<not> in_fails i" and "\<not> write_blocked (in_cells i) (sp_store s)"
  shows "\<exists>k \<in> {1, 2}. let s' = foldl (spool_step env p) s (replicate k (Sync i))
    in sp_pc s' = Selecting \<and> sp_up s' = sp_up s \<and> conn (sp_store s') = set_sent ids (conn (sp_store s))"
proof (cases "ids = []")
  case True
  then show ?thesis using assms(1) by (intro bexI [of _ 1]) (simp_all add: set_sent_def)
next
  case False
  then show ?thesis using assms mark_open [OF assms(3)]
    by (intro bexI [of _ 2]) (simp_all add: numeral_2_eq_2)
qed

lemma reprime_all:
  assumes s: "sp_pc s = Starting" "upload_queue (sp_up s) = []" "queue_size (sp_up s) = 0"
      "REPRIME_LIMIT \<le> max_queue_size (sp_up s)"
    and tab: "table_ok env (conn (sp_store s))"
    and i: "egress_enabled p (in_view i)" "\<not> in_fails i" "\<not> write_blocked (in_cells i) (sp_store s)"
    and pend: "pend = pending_rows REPRIME_LIMIT (conn (sp_store s))"
  shows "\<exists>n \<le> length pend + 3. let s' = foldl (spool_step env p) s (replicate n (Sync i))
    in sp_pc s' = Selecting \<and> conn (sp_store s') = set_sent (refused_ids env p pend) (conn (sp_store s)) \<and>
       upload_queue (sp_up s') =
         map (upload_item env p) (filter (\<lambda>e. filter_event p e \<noteq> None) (map (event_of env) pend))"
proof -
  let ?es = "map (event_of env) pend"
  have read: "get_pending_events env (in_cells i) (in_fails i) REPRIME_LIMIT (sp_store s) = Inr ?es"
    using pending_read [OF tab i(3)] i(2) by (simp add: pend)
  have len: "length ?es \<le> REPRIME_LIMIT" by (simp add: pend pending_rows_def)
  show ?thesis
  proof (cases "pend = []")
    case True
    then show ?thesis using s i(1) read
      by (intro exI [of _ 1]) (simp add: refused_ids_def set_sent_def)
  next
    case False
    define t where "t = s\<lparr>sp_pc := Repriming ?es []\<rparr>"
    define w where "w = foldl (spool_step env p) t (replicate (length pend) (Sync i))"
    have t: "spool_step env p s (Sync i) = t" using s(1) i(1) read False by (simp add: t_def)
    have w: "sp_pc w = Repriming [] (refused_ids env p pend)" "sp_store w = sp_store s"
      "upload_queue (sp_up w) = map (upload_item env p) (filter (\<lambda>e. filter_event p e \<noteq> None) ?es)"
      using reprime_run [of t ?es "[]" p i env] i(1) s len
      by (simp_all add: w_def t_def refused_ids_def)
    obtain k where k: "k \<in> {1, 2}" "sp_pc (foldl (spool_step env p) w (replicate k (Sync i))) = Selecting"
        "sp_up (foldl (spool_step env p) w (replicate k (Sync i))) = sp_up w"
        "conn (sp_store (foldl (spool_step env p) w (replicate k (Sync i)))) =
           set_sent (refused_ids env p pend) (conn (sp_store s))"
      using reprime_end [OF w(1) i(2), of env p] i(3) unfolding w(2) Let_def by blast
    have "foldl (spool_step env p) s (replicate (1 + length pend + k) (Sync i)) =
        foldl (spool_step env p) w (replicate k (Sync i))"
      by (simp add: replicate_add w_def flip: t)
    with k w(3) show ?thesis by (intro exI [of _ "1 + length pend + k"]) (auto simp: Let_def)
  qed
qed


section \<open>Samples\<close>

definition clip_event :: Event where
  "clip_event = Clipboard \<lparr>clip_timestamp = 0, clip_content_type = ClipText, char_count = 3, preview = None\<rparr>"

definition sample_env :: event_env where
  "sample_env =
     \<lparr>ev_millis = (\<lambda>t. ''7''), ev_rfc3339 = (\<lambda>t. replicate t (CHR ''z'')),
      ev_to_json = (\<lambda>e. case e of System x \<Rightarrow> system_event_id x | _ \<Rightarrow> []),
      ev_from_json = (\<lambda>s. Some (if s = [] then clip_event else payload (queued_sample s)))\<rparr>"

definition sample_privacy :: PrivacyConfig where
  "sample_privacy =
     \<lparr>excluded_apps = [], excluded_app_patterns = [], excluded_title_patterns = [],
      auto_exclude_sensitive = False, privacy_pii_level = PiiOff\<rparr>"

definition sample_egress :: PlatformEgressPolicy where
  "sample_egress =
     \<lparr>policy_enabled = True, external_data_policy = AllowFiltered, privacy_config = sample_privacy\<rparr>"

definition telemetry_state :: ConsentState where
  "telemetry_state =
     state (manager (snd (grant_consent Some NoFault ''c1'' 0 (default_permissions\<lparr>telemetry := True\<rparr>) 30
       (consent_new id [] \<lparr>consent_file = None :: ConsentRecord option option, tmp_file = None\<rparr>))))"

definition sample_view :: "bool \<Rightarrow> egress_view" where
  "sample_view consented =
     \<lparr>view_config = None, view_consent = (if consented then Some telemetry_state else None), view_now = 1,
      view_clock = \<lparr>weekday = Mon, time_of_day = 12 * hour\<rparr>\<rparr>"

lemma sample_view_enabled: "egress_enabled sample_egress (sample_view b) \<longleftrightarrow> b"
  by (simp add: egress_enabled_def upload_enabled_live_def telemetry_consented_def tracking_schedule_allowed_def
      sample_view_def sample_egress_def telemetry_state_def may_upload_telemetry_def permissions_snapshot_def
      effective_permissions_def check_consent_locked_at_def consent_defs default_permissions_def)

definition sample_input :: "bool \<Rightarrow> upload_error + unit \<Rightarrow> sync_input" where
  "sample_input consented answer =
     \<lparr>in_view = sample_view consented, in_cells = [False, False], in_fails = False, in_fails_late = False,
      in_now = 1, in_suppressed = False, in_answer = answer, in_cutoff = 0, in_shutdown = False\<rparr>"

definition sample_store :: event_store where
  "sample_store = \<lparr>conn = [], gc_deletion_flag = 0, gc_erasing = 1\<rparr>"

definition sample_spool :: spool where
  "sample_spool = spool_new sample_store (uploader_new ''s'' 10 1) None"

lemma offer_event_eval:
  "offer_event env p v e s =
     (case prepare_event_for_upload p v e of
        Some x \<Rightarrow>
          s\<lparr>sp_up := enqueue \<lparr>storage_id = storage_event_id env e, payload = x\<rparr> (sp_up s),
            prepared := prepared s @ [(v, e, \<lparr>storage_id = storage_event_id env e, payload = x\<rparr>)]\<rparr>
      | None \<Rightarrow> s)"
  by (simp add: offer_event_def Let_def split: option.split)

lemmas spool_eval = sample_spool_def spool_new_def sample_store_def sample_input_def sample_view_enabled
  begin_flush_def server_answers_def offer_event_eval prepare_event_for_upload_def
  save_event_def mark_as_sent_def run_statement_def with_conn_mut_def guard_run_def write_lock_def load_cell_def
  get_pending_events_def pending_rows_def decode_rows_def insert_event_def set_sent_def map_filter_simps upload_eval

definition mail_title :: string where
  "mail_title = ''Re: ann@b.org''"

definition mail_event :: "string \<Rightarrow> Event" where
  "mail_event title =
     Context \<lparr>ctx_app_name = ''Mail'', ctx_window_title = title, prev_app_name = None, ctx_timestamp = 0,
              input_activity_level = 0\<rparr>"

lemma sample_filter: "filter_event sample_egress (mail_event mail_title) = Some (mail_event ''Re: [EMAIL]'')"
proof -
  have "effective_egress_pii_level AllowFiltered PiiOff = PiiBasic"
    by (simp add: effective_egress_pii_level_def max_def less_eq_PiiFilterLevel_def)
  moreover have "sanitize_title_with_level mail_title PiiBasic = ''Re: [EMAIL]''" by code_simp
  ultimately show ?thesis
    by (simp add: mail_event_def should_skip_def should_exclude_by_policy_def should_exclude_iff sample_egress_def
        sample_privacy_def matches_exclusion_pattern_def egress_sanitize_title_def)
qed

definition mail_run :: "spool_op list" where
  "mail_run =
     [Sync (sample_input True (Inr ())), Save [False, False] False (mail_event mail_title),
      Offer 0 (sample_view True), Sync (sample_input True (Inr ())), Sync (sample_input True (Inr ())),
      Sync (sample_input True (Inr ()))]"

lemma mail_run_result:
  "map payload (wire (foldl (spool_step sample_env sample_egress) sample_spool mail_run)) = [mail_event ''Re: [EMAIL]'']"
  by (simp add: mail_run_def spool_eval sample_filter)



definition saved_run :: "spool_op list" where
  "saved_run =
     [Save [False, False] False (payload (queued_sample ''a'')), Save [False, False] False clip_event,
      Save [False, False] False (payload (queued_sample ''b''))]"

definition sample_row :: "string \<Rightarrow> string \<Rightarrow> string \<Rightarrow> event_row" where
  "sample_row i ty d = \<lparr>er_event_id = i, er_event_type = ty, er_timestamp = [], er_data = d, is_sent = False\<rparr>"

lemma saved_rows:
  "sp_store (foldl (spool_step sample_env sample_egress) sample_spool saved_run) =
     sample_store\<lparr>conn := [sample_row ''a'' ''NetworkChange'' ''a'', sample_row ''clip_7'' ''clipboard_change'' [],
       sample_row ''b'' ''NetworkChange'' ''b'']\<rparr>"
  by (simp add: saved_run_def spool_eval queued_sample_def clip_event_def sample_env_def sample_row_def)


section \<open>Limits\<close>

definition tick :: "bool \<Rightarrow> spool_op" where
  "tick consented = Sync (sample_input consented (Inr ()))"

definition record_sample :: "string \<Rightarrow> spool_op list" where
  "record_sample i = [Save [False, False] False (payload (queued_sample i)), Offer 0 (sample_view True)]"

abbreviation sample_run :: "spool_op list \<Rightarrow> spool" where
  "sample_run ops \<equiv> foldl (spool_step sample_env sample_egress) sample_spool ops"

lemmas limit_eval = tick_def record_sample_def spool_eval queued_sample_def sample_env_def REPRIME_LIMIT_def

text \<open>
  Uploading that is switched off, or a schedule window that closes, while unsent events are put back
  marks the rest of them as sent: they never leave the device and no later restart finds them.
\<close>

theorem closing_window_retires_unsent:
  "let s = sample_run [Save [False, False] False (payload (queued_sample ''a'')), Restart (uploader_new ''s'' 10 1),
       tick True, tick False, tick False, tick True]
   in map is_sent (conn (sp_store s)) = [True] \<and> wire s = [] \<and> upload_queue (sp_up s) = []"
  by (simp add: limit_eval)

text \<open>A batch that the server rejects for good is dropped, but stays unsent and comes back at every start.\<close>

theorem rejected_batch_returns:
  "let s = sample_run (tick True # record_sample ''a'' @ [tick True, Sync (sample_input True (Inl (Rejected ''validation''))),
       Restart (uploader_new ''s'' 10 1), tick True, tick True])
   in map storage_id (upload_queue (sp_up s)) = [''a'']"
  by (simp add: limit_eval)

text \<open>An erasure empties the table, not the queue: an event that was queued before it is still uploaded.\<close>

theorem erased_event_is_uploaded:
  "let s = sample_run (tick True # record_sample ''a'' @ [EraseEvents, tick True, tick True])
   in conn (sp_store s) = [] \<and> map storage_id (wire s) = [''a'']"
  by (simp add: limit_eval)

text \<open>A batch under way is retried, and sent, after uploading was disabled.\<close>

theorem disabled_batch_is_retried:
  "let s = sample_run (tick True # record_sample ''a'' @ [tick True, Sync (sample_input False (Inl (Network ''reset''))), tick False])
   in map storage_id (wire s) = [''a'', ''a''] \<and> acked s = [''a'']"
  by (simp add: limit_eval)

end
