(* ===== verification/Hlc_Clock.thy ===== *)
theory Hlc_Clock
  imports Hlc
begin

text \<open>
  The persistent clock of \<open>crates/maekon-storage/src/sqlite/hlc_clock.rs\<close>, which stamps every
  local write of a synced table. Its state is the singleton row of the \<open>hlc_clock\<close> table, two
  signed SQLite integers (the casts \<open>as i64\<close> and back are written out), and the memoized device
  id. Tuples are compared lexicographically, as in Rust.
\<close>

type_synonym floor_row = "(int \<times> int) option"

definition read_floor :: "floor_row \<Rightarrow> u64 \<times> u32" where
  "read_floor row =
     (case row of
        None \<Rightarrow> (0, 0)
      | Some (w, c) \<Rightarrow> (word_of_int (max 0 w), word_of_int (min (max 0 c) (2 ^ 32 - 1))))"

definition write_floor :: "u64 \<Rightarrow> u32 \<Rightarrow> floor_row" where
  "write_floor wall c = Some (sint wall, uint c)"

text \<open>The memo is filled by the first non-empty id only.\<close>

definition clock_device_id :: "string option \<Rightarrow> string option \<Rightarrow> string \<times> string option" where
  "clock_device_id memo device_identity =
     (case memo of
        Some d \<Rightarrow> (d, memo)
      | None \<Rightarrow>
          let d = (case device_identity of None \<Rightarrow> [] | Some d \<Rightarrow> d)
          in (d, if d \<noteq> [] then Some d else None))"

definition next_stamp :: "u64 \<Rightarrow> string \<Rightarrow> floor_row \<Rightarrow> Hlc \<times> floor_row" where
  "next_stamp now dev row =
     (let (wall, c) = read_floor row;
          h = (if now > wall then Hlc now 0 dev
               else if c = - 1 then Hlc (saturating_add wall 1) 0 dev
               else Hlc wall (c + 1) dev)
      in (h, write_floor (wall_ms h) (counter h)))"

definition clock_next ::
  "u64 \<Rightarrow> string option \<Rightarrow> string option \<times> floor_row \<Rightarrow> Hlc \<times> (string option \<times> floor_row)" where
  "clock_next now device_identity st =
     (let (dev, memo) = clock_device_id (fst st) device_identity;
          (h, row) = next_stamp now dev (snd st)
      in (h, (memo, row)))"

definition seed_to_floor :: "u64 \<Rightarrow> u32 \<Rightarrow> floor_row \<Rightarrow> floor_row" where
  "seed_to_floor floor_wall floor_counter row =
     (if (floor_wall, floor_counter) > read_floor row
      then write_floor floor_wall floor_counter else row)"

text \<open>
  The per-table query: the largest wall and, among its rows, the largest counter; \<open>(0, 0)\<close> for an
  empty table (\<open>COALESCE\<close>).
\<close>

definition table_max_hlc :: "(int \<times> int) list \<Rightarrow> int \<times> int" where
  "table_max_hlc rows =
     (let mw = (if rows = [] then 0 else Max (fst ` set rows));
          top = filter (\<lambda>r. fst r = mw) rows
      in (if top = [] then (0, 0) else (Max (fst ` set top), Max (snd ` set top))))"

definition raise_floor :: "u64 \<times> u32 \<Rightarrow> u64 \<times> u32 \<Rightarrow> u64 \<times> u32" where
  "raise_floor acc p = (if p > acc then p else acc)"

text \<open>
  \<open>anchor\<close> is the retained erasure stamp of \<open>app_meta\<close>, already parsed: \<open>None\<close> when the key is
  absent or its JSON does not parse.
\<close>

definition seed_from_db :: "(int \<times> int) list list \<Rightarrow> Hlc option \<Rightarrow> floor_row \<Rightarrow> floor_row" where
  "seed_from_db tables anchor row =
     (let f = foldl (\<lambda>acc rows. raise_floor acc (read_floor (Some (table_max_hlc rows))))
                (0, 0) tables;
          g = (case anchor of None \<Rightarrow> f | Some e \<Rightarrow> raise_floor f (wall_ms e, counter e))
      in seed_to_floor (fst g) (snd g) row)"

subsection \<open>The stamp rises above the floor\<close>

abbreviation stamp_of :: "Hlc \<Rightarrow> u64 \<times> u32" where
  "stamp_of h \<equiv> (wall_ms h, counter h)"

text \<open>A wall-clock reading that survives the cast to a signed 64-bit integer.\<close>

definition storable :: "u64 \<Rightarrow> bool" where
  "storable w \<longleftrightarrow> uint w < 2 ^ 63"

lemma sint_storable:
  assumes "storable w"
  shows "sint w = uint w"
  using signed_take_bit_int_eq_self [of 63 "uint w"] sint_uint [of w] uint_ge_0 [of w] assms
  by (simp add: storable_def)

lemma read_write_floor:
  assumes "storable w"
  shows "read_floor (write_floor w c) = (w, c)"
proof -
  have "uint c \<le> 2 ^ 32 - 1" using uint_lt2p [of c] by simp
  then show ?thesis
    using assms by (simp add: read_floor_def write_floor_def sint_storable min_absorb1)
qed

lemma storable_inc:
  assumes "uint w < 2 ^ 63 - 1"
  shows "w < w + 1" and "saturating_add w 1 = w + 1" and "storable (w + 1)"
proof -
  have ne: "w \<noteq> - 1"
    using assms by (auto simp: unsigned_minus_1_eq_mask mask_eq_exp_minus_1)
  then show "w < w + 1" by (rule word_inc_less)
  have fit: "uint (w + 1) = uint w + 1"
    using assms uint_add_lem [of w 1] by simp
  then show "storable (w + 1)" using assms by (simp add: storable_def)
  have "unat (w + 1) < 2 ^ LENGTH(64)" by (rule unsigned_less)
  then show "saturating_add w 1 = w + 1"
    using unat_inc [OF ne] by (simp add: saturating_add_def)
qed

lemma next_stamp_above:
  assumes "next_stamp now dev row = (h, row')"
    and "uint (fst (read_floor row)) < 2 ^ 63 - 1" and "storable now"
  shows "read_floor row < stamp_of h" and "read_floor row' = stamp_of h"
proof -
  obtain wall c where rf: "read_floor row = (wall, c)" by (cases "read_floor row")
  have w: "uint wall < 2 ^ 63 - 1" using assms(2) rf by simp
  then have sw: "storable wall" by (simp add: storable_def)
  have h: "h = (if now > wall then Hlc now 0 dev
               else if c = - 1 then Hlc (wall + 1) 0 dev else Hlc wall (c + 1) dev)"
    and row': "row' = write_floor (wall_ms h) (counter h)"
    using assms(1) rf storable_inc(2) [OF w] by (auto simp: next_stamp_def Let_def)
  show "read_floor row < stamp_of h"
    using rf h storable_inc(1) [OF w] word_inc_less [of c] by auto
  have "storable (wall_ms h)" using h assms(3) sw storable_inc(3) [OF w] by simp
  then show "read_floor row' = stamp_of h" using row' by (simp add: read_write_floor)
qed

subsection \<open>The seed dominates what is stored\<close>

lemma raise_floor_ge: "acc \<le> raise_floor acc p" "p \<le> raise_floor acc p"
  by (auto simp: raise_floor_def)

lemma fold_raise_floor_ge:
  "acc \<le> foldl (\<lambda>acc x. raise_floor acc (f x)) acc xs \<and>
   (\<forall>x \<in> set xs. f x \<le> foldl (\<lambda>acc x. raise_floor acc (f x)) acc xs)"
proof (induction xs arbitrary: acc)
  case Nil
  then show ?case by simp
next
  case (Cons x xs)
  let ?a = "raise_floor acc (f x)"
  let ?r = "foldl (\<lambda>acc x. raise_floor acc (f x)) ?a xs"
  have "acc \<le> ?a" and "f x \<le> ?a" by (rule raise_floor_ge)+
  moreover have "?a \<le> ?r" and "\<forall>x \<in> set xs. f x \<le> ?r" using Cons.IH by blast+
  ultimately show ?case by (auto intro: order.trans)
qed

lemma seed_to_floor_ge:
  assumes "storable w"
  shows "(w, c) \<le> read_floor (seed_to_floor w c row)"
    and "read_floor row \<le> read_floor (seed_to_floor w c row)"
  using read_write_floor [OF assms, of c] by (auto simp: seed_to_floor_def)

text \<open>The signed values a row of a synced table holds: a wall below the cast limit, a \<open>u32\<close> counter.\<close>

definition row_ok :: "int \<times> int \<Rightarrow> bool" where
  "row_ok r \<longleftrightarrow> 0 \<le> fst r \<and> fst r < 2 ^ 63 - 1 \<and> 0 \<le> snd r \<and> snd r < 2 ^ 32"

definition row_stamp :: "int \<times> int \<Rightarrow> u64 \<times> u32" where
  "row_stamp r = (word_of_int (fst r), word_of_int (snd r))"

lemma uint_row_stamp:
  assumes "row_ok r"
  shows "uint (fst (row_stamp r)) = fst r" and "uint (snd (row_stamp r)) = snd r"
  using assms by (simp_all add: row_ok_def row_stamp_def unsigned_of_int take_bit_int_eq_self)

lemma read_floor_row:
  assumes "row_ok r"
  shows "read_floor (Some r) = row_stamp r"
  using assms by (cases r) (simp add: read_floor_def row_stamp_def row_ok_def min_absorb1)

lemma row_stamp_mono:
  assumes "row_ok r" and "row_ok s" and "r \<le> s"
  shows "row_stamp r \<le> row_stamp s"
  using assms(3) uint_row_stamp [OF assms(1)] uint_row_stamp [OF assms(2)]
  by (cases r; cases s)
     (auto simp: less_eq_prod_def word_le_def word_less_def)

lemma table_max_hlc_mem:
  assumes "rows \<noteq> []"
  shows "\<exists>c. (fst (table_max_hlc rows), c) \<in> set rows \<and> table_max_hlc rows \<in> set rows"
    and "\<And>r. r \<in> set rows \<Longrightarrow> r \<le> table_max_hlc rows"
proof -
  define mw where "mw = Max (fst ` set rows)"
  define top where "top = filter (\<lambda>r. fst r = mw) rows"
  have "mw \<in> fst ` set rows" unfolding mw_def using assms by (intro Max_in) auto
  then have top_ne: "top \<noteq> []" by (auto simp: top_def filter_empty_conv)
  have wall: "Max (fst ` set top) = mw"
  proof -
    have "fst ` set top = {mw}" using top_ne by (auto simp: top_def filter_empty_conv)
    then show ?thesis by simp
  qed
  define mc where "mc = Max (snd ` set top)"
  have mem: "mc \<in> snd ` set top" unfolding mc_def using top_ne by (intro Max_in) auto
  have eq: "table_max_hlc rows = (mw, mc)"
    using assms top_ne wall by (simp add: table_max_hlc_def mw_def top_def mc_def Let_def)
  then show "\<exists>c. (fst (table_max_hlc rows), c) \<in> set rows \<and> table_max_hlc rows \<in> set rows"
    using mem by (auto simp: top_def)
  fix r assume r: "r \<in> set rows"
  then have "fst r \<le> mw" by (simp add: mw_def)
  moreover have "fst r = mw \<Longrightarrow> snd r \<le> mc" using r by (auto simp: top_def mc_def)
  ultimately show "r \<le> table_max_hlc rows"
    using eq by (cases r, cases "fst r = mw") (auto simp: less_eq_prod_def)
qed

lemma table_max_hlc_bound:
  assumes "r \<in> set rows" and "\<And>r. r \<in> set rows \<Longrightarrow> row_ok r"
  shows "row_stamp r \<le> read_floor (Some (table_max_hlc rows))"
    and "row_ok (table_max_hlc rows)"
proof -
  have ne: "rows \<noteq> []" using assms(1) by auto
  show ok: "row_ok (table_max_hlc rows)" using table_max_hlc_mem(1) [OF ne] assms(2) by blast
  show "row_stamp r \<le> read_floor (Some (table_max_hlc rows))"
    using row_stamp_mono [OF assms(2) [OF assms(1)] ok table_max_hlc_mem(2) [OF ne assms(1)]]
    by (simp add: read_floor_row ok)
qed

abbreviation table_floor :: "(int \<times> int) list \<Rightarrow> u64 \<times> u32" where
  "table_floor rows \<equiv> read_floor (Some (table_max_hlc rows))"

lemma table_floor_small:
  assumes "\<And>r. r \<in> set rows \<Longrightarrow> row_ok r"
  shows "uint (fst (table_floor rows)) < 2 ^ 63 - 1"
proof -
  have "row_ok (table_max_hlc rows)"
  proof (cases "rows = []")
    case True
    then show ?thesis by (simp add: table_max_hlc_def row_ok_def)
  next
    case False
    then obtain r where "r \<in> set rows" by (cases rows) auto
    with assms show ?thesis by (blast intro: table_max_hlc_bound)
  qed
  then show ?thesis
    using uint_row_stamp [of "table_max_hlc rows"] by (simp add: read_floor_row row_ok_def)
qed

lemma fold_raise_floor_small:
  assumes "uint (fst acc) < (B::int)" and "\<And>x. x \<in> set xs \<Longrightarrow> uint (fst (f x)) < B"
  shows "uint (fst (foldl (\<lambda>acc x. raise_floor acc (f x)) acc xs)) < B"
  using assms by (induction xs arbitrary: acc) (simp_all add: raise_floor_def)

lemma seed_from_db_ge:
  assumes rows: "\<And>rows r. rows \<in> set tables \<Longrightarrow> r \<in> set rows \<Longrightarrow> row_ok r"
    and anchor: "\<And>e. anchor = Some e \<Longrightarrow> uint (wall_ms e) < 2 ^ 63 - 1"
    and cur: "uint (fst (read_floor row)) < 2 ^ 63 - 1"
  defines "g \<equiv> read_floor (seed_from_db tables anchor row)"
  shows "uint (fst g) < 2 ^ 63 - 1"
    and "\<And>rows r. rows \<in> set tables \<Longrightarrow> r \<in> set rows \<Longrightarrow> row_stamp r \<le> g"
    and "\<And>e. anchor = Some e \<Longrightarrow> stamp_of e \<le> g"
proof -
  define f where "f = foldl (\<lambda>acc rows. raise_floor acc (table_floor rows)) (0, 0) tables"
  define k where "k = (case anchor of None \<Rightarrow> f | Some e \<Rightarrow> raise_floor f (stamp_of e))"
  have "uint (fst f) < 2 ^ 63 - 1"
    unfolding f_def
  proof (rule fold_raise_floor_small)
    show "uint (fst (table_floor rows)) < 2 ^ 63 - 1" if "rows \<in> set tables" for rows
      using rows that by (blast intro: table_floor_small)
  qed simp
  then have k_small: "uint (fst k) < 2 ^ 63 - 1"
    using anchor by (auto simp: k_def raise_floor_def split: option.splits)
  then have k_st: "storable (fst k)" by (simp add: storable_def)
  have g: "g = read_floor (seed_to_floor (fst k) (snd k) row)"
    unfolding g_def seed_from_db_def k_def f_def Let_def by simp
  have kg: "k \<le> g" using seed_to_floor_ge(1) [OF k_st, of "snd k" row] g by simp
  have fk: "f \<le> k" by (auto simp: k_def intro: raise_floor_ge split: option.splits)
  show "uint (fst g) < 2 ^ 63 - 1"
    using g k_small cur read_write_floor [OF k_st] by (auto simp: seed_to_floor_def)
  show "stamp_of e \<le> g" if "anchor = Some e" for e
    using raise_floor_ge(2) [of "stamp_of e" f] kg that by (simp add: k_def)
  fix rs r assume m: "rs \<in> set tables" "r \<in> set rs"
  have "row_stamp r \<le> table_floor rs" using table_max_hlc_bound(1) [of r rs] rows m by blast
  also have "table_floor rs \<le> f"
    using fold_raise_floor_ge [of "(0, 0)" table_floor tables] m(1) f_def by blast
  finally show "row_stamp r \<le> g" using fk kg by (blast intro: order.trans)
qed

subsection \<open>Properties\<close>

text \<open>
  Every stamp \<open>HlcClock::next\<close> issues is strictly above the durable floor, also where the
  counter is at \<open>u32::MAX\<close>, and the floor it persists reads back as that stamp.
\<close>

theorem clock_next_rises:
  assumes "clock_next now ident (memo, row) = (h, (memo', row'))"
    and "uint (fst (read_floor row)) < 2 ^ 63 - 1" and "storable now"
  shows "read_floor row < (wall_ms h, counter h) \<and> read_floor row' = (wall_ms h, counter h)"
  using assms next_stamp_above by (auto simp: clock_next_def Let_def split: prod.splits)



end
