(* ===== verification/Circuit_Breaker.thy ===== *)
theory Circuit_Breaker
  imports Prelude
begin

text \<open>
  The consecutive-failure breaker of \<open>crates/maekon-core/src/circuit_breaker.rs\<close>. The sequential
  operations are functions on the breaker; for concurrent callers every atomic access is one step
  of the relation \<open>breaker_step\<close>, so that all interleavings of \<open>load\<close>, \<open>fetch_add\<close> and
  \<open>compare_exchange\<close> are covered.
\<close>

record CircuitBreaker =
  consecutive_failures :: u32
  threshold :: u32
  retry_interval :: u32

definition breaker_new :: "u32 \<Rightarrow> u32 \<Rightarrow> CircuitBreaker" where
  "breaker_new thr ivl = \<lparr>consecutive_failures = 0, threshold = thr, retry_interval = ivl\<rparr>"

text \<open>\<open>u32::is_multiple_of\<close>: zero is a multiple of zero and nothing else is.\<close>

definition is_multiple_of :: "u32 \<Rightarrow> u32 \<Rightarrow> bool" where
  "is_multiple_of n m \<longleftrightarrow> (if m = 0 then n = 0 else n mod m = 0)"

text \<open>\<open>compare_exchange\<close> on the counter: the new breaker and whether it succeeded.\<close>

definition compare_exchange :: "CircuitBreaker \<Rightarrow> u32 \<Rightarrow> u32 \<Rightarrow> CircuitBreaker \<times> bool" where
  "compare_exchange b current new =
     (if consecutive_failures b = current then (b\<lparr>consecutive_failures := new\<rparr>, True) else (b, False))"

definition fetch_add_one :: "CircuitBreaker \<Rightarrow> CircuitBreaker" where
  "fetch_add_one b = b\<lparr>consecutive_failures := consecutive_failures b + 1\<rparr>"

text \<open>
  What \<open>should_proceed\<close> does after it loaded \<open>failures\<close>; run at once it is the sequential
  operation.
\<close>

definition proceed_after_load :: "u32 \<Rightarrow> CircuitBreaker \<Rightarrow> CircuitBreaker \<times> bool" where
  "proceed_after_load failures b =
     (if failures < threshold b then (b, True)
      else if \<not> is_multiple_of failures (retry_interval b) then (fetch_add_one b, False)
      else compare_exchange b failures (failures + 1))"

definition should_proceed :: "CircuitBreaker \<Rightarrow> CircuitBreaker \<times> bool" where
  "should_proceed b = proceed_after_load (consecutive_failures b) b"

definition record_success :: "CircuitBreaker \<Rightarrow> CircuitBreaker" where
  "record_success b = b\<lparr>consecutive_failures := 0\<rparr>"

definition record_failure :: "CircuitBreaker \<Rightarrow> CircuitBreaker" where
  "record_failure b = fetch_add_one b"

definition failure_count :: "CircuitBreaker \<Rightarrow> u32" where
  "failure_count b = consecutive_failures b"

definition set_failure_count :: "u32 \<Rightarrow> CircuitBreaker \<Rightarrow> CircuitBreaker" where
  "set_failure_count n b = b\<lparr>consecutive_failures := n\<rparr>"

lemmas breaker_defs = proceed_after_load_def compare_exchange_def fetch_add_one_def
  should_proceed_def record_success_def record_failure_def

subsection \<open>Concurrent callers\<close>

text \<open>
  A caller is idle or has loaded a value. \<open>epoch\<close> and \<open>claims\<close> are ghosts: the epoch counts the
  stores to the counter (a success or an explicit reset) and the wrap-arounds, and \<open>claims\<close> lists
  the retry slots granted to a caller while the breaker was open, as epoch and counter value.
\<close>

record breaker_sys =
  brk :: CircuitBreaker
  loaded :: "nat \<Rightarrow> u32 option"
  epoch :: nat
  claims :: "(nat \<times> u32) list"

definition bump_epoch :: "CircuitBreaker \<Rightarrow> nat \<Rightarrow> nat" where
  "bump_epoch b e = (if consecutive_failures b = - 1 then Suc e else e)"

inductive breaker_step :: "breaker_sys \<Rightarrow> breaker_sys \<Rightarrow> bool" where
  load: "loaded s i = None \<Longrightarrow>
     breaker_step s (s\<lparr>loaded := (loaded s)(i \<mapsto> consecutive_failures (brk s))\<rparr>)"
| closed: "loaded s i = Some v \<Longrightarrow> v < threshold (brk s) \<Longrightarrow>
     breaker_step s (s\<lparr>loaded := (loaded s)(i := None)\<rparr>)"
| skip: "loaded s i = Some v \<Longrightarrow> \<not> v < threshold (brk s) \<Longrightarrow>
     \<not> is_multiple_of v (retry_interval (brk s)) \<Longrightarrow>
     breaker_step s (s\<lparr>loaded := (loaded s)(i := None), brk := fetch_add_one (brk s),
                       epoch := bump_epoch (brk s) (epoch s)\<rparr>)"
| claim: "loaded s i = Some v \<Longrightarrow> \<not> v < threshold (brk s) \<Longrightarrow>
     is_multiple_of v (retry_interval (brk s)) \<Longrightarrow>
     compare_exchange (brk s) v (v + 1) = (b', True) \<Longrightarrow>
     breaker_step s (s\<lparr>loaded := (loaded s)(i := None), brk := b',
                       epoch := bump_epoch (brk s) (epoch s),
                       claims := (epoch s, v) # claims s\<rparr>)"
| lost: "loaded s i = Some v \<Longrightarrow> \<not> v < threshold (brk s) \<Longrightarrow>
     is_multiple_of v (retry_interval (brk s)) \<Longrightarrow>
     compare_exchange (brk s) v (v + 1) = (b', False) \<Longrightarrow>
     breaker_step s (s\<lparr>loaded := (loaded s)(i := None), brk := b'\<rparr>)"
| success: "breaker_step s (s\<lparr>brk := record_success (brk s), epoch := Suc (epoch s)\<rparr>)"
| failure: "breaker_step s (s\<lparr>brk := record_failure (brk s), epoch := bump_epoch (brk s) (epoch s)\<rparr>)"
| reset: "breaker_step s (s\<lparr>brk := set_failure_count n (brk s), epoch := Suc (epoch s)\<rparr>)"

inductive breaker_reachable :: "CircuitBreaker \<Rightarrow> breaker_sys \<Rightarrow> bool" for b where
  init: "breaker_reachable b \<lparr>brk = b, loaded = (\<lambda>_. None), epoch = 0, claims = []\<rparr>"
| step: "breaker_reachable b s \<Longrightarrow> breaker_step s t \<Longrightarrow> breaker_reachable b t"

text \<open>
  Claims of an older epoch, or of the current one below the counter; each pair at most once; and
  the configuration never moves.
\<close>

definition claims_inv :: "CircuitBreaker \<Rightarrow> breaker_sys \<Rightarrow> bool" where
  "claims_inv b s \<longleftrightarrow>
     distinct (claims s) \<and>
     (\<forall>(e, v) \<in> set (claims s). e < epoch s \<or> e = epoch s \<and> v < consecutive_failures (brk s)) \<and>
     threshold (brk s) = threshold b \<and> retry_interval (brk s) = retry_interval b \<and>
     (\<forall>(e, v) \<in> set (claims s). threshold b \<le> v \<and> is_multiple_of v (retry_interval b))"

lemma below_bumped:
  assumes "e < ep \<or> e = ep \<and> v < consecutive_failures b"
  shows "e < bump_epoch b ep \<or> e = bump_epoch b ep \<and> v < consecutive_failures b + 1"
proof (cases "consecutive_failures b = - 1")
  case True
  with assms show ?thesis by (auto simp: bump_epoch_def)
next
  case False
  with assms word_inc_less [OF False] show ?thesis
    by (auto simp: bump_epoch_def intro: order.strict_trans)
qed

lemma claims_inv_add_one:
  assumes "claims_inv b s"
  shows "\<forall>(e, v) \<in> set (claims s).
    e < bump_epoch (brk s) (epoch s) \<or>
    e = bump_epoch (brk s) (epoch s) \<and> v < consecutive_failures (brk s) + 1"
  using assms below_bumped unfolding claims_inv_def by blast

lemma breaker_step_inv:
  assumes "breaker_step s t" and "claims_inv b s"
  shows "claims_inv b t"
  using assms
proof (induction rule: breaker_step.induct)
  case (skip s i v)
  then show ?case using claims_inv_add_one [of b s]
    by (auto simp: claims_inv_def fetch_add_one_def)
next
  case (claim s i v b')
  then have v: "consecutive_failures (brk s) = v" and b': "b' = (brk s)\<lparr>consecutive_failures := v + 1\<rparr>"
    by (auto simp: compare_exchange_def split: if_splits)
  have "(epoch s, v) \<notin> set (claims s)"
    using claim.prems v by (auto simp: claims_inv_def)
  moreover have "epoch s < bump_epoch (brk s) (epoch s) \<or>
      epoch s = bump_epoch (brk s) (epoch s) \<and> v < v + 1"
    using word_inc_less [of v] v by (auto simp: bump_epoch_def)
  ultimately show ?case
    using claim claims_inv_add_one [of b s] v b'
    by (auto simp: claims_inv_def)
next
  case (lost s i v b')
  then show ?case by (auto simp: claims_inv_def compare_exchange_def split: if_splits)
next
  case (failure s)
  then show ?case using claims_inv_add_one [of b s]
    by (auto simp: claims_inv_def record_failure_def fetch_add_one_def)
qed (auto simp: claims_inv_def record_success_def set_failure_count_def less_Suc_eq)

lemma breaker_reachable_inv: "breaker_reachable b s \<Longrightarrow> claims_inv b s"
proof (induction rule: breaker_reachable.induct)
  case init
  show ?case by (simp add: claims_inv_def)
next
  case (step s t)
  then show ?case by (blast intro: breaker_step_inv)
qed

subsection \<open>The open breaker, called in sequence\<close>

lemma should_proceed_cases:
  "should_proceed b =
     (if consecutive_failures b < threshold b then (b, True)
      else (fetch_add_one b, is_multiple_of (consecutive_failures b) (retry_interval b)))"
  by (simp add: breaker_defs)

text \<open>The breaker after \<open>k\<close> calls of \<open>should_proceed\<close>.\<close>

definition after_calls :: "nat \<Rightarrow> CircuitBreaker \<Rightarrow> CircuitBreaker" where
  "after_calls k b = ((\<lambda>b. fst (should_proceed b)) ^^ k) b"

lemma after_calls_open:
  assumes "\<not> consecutive_failures b < threshold b"
    and "unat (consecutive_failures b) + k < 2 ^ 32"
  shows "after_calls k b = b\<lparr>consecutive_failures := consecutive_failures b + of_nat k\<rparr> \<and>
    unat (consecutive_failures b + of_nat k) = unat (consecutive_failures b) + k"
  using assms(2)
proof (induction k)
  case 0
  then show ?case by (simp add: after_calls_def)
next
  case (Suc k)
  let ?c = "consecutive_failures b"
  from Suc have IH: "after_calls k b = b\<lparr>consecutive_failures := ?c + of_nat k\<rparr>"
      "unat (?c + of_nat k) = unat ?c + k" by auto
  have ge: "\<not> ?c + of_nat k < threshold b"
    using assms(1) IH(2) by (simp add: word_less_nat_alt)
  have "?c + of_nat k \<noteq> - 1"
    using IH(2) Suc.prems by (auto simp: unsigned_minus_1_eq_mask mask_eq_exp_minus_1)
  from unat_inc [OF this] IH(2) have "unat (?c + of_nat (Suc k)) = unat ?c + Suc k"
    by (simp add: algebra_simps)
  moreover have "after_calls (Suc k) b = fst (should_proceed (after_calls k b))"
    by (simp add: after_calls_def)
  ultimately show ?case
    using IH(1) ge by (simp add: should_proceed_cases fetch_add_one_def algebra_simps)
qed

lemma is_multiple_of_unat:
  assumes "m \<noteq> 0"
  shows "is_multiple_of n m \<longleftrightarrow> unat n mod unat m = 0"
proof -
  have "n mod m = 0 \<longleftrightarrow> unat (n mod m) = 0" by (simp only: unat_eq_zero)
  also have "unat (n mod m) = unat n mod unat m" by (rule unat_mod)
  finally show ?thesis using assms by (simp add: is_multiple_of_def)
qed

subsection \<open>Properties\<close>

text \<open>
  Whatever the interleaving of callers, a retry slot of the open breaker (a counter value
  between two resets) is granted to at most one caller, and only slots at or above the threshold
  that are multiples of the retry interval are granted.
\<close>

theorem breaker_slot_granted_once:
  assumes "breaker_reachable b s"
  shows "distinct (claims s) \<and>
    (\<forall>(e, v) \<in> set (claims s). threshold b \<le> v \<and> is_multiple_of v (retry_interval b))"
  using breaker_reachable_inv [OF assms] by (simp add: claims_inv_def)

theorem breaker_slot_granted_once_witness:
  "\<exists>s. breaker_reachable \<lparr>consecutive_failures = 4, threshold = 3, retry_interval = 2\<rparr> s \<and>
     claims s = [(0, 4)] \<and> loaded s 1 = Some 4 \<and> distinct (claims s)"
proof -
  let ?b = "\<lparr>consecutive_failures = 4, threshold = 3, retry_interval = 2\<rparr> :: CircuitBreaker"
  let ?s0 = "\<lparr>brk = ?b, loaded = (\<lambda>_. None), epoch = 0, claims = []\<rparr> :: breaker_sys"
  let ?s1 = "?s0\<lparr>loaded := (\<lambda>_. None)(0 \<mapsto> 4)\<rparr>"
  let ?s2 = "?s0\<lparr>loaded := (\<lambda>_. None)(0 \<mapsto> 4, 1 \<mapsto> 4)\<rparr>"
  let ?s3 = "?s2\<lparr>loaded := (loaded ?s2)(0 := None), brk := ?b\<lparr>consecutive_failures := 5\<rparr>,
                 epoch := 0, claims := [(0, 4)]\<rparr>"
  have s1: "breaker_step ?s0 ?s1" using breaker_step.load [of ?s0 0] by simp
  have s2: "breaker_step ?s1 ?s2" using breaker_step.load [of ?s1 1] by simp
  have s3: "breaker_step ?s2 ?s3"
    using breaker_step.claim [of ?s2 0 4 "?b\<lparr>consecutive_failures := 5\<rparr>"]
    by (simp add: compare_exchange_def is_multiple_of_def bump_epoch_def)
  note step = breaker_reachable.step
  have r: "breaker_reachable ?b ?s3"
    by (rule step [OF step [OF step [OF breaker_reachable.init s1] s2] s3])
  then show ?thesis using breaker_slot_granted_once [OF r] by (intro exI [of _ ?s3]) simp
qed

text \<open>
  An open breaker does not starve: with a non-zero retry interval and no counter overflow, one
  of the next \<open>retry_interval\<close> calls of \<open>should_proceed\<close> is let through.
\<close>

theorem breaker_retries_within_interval:
  assumes "threshold b \<le> consecutive_failures b" and "retry_interval b \<noteq> 0"
    and "unat (consecutive_failures b) + unat (retry_interval b) < 2 ^ 32"
  shows "\<exists>k < unat (retry_interval b). snd (should_proceed (after_calls k b))"
proof -
  let ?c = "unat (consecutive_failures b)" and ?m = "unat (retry_interval b)"
  have m: "0 < ?m" using assms(2) by (simp add: unat_gt_0)
  define k where "k = (?m - ?c mod ?m) mod ?m"
  have k: "k < ?m" using m by (simp add: k_def)
  have mult: "(?c + k) mod ?m = 0"
  proof (cases "?c mod ?m = 0")
    case True
    then show ?thesis by (simp add: k_def)
  next
    case False
    then have "k = ?m - ?c mod ?m" using m by (simp add: k_def)
    then have "?c + k = (?c div ?m) * ?m + ?m"
      using mod_less_divisor [OF m, of ?c] div_mult_mod_eq [of ?c ?m] by linarith
    then show ?thesis by simp
  qed
  have "after_calls k b = b\<lparr>consecutive_failures := consecutive_failures b + of_nat k\<rparr> \<and>
      unat (consecutive_failures b + of_nat k) = ?c + k"
    using after_calls_open [of b k] assms(1,3) k by (simp add: not_less)
  then have "snd (should_proceed (after_calls k b))"
    using mult assms(2) is_multiple_of_unat [of "retry_interval b"]
    by (simp add: should_proceed_cases)
  with k show ?thesis by blast
qed

theorem breaker_retries_within_interval_witness:
  "\<exists>k < unat (4 :: u32). snd (should_proceed (after_calls k
     \<lparr>consecutive_failures = 5, threshold = 3, retry_interval = 4\<rparr>))"
  using breaker_retries_within_interval
    [of "\<lparr>consecutive_failures = 5, threshold = 3, retry_interval = 4\<rparr>"] by simp

end
