(* ===== verification/Erasure.thy ===== *)
theory Erasure
  imports Consent Guarded_Connection Hlc_Clock
begin

text \<open>
  The local erasure of a withdrawn consent: \<open>delete_all_data\<close> of
  \<open>crates/maekon-storage/src/sqlite/maintenance/retention.rs\<close>, the \<open>app_meta\<close> helpers of
  \<open>crates/maekon-storage/src/sqlite/mod.rs\<close>, and the commands of
  \<open>src-tauri/src/commands/consent.rs\<close>: the consent commands with their audit entries, the erase
  window, the phases of \<open>erase_all_local_data\<close> and the retry at launch.

  \<open>erase_all_local_data\<close> is asynchronous: between two of its phases other tasks run. It is a
  machine with a program counter, and a run interleaves its steps with the writers, the frame
  savers and the consent calls of other tasks. Each fallible call of the phases has its outcome in
  \<open>erase_env\<close>.
\<close>

subsection \<open>The database as erasure sees it\<close>

text \<open>
  A row of a user table: the text of its key expression and its origin device. \<open>hlc_row\<close> and
  \<open>device_row\<close> are the singleton tables \<open>hlc_clock\<close> and \<open>device_identity\<close>.
\<close>

record erase_row =
  row_key :: string
  row_origin :: "string option"

record tombstone_row =
  ts_table :: string
  ts_row_id :: string
  ts_origin :: string
  ts_wall :: u64
  ts_counter :: u32

record erase_db =
  tables :: "string \<Rightarrow> erase_row list"
  hlc_row :: floor_row
  device_row :: "string option"
  app_meta :: "string \<Rightarrow> string option"
  sync_tombstones :: "tombstone_row list"

definition ALL_TABLES :: "string list" where
  "ALL_TABLES =
    [''events'', ''frames'', ''system_metrics'', ''system_metrics_hourly'', ''process_snapshots'',
     ''idle_periods'', ''session_stats'', ''work_sessions'', ''interruptions'', ''focus_metrics'',
     ''suggestions'', ''local_suggestions'', ''frame_tags'', ''tags'', ''activity_segments'',
     ''calibration_log'', ''daily_digests'', ''weekly_digests'', ''embedding_vectors'',
     ''regime_overrides'', ''regimes'', ''trigger_params_snapshots'', ''search_fts'',
     ''vector_binary_codes'', ''vector_index_meta'', ''ivf_centroids'', ''ivf_assignments'',
     ''gui_interactions'', ''device_identity'', ''sync_peers'', ''lan_peer_pins'',
     ''coaching_events'', ''regime_goals'', ''coaching_effectiveness'',
     ''feedback_scorer_tallies'', ''regime_reaction_stats'', ''adaptive_scorer_state'',
     ''ai_conversation_messages'', ''ai_sessions'', ''frame_annotations'', ''habit_streaks'',
     ''regime_manager_state'', ''automation_presets'', ''feedback_retries'', ''memory_edges'',
     ''memory_claims'', ''hlc_clock'', ''digest_processing_markers'', ''transcripts'',
     ''pomodoro_state'', ''todo_blockers'', ''task_transition_receipts'', ''todo_items'',
     ''task_source_refs'', ''task_candidates'', ''work_context_raw_blobs'',
     ''work_context_projections'', ''work_context_conflicts'', ''work_context_tombstones'',
     ''work_context_cursors'', ''work_context_access_epochs'', ''work_context_envelopes'',
     ''skill_pack_activation'', ''skill_pack_catalog'', ''vault_mirror_state'',
     ''effective_mapping_cache'', ''wbs_xlsx_output_receipts'']"

definition SYNCED_TOMBSTONE_SOURCES :: "string list" where
  "SYNCED_TOMBSTONE_SOURCES =
    [''activity_segments'', ''regimes'', ''regime_overrides'', ''embedding_vectors'',
     ''suggestions'', ''trigger_params_snapshots'']"

definition ERASURE_HLC_META_KEY :: string where
  "ERASURE_HLC_META_KEY = ''sync.erasure_hlc''"

definition PENDING_LOCAL_ERASE_KEY :: string where
  "PENDING_LOCAL_ERASE_KEY = ''pending_local_erase''"

text \<open>\<open>INSERT OR REPLACE\<close> into \<open>sync_tombstones\<close>, whose key is the table and the row id.\<close>

definition put_tombstone :: "tombstone_row \<Rightarrow> tombstone_row list \<Rightarrow> tombstone_row list" where
  "put_tombstone x ts =
     filter (\<lambda>y. \<not> (ts_table y = ts_table x \<and> ts_row_id y = ts_row_id x)) ts @ [x]"

definition capture_tombstones :: "Hlc \<Rightarrow> erase_db \<Rightarrow> string \<Rightarrow> erase_db" where
  "capture_tombstones e db t =
     db\<lparr>sync_tombstones :=
          foldl (\<lambda>ts r. put_tombstone
              \<lparr>ts_table = t, ts_row_id = row_key r, ts_origin = device_id e,
               ts_wall = wall_ms e, ts_counter = counter e\<rparr> ts)
            (sync_tombstones db)
            (filter (\<lambda>r. row_origin r = Some (device_id e)) (tables db t))\<rparr>"

definition delete_from :: "erase_db \<Rightarrow> string \<Rightarrow> erase_db" where
  "delete_from db t =
     (if t = ''hlc_clock'' then db\<lparr>hlc_row := None\<rparr>
      else if t = ''device_identity'' then db\<lparr>device_row := None\<rparr>
      else db\<lparr>tables := (tables db)(t := [])\<rparr>)"

text \<open>
  One transaction: tick the clock, persist the erasure stamp, capture the tombstones, empty the
  tables, commit. When a statement or the commit fails (\<open>fails\<close>) the transaction rolls back.
\<close>

definition delete_all_data_inner ::
  "(Hlc \<Rightarrow> string) \<Rightarrow> u64 \<Rightarrow> string option \<Rightarrow> bool \<Rightarrow> erase_db
    \<Rightarrow> (StorageError + unit) \<times> erase_db" where
  "delete_all_data_inner hlc_json now memo fails db =
     (if fails then (Inl (Internal ''GDPR delete failed''), db)
      else
        let (e, (memo', row)) = clock_next now (device_row db) (memo, hlc_row db);
            db1 = db\<lparr>hlc_row := row,
                     app_meta := (app_meta db)(ERASURE_HLC_META_KEY \<mapsto> hlc_json e)\<rparr>;
            db2 = foldl (capture_tombstones e) db1 SYNCED_TOMBSTONE_SOURCES
        in (Inr (), foldl delete_from db2 ALL_TABLES))"

definition delete_all_data ::
  "(Hlc \<Rightarrow> string) \<Rightarrow> u64 \<Rightarrow> string option \<Rightarrow> bool \<Rightarrow> erase_db GuardedConnection
    \<Rightarrow> (StorageError + unit) \<times> erase_db GuardedConnection" where
  "delete_all_data hlc_json now memo fails g =
     retained_run g (delete_all_data_inner hlc_json now memo fails)"

definition get_meta :: "string \<Rightarrow> erase_db GuardedConnection \<Rightarrow> string option" where
  "get_meta k g = app_meta (conn g) k"

definition set_meta_checked ::
  "bool \<Rightarrow> string \<Rightarrow> string \<Rightarrow> erase_db GuardedConnection
    \<Rightarrow> (StorageError + unit) \<times> erase_db GuardedConnection" where
  "set_meta_checked ok k v g =
     retained_run g (\<lambda>db. if ok then (Inr (), db\<lparr>app_meta := (app_meta db)(k \<mapsto> v)\<rparr>)
                          else (Inl (Internal ''app_meta set_meta_checked failed''), db))"

definition delete_meta_checked ::
  "bool \<Rightarrow> string \<Rightarrow> erase_db GuardedConnection
    \<Rightarrow> (StorageError + unit) \<times> erase_db GuardedConnection" where
  "delete_meta_checked ok k g =
     retained_run g (\<lambda>db. if ok then (Inr (), db\<lparr>app_meta := (app_meta db)(k := None)\<rparr>)
                          else (Inl (Internal ''app_meta delete_meta_checked failed''), db))"

subsection \<open>The erase machine\<close>

text \<open>What the vault port answers: an error, or a report with a number of failures.\<close>

datatype vault_outcome = VaultErr string | VaultReport nat

definition is_complete :: "nat \<Rightarrow> bool" where
  "is_complete failures \<longleftrightarrow> failures = 0"

record erase_env =
  env_now :: u64
  env_memo :: "string option"
  marker_ok :: bool
  phase1_fails :: bool
  frame_wired :: bool
  list_fails :: bool
  stuck :: "string \<Rightarrow> bool"
  vault :: "vault_outcome option"
  evidence_path :: bool
  evidence_ok :: bool
  retry_marker_ok :: bool
  clear_ok :: bool

record erase_world =
  ew_cells :: cells
  sql :: "erase_db GuardedConnection"
  frames :: FrameFileStorage
  evidence :: bool

datatype erase_pc =
    Begin | PreMarker | Phase1 | Phase2 | Phase3 | Phase4 | ClearMarker
  | Leaving "IpcError + unit" | Returned "IpcError + unit"

text \<open>\<open>EraseWindowGuard\<close>: set on entry, cleared by \<open>Drop\<close> on every exit.\<close>

definition store_erasing :: "bool \<Rightarrow> erase_world \<Rightarrow> erase_world" where
  "store_erasing b w = w\<lparr>ew_cells := store_cell (ew_cells w) (gc_erasing (sql w)) b\<rparr>"

definition write_marker :: "bool \<Rightarrow> erase_world \<Rightarrow> erase_world" where
  "write_marker ok w =
     w\<lparr>sql := snd (set_meta_checked ok PENDING_LOCAL_ERASE_KEY ''1'' (sql w))\<rparr>"

definition fail_with :: "erase_env \<Rightarrow> IpcError \<Rightarrow> erase_world \<Rightarrow> erase_pc \<times> erase_world" where
  "fail_with env e w = (Leaving (Inl e), write_marker (retry_marker_ok env) w)"

fun erase_step ::
  "(Hlc \<Rightarrow> string) \<Rightarrow> erase_env \<Rightarrow> erase_pc \<times> erase_world \<Rightarrow> erase_pc \<times> erase_world" where
  "erase_step js env (Begin, w) = (PreMarker, store_erasing True w)"
| "erase_step js env (PreMarker, w) = (Phase1, write_marker (marker_ok env) w)"
| "erase_step js env (Phase1, w) =
     (case delete_all_data js (env_now env) (env_memo env) (phase1_fails env) (sql w) of
        (Inl e, g) \<Rightarrow> (Leaving (Inl (IpcFromStorage e)), w\<lparr>sql := g\<rparr>)
      | (Inr u, g) \<Rightarrow> (Phase2, w\<lparr>sql := g\<rparr>))"
| "erase_step js env (Phase2, w) =
     (if \<not> frame_wired env then fail_with env (IpcNew ''storage.unavailable'') w
      else case delete_all_files (list_fails env) (stuck env) (frames w) of
             (Inl e, s) \<Rightarrow> fail_with env (IpcFromStorage e) (w\<lparr>frames := s\<rparr>)
           | (Inr n, s) \<Rightarrow> (Phase3, w\<lparr>frames := s\<rparr>))"
| "erase_step js env (Phase3, w) =
     (case vault env of
        None \<Rightarrow> fail_with env (IpcNew ''storage.unavailable'') w
      | Some (VaultErr e) \<Rightarrow> fail_with env (IpcFromCore e) w
      | Some (VaultReport failures) \<Rightarrow>
          if is_complete failures then (Phase4, w)
          else fail_with env (IpcNew ''storage.failed'') w)"
| "erase_step js env (Phase4, w) =
     (if evidence_path env
      then if evidence_ok env then (ClearMarker, w\<lparr>evidence := False\<rparr>)
           else fail_with env (IpcNew ''storage.failed'') w
      else (ClearMarker, w))"
| "erase_step js env (ClearMarker, w) =
     (Leaving (Inr ()),
      w\<lparr>sql := snd (delete_meta_checked (clear_ok env) PENDING_LOCAL_ERASE_KEY (sql w))\<rparr>)"
| "erase_step js env (Leaving r, w) = (Returned r, store_erasing False w)"
| "erase_step js env (Returned r, w) = (Returned r, w)"

definition erase_all_local_data ::
  "(Hlc \<Rightarrow> string) \<Rightarrow> erase_env \<Rightarrow> erase_world \<Rightarrow> erase_pc \<times> erase_world" where
  "erase_all_local_data js env w = (erase_step js env ^^ 8) (Begin, w)"

definition retry_pending_local_erase ::
  "(Hlc \<Rightarrow> string) \<Rightarrow> erase_env \<Rightarrow> erase_world \<Rightarrow> erase_world" where
  "retry_pending_local_erase js env w =
     (if get_meta PENDING_LOCAL_ERASE_KEY (sql w) = None then w
      else snd (erase_all_local_data js env w))"

text \<open>
  The events of a run: a step of the erasure, a write of another task through the funnel, a
  frame save, a consent call storing the deletion flag, and a write of another \<open>app_meta\<close> key.
\<close>

datatype erase_event =
    Step
  | EnvWrite "erase_db \<Rightarrow> (StorageError + unit) \<times> erase_db"
  | EnvSaveFrame u64 "StorageError + (string \<times> string)"
  | EnvDeletionFlag bool
  | EnvMeta string string

fun erase_event_step ::
  "(Hlc \<Rightarrow> string) \<Rightarrow> erase_env \<Rightarrow> erase_pc \<times> erase_world \<Rightarrow> erase_event
    \<Rightarrow> erase_pc \<times> erase_world" where
  "erase_event_step js env s Step = erase_step js env s"
| "erase_event_step js env (pc, w) (EnvWrite f) =
     (pc, w\<lparr>sql := snd (with_conn_mut (ew_cells w) () f (sql w))\<rparr>)"
| "erase_event_step js env (pc, w) (EnvSaveFrame m out) =
     (pc, w\<lparr>frames := snd (save_frame (ew_cells w) m out (frames w))\<rparr>)"
| "erase_event_step js env (pc, w) (EnvDeletionFlag b) =
     (pc, w\<lparr>ew_cells := store_cell (ew_cells w) (gc_deletion_flag (sql w)) b\<rparr>)"
| "erase_event_step js env (pc, w) (EnvMeta k v) =
     (pc, w\<lparr>sql := snd (set_meta_checked True k v (sql w))\<rparr>)"

subsection \<open>The wipe\<close>

definition singleton_tables :: "string list" where
  "singleton_tables = [''hlc_clock'', ''device_identity'']"

text \<open>Every table of the erasure scope is empty.\<close>

definition erased :: "erase_db \<Rightarrow> bool" where
  "erased db \<longleftrightarrow>
     (\<forall>t \<in> set ALL_TABLES - set singleton_tables. tables db t = []) \<and>
     hlc_row db = None \<and> device_row db = None"

definition local_tombstone :: "Hlc \<Rightarrow> string \<Rightarrow> erase_row \<Rightarrow> tombstone_row" where
  "local_tombstone e t r =
     \<lparr>ts_table = t, ts_row_id = row_key r, ts_origin = device_id e,
      ts_wall = wall_ms e, ts_counter = counter e\<rparr>"

lemma delete_from_keeps [simp]:
  "app_meta (delete_from db t) = app_meta db"
  "sync_tombstones (delete_from db t) = sync_tombstones db"
  by (simp_all add: delete_from_def)

lemma foldl_delete_from_keeps [simp]:
  "app_meta (foldl delete_from db ts) = app_meta db"
  "sync_tombstones (foldl delete_from db ts) = sync_tombstones db"
  by (induction ts arbitrary: db) simp_all

lemma foldl_delete_from_tables:
  "tables (foldl delete_from db ts) t =
     (if t \<in> set ts - set singleton_tables then [] else tables db t)"
  by (induction ts arbitrary: db) (auto simp: delete_from_def singleton_tables_def)

lemma foldl_delete_from_singletons:
  "hlc_row (foldl delete_from db ts) = (if ''hlc_clock'' \<in> set ts then None else hlc_row db)"
  "device_row (foldl delete_from db ts) =
     (if ''device_identity'' \<in> set ts then None else device_row db)"
  by (induction ts arbitrary: db) (auto simp: delete_from_def)

lemma singletons_in_scope: "''hlc_clock'' \<in> set ALL_TABLES" "''device_identity'' \<in> set ALL_TABLES"
  by (simp_all add: ALL_TABLES_def)

lemma wipe_erased: "erased (foldl delete_from db ALL_TABLES)"
  by (simp add: erased_def foldl_delete_from_tables foldl_delete_from_singletons singletons_in_scope)

subsection \<open>The tombstones\<close>

lemma put_tombstone_keeps:
  assumes "y \<in> set ts"
    and "ts_table y = ts_table x \<and> ts_row_id y = ts_row_id x \<longrightarrow> y = x"
  shows "y \<in> set (put_tombstone x ts)"
  using assms by (auto simp: put_tombstone_def)

lemma foldl_put_keeps:
  assumes "y \<in> set ts"
    and "\<forall>x \<in> set xs. ts_table y = ts_table (f x) \<and> ts_row_id y = ts_row_id (f x) \<longrightarrow> y = f x"
  shows "y \<in> set (foldl (\<lambda>ts x. put_tombstone (f x) ts) ts xs)"
  using assms by (induction xs arbitrary: ts) (auto simp: put_tombstone_keeps)

lemma foldl_put_adds:
  assumes "r \<in> set xs"
    and "\<forall>x \<in> set xs. ts_table (f r) = ts_table (f x) \<and> ts_row_id (f r) = ts_row_id (f x)
      \<longrightarrow> f r = f x"
  shows "f r \<in> set (foldl (\<lambda>ts x. put_tombstone (f x) ts) ts xs)"
  using assms
proof (induction xs arbitrary: ts)
  case Nil
  then show ?case by simp
next
  case (Cons a xs)
  have "f a \<in> set (put_tombstone (f a) ts)" by (simp add: put_tombstone_def)
  then show ?case
    using Cons by (cases "r = a") (simp_all add: foldl_put_keeps)
qed

lemma capture_tombstones_alt:
  "capture_tombstones e db t =
     db\<lparr>sync_tombstones := foldl (\<lambda>ts r. put_tombstone (local_tombstone e t r) ts)
          (sync_tombstones db) (filter (\<lambda>r. row_origin r = Some (device_id e)) (tables db t))\<rparr>"
  by (simp add: capture_tombstones_def local_tombstone_def)

lemma foldl_capture_keeps [simp]:
  "tables (foldl (capture_tombstones e) db ts) = tables db"
  "app_meta (foldl (capture_tombstones e) db ts) = app_meta db"
  by (induction ts arbitrary: db) (simp_all add: capture_tombstones_alt)

lemma capture_keeps_tombstone:
  assumes "y \<in> set (sync_tombstones db)" and "ts_origin y = device_id e"
    and "ts_wall y = wall_ms e" and "ts_counter y = counter e"
  shows "y \<in> set (sync_tombstones (foldl (capture_tombstones e) db ts))"
  using assms(1)
proof (induction ts arbitrary: db)
  case Nil
  then show ?case by simp
next
  case (Cons t ts)
  have "y \<in> set (sync_tombstones (capture_tombstones e db t))"
    using Cons.prems assms(2-) unfolding capture_tombstones_alt
    by (auto intro!: foldl_put_keeps simp: local_tombstone_def)
  then show ?case using Cons.IH by simp
qed

lemma capture_captures:
  assumes "t \<in> set ts" and "r \<in> set (tables db t)" and "row_origin r = Some (device_id e)"
  shows "local_tombstone e t r \<in> set (sync_tombstones (foldl (capture_tombstones e) db ts))"
  using assms(1,2)
proof (induction ts arbitrary: db)
  case Nil
  then show ?case by simp
next
  case (Cons u ts)
  show ?case
  proof (cases "u = t")
    case True
    have "local_tombstone e t r \<in> set (sync_tombstones (capture_tombstones e db t))"
      using Cons.prems(2) assms(3) unfolding capture_tombstones_alt
      by (auto intro!: foldl_put_adds simp: local_tombstone_def)
    then show ?thesis
      using True by (auto intro!: capture_keeps_tombstone simp: local_tombstone_def)
  next
    case False
    then show ?thesis
      using Cons by (auto simp: capture_tombstones_alt intro!: Cons.IH)
  qed
qed

text \<open> A committed wipe empties every table in the erasure scope and no other table, leaves the
  erasure stamp as the retained anchor, and leaves a tombstone at that stamp for every row of this device in the synced tables; a failed
  wipe leaves the database untouched.\<close>

theorem wipe_erases_and_leaves_tombstones:
  assumes "delete_all_data js now memo fails g = (res, g')"
    and "clock_next now (device_row (conn g)) (memo, hlc_row (conn g)) = (e, st)"
  shows "if fails then (\<exists>err. res = Inl err) \<and> g' = g
    else res = Inr () \<and> erased (conn g') \<and>
      (\<forall>t. t \<notin> set ALL_TABLES \<longrightarrow> tables (conn g') t = tables (conn g) t) \<and>
      app_meta (conn g') = (app_meta (conn g))(ERASURE_HLC_META_KEY \<mapsto> js e) \<and>
      (\<forall>t \<in> set SYNCED_TOMBSTONE_SOURCES. \<forall>r \<in> set (tables (conn g) t).
         row_origin r = Some (device_id e) \<longrightarrow>
         local_tombstone e t r \<in> set (sync_tombstones (conn g')))"
proof (cases fails)
  case True
  then show ?thesis
    using assms(1) by (auto simp: delete_all_data_def retained_run_def delete_all_data_inner_def)
next
  case False
  define db1 where "db1 = (conn g)\<lparr>hlc_row := snd st,
    app_meta := (app_meta (conn g))(ERASURE_HLC_META_KEY \<mapsto> js e)\<rparr>"
  have c': "conn g' =
      foldl delete_from (foldl (capture_tombstones e) db1 SYNCED_TOMBSTONE_SOURCES) ALL_TABLES"
    and "res = Inr ()"
    using assms False
    by (auto simp: delete_all_data_def retained_run_def delete_all_data_inner_def db1_def Let_def
        split: prod.splits)
  moreover have "\<And>t r. t \<in> set SYNCED_TOMBSTONE_SOURCES \<Longrightarrow> r \<in> set (tables (conn g) t) \<Longrightarrow>
      row_origin r = Some (device_id e) \<Longrightarrow> local_tombstone e t r \<in> set (sync_tombstones (conn g'))"
    unfolding c' by (auto simp: db1_def intro!: capture_captures)
  ultimately show ?thesis
    using False by (auto simp: wipe_erased foldl_delete_from_tables db1_def)
qed

theorem wipe_erases_and_leaves_tombstones_witness:
  "let db = \<lparr>tables = (\<lambda>t. if t = ''regimes'' then [\<lparr>row_key = ''r1'', row_origin = Some ''dev''\<rparr>]
                           else []),
             hlc_row = None, device_row = Some ''dev'', app_meta = Map.empty,
             sync_tombstones = []\<rparr>;
       g' = snd (delete_all_data (\<lambda>_. ''j'') 7 None False
              \<lparr>conn = db, gc_deletion_flag = 0, gc_erasing = 2\<rparr>)
   in erased (conn g') \<and>
      local_tombstone (Hlc 7 0 ''dev'') ''regimes'' \<lparr>row_key = ''r1'', row_origin = Some ''dev''\<rparr>
        \<in> set (sync_tombstones (conn g'))"
proof -
  let ?r = "\<lparr>row_key = ''r1'', row_origin = Some ''dev''\<rparr>"
  let ?db = "\<lparr>tables = (\<lambda>t. if t = ''regimes'' then [?r] else []),
             hlc_row = None, device_row = Some ''dev'', app_meta = Map.empty,
             sync_tombstones = []\<rparr>"
  let ?g = "\<lparr>conn = ?db, gc_deletion_flag = 0, gc_erasing = 2\<rparr>"
  obtain res g' where d: "delete_all_data (\<lambda>_. ''j'') 7 None False ?g = (res, g')"
    by fastforce
  have k: "clock_next 7 (device_row (conn ?g)) (None, hlc_row (conn ?g)) =
      (Hlc 7 0 ''dev'', (Some ''dev'', write_floor 7 0))"
    by (simp add: clock_next_def clock_device_id_def next_stamp_def read_floor_def Let_def)
  have m: "''regimes'' \<in> set SYNCED_TOMBSTONE_SOURCES"
    by (simp add: SYNCED_TOMBSTONE_SOURCES_def)
  show ?thesis
    using wipe_erases_and_leaves_tombstones [OF d k] m by (simp add: d Let_def)
qed

subsection \<open>The erase window\<close>

definition wired :: "erase_world \<Rightarrow> bool" where
  "wired w \<longleftrightarrow>
     fs_erasing (frames w) = gc_erasing (sql w) \<and>
     gc_erasing (sql w) < length (ew_cells w) \<and>
     gc_deletion_flag (sql w) \<noteq> gc_erasing (sql w)"

fun in_window :: "erase_pc \<Rightarrow> bool" where
  "in_window Begin = False"
| "in_window (Returned r) = False"
| "in_window _ = True"

fun sql_done :: "erase_pc \<Rightarrow> bool" where
  "sql_done Phase2 = True"
| "sql_done Phase3 = True"
| "sql_done Phase4 = True"
| "sql_done ClearMarker = True"
| "sql_done (Leaving (Inr u)) = True"
| "sql_done _ = False"

fun frames_done :: "erase_pc \<Rightarrow> bool" where
  "frames_done Phase3 = True"
| "frames_done Phase4 = True"
| "frames_done ClearMarker = True"
| "frames_done (Leaving (Inr u)) = True"
| "frames_done _ = False"

text \<open>No frame directory is left but those that could not be removed.\<close>

definition frames_erased :: "(string \<Rightarrow> bool) \<Rightarrow> FrameFileStorage \<Rightarrow> bool" where
  "frames_erased stk s \<longleftrightarrow> (\<forall>(d, fs) \<in> set (frame_dirs s). is_date_dir d \<longrightarrow> stk d)"

definition erase_inv :: "erase_env \<Rightarrow> erase_pc \<times> erase_world \<Rightarrow> bool" where
  "erase_inv env s \<longleftrightarrow>
     wired (snd s) \<and>
     (in_window (fst s) \<longrightarrow> load_cell (ew_cells (snd s)) (gc_erasing (sql (snd s)))) \<and>
     (\<forall>r. fst s = Returned r \<longrightarrow>
        \<not> load_cell (ew_cells (snd s)) (gc_erasing (sql (snd s)))) \<and>
     (sql_done (fst s) \<longrightarrow> erased (conn (sql (snd s)))) \<and>
     (frames_done (fst s) \<longrightarrow> frames_erased (stuck env) (frames (snd s)))"

lemma done_in_window:
  "sql_done pc \<Longrightarrow> in_window pc"
  "frames_done pc \<Longrightarrow> sql_done pc"
  by (cases pc rule: sql_done.cases; simp)+

lemma meta_helpers [simp]:
  "gc_erasing (snd (set_meta_checked ok k v g)) = gc_erasing g"
  "gc_deletion_flag (snd (set_meta_checked ok k v g)) = gc_deletion_flag g"
  "gc_erasing (snd (delete_meta_checked ok k g)) = gc_erasing g"
  "gc_deletion_flag (snd (delete_meta_checked ok k g)) = gc_deletion_flag g"
  "erased (conn (snd (set_meta_checked ok k v g))) = erased (conn g)"
  "erased (conn (snd (delete_meta_checked ok k g))) = erased (conn g)"
  by (auto simp: set_meta_checked_def delete_meta_checked_def retained_run_def erased_def
      singleton_tables_def)

lemma write_marker_world [simp]:
  "ew_cells (write_marker ok w) = ew_cells w"
  "frames (write_marker ok w) = frames w"
  "gc_erasing (sql (write_marker ok w)) = gc_erasing (sql w)"
  "gc_deletion_flag (sql (write_marker ok w)) = gc_deletion_flag (sql w)"
  "erased (conn (sql (write_marker ok w))) = erased (conn (sql w))"
  by (simp_all add: write_marker_def)

lemma delete_all_data_cases:
  assumes "delete_all_data js now memo fails g = (res, g')"
  shows "gc_erasing g' = gc_erasing g" "gc_deletion_flag g' = gc_deletion_flag g"
    "res = Inr u \<Longrightarrow> erased (conn g')"
    "k \<noteq> ERASURE_HLC_META_KEY \<Longrightarrow> app_meta (conn g') k = app_meta (conn g) k"
  using assms
  by (auto simp: delete_all_data_def retained_run_def delete_all_data_inner_def Let_def wipe_erased
      split: prod.splits if_splits)

lemma delete_all_files_erases:
  assumes "delete_all_files lf stk s = (Inr n, s')"
  shows "frames_erased stk s'" and "fs_erasing s' = fs_erasing s"
  using assms
  by (force simp: delete_all_files_def delete_date_dirs_chunked_def list_date_dirs_def
      frames_erased_def Let_def filter_empty_conv split: if_splits prod.splits)+

lemma delete_all_files_error:
  assumes "delete_all_files lf stk s = (Inl e, s')"
  shows "s' = s"
  using assms by (auto simp: delete_all_files_def Let_def split: if_splits prod.splits)

lemmas erase_inv_defs = erase_inv_def wired_def fail_with_def store_erasing_def

lemma erase_step_inv:
  assumes "erase_inv env (pc, w)"
  shows "erase_inv env (erase_step js env (pc, w))"
proof (cases pc)
  case Phase1
  obtain res g where d:
    "delete_all_data js (env_now env) (env_memo env) (phase1_fails env) (sql w) = (res, g)"
    by fastforce
  show ?thesis
    using assms delete_all_data_cases [OF d] Phase1 d by (cases res) (auto simp: erase_inv_defs)
next
  case Phase2
  obtain res s where d: "delete_all_files (list_fails env) (stuck env) (frames w) = (res, s)"
    by fastforce
  show ?thesis
  proof (cases res)
    case (Inl e)
    then show ?thesis
      using assms Phase2 d delete_all_files_error [of "list_fails env" "stuck env" "frames w" e s]
      by (simp add: erase_inv_defs)
  next
    case (Inr n)
    then show ?thesis
      using assms Phase2 d delete_all_files_erases [of "list_fails env" "stuck env" "frames w" n s]
      by (simp add: erase_inv_defs)
  qed
next
  case Phase3
  then show ?thesis
    using assms by (auto simp: erase_inv_defs split: option.split vault_outcome.split)
next
  case (Leaving r)
  then show ?thesis using assms by (cases r) (auto simp: erase_inv_defs)
qed (use assms in \<open>auto simp: erase_inv_defs\<close>)

lemma erase_event_inv:
  assumes "erase_inv env s"
  shows "erase_inv env (erase_event_step js env s x)"
proof -
  obtain pc w where s: "s = (pc, w)" by fastforce
  have blocked: "in_window pc \<Longrightarrow> write_blocked (ew_cells w) (sql w) \<and>
      frames_blocked (ew_cells w) (frames w)"
    using assms by (simp add: s erase_inv_def wired_def write_blocked_def frames_blocked_def)
  show ?thesis
  proof (cases x)
    case Step
    then show ?thesis using assms erase_step_inv by (simp add: s)
  next
    case (EnvWrite f)
    then show ?thesis
      using assms blocked with_conn_mut_blocked [of "ew_cells w" "sql w" "()" f] done_in_window
      by (auto simp: s erase_inv_def wired_def)
  next
    case (EnvSaveFrame m out)
    then show ?thesis
      using assms blocked done_in_window
      by (auto simp: s erase_inv_def wired_def save_frame_def frames_blocked_def
          split: sum.split)
  qed (use assms in \<open>auto simp: s erase_inv_def wired_def\<close>)
qed

interpretation erase_machine: invariant_machine "erase_event_step js env" "erase_inv env"
  for js env
  by unfold_locales (rule erase_event_inv)

subsection \<open>Progress and the retry marker\<close>

fun steps_left :: "erase_pc \<Rightarrow> nat" where
  "steps_left Begin = 8"
| "steps_left PreMarker = 7"
| "steps_left Phase1 = 6"
| "steps_left Phase2 = 5"
| "steps_left Phase3 = 4"
| "steps_left Phase4 = 3"
| "steps_left ClearMarker = 2"
| "steps_left (Leaving r) = 1"
| "steps_left (Returned r) = 0"

lemma erase_step_progress: "steps_left (fst (erase_step js env (pc, w))) \<le> steps_left pc - 1"
  by (cases pc) (auto simp: fail_with_def split: prod.split sum.split option.split vault_outcome.split)

definition is_step :: "erase_event \<Rightarrow> bool" where
  "is_step x \<longleftrightarrow> (case x of Step \<Rightarrow> True | _ \<Rightarrow> False)"

lemma erase_run_progress:
  "steps_left (fst (foldl (erase_event_step js env) s xs)) \<le>
     steps_left (fst s) - length (filter is_step xs)"
proof (induction xs arbitrary: s)
  case Nil
  then show ?case by simp
next
  case (Cons x xs)
  obtain pc w where s: "s = (pc, w)" by fastforce
  have "steps_left (fst (erase_event_step js env s x)) \<le>
      steps_left (fst s) - (if is_step x then 1 else 0)"
    using erase_step_progress [of js env pc w] by (cases x) (auto simp: s is_step_def)
  then show ?case
    using Cons.IH [of "erase_event_step js env s x"] by (auto split: if_splits)
qed

lemma steps_left_0: "steps_left pc = 0 \<longleftrightarrow> (\<exists>r. pc = Returned r)"
  by (cases pc) auto

text \<open>The marker stands from its first write to the exit, except on the successful one.\<close>

fun marker_covers :: "erase_pc \<Rightarrow> bool" where
  "marker_covers Begin = False"
| "marker_covers PreMarker = False"
| "marker_covers (Leaving (Inr u)) = False"
| "marker_covers (Returned r) = False"
| "marker_covers _ = True"

definition marker_set :: "erase_world \<Rightarrow> bool" where
  "marker_set w \<longleftrightarrow> get_meta PENDING_LOCAL_ERASE_KEY (sql w) = Some ''1''"

definition other_key :: "erase_event \<Rightarrow> bool" where
  "other_key x \<longleftrightarrow> (case x of EnvMeta k v \<Rightarrow> k \<noteq> PENDING_LOCAL_ERASE_KEY | _ \<Rightarrow> True)"

lemma marker_covers_window: "marker_covers pc \<Longrightarrow> in_window pc"
  by (cases pc rule: marker_covers.cases) simp_all

lemma erasure_key_differs: "PENDING_LOCAL_ERASE_KEY \<noteq> ERASURE_HLC_META_KEY"
  by (simp add: PENDING_LOCAL_ERASE_KEY_def ERASURE_HLC_META_KEY_def)

lemma marker_set_write_marker: "marker_set (write_marker ok w) = (ok \<or> marker_set w)"
  by (simp add: marker_set_def write_marker_def get_meta_def set_meta_checked_def retained_run_def)

lemma marker_set_sql: "marker_set (w\<lparr>sql := g\<rparr>) = (app_meta (conn g) PENDING_LOCAL_ERASE_KEY = Some ''1'')"
  "marker_set (w\<lparr>frames := s\<rparr>) = marker_set w"
  "marker_set (w\<lparr>ew_cells := h\<rparr>) = marker_set w"
  "marker_set (w\<lparr>evidence := b\<rparr>) = marker_set w"
  by (simp_all add: marker_set_def get_meta_def)

lemma erase_step_marker:
  assumes "marker_ok env" and "marker_covers pc \<longrightarrow> marker_set w"
    and "erase_step js env (pc, w) = (pc', w')" and "marker_covers pc'"
  shows "marker_set w'"
proof (cases pc)
  case Phase1
  obtain res g where d:
    "delete_all_data js (env_now env) (env_memo env) (phase1_fails env) (sql w) = (res, g)"
    by fastforce
  show ?thesis
    using assms Phase1 d delete_all_data_cases(4) [OF d erasure_key_differs]
    by (cases res) (auto simp: marker_set_sql marker_set_def get_meta_def)
qed (use assms in \<open>auto simp: fail_with_def marker_set_write_marker marker_set_sql
      split: if_splits prod.splits sum.splits option.splits vault_outcome.splits\<close>)

lemma erase_event_marker:
  assumes "marker_ok env" and "erase_inv env (pc, w)" and "marker_covers pc \<longrightarrow> marker_set w"
    and "other_key x" and "erase_event_step js env (pc, w) x = (pc', w')" and "marker_covers pc'"
  shows "marker_set w'"
proof (cases x)
  case Step
  then show ?thesis using assms erase_step_marker by simp
next
  case (EnvWrite f)
  then have "write_blocked (ew_cells w) (sql w)"
    using assms marker_covers_window by (auto simp: erase_inv_def wired_def write_blocked_def)
  then show ?thesis using assms EnvWrite by (auto simp: with_conn_mut_blocked)
qed (use assms in \<open>auto simp: marker_set_sql other_key_def set_meta_checked_def retained_run_def
      marker_set_def get_meta_def\<close>)

lemma erase_run_marker:
  assumes "marker_ok env" and "erase_inv env s" and "marker_covers (fst s) \<longrightarrow> marker_set (snd s)"
    and "list_all other_key xs" and "foldl (erase_event_step js env) s xs = (pc', w')"
    and "marker_covers pc'"
  shows "marker_set w'"
  using assms(2-5)
proof (induction xs arbitrary: s)
  case Nil
  then show ?case using assms(6) by auto
next
  case (Cons x xs)
  obtain pc w where s: "s = (pc, w)" by fastforce
  obtain pc1 w1 where s1: "erase_event_step js env s x = (pc1, w1)" by fastforce
  have "marker_covers pc1 \<longrightarrow> marker_set w1"
    using erase_event_marker [OF assms(1), of pc w x js pc1 w1] Cons.prems s s1 by auto
  then show ?case
    using Cons.IH [of "(pc1, w1)"] Cons.prems s1 erase_event_inv [OF Cons.prems(1), of js x]
    by auto
qed

lemma erase_inv_begin: "wired w \<Longrightarrow> erase_inv env (Begin, w)"
  by (simp add: erase_inv_def)

lemma funpow_run: "(erase_step js env ^^ n) s = foldl (erase_event_step js env) s (replicate n Step)"
  by (induction n arbitrary: s) (simp_all add: funpow_Suc_right del: funpow.simps)

text \<open>An environment in which every phase goes through.\<close>

definition env_ok :: "erase_env \<Rightarrow> bool" where
  "env_ok env \<longleftrightarrow>
     \<not> phase1_fails env \<and> frame_wired env \<and> \<not> list_fails env \<and>
     vault env = Some (VaultReport 0) \<and> (evidence_path env \<longrightarrow> evidence_ok env)"

lemma delete_all_data_ok:
  "\<exists>g'. delete_all_data js now memo False g = (Inr (), g')"
  by (auto simp: delete_all_data_def retained_run_def delete_all_data_inner_def Let_def
      split: prod.split)

lemma delete_all_files_ok: "\<exists>n s'. delete_all_files False stk s = (Inr n, s')"
  by (auto simp: delete_all_files_def Let_def split: prod.split)

lemma erase_all_ok_leaving:
  assumes "env_ok env"
  shows "\<exists>w'. (erase_step js env ^^ 7) (Begin, w) = (Leaving (Inr ()), w') \<and>
    (clear_ok env \<longrightarrow> get_meta PENDING_LOCAL_ERASE_KEY (sql w') = None) \<and>
    frames w' = snd (delete_all_files False (stuck env) (frames w))"
proof -
  let ?w1 = "write_marker (marker_ok env) (store_erasing True w)"
  obtain g where g: "delete_all_data js (env_now env) (env_memo env) False (sql ?w1) = (Inr (), g)"
    using delete_all_data_ok by metis
  obtain n s where s: "delete_all_files False (stuck env) (frames w) = (Inr n, s)"
    using delete_all_files_ok by metis
  have fr: "frames (store_erasing True w) = frames w" by (simp add: store_erasing_def)
  show ?thesis
    using assms g s
    by (auto simp: eval_nat_numeral env_ok_def is_complete_def fr get_meta_def
        delete_meta_checked_def retained_run_def)
qed

lemma erase_all_ok:
  assumes "env_ok env" and "wired w"
  shows "\<exists>w'. erase_all_local_data js env w = (Returned (Inr ()), w') \<and>
    erased (conn (sql w')) \<and> frames_erased (stuck env) (frames w') \<and>
    (clear_ok env \<longrightarrow> get_meta PENDING_LOCAL_ERASE_KEY (sql w') = None) \<and>
    frames w' = snd (delete_all_files False (stuck env) (frames w))"
proof -
  obtain w7 where w7: "(erase_step js env ^^ 7) (Begin, w) = (Leaving (Inr ()), w7)"
    "clear_ok env \<longrightarrow> get_meta PENDING_LOCAL_ERASE_KEY (sql w7) = None"
    "frames w7 = snd (delete_all_files False (stuck env) (frames w))"
    using erase_all_ok_leaving [OF assms(1)] by blast
  have "erase_inv env (Leaving (Inr ()), w7)"
    using erase_machine.run_inv [OF erase_inv_begin [OF assms(2)]] w7(1)
    unfolding funpow_run by metis
  moreover have "erase_all_local_data js env w = (Returned (Inr ()), store_erasing False w7)"
    using w7(1) by (simp add: erase_all_local_data_def eval_nat_numeral)
  ultimately show ?thesis
    using w7 by (auto simp: erase_inv_def store_erasing_def)
qed

subsection \<open>Properties of the erasure\<close>

text \<open> C2. Whatever other tasks do while an erasure runs (writes through the funnel with any
  closure, frame saves, re-grants that clear the deletion flag, other \<open>app_meta\<close> writes), when it
  is about to report success every table of the erasure scope is empty, no removable frame
  directory is left, and its next step returns \<open>Ok\<close> on that same data.\<close>

theorem erasure_leaves_no_survivors:
  assumes "wired w"
    and "foldl (erase_event_step js env) (Begin, w) events = (Leaving (Inr ()), w')"
  shows "erased (conn (sql w')) \<and> frames_erased (stuck env) (frames w') \<and>
    (\<exists>w''. erase_step js env (Leaving (Inr ()), w') = (Returned (Inr ()), w'') \<and>
       sql w'' = sql w' \<and> frames w'' = frames w')"
proof -
  have "erase_inv env (Leaving (Inr ()), w')"
    using erase_machine.run_inv [OF erase_inv_begin [OF assms(1)], of env js events] assms(2)
    by simp
  then show ?thesis by (simp add: erase_inv_def store_erasing_def)
qed

definition sample_db :: erase_db where
  "sample_db = \<lparr>tables = (\<lambda>t. if t = ''events'' then [\<lparr>row_key = ''e1'', row_origin = None\<rparr>] else []),
     hlc_row = None, device_row = Some ''dev'', app_meta = Map.empty, sync_tombstones = []\<rparr>"

definition sample_world :: erase_world where
  "sample_world = \<lparr>ew_cells = [True, False],
     sql = \<lparr>conn = sample_db, gc_deletion_flag = 0, gc_erasing = 1\<rparr>,
     frames = \<lparr>frame_dirs = [(''2026-01-01'', [''a.webp'']), (''2026-01-02'', [''b.webp''])],
               fs_deletion_flag = 0, fs_erasing = 1\<rparr>,
     evidence = True\<rparr>"

definition sample_env :: "(string \<Rightarrow> bool) \<Rightarrow> erase_env" where
  "sample_env stk = \<lparr>env_now = 7, env_memo = None, marker_ok = True, phase1_fails = False,
     frame_wired = True, list_fails = False, stuck = stk, vault = Some (VaultReport 0),
     evidence_path = True, evidence_ok = True, retry_marker_ok = True, clear_ok = True\<rparr>"

lemma sample_facts: "wired sample_world" "env_ok (sample_env stk)" "marker_ok (sample_env stk)"
  by (simp_all add: wired_def sample_world_def env_ok_def sample_env_def)

theorem erasure_leaves_no_survivors_witness:
  "\<exists>w'. foldl (erase_event_step (\<lambda>_. []) (sample_env (\<lambda>_. False))) (Begin, sample_world)
      (replicate 7 Step) = (Leaving (Inr ()), w') \<and> erased (conn (sql w'))"
proof -
  obtain w' where w': "foldl (erase_event_step (\<lambda>_. []) (sample_env (\<lambda>_. False)))
      (Begin, sample_world) (replicate 7 Step) = (Leaving (Inr ()), w')"
    using erase_all_ok_leaving [OF sample_facts(2)] unfolding funpow_run by blast
  show ?thesis
    using erasure_leaves_no_survivors [OF sample_facts(1) w'] w' by blast
qed

text \<open> C37. Once the retry marker was written, an erasure that stops at any later point before it
  succeeds (a crash, or an error of any phase) leaves the marker, and the retry at the next launch
  runs the erasure to the end: when every phase goes through, the tables and frames are gone.\<close>

theorem interrupted_erasure_is_resumed:
  assumes "wired w" and "marker_ok env" and "list_all other_key events"
    and "foldl (erase_event_step js env) (Begin, w) events = (pc, w')" and "marker_covers pc"
    and "conn (sql w2) = conn (sql w')" and "wired w2" and "env_ok env2"
  shows "get_meta PENDING_LOCAL_ERASE_KEY (sql w2) = Some ''1'' \<and>
    erased (conn (sql (retry_pending_local_erase js env2 w2))) \<and>
    frames_erased (stuck env2) (frames (retry_pending_local_erase js env2 w2))"
proof -
  have "marker_set w'"
    using erase_run_marker [OF assms(2) erase_inv_begin [OF assms(1)] _ assms(3-5)] by simp
  then have m: "get_meta PENDING_LOCAL_ERASE_KEY (sql w2) = Some ''1''"
    using assms(6) by (simp add: marker_set_def get_meta_def)
  then show ?thesis
    using erase_all_ok [OF assms(8,7), of js] by (auto simp: retry_pending_local_erase_def)
qed

theorem interrupted_erasure_is_resumed_witness:
  "\<exists>w'. foldl (erase_event_step (\<lambda>_. []) (sample_env (\<lambda>_. False))) (Begin, sample_world)
      [Step, Step, EnvDeletionFlag False] = (Phase1, w') \<and>
     erased (conn (sql (retry_pending_local_erase (\<lambda>_. []) (sample_env (\<lambda>_. False)) w')))"
proof -
  obtain w' where r: "foldl (erase_event_step (\<lambda>_. []) (sample_env (\<lambda>_. False)))
      (Begin, sample_world) [Step, Step, EnvDeletionFlag False] = (Phase1, w')"
    by simp
  then have "wired w'"
    using erase_machine.run_inv [OF erase_inv_begin [OF sample_facts(1)],
        of "sample_env (\<lambda>_. False)" "\<lambda>_. []" "[Step, Step, EnvDeletionFlag False]"]
    by (simp add: erase_inv_def)
  then show ?thesis
    using interrupted_erasure_is_resumed [OF sample_facts(1,3) _ r _ refl _ sample_facts(2),
        where stk1 = "\<lambda>_. False"] r
    by (auto simp: other_key_def)
qed

text \<open> Every erasure returns: after eight of its own steps, in any interleaving with other tasks
  and on every error path, it has returned and the erase window is closed again.\<close>

theorem erasure_returns_and_closes_window:
  assumes "wired w" and "8 \<le> length (filter is_step events)"
    and "foldl (erase_event_step js env) (Begin, w) events = (pc, w')"
  shows "(\<exists>r. pc = Returned r) \<and> \<not> load_cell (ew_cells w') (gc_erasing (sql w'))"
proof -
  have "steps_left pc = 0"
    using erase_run_progress [of js env "(Begin, w)" events] assms(2,3) by simp
  moreover have "erase_inv env (pc, w')"
    using erase_machine.run_inv [OF erase_inv_begin [OF assms(1)], of env js events] assms(3)
    by simp
  ultimately show ?thesis by (auto simp: steps_left_0 erase_inv_def)
qed

theorem erasure_returns_and_closes_window_witness:
  "\<exists>r w'. foldl (erase_event_step (\<lambda>_. []) (sample_env (\<lambda>_. False))) (Begin, sample_world)
      (replicate 8 Step) = (Returned r, w')"
proof -
  obtain pc w' where r: "foldl (erase_event_step (\<lambda>_. []) (sample_env (\<lambda>_. False)))
      (Begin, sample_world) (replicate 8 Step) = (pc, w')"
    by fastforce
  have "8 \<le> length (filter is_step (replicate 8 Step))" by (simp add: is_step_def)
  from erasure_returns_and_closes_window [OF sample_facts(1) this r] r show ?thesis by blast
qed

text \<open>A frame directory that cannot be removed is only logged: the erasure still returns \<open>Ok\<close>
  and removes the retry marker, with the files of that directory left on disk.\<close>

theorem erasure_succeeds_with_frames_left:
  assumes "wired w" and "env_ok env" and "clear_ok env"
    and "(d, fs) \<in> set (frame_dirs (frames w))" and "stuck env d"
  shows "\<exists>w'. erase_all_local_data js env w = (Returned (Inr ()), w') \<and>
    get_meta PENDING_LOCAL_ERASE_KEY (sql w') = None \<and>
    (d, fs) \<in> set (frame_dirs (frames w'))"
proof -
  have "(d, fs) \<in> set (frame_dirs (snd (delete_all_files False (stuck env) (frames w))))"
    using assms(4,5) by (auto simp: delete_all_files_def delete_date_dirs_chunked_def Let_def)
  then show ?thesis
    using erase_all_ok [OF assms(2,1), of js] assms(3) by auto
qed

theorem erasure_succeeds_with_frames_left_witness:
  "\<exists>w'. erase_all_local_data (\<lambda>_. []) (sample_env (\<lambda>d. d = ''2026-01-02'')) sample_world
      = (Returned (Inr ()), w') \<and>
     (''2026-01-02'', [''b.webp'']) \<in> set (frame_dirs (frames w'))"
  using erasure_succeeds_with_frames_left [OF sample_facts(1,2),
      where stk1 = "\<lambda>d. d = ''2026-01-02''" and d = "''2026-01-02''" and fs = "[''b.webp'']"
        and js = "\<lambda>_. []"]
  by (auto simp: sample_env_def sample_world_def)

end
