(* ===== verification/Consent_Commands.thy ===== *)
theory Consent_Commands
  imports Erasure
begin

text \<open>
  The consent commands of \<open>src-tauri/src/commands/consent.rs\<close>: reading the snapshot, granting and
  withdrawing with their audit entries, and the one-time microphone notice. The audit log is
  written by \<open>save_audit_entry\<close>, which swallows its errors: \<open>audit_ok\<close> says whether it stored the
  entry. The signals to other parts of the shell that the commands fire afterwards are not
  modelled.
\<close>

definition RETENTION_DAYS :: u32 where
  "RETENTION_DAYS = 30"

definition MIC_UPGRADE_NOTICE_FLAG :: string where
  "MIC_UPGRADE_NOTICE_FLAG = ''microphone_split_notice_shown''"

record ConsentSnapshot =
  snap_status :: ConsentStatus
  snap_permissions :: ConsentPermissions

record audit_entry =
  action_type :: string
  audit_permissions :: ConsentPermissions
  audit_version :: string
  audit_consent_id :: string

definition read_consent_snapshot :: "'j consent_world \<Rightarrow> instant \<Rightarrow> ConsentSnapshot" where
  "read_consent_snapshot w now =
     (let (s, p) = status_and_permissions (state (manager w)) now
      in \<lparr>snap_status = s, snap_permissions = p\<rparr>)"

definition should_show_microphone_upgrade_notice :: "bool \<Rightarrow> bool \<Rightarrow> bool \<Rightarrow> bool" where
  "should_show_microphone_upgrade_notice audio_enabled microphone_granted already_shown \<longleftrightarrow>
     audio_enabled \<and> \<not> microphone_granted \<and> \<not> already_shown"

definition audit_consent ::
  "bool \<Rightarrow> string \<Rightarrow> ConsentPermissions \<Rightarrow> string \<Rightarrow> audit_entry list \<Rightarrow> audit_entry list" where
  "audit_consent audit_ok action perms cid log =
     (if audit_ok
      then log @ [\<lparr>action_type = action, audit_permissions = perms,
                   audit_version = CURRENT_POLICY_VERSION, audit_consent_id = cid\<rparr>]
      else log)"

definition apply_set_consent ::
  "(ConsentRecord \<Rightarrow> 'j) \<Rightarrow> 'j save_fault \<Rightarrow> bool \<Rightarrow> string \<Rightarrow> instant \<Rightarrow> ConsentPermissions
    \<Rightarrow> 'j consent_world \<times> audit_entry list
    \<Rightarrow> (CoreError + ConsentSnapshot) \<times> 'j consent_world \<times> audit_entry list" where
  "apply_set_consent to_json fault audit_ok cid now perms s =
     (case grant_consent to_json fault cid now perms RETENTION_DAYS (fst s) of
        (Inl e, w) \<Rightarrow> (Inl e, w, snd s)
      | (Inr u, w) \<Rightarrow>
          (let cid' = (case current_consent (state (manager w)) of
                         None \<Rightarrow> [] | Some r \<Rightarrow> consent_id r);
               log = audit_consent audit_ok ''consent_granted'' perms cid' (snd s)
           in (Inr (read_consent_snapshot w now), w, log)))"

definition apply_withdraw_consent ::
  "(ConsentRecord \<Rightarrow> 'j) \<Rightarrow> 'j save_fault \<Rightarrow> bool \<Rightarrow> instant \<Rightarrow> string
    \<Rightarrow> 'j consent_world \<times> audit_entry list
    \<Rightarrow> (CoreError + ConsentSnapshot) \<times> 'j consent_world \<times> audit_entry list" where
  "apply_withdraw_consent to_json fault audit_ok now nonce s =
     (let prior = current_consent (state (manager (fst s)));
          prior_permissions = (case prior of None \<Rightarrow> default_permissions | Some r \<Rightarrow> permissions r);
          prior_consent_id = (case prior of None \<Rightarrow> [] | Some r \<Rightarrow> consent_id r)
      in case revoke_consent to_json fault now nonce (fst s) of
           (Inl e, w) \<Rightarrow> (Inl e, w, snd s)
         | (Inr u, w) \<Rightarrow>
             (Inr (read_consent_snapshot w now), w,
              audit_consent audit_ok ''consent_revoked'' prior_permissions prior_consent_id (snd s)))"

definition take_microphone_upgrade_notice ::
  "bool \<Rightarrow> bool \<Rightarrow> ConsentGate \<Rightarrow> instant \<Rightarrow> erase_db GuardedConnection
    \<Rightarrow> bool \<times> erase_db GuardedConnection" where
  "take_microphone_upgrade_notice write_ok audio_enabled gate now g =
     (let already_shown = get_meta MIC_UPGRADE_NOTICE_FLAG g \<noteq> None;
          show_it = should_show_microphone_upgrade_notice audio_enabled
                      (may_capture_microphone gate now) already_shown
      in (show_it, if show_it then snd (set_meta_checked write_ok MIC_UPGRADE_NOTICE_FLAG ''true'' g)
                   else g))"

text \<open>
  The audit log alone tells what is in force: folding the entries gives the permissions of the
  last grant, and none after a withdrawal.
\<close>

definition replay_audit :: "audit_entry list \<Rightarrow> ConsentPermissions option" where
  "replay_audit log =
     foldl (\<lambda>g e. if action_type e = ''consent_granted'' then Some (audit_permissions e) else None)
       None log"

datatype 'j consent_request =
    SetConsent "'j save_fault" string instant ConsentPermissions
  | WithdrawConsent "'j save_fault" instant string

fun consent_command ::
  "(ConsentRecord \<Rightarrow> 'j) \<Rightarrow> 'j consent_world \<times> audit_entry list \<Rightarrow> 'j consent_request
    \<Rightarrow> 'j consent_world \<times> audit_entry list" where
  "consent_command to_json s (SetConsent f cid now p) =
     snd (apply_set_consent to_json f True cid now p s)"
| "consent_command to_json s (WithdrawConsent f now n) =
     snd (apply_withdraw_consent to_json f True now n s)"

definition audited :: "'j consent_world \<times> audit_entry list \<Rightarrow> bool" where
  "audited s \<longleftrightarrow> keeps_promise (replay_audit (snd s)) (state (manager (fst s)))"

lemma consent_command_audited:
  assumes "audited s"
  shows "audited (consent_command to_json s x)"
proof (cases x)
  case (SetConsent f cid now p)
  then show ?thesis
    using assms
    by (cases f)
      (auto simp: audited_def apply_set_consent_def audit_consent_def replay_audit_def consent_defs)
next
  case (WithdrawConsent f now n)
  then show ?thesis
    using assms
    by (cases f; cases "current_consent (state (manager (fst s)))")
      (auto simp: audited_def apply_withdraw_consent_def audit_consent_def replay_audit_def
        consent_defs)
qed

interpretation command_machine: invariant_machine "consent_command to_json" audited for to_json
  by unfold_locales (rule consent_command_audited)

text \<open> With a working audit log, after any sequence of consent commands from a fresh install,
  failed saves included, the permissions in force are those the audit log replays to: every change
  was audited, and nothing that failed was.\<close>

theorem audit_log_explains_permissions:
  assumes "consent_file fs = None"
  shows "effective_permissions (state (manager (fst
      (foldl (consent_command to_json) (consent_new from_json h fs, []) cmds)))) now =
    (case replay_audit (snd (foldl (consent_command to_json) (consent_new from_json h fs, []) cmds)) of
       None \<Rightarrow> default_permissions | Some p \<Rightarrow> p)"
proof -
  have "audited (consent_new from_json h fs, [])"
    using fresh_install_promise [OF assms] by (simp add: audited_def replay_audit_def)
  from command_machine.run_inv [OF this, of to_json cmds] show ?thesis
    unfolding audited_def by (rule keeps_promise_effective)
qed

theorem audit_log_explains_permissions_witness:
  "effective_permissions (state (manager (fst (foldl (consent_command Some)
      (consent_new id [] \<lparr>consent_file = None, tmp_file = None\<rparr>, [])
      [SetConsent NoFault ''c1'' 4 (default_permissions\<lparr>telemetry := True\<rparr>),
       WithdrawConsent Rename 5 ''n1''])))) 9
   = default_permissions\<lparr>telemetry := True\<rparr>"
  using audit_log_explains_permissions
    [of "\<lparr>consent_file = None, tmp_file = None\<rparr>" Some id "[]"
      "[SetConsent NoFault ''c1'' 4 (default_permissions\<lparr>telemetry := True\<rparr>),
        WithdrawConsent Rename 5 ''n1'']" 9]
  by (simp add: apply_set_consent_def apply_withdraw_consent_def audit_consent_def replay_audit_def
      consent_defs alloc_cell_def)

end
