(* ===== verification/Task_Model.thy ===== *)
theory Task_Model
  imports Prelude
begin

text \<open>
  The task models of \<open>crates/maekon-core/src/models/task.rs\<close>: lifecycle states with their SQL
  strings and the transition matrix, provenance, candidates, to-dos, and the canonical encodings
  that are hashed into a dedupe key and (\<open>src-tauri/src/commands/task.rs\<close>) a request hash. A
  character is a byte; SHA-256 and its hexadecimal rendering are the parameter \<open>sha256_hex\<close>.
\<close>

subsection \<open>States\<close>

datatype CandidateState = CandProposed | CandConfirmed | CandDismissed | CandExpired

fun candidate_sql :: "CandidateState \<Rightarrow> string" where
  "candidate_sql CandProposed = ''PROPOSED''"
| "candidate_sql CandConfirmed = ''CONFIRMED''"
| "candidate_sql CandDismissed = ''DISMISSED''"
| "candidate_sql CandExpired = ''EXPIRED''"

definition candidate_of_sql :: "string \<Rightarrow> CandidateState option" where
  "candidate_of_sql v =
     (if v = ''PROPOSED'' then Some CandProposed
      else if v = ''CONFIRMED'' then Some CandConfirmed
      else if v = ''DISMISSED'' then Some CandDismissed
      else if v = ''EXPIRED'' then Some CandExpired
      else None)"

definition candidate_is_terminal :: "CandidateState \<Rightarrow> bool" where
  "candidate_is_terminal s \<longleftrightarrow> s \<noteq> CandProposed"

definition is_allowed_from_proposed :: "CandidateState \<Rightarrow> bool" where
  "is_allowed_from_proposed s \<longleftrightarrow> s = CandConfirmed \<or> s = CandDismissed \<or> s = CandExpired"

datatype TodoState = Confirmed | InProgress | Waiting | Done | Cancelled

fun todo_sql :: "TodoState \<Rightarrow> string" where
  "todo_sql Confirmed = ''CONFIRMED''"
| "todo_sql InProgress = ''IN_PROGRESS''"
| "todo_sql Waiting = ''WAITING''"
| "todo_sql Done = ''DONE''"
| "todo_sql Cancelled = ''CANCELLED''"

definition todo_of_sql :: "string \<Rightarrow> TodoState option" where
  "todo_of_sql v =
     (if v = ''CONFIRMED'' then Some Confirmed
      else if v = ''IN_PROGRESS'' then Some InProgress
      else if v = ''WAITING'' then Some Waiting
      else if v = ''DONE'' then Some Done
      else if v = ''CANCELLED'' then Some Cancelled
      else None)"

fun todo_is_terminal :: "TodoState \<Rightarrow> bool" where
  "todo_is_terminal Done = True"
| "todo_is_terminal Cancelled = True"
| "todo_is_terminal _ = False"

fun can_transition_to :: "TodoState \<Rightarrow> TodoState \<Rightarrow> bool" where
  "can_transition_to Confirmed t \<longleftrightarrow> t \<in> {InProgress, Waiting, Done, Cancelled}"
| "can_transition_to InProgress t \<longleftrightarrow> t \<in> {Waiting, Done, Cancelled}"
| "can_transition_to Waiting t \<longleftrightarrow> t \<in> {InProgress, Done, Cancelled}"
| "can_transition_to Done t \<longleftrightarrow> False"
| "can_transition_to Cancelled t \<longleftrightarrow> False"

datatype SourceKind = LocalCurrentScene | Interruption | ExtensionContext | OtherKind string

fun kind_sql :: "SourceKind \<Rightarrow> string" where
  "kind_sql LocalCurrentScene = ''LOCAL_CURRENT_SCENE''"
| "kind_sql Interruption = ''INTERRUPTION''"
| "kind_sql ExtensionContext = ''EXTENSION_CONTEXT''"
| "kind_sql (OtherKind raw) = raw"

definition kind_of_sql :: "string \<Rightarrow> SourceKind" where
  "kind_of_sql v =
     (if v = ''LOCAL_CURRENT_SCENE'' then LocalCurrentScene
      else if v = ''INTERRUPTION'' then Interruption
      else if v = ''EXTENSION_CONTEXT'' then ExtensionContext
      else OtherKind v)"

fun is_known :: "SourceKind \<Rightarrow> bool" where
  "is_known (OtherKind raw) = False"
| "is_known _ = True"

definition is_anchorless :: "SourceKind \<Rightarrow> bool" where
  "is_anchorless k \<longleftrightarrow> k = LocalCurrentScene"

datatype SourceLifecycle =
  LcActive | LcDeleted | LcAccessRevoked | LcRetentionExpired | LcOther string

fun lifecycle_sql :: "SourceLifecycle \<Rightarrow> string" where
  "lifecycle_sql LcActive = ''ACTIVE''"
| "lifecycle_sql LcDeleted = ''DELETED''"
| "lifecycle_sql LcAccessRevoked = ''ACCESS_REVOKED''"
| "lifecycle_sql LcRetentionExpired = ''RETENTION_EXPIRED''"
| "lifecycle_sql (LcOther raw) = raw"

definition lifecycle_of_sql :: "string \<Rightarrow> SourceLifecycle" where
  "lifecycle_of_sql v =
     (if v = ''ACTIVE'' then LcActive
      else if v = ''DELETED'' then LcDeleted
      else if v = ''ACCESS_REVOKED'' then LcAccessRevoked
      else if v = ''RETENTION_EXPIRED'' then LcRetentionExpired
      else LcOther v)"

definition lifecycle_is_active :: "SourceLifecycle \<Rightarrow> bool" where
  "lifecycle_is_active l \<longleftrightarrow> l = LcActive"

datatype SourceOutcome = OutPending | OutResumed | OutAbandoned | OutExpired

fun outcome_sql :: "SourceOutcome \<Rightarrow> string" where
  "outcome_sql OutPending = ''PENDING''"
| "outcome_sql OutResumed = ''RESUMED''"
| "outcome_sql OutAbandoned = ''ABANDONED''"
| "outcome_sql OutExpired = ''EXPIRED''"

definition outcome_of_sql :: "string \<Rightarrow> SourceOutcome option" where
  "outcome_of_sql v =
     (if v = ''PENDING'' then Some OutPending
      else if v = ''RESUMED'' then Some OutResumed
      else if v = ''ABANDONED'' then Some OutAbandoned
      else if v = ''EXPIRED'' then Some OutExpired
      else None)"

datatype TaskEntityKind = KindCandidate | KindTodo | KindTodoBlocker

fun entity_sql :: "TaskEntityKind \<Rightarrow> string" where
  "entity_sql KindCandidate = ''CANDIDATE''"
| "entity_sql KindTodo = ''TODO''"
| "entity_sql KindTodoBlocker = ''TODO_BLOCKER''"

definition entity_of_sql :: "string \<Rightarrow> TaskEntityKind option" where
  "entity_of_sql v =
     (if v = ''CANDIDATE'' then Some KindCandidate
      else if v = ''TODO'' then Some KindTodo
      else if v = ''TODO_BLOCKER'' then Some KindTodoBlocker
      else None)"

datatype TaskOutcome =
    OutConfirmed string string int
  | OutDismissed string int
  | OutCandExpired string int
  | Transitioned string TodoState int
  | RevisionConflict
  | AlreadyTransitioned string
  | IdempotencyMismatch
  | ConsentRequired
  | SourceUnavailable

subsection \<open>Records\<close>

record TaskSourceRef =
  source_kind :: SourceKind
  extension_id :: "string option"
  install_id :: "string option"
  account_subject_ref :: "string option"
  upstream_object_id :: "string option"
  upstream_revision :: "string option"
  upstream_etag :: "string option"
  occurred_at :: "instant option"
  observed_at :: instant
  dedupe_namespace :: string
  content_hash :: string
  lifecycle :: SourceLifecycle
  source_outcome :: "SourceOutcome option"

record TaskCandidate =
  cand_id :: string
  cand_state :: CandidateState
  cand_title :: "string option"
  cand_body :: "string option"
  proposed_due :: "instant option"
  proposed_owner_ref :: "string option"
  cand_expires_at :: instant
  source_ref :: TaskSourceRef
  dedupe_key :: string
  cand_revision :: int
  cand_created_at :: instant
  cand_updated_at :: instant

record TodoItem =
  todo_id :: string
  todo_state :: TodoState
  todo_title :: string
  todo_body :: "string option"
  todo_due :: "instant option"
  todo_owner_ref :: "string option"
  origin_candidate_id :: string
  supersedes_todo_id :: "string option"
  todo_revision :: int
  todo_created_at :: instant
  todo_updated_at :: instant

record TaskBlocker =
  blocked_todo_id :: string
  blocker_todo_id :: string
  blocker_created_at :: instant

subsection \<open>Canonical encodings\<close>

text \<open>\<open>(n as u64).to_be_bytes()\<close>.\<close>

definition be_bytes :: "nat \<Rightarrow> string" where
  "be_bytes n = map (\<lambda>k. char_of (n div 256 ^ k)) [7, 6, 5, 4, 3, 2, 1, 0]"

fun write_field :: "string option \<Rightarrow> string" where
  "write_field (Some v) = CHR ''P'' # be_bytes (length v) @ v"
| "write_field None = ''N''"

definition dedupe_fields :: "TaskSourceRef \<Rightarrow> string option list" where
  "dedupe_fields s =
     [Some (dedupe_namespace s), Some (kind_sql (source_kind s)), extension_id s, install_id s,
      account_subject_ref s, upstream_object_id s, upstream_revision s, Some (content_hash s)]"

definition dedupe_preimage :: "TaskSourceRef \<Rightarrow> string" where
  "dedupe_preimage s = ''task-candidate/v1'' @ [CHR 0x00] @ concat (map write_field (dedupe_fields s))"

definition compute_dedupe_key :: "(string \<Rightarrow> string) \<Rightarrow> TaskSourceRef \<Rightarrow> string" where
  "compute_dedupe_key sha256_hex s = ''sha256:'' @ sha256_hex (dedupe_preimage s)"

definition frame_part :: "string \<Rightarrow> string" where
  "frame_part p = be_bytes (length p) @ p"

definition request_preimage :: "string list \<Rightarrow> string" where
  "request_preimage parts = ''task-request/v1'' @ [CHR 0x00] @ concat (map frame_part parts)"

definition request_hash :: "(string \<Rightarrow> string) \<Rightarrow> string list \<Rightarrow> string" where
  "request_hash sha256_hex parts = ''sha256:'' @ sha256_hex (request_preimage parts)"

subsection \<open>Round trips of the SQL strings\<close>

lemma candidate_sql_round_trip [task_simps, simp]: "candidate_of_sql (candidate_sql s) = Some s"
  by (cases s) (simp_all add: candidate_of_sql_def)

lemma todo_sql_round_trip [task_simps, simp]: "todo_of_sql (todo_sql s) = Some s"
  by (cases s) (simp_all add: todo_of_sql_def)

lemma outcome_sql_round_trip [simp]: "outcome_of_sql (outcome_sql s) = Some s"
  by (cases s) (simp_all add: outcome_of_sql_def)

lemma entity_sql_round_trip [simp]: "entity_of_sql (entity_sql s) = Some s"
  by (cases s) (simp_all add: entity_of_sql_def)

lemma kind_sql_inverse [simp]: "kind_sql (kind_of_sql v) = v"
  by (simp add: kind_of_sql_def)

lemma lifecycle_sql_inverse [simp]: "lifecycle_sql (lifecycle_of_sql v) = v"
  by (simp add: lifecycle_of_sql_def)

lemma kind_known_round_trip: "is_known k \<Longrightarrow> kind_of_sql (kind_sql k) = k"
  by (cases k) (simp_all add: kind_of_sql_def)

lemma todo_sql_inj [simp]: "todo_sql a = todo_sql b \<longleftrightarrow> a = b"
  by (metis option.inject todo_sql_round_trip)

lemma candidate_sql_inj [simp]: "candidate_sql a = candidate_sql b \<longleftrightarrow> a = b"
  by (metis option.inject candidate_sql_round_trip)

lemma todo_of_sql_SomeD: "todo_of_sql v = Some s \<Longrightarrow> v = todo_sql s"
  by (auto simp: todo_of_sql_def split: if_splits)

lemma candidate_of_sql_SomeD: "candidate_of_sql v = Some s \<Longrightarrow> v = candidate_sql s"
  by (auto simp: candidate_of_sql_def split: if_splits)

subsection \<open>Unique decoding\<close>

lemma length_be_bytes [simp]: "length (be_bytes n) = 8"
  by (simp add: be_bytes_def)

lemma be_bytes_inj:
  assumes "be_bytes n = be_bytes m" and "n < 2 ^ 64" and "m < 2 ^ 64"
  shows "n = m"
proof (rule digits_determine [where j = 8])
  show "n < 256 ^ 8" "m < 256 ^ 8" using assms(2,3) by simp_all
  show "\<forall>k < 8. n div 256 ^ k mod 256 = m div 256 ^ k mod 256"
  proof (intro allI impI)
    fix k :: nat assume "k < 8"
    then have "k \<in> set [7, 6, 5, 4, 3, 2, 1, 0]" by auto
    then have "(char_of (n div 256 ^ k) :: char) = char_of (m div 256 ^ k)"
      using assms(1) unfolding be_bytes_def map_eq_conv by blast
    then show "n div 256 ^ k mod 256 = m div 256 ^ k mod 256" by (rule char_of_eq_mod)
  qed
qed

text \<open>A string of a length that a 64-bit count can hold.\<close>

definition fits :: "string \<Rightarrow> bool" where
  "fits v \<longleftrightarrow> length v < 2 ^ 64"

lemma frame_part_prefix:
  assumes "frame_part a @ x = frame_part b @ y" and "fits a" and "fits b"
  shows "a = b \<and> x = y"
proof -
  have "be_bytes (length a) = be_bytes (length b)" and rest: "a @ x = b @ y"
    using assms(1) by (simp_all add: frame_part_def)
  then have "length a = length b"
    using be_bytes_inj assms(2,3) by (simp add: fits_def)
  with rest show ?thesis by simp
qed

lemma write_field_prefix:
  assumes "write_field a @ x = write_field b @ y"
    and "\<And>v. a = Some v \<Longrightarrow> fits v" and "\<And>v. b = Some v \<Longrightarrow> fits v"
  shows "a = b \<and> x = y"
proof (cases a)
  case None
  then show ?thesis using assms(1) by (cases b) auto
next
  case (Some v)
  then obtain w where b: "b = Some w" using assms(1) by (cases b) auto
  have "frame_part v @ x = frame_part w @ y"
    using assms(1) Some b by (simp add: frame_part_def)
  then have "v = w \<and> x = y" by (rule frame_part_prefix) (use assms Some b in auto)
  then show ?thesis using Some b by simp
qed

lemma write_field_nonempty [simp]: "write_field a \<noteq> []"
  by (cases a) simp_all

lemma write_fields_inj:
  assumes "concat (map write_field as) = concat (map write_field bs)"
    and "\<forall>v. Some v \<in> set as \<union> set bs \<longrightarrow> fits v"
  shows "as = bs"
  using assms
proof (induction as arbitrary: bs)
  case Nil
  then show ?case by (cases bs) auto
next
  case (Cons a as)
  show ?case
  proof (cases bs)
    case Nil
    then show ?thesis using Cons.prems(1) by simp
  next
    case (Cons b bs')
    have "a = b \<and> concat (map write_field as) = concat (map write_field bs')"
      using Cons.prems Cons by (intro write_field_prefix) auto
    then show ?thesis using Cons.IH [of bs'] Cons.prems(2) Cons by auto
  qed
qed

lemma frame_parts_inj:
  assumes "concat (map frame_part as) = concat (map frame_part bs)"
    and "\<forall>v \<in> set as \<union> set bs. fits v"
  shows "as = bs"
  using assms
proof (induction as arbitrary: bs)
  case Nil
  then show ?case by (cases bs) (auto simp: frame_part_def be_bytes_def)
next
  case (Cons a as)
  show ?case
  proof (cases bs)
    case Nil
    then show ?thesis using Cons.prems(1) by (auto simp: frame_part_def be_bytes_def)
  next
    case (Cons b bs')
    have "a = b \<and> concat (map frame_part as) = concat (map frame_part bs')"
      using Cons.prems Cons by (intro frame_part_prefix) auto
    then show ?thesis using Cons.IH [of bs'] Cons.prems(2) Cons by auto
  qed
qed

subsection \<open>Properties\<close>

text \<open> Every transition the matrix allows moves on: from an open state, never to itself, never
  back to the confirmed state; a terminal state allows none, and the two terminal states are
  reachable from every open one. The stored strings decode to the state they encode.\<close>

theorem transition_matrix_well_formed:
  "(can_transition_to a b \<longrightarrow> a \<noteq> b \<and> b \<noteq> Confirmed \<and> \<not> todo_is_terminal a) \<and>
   (todo_is_terminal b \<and> \<not> todo_is_terminal a \<longrightarrow> can_transition_to a b) \<and>
   todo_of_sql (todo_sql a) = Some a \<and>
   (todo_of_sql v = Some a \<longrightarrow> v = todo_sql a)"
  by (cases a; cases b) (auto simp: todo_of_sql_def split: if_splits)

theorem transition_matrix_well_formed_witness:
  "todo_of_sql ''WAITING'' = Some Waiting \<and> ''WAITING'' = todo_sql Waiting"
  using transition_matrix_well_formed [of Waiting Done "''WAITING''"] by (simp add: todo_of_sql_def)

text \<open> The bytes hashed into a dedupe key determine the eight provenance fields they encode, a
  missing field included, and the bytes hashed into a request hash determine the list of its
  parts: distinct contents are never confused by concatenation.\<close>

theorem canonical_encodings_injective:
  assumes "\<forall>v. Some v \<in> set (dedupe_fields s) \<union> set (dedupe_fields t) \<longrightarrow> fits v"
    and "\<forall>v \<in> set ps \<union> set qs. fits v"
  shows "(dedupe_preimage s = dedupe_preimage t \<longrightarrow> dedupe_fields s = dedupe_fields t) \<and>
    (request_preimage ps = request_preimage qs \<longrightarrow> ps = qs)"
  using write_fields_inj [OF _ assms(1)] frame_parts_inj [OF _ assms(2)]
  by (simp add: dedupe_preimage_def request_preimage_def)

theorem canonical_encodings_injective_witness:
  "request_preimage [''ab'', ''c''] \<noteq> request_preimage [''a'', ''bc'']"
proof -
  let ?s = "\<lparr>source_kind = Interruption, extension_id = None, install_id = None,
    account_subject_ref = None, upstream_object_id = None, upstream_revision = None,
    upstream_etag = None, occurred_at = None, observed_at = 0, dedupe_namespace = ''n'',
    content_hash = ''h'', lifecycle = LcActive, source_outcome = None\<rparr>"
  have a: "\<forall>v. Some v \<in> set (dedupe_fields ?s) \<union> set (dedupe_fields ?s) \<longrightarrow> fits v"
    by (auto simp: dedupe_fields_def fits_def)
  have b: "\<forall>v \<in> set [''ab'', ''c''] \<union> set [''a'', ''bc'']. fits v" by (auto simp: fits_def)
  show ?thesis using canonical_encodings_injective [OF a b] by auto
qed

end
