(* ===== verification/Task_Store.thy ===== *)
theory Task_Store
  imports Task_Model Guarded_Connection
begin

text \<open>
  The durable task store: the requests of \<open>crates/maekon-core/src/ports/task_store.rs\<close>, the schema
  of \<open>crates/maekon-storage/src/migration/v49_durable_tasks.rs\<close> and the commands and queries of
  \<open>crates/maekon-storage/src/sqlite/task_store_impl.rs\<close>.

  A table is a list of rows, and a row holds what the column holds: states and timestamps as
  text. Every command is one transaction, which rolls back when a statement fails; the constraints
  of the schema are the failing branches. The rendering \<open>to_rfc3339\<close> and the parser of chrono are
  parameters (\<open>fmt\<close>, \<open>parse\<close>); \<open>timestamp_codec\<close> states what is used of them below the year 10000:
  a rendered instant parses back, and the text order of SQLite is the order of instants.
\<close>

subsection \<open>Rows and the database\<close>

record candidate_row =
  r_id :: string
  r_state :: string
  r_title :: "string option"
  r_body :: "string option"
  r_proposed_due :: "string option"
  r_proposed_owner_ref :: "string option"
  r_expires_at :: string
  r_dedupe_key :: string
  r_revision :: int
  r_created_at :: string
  r_updated_at :: string

record source_row =
  sr_candidate_id :: string
  sr_source_kind :: string
  sr_extension_id :: "string option"
  sr_install_id :: "string option"
  sr_account_subject_ref :: "string option"
  sr_upstream_object_id :: "string option"
  sr_upstream_revision :: "string option"
  sr_upstream_etag :: "string option"
  sr_occurred_at :: "string option"
  sr_observed_at :: string
  sr_dedupe_namespace :: string
  sr_content_hash :: string
  sr_lifecycle :: string
  sr_source_outcome :: "string option"

record todo_row =
  t_id :: string
  t_state :: string
  t_title :: string
  t_body :: "string option"
  t_due :: "string option"
  t_owner_ref :: "string option"
  t_origin_candidate_id :: string
  t_supersedes_todo_id :: "string option"
  t_revision :: int
  t_created_at :: string
  t_updated_at :: string

record blocker_row =
  b_blocked :: string
  b_blocker :: string
  b_created_at :: string

record receipt_row =
  rc_id :: string
  rc_entity_kind :: string
  rc_entity_id :: string
  rc_idempotency_key :: string
  rc_request_hash :: string
  rc_from_state :: string
  rc_to_state :: string
  rc_resulting_revision :: int
  rc_resulting_entity_id :: "string option"
  rc_created_at :: string

record task_db =
  task_candidates :: "candidate_row list"
  task_source_refs :: "source_row list"
  todo_items :: "todo_row list"
  todo_blockers :: "blocker_row list"
  task_transition_receipts :: "receipt_row list"
  task_meta :: "string \<Rightarrow> string option"

text \<open>
  A transaction: the body's changes are kept on success and undone on an error. \<open>io_fails\<close> stands
  for a statement or a commit that fails for a reason outside the data, such as a full disk.
\<close>

definition transaction ::
  "bool \<Rightarrow> ('db \<Rightarrow> (StorageError + 'a) \<times> 'db) \<Rightarrow> 'db \<Rightarrow> (StorageError + 'a) \<times> 'db" where
  "transaction io_fails body db =
     (if io_fails then (Inl (Sqlite ''io''), db)
      else case body db of
             (Inl e, _) \<Rightarrow> (Inl e, db)
           | (Inr x, db') \<Rightarrow> (Inr x, db'))"

subsection \<open>Requests\<close>

record ConfirmCandidateRequest =
  cf_candidate_id :: string
  cf_expected_revision :: int
  cf_idempotency_key :: string
  cf_request_hash :: string
  cf_new_todo_id :: string
  cf_receipt_id :: string
  cf_confirmed_due :: "instant option"
  cf_confirmed_owner_ref :: "string option"
  cf_confirmed_title :: "string option"
  cf_confirmed_body :: "string option"
  cf_now :: instant

record DismissCandidateRequest =
  ds_candidate_id :: string
  ds_expected_revision :: int
  ds_idempotency_key :: string
  ds_request_hash :: string
  ds_receipt_id :: string
  ds_reason :: "string option"
  ds_now :: instant

record TransitionTodoRequest =
  tr_todo_id :: string
  tr_target :: TodoState
  tr_expected_revision :: int
  tr_idempotency_key :: string
  tr_request_hash :: string
  tr_receipt_id :: string
  tr_now :: instant

record DeleteTodoRequest =
  dl_todo_id :: string
  dl_expected_revision :: int
  dl_idempotency_key :: string
  dl_request_hash :: string
  dl_receipt_id :: string
  dl_now :: instant

record BlockerEdgeRequest =
  be_blocked_todo_id :: string
  be_blocker_todo_id :: string
  be_expected_revision :: int
  be_idempotency_key :: string
  be_request_hash :: string
  be_receipt_id :: string
  be_now :: instant

record IngestResult =
  in_candidate :: TaskCandidate
  in_created :: bool

record ReconcileReport =
  expired_candidates :: nat
  integrity_errors :: nat
  reconciled_at :: instant

record CandidateFilter =
  cfl_states :: "CandidateState list option"
  cfl_limit :: "nat option"

definition reviewable :: CandidateFilter where
  "reviewable = \<lparr>cfl_states = Some [CandProposed], cfl_limit = None\<rparr>"

record TodoFilter =
  tfl_states :: "TodoState list option"
  tfl_limit :: "nat option"

subsection \<open>Helpers\<close>

definition RECONCILE_FLOOR_KEY :: string where
  "RECONCILE_FLOOR_KEY = ''task_last_reconciled_at''"

definition bounded_edit :: "string option \<Rightarrow> nat \<Rightarrow> string option" where
  "bounded_edit v max_chars =
     (case v of
        None \<Rightarrow> None
      | Some s \<Rightarrow> let t = trim s in if t = [] then None else Some (take max_chars t))"

definition parse_ts :: "(string \<Rightarrow> instant option) \<Rightarrow> string \<Rightarrow> StorageError + instant" where
  "parse_ts parse v =
     (case parse v of
        None \<Rightarrow> Inl (Internal ''task timestamp decode failed'')
      | Some t \<Rightarrow> Inr t)"

definition parse_ts_opt ::
  "(string \<Rightarrow> instant option) \<Rightarrow> string option \<Rightarrow> StorageError + instant option" where
  "parse_ts_opt parse v =
     (case v of
        None \<Rightarrow> Inr None
      | Some s \<Rightarrow> (case parse_ts parse s of Inl e \<Rightarrow> Inl e | Inr t \<Rightarrow> Inr (Some t)))"

definition or_else :: "'a option \<Rightarrow> 'a option \<Rightarrow> 'a option" where
  "or_else a b = (case a of None \<Rightarrow> b | Some x \<Rightarrow> Some x)"

subsection \<open>Receipts\<close>

datatype ReceiptCheck = Fresh | Replay int "string option" | Mismatch

definition receipt_key :: "receipt_row \<Rightarrow> string \<times> string \<times> string" where
  "receipt_key r = (rc_entity_kind r, rc_entity_id r, rc_idempotency_key r)"

definition check_receipt :: "task_db \<Rightarrow> string \<Rightarrow> string \<Rightarrow> string \<Rightarrow> string \<Rightarrow> ReceiptCheck" where
  "check_receipt db kind entity key hash =
     (case List.find (\<lambda>r. receipt_key r = (kind, entity, key)) (task_transition_receipts db) of
        None \<Rightarrow> Fresh
      | Some r \<Rightarrow> if rc_request_hash r \<noteq> hash then Mismatch
                  else Replay (rc_resulting_revision r) (rc_resulting_entity_id r))"

definition mk_receipt ::
  "string \<Rightarrow> string \<Rightarrow> string \<Rightarrow> string \<Rightarrow> string \<Rightarrow> string \<Rightarrow> string \<Rightarrow> int
    \<Rightarrow> string option \<Rightarrow> string \<Rightarrow> receipt_row" where
  "mk_receipt rid kind entity key hash from_state to_state rv result now =
     \<lparr>rc_id = rid, rc_entity_kind = kind, rc_entity_id = entity, rc_idempotency_key = key,
      rc_request_hash = hash, rc_from_state = from_state, rc_to_state = to_state,
      rc_resulting_revision = rv, rc_resulting_entity_id = result, rc_created_at = now\<rparr>"

lemma mk_receipt_fields [simp]:
  "rc_id (mk_receipt rid kind entity key hash f t rv res now) = rid"
  "receipt_key (mk_receipt rid kind entity key hash f t rv res now) = (kind, entity, key)"
  "rc_request_hash (mk_receipt rid kind entity key hash f t rv res now) = hash"
  "rc_resulting_revision (mk_receipt rid kind entity key hash f t rv res now) = rv"
  "rc_resulting_entity_id (mk_receipt rid kind entity key hash f t rv res now) = res"
  by (simp_all add: mk_receipt_def receipt_key_def)

text \<open>The primary key and the unique idempotency key of the table are engine-enforced.\<close>

definition insert_receipt :: "receipt_row \<Rightarrow> task_db \<Rightarrow> (StorageError + unit) \<times> task_db" where
  "insert_receipt r db =
     (if rc_id r \<in> rc_id ` set (task_transition_receipts db) \<or>
         receipt_key r \<in> receipt_key ` set (task_transition_receipts db)
      then (Inl (Sqlite ''UNIQUE constraint failed''), db)
      else (Inr (), db\<lparr>task_transition_receipts := task_transition_receipts db @ [r]\<rparr>))"

definition candidate_state_rev :: "task_db \<Rightarrow> string \<Rightarrow> (string \<times> int) option" where
  "candidate_state_rev db cid =
     map_option (\<lambda>r. (r_state r, r_revision r))
       (List.find (\<lambda>r. r_id r = cid) (task_candidates db))"

definition todo_state_rev :: "task_db \<Rightarrow> string \<Rightarrow> (string \<times> int) option" where
  "todo_state_rev db tid =
     map_option (\<lambda>r. (t_state r, t_revision r))
       (List.find (\<lambda>r. t_id r = tid) (todo_items db))"

definition update_candidates ::
  "(candidate_row \<Rightarrow> bool) \<Rightarrow> (candidate_row \<Rightarrow> candidate_row) \<Rightarrow> task_db \<Rightarrow> task_db" where
  "update_candidates P f db =
     db\<lparr>task_candidates := map (\<lambda>r. if P r then f r else r) (task_candidates db)\<rparr>"

definition update_todos ::
  "(todo_row \<Rightarrow> bool) \<Rightarrow> (todo_row \<Rightarrow> todo_row) \<Rightarrow> task_db \<Rightarrow> task_db" where
  "update_todos P f db = db\<lparr>todo_items := map (\<lambda>r. if P r then f r else r) (todo_items db)\<rparr>"

subsection \<open>Loading\<close>

definition load_source_ref ::
  "(string \<Rightarrow> instant option) \<Rightarrow> task_db \<Rightarrow> string \<Rightarrow> StorageError + TaskSourceRef option" where
  "load_source_ref parse db cid =
     (case List.find (\<lambda>s. sr_candidate_id s = cid) (task_source_refs db) of
        None \<Rightarrow> Inr None
      | Some s \<Rightarrow>
          (case parse_ts_opt parse (sr_occurred_at s) of
             Inl e \<Rightarrow> Inl e
           | Inr occurred \<Rightarrow>
               (case parse_ts parse (sr_observed_at s) of
                  Inl e \<Rightarrow> Inl e
                | Inr observed \<Rightarrow>
                    Inr (Some \<lparr>source_kind = kind_of_sql (sr_source_kind s),
                      extension_id = sr_extension_id s, install_id = sr_install_id s,
                      account_subject_ref = sr_account_subject_ref s,
                      upstream_object_id = sr_upstream_object_id s,
                      upstream_revision = sr_upstream_revision s,
                      upstream_etag = sr_upstream_etag s, occurred_at = occurred,
                      observed_at = observed, dedupe_namespace = sr_dedupe_namespace s,
                      content_hash = sr_content_hash s,
                      lifecycle = lifecycle_of_sql (sr_lifecycle s),
                      source_outcome = Option.bind (sr_source_outcome s) outcome_of_sql\<rparr>))))"

definition load_candidate ::
  "(string \<Rightarrow> instant option) \<Rightarrow> task_db \<Rightarrow> string \<Rightarrow> StorageError + TaskCandidate option" where
  "load_candidate parse db key =
     (case List.find (\<lambda>r. r_dedupe_key r = key) (task_candidates db) of
        None \<Rightarrow> Inr None
      | Some r \<Rightarrow>
          (case load_source_ref parse db (r_id r) of
             Inl e \<Rightarrow> Inl e
           | Inr None \<Rightarrow> Inl (Internal (''candidate '' @ r_id r @ '' missing source ref''))
           | Inr (Some src) \<Rightarrow>
               (case candidate_of_sql (r_state r) of
                  None \<Rightarrow> Inl (Internal (''unknown candidate state '' @ r_state r))
                | Some st \<Rightarrow>
                    (case (parse_ts_opt parse (r_proposed_due r), parse_ts parse (r_expires_at r),
                           parse_ts parse (r_created_at r), parse_ts parse (r_updated_at r)) of
                       (Inr due, Inr expires, Inr created, Inr updated) \<Rightarrow>
                         Inr (Some \<lparr>cand_id = r_id r, cand_state = st, cand_title = r_title r,
                           cand_body = r_body r, proposed_due = due,
                           proposed_owner_ref = r_proposed_owner_ref r,
                           cand_expires_at = expires, source_ref = src,
                           dedupe_key = r_dedupe_key r, cand_revision = r_revision r,
                           cand_created_at = created, cand_updated_at = updated\<rparr>)
                     | _ \<Rightarrow> Inl (Internal ''task timestamp decode failed'')))))"

definition row_to_todo :: "(string \<Rightarrow> instant option) \<Rightarrow> todo_row \<Rightarrow> StorageError + TodoItem" where
  "row_to_todo parse r =
     (case todo_of_sql (t_state r) of
        None \<Rightarrow> Inl (Internal (''unknown todo state '' @ t_state r))
      | Some st \<Rightarrow>
          (case (parse_ts_opt parse (t_due r), parse_ts parse (t_created_at r),
                 parse_ts parse (t_updated_at r)) of
             (Inr due, Inr created, Inr updated) \<Rightarrow>
               Inr \<lparr>todo_id = t_id r, todo_state = st, todo_title = t_title r,
                 todo_body = t_body r, todo_due = due, todo_owner_ref = t_owner_ref r,
                 origin_candidate_id = t_origin_candidate_id r,
                 supersedes_todo_id = t_supersedes_todo_id r, todo_revision = t_revision r,
                 todo_created_at = created, todo_updated_at = updated\<rparr>
           | _ \<Rightarrow> Inl (Internal ''task timestamp decode failed'')))"

subsection \<open>Commands\<close>

definition candidate_to_row :: "(instant \<Rightarrow> string) \<Rightarrow> TaskCandidate \<Rightarrow> candidate_row" where
  "candidate_to_row fmt c =
     \<lparr>r_id = cand_id c, r_state = candidate_sql (cand_state c), r_title = cand_title c,
      r_body = cand_body c, r_proposed_due = map_option fmt (proposed_due c),
      r_proposed_owner_ref = proposed_owner_ref c, r_expires_at = fmt (cand_expires_at c),
      r_dedupe_key = dedupe_key c, r_revision = cand_revision c,
      r_created_at = fmt (cand_created_at c), r_updated_at = fmt (cand_updated_at c)\<rparr>"

definition source_to_row :: "(instant \<Rightarrow> string) \<Rightarrow> string \<Rightarrow> TaskSourceRef \<Rightarrow> source_row" where
  "source_to_row fmt cid s =
     \<lparr>sr_candidate_id = cid, sr_source_kind = kind_sql (source_kind s),
      sr_extension_id = extension_id s, sr_install_id = install_id s,
      sr_account_subject_ref = account_subject_ref s,
      sr_upstream_object_id = upstream_object_id s,
      sr_upstream_revision = upstream_revision s, sr_upstream_etag = upstream_etag s,
      sr_occurred_at = map_option fmt (occurred_at s), sr_observed_at = fmt (observed_at s),
      sr_dedupe_namespace = dedupe_namespace s, sr_content_hash = content_hash s,
      sr_lifecycle = lifecycle_sql (lifecycle s),
      sr_source_outcome = map_option outcome_sql (source_outcome s)\<rparr>"

text \<open>
  \<open>ON CONFLICT(dedupe_key) DO NOTHING\<close>: a known dedupe key inserts nothing and the existing row
  is returned; a known id with a new dedupe key violates the primary key.
\<close>

definition ingest_candidate ::
  "(instant \<Rightarrow> string) \<Rightarrow> (string \<Rightarrow> instant option) \<Rightarrow> TaskCandidate \<Rightarrow> task_db
    \<Rightarrow> (StorageError + IngestResult option) \<times> task_db" where
  "ingest_candidate fmt parse c db =
     (if dedupe_key c \<in> r_dedupe_key ` set (task_candidates db) then
        (case load_candidate parse db (dedupe_key c) of
           Inl e \<Rightarrow> (Inl e, db)
         | Inr (Some existing) \<Rightarrow> (Inr (Some \<lparr>in_candidate = existing, in_created = False\<rparr>), db)
         | Inr None \<Rightarrow> (Inl (Internal ''dedupe conflict without an existing row''), db))
      else if cand_id c \<in> r_id ` set (task_candidates db) \<or>
              cand_id c \<in> sr_candidate_id ` set (task_source_refs db)
      then (Inl (Sqlite ''UNIQUE constraint failed''), db)
      else (Inr (Some \<lparr>in_candidate = c, in_created = True\<rparr>),
            db\<lparr>task_candidates := task_candidates db @ [candidate_to_row fmt c],
               task_source_refs := task_source_refs db
                 @ [source_to_row fmt (cand_id c) (source_ref c)]\<rparr>))"

definition insert_todo :: "todo_row \<Rightarrow> task_db \<Rightarrow> (StorageError + unit) \<times> task_db" where
  "insert_todo r db =
     (if t_id r \<in> t_id ` set (todo_items db) \<or>
         t_origin_candidate_id r \<in> t_origin_candidate_id ` set (todo_items db)
      then (Inl (Sqlite ''UNIQUE constraint failed''), db)
      else if t_origin_candidate_id r \<notin> r_id ` set (task_candidates db)
      then (Inl (Sqlite ''FOREIGN KEY constraint failed''), db)
      else (Inr (), db\<lparr>todo_items := todo_items db @ [r]\<rparr>))"

text \<open>Moving a candidate to a terminal state clears its content and bumps its revision.\<close>

definition close_candidate ::
  "CandidateState \<Rightarrow> int \<Rightarrow> string \<Rightarrow> candidate_row \<Rightarrow> candidate_row" where
  "close_candidate st rv now r =
     r\<lparr>r_state := candidate_sql st, r_title := None, r_body := None, r_revision := rv,
       r_updated_at := now\<rparr>"

definition confirm_candidate ::
  "(instant \<Rightarrow> string) \<Rightarrow> ConfirmCandidateRequest \<Rightarrow> task_db
    \<Rightarrow> (StorageError + TaskOutcome option) \<times> task_db" where
  "confirm_candidate fmt q db =
     (let cid = cf_candidate_id q in
      case check_receipt db ''CANDIDATE'' cid (cf_idempotency_key q) (cf_request_hash q) of
        Mismatch \<Rightarrow> (Inr (Some IdempotencyMismatch), db)
      | Replay rv ent \<Rightarrow>
          (Inr (Some (OutConfirmed cid (case ent of None \<Rightarrow> [] | Some t \<Rightarrow> t) rv)), db)
      | Fresh \<Rightarrow>
          (case List.find (\<lambda>r. r_id r = cid) (task_candidates db) of
             None \<Rightarrow> (Inr (Some RevisionConflict), db)
           | Some r \<Rightarrow>
               if r_state r \<noteq> candidate_sql CandProposed then
                 (Inr (Some (AlreadyTransitioned (r_state r))), db)
               else if r_revision r \<noteq> cf_expected_revision q then
                 (Inr (Some RevisionConflict), db)
               else
                 let new_rev = r_revision r + 1;
                     now = fmt (cf_now q);
                     title = or_else (bounded_edit (cf_confirmed_title q) 200) (r_title r);
                     body = or_else (bounded_edit (cf_confirmed_body q) 2000) (r_body r);
                     db1 = update_candidates (\<lambda>x. r_id x = cid)
                             (close_candidate CandConfirmed new_rev now) db;
                     due = or_else (map_option fmt (cf_confirmed_due q)) (r_proposed_due r);
                     owner = or_else (cf_confirmed_owner_ref q) (r_proposed_owner_ref r);
                     todo = \<lparr>t_id = cf_new_todo_id q, t_state = ''CONFIRMED'',
                             t_title = (case title of None \<Rightarrow> [] | Some v \<Rightarrow> v), t_body = body,
                             t_due = due, t_owner_ref = owner, t_origin_candidate_id = cid,
                             t_supersedes_todo_id = None, t_revision = 1, t_created_at = now,
                             t_updated_at = now\<rparr>;
                     receipt = mk_receipt (cf_receipt_id q) ''CANDIDATE'' cid (cf_idempotency_key q)
                                (cf_request_hash q) ''PROPOSED'' ''CONFIRMED''
                                new_rev (Some (cf_new_todo_id q)) now
                 in case insert_todo todo db1 of
                      (Inl e, db2) \<Rightarrow> (Inl e, db2)
                    | (Inr _, db2) \<Rightarrow>
                        (case insert_receipt receipt db2 of
                           (Inl e, db3) \<Rightarrow> (Inl e, db3)
                         | (Inr _, db3) \<Rightarrow>
                             (Inr (Some (OutConfirmed cid (cf_new_todo_id q) new_rev)), db3))))"

definition dismiss_candidate ::
  "(instant \<Rightarrow> string) \<Rightarrow> DismissCandidateRequest \<Rightarrow> task_db
    \<Rightarrow> (StorageError + TaskOutcome option) \<times> task_db" where
  "dismiss_candidate fmt q db =
     (let cid = ds_candidate_id q in
      case check_receipt db ''CANDIDATE'' cid (ds_idempotency_key q) (ds_request_hash q) of
        Mismatch \<Rightarrow> (Inr (Some IdempotencyMismatch), db)
      | Replay rv ent \<Rightarrow> (Inr (Some (OutDismissed cid rv)), db)
      | Fresh \<Rightarrow>
          (case candidate_state_rev db cid of
             None \<Rightarrow> (Inr (Some RevisionConflict), db)
           | Some (st, rv) \<Rightarrow>
               if st \<noteq> candidate_sql CandProposed then
                 (Inr (Some (AlreadyTransitioned st)), db)
               else if rv \<noteq> ds_expected_revision q then (Inr (Some RevisionConflict), db)
               else
                 let new_rev = rv + 1;
                     now = fmt (ds_now q);
                     db1 = update_candidates (\<lambda>x. r_id x = cid)
                             (close_candidate CandDismissed new_rev now) db;
                     receipt = mk_receipt (ds_receipt_id q) ''CANDIDATE'' cid (ds_idempotency_key q)
                                (ds_request_hash q) ''PROPOSED'' ''DISMISSED''
                                new_rev None now
                 in case insert_receipt receipt db1 of
                      (Inl e, db2) \<Rightarrow> (Inl e, db2)
                    | (Inr _, db2) \<Rightarrow> (Inr (Some (OutDismissed cid new_rev)), db2)))"

definition transition_todo ::
  "(instant \<Rightarrow> string) \<Rightarrow> TransitionTodoRequest \<Rightarrow> task_db
    \<Rightarrow> (StorageError + TaskOutcome option) \<times> task_db" where
  "transition_todo fmt q db =
     (let tid = tr_todo_id q; target = todo_sql (tr_target q) in
      case check_receipt db ''TODO'' tid (tr_idempotency_key q) (tr_request_hash q) of
        Mismatch \<Rightarrow> (Inr (Some IdempotencyMismatch), db)
      | Replay rv ent \<Rightarrow> (Inr (Some (Transitioned tid (tr_target q) rv)), db)
      | Fresh \<Rightarrow>
          (case todo_state_rev db tid of
             None \<Rightarrow> (Inr (Some RevisionConflict), db)
           | Some (st, rv) \<Rightarrow>
               if st = target then (Inr (Some (AlreadyTransitioned st)), db)
               else if rv \<noteq> tr_expected_revision q then (Inr (Some RevisionConflict), db)
               else
                 let new_rev = rv + 1;
                     now = fmt (tr_now q);
                     db1 = update_todos (\<lambda>x. t_id x = tid)
                             (\<lambda>x. x\<lparr>t_state := target, t_revision := new_rev,
                                     t_updated_at := now\<rparr>) db;
                     receipt = mk_receipt (tr_receipt_id q) ''TODO'' tid (tr_idempotency_key q)
                                (tr_request_hash q) st target
                                new_rev None now
                 in case insert_receipt receipt db1 of
                      (Inl e, db2) \<Rightarrow> (Inl e, db2)
                    | (Inr _, db2) \<Rightarrow>
                        (Inr (Some (Transitioned tid (tr_target q) new_rev)), db2)))"

definition delete_todo ::
  "(instant \<Rightarrow> string) \<Rightarrow> DeleteTodoRequest \<Rightarrow> task_db
    \<Rightarrow> (StorageError + TaskOutcome option) \<times> task_db" where
  "delete_todo fmt q db =
     (let tid = dl_todo_id q in
      case check_receipt db ''TODO'' tid (dl_idempotency_key q) (dl_request_hash q) of
        Mismatch \<Rightarrow> (Inr (Some IdempotencyMismatch), db)
      | Replay rv ent \<Rightarrow> (Inr (Some (Transitioned tid Cancelled rv)), db)
      | Fresh \<Rightarrow>
          (case todo_state_rev db tid of
             None \<Rightarrow> (Inr (Some RevisionConflict), db)
           | Some (st, rv) \<Rightarrow>
               if rv \<noteq> dl_expected_revision q then (Inr (Some RevisionConflict), db)
               else
                 let db1 = db\<lparr>todo_blockers :=
                       filter (\<lambda>b. b_blocked b \<noteq> tid \<and> b_blocker b \<noteq> tid) (todo_blockers db)\<rparr>;
                     db2 = db1\<lparr>todo_items := filter (\<lambda>x. t_id x \<noteq> tid) (todo_items db1)\<rparr>;
                     receipt = mk_receipt (dl_receipt_id q) ''TODO'' tid (dl_idempotency_key q)
                                (dl_request_hash q) st ''DELETED''
                                rv None (fmt (dl_now q))
                 in case insert_receipt receipt db2 of
                      (Inl e, db3) \<Rightarrow> (Inl e, db3)
                    | (Inr _, db3) \<Rightarrow> (Inr (Some (Transitioned tid Cancelled rv)), db3)))"

text \<open>\<open>INSERT OR IGNORE\<close> ignores a duplicate edge; a missing to-do violates the foreign key.\<close>

definition insert_edge :: "blocker_row \<Rightarrow> task_db \<Rightarrow> (StorageError + unit) \<times> task_db" where
  "insert_edge b db =
     (if (b_blocked b, b_blocker b) \<in> (\<lambda>x. (b_blocked x, b_blocker x)) ` set (todo_blockers db)
      then (Inr (), db)
      else if b_blocked b \<notin> t_id ` set (todo_items db) \<or> b_blocker b \<notin> t_id ` set (todo_items db)
      then (Inl (Sqlite ''FOREIGN KEY constraint failed''), db)
      else (Inr (), db\<lparr>todo_blockers := todo_blockers db @ [b]\<rparr>))"

definition blocker_edit ::
  "(instant \<Rightarrow> string) \<Rightarrow> bool \<Rightarrow> BlockerEdgeRequest \<Rightarrow> task_db
    \<Rightarrow> (StorageError + TaskOutcome option) \<times> task_db" where
  "blocker_edit fmt add q db =
     (let blocked = be_blocked_todo_id q; blocker = be_blocker_todo_id q in
      if blocked = blocker then (Inr (Some RevisionConflict), db)
      else case check_receipt db ''TODO_BLOCKER'' blocked (be_idempotency_key q) (be_request_hash q) of
        Mismatch \<Rightarrow> (Inr (Some IdempotencyMismatch), db)
      | Replay rv ent \<Rightarrow> (Inr (Some (Transitioned blocked Waiting rv)), db)
      | Fresh \<Rightarrow>
          (case todo_state_rev db blocked of
             None \<Rightarrow> (Inr (Some RevisionConflict), db)
           | Some (st, rv) \<Rightarrow>
               if rv \<noteq> be_expected_revision q then (Inr (Some RevisionConflict), db)
               else if add \<and> (blocker, blocked) \<in>
                      (\<lambda>x. (b_blocked x, b_blocker x)) ` set (todo_blockers db)
               then (Inr (Some RevisionConflict), db)
               else
                 let now = fmt (be_now q);
                     (r1, db1) =
                       (if add then insert_edge \<lparr>b_blocked = blocked, b_blocker = blocker,
                                                b_created_at = now\<rparr> db
                        else (Inr (), db\<lparr>todo_blockers :=
                          filter (\<lambda>b. \<not> (b_blocked b = blocked \<and> b_blocker b = blocker))
                            (todo_blockers db)\<rparr>));
                     new_rev = rv + 1;
                     db2 = update_todos (\<lambda>x. t_id x = blocked)
                             (\<lambda>x. x\<lparr>t_revision := new_rev, t_updated_at := now\<rparr>) db1;
                     receipt = mk_receipt (be_receipt_id q) ''TODO_BLOCKER'' blocked (be_idempotency_key q)
                                (be_request_hash q) ''EDGE'' (if add then ''BLOCKER_ADDED'' else ''BLOCKER_REMOVED'')
                                new_rev None now
                 in case r1 of
                      Inl e \<Rightarrow> (Inl e, db1)
                    | Inr _ \<Rightarrow>
                        (case insert_receipt receipt db2 of
                           (Inl e, db3) \<Rightarrow> (Inl e, db3)
                         | (Inr _, db3) \<Rightarrow> (Inr (Some (Transitioned blocked Waiting new_rev)), db3))))"

definition due_to_expire :: "string \<Rightarrow> candidate_row \<Rightarrow> bool" where
  "due_to_expire floor r \<longleftrightarrow> r_state r = ''PROPOSED'' \<and> r_expires_at r \<le> floor"

definition orphan_confirmed :: "task_db \<Rightarrow> candidate_row \<Rightarrow> bool" where
  "orphan_confirmed db r \<longleftrightarrow>
     r_state r = ''CONFIRMED'' \<and> r_id r \<notin> t_origin_candidate_id ` set (todo_items db)"

definition reconcile_tasks ::
  "(instant \<Rightarrow> string) \<Rightarrow> (string \<Rightarrow> instant option) \<Rightarrow> instant \<Rightarrow> task_db
    \<Rightarrow> (StorageError + ReconcileReport option) \<times> task_db" where
  "reconcile_tasks fmt parse effective_now db =
     (case (case task_meta db RECONCILE_FLOOR_KEY of
              None \<Rightarrow> Inr effective_now
            | Some v \<Rightarrow> (case parse_ts parse v of Inl e \<Rightarrow> Inl e | Inr t \<Rightarrow> Inr (max t effective_now))) of
        Inl e \<Rightarrow> (Inl e, db)
      | Inr floor \<Rightarrow>
          (let expired = length (filter (due_to_expire (fmt floor)) (task_candidates db));
               db1 = update_candidates (due_to_expire (fmt floor))
                       (\<lambda>r. close_candidate CandExpired (r_revision r + 1) (fmt floor) r) db;
               integrity = length (filter (orphan_confirmed db1) (task_candidates db1));
               db2 = db1\<lparr>task_meta := (task_meta db1)(RECONCILE_FLOOR_KEY \<mapsto> fmt floor)\<rparr>
           in (Inr (Some \<lparr>expired_candidates = expired, integrity_errors = integrity,
                          reconciled_at = floor\<rparr>), db2)))"

subsection \<open>The commands behind the write barrier\<close>

definition skipped_err :: StorageError where
  "skipped_err = Internal ''task mutation skipped during erasure''"

definition task_command ::
  "cells \<Rightarrow> bool \<Rightarrow> (task_db \<Rightarrow> (StorageError + 'a option) \<times> task_db)
    \<Rightarrow> task_db GuardedConnection \<Rightarrow> (StorageError + 'a) \<times> task_db GuardedConnection" where
  "task_command h io_fails body g =
     (case with_conn_mut h None (transaction io_fails body) g of
        (Inl e, g') \<Rightarrow> (Inl e, g')
      | (Inr None, g') \<Rightarrow> (Inl skipped_err, g')
      | (Inr (Some x), g') \<Rightarrow> (Inr x, g'))"

subsection \<open>Queries\<close>

definition query_limit :: "nat option \<Rightarrow> nat" where
  "query_limit l = min (case l of None \<Rightarrow> 200 | Some n \<Rightarrow> n) 1000"

fun collect_results :: "('e + 'a) list \<Rightarrow> 'e + 'a list" where
  "collect_results [] = Inr []"
| "collect_results (x # xs) =
     (case x of
        Inl e \<Rightarrow> Inl e
      | Inr v \<Rightarrow> (case collect_results xs of Inl e \<Rightarrow> Inl e | Inr vs \<Rightarrow> Inr (v # vs)))"

text \<open>\<open>ORDER BY ... DESC\<close> with rows of equal text in table order.\<close>

definition order_desc :: "('r \<Rightarrow> string) \<Rightarrow> 'r list \<Rightarrow> 'r list" where
  "order_desc key rows = rev (sort_key key (rev rows))"

definition keeps_state :: "'s list option \<Rightarrow> 's \<Rightarrow> bool" where
  "keeps_state states s = (case states of None \<Rightarrow> True | Some ss \<Rightarrow> s \<in> set ss)"

definition list_candidates ::
  "(string \<Rightarrow> instant option) \<Rightarrow> CandidateFilter \<Rightarrow> task_db \<Rightarrow> StorageError + TaskCandidate list" where
  "list_candidates parse f db =
     (let rows = take (query_limit (cfl_limit f)) (order_desc r_created_at (task_candidates db))
      in case collect_results (map (\<lambda>r. load_candidate parse db (r_dedupe_key r)) rows) of
           Inl e \<Rightarrow> Inl e
         | Inr cs \<Rightarrow>
             Inr (filter (\<lambda>c. keeps_state (cfl_states f) (cand_state c)) (List.map_filter id cs)))"

definition get_candidate ::
  "(string \<Rightarrow> instant option) \<Rightarrow> string \<Rightarrow> task_db \<Rightarrow> StorageError + TaskCandidate option" where
  "get_candidate parse cid db =
     (case List.find (\<lambda>r. r_id r = cid) (task_candidates db) of
        None \<Rightarrow> Inr None
      | Some r \<Rightarrow> load_candidate parse db (r_dedupe_key r))"

definition list_todos ::
  "(string \<Rightarrow> instant option) \<Rightarrow> TodoFilter \<Rightarrow> task_db \<Rightarrow> StorageError + TodoItem list" where
  "list_todos parse f db =
     (let rows = take (query_limit (tfl_limit f)) (order_desc t_updated_at (todo_items db))
      in case collect_results (map (row_to_todo parse) rows) of
           Inl e \<Rightarrow> Inl e
         | Inr ts \<Rightarrow> Inr (filter (\<lambda>t. keeps_state (tfl_states f) (todo_state t)) ts))"

definition get_todo ::
  "(string \<Rightarrow> instant option) \<Rightarrow> string \<Rightarrow> task_db \<Rightarrow> StorageError + TodoItem option" where
  "get_todo parse tid db =
     (case List.find (\<lambda>r. t_id r = tid) (todo_items db) of
        None \<Rightarrow> Inr None
      | Some r \<Rightarrow> (case row_to_todo parse r of Inl e \<Rightarrow> Inl e | Inr t \<Rightarrow> Inr (Some t)))"

definition list_blockers ::
  "(string \<Rightarrow> instant option) \<Rightarrow> string \<Rightarrow> task_db \<Rightarrow> StorageError + TaskBlocker list" where
  "list_blockers parse tid db =
     collect_results (map (\<lambda>b. case parse_ts parse (b_created_at b) of
          Inl e \<Rightarrow> Inl e
        | Inr t \<Rightarrow> Inr \<lparr>blocked_todo_id = b_blocked b, blocker_todo_id = b_blocker b,
                        blocker_created_at = t\<rparr>)
       (sort_key b_created_at (filter (\<lambda>b. b_blocked b = tid) (todo_blockers db))))"

end
