(* ===== verification/Task_Invariant.thy ===== *)
theory Task_Invariant
  imports Task_Store
begin

text \<open>
  What the task store keeps: the keys of its tables, one to-do per confirmed candidate, no
  content on a closed candidate, well-formed blocker edges, and receipts that are never lost.
  The results hold for every sequence of commands, failing transactions included.
\<close>

subsection \<open>Command sequences\<close>

datatype task_op =
    Ingest TaskCandidate
  | Confirm ConfirmCandidateRequest
  | Dismiss DismissCandidateRequest
  | Transition TransitionTodoRequest
  | Delete DeleteTodoRequest
  | AddBlocker BlockerEdgeRequest
  | RemoveBlocker BlockerEdgeRequest
  | Reconcile instant

text \<open>One committed or rolled-back transaction; \<open>io_fails\<close> comes with each operation.\<close>

fun task_step ::
  "(instant \<Rightarrow> string) \<Rightarrow> (string \<Rightarrow> instant option) \<Rightarrow> task_db \<Rightarrow> bool \<times> task_op \<Rightarrow> task_db" where
  "task_step fmt parse db (b, Ingest c) = snd (transaction b (ingest_candidate fmt parse c) db)"
| "task_step fmt parse db (b, Confirm q) = snd (transaction b (confirm_candidate fmt q) db)"
| "task_step fmt parse db (b, Dismiss q) = snd (transaction b (dismiss_candidate fmt q) db)"
| "task_step fmt parse db (b, Transition q) = snd (transaction b (transition_todo fmt q) db)"
| "task_step fmt parse db (b, Delete q) = snd (transaction b (delete_todo fmt q) db)"
| "task_step fmt parse db (b, AddBlocker q) = snd (transaction b (blocker_edit fmt True q) db)"
| "task_step fmt parse db (b, RemoveBlocker q) = snd (transaction b (blocker_edit fmt False q) db)"
| "task_step fmt parse db (b, Reconcile n) = snd (transaction b (reconcile_tasks fmt parse n) db)"

definition empty_task_db :: task_db where
  "empty_task_db = \<lparr>task_candidates = [], task_source_refs = [], todo_items = [],
     todo_blockers = [], task_transition_receipts = [], task_meta = Map.empty\<rparr>"

text \<open>Generators ingest proposed candidates only.\<close>

fun op_ok :: "bool \<times> task_op \<Rightarrow> bool" where
  "op_ok (b, Ingest c) \<longleftrightarrow> cand_state c = CandProposed"
| "op_ok _ \<longleftrightarrow> True"

subsection \<open>The invariant\<close>

definition edge :: "blocker_row \<Rightarrow> string \<times> string" where
  "edge b = (b_blocked b, b_blocker b)"

definition keys_ok :: "task_db \<Rightarrow> bool" where
  "keys_ok db \<longleftrightarrow>
     distinct (map r_id (task_candidates db)) \<and>
     distinct (map r_dedupe_key (task_candidates db)) \<and>
     map sr_candidate_id (task_source_refs db) = map r_id (task_candidates db) \<and>
     distinct (map t_id (todo_items db)) \<and>
     distinct (map t_origin_candidate_id (todo_items db)) \<and>
     distinct (map rc_id (task_transition_receipts db)) \<and>
     distinct (map receipt_key (task_transition_receipts db))"

definition candidates_ok :: "task_db \<Rightarrow> bool" where
  "candidates_ok db \<longleftrightarrow>
     (\<forall>r \<in> set (task_candidates db).
        r_state r \<in> range candidate_sql \<and>
        (r_state r \<noteq> candidate_sql CandProposed \<longrightarrow> r_title r = None \<and> r_body r = None))"

definition todos_ok :: "task_db \<Rightarrow> bool" where
  "todos_ok db \<longleftrightarrow>
     (\<forall>t \<in> set (todo_items db).
        t_state t \<in> range todo_sql \<and>
        (\<exists>r \<in> set (task_candidates db).
           r_id r = t_origin_candidate_id t \<and> r_state r = candidate_sql CandConfirmed))"

definition edges_ok :: "task_db \<Rightarrow> bool" where
  "edges_ok db \<longleftrightarrow>
     distinct (map edge (todo_blockers db)) \<and>
     (\<forall>b \<in> set (todo_blockers db).
        b_blocked b \<noteq> b_blocker b \<and>
        b_blocked b \<in> t_id ` set (todo_items db) \<and> b_blocker b \<in> t_id ` set (todo_items db) \<and>
        (b_blocker b, b_blocked b) \<notin> edge ` set (todo_blockers db))"

definition task_inv :: "task_db \<Rightarrow> bool" where
  "task_inv db \<longleftrightarrow> keys_ok db \<and> candidates_ok db \<and> todos_ok db \<and> edges_ok db"

lemmas task_inv_defs = task_inv_def keys_ok_def candidates_ok_def todos_ok_def edges_ok_def

lemma update_fields [simp]:
  "task_transition_receipts (update_todos P f db) = task_transition_receipts db"
  "task_candidates (update_todos P f db) = task_candidates db"
  "task_source_refs (update_todos P f db) = task_source_refs db"
  "todo_blockers (update_todos P f db) = todo_blockers db"
  "task_meta (update_todos P f db) = task_meta db"
  "todo_items (update_todos P f db) = map (\<lambda>r. if P r then f r else r) (todo_items db)"
  "task_transition_receipts (update_candidates Q g db) = task_transition_receipts db"
  "todo_items (update_candidates Q g db) = todo_items db"
  "task_source_refs (update_candidates Q g db) = task_source_refs db"
  "todo_blockers (update_candidates Q g db) = todo_blockers db"
  "task_meta (update_candidates Q g db) = task_meta db"
  "task_candidates (update_candidates Q g db) =
     map (\<lambda>r. if Q r then g r else r) (task_candidates db)"
  by (simp_all add: update_todos_def update_candidates_def)

lemma empty_task_inv: "task_inv empty_task_db"
  by (simp add: task_inv_defs empty_task_db_def)

subsection \<open>What each command does to the database\<close>

lemma transaction_cases:
  assumes "transaction b body db = (res, db')"
  shows "db' = db \<or> (\<exists>x. res = Inr x \<and> body db = (Inr x, db'))"
  using assms by (auto simp: transaction_def split: if_splits prod.splits sum.splits)

lemma insert_receipt_cases:
  assumes "insert_receipt r db = (res, db')"
  shows "(\<exists>e. res = Inl e) \<or>
    (res = Inr () \<and> rc_id r \<notin> rc_id ` set (task_transition_receipts db) \<and>
     receipt_key r \<notin> receipt_key ` set (task_transition_receipts db) \<and>
     db' = db\<lparr>task_transition_receipts := task_transition_receipts db @ [r]\<rparr>)"
  using assms by (auto simp: insert_receipt_def split: if_splits)

lemma insert_todo_cases:
  assumes "insert_todo t db = (res, db')"
  shows "(\<exists>e. res = Inl e) \<or>
    (res = Inr () \<and> t_id t \<notin> t_id ` set (todo_items db) \<and>
     t_origin_candidate_id t \<notin> t_origin_candidate_id ` set (todo_items db) \<and>
     db' = db\<lparr>todo_items := todo_items db @ [t]\<rparr>)"
  using assms by (auto simp: insert_todo_def split: if_splits)

definition confirm_receipt ::
  "(instant \<Rightarrow> string) \<Rightarrow> ConfirmCandidateRequest \<Rightarrow> int \<Rightarrow> receipt_row" where
  "confirm_receipt fmt q rv =
     mk_receipt (cf_receipt_id q) ''CANDIDATE'' (cf_candidate_id q) (cf_idempotency_key q)
       (cf_request_hash q) ''PROPOSED'' ''CONFIRMED'' rv (Some (cf_new_todo_id q)) (fmt (cf_now q))"

definition dismiss_receipt ::
  "(instant \<Rightarrow> string) \<Rightarrow> DismissCandidateRequest \<Rightarrow> int \<Rightarrow> receipt_row" where
  "dismiss_receipt fmt q rv =
     mk_receipt (ds_receipt_id q) ''CANDIDATE'' (ds_candidate_id q) (ds_idempotency_key q)
       (ds_request_hash q) ''PROPOSED'' ''DISMISSED'' rv None (fmt (ds_now q))"

definition transition_receipt ::
  "(instant \<Rightarrow> string) \<Rightarrow> TransitionTodoRequest \<Rightarrow> string \<Rightarrow> int \<Rightarrow> receipt_row" where
  "transition_receipt fmt q st rv =
     mk_receipt (tr_receipt_id q) ''TODO'' (tr_todo_id q) (tr_idempotency_key q)
       (tr_request_hash q) st (todo_sql (tr_target q)) rv None (fmt (tr_now q))"

definition delete_receipt ::
  "(instant \<Rightarrow> string) \<Rightarrow> DeleteTodoRequest \<Rightarrow> string \<Rightarrow> int \<Rightarrow> receipt_row" where
  "delete_receipt fmt q st rv =
     mk_receipt (dl_receipt_id q) ''TODO'' (dl_todo_id q) (dl_idempotency_key q)
       (dl_request_hash q) st ''DELETED'' rv None (fmt (dl_now q))"

definition blocker_receipt ::
  "(instant \<Rightarrow> string) \<Rightarrow> bool \<Rightarrow> BlockerEdgeRequest \<Rightarrow> int \<Rightarrow> receipt_row" where
  "blocker_receipt fmt add q rv =
     mk_receipt (be_receipt_id q) ''TODO_BLOCKER'' (be_blocked_todo_id q) (be_idempotency_key q)
       (be_request_hash q) ''EDGE'' (if add then ''BLOCKER_ADDED'' else ''BLOCKER_REMOVED'') rv None
       (fmt (be_now q))"

lemmas receipt_defs = confirm_receipt_def dismiss_receipt_def transition_receipt_def
  delete_receipt_def blocker_receipt_def

definition confirmed_todo ::
  "(instant \<Rightarrow> string) \<Rightarrow> ConfirmCandidateRequest \<Rightarrow> candidate_row \<Rightarrow> todo_row" where
  "confirmed_todo fmt q r =
     \<lparr>t_id = cf_new_todo_id q, t_state = ''CONFIRMED'',
      t_title = (case or_else (bounded_edit (cf_confirmed_title q) 200) (r_title r) of
                   None \<Rightarrow> [] | Some v \<Rightarrow> v),
      t_body = or_else (bounded_edit (cf_confirmed_body q) 2000) (r_body r),
      t_due = or_else (map_option fmt (cf_confirmed_due q)) (r_proposed_due r),
      t_owner_ref = or_else (cf_confirmed_owner_ref q) (r_proposed_owner_ref r),
      t_origin_candidate_id = cf_candidate_id q, t_supersedes_todo_id = None, t_revision = 1,
      t_created_at = fmt (cf_now q), t_updated_at = fmt (cf_now q)\<rparr>"

text \<open>A confirmation that took effect, with everything it changed.\<close>

definition confirmed_db ::
  "(instant \<Rightarrow> string) \<Rightarrow> ConfirmCandidateRequest \<Rightarrow> candidate_row \<Rightarrow> task_db \<Rightarrow> task_db" where
  "confirmed_db fmt q r db =
     (update_candidates (\<lambda>x. r_id x = cf_candidate_id q)
        (close_candidate CandConfirmed (r_revision r + 1) (fmt (cf_now q))) db)
     \<lparr>todo_items := todo_items db @ [confirmed_todo fmt q r],
      task_transition_receipts :=
        task_transition_receipts db @ [confirm_receipt fmt q (r_revision r + 1)]\<rparr>"

lemma confirm_effect:
  assumes "confirm_candidate fmt q db = (Inr x, db')"
  shows "db' = db \<or>
    (\<exists>r. List.find (\<lambda>r. r_id r = cf_candidate_id q) (task_candidates db) = Some r \<and>
       r_state r = candidate_sql CandProposed \<and> r_revision r = cf_expected_revision q \<and>
       x = Some (OutConfirmed (cf_candidate_id q) (cf_new_todo_id q) (r_revision r + 1)) \<and>
       cf_new_todo_id q \<notin> t_id ` set (todo_items db) \<and>
       cf_candidate_id q \<notin> t_origin_candidate_id ` set (todo_items db) \<and>
       cf_receipt_id q \<notin> rc_id ` set (task_transition_receipts db) \<and>
       (''CANDIDATE'', cf_candidate_id q, cf_idempotency_key q)
         \<notin> receipt_key ` set (task_transition_receipts db) \<and>
       db' = confirmed_db fmt q r db)"
  using assms
  unfolding confirm_candidate_def Let_def
  by (auto split: ReceiptCheck.splits option.splits if_splits prod.splits sum.splits
      dest!: insert_todo_cases insert_receipt_cases
      simp: confirmed_db_def confirm_receipt_def confirmed_todo_def update_candidates_def)

definition append_receipt :: "receipt_row \<Rightarrow> task_db \<Rightarrow> task_db" where
  "append_receipt r db = db\<lparr>task_transition_receipts := task_transition_receipts db @ [r]\<rparr>"

definition fresh_receipt :: "receipt_row \<Rightarrow> task_db \<Rightarrow> bool" where
  "fresh_receipt r db \<longleftrightarrow>
     rc_id r \<notin> rc_id ` set (task_transition_receipts db) \<and>
     receipt_key r \<notin> receipt_key ` set (task_transition_receipts db)"

lemma dismiss_effect:
  assumes "dismiss_candidate fmt q db = (Inr x, db')"
  shows "db' = db \<or>
    (\<exists>rv. candidate_state_rev db (ds_candidate_id q) = Some (candidate_sql CandProposed, rv) \<and>
       rv = ds_expected_revision q \<and> x = Some (OutDismissed (ds_candidate_id q) (rv + 1)) \<and>
       fresh_receipt (dismiss_receipt fmt q (rv + 1)) db \<and>
       db' = append_receipt (dismiss_receipt fmt q (rv + 1)) (update_candidates (\<lambda>x. r_id x = ds_candidate_id q)
               (close_candidate CandDismissed (rv + 1) (fmt (ds_now q))) db))"
  using assms unfolding dismiss_candidate_def Let_def
  by (auto split: ReceiptCheck.splits option.splits if_splits prod.splits sum.splits
      dest!: insert_receipt_cases
      simp: append_receipt_def fresh_receipt_def receipt_defs update_candidates_def)

definition transitioned_todo ::
  "(instant \<Rightarrow> string) \<Rightarrow> TransitionTodoRequest \<Rightarrow> int \<Rightarrow> todo_row \<Rightarrow> todo_row" where
  "transitioned_todo fmt q rv x =
     x\<lparr>t_state := todo_sql (tr_target q), t_revision := rv, t_updated_at := fmt (tr_now q)\<rparr>"

lemma transition_effect:
  assumes "transition_todo fmt q db = (Inr x, db')"
  shows "db' = db \<or>
    (\<exists>st rv. todo_state_rev db (tr_todo_id q) = Some (st, rv) \<and>
       st \<noteq> todo_sql (tr_target q) \<and> rv = tr_expected_revision q \<and>
       x = Some (Transitioned (tr_todo_id q) (tr_target q) (rv + 1)) \<and>
       fresh_receipt (transition_receipt fmt q st (rv + 1)) db \<and>
       db' = append_receipt (transition_receipt fmt q st (rv + 1)) (update_todos (\<lambda>x. t_id x = tr_todo_id q)
               (transitioned_todo fmt q (rv + 1)) db))"
  using assms unfolding transition_todo_def Let_def transitioned_todo_def
  by (auto split: ReceiptCheck.splits option.splits if_splits prod.splits sum.splits
      dest!: insert_receipt_cases
      simp: append_receipt_def fresh_receipt_def receipt_defs update_todos_def)

definition without_todo :: "string \<Rightarrow> task_db \<Rightarrow> task_db" where
  "without_todo tid db =
     db\<lparr>todo_blockers := filter (\<lambda>b. b_blocked b \<noteq> tid \<and> b_blocker b \<noteq> tid) (todo_blockers db),
        todo_items := filter (\<lambda>x. t_id x \<noteq> tid) (todo_items db)\<rparr>"

lemma delete_effect:
  assumes "delete_todo fmt q db = (Inr x, db')"
  shows "db' = db \<or>
    (\<exists>st rv. todo_state_rev db (dl_todo_id q) = Some (st, rv) \<and> rv = dl_expected_revision q \<and>
       x = Some (Transitioned (dl_todo_id q) Cancelled rv) \<and>
       fresh_receipt (delete_receipt fmt q st rv) db \<and>
       db' = append_receipt (delete_receipt fmt q st rv) (without_todo (dl_todo_id q) db))"
  using assms unfolding delete_todo_def Let_def
  by (auto split: ReceiptCheck.splits option.splits if_splits prod.splits sum.splits
      dest!: insert_receipt_cases
      simp: append_receipt_def fresh_receipt_def receipt_defs without_todo_def)

text \<open>The edge table after an edit that went through.\<close>

definition edited_edges :: "bool \<Rightarrow> blocker_row \<Rightarrow> task_db \<Rightarrow> task_db" where
  "edited_edges add b db =
     (if \<not> add
      then db\<lparr>todo_blockers := filter (\<lambda>x. edge x \<noteq> edge b) (todo_blockers db)\<rparr>
      else if edge b \<in> edge ` set (todo_blockers db) then db
      else db\<lparr>todo_blockers := todo_blockers db @ [b]\<rparr>)"

definition touched_todo :: "string \<Rightarrow> int \<Rightarrow> todo_row \<Rightarrow> todo_row" where
  "touched_todo now rv x = x\<lparr>t_revision := rv, t_updated_at := now\<rparr>"

definition request_edge :: "(instant \<Rightarrow> string) \<Rightarrow> BlockerEdgeRequest \<Rightarrow> blocker_row" where
  "request_edge fmt q =
     \<lparr>b_blocked = be_blocked_todo_id q, b_blocker = be_blocker_todo_id q,
      b_created_at = fmt (be_now q)\<rparr>"

lemma edited_edges_fields [simp]:
  "task_transition_receipts (edited_edges add b db) = task_transition_receipts db"
  "task_candidates (edited_edges add b db) = task_candidates db"
  "task_source_refs (edited_edges add b db) = task_source_refs db"
  "todo_items (edited_edges add b db) = todo_items db"
  by (simp_all add: edited_edges_def)

lemma insert_edge_cases:
  assumes "insert_edge b db = (res, db')"
  shows "(\<exists>e. res = Inl e) \<or>
    (res = Inr () \<and> db' = edited_edges True b db \<and>
     (edge b \<notin> edge ` set (todo_blockers db) \<longrightarrow>
        b_blocked b \<in> t_id ` set (todo_items db) \<and> b_blocker b \<in> t_id ` set (todo_items db)))"
  using assms
  by (auto simp: insert_edge_def edited_edges_def edge_def image_iff split: if_splits)

lemma blocker_effect:
  assumes "blocker_edit fmt add q db = (Inr x, db')"
  shows "db' = db \<or>
    (\<exists>st rv. todo_state_rev db (be_blocked_todo_id q) = Some (st, rv) \<and>
       rv = be_expected_revision q \<and> be_blocked_todo_id q \<noteq> be_blocker_todo_id q \<and>
       x = Some (Transitioned (be_blocked_todo_id q) Waiting (rv + 1)) \<and>
       fresh_receipt (blocker_receipt fmt add q (rv + 1)) db \<and>
       (add \<longrightarrow> (be_blocker_todo_id q, be_blocked_todo_id q) \<notin> edge ` set (todo_blockers db)) \<and>
       (add \<longrightarrow> edge (request_edge fmt q) \<notin> edge ` set (todo_blockers db) \<longrightarrow>
          be_blocked_todo_id q \<in> t_id ` set (todo_items db) \<and>
          be_blocker_todo_id q \<in> t_id ` set (todo_items db)) \<and>
       db' = append_receipt (blocker_receipt fmt add q (rv + 1)) (update_todos (\<lambda>x. t_id x = be_blocked_todo_id q)
               (touched_todo (fmt (be_now q)) (rv + 1))
               (edited_edges add (request_edge fmt q) db)))"
proof (cases add)
  case True
  then show ?thesis
    using assms unfolding blocker_edit_def Let_def touched_todo_def
    by (auto split: ReceiptCheck.splits option.splits if_splits prod.splits sum.splits
        dest!: insert_receipt_cases insert_edge_cases
        simp: append_receipt_def fresh_receipt_def receipt_defs request_edge_def edge_def [abs_def])
next
  case False
  then show ?thesis
    using assms unfolding blocker_edit_def Let_def touched_todo_def
    by (auto split: ReceiptCheck.splits option.splits if_splits prod.splits sum.splits
        dest!: insert_receipt_cases
        simp: append_receipt_def fresh_receipt_def receipt_defs update_todos_def
          edited_edges_def request_edge_def edge_def [abs_def])
qed

definition expired_row :: "(instant \<Rightarrow> string) \<Rightarrow> instant \<Rightarrow> candidate_row \<Rightarrow> candidate_row" where
  "expired_row fmt floor r = close_candidate CandExpired (r_revision r + 1) (fmt floor) r"

lemma reconcile_effect:
  assumes "reconcile_tasks fmt parse now db = (Inr x, db')"
  shows "\<exists>floor. now \<le> floor \<and>
    (\<forall>v t. task_meta db RECONCILE_FLOOR_KEY = Some v \<longrightarrow> parse v = Some t \<longrightarrow> floor = max t now) \<and>
    (task_meta db RECONCILE_FLOOR_KEY = None \<longrightarrow> floor = now) \<and>
    (\<exists>rep. x = Some rep \<and> reconciled_at rep = floor \<and>
       expired_candidates rep =
         length (filter (due_to_expire (fmt floor)) (task_candidates db)) \<and>
       integrity_errors rep = length (filter (orphan_confirmed db') (task_candidates db'))) \<and>
    db' = (update_candidates (due_to_expire (fmt floor)) (expired_row fmt floor) db)
            \<lparr>task_meta := (task_meta db)(RECONCILE_FLOOR_KEY \<mapsto> fmt floor)\<rparr>"
  using assms unfolding reconcile_tasks_def
  by (auto simp: parse_ts_def Let_def expired_row_def [abs_def] update_candidates_def
      orphan_confirmed_def [abs_def] split: option.splits sum.splits)

lemma ingest_effect:
  assumes "ingest_candidate fmt parse c db = (Inr x, db')"
  shows "db' = db \<or>
    (dedupe_key c \<notin> r_dedupe_key ` set (task_candidates db) \<and>
     cand_id c \<notin> r_id ` set (task_candidates db) \<and>
     x = Some \<lparr>in_candidate = c, in_created = True\<rparr> \<and>
     db' = db\<lparr>task_candidates := task_candidates db @ [candidate_to_row fmt c],
              task_source_refs := task_source_refs db
                @ [source_to_row fmt (cand_id c) (source_ref c)]\<rparr>)"
  using assms unfolding ingest_candidate_def
  by (auto split: if_splits sum.splits option.splits)

subsection \<open>Preservation\<close>

lemma append_receipt_fields [simp]:
  "task_candidates (append_receipt rc db) = task_candidates db"
  "task_source_refs (append_receipt rc db) = task_source_refs db"
  "todo_items (append_receipt rc db) = todo_items db"
  "todo_blockers (append_receipt rc db) = todo_blockers db"
  "task_meta (append_receipt rc db) = task_meta db"
  "task_transition_receipts (append_receipt rc db) = task_transition_receipts db @ [rc]"
  by (simp_all add: append_receipt_def)

lemma append_receipt_inv:
  assumes "task_inv db" and "fresh_receipt rc db"
  shows "task_inv (append_receipt rc db)"
  using assms by (simp add: task_inv_defs fresh_receipt_def)

lemma fresh_receipt_update [simp]:
  "fresh_receipt rc (update_todos P f db) = fresh_receipt rc db"
  "fresh_receipt rc (update_candidates Q g db) = fresh_receipt rc db"
  "fresh_receipt rc (edited_edges add b db) = fresh_receipt rc db"
  "fresh_receipt rc (without_todo tid db) = fresh_receipt rc db"
  by (simp_all add: fresh_receipt_def without_todo_def)

lemma close_candidate_fields [simp]:
  "r_id (close_candidate st rv now r) = r_id r"
  "r_dedupe_key (close_candidate st rv now r) = r_dedupe_key r"
  "r_state (close_candidate st rv now r) = candidate_sql st"
  "r_title (close_candidate st rv now r) = None"
  "r_body (close_candidate st rv now r) = None"
  "r_revision (close_candidate st rv now r) = rv"
  by (simp_all add: close_candidate_def)

text \<open>Closing proposed candidates: no to-do refers to a proposed candidate.\<close>

lemma close_candidates_inv:
  assumes "task_inv db"
    and "\<forall>r \<in> set (task_candidates db). P r \<longrightarrow> r_state r = candidate_sql CandProposed"
  shows "task_inv (update_candidates P (\<lambda>r. close_candidate st (rv r) now r) db)"
proof -
  have "keys_ok (update_candidates P (\<lambda>r. close_candidate st (rv r) now r) db)"
    using assms(1) by (simp add: task_inv_def keys_ok_def)
  moreover have "candidates_ok (update_candidates P (\<lambda>r. close_candidate st (rv r) now r) db)"
    using assms(1) by (auto simp: task_inv_def candidates_ok_def)
  moreover have "todos_ok (update_candidates P (\<lambda>r. close_candidate st (rv r) now r) db)"
    unfolding todos_ok_def
  proof (intro ballI conjI)
    fix t assume t: "t \<in> set (todo_items (update_candidates P
      (\<lambda>r. close_candidate st (rv r) now r) db))"
    then show "t_state t \<in> range todo_sql"
      using assms(1) by (auto simp: task_inv_def todos_ok_def)
    obtain r where r: "r \<in> set (task_candidates db)" "r_id r = t_origin_candidate_id t"
      "r_state r = candidate_sql CandConfirmed"
      using t assms(1) by (auto simp: task_inv_def todos_ok_def)
    then have "\<not> P r" using assms(2) by force
    with r show "\<exists>r \<in> set (task_candidates (update_candidates P
        (\<lambda>r. close_candidate st (rv r) now r) db)).
        r_id r = t_origin_candidate_id t \<and> r_state r = candidate_sql CandConfirmed"
      by (intro bexI [of _ r]) auto
  qed
  moreover have "edges_ok (update_candidates P (\<lambda>r. close_candidate st (rv r) now r) db)"
    using assms(1) by (simp add: task_inv_def edges_ok_def)
  ultimately show ?thesis by (simp add: task_inv_def)
qed

lemma update_todos_inv:
  assumes "task_inv db"
    and "\<And>x. t_id (f x) = t_id x" and "\<And>x. t_origin_candidate_id (f x) = t_origin_candidate_id x"
    and "\<And>x. t_state x \<in> range todo_sql \<Longrightarrow> t_state (f x) \<in> range todo_sql"
  shows "task_inv (update_todos P f db)"
proof -
  have ids: "t_id ` set (todo_items (update_todos P f db)) = t_id ` set (todo_items db)"
    unfolding update_fields set_map by (rule image_update_key) (rule assms(2))
  have "keys_ok (update_todos P f db)"
    using assms(1-3) by (simp add: task_inv_def keys_ok_def)
  moreover have "todos_ok (update_todos P f db)"
    using assms(1,3,4) by (auto simp: task_inv_def todos_ok_def)
  moreover have "edges_ok (update_todos P f db)"
    using assms(1) ids unfolding task_inv_def edges_ok_def by simp
  ultimately show ?thesis using assms(1) by (simp add: task_inv_def candidates_ok_def)
qed

lemma without_todo_inv:
  assumes "task_inv db"
  shows "task_inv (without_todo tid db)"
  using assms
  by (auto simp: task_inv_defs without_todo_def image_iff)

lemma edited_edges_inv:
  assumes "task_inv db" and "b_blocked b \<noteq> b_blocker b"
    and "add \<longrightarrow> (b_blocker b, b_blocked b) \<notin> edge ` set (todo_blockers db)"
    and "add \<longrightarrow> edge b \<notin> edge ` set (todo_blockers db) \<longrightarrow>
      b_blocked b \<in> t_id ` set (todo_items db) \<and> b_blocker b \<in> t_id ` set (todo_items db)"
  shows "task_inv (edited_edges add b db)"
proof -
  have "edges_ok (edited_edges add b db)"
  proof (cases "add \<and> edge b \<notin> edge ` set (todo_blockers db)")
    case True
    then show ?thesis
      using assms by (auto simp: edited_edges_def task_inv_def edges_ok_def edge_def image_iff)
  next
    case False
    then show ?thesis
      using assms(1) by (auto simp: edited_edges_def task_inv_def edges_ok_def)
  qed
  then show ?thesis
    using assms(1) by (simp add: task_inv_def keys_ok_def candidates_ok_def todos_ok_def)
qed

lemma add_todo_inv:
  assumes "task_inv db" and "t_id t \<notin> t_id ` set (todo_items db)"
    and "t_origin_candidate_id t \<notin> t_origin_candidate_id ` set (todo_items db)"
    and "t_state t \<in> range todo_sql"
    and "\<exists>r \<in> set (task_candidates db).
      r_id r = t_origin_candidate_id t \<and> r_state r = candidate_sql CandConfirmed"
  shows "task_inv (db\<lparr>todo_items := todo_items db @ [t]\<rparr>)"
  using assms by (simp add: task_inv_defs)

lemma confirmed_todo_fields [simp]:
  "t_id (confirmed_todo fmt q r) = cf_new_todo_id q"
  "t_origin_candidate_id (confirmed_todo fmt q r) = cf_candidate_id q"
  "t_state (confirmed_todo fmt q r) = todo_sql Confirmed"
  by (simp_all add: confirmed_todo_def)

lemma confirmed_db_inv:
  assumes "task_inv db"
    and "List.find (\<lambda>r. r_id r = cf_candidate_id q) (task_candidates db) = Some r"
    and "r_state r = candidate_sql CandProposed"
    and "cf_new_todo_id q \<notin> t_id ` set (todo_items db)"
    and "cf_candidate_id q \<notin> t_origin_candidate_id ` set (todo_items db)"
    and "fresh_receipt (confirm_receipt fmt q (r_revision r + 1)) db"
  shows "task_inv (confirmed_db fmt q r db)"
proof -
  let ?db1 = "update_candidates (\<lambda>x. r_id x = cf_candidate_id q)
    (\<lambda>x. close_candidate CandConfirmed (r_revision r + 1) (fmt (cf_now q)) x) db"
  have r: "r \<in> set (task_candidates db)" "r_id r = cf_candidate_id q"
    using find_SomeD [OF assms(2)] by auto
  have "\<forall>x \<in> set (task_candidates db). r_id x = cf_candidate_id q \<longrightarrow> x = r"
    using assms(1) r by (auto simp: task_inv_def keys_ok_def dest: distinct_key_eq)
  then have "task_inv ?db1"
    using close_candidates_inv [OF assms(1), of "\<lambda>x. r_id x = cf_candidate_id q" CandConfirmed
        "\<lambda>_. r_revision r + 1"] assms(3) by auto
  moreover have "\<exists>x \<in> set (task_candidates ?db1).
      r_id x = cf_candidate_id q \<and> r_state x = candidate_sql CandConfirmed"
    using r by (intro bexI [of _ "close_candidate CandConfirmed (r_revision r + 1) (fmt (cf_now q)) r"])
      (auto intro!: image_eqI [of _ _ r])
  ultimately have "task_inv (?db1\<lparr>todo_items := todo_items ?db1 @ [confirmed_todo fmt q r]\<rparr>)"
    using assms(4,5) by (intro add_todo_inv) (simp_all del: todo_sql.simps)
  then have "task_inv (append_receipt (confirm_receipt fmt q (r_revision r + 1))
      (?db1\<lparr>todo_items := todo_items ?db1 @ [confirmed_todo fmt q r]\<rparr>))"
    using assms(6) by (intro append_receipt_inv) (simp_all add: fresh_receipt_def)
  then show ?thesis by (simp add: confirmed_db_def append_receipt_def)
qed

lemma ingest_inv:
  assumes "task_inv db" and "cand_state c = CandProposed"
    and "dedupe_key c \<notin> r_dedupe_key ` set (task_candidates db)"
    and "cand_id c \<notin> r_id ` set (task_candidates db)"
  shows "task_inv (db\<lparr>task_candidates := task_candidates db @ [candidate_to_row fmt c],
    task_source_refs := task_source_refs db @ [source_to_row fmt (cand_id c) (source_ref c)]\<rparr>)"
  using assms
  by (auto simp: task_inv_defs candidate_to_row_def source_to_row_def
      simp del: candidate_sql.simps)

lemma transaction_keeps:
  assumes "P db" and "\<And>v db'. body db = (Inr v, db') \<Longrightarrow> P db'"
  shows "P (snd (transaction b body db))"
  using transaction_cases [of b body db] assms by (metis prod.collapse)

lemma confirm_inv:
  assumes "task_inv db" and "confirm_candidate fmt q db = (Inr v, db')"
  shows "task_inv db'"
  using confirm_effect [OF assms(2)] confirmed_db_inv [OF assms(1)] assms(1)
  by (auto simp: fresh_receipt_def confirm_receipt_def)

lemma candidate_state_rev_unique:
  assumes "task_inv db" and "candidate_state_rev db cid = Some (st, rv)"
  shows "\<forall>r \<in> set (task_candidates db). r_id r = cid \<longrightarrow> r_state r = st \<and> r_revision r = rv"
proof (intro ballI impI)
  fix r assume r: "r \<in> set (task_candidates db)" "r_id r = cid"
  then have "List.find (\<lambda>x. r_id x = cid) (task_candidates db) = Some r"
    using find_unique_key [of r_id "task_candidates db" r] assms(1)
    by (simp add: task_inv_def keys_ok_def)
  then show "r_state r = st \<and> r_revision r = rv"
    using assms(2) by (auto simp: candidate_state_rev_def)
qed

lemma todo_state_rev_unique:
  assumes "task_inv db" and "todo_state_rev db tid = Some (st, rv)"
  shows "\<forall>r \<in> set (todo_items db). t_id r = tid \<longrightarrow> t_state r = st \<and> t_revision r = rv"
proof (intro ballI impI)
  fix r assume r: "r \<in> set (todo_items db)" "t_id r = tid"
  then have "List.find (\<lambda>x. t_id x = tid) (todo_items db) = Some r"
    using find_unique_key [of t_id "todo_items db" r] assms(1)
    by (simp add: task_inv_def keys_ok_def)
  then show "t_state r = st \<and> t_revision r = rv"
    using assms(2) by (auto simp: todo_state_rev_def)
qed

lemma dismiss_inv:
  assumes "task_inv db" and "dismiss_candidate fmt q db = (Inr v, db')"
  shows "task_inv db'"
proof -
  have "task_inv (append_receipt rc (update_candidates (\<lambda>x. r_id x = ds_candidate_id q)
      (close_candidate CandDismissed (rv + 1) (fmt (ds_now q))) db))"
    if "candidate_state_rev db (ds_candidate_id q) = Some (candidate_sql CandProposed, rv)"
      and "fresh_receipt rc db" for rv rc
    using that candidate_state_rev_unique [OF assms(1) that(1)]
      close_candidates_inv [OF assms(1), of "\<lambda>x. r_id x = ds_candidate_id q" CandDismissed
        "\<lambda>_. rv + 1" "fmt (ds_now q)"]
    by (intro append_receipt_inv) auto
  then show ?thesis using dismiss_effect [OF assms(2)] assms(1) by blast
qed

lemma transition_inv:
  assumes "task_inv db" and "transition_todo fmt q db = (Inr v, db')"
  shows "task_inv db'"
proof -
  have "task_inv (append_receipt rc (update_todos (\<lambda>x. t_id x = tr_todo_id q)
      (transitioned_todo fmt q rv) db))" if "fresh_receipt rc db" for rc rv
    using that by (intro append_receipt_inv update_todos_inv assms(1))
      (simp_all add: transitioned_todo_def)
  then show ?thesis using transition_effect [OF assms(2)] assms(1) by blast
qed

lemma delete_inv:
  assumes "task_inv db" and "delete_todo fmt q db = (Inr v, db')"
  shows "task_inv db'"
  using delete_effect [OF assms(2)] assms(1)
  by (auto intro!: append_receipt_inv without_todo_inv)

lemma blocker_inv:
  assumes "task_inv db" and "blocker_edit fmt add q db = (Inr v, db')"
  shows "task_inv db'"
proof -
  have "task_inv (append_receipt rc (update_todos (\<lambda>x. t_id x = be_blocked_todo_id q)
      (touched_todo now rv) (edited_edges add (request_edge fmt q) db)))"
    if "fresh_receipt rc db" and "be_blocked_todo_id q \<noteq> be_blocker_todo_id q"
      and "add \<longrightarrow> (be_blocker_todo_id q, be_blocked_todo_id q) \<notin> edge ` set (todo_blockers db)"
      and "add \<longrightarrow> edge (request_edge fmt q) \<notin> edge ` set (todo_blockers db) \<longrightarrow>
        be_blocked_todo_id q \<in> t_id ` set (todo_items db) \<and>
        be_blocker_todo_id q \<in> t_id ` set (todo_items db)" for rc now rv
    using that by (intro append_receipt_inv update_todos_inv edited_edges_inv assms(1))
      (simp_all add: touched_todo_def request_edge_def)
  then show ?thesis using blocker_effect [OF assms(2)] assms(1) by blast
qed

lemma meta_inv: "task_inv (db\<lparr>task_meta := m\<rparr>) = task_inv db"
  by (simp add: task_inv_defs)

lemma reconcile_inv:
  assumes "task_inv db" and "reconcile_tasks fmt parse now db = (Inr v, db')"
  shows "task_inv db'"
proof -
  have "task_inv ((update_candidates (due_to_expire (fmt floor)) (expired_row fmt floor) db)
      \<lparr>task_meta := m\<rparr>)" for floor m
    using close_candidates_inv [OF assms(1), of "due_to_expire (fmt floor)" CandExpired
        "\<lambda>r. r_revision r + 1" "fmt floor"]
    by (simp add: meta_inv expired_row_def [abs_def] due_to_expire_def)
  then show ?thesis using reconcile_effect [OF assms(2)] by blast
qed

lemma ingest_step_inv:
  assumes "task_inv db" and "cand_state c = CandProposed"
    and "ingest_candidate fmt parse c db = (Inr v, db')"
  shows "task_inv db'"
  using ingest_effect [OF assms(3)] ingest_inv [OF assms(1,2)] assms(1) by blast

lemma task_step_inv:
  assumes "task_inv db" and "op_ok x"
  shows "task_inv (task_step fmt parse db x)"
  using assms
  by (cases "(fmt, parse, db, x)" rule: task_step.cases)
    (auto intro!: transaction_keeps [of task_inv] intro: ingest_step_inv confirm_inv dismiss_inv
      transition_inv delete_inv blocker_inv reconcile_inv)

interpretation task_machine: guarded_machine "task_step fmt parse" task_inv op_ok for fmt parse
  by unfold_locales (rule task_step_inv)

end
