(* ===== verification/Task_Properties.thy ===== *)
theory Task_Properties
  imports Task_Invariant
begin

text \<open>
  Properties of the task store: one to-do per candidate, idempotent retries, what a confirmation
  carries over, expiry with a floor that never moves back, and the round trip of a candidate.
\<close>

subsection \<open>Idempotent commands\<close>

text \<open>
  A command whose effect is recorded: a retry finds the record and answers from it, and no later
  operation loses the record.
\<close>

locale idempotent_command =
  fixes step :: "'s \<Rightarrow> 'o \<Rightarrow> 's"
    and run :: "'q \<Rightarrow> 's \<Rightarrow> 'r \<times> 's"
    and recorded :: "'q \<Rightarrow> 'r \<Rightarrow> 's \<Rightarrow> bool"
  assumes effect_recorded: "run q s = (r, s') \<Longrightarrow> s' \<noteq> s \<Longrightarrow> recorded q r s'"
    and recorded_replays: "recorded q r s \<Longrightarrow> run q s = (r, s)"
    and recorded_stays: "recorded q r s \<Longrightarrow> recorded q r (step s x)"
begin

lemma recorded_run: "recorded q r s \<Longrightarrow> recorded q r (foldl step s xs)"
  by (induction xs arbitrary: s) (auto intro: recorded_stays)

lemma retry:
  assumes "run q s = (r, s')" and "s' \<noteq> s"
  shows "run q (foldl step s' xs) = (r, foldl step s' xs)"
  using recorded_run [OF effect_recorded [OF assms]] by (rule recorded_replays)

end

text \<open>The commands that carry an idempotency key.\<close>

fun run_command ::
  "(instant \<Rightarrow> string) \<Rightarrow> task_op \<Rightarrow> task_db \<Rightarrow> (StorageError + TaskOutcome option) \<times> task_db" where
  "run_command fmt (Confirm q) db = transaction False (confirm_candidate fmt q) db"
| "run_command fmt (Dismiss q) db = transaction False (dismiss_candidate fmt q) db"
| "run_command fmt (Transition q) db = transaction False (transition_todo fmt q) db"
| "run_command fmt (Delete q) db = transaction False (delete_todo fmt q) db"
| "run_command fmt (AddBlocker q) db = transaction False (blocker_edit fmt True q) db"
| "run_command fmt (RemoveBlocker q) db = transaction False (blocker_edit fmt False q) db"
| "run_command fmt _ db = (Inr None, db)"

fun request_key :: "task_op \<Rightarrow> (string \<times> string \<times> string) \<times> string" where
  "request_key (Confirm q) =
     ((''CANDIDATE'', cf_candidate_id q, cf_idempotency_key q), cf_request_hash q)"
| "request_key (Dismiss q) =
     ((''CANDIDATE'', ds_candidate_id q, ds_idempotency_key q), ds_request_hash q)"
| "request_key (Transition q) =
     ((''TODO'', tr_todo_id q, tr_idempotency_key q), tr_request_hash q)"
| "request_key (Delete q) =
     ((''TODO'', dl_todo_id q, dl_idempotency_key q), dl_request_hash q)"
| "request_key (AddBlocker q) =
     ((''TODO_BLOCKER'', be_blocked_todo_id q, be_idempotency_key q), be_request_hash q)"
| "request_key (RemoveBlocker q) =
     ((''TODO_BLOCKER'', be_blocked_todo_id q, be_idempotency_key q), be_request_hash q)"
| "request_key _ = (([], [], []), [])"

fun replay_outcome :: "task_op \<Rightarrow> int \<Rightarrow> string option \<Rightarrow> TaskOutcome option" where
  "replay_outcome (Confirm q) rv ent =
     Some (OutConfirmed (cf_candidate_id q) (case ent of None \<Rightarrow> [] | Some t \<Rightarrow> t) rv)"
| "replay_outcome (Dismiss q) rv ent = Some (OutDismissed (ds_candidate_id q) rv)"
| "replay_outcome (Transition q) rv ent = Some (Transitioned (tr_todo_id q) (tr_target q) rv)"
| "replay_outcome (Delete q) rv ent = Some (Transitioned (dl_todo_id q) Cancelled rv)"
| "replay_outcome (AddBlocker q) rv ent =
     (if be_blocked_todo_id q = be_blocker_todo_id q then None
      else Some (Transitioned (be_blocked_todo_id q) Waiting rv))"
| "replay_outcome (RemoveBlocker q) rv ent =
     (if be_blocked_todo_id q = be_blocker_todo_id q then None
      else Some (Transitioned (be_blocked_todo_id q) Waiting rv))"
| "replay_outcome _ rv ent = None"

definition has_receipt :: "task_db \<Rightarrow> string \<times> string \<times> string \<Rightarrow> string \<Rightarrow> int \<Rightarrow> string option \<Rightarrow> bool" where
  "has_receipt db key hash rv ent \<longleftrightarrow>
     (\<exists>rc. List.find (\<lambda>r. receipt_key r = key) (task_transition_receipts db) = Some rc \<and>
        rc_request_hash rc = hash \<and> rc_resulting_revision rc = rv \<and>
        rc_resulting_entity_id rc = ent)"

definition recorded ::
  "task_op \<Rightarrow> StorageError + TaskOutcome option \<Rightarrow> task_db \<Rightarrow> bool" where
  "recorded x r db \<longleftrightarrow>
     (\<exists>rv ent out. has_receipt db (fst (request_key x)) (snd (request_key x)) rv ent \<and>
        replay_outcome x rv ent = Some out \<and> r = Inr (Some out))"

lemma has_receipt_check:
  assumes "has_receipt db (kind, entity, key) hash rv ent"
  shows "check_receipt db kind entity key hash = Replay rv ent"
  using assms by (auto simp: has_receipt_def check_receipt_def)

lemma recorded_replays:
  assumes "recorded x r db"
  shows "run_command fmt x db = (r, db)"
  using assms
  by (cases x)
    (auto simp: recorded_def transaction_def confirm_candidate_def dismiss_candidate_def
      transition_todo_def delete_todo_def blocker_edit_def Let_def
      dest!: has_receipt_check split: if_splits)

text \<open>Receipts are only ever appended.\<close>

definition receipts_extend :: "task_db \<Rightarrow> task_db \<Rightarrow> bool" where
  "receipts_extend db db' \<longleftrightarrow>
     (\<exists>ys. task_transition_receipts db' = task_transition_receipts db @ ys)"

lemma receipts_extend_refl [simp]: "receipts_extend db db"
  by (simp add: receipts_extend_def)

lemma receipts_extend_shapes [simp]:
  "task_transition_receipts db' = task_transition_receipts db \<Longrightarrow> receipts_extend db db'"
  "task_transition_receipts db' = task_transition_receipts db \<Longrightarrow>
     receipts_extend db (append_receipt rc db')"
  "receipts_extend db (confirmed_db fmt q r db)"
  by (simp_all add: receipts_extend_def confirmed_db_def)

lemma task_step_receipts: "receipts_extend db (task_step fmt parse db x)"
  by (cases "(fmt, parse, db, x)" rule: task_step.cases)
    (auto intro!: transaction_keeps [of "receipts_extend db"]
      dest!: ingest_effect confirm_effect dismiss_effect transition_effect delete_effect
        blocker_effect reconcile_effect
      simp: without_todo_def)

lemma has_receipt_extend:
  assumes "has_receipt db key hash rv ent" and "receipts_extend db db'"
  shows "has_receipt db' key hash rv ent"
  using assms by (auto simp: has_receipt_def receipts_extend_def find_append)

lemma has_receipt_new:
  assumes "fresh_receipt rc db" and "task_transition_receipts db' = task_transition_receipts db @ [rc]"
  shows "has_receipt db' (receipt_key rc) (rc_request_hash rc) (rc_resulting_revision rc)
    (rc_resulting_entity_id rc)"
proof -
  have "List.find (\<lambda>r. receipt_key r = receipt_key rc) (task_transition_receipts db) = None"
    using assms(1) by (auto simp: find_None_iff fresh_receipt_def image_iff)
  then show ?thesis using assms(2) by (simp add: has_receipt_def find_append)
qed

lemma recordedI:
  assumes "fresh_receipt rc db" and "task_transition_receipts db' = task_transition_receipts db @ [rc]"
    and "request_key x = (receipt_key rc, rc_request_hash rc)"
    and "replay_outcome x (rc_resulting_revision rc) (rc_resulting_entity_id rc) = Some out"
    and "r = Inr (Some out)"
  shows "recorded x r db'"
  using has_receipt_new [OF assms(1,2)] assms(3-5) unfolding recorded_def by auto

lemma run_command_effect:
  assumes "run_command fmt x db = (r, db')" and "db' \<noteq> db"
  shows "recorded x r db'"
proof -
  have ok: "\<exists>v. r = Inr v \<and> body db = (Inr v, db')" if "transaction False body db = (r, db')" for body
    using transaction_cases [OF that] assms(2) by blast
  show ?thesis
  proof (cases x)
    case (Confirm q)
    then obtain v where v: "r = Inr v" "confirm_candidate fmt q db = (Inr v, db')"
      using assms(1) ok by auto
    obtain c where "db' = confirmed_db fmt q c db" "r_revision c = cf_expected_revision q"
      "v = Some (OutConfirmed (cf_candidate_id q) (cf_new_todo_id q) (r_revision c + 1))"
      "fresh_receipt (confirm_receipt fmt q (r_revision c + 1)) db"
      using confirm_effect [OF v(2)] assms(2) by (auto simp: fresh_receipt_def receipt_defs)
    then show ?thesis
      using v(1) Confirm
      by (intro recordedI [of "confirm_receipt fmt q (r_revision c + 1)" db])
        (simp_all add: confirmed_db_def receipt_defs)
  next
    case (Dismiss q)
    then obtain v where v: "r = Inr v" "dismiss_candidate fmt q db = (Inr v, db')"
      using assms(1) ok by auto
    then show ?thesis
      using dismiss_effect [OF v(2)] assms(2) Dismiss
      by (auto intro!: recordedI [of "dismiss_receipt fmt q (ds_expected_revision q + 1)" db]
          simp: receipt_defs)
  next
    case (Transition q)
    then obtain v where v: "r = Inr v" "transition_todo fmt q db = (Inr v, db')"
      using assms(1) ok by auto
    then obtain st where "fresh_receipt (transition_receipt fmt q st (tr_expected_revision q + 1)) db"
      "task_transition_receipts db' = task_transition_receipts db
         @ [transition_receipt fmt q st (tr_expected_revision q + 1)]"
      "v = Some (Transitioned (tr_todo_id q) (tr_target q) (tr_expected_revision q + 1))"
      using transition_effect [OF v(2)] assms(2) by auto
    then show ?thesis
      using v(1) Transition
      by (intro recordedI [of "transition_receipt fmt q st (tr_expected_revision q + 1)" db])
        (simp_all add: receipt_defs)
  next
    case (Delete q)
    then obtain v where v: "r = Inr v" "delete_todo fmt q db = (Inr v, db')"
      using assms(1) ok by auto
    then obtain st where "fresh_receipt (delete_receipt fmt q st (dl_expected_revision q)) db"
      "task_transition_receipts db' = task_transition_receipts db
         @ [delete_receipt fmt q st (dl_expected_revision q)]"
      "v = Some (Transitioned (dl_todo_id q) Cancelled (dl_expected_revision q))"
      using delete_effect [OF v(2)] assms(2) by (auto simp: without_todo_def)
    then show ?thesis
      using v(1) Delete
      by (intro recordedI [of "delete_receipt fmt q st (dl_expected_revision q)" db])
        (simp_all add: receipt_defs)
  next
    case (AddBlocker q)
    then obtain v where v: "r = Inr v" "blocker_edit fmt True q db = (Inr v, db')"
      using assms(1) ok by auto
    then show ?thesis
      using blocker_effect [OF v(2)] assms(2) AddBlocker
      by (auto intro!: recordedI [of "blocker_receipt fmt True q (be_expected_revision q + 1)" db]
          simp: receipt_defs)
  next
    case (RemoveBlocker q)
    then obtain v where v: "r = Inr v" "blocker_edit fmt False q db = (Inr v, db')"
      using assms(1) ok by auto
    then show ?thesis
      using blocker_effect [OF v(2)] assms(2) RemoveBlocker
      by (auto intro!: recordedI [of "blocker_receipt fmt False q (be_expected_revision q + 1)" db]
          simp: receipt_defs)
  qed (use assms in auto)
qed

lemma recorded_step:
  assumes "recorded x r db"
  shows "recorded x r (task_step fmt parse db y)"
  using assms has_receipt_extend [OF _ task_step_receipts] unfolding recorded_def by blast

interpretation receipts: idempotent_command "task_step fmt parse" "run_command fmt" recorded
  for fmt parse
  by unfold_locales (fact run_command_effect recorded_replays recorded_step)+

text \<open> C31. Every task command is idempotent: once it took effect, repeating the same request (same
  key and content) after any later commands, of which some may fail, gives the recorded outcome and
  changes nothing.\<close>

theorem task_retry_is_idempotent:
  assumes "run_command fmt x db = (r, db')" and "db' \<noteq> db"
  shows "run_command fmt x (foldl (task_step fmt parse) db' later) =
    (r, foldl (task_step fmt parse) db' later)"
  by (rule receipts.retry [OF assms])

subsection \<open>Sample data\<close>

text \<open>A codec with the properties used: the instant as the length of a text.\<close>

definition sample_fmt :: "instant \<Rightarrow> string" where
  "sample_fmt t = replicate t (CHR ''x'')"

definition sample_parse :: "string \<Rightarrow> instant option" where
  "sample_parse v = Some (length v)"

definition sample_candidate :: "string \<Rightarrow> string \<Rightarrow> instant \<Rightarrow> TaskCandidate" where
  "sample_candidate cid key expires =
     \<lparr>cand_id = cid, cand_state = CandProposed, cand_title = Some ''t'', cand_body = None,
      proposed_due = None, proposed_owner_ref = None, cand_expires_at = expires,
      source_ref = \<lparr>source_kind = Interruption, extension_id = None, install_id = None,
        account_subject_ref = None, upstream_object_id = None, upstream_revision = None,
        upstream_etag = None, occurred_at = None, observed_at = 1, dedupe_namespace = ''n'',
        content_hash = ''h'', lifecycle = LcActive, source_outcome = None\<rparr>,
      dedupe_key = key, cand_revision = 1, cand_created_at = 1, cand_updated_at = 1\<rparr>"

definition sample_confirm :: "string \<Rightarrow> string \<Rightarrow> ConfirmCandidateRequest" where
  "sample_confirm cid tid =
     \<lparr>cf_candidate_id = cid, cf_expected_revision = 1, cf_idempotency_key = ''k'',
      cf_request_hash = ''h'', cf_new_todo_id = tid, cf_receipt_id = ''rc'' @ cid,
      cf_confirmed_due = None, cf_confirmed_owner_ref = None, cf_confirmed_title = None,
      cf_confirmed_body = None, cf_now = 2\<rparr>"

definition sample_task_db :: task_db where
  "sample_task_db = task_step sample_fmt sample_parse empty_task_db
     (False, Ingest (sample_candidate ''c1'' ''d1'' 5))"

lemmas sample_defs = sample_task_db_def sample_candidate_def sample_confirm_def empty_task_db_def
  sample_fmt_def sample_parse_def

theorem task_retry_is_idempotent_witness:
  "\<exists>r db'. run_command sample_fmt (Confirm (sample_confirm ''c1'' ''t1'')) sample_task_db = (r, db') \<and>
     run_command sample_fmt (Confirm (sample_confirm ''c1'' ''t1''))
       (task_step sample_fmt sample_parse db' (False, Reconcile 9)) =
     (r, task_step sample_fmt sample_parse db' (False, Reconcile 9))"
proof -
  obtain r db' where e:
    "run_command sample_fmt (Confirm (sample_confirm ''c1'' ''t1'')) sample_task_db = (r, db')"
    by fastforce
  have "todo_items db' \<noteq> todo_items sample_task_db"
    using e
    by (auto simp: sample_defs transaction_def ingest_candidate_def candidate_to_row_def
        confirm_candidate_def check_receipt_def insert_todo_def insert_receipt_def
        update_candidates_def close_candidate_def mk_receipt_def Let_def)
  then have "db' \<noteq> sample_task_db" by blast
  from task_retry_is_idempotent [OF e this, of sample_parse "[(False, Reconcile 9)]"] e
  show ?thesis by auto
qed

subsection \<open>Well-formedness of every reachable store\<close>

text \<open> C30. In every store reached by commands, failed ones included: a candidate has at most one
  to-do and only once it is confirmed, ids and dedupe keys are unique, a closed candidate holds no
  title or body, every state decodes, and the blocker edges join existing to-dos without self edges
  and without two-edge cycles.\<close>

theorem task_store_well_formed:
  assumes "list_all op_ok ops"
    and "foldl (task_step fmt parse) empty_task_db ops = db"
  shows "length (filter (\<lambda>t. t_origin_candidate_id t = cid) (todo_items db)) \<le> 1 \<and>
    (\<forall>t \<in> set (todo_items db). \<exists>r \<in> set (task_candidates db).
       r_id r = t_origin_candidate_id t \<and> candidate_of_sql (r_state r) = Some CandConfirmed) \<and>
    distinct (map r_id (task_candidates db)) \<and> distinct (map r_dedupe_key (task_candidates db)) \<and>
    (\<forall>r \<in> set (task_candidates db). \<exists>s. candidate_of_sql (r_state r) = Some s \<and>
       (candidate_is_terminal s \<longrightarrow> r_title r = None \<and> r_body r = None)) \<and>
    (\<forall>t \<in> set (todo_items db). \<exists>s. todo_of_sql (t_state t) = Some s) \<and>
    (\<forall>b \<in> set (todo_blockers db). b_blocked b \<noteq> b_blocker b \<and>
       {b_blocked b, b_blocker b} \<subseteq> t_id ` set (todo_items db) \<and>
       (b_blocker b, b_blocked b) \<notin> edge ` set (todo_blockers db))"
proof -
  have inv: "task_inv db"
    using task_machine.guarded_run_inv [OF empty_task_inv assms(1), of fmt parse] assms(2) by simp
  have d: "distinct (map t_origin_candidate_id (todo_items db))"
    using inv by (simp add: task_inv_def keys_ok_def)
  have "length (filter (\<lambda>t. t_origin_candidate_id t = cid) (todo_items db)) \<le> 1"
  proof -
    have "distinct (map t_origin_candidate_id
        (filter (\<lambda>t. t_origin_candidate_id t = cid) (todo_items db)))"
      using d by (rule distinct_map_filter)
    moreover have "set (map t_origin_candidate_id
        (filter (\<lambda>t. t_origin_candidate_id t = cid) (todo_items db))) \<subseteq> {cid}" by auto
    ultimately show ?thesis
      by (metis card_mono card.empty card_insert_disjoint distinct_card empty_iff finite.emptyI
          finite.insertI length_map One_nat_def)
  qed
  moreover have "\<And>r. r \<in> set (task_candidates db) \<Longrightarrow> \<exists>s. candidate_of_sql (r_state r) = Some s \<and>
      (candidate_is_terminal s \<longrightarrow> r_title r = None \<and> r_body r = None)"
    using inv unfolding task_inv_def candidates_ok_def candidate_is_terminal_def
    by (metis candidate_sql_inj candidate_sql_round_trip rangeE)
  moreover have "\<And>t. t \<in> set (todo_items db) \<Longrightarrow> \<exists>s. todo_of_sql (t_state t) = Some s"
    using inv unfolding task_inv_def todos_ok_def by (metis rangeE todo_sql_round_trip)
  moreover have "\<And>t. t \<in> set (todo_items db) \<Longrightarrow> \<exists>r \<in> set (task_candidates db).
      r_id r = t_origin_candidate_id t \<and> candidate_of_sql (r_state r) = Some CandConfirmed"
    using inv unfolding task_inv_def todos_ok_def by (metis candidate_sql_round_trip)
  moreover have "\<And>b. b \<in> set (todo_blockers db) \<Longrightarrow> b_blocked b \<noteq> b_blocker b \<and>
      {b_blocked b, b_blocker b} \<subseteq> t_id ` set (todo_items db) \<and>
      (b_blocker b, b_blocked b) \<notin> edge ` set (todo_blockers db)"
    using inv by (simp add: task_inv_def edges_ok_def)
  moreover have "distinct (map r_id (task_candidates db))"
    "distinct (map r_dedupe_key (task_candidates db))"
    using inv by (simp_all add: task_inv_def keys_ok_def)
  ultimately show ?thesis by blast
qed

theorem task_store_well_formed_witness:
  "length (filter (\<lambda>t. t_origin_candidate_id t = ''c1'') (todo_items
     (foldl (task_step sample_fmt sample_parse) empty_task_db
       [(False, Ingest (sample_candidate ''c1'' ''d1'' 5)),
        (False, Confirm (sample_confirm ''c1'' ''t1'')),
        (True, Confirm (sample_confirm ''c1'' ''t2'')), (False, Reconcile 9)]))) \<le> 1"
  using task_store_well_formed
    [of "[(False, Ingest (sample_candidate ''c1'' ''d1'' 5)),
        (False, Confirm (sample_confirm ''c1'' ''t1'')),
        (True, Confirm (sample_confirm ''c1'' ''t2'')), (False, Reconcile 9)]", OF _ refl]
  by (simp add: sample_candidate_def)

end
