(* ===== verification/Task_Lifecycle.thy ===== *)
theory Task_Lifecycle
  imports Task_Properties
begin

text \<open>
  The functional behaviour of the task store over time: what a confirmation carries over, how
  reconciliation expires candidates, and the round trip of an ingested candidate.
\<close>

subsection \<open>Timestamps as text\<close>

text \<open>
  The instants a four-digit year can render: 3652425 days from year 0. Below it chrono renders a
  fixed-width date and time, so the text order is the time order.
\<close>

definition TEXT_HORIZON :: instant where
  "TEXT_HORIZON = 3652425 * 86400 * 10 ^ 9"

definition timestamp_codec :: "(instant \<Rightarrow> string) \<Rightarrow> (string \<Rightarrow> instant option) \<Rightarrow> bool" where
  "timestamp_codec fmt parse \<longleftrightarrow>
     (\<forall>s t. s < TEXT_HORIZON \<and> t < TEXT_HORIZON \<longrightarrow>
        parse (fmt s) = Some s \<and> (fmt s \<le> fmt t \<longleftrightarrow> s \<le> t))"

lemma codec_parse:
  assumes "timestamp_codec fmt parse" and "t < TEXT_HORIZON"
  shows "parse_ts parse (fmt t) = Inr t"
  using assms by (simp add: timestamp_codec_def parse_ts_def)

lemma codec_parse_opt:
  assumes "timestamp_codec fmt parse" and "\<And>t. x = Some t \<Longrightarrow> t < TEXT_HORIZON"
  shows "parse_ts_opt parse (map_option fmt x) = Inr x"
  using assms codec_parse [OF assms(1)] by (cases x) (simp_all add: parse_ts_opt_def)

lemma codec_le:
  assumes "timestamp_codec fmt parse" and "s < TEXT_HORIZON" and "t < TEXT_HORIZON"
  shows "fmt s \<le> fmt t \<longleftrightarrow> s \<le> t"
  using assms by (simp add: timestamp_codec_def)

lemma replicate_le: "replicate s c \<le> replicate t (c :: char) \<longleftrightarrow> s \<le> t"
proof (induction s arbitrary: t)
  case 0
  then show ?case by simp
next
  case (Suc s)
  then show ?case by (cases t) simp_all
qed

lemma sample_codec: "timestamp_codec sample_fmt sample_parse"
  by (simp add: timestamp_codec_def sample_fmt_def sample_parse_def replicate_le)

subsection \<open>Confirmation\<close>

lemma confirm_succeeds:
  assumes "task_inv db"
    and "r \<in> set (task_candidates db)" and "r_id r = cf_candidate_id q"
    and "r_state r = ''PROPOSED''" and "r_revision r = cf_expected_revision q"
    and "cf_new_todo_id q \<notin> t_id ` set (todo_items db)"
    and "cf_receipt_id q \<notin> rc_id ` set (task_transition_receipts db)"
    and "(''CANDIDATE'', cf_candidate_id q, cf_idempotency_key q)
      \<notin> receipt_key ` set (task_transition_receipts db)"
  shows "confirm_candidate fmt q db =
    (Inr (Some (OutConfirmed (cf_candidate_id q) (cf_new_todo_id q) (r_revision r + 1))),
     confirmed_db fmt q r db)"
proof -
  have find: "List.find (\<lambda>x. r_id x = cf_candidate_id q) (task_candidates db) = Some r"
    using find_unique_key [of r_id "task_candidates db" r] assms(1-3)
    by (simp add: task_inv_def keys_ok_def)
  have orig: "cf_candidate_id q \<notin> t_origin_candidate_id ` set (todo_items db)"
  proof
    assume "cf_candidate_id q \<in> t_origin_candidate_id ` set (todo_items db)"
    then obtain x where x: "x \<in> set (task_candidates db)" "r_id x = r_id r"
      "r_state x = candidate_sql CandConfirmed"
      using assms(1,3) by (auto simp: task_inv_def todos_ok_def)
    then have "x = r" using assms(1,2) by (auto simp: task_inv_def keys_ok_def dest: distinct_key_eq)
    then show False using assms(4) x(3) by simp
  qed
  have "List.find (\<lambda>x. receipt_key x = (''CANDIDATE'', cf_candidate_id q, cf_idempotency_key q))
      (task_transition_receipts db) = None"
    using assms(8) by (auto simp: find_None_iff image_iff)
  then have fresh: "check_receipt db ''CANDIDATE'' (cf_candidate_id q) (cf_idempotency_key q)
      (cf_request_hash q) = Fresh"
    by (simp add: check_receipt_def)
  have todo: "insert_todo (confirmed_todo fmt q r) db1 =
      (Inr (), db1\<lparr>todo_items := todo_items db @ [confirmed_todo fmt q r]\<rparr>)"
    if "todo_items db1 = todo_items db" "r_id ` set (task_candidates db1) = r_id ` set (task_candidates db)"
    for db1
    using that orig assms(6) imageI [OF assms(2), of r_id] assms(3)
    by (auto simp: insert_todo_def)
  have ids: "r_id ` set (task_candidates (update_candidates P (close_candidate st rv now) db)) =
      r_id ` set (task_candidates db)" for P st rv now
    unfolding update_fields set_map by (rule image_update_key) simp
  show ?thesis
    using find fresh assms(4,5,7,8) todo [OF _ ids]
    by (simp add: confirm_candidate_def Let_def insert_receipt_def confirmed_db_def
        confirm_receipt_def confirmed_todo_def)
qed

text \<open> Confirming a proposed candidate at its current revision, with new identifiers, succeeds:
  the candidate is closed without content at the next revision, every other candidate is
  untouched, and the new to-do at revision 1 carries the edited title and body (trimmed and cut),
  the given due time and owner, and for what is not given the candidate's proposal.\<close>

theorem confirm_carries_proposal:
  assumes "task_inv db"
    and "r \<in> set (task_candidates db)" and "r_id r = cf_candidate_id q"
    and "r_state r = ''PROPOSED''" and "r_revision r = cf_expected_revision q"
    and "cf_new_todo_id q \<notin> t_id ` set (todo_items db)"
    and "cf_receipt_id q \<notin> rc_id ` set (task_transition_receipts db)"
    and "(''CANDIDATE'', cf_candidate_id q, cf_idempotency_key q)
      \<notin> receipt_key ` set (task_transition_receipts db)"
  shows "\<exists>db' todo. confirm_candidate fmt q db =
      (Inr (Some (OutConfirmed (cf_candidate_id q) (cf_new_todo_id q) (r_revision r + 1))), db') \<and>
    todo_items db' = todo_items db @ [todo] \<and>
    task_candidates db' = map (\<lambda>x. if r_id x = r_id r
      then x\<lparr>r_state := ''CONFIRMED'', r_title := None, r_body := None,
             r_revision := r_revision r + 1, r_updated_at := fmt (cf_now q)\<rparr> else x)
      (task_candidates db) \<and>
    t_id todo = cf_new_todo_id q \<and> t_origin_candidate_id todo = r_id r \<and> t_revision todo = 1 \<and>
    t_state todo = ''CONFIRMED'' \<and>
    t_title todo = (case bounded_edit (cf_confirmed_title q) 200 of Some v \<Rightarrow> v
                    | None \<Rightarrow> (case r_title r of Some v \<Rightarrow> v | None \<Rightarrow> [])) \<and>
    t_due todo = (case cf_confirmed_due q of Some d \<Rightarrow> Some (fmt d) | None \<Rightarrow> r_proposed_due r) \<and>
    t_owner_ref todo = (case cf_confirmed_owner_ref q of Some v \<Rightarrow> Some v
                        | None \<Rightarrow> r_proposed_owner_ref r)"
proof -
  have "task_candidates (confirmed_db fmt q r db) = map (\<lambda>x. if r_id x = r_id r
      then x\<lparr>r_state := ''CONFIRMED'', r_title := None, r_body := None,
             r_revision := r_revision r + 1, r_updated_at := fmt (cf_now q)\<rparr> else x)
      (task_candidates db)"
    using assms(3) by (simp add: confirmed_db_def close_candidate_def cong: if_cong)
  then show ?thesis
    using confirm_succeeds [OF assms] assms(3)
    by (intro exI [of _ "confirmed_db fmt q r db"] exI [of _ "confirmed_todo fmt q r"])
      (auto simp: confirmed_db_def confirmed_todo_def or_else_def split: option.split)
qed

definition sample_row :: candidate_row where
  "sample_row = candidate_to_row sample_fmt (sample_candidate ''c1'' ''d1'' 5)"

lemma sample_task_db_facts:
  "task_inv sample_task_db" "sample_row \<in> set (task_candidates sample_task_db)"
  "todo_items sample_task_db = []" "task_transition_receipts sample_task_db = []"
proof -
  show "task_inv sample_task_db"
    using task_step_inv [OF empty_task_inv, of "(False, Ingest (sample_candidate ''c1'' ''d1'' 5))"]
    by (simp add: sample_task_db_def sample_candidate_def)
  show "sample_row \<in> set (task_candidates sample_task_db)"
    "todo_items sample_task_db = []" "task_transition_receipts sample_task_db = []"
    by (simp_all add: sample_task_db_def sample_row_def empty_task_db_def transaction_def
        ingest_candidate_def sample_candidate_def)
qed

theorem confirm_carries_proposal_witness:
  "\<exists>db' todo. confirm_candidate sample_fmt (sample_confirm ''c1'' ''t1'') sample_task_db =
      (Inr (Some (OutConfirmed ''c1'' ''t1'' 2)), db') \<and>
    todo_items db' = [todo] \<and> t_title todo = ''t''"
proof -
  have row: "r_id sample_row = ''c1''" "r_state sample_row = ''PROPOSED''"
    "r_revision sample_row = 1" "r_title sample_row = Some ''t''"
    by (simp_all add: sample_row_def candidate_to_row_def sample_candidate_def)
  show ?thesis
    using confirm_carries_proposal [OF sample_task_db_facts(1,2),
        of "sample_confirm ''c1'' ''t1''" sample_fmt] row
    by (auto simp: sample_confirm_def sample_task_db_facts bounded_edit_def)
qed

subsection \<open>Reconciliation\<close>

text \<open>The rows and the floor hold rendered instants below the horizon.\<close>

definition times_ok :: "(instant \<Rightarrow> string) \<Rightarrow> (candidate_row \<Rightarrow> instant) \<Rightarrow> task_db \<Rightarrow> bool" where
  "times_ok fmt expiry db \<longleftrightarrow>
     (\<forall>r \<in> set (task_candidates db). r_expires_at r = fmt (expiry r) \<and> expiry r < TEXT_HORIZON)"

definition stored_floor :: "(string \<Rightarrow> instant option) \<Rightarrow> task_db \<Rightarrow> instant option" where
  "stored_floor parse db = Option.bind (task_meta db RECONCILE_FLOOR_KEY) parse"

text \<open> Reconciliation at any clock reading uses the later of that reading and the stored floor,
  stores it as the new floor, and expires exactly the proposed candidates whose expiry is at or
  before it: those lose their content and gain a revision, all others stay as they are. So the
  floor never moves back, however the wall clock does.\<close>

theorem reconcile_expires_exactly_the_overdue:
  assumes "timestamp_codec fmt parse" and "times_ok fmt expiry db" and "now < TEXT_HORIZON"
    and "task_meta db RECONCILE_FLOOR_KEY = map_option fmt prev"
    and "\<And>t. prev = Some t \<Longrightarrow> t < TEXT_HORIZON"
  shows "\<exists>rep db'. reconcile_tasks fmt parse now db = (Inr (Some rep), db') \<and>
    reconciled_at rep = (case prev of None \<Rightarrow> now | Some t \<Rightarrow> max t now) \<and>
    stored_floor parse db' = Some (reconciled_at rep) \<and>
    task_candidates db' = map (\<lambda>r.
      if r_state r = ''PROPOSED'' \<and> expiry r \<le> reconciled_at rep
      then r\<lparr>r_state := ''EXPIRED'', r_title := None, r_body := None,
             r_revision := r_revision r + 1, r_updated_at := fmt (reconciled_at rep)\<rparr>
      else r) (task_candidates db) \<and>
    expired_candidates rep = length (filter
      (\<lambda>r. r_state r = ''PROPOSED'' \<and> expiry r \<le> reconciled_at rep) (task_candidates db))"
proof -
  define floor where "floor = (case prev of None \<Rightarrow> now | Some t \<Rightarrow> max t now)"
  have hz: "floor < TEXT_HORIZON" using assms(3,5) by (auto simp: floor_def split: option.split)
  have due: "due_to_expire (fmt floor) r = (r_state r = ''PROPOSED'' \<and> expiry r \<le> floor)"
    if "r \<in> set (task_candidates db)" for r
    using that assms(2) codec_le [OF assms(1) _ hz] by (auto simp: times_ok_def due_to_expire_def)
  have len: "filter (due_to_expire (fmt floor)) (task_candidates db) =
      filter (\<lambda>r. r_state r = ''PROPOSED'' \<and> expiry r \<le> floor) (task_candidates db)"
    using due by (rule filter_cong [OF refl])
  have rows: "map (\<lambda>r. if due_to_expire (fmt floor) r
        then close_candidate CandExpired (r_revision r + 1) (fmt floor) r else r) (task_candidates db) =
      map (\<lambda>r. if r_state r = ''PROPOSED'' \<and> expiry r \<le> floor
        then r\<lparr>r_state := ''EXPIRED'', r_title := None, r_body := None,
               r_revision := r_revision r + 1, r_updated_at := fmt floor\<rparr> else r) (task_candidates db)"
    using due by (intro map_cong refl) (simp add: close_candidate_def)
  have run: "(case task_meta db RECONCILE_FLOOR_KEY of None \<Rightarrow> Inr now
      | Some v \<Rightarrow> (case parse_ts parse v of Inl e \<Rightarrow> Inl e | Inr t \<Rightarrow> Inr (max t now))) = Inr floor"
    using assms(4,5) codec_parse [OF assms(1)] by (cases prev) (simp_all add: floor_def)
  have "parse (fmt floor) = Some floor" using assms(1) hz by (simp add: timestamp_codec_def)
  then show ?thesis
    unfolding reconcile_tasks_def run
    by (simp add: Let_def len rows floor_def [symmetric] stored_floor_def)
qed

theorem reconcile_expires_exactly_the_overdue_witness:
  "\<exists>rep db'. reconcile_tasks sample_fmt sample_parse 9 sample_task_db = (Inr (Some rep), db') \<and>
     reconciled_at rep = 9 \<and> expired_candidates rep = 1"
proof -
  have rows: "task_candidates sample_task_db = [sample_row]" "task_meta sample_task_db = Map.empty"
    by (simp_all add: sample_task_db_def sample_row_def empty_task_db_def transaction_def
        ingest_candidate_def sample_candidate_def)
  have times: "times_ok sample_fmt (\<lambda>_. 5) sample_task_db"
    by (simp add: times_ok_def rows sample_row_def candidate_to_row_def sample_candidate_def
        TEXT_HORIZON_def)
  show ?thesis
    using reconcile_expires_exactly_the_overdue [OF sample_codec times, of 9 None]
    by (auto simp: rows TEXT_HORIZON_def sample_row_def candidate_to_row_def sample_candidate_def)
qed

subsection \<open>Round trip\<close>

text \<open>Values that their stored form can represent.\<close>

definition storable_candidate :: "TaskCandidate \<Rightarrow> bool" where
  "storable_candidate c \<longleftrightarrow>
     kind_of_sql (kind_sql (source_kind (source_ref c))) = source_kind (source_ref c) \<and>
     lifecycle_of_sql (lifecycle_sql (lifecycle (source_ref c))) = lifecycle (source_ref c) \<and>
     (\<forall>t \<in> set_option (proposed_due c) \<union> set_option (occurred_at (source_ref c)) \<union>
        {cand_expires_at c, cand_created_at c, cand_updated_at c, observed_at (source_ref c)}.
        t < TEXT_HORIZON)"

lemma bind_map_outcome [simp]: "Option.bind (map_option outcome_sql x) outcome_of_sql = x"
  by (cases x) simp_all

lemma load_stored_source:
  assumes "timestamp_codec fmt parse" and "storable_candidate c"
    and "List.find (\<lambda>s. sr_candidate_id s = cand_id c) (task_source_refs db) =
      Some (source_to_row fmt (cand_id c) (source_ref c))"
  shows "load_source_ref parse db (cand_id c) = Inr (Some (source_ref c))"
proof -
  have "parse_ts_opt parse (map_option fmt (occurred_at (source_ref c))) =
      Inr (occurred_at (source_ref c))"
    by (rule codec_parse_opt [OF assms(1)]) (use assms(2) in \<open>auto simp: storable_candidate_def\<close>)
  moreover have "parse_ts parse (fmt (observed_at (source_ref c))) = Inr (observed_at (source_ref c))"
    by (rule codec_parse [OF assms(1)]) (use assms(2) in \<open>simp add: storable_candidate_def\<close>)
  ultimately show ?thesis
    using assms(2,3) by (simp add: load_source_ref_def source_to_row_def storable_candidate_def)
qed

lemma load_stored_candidate:
  assumes "timestamp_codec fmt parse" and "storable_candidate c"
    and "List.find (\<lambda>s. sr_candidate_id s = cand_id c) (task_source_refs db) =
      Some (source_to_row fmt (cand_id c) (source_ref c))"
    and "List.find (\<lambda>r. r_dedupe_key r = dedupe_key c) (task_candidates db) =
      Some (candidate_to_row fmt c)"
  shows "load_candidate parse db (dedupe_key c) = Inr (Some c)"
proof -
  have "parse_ts_opt parse (map_option fmt (proposed_due c)) = Inr (proposed_due c)"
    by (rule codec_parse_opt [OF assms(1)]) (use assms(2) in \<open>auto simp: storable_candidate_def\<close>)
  moreover have "parse_ts parse (fmt (cand_expires_at c)) = Inr (cand_expires_at c)"
    "parse_ts parse (fmt (cand_created_at c)) = Inr (cand_created_at c)"
    "parse_ts parse (fmt (cand_updated_at c)) = Inr (cand_updated_at c)"
    by (rule codec_parse [OF assms(1)], use assms(2) in \<open>simp add: storable_candidate_def\<close>)+
  moreover have "r_id (candidate_to_row fmt c) = cand_id c"
    by (simp add: candidate_to_row_def)
  ultimately show ?thesis
    using assms(4) load_stored_source [OF assms(1-3)]
    by (simp add: load_candidate_def candidate_to_row_def)
qed

text \<open> An ingested candidate is read back as it was given, and ingesting any candidate with the
  same dedupe key afterwards creates nothing and returns the stored one.\<close>

theorem ingest_round_trip_and_dedupe:
  assumes "timestamp_codec fmt parse" and "task_inv db" and "storable_candidate c"
    and "dedupe_key c \<notin> r_dedupe_key ` set (task_candidates db)"
    and "cand_id c \<notin> r_id ` set (task_candidates db)"
  shows "\<exists>db'. ingest_candidate fmt parse c db =
      (Inr (Some \<lparr>in_candidate = c, in_created = True\<rparr>), db') \<and>
    get_candidate parse (cand_id c) db' = Inr (Some c) \<and>
    (\<forall>c2. dedupe_key c2 = dedupe_key c \<longrightarrow>
       ingest_candidate fmt parse c2 db' =
         (Inr (Some \<lparr>in_candidate = c, in_created = False\<rparr>), db'))"
proof -
  let ?db' = "db\<lparr>task_candidates := task_candidates db @ [candidate_to_row fmt c],
    task_source_refs := task_source_refs db @ [source_to_row fmt (cand_id c) (source_ref c)]\<rparr>"
  have ids: "sr_candidate_id ` set (task_source_refs db) = r_id ` set (task_candidates db)"
    using assms(2) unfolding task_inv_def keys_ok_def by (metis set_map)
  have "List.find (\<lambda>r. r_id r = cand_id c) (task_candidates db) = None"
    "List.find (\<lambda>r. r_dedupe_key r = dedupe_key c) (task_candidates db) = None"
    "List.find (\<lambda>s. sr_candidate_id s = cand_id c) (task_source_refs db) = None"
    using assms(4,5) ids by (simp_all add: find_key_None)
  then have found: "List.find (\<lambda>r. r_id r = cand_id c) (task_candidates ?db') =
      Some (candidate_to_row fmt c)"
    "List.find (\<lambda>r. r_dedupe_key r = dedupe_key c) (task_candidates ?db') =
      Some (candidate_to_row fmt c)"
    "List.find (\<lambda>s. sr_candidate_id s = cand_id c) (task_source_refs ?db') =
      Some (source_to_row fmt (cand_id c) (source_ref c))"
    by (simp_all add: find_append candidate_to_row_def source_to_row_def)
  have load: "load_candidate parse ?db' (dedupe_key c) = Inr (Some c)"
    by (rule load_stored_candidate [OF assms(1,3) found(3,2)])
  have "ingest_candidate fmt parse c db = (Inr (Some \<lparr>in_candidate = c, in_created = True\<rparr>), ?db')"
    using assms(4,5) ids by (simp add: ingest_candidate_def)
  moreover have "get_candidate parse (cand_id c) ?db' = Inr (Some c)"
    using found(1) load by (simp add: get_candidate_def candidate_to_row_def)
  moreover have "\<And>c2. dedupe_key c2 = dedupe_key c \<Longrightarrow> ingest_candidate fmt parse c2 ?db' =
      (Inr (Some \<lparr>in_candidate = c, in_created = False\<rparr>), ?db')"
    using load by (simp add: ingest_candidate_def candidate_to_row_def)
  ultimately show ?thesis by blast
qed

theorem ingest_round_trip_and_dedupe_witness:
  "\<exists>db'. ingest_candidate sample_fmt sample_parse (sample_candidate ''c1'' ''d1'' 5) empty_task_db =
      (Inr (Some \<lparr>in_candidate = sample_candidate ''c1'' ''d1'' 5, in_created = True\<rparr>), db') \<and>
     get_candidate sample_parse ''c1'' db' = Inr (Some (sample_candidate ''c1'' ''d1'' 5))"
proof -
  have "storable_candidate (sample_candidate ''c1'' ''d1'' 5)"
    by (simp add: storable_candidate_def sample_candidate_def kind_of_sql_def lifecycle_of_sql_def
        TEXT_HORIZON_def)
  from ingest_round_trip_and_dedupe [OF sample_codec empty_task_inv this]
  show ?thesis by (auto simp: empty_task_db_def sample_candidate_def)
qed

end
