(* ===== verification/Task_Commands.thy ===== *)
theory Task_Commands
  imports Task_Lifecycle
begin

text \<open>
  The task commands of \<open>src-tauri/src/commands/task.rs\<close>: the views, the request hashes and the
  commands over the guarded connection. Ids, the clock, SHA-256, the decimal rendering of a
  revision and the timestamp rendering are arguments of the commands.
\<close>

record TaskCandidateView =
  v_id :: string
  v_state :: CandidateState
  v_title :: "string option"
  v_body :: "string option"
  v_proposed_due :: "instant option"
  v_expires_at :: instant
  v_source_kind :: SourceKind
  v_source_lifecycle :: SourceLifecycle
  v_revision :: int

definition candidate_view :: "TaskCandidate \<Rightarrow> TaskCandidateView" where
  "candidate_view c =
     \<lparr>v_id = cand_id c, v_state = cand_state c, v_title = cand_title c, v_body = cand_body c,
      v_proposed_due = proposed_due c, v_expires_at = cand_expires_at c,
      v_source_kind = source_kind (source_ref c), v_source_lifecycle = lifecycle (source_ref c),
      v_revision = cand_revision c\<rparr>"

record TodoView =
  tv_id :: string
  tv_state :: TodoState
  tv_title :: string
  tv_body :: "string option"
  tv_due :: "instant option"
  tv_revision :: int
  tv_created_at :: instant
  tv_updated_at :: instant

definition todo_view :: "TodoItem \<Rightarrow> TodoView" where
  "todo_view t =
     \<lparr>tv_id = todo_id t, tv_state = todo_state t, tv_title = todo_title t, tv_body = todo_body t,
      tv_due = todo_due t, tv_revision = todo_revision t, tv_created_at = todo_created_at t,
      tv_updated_at = todo_updated_at t\<rparr>"

text \<open>What a command is run with: the cells, the outcome of the disk, the codecs and minted values.\<close>

record task_env =
  e_cells :: cells
  e_io_fails :: bool
  e_fmt :: "instant \<Rightarrow> string"
  e_parse :: "string \<Rightarrow> instant option"
  e_sha256_hex :: "string \<Rightarrow> string"
  e_decimal :: "int \<Rightarrow> string"
  e_new_todo_id :: string
  e_receipt_id :: string
  e_now :: instant

definition ipc :: "StorageError + 'a \<Rightarrow> IpcError + 'a" where
  "ipc r = (case r of Inl e \<Rightarrow> Inl (IpcFromStorage e) | Inr x \<Rightarrow> Inr x)"

definition cmd_list_task_candidates ::
  "task_env \<Rightarrow> task_db GuardedConnection \<Rightarrow> IpcError + TaskCandidateView list" where
  "cmd_list_task_candidates env g =
     (case ipc (with_conn_read (list_candidates (e_parse env) reviewable) g) of
        Inl e \<Rightarrow> Inl e
      | Inr cs \<Rightarrow> Inr (map candidate_view cs))"

definition cmd_list_todos ::
  "task_env \<Rightarrow> task_db GuardedConnection \<Rightarrow> IpcError + TodoView list" where
  "cmd_list_todos env g =
     (case ipc (with_conn_read (list_todos (e_parse env) \<lparr>tfl_states = None, tfl_limit = None\<rparr>) g) of
        Inl e \<Rightarrow> Inl e
      | Inr ts \<Rightarrow> Inr (map todo_view ts))"

definition or_empty :: "string option \<Rightarrow> string" where
  "or_empty v = (case v of None \<Rightarrow> [] | Some s \<Rightarrow> s)"

definition cmd_confirm_task_candidate ::
  "task_env \<Rightarrow> string \<Rightarrow> int \<Rightarrow> string \<Rightarrow> instant option \<Rightarrow> string option \<Rightarrow> string option
    \<Rightarrow> string option \<Rightarrow> task_db GuardedConnection
    \<Rightarrow> (IpcError + TaskOutcome) \<times> task_db GuardedConnection" where
  "cmd_confirm_task_candidate env cid expected key due owner title body g =
     (let hash = request_hash (e_sha256_hex env)
            [''confirm'', cid, e_decimal env expected, or_empty (map_option (e_fmt env) due),
             or_empty owner, or_empty title, or_empty body];
          q = \<lparr>cf_candidate_id = cid, cf_expected_revision = expected, cf_idempotency_key = key,
               cf_request_hash = hash, cf_new_todo_id = e_new_todo_id env,
               cf_receipt_id = e_receipt_id env, cf_confirmed_due = due,
               cf_confirmed_owner_ref = owner, cf_confirmed_title = title,
               cf_confirmed_body = body, cf_now = e_now env\<rparr>;
          (res, g') = task_command (e_cells env) (e_io_fails env)
                        (confirm_candidate (e_fmt env) q) g
      in (ipc res, g'))"

definition cmd_dismiss_task_candidate ::
  "task_env \<Rightarrow> string \<Rightarrow> int \<Rightarrow> string \<Rightarrow> string option \<Rightarrow> task_db GuardedConnection
    \<Rightarrow> (IpcError + TaskOutcome) \<times> task_db GuardedConnection" where
  "cmd_dismiss_task_candidate env cid expected key reason0 g =
     (let reason = map_option (take 120) reason0;
          hash = request_hash (e_sha256_hex env)
            [''dismiss'', cid, e_decimal env expected, or_empty reason];
          q = \<lparr>ds_candidate_id = cid, ds_expected_revision = expected, ds_idempotency_key = key,
               ds_request_hash = hash, ds_receipt_id = e_receipt_id env, ds_reason = reason,
               ds_now = e_now env\<rparr>;
          (res, g') = task_command (e_cells env) (e_io_fails env)
                        (dismiss_candidate (e_fmt env) q) g
      in (ipc res, g'))"

text \<open>
  The transition command has two steps with an await between them: the check against the matrix
  on a read, and the compare-and-swap. \<open>cmd_transition_todo\<close> runs them without interruption.
\<close>

definition check_transition ::
  "task_env \<Rightarrow> string \<Rightarrow> string \<Rightarrow> task_db GuardedConnection \<Rightarrow> IpcError + TodoState" where
  "check_transition env tid target_state g =
     (case todo_of_sql target_state of
        None \<Rightarrow> Inl (IpcNew ''validation.invalid_arguments'')
      | Some target \<Rightarrow>
          (case ipc (with_conn_read (get_todo (e_parse env) tid) g) of
             Inl e \<Rightarrow> Inl e
           | Inr None \<Rightarrow> Inr target
           | Inr (Some current) \<Rightarrow>
               if todo_state current \<noteq> target \<and> \<not> can_transition_to (todo_state current) target
               then Inl (IpcNew ''validation.invalid_arguments'')
               else Inr target))"

definition swap_transition ::
  "task_env \<Rightarrow> string \<Rightarrow> TodoState \<Rightarrow> int \<Rightarrow> string \<Rightarrow> task_db GuardedConnection
    \<Rightarrow> (IpcError + TaskOutcome) \<times> task_db GuardedConnection" where
  "swap_transition env tid target expected key g =
     (let hash = request_hash (e_sha256_hex env)
            [''transition'', tid, todo_sql target, e_decimal env expected];
          q = \<lparr>tr_todo_id = tid, tr_target = target, tr_expected_revision = expected,
               tr_idempotency_key = key, tr_request_hash = hash,
               tr_receipt_id = e_receipt_id env, tr_now = e_now env\<rparr>;
          (res, g') = task_command (e_cells env) (e_io_fails env)
                        (transition_todo (e_fmt env) q) g
      in (ipc res, g'))"

definition cmd_transition_todo ::
  "task_env \<Rightarrow> string \<Rightarrow> string \<Rightarrow> int \<Rightarrow> string \<Rightarrow> task_db GuardedConnection
    \<Rightarrow> (IpcError + TaskOutcome) \<times> task_db GuardedConnection" where
  "cmd_transition_todo env tid target_state expected key g =
     (case check_transition env tid target_state g of
        Inl e \<Rightarrow> (Inl e, g)
      | Inr target \<Rightarrow> swap_transition env tid target expected key g)"

definition cmd_delete_todo ::
  "task_env \<Rightarrow> string \<Rightarrow> int \<Rightarrow> string \<Rightarrow> task_db GuardedConnection
    \<Rightarrow> (IpcError + TaskOutcome) \<times> task_db GuardedConnection" where
  "cmd_delete_todo env tid expected key g =
     (let hash = request_hash (e_sha256_hex env) [''delete'', tid, e_decimal env expected];
          q = \<lparr>dl_todo_id = tid, dl_expected_revision = expected, dl_idempotency_key = key,
               dl_request_hash = hash, dl_receipt_id = e_receipt_id env, dl_now = e_now env\<rparr>;
          (res, g') = task_command (e_cells env) (e_io_fails env) (delete_todo (e_fmt env) q) g
      in (ipc res, g'))"

subsection \<open>Commands at the store\<close>

lemma task_command_conn:
  assumes "task_command h b body g = (res, g')"
  shows "conn g' = conn g \<or>
    (\<not> write_blocked h g \<and> (\<exists>x. res = Inr x \<and> body (conn g) = (Inr (Some x), conn g')) \<or>
     (\<exists>e. res = Inl e \<and> body (conn g) = (Inr None, conn g')))"
proof (cases "write_blocked h g")
  case True
  then show ?thesis
    using assms by (simp add: task_command_def with_conn_mut_blocked)
next
  case False
  obtain r db' where t: "transaction b body (conn g) = (r, db')" by fastforce
  have "g' = g\<lparr>conn := db'\<rparr>"
    using assms False t
    by (auto simp: task_command_def with_conn_mut_open split: prod.splits sum.splits option.splits)
  moreover have "db' = conn g \<or> (\<exists>v. r = Inr v \<and> body (conn g) = (Inr v, db'))"
    using transaction_cases [OF t] by blast
  ultimately show ?thesis
    using assms False t
    by (auto simp: task_command_def with_conn_mut_open split: option.splits)
qed

lemma task_command_blocked:
  assumes "write_blocked h g"
  shows "task_command h b body g = (Inl skipped_err, g)"
  using assms by (simp add: task_command_def with_conn_mut_blocked)

subsection \<open>Legal histories\<close>

definition legal_change :: "string \<Rightarrow> string \<Rightarrow> bool" where
  "legal_change a b \<longleftrightarrow>
     a = b \<or> (\<exists>s t. a = todo_sql s \<and> b = todo_sql t \<and> can_transition_to s t)"

text \<open>Every to-do afterwards was there before, moved legally, or is new and just confirmed.\<close>

definition todos_follow :: "task_db \<Rightarrow> task_db \<Rightarrow> bool" where
  "todos_follow db db' \<longleftrightarrow>
     (\<forall>t' \<in> set (todo_items db').
        (\<exists>t \<in> set (todo_items db). t_id t = t_id t' \<and> legal_change (t_state t) (t_state t')) \<or>
        (t_id t' \<notin> t_id ` set (todo_items db) \<and> t_state t' = todo_sql Confirmed))"

lemma todos_follow_refl: "todos_follow db db"
  by (auto simp: todos_follow_def legal_change_def)

lemma todos_follow_same: "todo_items db' = todo_items db \<Longrightarrow> todos_follow db db'"
  by (auto simp: todos_follow_def legal_change_def)

lemma confirm_follows:
  assumes "confirm_candidate fmt q db = (Inr v, db')"
  shows "todos_follow db db'"
  using confirm_effect [OF assms]
  by (auto simp: todos_follow_def legal_change_def confirmed_db_def simp del: todo_sql.simps)

lemma dismiss_follows:
  assumes "dismiss_candidate fmt q db = (Inr v, db')"
  shows "todos_follow db db'"
  using dismiss_effect [OF assms] by (auto intro!: todos_follow_same)

lemma delete_follows:
  assumes "delete_todo fmt q db = (Inr v, db')"
  shows "todos_follow db db'"
  using delete_effect [OF assms]
  by (auto simp: todos_follow_def legal_change_def without_todo_def)

lemma check_transition_sound:
  assumes "check_transition env tid target_state g = Inr target"
    and "todo_state_rev (conn g) tid = Some (st, rv)" and "st \<noteq> todo_sql target"
  shows "legal_change st (todo_sql target)"
proof -
  obtain row where row: "List.find (\<lambda>r. t_id r = tid) (todo_items (conn g)) = Some row"
    "t_state row = st"
    using assms(2) by (auto simp: todo_state_rev_def)
  obtain cur where cur: "row_to_todo (e_parse env) row = Inr cur"
    using assms(1) row(1)
    by (auto simp: check_transition_def with_conn_read_def read_run_def get_todo_def ipc_def
        split: option.splits sum.splits)
  have st: "st = todo_sql (todo_state cur)"
    using cur row(2)
    by (auto simp: row_to_todo_def split: option.splits sum.splits dest: todo_of_sql_SomeD)
  moreover have "todo_state cur = target \<or> can_transition_to (todo_state cur) target"
    using assms(1) row(1) cur
    by (auto simp: check_transition_def with_conn_read_def read_run_def get_todo_def ipc_def
        split: option.splits if_splits)
  ultimately show ?thesis using assms(3) unfolding legal_change_def by blast
qed

lemma transition_follows:
  assumes "transition_todo fmt q db = (Inr v, db')" and "task_inv db"
    and "\<And>st rv. todo_state_rev db (tr_todo_id q) = Some (st, rv) \<Longrightarrow> st \<noteq> todo_sql (tr_target q) \<Longrightarrow>
      legal_change st (todo_sql (tr_target q))"
  shows "todos_follow db db'"
proof (cases "db' = db")
  case True
  then show ?thesis by (simp add: todos_follow_refl)
next
  case False
  then obtain st rv where e: "todo_state_rev db (tr_todo_id q) = Some (st, rv)"
    "st \<noteq> todo_sql (tr_target q)"
    "todo_items db' = map (\<lambda>x. if t_id x = tr_todo_id q then transitioned_todo fmt q (rv + 1) x else x)
      (todo_items db)"
    using transition_effect [OF assms(1)] by auto
  have old: "\<And>t. t \<in> set (todo_items db) \<Longrightarrow> t_id t = tr_todo_id q \<Longrightarrow> t_state t = st"
    using todo_state_rev_unique [OF assms(2) e(1)] by blast
  show ?thesis
    using assms(3) [OF e(1,2)] old e(3)
    by (auto simp: todos_follow_def transitioned_todo_def legal_change_def)
qed

datatype task_request =
    ReqConfirm string int string "instant option" "string option" "string option" "string option"
  | ReqDismiss string int string "string option"
  | ReqTransition string string int string
  | ReqDelete string int string

fun ipc_step ::
  "task_db GuardedConnection \<Rightarrow> task_env \<times> task_request \<Rightarrow> task_db GuardedConnection" where
  "ipc_step g (env, ReqConfirm c n k d u t b) = snd (cmd_confirm_task_candidate env c n k d u t b g)"
| "ipc_step g (env, ReqDismiss c n k r) = snd (cmd_dismiss_task_candidate env c n k r g)"
| "ipc_step g (env, ReqTransition i s n k) = snd (cmd_transition_todo env i s n k g)"
| "ipc_step g (env, ReqDelete i n k) = snd (cmd_delete_todo env i n k g)"

lemma task_command_keeps:
  assumes "task_inv (conn g)"
    and "\<And>v db'. body (conn g) = (Inr v, db') \<Longrightarrow> task_inv db' \<and> todos_follow (conn g) db'"
  shows "task_inv (conn (snd (task_command h b body g))) \<and>
    todos_follow (conn g) (conn (snd (task_command h b body g)))"
proof -
  obtain res g' where t: "task_command h b body g = (res, g')" by fastforce
  from task_command_conn [OF t] assms show ?thesis
    by (auto simp: t todos_follow_refl)
qed

lemma store_commands_keep:
  assumes "task_inv (conn g)"
  shows "task_inv (conn (snd (task_command h b (confirm_candidate fmt q) g))) \<and>
      todos_follow (conn g) (conn (snd (task_command h b (confirm_candidate fmt q) g)))"
    and "task_inv (conn (snd (task_command h b (dismiss_candidate fmt q2) g))) \<and>
      todos_follow (conn g) (conn (snd (task_command h b (dismiss_candidate fmt q2) g)))"
    and "task_inv (conn (snd (task_command h b (delete_todo fmt q3) g))) \<and>
      todos_follow (conn g) (conn (snd (task_command h b (delete_todo fmt q3) g)))"
  by (rule task_command_keeps [OF assms],
      blast intro: confirm_inv [OF assms] confirm_follows dismiss_inv [OF assms] dismiss_follows
        delete_inv [OF assms] delete_follows)+

lemma swap_transition_keeps:
  assumes "task_inv (conn g)" and "check_transition env tid target_state g = Inr target"
  shows "task_inv (conn (snd (swap_transition env tid target expected key g))) \<and>
    todos_follow (conn g) (conn (snd (swap_transition env tid target expected key g)))"
proof -
  have "task_inv db' \<and> todos_follow (conn g) db'"
    if "transition_todo fmt q (conn g) = (Inr v, db')" "tr_todo_id q = tid" "tr_target q = target"
    for fmt q v db'
    using transition_inv [OF assms(1) that(1)] transition_follows [OF that(1) assms(1)]
      check_transition_sound [OF assms(2)] that(2,3) by blast
  then show ?thesis
    by (simp add: swap_transition_def Let_def case_prod_unfold task_command_keeps [OF assms(1)])
qed

lemma ipc_step_legal:
  assumes "task_inv (conn g)"
  shows "task_inv (conn (ipc_step g x)) \<and> todos_follow (conn g) (conn (ipc_step g x))"
proof (cases "(g, x)" rule: ipc_step.cases)
  case (1 g' env c n k d u t b)
  then show ?thesis
    using store_commands_keep [OF assms]
    by (simp add: cmd_confirm_task_candidate_def Let_def case_prod_unfold)
next
  case (2 g' env c n k r)
  then show ?thesis
    using store_commands_keep [OF assms]
    by (simp add: cmd_dismiss_task_candidate_def Let_def case_prod_unfold)
next
  case (3 g' env i s n k)
  then show ?thesis
    using swap_transition_keeps [OF assms] assms
    by (auto simp: cmd_transition_todo_def todos_follow_refl split: sum.split)
next
  case (4 g' env i n k)
  then show ?thesis
    using store_commands_keep [OF assms]
    by (simp add: cmd_delete_todo_def Let_def case_prod_unfold)
qed

interpretation ipc_machine: invariant_machine ipc_step "\<lambda>g. task_inv (conn g)"
  by unfold_locales (simp add: ipc_step_legal)

text \<open> Whatever the client sends, each task command run without interruption moves every existing
  to-do along the transition matrix only, leaves a finished or cancelled one as it is, and adds
  to-dos only in the confirmed state; this holds after any earlier commands.\<close>

theorem commands_move_todos_legally:
  assumes "task_inv (conn g)" and "foldl ipc_step g earlier = g1"
    and "t' \<in> set (todo_items (conn (ipc_step g1 x)))"
  shows "(\<exists>t \<in> set (todo_items (conn g1)). t_id t = t_id t' \<and>
      (t_state t' = t_state t \<or>
       (\<exists>a b. t_state t = todo_sql a \<and> t_state t' = todo_sql b \<and> can_transition_to a b)) \<and>
      (t_state t = todo_sql Done \<or> t_state t = todo_sql Cancelled \<longrightarrow> t_state t' = t_state t)) \<or>
    (t_id t' \<notin> t_id ` set (todo_items (conn g1)) \<and> t_state t' = todo_sql Confirmed)"
proof -
  have "task_inv (conn g1)" using ipc_machine.run_inv [OF assms(1)] assms(2) by blast
  then have "todos_follow (conn g1) (conn (ipc_step g1 x))" using ipc_step_legal by blast
  moreover have "b = a" if "legal_change a b" "a = todo_sql Done \<or> a = todo_sql Cancelled" for a b
    using that by (auto simp: legal_change_def simp del: todo_sql.simps)
  ultimately show ?thesis
    using assms(3) unfolding todos_follow_def legal_change_def by metis
qed

subsection \<open>Sample data and witnesses\<close>

definition sample_task_env :: "string \<Rightarrow> task_env" where
  "sample_task_env rid =
     \<lparr>e_cells = [False, False], e_io_fails = False, e_fmt = sample_fmt, e_parse = sample_parse,
      e_sha256_hex = id, e_decimal = (\<lambda>n. if n = 1 then ''1'' else ''2''), e_new_todo_id = ''t9'',
      e_receipt_id = rid, e_now = 3\<rparr>"

definition sample_todo :: "string \<Rightarrow> todo_row" where
  "sample_todo tid =
     \<lparr>t_id = tid, t_state = ''CONFIRMED'', t_title = ''t'', t_body = None, t_due = None,
      t_owner_ref = None, t_origin_candidate_id = ''c'' @ tid, t_supersedes_todo_id = None,
      t_revision = 1, t_created_at = ''x'', t_updated_at = ''x''\<rparr>"

definition sample_confirmed :: "string \<Rightarrow> candidate_row" where
  "sample_confirmed tid =
     \<lparr>r_id = ''c'' @ tid, r_state = ''CONFIRMED'', r_title = None, r_body = None,
      r_proposed_due = None, r_proposed_owner_ref = None, r_expires_at = ''x'',
      r_dedupe_key = ''d'' @ tid, r_revision = 2, r_created_at = ''x'', r_updated_at = ''x''\<rparr>"

definition sample_store :: "string list \<Rightarrow> task_db GuardedConnection" where
  "sample_store tids =
     \<lparr>conn = \<lparr>task_candidates = map sample_confirmed tids,
        task_source_refs = map (\<lambda>i. source_to_row sample_fmt (''c'' @ i)
          (source_ref (sample_candidate ''c'' ''d'' 5))) tids,
        todo_items = map sample_todo tids, todo_blockers = [], task_transition_receipts = [],
        task_meta = Map.empty\<rparr>,
      gc_deletion_flag = 0, gc_erasing = 1\<rparr>"

lemma sample_store_inv: "task_inv (conn (sample_store [''1'', ''2'', ''3'']))"
proof -
  have "''CONFIRMED'' \<in> range candidate_sql" "''CONFIRMED'' \<in> range todo_sql"
    using rangeI [of candidate_sql CandConfirmed] rangeI [of todo_sql Confirmed] by simp_all
  then show ?thesis
    by (simp add: task_inv_defs sample_store_def sample_confirmed_def sample_todo_def
        source_to_row_def)
qed

lemmas sample_run_defs = cmd_transition_todo_def check_transition_def swap_transition_def
  task_command_def with_conn_mut_def guard_run_def write_lock_def load_cell_def
  sample_store_def sample_task_env_def transaction_def transition_todo_def check_receipt_def
  todo_state_rev_def sample_todo_def insert_receipt_def update_todos_def with_conn_read_def
  read_run_def get_todo_def ipc_def row_to_todo_def parse_ts_def parse_ts_opt_def
  sample_parse_def todo_of_sql_def

theorem commands_move_todos_legally_witness:
  "\<exists>t' \<in> set (todo_items (conn (ipc_step (sample_store [''1'', ''2'', ''3''])
      (sample_task_env ''r1'', ReqTransition ''1'' ''DONE'' 1 ''k'')))).
     t_id t' = ''1'' \<and> t_state t' = todo_sql Done \<and>
     (\<exists>t \<in> set (todo_items (conn (sample_store [''1'', ''2'', ''3'']))). t_id t = ''1'' \<and>
        (\<exists>a b. t_state t = todo_sql a \<and> t_state t' = todo_sql b \<and> can_transition_to a b))"
proof -
  let ?g = "sample_store [''1'', ''2'', ''3'']"
  let ?x = "(sample_task_env ''r1'', ReqTransition ''1'' ''DONE'' 1 ''k'')"
  let ?t' = "(sample_todo ''1'')\<lparr>t_state := ''DONE'', t_revision := 2,
    t_updated_at := sample_fmt 3\<rparr>"
  have t': "?t' \<in> set (todo_items (conn (ipc_step ?g ?x)))"
    by (simp add: sample_run_defs Let_def)
  have old: "\<And>t. t \<in> set (todo_items (conn ?g)) \<Longrightarrow> t_state t = ''CONFIRMED''"
    "''1'' \<in> t_id ` set (todo_items (conn ?g))"
    by (auto simp: sample_store_def sample_todo_def)
  have flds: "t_id ?t' = ''1''" "t_state ?t' = todo_sql Done" by (simp_all add: sample_todo_def)
  have "\<exists>t \<in> set (todo_items (conn ?g)). t_id t = ''1'' \<and>
      (\<exists>a b. t_state t = todo_sql a \<and> t_state ?t' = todo_sql b \<and> can_transition_to a b)"
    using commands_move_todos_legally [OF sample_store_inv _ t', of "[]"] old unfolding flds
    by auto
  then show ?thesis using t' flds by blast
qed

definition edge_request :: "string \<Rightarrow> string \<Rightarrow> BlockerEdgeRequest" where
  "edge_request a b =
     \<lparr>be_blocked_todo_id = a, be_blocker_todo_id = b, be_expected_revision = 1,
      be_idempotency_key = ''k'', be_request_hash = ''h'', be_receipt_id = ''r'' @ a, be_now = 3\<rparr>"

text \<open>The cycle check of \<open>add_blocker\<close> sees direct edges only: three to-dos can be made to block
  each other in a circle, each of the three edits being accepted.\<close>

theorem blockers_can_form_a_cycle:
  "let db = conn (sample_store [''1'', ''2'', ''3'']);
       r1 = blocker_edit sample_fmt True (edge_request ''1'' ''2'') db;
       r2 = blocker_edit sample_fmt True (edge_request ''2'' ''3'') (snd r1);
       r3 = blocker_edit sample_fmt True (edge_request ''3'' ''1'') (snd r2)
   in fst r3 = Inr (Some (Transitioned ''3'' Waiting 2)) \<and>
      map edge (todo_blockers (snd r3)) = [(''1'', ''2''), (''2'', ''3''), (''3'', ''1'')]"
  by (simp add: blocker_edit_def sample_store_def edge_request_def check_receipt_def
      todo_state_rev_def sample_todo_def insert_edge_def update_todos_def insert_receipt_def
      mk_receipt_def receipt_key_def edge_def Let_def)

text \<open>The check and the compare-and-swap of \<open>transition_todo\<close> are separate steps: a request that
  was checked before another one finished the to-do, and carries the revision that one produced,
  reopens it.\<close>

theorem transition_race_reopens_done:
  "let g = sample_store [''1''];
       r1 = cmd_transition_todo (sample_task_env ''r1'') ''1'' ''DONE'' 1 ''k1'' g;
       r2 = swap_transition (sample_task_env ''r2'') ''1'' InProgress 2 ''k2'' (snd r1)
   in check_transition (sample_task_env ''r2'') ''1'' ''IN_PROGRESS'' g = Inr InProgress \<and>
      map t_state (todo_items (conn (snd r1))) = [todo_sql Done] \<and>
      fst r2 = Inr (Transitioned ''1'' InProgress 3) \<and>
      map t_state (todo_items (conn (snd r2))) = [todo_sql InProgress] \<and>
      \<not> can_transition_to Done InProgress"
  by (simp add: Let_def sample_run_defs)

end
