(* ===== verification/Suggestion_Queue.thy ===== *)
theory Suggestion_Queue
  imports Prelude
begin

text \<open>
  The suggestion model of \<open>crates/maekon-core/src/models/suggestion.rs\<close> and the priority queue of
  \<open>crates/maekon-suggestion/src/queue.rs\<close>. The \<open>BTreeSet\<close> of the queue is a list sorted by the key
  its \<open>Ord\<close> instance compares, the hash set of fingerprints a set. The hasher of the standard
  library is the parameter \<open>hash64\<close> on the hashed fields.
\<close>

subsection \<open>Model\<close>

datatype SuggestionSource = RuleBased | LlmLocal | LlmServer

fun source_sql :: "SuggestionSource \<Rightarrow> string" where
  "source_sql LlmServer = ''LLM_SERVER''"
| "source_sql RuleBased = ''RULE_BASED''"
| "source_sql LlmLocal = ''LLM_LOCAL''"

definition source_of_sql :: "string \<Rightarrow> SuggestionSource option" where
  "source_of_sql s =
     (if s = ''LLM_SERVER'' then Some LlmServer
      else if s = ''RULE_BASED'' then Some RuleBased
      else if s = ''LLM_LOCAL'' then Some LlmLocal
      else None)"

datatype SuggestionType =
    WorkGuidance | EmailDraft | ProductivityTip | WorkflowOptimization | ContextBased
  | BreakReminder | FocusMode | TakeBreak | NeedFocusTime | RestoreContext

fun type_sql :: "SuggestionType \<Rightarrow> string" where
  "type_sql WorkGuidance = ''WORK_GUIDANCE''"
| "type_sql EmailDraft = ''EMAIL_DRAFT''"
| "type_sql ProductivityTip = ''PRODUCTIVITY_TIP''"
| "type_sql WorkflowOptimization = ''WORKFLOW_OPTIMIZATION''"
| "type_sql ContextBased = ''CONTEXT_BASED''"
| "type_sql BreakReminder = ''BREAK_REMINDER''"
| "type_sql FocusMode = ''FOCUS_MODE''"
| "type_sql TakeBreak = ''TAKE_BREAK''"
| "type_sql NeedFocusTime = ''NEED_FOCUS_TIME''"
| "type_sql RestoreContext = ''RESTORE_CONTEXT''"

definition type_of_sql :: "string \<Rightarrow> SuggestionType option" where
  "type_of_sql s =
     List.find (\<lambda>t. type_sql t = s)
       [WorkGuidance, EmailDraft, ProductivityTip, WorkflowOptimization, ContextBased,
        BreakReminder, FocusMode, TakeBreak, NeedFocusTime, RestoreContext]"

datatype Priority = Low | Medium | High | Critical

fun priority_rank :: "Priority \<Rightarrow> nat" where
  "priority_rank Low = 0"
| "priority_rank Medium = 1"
| "priority_rank High = 2"
| "priority_rank Critical = 3"

lemma priority_rank_inj [simp]: "priority_rank a = priority_rank b \<longleftrightarrow> a = b"
  by (cases a; cases b) simp_all

text \<open>The derived order: the order of the variants.\<close>

instantiation Priority :: linorder
begin

definition less_eq_Priority :: "Priority \<Rightarrow> Priority \<Rightarrow> bool" where
  "less_eq_Priority a b \<longleftrightarrow> priority_rank a \<le> priority_rank b"

definition less_Priority :: "Priority \<Rightarrow> Priority \<Rightarrow> bool" where
  "less_Priority a b \<longleftrightarrow> priority_rank a < priority_rank b"

instance
  by standard (auto simp: less_eq_Priority_def less_Priority_def)

end

record SuggestionContextScope =
  app_name :: "string option"
  window_title :: "string option"
  target_id :: "string option"

text \<open>The scores are not used by the containers and are left out.\<close>

record Suggestion =
  suggestion_id :: string
  suggestion_type :: SuggestionType
  content :: string
  priority :: Priority
  is_actionable :: bool
  created_at :: instant
  sug_expires_at :: "instant option"
  sug_source :: SuggestionSource
  reasoning :: "string option"
  context_scope :: "SuggestionContextScope option"

datatype FeedbackType = Accepted | Rejected | Deferred

lemma source_sql_round_trip: "source_of_sql (source_sql s) = Some s"
  by (cases s) (simp_all add: source_of_sql_def)

lemma type_sql_round_trip: "type_of_sql (type_sql t) = Some t"
  by (cases t) (simp_all add: type_of_sql_def)

subsection \<open>Order and fingerprint\<close>

text \<open>\<open>PrioritizedSuggestion::cmp\<close>: higher priority first, then newer, then by id.\<close>

definition ps_less :: "Suggestion \<Rightarrow> Suggestion \<Rightarrow> bool" where
  "ps_less a b \<longleftrightarrow>
     priority b < priority a \<or>
     priority b = priority a \<and>
       (created_at b < created_at a \<or>
        created_at b = created_at a \<and> suggestion_id a < suggestion_id b)"

definition ps_eq :: "Suggestion \<Rightarrow> Suggestion \<Rightarrow> bool" where
  "ps_eq a b \<longleftrightarrow>
     priority a = priority b \<and> created_at a = created_at b \<and> suggestion_id a = suggestion_id b"

text \<open>The key whose order \<open>cmp\<close> is.\<close>

definition queue_key :: "Suggestion \<Rightarrow> int \<times> int \<times> string" where
  "queue_key s = (- int (priority_rank (priority s)), - int (created_at s), suggestion_id s)"

lemma ps_less_key [queue_simps]: "ps_less a b \<longleftrightarrow> queue_key a < queue_key b"
  by (auto simp: ps_less_def queue_key_def less_Priority_def less_prod_def')

lemma ps_eq_key [queue_simps]: "ps_eq a b \<longleftrightarrow> queue_key a = queue_key b"
  by (auto simp: ps_eq_def queue_key_def)

definition lower_char :: "char \<Rightarrow> char" where
  "lower_char c = (if 65 \<le> (of_char c :: nat) \<and> (of_char c :: nat) \<le> 90 then char_of ((of_char c :: nat) + 32) else c)"

definition white :: "char \<Rightarrow> bool" where
  "white c \<longleftrightarrow> c \<in> {CHR '' '', CHR 0x09, CHR 0x0A, CHR 0x0B, CHR 0x0C, CHR 0x0D}"

function split_whitespace :: "string \<Rightarrow> string list" where
  "split_whitespace s =
     (let t = dropWhile white s
      in if t = [] then [] else takeWhile (Not \<circ> white) t # split_whitespace (dropWhile (Not \<circ> white) t))"
  by pat_completeness auto

termination
proof (relation "measure length")
  fix s t :: string
  assume "t = dropWhile white s" and "t \<noteq> []"
  then obtain c u where t: "t = c # u" and c: "\<not> white c"
    by (metis hd_dropWhile list.collapse list.sel(1))
  have "length (dropWhile (Not \<circ> white) t) \<le> length u"
    using t c by (simp add: length_dropWhile_le)
  also have "\<dots> < length s"
    using t \<open>t = dropWhile white s\<close> length_dropWhile_le [of white s] by simp
  finally show "(dropWhile (Not \<circ> white) t, s) \<in> measure length" by simp
qed simp

fun join_spaces :: "string list \<Rightarrow> string" where
  "join_spaces [] = []"
| "join_spaces [w] = w"
| "join_spaces (w # ws) = w @ '' '' @ join_spaces ws"

definition normalize_content :: "string \<Rightarrow> string" where
  "normalize_content c = join_spaces (split_whitespace (map lower_char c))"

type_synonym hashed_fields =
  "SuggestionType \<times> SuggestionSource \<times> SuggestionContextScope option \<times> string"

definition content_fingerprint :: "(hashed_fields \<Rightarrow> u64) \<Rightarrow> Suggestion \<Rightarrow> u64" where
  "content_fingerprint hash64 s =
     hash64 (suggestion_type s, sug_source s, context_scope s, normalize_content (content s))"

subsection \<open>The queue\<close>

record SuggestionQueue =
  items :: "Suggestion list"
  fingerprints :: "u64 set"
  max_size :: nat

definition queue_new :: "nat \<Rightarrow> SuggestionQueue" where
  "queue_new n = \<lparr>items = [], fingerprints = {}, max_size = n\<rparr>"

text \<open>\<open>BTreeSet::insert\<close> and \<open>remove\<close>: an equal element stays and makes the insert fail.\<close>

definition bt_insert :: "Suggestion \<Rightarrow> Suggestion list \<Rightarrow> bool \<times> Suggestion list" where
  "bt_insert s xs = (if \<exists>x \<in> set xs. ps_eq x s then (False, xs) else (True, insort_key queue_key s xs))"

definition bt_remove :: "Suggestion \<Rightarrow> Suggestion list \<Rightarrow> Suggestion list" where
  "bt_remove s xs = filter (\<lambda>x. \<not> ps_eq x s) xs"

definition push ::
  "(hashed_fields \<Rightarrow> u64) \<Rightarrow> Suggestion \<Rightarrow> SuggestionQueue \<Rightarrow> bool \<times> SuggestionQueue" where
  "push hash64 s q =
     (let fp = content_fingerprint hash64 s in
      if max_size q = 0 then (False, q)
      else if fp \<in> fingerprints q then
        (case List.find (\<lambda>x. content_fingerprint hash64 x = fp) (items q) of
           None \<Rightarrow> (False, q)
         | Some existing \<Rightarrow>
             if ps_less s existing then
               (let (inserted, xs) = bt_insert s (items q)
                in (inserted, if inserted then q\<lparr>items := bt_remove existing xs\<rparr> else q))
             else (False, q))
      else if max_size q \<le> length (items q) then
        (if items q = [] then (False, q)
         else let worst = last (items q) in
           if ps_less s worst then
             (let (inserted, xs) = bt_insert s (items q)
              in (inserted,
                  if inserted
                  then q\<lparr>items := bt_remove worst xs,
                         fingerprints := insert fp
                           (fingerprints q - {content_fingerprint hash64 worst})\<rparr>
                  else q))
           else (False, q))
      else
        (let (inserted, xs) = bt_insert s (items q)
         in (inserted, if inserted
                       then q\<lparr>items := xs, fingerprints := insert fp (fingerprints q)\<rparr> else q)))"

definition pop ::
  "(hashed_fields \<Rightarrow> u64) \<Rightarrow> SuggestionQueue \<Rightarrow> Suggestion option \<times> SuggestionQueue" where
  "pop hash64 q =
     (case items q of
        [] \<Rightarrow> (None, q)
      | x # _ \<Rightarrow> (Some x, q\<lparr>items := bt_remove x (items q),
                           fingerprints := fingerprints q - {content_fingerprint hash64 x}\<rparr>))"

definition peek :: "SuggestionQueue \<Rightarrow> Suggestion option" where
  "peek q = (case items q of [] \<Rightarrow> None | x # _ \<Rightarrow> Some x)"

definition remove_by_id ::
  "(hashed_fields \<Rightarrow> u64) \<Rightarrow> string \<Rightarrow> SuggestionQueue \<Rightarrow> Suggestion option \<times> SuggestionQueue" where
  "remove_by_id hash64 sid q =
     (case List.find (\<lambda>x. suggestion_id x = sid) (items q) of
        None \<Rightarrow> (None, q)
      | Some x \<Rightarrow> (Some x, q\<lparr>items := bt_remove x (items q),
                            fingerprints := fingerprints q - {content_fingerprint hash64 x}\<rparr>))"

definition queue_clear :: "SuggestionQueue \<Rightarrow> SuggestionQueue" where
  "queue_clear q = q\<lparr>items := [], fingerprints := {}\<rparr>"

definition is_expired :: "instant \<Rightarrow> Suggestion \<Rightarrow> bool" where
  "is_expired now s = (case sug_expires_at s of None \<Rightarrow> False | Some e \<Rightarrow> e \<le> now)"

definition remove_expired ::
  "(hashed_fields \<Rightarrow> u64) \<Rightarrow> instant \<Rightarrow> SuggestionQueue \<Rightarrow> nat \<times> SuggestionQueue" where
  "remove_expired hash64 now q =
     (let fps = content_fingerprint hash64 ` set (filter (is_expired now) (items q));
          kept = filter (Not \<circ> is_expired now) (items q)
      in (length (items q) - length kept, q\<lparr>items := kept, fingerprints := fingerprints q - fps\<rparr>))"

subsection \<open>Invariant\<close>

text \<open>
  The items are strictly sorted by \<open>cmp\<close>, no two share a fingerprint, the fingerprint set is the
  set of the items' fingerprints, and the capacity is respected.
\<close>

definition queue_inv :: "(hashed_fields \<Rightarrow> u64) \<Rightarrow> SuggestionQueue \<Rightarrow> bool" where
  "queue_inv hash64 q \<longleftrightarrow>
     sorted_wrt ps_less (items q) \<and>
     distinct (map (content_fingerprint hash64) (items q)) \<and>
     fingerprints q = content_fingerprint hash64 ` set (items q) \<and>
     length (items q) \<le> max_size q"

lemma ps_less_trans: "ps_less a b \<Longrightarrow> ps_less b c \<Longrightarrow> ps_less a c"
  by (simp add: queue_simps)

lemma sorted_items_distinct_key:
  assumes "sorted_wrt ps_less xs" and "x \<in> set xs" and "y \<in> set xs" and "ps_eq x y"
  shows "x = y"
  using assms by (induction xs) (auto simp: queue_simps)

lemma bt_insert_fresh:
  assumes "\<not> (\<exists>x \<in> set xs. ps_eq x s)"
  shows "bt_insert s xs = (True, insort_key queue_key s xs)"
  using assms by (simp add: bt_insert_def)

lemma insort_strict:
  assumes "sorted_wrt ps_less xs" and "\<not> (\<exists>x \<in> set xs. ps_eq x s)"
  shows "sorted_wrt ps_less (insort_key queue_key s xs)"
  using assms by (induction xs) (auto simp: queue_simps set_insort_key)

text \<open>In a strictly sorted list, \<open>remove\<close> takes out one element.\<close>

lemma bt_remove_set:
  assumes "sorted_wrt ps_less xs" and "x \<in> set xs"
  shows "set (bt_remove x xs) = set xs - {x}"
  using assms sorted_items_distinct_key [OF assms(1)]
  by (auto simp: bt_remove_def ps_eq_def)

lemma bt_remove_sorted: "sorted_wrt ps_less xs \<Longrightarrow> sorted_wrt ps_less (bt_remove x xs)"
  by (simp add: bt_remove_def sorted_wrt_filter)

lemma bt_remove_distinct:
  "distinct (map f xs) \<Longrightarrow> distinct (map f (bt_remove x xs))"
  by (simp add: bt_remove_def)

lemma sorted_items_distinct: "sorted_wrt ps_less xs \<Longrightarrow> distinct xs"
  by (induction xs) (auto simp: queue_simps)

lemma bt_remove_length:
  assumes "sorted_wrt ps_less xs" and "x \<in> set xs"
  shows "Suc (length (bt_remove x xs)) = length xs"
proof -
  have "distinct xs" "distinct (bt_remove x xs)"
    using assms(1) by (simp_all add: sorted_items_distinct bt_remove_sorted)
  then have "length xs = card (set xs)" "length (bt_remove x xs) = card (set xs - {x})"
    using bt_remove_set [OF assms] by (simp_all add: distinct_card [symmetric])
  then show ?thesis
    using card_Suc_Diff1 [OF finite_set assms(2)] by simp
qed

lemma bt_remove_head:
  assumes "sorted_wrt ps_less (x # xs)"
  shows "bt_remove x (x # xs) = xs"
  using assms by (auto simp: bt_remove_def queue_simps filter_id_conv)

lemma sorted_le_last:
  assumes "sorted_wrt ps_less xs" and "x \<in> set xs"
  shows "queue_key x \<le> queue_key (last xs)"
  using assms by (induction xs) (auto simp: queue_simps intro: less_imp_le)

text \<open>Distinctness of the fingerprints, in the form the removals need.\<close>

lemma fingerprints_remove:
  assumes "sorted_wrt ps_less xs" and "distinct (map f xs)" and "x \<in> set xs"
  shows "f ` set (bt_remove x xs) = f ` set xs - {f x}"
  using assms distinct_key_eq [of f xs] by (auto simp: bt_remove_set)

lemma remove_keeps_inv:
  assumes "queue_inv hash64 q" and "x \<in> set (items q)"
  shows "queue_inv hash64 (q\<lparr>items := bt_remove x (items q),
    fingerprints := fingerprints q - {content_fingerprint hash64 x}\<rparr>)"
  using assms bt_remove_length [of "items q" x]
  by (auto simp: queue_inv_def bt_remove_sorted bt_remove_distinct fingerprints_remove)

text \<open>The three ways a push changes the items: replace a duplicate, evict the last, or insert.\<close>

lemma replace_keeps_inv:
  assumes inv: "queue_inv hash64 q"
    and ex: "existing \<in> set (items q)"
    and fp: "content_fingerprint hash64 existing = content_fingerprint hash64 s"
    and fresh: "\<not> (\<exists>x \<in> set (items q). ps_eq x s)"
  shows "queue_inv hash64 (q\<lparr>items := bt_remove existing (insort_key queue_key s (items q))\<rparr>)"
    and "set (bt_remove existing (insort_key queue_key s (items q))) =
      insert s (set (items q) - {existing})"
proof -
  let ?ys = "insort_key queue_key s (items q)" and ?f = "content_fingerprint hash64"
  have sorted: "sorted_wrt ps_less ?ys"
    using inv fresh by (simp add: queue_inv_def insort_strict)
  have "existing \<noteq> s"
    using ex fresh by (auto simp: ps_eq_def)
  then show sets: "set (bt_remove existing ?ys) = insert s (set (items q) - {existing})"
    using bt_remove_set [OF sorted, of existing] ex by (auto simp: set_insort_key)
  have dist: "distinct (map ?f (items q))" and fps: "fingerprints q = ?f ` set (items q)"
    using inv by (simp_all add: queue_inv_def)
  have inj: "inj_on ?f (insert s (set (items q) - {existing}))"
    using dist ex fp by (auto simp: distinct_map inj_on_def)
  have "distinct (bt_remove existing ?ys)"
    using sorted by (simp add: bt_remove_sorted sorted_items_distinct)
  then have "distinct (map ?f (bt_remove existing ?ys))"
    using inj sets by (simp add: distinct_map)
  moreover have "fingerprints q = ?f ` set (bt_remove existing ?ys)"
    using ex unfolding sets fps fp [symmetric] image_insert
    by (metis (no_types) image_insert insert_Diff)
  moreover have "length (bt_remove existing ?ys) \<le> max_size q"
    using bt_remove_length [OF sorted, of existing] ex inv
    by (simp add: set_insort_key queue_inv_def)
  ultimately show "queue_inv hash64 (q\<lparr>items := bt_remove existing ?ys\<rparr>)"
    using sorted by (simp add: queue_inv_def bt_remove_sorted)
qed

lemma insert_keeps_inv:
  assumes "queue_inv hash64 q"
    and "content_fingerprint hash64 s \<notin> fingerprints q"
    and "\<not> (\<exists>x \<in> set (items q). ps_eq x s)"
    and "length (items q) < max_size q"
  shows "queue_inv hash64 (q\<lparr>items := insort_key queue_key s (items q),
    fingerprints := insert (content_fingerprint hash64 s) (fingerprints q)\<rparr>)"
  using assms insort_strict [of "items q" s]
  by (auto simp: queue_inv_def set_insort_key distinct_map distinct_insort sorted_items_distinct)

lemma evict_keeps_inv:
  assumes inv: "queue_inv hash64 q"
    and new: "content_fingerprint hash64 s \<notin> fingerprints q"
    and fresh: "\<not> (\<exists>x \<in> set (items q). ps_eq x s)"
    and old: "worst \<in> set (items q)"
  shows "queue_inv hash64 (q\<lparr>items := bt_remove worst (insort_key queue_key s (items q)),
      fingerprints := insert (content_fingerprint hash64 s)
        (fingerprints q - {content_fingerprint hash64 worst})\<rparr>)"
    and "set (bt_remove worst (insort_key queue_key s (items q))) =
      insert s (set (items q) - {worst})"
proof -
  let ?ys = "insort_key queue_key s (items q)" and ?f = "content_fingerprint hash64"
  let ?r = "q\<lparr>items := ?ys, fingerprints := insert (?f s) (fingerprints q), max_size := Suc (max_size q)\<rparr>"
  have r: "queue_inv hash64 ?r"
    using insert_keeps_inv [of hash64 "q\<lparr>max_size := Suc (max_size q)\<rparr>" s] inv new fresh
    by (simp add: queue_inv_def)
  have ws: "worst \<noteq> s" and "?f worst \<noteq> ?f s"
    using old fresh new inv by (auto simp: ps_eq_def queue_inv_def image_iff)
  have sorted: "sorted_wrt ps_less ?ys"
    using inv fresh by (simp add: queue_inv_def insort_strict)
  then show "set (bt_remove worst ?ys) = insert s (set (items q) - {worst})"
    using bt_remove_set [OF sorted, of worst] old ws by (auto simp: set_insort_key)
  have "length (bt_remove worst ?ys) \<le> max_size q"
    using bt_remove_length [OF sorted, of worst] old inv by (simp add: set_insort_key queue_inv_def)
  with remove_keeps_inv [OF r, of worst] old \<open>?f worst \<noteq> ?f s\<close>
  show "queue_inv hash64 (q\<lparr>items := bt_remove worst ?ys,
      fingerprints := insert (?f s) (fingerprints q - {?f worst})\<rparr>)"
    by (simp add: queue_inv_def set_insort_key insert_Diff_if)
qed

subsection \<open>Operations as steps\<close>

text \<open>A case rule for \<open>push\<close>: what it did, and why.\<close>

lemma push_cases:
  assumes push: "push hash64 s q = (inserted, q')" and inv: "queue_inv hash64 q"
  obtains
    (rejected) "\<not> inserted" "q' = q"
      "max_size q = 0 \<or>
       (\<exists>x \<in> set (items q). ps_eq x s) \<or>
       (\<exists>x \<in> set (items q). content_fingerprint hash64 x = content_fingerprint hash64 s
          \<and> queue_key x \<le> queue_key s) \<or>
       (length (items q) = max_size q \<and> (\<forall>x \<in> set (items q). queue_key x \<le> queue_key s))"
  | (replaced) existing where "inserted" "existing \<in> set (items q)"
      "content_fingerprint hash64 existing = content_fingerprint hash64 s"
      "queue_key s < queue_key existing"
      "q' = q\<lparr>items := bt_remove existing (insort_key queue_key s (items q))\<rparr>"
      "\<not> (\<exists>x \<in> set (items q). ps_eq x s)"
  | (evicted) "inserted" "items q \<noteq> []" "queue_key s < queue_key (last (items q))"
      "length (items q) = max_size q"
      "content_fingerprint hash64 s \<notin> fingerprints q"
      "q' = q\<lparr>items := bt_remove (last (items q)) (insort_key queue_key s (items q)),
              fingerprints := insert (content_fingerprint hash64 s)
                (fingerprints q - {content_fingerprint hash64 (last (items q))})\<rparr>"
      "\<not> (\<exists>x \<in> set (items q). ps_eq x s)"
  | (added) "inserted" "length (items q) < max_size q"
      "content_fingerprint hash64 s \<notin> fingerprints q"
      "q' = q\<lparr>items := insort_key queue_key s (items q),
              fingerprints := insert (content_fingerprint hash64 s) (fingerprints q)\<rparr>"
      "\<not> (\<exists>x \<in> set (items q). ps_eq x s)"
proof -
  let ?f = "content_fingerprint hash64"
  have len: "length (items q) \<le> max_size q" and fps: "fingerprints q = ?f ` set (items q)"
    and sorted: "sorted_wrt ps_less (items q)"
    using inv by (simp_all add: queue_inv_def)
  consider (zero) "max_size q = 0"
    | (dup) e where "max_size q \<noteq> 0" "?f s \<in> fingerprints q"
        "List.find (\<lambda>x. ?f x = ?f s) (items q) = Some e"
    | (full) "max_size q \<noteq> 0" "?f s \<notin> fingerprints q" "length (items q) = max_size q"
    | (room) "max_size q \<noteq> 0" "?f s \<notin> fingerprints q" "length (items q) < max_size q"
    using len fps by (force simp: find_None_iff image_iff)
  then show thesis
  proof cases
    case zero
    then show ?thesis using push rejected by (simp add: push_def)
  next
    case dup
    have e: "e \<in> set (items q)" "?f e = ?f s"
      using find_SomeD [OF dup(3)] by simp_all
    show ?thesis
    proof (cases "ps_less s e \<and> \<not> (\<exists>x \<in> set (items q). ps_eq x s)")
      case True
      then show ?thesis
        using push dup e replaced [of e] by (simp add: push_def bt_insert_fresh queue_simps)
    next
      case False
      then show ?thesis
        using push dup e rejected
        by (auto simp: push_def bt_insert_def queue_simps not_less split: if_splits)
    qed
  next
    case full
    then have ne: "items q \<noteq> []" by auto
    show ?thesis
    proof (cases "ps_less s (last (items q)) \<and> \<not> (\<exists>x \<in> set (items q). ps_eq x s)")
      case True
      then show ?thesis
        using push full ne evicted by (simp add: push_def Let_def bt_insert_fresh queue_simps)
    next
      case False
      then show ?thesis
        using push full ne rejected sorted_le_last [OF sorted]
        by (fastforce simp: push_def Let_def bt_insert_def queue_simps not_less split: if_splits)
    qed
  next
    case room
    then show ?thesis
      using push added rejected by (auto simp: push_def Let_def bt_insert_def split: if_splits)
  qed
qed

lemma push_keeps_inv:
  assumes "queue_inv hash64 q"
  shows "queue_inv hash64 (snd (push hash64 s q))"
proof -
  obtain r q' where push: "push hash64 s q = (r, q')" by fastforce
  from push assms have "queue_inv hash64 q'"
    by (cases rule: push_cases)
      (auto simp: assms replace_keeps_inv evict_keeps_inv insert_keeps_inv)
  with push show ?thesis by simp
qed

datatype queue_op =
  Push Suggestion | Pop | RemoveById string | QClear | RemoveExpired instant

fun queue_step :: "(hashed_fields \<Rightarrow> u64) \<Rightarrow> SuggestionQueue \<Rightarrow> queue_op \<Rightarrow> SuggestionQueue" where
  "queue_step hash64 q (Push s) = snd (push hash64 s q)"
| "queue_step hash64 q Pop = snd (pop hash64 q)"
| "queue_step hash64 q (RemoveById sid) = snd (remove_by_id hash64 sid q)"
| "queue_step hash64 q QClear = queue_clear q"
| "queue_step hash64 q (RemoveExpired now) = snd (remove_expired hash64 now q)"

lemma remove_expired_keeps_inv:
  assumes "queue_inv hash64 q"
  shows "queue_inv hash64 (snd (remove_expired hash64 now q))"
proof -
  let ?f = "content_fingerprint hash64" and ?xs = "items q"
  have inj: "inj_on ?f (set ?xs)" and fps: "fingerprints q = ?f ` set ?xs"
    using assms by (auto simp: queue_inv_def distinct_map)
  have "?f ` set ?xs - ?f ` set (filter (is_expired now) ?xs) =
      ?f ` (set ?xs - set (filter (is_expired now) ?xs))"
    using inj by (simp add: inj_on_image_set_diff)
  also have "set ?xs - set (filter (is_expired now) ?xs) = set (filter (Not \<circ> is_expired now) ?xs)"
    by auto
  finally show ?thesis
    using assms le_trans [OF length_filter_le, of ?xs "max_size q"]
    by (simp add: queue_inv_def remove_expired_def Let_def sorted_wrt_filter)
qed

lemma queue_step_inv:
  assumes "queue_inv hash64 q"
  shows "queue_inv hash64 (queue_step hash64 q op)"
proof (cases op)
  case (Push s)
  then show ?thesis using assms by (simp add: push_keeps_inv)
next
  case Pop
  then show ?thesis
    using assms remove_keeps_inv [OF assms] by (auto simp: pop_def split: list.splits)
next
  case (RemoveById sid)
  then show ?thesis
    using assms remove_keeps_inv [OF assms]
    by (auto simp: remove_by_id_def dest: find_SomeD split: option.splits)
next
  case QClear
  then show ?thesis by (simp add: queue_clear_def queue_inv_def)
next
  case (RemoveExpired now)
  then show ?thesis using assms by (simp add: remove_expired_keeps_inv)
qed

lemma queue_step_capacity: "max_size (queue_step hash64 q op) = max_size q"
  by (cases op)
    (auto simp: push_def pop_def remove_by_id_def queue_clear_def remove_expired_def Let_def
      split: list.splits option.splits prod.splits)

lemma queue_new_inv: "queue_inv hash64 (queue_new n)"
  by (simp add: queue_inv_def queue_new_def)

interpretation suggestion_queue:
  bounded_store "queue_step hash64" "queue_inv hash64" "\<lambda>q. length (items q)" max_size for hash64
  by unfold_locales (simp_all add: queue_step_inv queue_step_capacity, simp add: queue_inv_def)

subsection \<open>Properties\<close>

text \<open> C33. After any sequence of pushes, pops, removals by id, clears and expirations on a queue of
  capacity \<open>n\<close>, whatever the hash function, the items are strictly ordered (higher priority, then
  newer, then by id), no two items share a content fingerprint, the fingerprint set is exactly the
  set of the items' fingerprints, so no content is rejected as a duplicate of an item that is not
  there, and there are at most \<open>n\<close> items.\<close>

theorem queue_fingerprints_in_lockstep:
  "let q = foldl (queue_step hash64) (queue_new n) ops in
     sorted_wrt ps_less (items q) \<and>
     distinct (map (content_fingerprint hash64) (items q)) \<and>
     fingerprints q = content_fingerprint hash64 ` set (items q) \<and>
     length (items q) \<le> n"
  using suggestion_queue.run_inv [OF queue_new_inv, of hash64 n ops]
    suggestion_queue.run_bounded [OF queue_new_inv, of hash64 n ops]
  by (simp add: Let_def queue_inv_def queue_new_def)

text \<open> A push into a well-formed queue keeps it well formed, adds nothing but the pushed
  suggestion, and reports whether it was taken in; when it reports failure the queue is unchanged.
  Every suggestion that is not in the queue afterwards (the rejected one, the replaced duplicate
  or the evicted one) is accounted for: the capacity is zero, or an item that is at least as good
  has the same content fingerprint or the same place in the order, or the queue is full of items
  that are at least as good.\<close>

theorem push_drops_only_the_worse:
  assumes inv: "queue_inv hash64 q" and push: "push hash64 s q = (inserted, q')"
  shows "queue_inv hash64 q' \<and> set (items q') \<subseteq> insert s (set (items q)) \<and>
    (if inserted then s \<in> set (items q') \<and> s \<notin> set (items q) else q' = q) \<and>
    (\<forall>x. x \<in> insert s (set (items q)) \<and> x \<notin> set (items q') \<longrightarrow>
       max_size q = 0 \<or>
       (\<exists>y \<in> set (items q'). queue_key y \<le> queue_key x \<and>
          (content_fingerprint hash64 y = content_fingerprint hash64 x \<or> ps_eq y x)) \<or>
       (length (items q') = max_size q \<and> (\<forall>y \<in> set (items q'). queue_key y \<le> queue_key x)))"
proof -
  have inv': "queue_inv hash64 q'"
    using push_keeps_inv [OF inv, of s] push by simp
  have sorted: "sorted_wrt ps_less (items q)"
    using inv by (simp add: queue_inv_def)
  from push inv show ?thesis
  proof (cases rule: push_cases)
    case rejected
    then show ?thesis using inv' by (fastforce simp: queue_simps)
  next
    case (replaced e)
    then show ?thesis
      using inv' replace_keeps_inv(2) [OF inv replaced(2,3,6)]
      by (auto simp: queue_simps intro: less_imp_le)
  next
    case evicted
    have worst: "last (items q) \<in> set (items q)" using evicted(2) by simp
    have "length (items q') = max_size q"
      using bt_remove_length [OF insort_strict [OF sorted evicted(7)], of "last (items q)"]
        worst evicted(4,6) by (simp add: set_insort_key)
    then show ?thesis
      using inv' evicted(1,3,6,7) sorted_le_last [OF sorted]
        evict_keeps_inv(2) [OF inv evicted(5,7) worst]
      by (auto simp: queue_simps intro: less_imp_le)
  next
    case added
    then show ?thesis using inv' by (auto simp: set_insort_key queue_simps)
  qed
qed

definition sample_suggestion :: "string \<Rightarrow> Priority \<Rightarrow> string \<Rightarrow> Suggestion" where
  "sample_suggestion i p c =
     \<lparr>suggestion_id = i, suggestion_type = FocusMode, content = c, priority = p,
      is_actionable = True, created_at = 5, sug_expires_at = None, sug_source = RuleBased,
      reasoning = None, context_scope = None\<rparr>"

theorem push_drops_only_the_worse_witness:
  "let hash64 = (\<lambda>(_, _, _, c). of_nat (length c));
       old = sample_suggestion ''s1'' Low ''tea'';
       new = sample_suggestion ''s2'' High ''Deep  work'';
       q = \<lparr>items = [old], fingerprints = {3}, max_size = 1\<rparr>;
       r = push hash64 new q
   in fst r \<and> queue_inv hash64 (snd r) \<and> new \<in> set (items (snd r)) \<and>
      old \<notin> set (items (snd r)) \<and> length (items (snd r)) = 1 \<and> queue_key new \<le> queue_key old"
proof -
  let ?h = "\<lambda>(_, _, _, c). of_nat (length c)"
  let ?old = "sample_suggestion ''s1'' Low ''tea''"
  let ?new = "sample_suggestion ''s2'' High ''Deep  work''"
  let ?q = "\<lparr>items = [?old], fingerprints = {3}, max_size = 1\<rparr>"
  have fps: "content_fingerprint ?h ?old = 3" "content_fingerprint ?h ?new = 9"
    by code_simp+
  have inv: "queue_inv ?h ?q"
    by (simp add: queue_inv_def fps)
  have push: "push ?h ?new ?q = (True, \<lparr>items = [?new], fingerprints = {9}, max_size = 1\<rparr>)"
    by (simp add: push_def fps [unfolded sample_suggestion_def] Let_def bt_insert_def bt_remove_def
        ps_eq_def ps_less_def queue_key_def sample_suggestion_def less_Priority_def)
  have "queue_inv ?h (snd (push ?h ?new ?q))" "?new \<in> set (items (snd (push ?h ?new ?q)))"
    using push_drops_only_the_worse [OF inv push] unfolding push by auto
  moreover have "?old \<noteq> ?new" "queue_key ?new \<le> queue_key ?old"
    by (simp_all add: queue_key_def sample_suggestion_def)
  ultimately show ?thesis
    unfolding Let_def push by simp
qed

end
