(* ===== verification/Suggestion_Stores.thy ===== *)
theory Suggestion_Stores
  imports Suggestion_Queue "HOL-Library.Multiset"
begin

text \<open>
  The other containers of \<open>crates/maekon-suggestion\<close>: the snoozed suggestions of \<open>deferred.rs\<close>, the
  feedback waiting to be sent again of \<open>feedback_retry.rs\<close>, and the history of \<open>history.rs\<close>. A
  \<open>VecDeque\<close> is a list with its front first; the clock reading of an operation is an argument.
  Durations are in the unit of \<^typ>\<open>instant\<close>, nanoseconds.
\<close>

subsection \<open>Deferred suggestions\<close>

record DeferredEntry =
  d_suggestion :: Suggestion
  deferred_at :: instant
  resurface_at :: instant

record DeferredManager =
  d_items :: "DeferredEntry list"
  d_max_size :: nat

definition deferred_new :: "nat \<Rightarrow> DeferredManager" where
  "deferred_new n = \<lparr>d_items = [], d_max_size = n\<rparr>"

text \<open>\<open>Iterator::max_by_key\<close> over \<open>enumerate()\<close>: of several maxima, the last.\<close>

fun farthest :: "DeferredEntry list \<Rightarrow> (nat \<times> instant) option" where
  "farthest [] = None"
| "farthest (e # es) =
     (case farthest es of
        None \<Rightarrow> Some (0, resurface_at e)
      | Some (i, m) \<Rightarrow>
          if m < resurface_at e then Some (0, resurface_at e) else Some (Suc i, m))"

definition remove_at :: "nat \<Rightarrow> 'a list \<Rightarrow> 'a list" where
  "remove_at i xs = take i xs @ drop (Suc i) xs"

definition defer_sug ::
  "instant \<Rightarrow> Suggestion \<Rightarrow> nat \<Rightarrow> DeferredManager \<Rightarrow> bool \<times> DeferredManager" where
  "defer_sug now s duration m =
     (let at = now + duration;
          entry = \<lparr>d_suggestion = s, deferred_at = now, resurface_at = at\<rparr>
      in if d_max_size m \<le> length (d_items m) then
           (case farthest (d_items m) of
              None \<Rightarrow> (False, m)
            | Some (i, far_at) \<Rightarrow>
                if at < far_at then (True, m\<lparr>d_items := remove_at i (d_items m) @ [entry]\<rparr>)
                else (False, m))
         else (True, m\<lparr>d_items := d_items m @ [entry]\<rparr>))"

definition collect_resurfaced ::
  "instant \<Rightarrow> DeferredManager \<Rightarrow> Suggestion list \<times> DeferredManager" where
  "collect_resurfaced now m =
     (map d_suggestion (filter (\<lambda>e. resurface_at e \<le> now) (d_items m)),
      m\<lparr>d_items := filter (\<lambda>e. \<not> resurface_at e \<le> now) (d_items m)\<rparr>)"

fun position :: "('a \<Rightarrow> bool) \<Rightarrow> 'a list \<Rightarrow> nat option" where
  "position P [] = None"
| "position P (x # xs) = (if P x then Some 0 else map_option Suc (position P xs))"

definition cancel :: "string \<Rightarrow> DeferredManager \<Rightarrow> Suggestion option \<times> DeferredManager" where
  "cancel sid m =
     (case position (\<lambda>e. suggestion_id (d_suggestion e) = sid) (d_items m) of
        None \<Rightarrow> (None, m)
      | Some i \<Rightarrow> (Some (d_suggestion (d_items m ! i)), m\<lparr>d_items := remove_at i (d_items m)\<rparr>))"

fun restore ::
  "instant \<Rightarrow> (Suggestion \<times> instant \<times> instant) list \<Rightarrow> DeferredManager
     \<Rightarrow> Suggestion list \<times> DeferredManager" where
  "restore now [] m = ([], m)"
| "restore now ((s, d, r) # es) m =
     (if r \<le> now then (let (due, m') = restore now es m in (s # due, m'))
      else if length (d_items m) < d_max_size m then
        restore now es
          (m\<lparr>d_items := d_items m @ [\<lparr>d_suggestion = s, deferred_at = d, resurface_at = r\<rparr>]\<rparr>)
      else restore now es m)"

subsection \<open>Feedback retries\<close>

record PendingFeedback =
  pf_id :: string
  pf_type :: FeedbackType
  pf_comment :: "string option"
  attempts :: u32
  next_retry_at :: instant

record FeedbackRetryQueue =
  r_items :: "PendingFeedback list"
  r_max_size :: nat
  max_attempts :: u32

definition retry_new :: "nat \<Rightarrow> u32 \<Rightarrow> FeedbackRetryQueue" where
  "retry_new n k = \<lparr>r_items = [], r_max_size = n, max_attempts = k\<rparr>"

definition second :: nat where
  "second = 10 ^ 9"

definition retry_delay :: "u32 \<Rightarrow> nat" where
  "retry_delay attempt =
     (if attempt = 0 then 5 else if attempt = 1 then 15 else if attempt = 2 then 45
      else if attempt = 3 then 120 else 300) * second"

definition remove_existing :: "string \<Rightarrow> FeedbackRetryQueue \<Rightarrow> FeedbackRetryQueue" where
  "remove_existing sid q = q\<lparr>r_items := filter (\<lambda>f. pf_id f \<noteq> sid) (r_items q)\<rparr>"

text \<open>\<open>pop_front\<close> when the queue is full, then \<open>push_back\<close>.\<close>

definition push_bounded ::
  "PendingFeedback \<Rightarrow> FeedbackRetryQueue \<Rightarrow> PendingFeedback option \<times> FeedbackRetryQueue" where
  "push_bounded f q =
     (if r_max_size q \<le> length (r_items q) then
        (case r_items q of
           [] \<Rightarrow> (None, q\<lparr>r_items := [f]\<rparr>)
         | x # xs \<Rightarrow> (Some x, q\<lparr>r_items := xs @ [f]\<rparr>))
      else (None, q\<lparr>r_items := r_items q @ [f]\<rparr>))"

definition enqueue ::
  "instant \<Rightarrow> PendingFeedback \<Rightarrow> FeedbackRetryQueue \<Rightarrow> PendingFeedback option \<times> FeedbackRetryQueue" where
  "enqueue now f q =
     (let f' = f\<lparr>next_retry_at := now + retry_delay (attempts f)\<rparr>
      in push_bounded f' (remove_existing (pf_id f) q))"

definition collect_ready ::
  "instant \<Rightarrow> FeedbackRetryQueue \<Rightarrow> PendingFeedback list \<times> FeedbackRetryQueue" where
  "collect_ready now q =
     (filter (\<lambda>f. next_retry_at f \<le> now) (r_items q),
      q\<lparr>r_items := filter (\<lambda>f. \<not> next_retry_at f \<le> now) (r_items q)\<rparr>)"

record RetryReschedule =
  updated :: PendingFeedback
  evicted :: "PendingFeedback option"

text \<open>\<open>attempts += 1\<close> panics on overflow in a debug build and wraps in a release build; the word
  addition is the release behaviour.\<close>

definition retry_failed ::
  "instant \<Rightarrow> PendingFeedback \<Rightarrow> FeedbackRetryQueue \<Rightarrow> RetryReschedule \<times> FeedbackRetryQueue" where
  "retry_failed now f q =
     (let n = attempts f + 1;
          f' = f\<lparr>attempts := n, next_retry_at := now + retry_delay n\<rparr>;
          (ev, q') = push_bounded f' (remove_existing (pf_id f) q)
      in (\<lparr>updated = f', evicted = ev\<rparr>, q'))"

definition drop_exhausted :: "string \<Rightarrow> FeedbackRetryQueue \<Rightarrow> FeedbackRetryQueue" where
  "drop_exhausted sid q = q\<lparr>r_items := filter (\<lambda>f. pf_id f \<noteq> sid) (r_items q)\<rparr>"

definition is_exhausted :: "FeedbackRetryQueue \<Rightarrow> PendingFeedback \<Rightarrow> bool" where
  "is_exhausted q f \<longleftrightarrow> max_attempts q \<le> attempts f"

subsection \<open>History\<close>

record HistoryEntry =
  h_suggestion :: Suggestion
  h_feedback :: "FeedbackType option"

record SuggestionHistory =
  entries :: "HistoryEntry list"
  h_max_size :: nat

definition history_new :: "nat \<Rightarrow> SuggestionHistory" where
  "history_new n = \<lparr>entries = [], h_max_size = n\<rparr>"

definition h_id :: "HistoryEntry \<Rightarrow> string" where
  "h_id e = suggestion_id (h_suggestion e)"

definition add_entry :: "Suggestion \<Rightarrow> SuggestionHistory \<Rightarrow> SuggestionHistory" where
  "add_entry s h =
     (let kept = filter (\<lambda>e. h_id e \<noteq> suggestion_id s) (entries h);
          kept' = (if h_max_size h \<le> length kept then tl kept else kept)
      in h\<lparr>entries := kept' @ [\<lparr>h_suggestion = s, h_feedback = None\<rparr>]\<rparr>)"

fun set_first_feedback :: "string \<Rightarrow> FeedbackType \<Rightarrow> HistoryEntry list \<Rightarrow> bool \<times> HistoryEntry list" where
  "set_first_feedback sid fb [] = (False, [])"
| "set_first_feedback sid fb (e # es) =
     (if h_id e = sid then (True, e\<lparr>h_feedback := Some fb\<rparr> # es)
      else (let (r, es') = set_first_feedback sid fb es in (r, e # es')))"

definition record_feedback ::
  "string \<Rightarrow> FeedbackType \<Rightarrow> SuggestionHistory \<Rightarrow> bool \<times> SuggestionHistory" where
  "record_feedback sid fb h =
     (let (r, es) = set_first_feedback sid fb (rev (entries h))
      in (r, if r then h\<lparr>entries := rev es\<rparr> else h))"

definition recent :: "nat \<Rightarrow> SuggestionHistory \<Rightarrow> HistoryEntry list" where
  "recent limit h = take limit (rev (entries h))"

definition history_clear :: "SuggestionHistory \<Rightarrow> SuggestionHistory" where
  "history_clear h = h\<lparr>entries := []\<rparr>"

text \<open>
  The counters of \<open>stats\<close>; the maps by type and by source are association lists in the order of
  first occurrence, before the sort by descending count.
\<close>

record HistoryStats =
  total :: u32
  accepted :: u32
  rejected :: u32
  deferred :: u32
  pending :: u32
  by_type :: "(SuggestionType \<times> u32) list"
  source_totals :: "(SuggestionSource \<times> u32) list"
  source_accepted :: "(SuggestionSource \<times> u32) list"

fun bump :: "'k \<Rightarrow> ('k \<times> u32) list \<Rightarrow> ('k \<times> u32) list" where
  "bump k [] = [(k, 1)]"
| "bump k ((k', n) # xs) = (if k' = k then (k', n + 1) # xs else (k', n) # bump k xs)"

definition count_entry :: "HistoryStats \<Rightarrow> HistoryEntry \<Rightarrow> HistoryStats" where
  "count_entry st e =
     (let st1 = (case h_feedback e of
                   Some Accepted \<Rightarrow> st\<lparr>accepted := accepted st + 1\<rparr>
                 | Some Rejected \<Rightarrow> st\<lparr>rejected := rejected st + 1\<rparr>
                 | Some Deferred \<Rightarrow> st\<lparr>deferred := deferred st + 1\<rparr>
                 | None \<Rightarrow> st\<lparr>pending := pending st + 1\<rparr>);
          st2 = st1\<lparr>by_type := bump (suggestion_type (h_suggestion e)) (by_type st1),
                    source_totals := bump (sug_source (h_suggestion e)) (source_totals st1)\<rparr>
      in if h_feedback e = Some Accepted
         then st2\<lparr>source_accepted := bump (sug_source (h_suggestion e)) (source_accepted st2)\<rparr>
         else st2)"

definition stats :: "SuggestionHistory \<Rightarrow> HistoryStats" where
  "stats h =
     (let st = foldl count_entry
                 \<lparr>total = 0, accepted = 0, rejected = 0, deferred = 0, pending = 0, by_type = [],
                  source_totals = [], source_accepted = []\<rparr> (entries h)
      in st\<lparr>total := of_nat (length (entries h)),
            by_type := sort_key (\<lambda>e. - uint (snd e)) (by_type st),
            source_totals := sort_key (\<lambda>e. - uint (snd e)) (source_totals st)\<rparr>)"

subsection \<open>Deferred suggestions: the soonest are kept\<close>

lemma remove_at_mset:
  assumes "i < length xs"
  shows "mset xs = add_mset (xs ! i) (mset (remove_at i xs))"
  using arg_cong [OF id_take_nth_drop [OF assms], of mset] by (simp add: remove_at_def)

lemma set_remove_at: "set (remove_at i xs) \<subseteq> set xs"
  by (auto simp: remove_at_def dest: in_set_takeD in_set_dropD)

lemma length_remove_at [simp]: "i < length xs \<Longrightarrow> length (remove_at i xs) = length xs - 1"
  by (simp add: remove_at_def)

lemma remove_at_map: "map f (remove_at i xs) = remove_at i (map f xs)"
  by (simp add: remove_at_def take_map drop_map)

lemma farthest_None [simp]: "farthest es = None \<longleftrightarrow> es = []"
  by (cases es) (auto split: option.splits)

lemma farthest_max:
  "farthest es = Some (i, m) \<Longrightarrow>
     i < length es \<and> resurface_at (es ! i) = m \<and> (\<forall>e \<in> set es. resurface_at e \<le> m)"
proof (induction es arbitrary: i m)
  case Nil
  then show ?case by simp
next
  case (Cons e es)
  show ?case
  proof (cases "farthest es")
    case None
    then show ?thesis using Cons.prems by auto
  next
    case (Some p)
    obtain j k where p: "p = (j, k)" by fastforce
    from Cons.IH [of j k] Cons.prems Some p show ?thesis
      by (fastforce split: if_splits)
  qed
qed

text \<open>Dropping a maximal element is taking the smallest ones.\<close>

lemma take_sort_max:
  fixes m :: "'a::linorder"
  assumes "mset ys = add_mset m (mset zs)" and "\<forall>z \<in> set zs. z \<le> m"
  shows "take (length zs) (sort ys) = sort zs"
proof -
  have "sort ys = sort zs @ [m]"
    by (rule properties_for_sort) (use assms in \<open>auto simp: sorted_append\<close>)
  then show ?thesis by simp
qed

lemma defer_keeps:
  assumes len: "length (d_items m) \<le> d_max_size m"
    and op: "defer_sug now s duration m = (stored, m')"
  shows "sort (map resurface_at (d_items m')) =
      take (d_max_size m) (sort (map resurface_at (d_items m) @ [now + duration])) \<and>
    d_max_size m' = d_max_size m \<and>
    (let entry = \<lparr>d_suggestion = s, deferred_at = now, resurface_at = now + duration\<rparr> in
     if stored then last (d_items m') = entry \<and> set (d_items m') \<subseteq> insert entry (set (d_items m))
     else m' = m)"
proof (cases "length (d_items m) < d_max_size m")
  case True
  then show ?thesis
    using op by (auto simp: defer_sug_def Let_def)
next
  case False
  then have full: "length (d_items m) = d_max_size m" using len by simp
  let ?ts = "map resurface_at (d_items m)" and ?at = "now + duration"
  show ?thesis
  proof (cases "farthest (d_items m)")
    case None
    then show ?thesis using op full by (simp add: defer_sug_def Let_def)
  next
    case (Some p)
    obtain i far where p: "p = (i, far)" by fastforce
    have i: "i < length (d_items m)" "resurface_at (d_items m ! i) = far"
      and top: "\<forall>t \<in> set ?ts. t \<le> far"
      using farthest_max [OF Some [unfolded p]] by auto
    show ?thesis
    proof (cases "?at < far")
      case True
      let ?zs = "remove_at i ?ts @ [?at]"
      have ms: "mset (?ts @ [?at]) = add_mset far (mset ?zs)"
        using remove_at_mset [of i ?ts] i by simp
      have "\<forall>z \<in> set ?zs. z \<le> far"
        using top True set_remove_at [of i ?ts] by auto
      from take_sort_max [OF ms this] have
        "take (d_max_size m) (sort (?ts @ [?at])) = sort ?zs"
        using i(1) full by simp
      then show ?thesis
        using op full Some p True set_remove_at [of i "d_items m"]
        by (auto simp: defer_sug_def Let_def remove_at_map)
    next
      case False
      then have "\<forall>t \<in> set ?ts. t \<le> ?at" using top by force
      then have "take (d_max_size m) (sort (?ts @ [?at])) = sort ?ts"
        using take_sort_max [of "?ts @ [?at]" ?at ?ts] full by simp
      then show ?thesis
        using op full Some p False by (simp add: defer_sug_def Let_def)
    qed
  qed
qed

text \<open> Snoozing a suggestion keeps the snoozes that come back soonest: the resurfacing times
  held afterwards are the \<open>max_size\<close> smallest of the old ones and the new one. The operation
  reports whether the new snooze is held; a refused one leaves the set as it was, and nothing is
  invented.\<close>

theorem defer_keeps_the_soonest:
  assumes len: "length (d_items m) \<le> d_max_size m"
    and op: "defer_sug now s duration m = (stored, m')"
  shows "sort (map resurface_at (d_items m')) =
      take (d_max_size m) (sort (map resurface_at (d_items m) @ [now + duration])) \<and>
    d_max_size m' = d_max_size m \<and>
    (let entry = \<lparr>d_suggestion = s, deferred_at = now, resurface_at = now + duration\<rparr> in
     if stored then last (d_items m') = entry \<and> set (d_items m') \<subseteq> insert entry (set (d_items m))
     else m' = m)"
  using assms by (rule defer_keeps)

theorem defer_keeps_the_soonest_witness:
  "let e = (\<lambda>i t. \<lparr>d_suggestion = sample_suggestion i Low i, deferred_at = 0, resurface_at = t\<rparr>);
       m = \<lparr>d_items = [e ''a'' 30, e ''b'' 90, e ''c'' 90], d_max_size = 3\<rparr>;
       r = defer_sug 10 (sample_suggestion ''d'' Low ''d'') 40 m
   in fst r \<and> sort (map resurface_at (d_items (snd r))) = [30, 50, 90] \<and>
      map (suggestion_id \<circ> d_suggestion) (d_items (snd r)) = [''a'', ''b'', ''d'']"
proof -
  let ?e = "\<lambda>i t. \<lparr>d_suggestion = sample_suggestion i Low i, deferred_at = 0, resurface_at = t\<rparr>"
  let ?m = "\<lparr>d_items = [?e ''a'' 30, ?e ''b'' 90, ?e ''c'' 90], d_max_size = 3\<rparr>"
  let ?d = "sample_suggestion ''d'' Low ''d''"
  let ?m' = "\<lparr>d_items = [?e ''a'' 30, ?e ''b'' 90,
      \<lparr>d_suggestion = ?d, deferred_at = 10, resurface_at = 50\<rparr>], d_max_size = 3\<rparr>"
  have op: "defer_sug 10 ?d 40 ?m = (True, ?m')"
    by (simp add: defer_sug_def remove_at_def)
  show ?thesis
    using defer_keeps_the_soonest [OF _ op] unfolding Let_def op
    by (simp add: sample_suggestion_def)
qed

text \<open>The deferred set as a bounded container.\<close>

datatype deferred_op =
    Defer instant Suggestion nat
  | CollectResurfaced instant
  | Cancel string
  | Restore instant "(Suggestion \<times> instant \<times> instant) list"

fun deferred_step :: "DeferredManager \<Rightarrow> deferred_op \<Rightarrow> DeferredManager" where
  "deferred_step m (Defer now s d) = snd (defer_sug now s d m)"
| "deferred_step m (CollectResurfaced now) = snd (collect_resurfaced now m)"
| "deferred_step m (Cancel sid) = snd (cancel sid m)"
| "deferred_step m (Restore now es) = snd (restore now es m)"

lemma position_less: "position P xs = Some i \<Longrightarrow> i < length xs \<and> P (xs ! i)"
  by (induction xs arbitrary: i) (auto split: if_splits)

lemma restore_bound:
  "length (d_items m) \<le> d_max_size m \<Longrightarrow>
     length (d_items (snd (restore now es m))) \<le> d_max_size m
     \<and> d_max_size (snd (restore now es m)) = d_max_size m"
proof (induction now es m rule: restore.induct)
  case (2 now s d r es m)
  then show ?case by (auto split: prod.splits)
qed simp

lemma deferred_step_capacity: "d_max_size (deferred_step m op) = d_max_size m"
proof (cases op)
  case (Restore now es)
  have "d_max_size (snd (restore now es m)) = d_max_size m"
    by (induction now es m rule: restore.induct) (auto split: prod.splits)
  then show ?thesis by (simp add: Restore)
qed (auto simp: defer_sug_def collect_resurfaced_def cancel_def Let_def
    split: option.splits prod.splits)

lemma deferred_step_bound:
  assumes "length (d_items m) \<le> d_max_size m"
  shows "length (d_items (deferred_step m op)) \<le> d_max_size m"
proof (cases op)
  case (Defer now s d)
  obtain r m' where op: "defer_sug now s d m = (r, m')" by fastforce
  have "length (d_items m') = length (sort (map resurface_at (d_items m')))" by simp
  also have "\<dots> \<le> d_max_size m"
    using conjunct1 [OF defer_keeps [OF assms op]] by simp
  finally show ?thesis by (simp add: Defer op)
next
  case (CollectResurfaced now)
  then show ?thesis
    using assms by (simp add: collect_resurfaced_def le_trans [OF length_filter_le])
next
  case (Cancel sid)
  then show ?thesis
    using assms by (auto simp: cancel_def dest: position_less split: option.splits)
next
  case (Restore now es)
  then show ?thesis using restore_bound [OF assms] by simp
qed

interpretation deferred_set:
  bounded_store deferred_step "\<lambda>m. length (d_items m) \<le> d_max_size m" "\<lambda>m. length (d_items m)" d_max_size
  by unfold_locales (simp_all add: deferred_step_bound deferred_step_capacity)

subsection \<open>Feedback retries: nothing is lost silently\<close>

abbreviation pending_ids :: "FeedbackRetryQueue \<Rightarrow> string set" where
  "pending_ids q \<equiv> pf_id ` set (r_items q)"

text \<open>One entry per suggestion, and at most \<open>max_size\<close> of them (one, if that is zero).\<close>

definition retry_inv :: "FeedbackRetryQueue \<Rightarrow> bool" where
  "retry_inv q \<longleftrightarrow>
     distinct (map pf_id (r_items q)) \<and> length (r_items q) \<le> max 1 (r_max_size q)"

lemma push_bounded_shape:
  obtains xs where "push_bounded f q = (None, q\<lparr>r_items := xs @ [f]\<rparr>)" "r_items q = xs"
      "length xs < max 1 (r_max_size q)"
  | x xs where "push_bounded f q = (Some x, q\<lparr>r_items := xs @ [f]\<rparr>)" "r_items q = x # xs"
proof (cases "r_items q")
  case Nil
  then show ?thesis using that(1) [of "[]"] by (cases "r_max_size q") (simp_all add: push_bounded_def)
next
  case (Cons x xs)
  then show ?thesis
    using that(1) [of "x # xs"] that(2) [of x xs]
    by (cases "r_max_size q \<le> length (r_items q)") (simp_all add: push_bounded_def)
qed

lemma push_bounded_facts:
  assumes "retry_inv q" and "pf_id f \<notin> pending_ids q" and "push_bounded f q = (ev, q')"
  shows "retry_inv q' \<and>
    pending_ids q' \<union> pf_id ` set_option ev = insert (pf_id f) (pending_ids q) \<and>
    pending_ids q' \<inter> pf_id ` set_option ev = {} \<and>
    r_items q' \<noteq> [] \<and> last (r_items q') = f"
proof (cases rule: push_bounded_shape [of f q])
  case (1 xs)
  then have "ev = None" "q' = q\<lparr>r_items := xs @ [f]\<rparr>" using assms(3) by simp_all
  then show ?thesis using assms(1,2) 1(2,3) by (simp add: retry_inv_def)
next
  case (2 x xs)
  then have "ev = Some x" "q' = q\<lparr>r_items := xs @ [f]\<rparr>" using assms(3) by simp_all
  then show ?thesis using assms(1,2) 2(2) by (simp add: retry_inv_def insert_commute)
qed

lemma remove_existing_facts:
  fixes f :: PendingFeedback and q :: FeedbackRetryQueue
  shows "pf_id f \<notin> pending_ids (remove_existing (pf_id f) q)"
    and "insert (pf_id f) (pending_ids (remove_existing (pf_id f) q)) = insert (pf_id f) (pending_ids q)"
    and "retry_inv q \<Longrightarrow> retry_inv (remove_existing (pf_id f) q)"
  by (auto simp: remove_existing_def retry_inv_def intro: le_trans [OF length_filter_le])

text \<open>Both insertions schedule the feedback and then replace and bound in the same way.\<close>

lemma reinsert_facts:
  assumes "retry_inv q" and "pf_id f' = pf_id f"
    and "push_bounded f' (remove_existing (pf_id f) q) = (ev, q')"
  shows "retry_inv q'"
    and "pending_ids q' \<union> pf_id ` set_option ev = insert (pf_id f) (pending_ids q)"
    and "pending_ids q' \<inter> pf_id ` set_option ev = {}"
    and "r_items q' \<noteq> [] \<and> last (r_items q') = f'"
  using assms remove_existing_facts [where f = f' and q = q]
    push_bounded_facts [of "remove_existing (pf_id f) q" f' ev q'] by simp_all

datatype retry_op =
  Enqueue instant PendingFeedback | CollectReady instant | RetryFailed instant PendingFeedback
| DropExhausted string

fun retry_step :: "FeedbackRetryQueue \<Rightarrow> retry_op \<Rightarrow> FeedbackRetryQueue" where
  "retry_step q (Enqueue now f) = snd (enqueue now f q)"
| "retry_step q (CollectReady now) = snd (collect_ready now q)"
| "retry_step q (RetryFailed now f) = snd (retry_failed now f q)"
| "retry_step q (DropExhausted sid) = drop_exhausted sid q"

lemma filtered_retry_inv: "retry_inv q \<Longrightarrow> retry_inv (q\<lparr>r_items := filter P (r_items q)\<rparr>)"
  by (auto simp: retry_inv_def intro: le_trans [OF length_filter_le])

lemma enqueue_facts:
  assumes "retry_inv q" and "enqueue now f q = (ev, q')"
  shows "retry_inv q'"
    and "pending_ids q' \<union> pf_id ` set_option ev = insert (pf_id f) (pending_ids q)"
    and "pending_ids q' \<inter> pf_id ` set_option ev = {}"
    and "r_items q' \<noteq> [] \<and> last (r_items q') = f\<lparr>next_retry_at := now + retry_delay (attempts f)\<rparr>"
  using assms reinsert_facts [of q "f\<lparr>next_retry_at := now + retry_delay (attempts f)\<rparr>" f ev q']
  by (simp_all add: enqueue_def)

lemma retry_failed_facts:
  assumes inv: "retry_inv q" and op: "retry_failed now f q = (r, q')"
  shows "retry_inv q'"
    and "pending_ids q' \<union> pf_id ` set_option (evicted r) = insert (pf_id f) (pending_ids q)"
    and "pending_ids q' \<inter> pf_id ` set_option (evicted r) = {}"
    and "r_items q' \<noteq> [] \<and> last (r_items q') = updated r"
    and "updated r = f\<lparr>attempts := attempts f + 1,
           next_retry_at := now + retry_delay (attempts f + 1)\<rparr>"
proof -
  let ?f = "f\<lparr>attempts := attempts f + 1, next_retry_at := now + retry_delay (attempts f + 1)\<rparr>"
  have "push_bounded ?f (remove_existing (pf_id f) q) = (evicted r, q')" and up: "updated r = ?f"
    using op by (auto simp: retry_failed_def Let_def split: prod.splits)
  from reinsert_facts [OF inv _ this(1)] up
  show "retry_inv q'"
    and "pending_ids q' \<union> pf_id ` set_option (evicted r) = insert (pf_id f) (pending_ids q)"
    and "pending_ids q' \<inter> pf_id ` set_option (evicted r) = {}"
    and "r_items q' \<noteq> [] \<and> last (r_items q') = updated r"
    and "updated r = ?f"
    by simp_all
qed

lemma retry_step_inv:
  assumes "retry_inv q"
  shows "retry_inv (retry_step q op)"
proof (cases op)
  case (Enqueue now f)
  then show ?thesis using enqueue_facts(1) [OF assms] by (metis prod.collapse retry_step.simps(1))
next
  case (RetryFailed now f)
  then show ?thesis
    using retry_failed_facts(1) [OF assms] by (metis prod.collapse retry_step.simps(3))
qed (auto simp: assms collect_ready_def drop_exhausted_def filtered_retry_inv)

lemma push_bounded_capacity: "push_bounded f q = (ev, q') \<Longrightarrow> r_max_size q' = r_max_size q"
  by (auto simp: push_bounded_def split: list.splits if_splits)

lemma retry_step_capacity: "r_max_size (retry_step q op) = r_max_size q"
  by (cases op)
    (auto simp: enqueue_def collect_ready_def retry_failed_def drop_exhausted_def Let_def
      remove_existing_def snd_def dest!: push_bounded_capacity split: prod.splits)

interpretation retry_queue:
  bounded_store retry_step retry_inv "\<lambda>q. length (r_items q)" "\<lambda>q. max 1 (r_max_size q)"
  by unfold_locales (simp_all add: retry_step_inv retry_step_capacity, simp add: retry_inv_def)

lemma retry_capacity_run: "r_max_size (foldl retry_step q ops) = r_max_size q"
  by (induction ops arbitrary: q) (simp_all add: retry_step_capacity)

lemma retry_delay_range: "5 * second \<le> retry_delay n \<and> retry_delay n \<le> 300 * second"
  by (simp add: retry_delay_def)

text \<open> In a reachable retry queue, rescheduling a failed feedback bumps its attempt count, gives it a
  delay between 5 and 300 seconds and puts it last, as the one entry of its suggestion; the
  suggestions pending before are pending afterwards, except for the one entry that is handed back
  as evicted, so none is dropped silently; the queue holds at most \<open>max_size\<close> entries (one, when
  \<open>max_size\<close> is zero). Collected 300 seconds later, the feedback is among the ready ones.\<close>

theorem retry_failed_loses_nothing:
  assumes q: "q = foldl retry_step (retry_new n k) ops"
    and op: "retry_failed now f q = (r, q')"
  shows "length (r_items q') \<le> max 1 n \<and> distinct (map pf_id (r_items q')) \<and>
    pending_ids q' \<union> pf_id ` set_option (evicted r) = insert (pf_id f) (pending_ids q) \<and>
    pending_ids q' \<inter> pf_id ` set_option (evicted r) = {} \<and>
    last (r_items q') = updated r \<and> attempts (updated r) = attempts f + 1 \<and>
    now + 5 * second \<le> next_retry_at (updated r) \<and>
    next_retry_at (updated r) \<le> now + 300 * second \<and>
    updated r \<in> set (fst (collect_ready (now + 300 * second) q'))"
proof -
  have inv: "retry_inv q"
    unfolding q by (rule retry_queue.run_inv) (simp add: retry_inv_def retry_new_def)
  have "r_max_size q' = n"
    using retry_step_capacity [of q "RetryFailed now f"] op
    by (simp add: q retry_capacity_run retry_new_def)
  moreover have "updated r \<in> set (r_items q')"
    using retry_failed_facts(4) [OF inv op] last_in_set by metis
  ultimately show ?thesis
    using retry_failed_facts [OF inv op] retry_delay_range [of "attempts f + 1"]
    by (simp add: retry_inv_def collect_ready_def)
qed

text \<open>
  A capacity of zero does not reject: unlike the suggestion queue, the retry queue and the history
  then hold one entry.
\<close>

lemma zero_capacity_retry_queue_holds_one:
  "length (r_items (snd (enqueue now f (retry_new 0 k)))) = 1"
  by (simp add: enqueue_def retry_new_def remove_existing_def push_bounded_def)

theorem retry_failed_loses_nothing_witness:
  "let f = (\<lambda>i. \<lparr>pf_id = i, pf_type = Accepted, pf_comment = None, attempts = 0, next_retry_at = 0\<rparr>);
       q = foldl retry_step (retry_new 2 5) [Enqueue 0 (f ''a''), Enqueue 0 (f ''b'')];
       r = retry_failed 7 (f ''c'') q
   in map_option pf_id (evicted (fst r)) = Some ''a'' \<and>
      pending_ids (snd r) = {''b'', ''c''} \<and>
      next_retry_at (updated (fst r)) = 7 + 15 * second \<and>
      next_retry_at (updated (fst r)) \<le> 7 + 300 * second"
proof -
  let ?f = "\<lambda>i. \<lparr>pf_id = i, pf_type = Accepted, pf_comment = None, attempts = 0, next_retry_at = 0\<rparr>"
  let ?ops = "[Enqueue 0 (?f ''a''), Enqueue 0 (?f ''b'')]"
  let ?q = "foldl retry_step (retry_new 2 5) ?ops"
  let ?r = "retry_failed 7 (?f ''c'') ?q"
  have op: "retry_failed 7 (?f ''c'') ?q = (fst ?r, snd ?r)" by simp
  have "map_option pf_id (evicted (fst ?r)) = Some ''a''" "pending_ids (snd ?r) = {''b'', ''c''}"
    "next_retry_at (updated (fst ?r)) = 7 + 15 * second"
    by (simp_all add: retry_new_def enqueue_def retry_failed_def push_bounded_def remove_existing_def
        retry_delay_def Let_def)
  moreover have "next_retry_at (updated (fst ?r)) \<le> 7 + 300 * second"
    using retry_failed_loses_nothing [OF refl op] by blast
  ultimately show ?thesis by (simp only: Let_def)
qed

subsection \<open>History: one entry per suggestion and exact statistics\<close>

definition history_inv :: "SuggestionHistory \<Rightarrow> bool" where
  "history_inv h \<longleftrightarrow> distinct (map h_id (entries h)) \<and> length (entries h) \<le> max 1 (h_max_size h)"

datatype history_op = Add Suggestion | RecordFeedback string FeedbackType | HClear

fun history_step :: "SuggestionHistory \<Rightarrow> history_op \<Rightarrow> SuggestionHistory" where
  "history_step h (Add s) = add_entry s h"
| "history_step h (RecordFeedback sid fb) = snd (record_feedback sid fb h)"
| "history_step h HClear = history_clear h"

lemma set_tl_subset: "set (tl xs) \<subseteq> set xs"
  by (cases xs) auto

lemma add_entry_inv:
  assumes "history_inv h"
  shows "history_inv (add_entry s h)"
proof -
  let ?kept = "filter (\<lambda>e. h_id e \<noteq> suggestion_id s) (entries h)"
  let ?kept' = "if h_max_size h \<le> length ?kept then tl ?kept else ?kept"
  have "distinct (map h_id ?kept)" using assms by (simp add: history_inv_def)
  then have "distinct (map h_id ?kept')" by (simp add: map_tl distinct_tl)
  moreover have "suggestion_id s \<notin> h_id ` set ?kept'"
    using set_tl_subset [of ?kept] by auto
  moreover have "length ?kept \<le> max 1 (h_max_size h)"
    using assms by (auto simp: history_inv_def intro: le_trans [OF length_filter_le])
  ultimately show ?thesis
    by (simp add: history_inv_def add_entry_def Let_def h_id_def
        [of "\<lparr>h_suggestion = s, h_feedback = None\<rparr>"]) linarith
qed

text \<open>Where the ids are distinct, the feedback reaches the one entry of the suggestion.\<close>

lemma set_first_feedback_map:
  assumes "distinct (map h_id es)"
  shows "set_first_feedback sid fb es =
    (sid \<in> h_id ` set es,
     map (\<lambda>e. if h_id e = sid then e\<lparr>h_feedback := Some fb\<rparr> else e) es)"
  using assms by (induction es) (auto simp: image_iff intro!: map_idI [symmetric])

lemma record_feedback_map:
  assumes "distinct (map h_id (entries h))"
  shows "record_feedback sid fb h =
    (sid \<in> h_id ` set (entries h),
     h\<lparr>entries := map (\<lambda>e. if h_id e = sid then e\<lparr>h_feedback := Some fb\<rparr> else e) (entries h)\<rparr>)"
proof -
  let ?g = "\<lambda>e. if h_id e = sid then e\<lparr>h_feedback := Some fb\<rparr> else e"
  have "map ?g (entries h) = entries h" if "sid \<notin> h_id ` set (entries h)"
    using that by (intro map_idI) auto
  then show ?thesis
    using assms set_first_feedback_map [of "rev (entries h)" sid fb]
    by (simp add: record_feedback_def rev_map [symmetric])
qed

lemma history_step_inv:
  assumes "history_inv h"
  shows "history_inv (history_step h op)"
proof (cases op)
  case (RecordFeedback sid fb)
  have "h_id (e\<lparr>h_feedback := Some fb\<rparr>) = h_id e" for e by (simp add: h_id_def)
  then show ?thesis
    using assms RecordFeedback by (simp add: history_inv_def record_feedback_map)
next
  case (Add s)
  then show ?thesis using assms by (simp add: add_entry_inv)
next
  case HClear
  then show ?thesis by (simp add: history_clear_def history_inv_def)
qed

lemma history_step_capacity: "h_max_size (history_step h op) = h_max_size h"
  by (cases op)
    (auto simp: add_entry_def record_feedback_def history_clear_def Let_def split: prod.splits)

interpretation history:
  bounded_store history_step history_inv "\<lambda>h. length (entries h)" "\<lambda>h. max 1 (h_max_size h)"
  by unfold_locales (simp_all add: history_step_inv history_step_capacity, simp add: history_inv_def)

text \<open>A tally of the entries that satisfy \<open>P\<close>, by the key \<open>f\<close>.\<close>

definition tally :: "('e \<Rightarrow> bool) \<Rightarrow> ('e \<Rightarrow> 'k) \<Rightarrow> 'e list \<Rightarrow> 'k \<Rightarrow> u32 option" where
  "tally P f es k =
     (let c = length (filter (\<lambda>e. P e \<and> f e = k) es) in if c = 0 then None else Some (of_nat c))"

lemma map_of_bump:
  "map_of (bump k xs) = (map_of xs)(k \<mapsto> (case map_of xs k of None \<Rightarrow> 1 | Some n \<Rightarrow> n + 1))"
  by (induction xs) (auto simp: fun_eq_iff)

lemma bump_keys: "distinct (map fst xs) \<Longrightarrow> distinct (map fst (bump k xs)) \<and>
    fst ` set (bump k xs) = insert k (fst ` set xs)"
proof (induction xs)
  case (Cons x xs)
  then show ?case by (cases x; cases "fst x = k") auto
qed simp

lemma tally_snoc:
  "tally P f (es @ [e]) =
     (if P e then (tally P f es)(f e \<mapsto> (case tally P f es (f e) of None \<Rightarrow> 1 | Some n \<Rightarrow> n + 1))
      else tally P f es)"
  by (auto simp: tally_def fun_eq_iff Let_def)

lemma map_of_sort_key:
  assumes "distinct (map fst xs)"
  shows "map_of (sort_key g xs) = map_of xs"
proof -
  have "distinct (map fst (sort_key g xs))"
    using assms by (simp add: distinct_map)
  with assms show ?thesis by (simp add: map_of_inject_set)
qed

text \<open>The loop of \<open>stats\<close> after the entries \<open>es\<close>.\<close>

definition counted :: "HistoryEntry list \<Rightarrow> HistoryStats \<Rightarrow> bool" where
  "counted es st \<longleftrightarrow>
     accepted st = of_nat (length (filter (\<lambda>e. h_feedback e = Some Accepted) es)) \<and>
     rejected st = of_nat (length (filter (\<lambda>e. h_feedback e = Some Rejected) es)) \<and>
     deferred st = of_nat (length (filter (\<lambda>e. h_feedback e = Some Deferred) es)) \<and>
     pending st = of_nat (length (filter (\<lambda>e. h_feedback e = None) es)) \<and>
     distinct (map fst (by_type st)) \<and> distinct (map fst (source_totals st)) \<and>
     map_of (by_type st) = tally (\<lambda>_. True) (\<lambda>e. suggestion_type (h_suggestion e)) es \<and>
     map_of (source_totals st) = tally (\<lambda>_. True) (\<lambda>e. sug_source (h_suggestion e)) es \<and>
     map_of (source_accepted st) =
       tally (\<lambda>e. h_feedback e = Some Accepted) (\<lambda>e. sug_source (h_suggestion e)) es"

lemma counted_snoc:
  assumes "counted es st"
  shows "counted (es @ [e]) (count_entry st e)"
proof (cases "h_feedback e")
  case None
  then show ?thesis
    using assms by (simp add: counted_def count_entry_def map_of_bump tally_snoc bump_keys)
next
  case (Some fb)
  then show ?thesis
    using assms
    by (cases fb) (simp_all add: counted_def count_entry_def map_of_bump tally_snoc bump_keys)
qed

lemma foldl_counted: "counted es0 st \<Longrightarrow> counted (es0 @ es) (foldl count_entry st es)"
proof (induction es arbitrary: es0 st)
  case Nil
  then show ?case by simp
next
  case (Cons e es)
  from Cons.IH [OF counted_snoc [OF Cons.prems]] show ?case by simp
qed

lemma feedback_partition:
  "length es =
     length (filter (\<lambda>e. h_feedback e = Some Accepted) es) +
     length (filter (\<lambda>e. h_feedback e = Some Rejected) es) +
     length (filter (\<lambda>e. h_feedback e = Some Deferred) es) +
     length (filter (\<lambda>e. h_feedback e = None) es)"
proof (induction es)
  case (Cons e es)
  then show ?case
  proof (cases "h_feedback e")
    case (Some fb)
    then show ?thesis using Cons by (cases fb) simp_all
  qed simp
qed simp

lemma stats_counted:
  "counted (entries h) (stats h)"
proof -
  have "counted [] \<lparr>total = 0, accepted = 0, rejected = 0, deferred = 0, pending = 0, by_type = [],
      source_totals = [], source_accepted = []\<rparr>"
    by (simp add: counted_def tally_def fun_eq_iff)
  from foldl_counted [OF this, of "entries h"] show ?thesis
    by (simp add: counted_def stats_def Let_def map_of_sort_key distinct_map)
qed

text \<open>After any sequence of presentations, feedbacks and clears, the history holds at most one entry
  per suggestion and at most \<open>max_size\<close> entries (one, when that is zero), and \<open>stats\<close> counts them
  exactly, each counter being the count modulo \<open>2^32\<close>: the four outcomes add up to the total, and
  the tallies by type and by source, and the accepted ones by source, have an entry for each key
  that occurs, holding the number of its occurrences.\<close>

theorem history_stats_exact:
  "let h = foldl history_step (history_new n) ops; st = stats h; es = entries h in
     distinct (map h_id es) \<and> length es \<le> max 1 n \<and>
     total st = of_nat (length es) \<and>
     total st = accepted st + rejected st + deferred st + pending st \<and>
     accepted st = of_nat (length (filter (\<lambda>e. h_feedback e = Some Accepted) es)) \<and>
     map_of (by_type st) = tally (\<lambda>_. True) (\<lambda>e. suggestion_type (h_suggestion e)) es \<and>
     map_of (source_totals st) = tally (\<lambda>_. True) (\<lambda>e. sug_source (h_suggestion e)) es \<and>
     map_of (source_accepted st) =
       tally (\<lambda>e. h_feedback e = Some Accepted) (\<lambda>e. sug_source (h_suggestion e)) es"
proof -
  define h where "h = foldl history_step (history_new n) ops"
  have new: "history_inv (history_new n)" by (simp add: history_inv_def history_new_def)
  have "history_inv h" "length (entries h) \<le> max 1 n"
    using history.run_inv [OF new, of ops] history.run_bounded [OF new, of ops]
    by (simp_all add: h_def history_new_def)
  moreover have "total (stats h) = of_nat (length (entries h))"
    by (simp add: stats_def Let_def)
  ultimately show ?thesis
    using stats_counted [of h] feedback_partition [of "entries h"]
    unfolding Let_def h_def [symmetric]
    by (simp add: counted_def history_inv_def)
qed

end
