(* ===== verification/Sync_Merger.thy ===== *)
theory Sync_Merger
  imports Sync_Descriptor
begin

text \<open>
  The merge of a remote changeset, \<open>crates/maekon-storage/src/sync_merger.rs\<close>. The database is the
  six synced tables, the suppression set \<open>sync_tombstones\<close> and \<open>sync_peers\<close>. A stored row has its
  bound columns, its HLC trailer and its rowid. Statements are checked against the \<open>NOT NULL\<close> and
  foreign-key constraints the migrations declare (SQLite checks both when a statement ends, and the
  build enforces foreign keys); a failing statement fails the merge. Other I/O errors are not
  modelled. The clock reading, the SQL \<open>datetime('now')\<close> and the hex decoder are an environment.
\<close>

subsection \<open>Database\<close>

record SyncRow =
  rowid :: nat
  row_cols :: "(string \<times> BoundValue) list"
  row_hlc :: Hlc

record PeerRow =
  peer_device_id :: string
  peer_device_name :: string
  peer_last_sync_at :: string
  peer_wall :: u64
  peer_counter :: u32

record sync_db =
  synced :: "string \<Rightarrow> SyncRow list"
  suppression :: "Tombstone list"
  sync_peers :: "PeerRow list"
  next_rowid :: nat

record sync_env =
  hex_decode :: "string \<Rightarrow> u8 list option"
  now_ms :: u64
  sql_now :: string

fun text_of :: "BoundValue option \<Rightarrow> string option" where
  "text_of (Some (BText s)) = Some s"
| "text_of (Some (BTextOpt t)) = t"
| "text_of _ = None"

definition text_cell :: "SyncRow \<Rightarrow> string \<Rightarrow> string option" where
  "text_cell r c = text_of (map_of (row_cols r) c)"

abbreviation origin_of :: "SyncRow \<Rightarrow> string" where
  "origin_of r \<equiv> device_id (row_hlc r)"

text \<open>The pair \<open>(hlc_wall_ms, hlc_counter)\<close> the SQL predicates compare, lexicographically.\<close>

definition stamp :: "Hlc \<Rightarrow> u64 \<times> u32" where
  "stamp h = (wall_ms h, counter h)"

definition t_stamp :: "Tombstone \<Rightarrow> u64 \<times> u32" where
  "t_stamp t = (t_wall t, t_counter t)"

text \<open>Columns declared \<open>NOT NULL\<close> among those the merger writes, and the foreign keys.\<close>

definition NOT_NULL :: "string \<Rightarrow> string list" where
  "NOT_NULL table =
     (if table = ''activity_segments'' then
        [''start_time'', ''end_time'', ''duration_secs'', ''trigger_reason'', ''app_breakdown'',
         ''dominant_category'', ''content_activities_json'', ''llm_summary_status_json'']
      else if table = ''regimes'' then
        [''label'', ''detected_at'', ''last_seen_at'', ''occurrence_count'', ''avg_density'',
         ''avg_importance'', ''dominant_category'', ''is_active'', ''is_deleted'']
      else if table = ''regime_overrides'' then [''segment_id'', ''action_type'', ''created_at'']
      else if table = ''embedding_vectors'' then
        [''segment_id'', ''content_type'', ''original_text'', ''vector'', ''model_id'',
         ''timestamp'', ''is_stale'', ''is_deleted'']
      else if table = ''suggestions'' then
        [''suggestion_id'', ''suggestion_type'', ''source'', ''content'', ''priority'',
         ''confidence_score'', ''relevance_score'', ''is_actionable'', ''created_at'', ''is_deleted'']
      else if table = ''trigger_params_snapshots'' then [''created_at'', ''preset'', ''params_json'']
      else [])"

definition FOREIGN_KEYS :: "(string \<times> string \<times> string) list" where
  "FOREIGN_KEYS =
     [(''activity_segments'', ''regime_id'', ''regimes''),
      (''regimes'', ''params_snapshot_id'', ''trigger_params_snapshots'')]"

definition not_null_ok :: "string \<Rightarrow> (string \<times> BoundValue) list \<Rightarrow> bool" where
  "not_null_ok table vs = list_all (\<lambda>n. map_of vs n \<noteq> Some (BTextOpt None)) (NOT_NULL table)"

definition fk_ok :: "sync_db \<Rightarrow> bool" where
  "fk_ok db =
     list_all (\<lambda>(child, c, parent).
       list_all (\<lambda>r. case text_cell r c of
                       None \<Rightarrow> True
                     | Some v \<Rightarrow> list_ex (\<lambda>p. text_cell p ''id'' = Some v) (synced db parent))
         (synced db child)) FOREIGN_KEYS"

text \<open>The end of a statement that changes a table.\<close>

definition finish_stmt :: "sync_db \<Rightarrow> StorageError + sync_db" where
  "finish_stmt db' =
     (if fk_ok db' then Inr db' else Inl (Internal ''FOREIGN KEY constraint failed''))"

text \<open>A \<open>u64\<close> binds to SQL only if it fits \<open>i64\<close>.\<close>

definition fits_i64 :: "u64 \<Rightarrow> bool" where
  "fits_i64 w \<longleftrightarrow> w < 2 ^ 63"

definition set_table :: "string \<Rightarrow> SyncRow list \<Rightarrow> sync_db \<Rightarrow> sync_db" where
  "set_table t rs db = db\<lparr>synced := (synced db)(t := rs)\<rparr>"

definition pk_match :: "TableDescriptor \<Rightarrow> string list \<Rightarrow> SyncRow \<Rightarrow> bool" where
  "pk_match desc ks r \<longleftrightarrow> list_all2 (\<lambda>c k. text_cell r c = Some k) (pk_cols (pk desc)) ks"

subsection \<open>Tombstones\<close>

definition same_key :: "string \<Rightarrow> string \<Rightarrow> Tombstone \<Rightarrow> bool" where
  "same_key table row_id t \<longleftrightarrow> t_table t = table \<and> t_row_id t = row_id"

text \<open>\<open>INSERT ... ON CONFLICT DO UPDATE ... WHERE excluded\<close> is higher: keep the higher stamp.\<close>

definition record_tombstone :: "Tombstone \<Rightarrow> Tombstone list \<Rightarrow> Tombstone list" where
  "record_tombstone t ts =
     (case List.find (same_key (t_table t) (t_row_id t)) ts of
        None \<Rightarrow> ts @ [t]
      | Some old \<Rightarrow>
          if t_stamp old < t_stamp t
          then map (\<lambda>x. if same_key (t_table t) (t_row_id t) x then t else x) ts else ts)"

definition split_once :: "char \<Rightarrow> string \<Rightarrow> (string \<times> string) option" where
  "split_once c s =
     (if c \<in> set s then Some (takeWhile (\<lambda>x. x \<noteq> c) s, tl (dropWhile (\<lambda>x. x \<noteq> c) s)) else None)"

definition apply_tombstone ::
  "Tombstone \<Rightarrow> sync_db \<times> SyncResult \<Rightarrow> StorageError + sync_db \<times> SyncResult" where
  "apply_tombstone t st =
     (let (db, res) = st;
          victim =
            (if t_table t = ''embedding_vectors'' then
               (let (seg, model) = (case split_once EMB_KEY_SEP (t_row_id t) of
                                      Some p \<Rightarrow> p | None \<Rightarrow> (t_row_id t, []))
                in Some (\<lambda>r. text_cell r ''segment_id'' = Some seg
                           \<and> text_cell r ''model_id'' = Some model))
             else map_option (\<lambda>p r. text_cell r p = Some (t_row_id t)) (tombstone_pk_col (t_table t)))
      in case victim of
           None \<Rightarrow> Inr (db, res)
         | Some m \<Rightarrow>
            (let rows = synced db (t_table t);
                 kept = filter (\<lambda>r. \<not> (m r \<and> origin_of r = t_origin t)) rows
             in case finish_stmt (set_table (t_table t) kept db) of
                  Inl e \<Rightarrow> Inl e
                | Inr db1 \<Rightarrow>
                   if \<not> fits_i64 (t_wall t) then Inl (Internal ''record suppression tombstone'')
                   else Inr (db1\<lparr>suppression := record_tombstone t (suppression db1)\<rparr>,
                             res\<lparr>tombstoned := tombstoned res + (length rows - length kept)\<rparr>)))"

definition tombstone_suppresses ::
  "string \<Rightarrow> string \<Rightarrow> u64 \<times> u32 \<Rightarrow> sync_db \<Rightarrow> bool \<times> sync_db" where
  "tombstone_suppresses table row_id incoming db =
     (case List.find (same_key table row_id) (suppression db) of
        None \<Rightarrow> (False, db)
      | Some t \<Rightarrow>
          if incoming \<le> t_stamp t then (True, db)
          else (False, db\<lparr>suppression :=
                            filter (\<lambda>x. \<not> same_key table row_id x) (suppression db)\<rparr>))"

subsection \<open>Rows\<close>

definition insert_row ::
  "TableDescriptor \<Rightarrow> (string \<times> BoundValue) list \<Rightarrow> Hlc \<Rightarrow> sync_db \<Rightarrow> StorageError + sync_db" where
  "insert_row desc vs h db =
     (if \<not> fits_i64 (wall_ms h) then Inl (Internal ''insert'')
      else if \<not> not_null_ok (data_table desc) vs then Inl (Internal ''NOT NULL constraint failed'')
      else finish_stmt
             ((set_table (data_table desc)
                 (synced db (data_table desc) @
                    [\<lparr>rowid = next_rowid db, row_cols = vs, row_hlc = h\<rparr>]) db)
              \<lparr>next_rowid := Suc (next_rowid db)\<rparr>))"

definition set_cols ::
  "(string \<times> BoundValue) list \<Rightarrow> (string \<times> BoundValue) list \<Rightarrow> (string \<times> BoundValue) list" where
  "set_cols new old = new @ filter (\<lambda>(n, _). n \<notin> fst ` set new) old"

definition update_row ::
  "TableDescriptor \<Rightarrow> (string \<times> BoundValue) list \<Rightarrow> Hlc \<Rightarrow> (SyncRow \<Rightarrow> bool) \<Rightarrow> sync_db
     \<Rightarrow> StorageError + sync_db" where
  "update_row desc vs h hit db =
     (let new = filter (\<lambda>(n, _). \<not> excluded_from_update desc n) vs
      in if \<not> fits_i64 (wall_ms h) then Inl (Internal ''update'')
         else if \<not> not_null_ok (data_table desc) new then Inl (Internal ''NOT NULL constraint failed'')
         else finish_stmt
                (set_table (data_table desc)
                   (map (\<lambda>r. if hit r then r\<lparr>row_cols := set_cols new (row_cols r), row_hlc := h\<rparr>
                             else r) (synced db (data_table desc))) db))"

definition bump_applied :: "SyncResult \<Rightarrow> SyncResult" where
  "bump_applied res = res\<lparr>applied := Suc (applied res)\<rparr>"

definition bump_dup :: "SyncResult \<Rightarrow> SyncResult" where
  "bump_dup res = res\<lparr>skipped_dup := Suc (skipped_dup res)\<rparr>"

definition bump_lww :: "SyncResult \<Rightarrow> SyncResult" where
  "bump_lww res = res\<lparr>skipped_lww := Suc (skipped_lww res)\<rparr>"

text \<open>\<open>bind_all_columns\<close> and \<open>insert_row\<close>, the common tail of both merge modes for a new row.\<close>

definition bind_and_insert ::
  "sync_env \<Rightarrow> TableDescriptor \<Rightarrow> json \<Rightarrow> Hlc \<Rightarrow> sync_db \<times> SyncResult
     \<Rightarrow> StorageError + sync_db \<times> SyncResult" where
  "bind_and_insert env desc row h st =
     (let (db, res) = st in
      case bind_all_columns (hex_decode env) desc row of
        Inl e \<Rightarrow> Inl e
      | Inr None \<Rightarrow> Inr (db, bump_dup res)
      | Inr (Some vs) \<Rightarrow>
         (case insert_row desc vs h db of Inl e \<Rightarrow> Inl e | Inr db' \<Rightarrow> Inr (db', bump_applied res)))"

definition merge_append_only ::
  "sync_env \<Rightarrow> TableDescriptor \<Rightarrow> string list \<Rightarrow> json \<Rightarrow> Hlc \<Rightarrow> sync_db \<times> SyncResult
     \<Rightarrow> StorageError + sync_db \<times> SyncResult" where
  "merge_append_only env desc ks row h st =
     (let (db, res) = st in
      case pk desc of
        CompositeWithSurrogate _ _ _ \<Rightarrow>
          Inl (Internal (''append-only merge requires a Simple primary key: '' @ data_table desc))
      | Simple _ \<Rightarrow>
          if list_ex (pk_match desc ks) (synced db (data_table desc)) then Inr (db, bump_dup res)
          else bind_and_insert env desc row h st)"

text \<open>\<open>select_local_match\<close>: the row of that key, with its status ordinal when there is a tiebreak.\<close>

definition select_local_match :: "TableDescriptor \<Rightarrow> string list \<Rightarrow> sync_db \<Rightarrow> SyncRow option" where
  "select_local_match desc ks db = List.find (pk_match desc ks) (synced db (data_table desc))"

definition local_ordinal :: "string list \<Rightarrow> SyncRow \<Rightarrow> nat" where
  "local_ordinal rank r = presence_ordinal (\<lambda>c. text_cell r c \<noteq> None) rank"

definition remote_wins :: "string list option \<Rightarrow> json \<Rightarrow> Hlc \<Rightarrow> SyncRow \<Rightarrow> bool" where
  "remote_wins tiebreak row h loc =
     (case tiebreak of
        Some rank \<Rightarrow>
          if ordinal rank row \<noteq> local_ordinal rank loc
          then local_ordinal rank loc < ordinal rank row
          else is_after h (row_hlc loc)
      | None \<Rightarrow> is_after h (row_hlc loc))"

definition merge_last_write_wins ::
  "sync_env \<Rightarrow> TableDescriptor \<Rightarrow> string list \<Rightarrow> json \<Rightarrow> Hlc \<Rightarrow> string list option
     \<Rightarrow> sync_db \<times> SyncResult \<Rightarrow> StorageError + sync_db \<times> SyncResult" where
  "merge_last_write_wins env desc ks row h tiebreak st =
     (let (db, res) = st in
      case select_local_match desc ks db of
        None \<Rightarrow> bind_and_insert env desc row h st
      | Some loc \<Rightarrow>
          if \<not> remote_wins tiebreak row h loc then Inr (db, bump_lww res)
          else
            (case bind_all_columns (hex_decode env) desc row of
               Inl e \<Rightarrow> Inl e
             | Inr None \<Rightarrow> Inr (db, bump_dup res)
             | Inr (Some vs) \<Rightarrow>
                (let hit = (case pk desc of
                              Simple _ \<Rightarrow> pk_match desc ks
                            | CompositeWithSurrogate _ _ _ \<Rightarrow> (\<lambda>r. rowid r = rowid loc))
                 in case update_row desc vs h hit db of
                      Inl e \<Rightarrow> Inl e
                    | Inr db' \<Rightarrow>
                        Inr (db', if json_i64_or_default row ''is_deleted'' 0 = 1
                                  then res\<lparr>tombstoned := Suc (tombstoned res)\<rparr>
                                  else bump_applied res))))"

definition merge_row ::
  "sync_env \<Rightarrow> TableDescriptor \<Rightarrow> json \<Rightarrow> sync_db \<times> SyncResult
     \<Rightarrow> StorageError + sync_db \<times> SyncResult" where
  "merge_row env desc row st =
     (let (db, res) = st in
      case pk_values desc row of
        Inl e \<Rightarrow> Inl e
      | Inr ks \<Rightarrow>
         (case extract_hlc row of
            Inl e \<Rightarrow> Inl e
          | Inr None \<Rightarrow> Inr (db, bump_dup res)
          | Inr (Some h) \<Rightarrow>
             (let (sup, db1) = tombstone_suppresses (data_table desc) (tombstone_key desc ks) (stamp h) db
              in if sup then Inr (db1, bump_dup res)
                 else case mode desc of
                        AppendOnly \<Rightarrow> merge_append_only env desc ks row h (db1, res)
                      | LastWriteWins \<Rightarrow> merge_last_write_wins env desc ks row h None (db1, res)
                      | LastWriteWinsWithTiebreak rank \<Rightarrow>
                          merge_last_write_wins env desc ks row h (Some rank) (db1, res))))"

subsection \<open>Changesets\<close>

fun try_fold :: "('x \<Rightarrow> 's \<Rightarrow> 'e + 's) \<Rightarrow> 'x list \<Rightarrow> 's \<Rightarrow> 'e + 's" where
  "try_fold f [] s = Inr s"
| "try_fold f (x # xs) s = (case f x s of Inl e \<Rightarrow> Inl e | Inr s' \<Rightarrow> try_fold f xs s')"

definition hlc_drift_rejected :: "sync_env \<Rightarrow> json \<Rightarrow> bool" where
  "hlc_drift_rejected env row =
     (case json_u64 row ''hlc_wall_ms'' of
        Inl _ \<Rightarrow> False | Inr w \<Rightarrow> \<not> wall_ms_within_drift_bound (now_ms env) w)"

definition merge_guarded ::
  "sync_env \<Rightarrow> TableDescriptor \<times> json \<Rightarrow> sync_db \<times> SyncResult
     \<Rightarrow> StorageError + sync_db \<times> SyncResult" where
  "merge_guarded env dr st =
     (case dr of (desc, row) \<Rightarrow>
        if hlc_drift_rejected env row then Inr st else merge_row env desc row st)"

definition tombstone_rejected :: "sync_env \<Rightarrow> string \<Rightarrow> Tombstone \<Rightarrow> bool" where
  "tombstone_rejected env local t \<longleftrightarrow>
     t_origin t = local \<or> \<not> wall_ms_within_drift_bound (now_ms env) (t_wall t)"

definition tombstone_guarded ::
  "sync_env \<Rightarrow> string \<Rightarrow> Tombstone \<Rightarrow> sync_db \<times> SyncResult \<Rightarrow> StorageError + sync_db \<times> SyncResult" where
  "tombstone_guarded env local t st =
     (if tombstone_rejected env local t then Inr st else apply_tombstone t st)"

text \<open>The loops over the tables of a changeset, in the order of the code.\<close>

definition changeset_rows :: "ChangeSet \<Rightarrow> (TableDescriptor \<times> json) list" where
  "changeset_rows cs =
     map (Pair ACTIVITY_SEGMENTS) (segments cs) @ map (Pair REGIME_OVERRIDES) (overrides cs) @
     map (Pair TRIGGER_PARAMS_SNAPSHOTS) (param_snapshots cs) @ map (Pair REGIMES) (regimes cs) @
     map (Pair EMBEDDING_VECTORS) (embeddings cs) @ map (Pair SUGGESTIONS) (suggestions cs)"

definition upsert_peer :: "PeerRow \<Rightarrow> PeerRow list \<Rightarrow> PeerRow list" where
  "upsert_peer p ps =
     (if list_ex (\<lambda>x. peer_device_id x = peer_device_id p) ps
      then map (\<lambda>x. if peer_device_id x = peer_device_id p then p else x) ps else ps @ [p])"

text \<open>The transaction; an error rolls the database back.\<close>

definition apply_data ::
  "sync_env \<Rightarrow> string \<Rightarrow> ChangeSet \<Rightarrow> sync_db \<Rightarrow> StorageError + sync_db \<times> SyncResult" where
  "apply_data env local cs db =
     (case try_fold (tombstone_guarded env local) (tombstones cs) (db, sync_result_default) of
        Inl e \<Rightarrow> Inl e
      | Inr st1 \<Rightarrow>
         (case try_fold (merge_guarded env) (changeset_rows cs) st1 of
            Inl e \<Rightarrow> Inl e
          | Inr (db2, res) \<Rightarrow>
             if \<not> fits_i64 (wall_ms (watermark cs)) then Inl (Internal ''update sync_peers'')
             else Inr (db2\<lparr>sync_peers := upsert_peer
                         \<lparr>peer_device_id = cs_origin cs, peer_device_name = cs_origin_name cs,
                          peer_last_sync_at = sql_now env, peer_wall = wall_ms (watermark cs),
                          peer_counter = counter (watermark cs)\<rparr> (sync_peers db2)\<rparr>,
                       res\<lparr>new_watermark := watermark cs\<rparr>)))"

definition in_scope :: "string \<Rightarrow> (u64 \<times> u32) option \<Rightarrow> SyncRow \<Rightarrow> bool" where
  "in_scope origin bound r \<longleftrightarrow>
     origin_of r = origin \<and>
     (case bound of None \<Rightarrow> True | Some b \<Rightarrow> stamp (row_hlc r) \<le> b)"

text \<open>The \<open>row_id\<close> a stored row has in \<open>sync_tombstones\<close>.\<close>

definition stored_key :: "TableDescriptor \<Rightarrow> SyncRow \<Rightarrow> string" where
  "stored_key desc r =
     tombstone_key desc (map (\<lambda>c. case text_cell r c of None \<Rightarrow> [] | Some s \<Rightarrow> s) (pk_cols (pk desc)))"

definition row_tombstone :: "sync_env \<Rightarrow> TableDescriptor \<Rightarrow> SyncRow \<Rightarrow> Tombstone" where
  "row_tombstone env desc r =
     \<lparr>t_table = data_table desc, t_row_id = stored_key desc r, t_origin = origin_of r,
      t_wall = wall_ms (row_hlc r), t_counter = counter (row_hlc r), t_deleted_at = sql_now env\<rparr>"

text \<open>
  One table of a deletion event: record the tombstones, then delete. Outside a transaction: what a
  failing statement leaves behind stays.
\<close>

definition erase_table ::
  "sync_env \<Rightarrow> string \<Rightarrow> (u64 \<times> u32) option \<Rightarrow> TableDescriptor \<Rightarrow> sync_db
     \<Rightarrow> (StorageError + nat) \<times> sync_db" where
  "erase_table env origin bound desc db =
     (if (case bound of None \<Rightarrow> False | Some (w, _) \<Rightarrow> \<not> fits_i64 w)
      then (Inl (Internal ''record deletion tombstones''), db)
      else
        let rows = synced db (data_table desc);
            doomed = filter (in_scope origin bound) rows;
            kept = filter (Not \<circ> in_scope origin bound) rows;
            db1 = db\<lparr>suppression := foldl (\<lambda>ts r. record_tombstone (row_tombstone env desc r) ts)
                                     (suppression db) doomed\<rparr>
        in case finish_stmt (set_table (data_table desc) kept db1) of
             Inl e \<Rightarrow> (Inl e, db1)
           | Inr db2 \<Rightarrow> (Inr (length doomed), db2))"

fun erase_tables ::
  "sync_env \<Rightarrow> string \<Rightarrow> (u64 \<times> u32) option \<Rightarrow> TableDescriptor list \<Rightarrow> nat \<Rightarrow> sync_db
     \<Rightarrow> (StorageError + nat) \<times> sync_db" where
  "erase_tables env origin bound [] n db = (Inr n, db)"
| "erase_tables env origin bound (d # ds) n db =
     (case erase_table env origin bound d db of
        (Inl e, db') \<Rightarrow> (Inl e, db')
      | (Inr k, db') \<Rightarrow> erase_tables env origin bound ds (n + k) db')"

definition handle_deletion_event ::
  "sync_env \<Rightarrow> string \<Rightarrow> (u64 \<times> u32) option \<Rightarrow> sync_db \<Rightarrow> (StorageError + nat) \<times> sync_db" where
  "handle_deletion_event env origin bound db = erase_tables env origin bound SYNC_TABLES 0 db"

definition deletion_bound :: "Hlc \<Rightarrow> (u64 \<times> u32) option" where
  "deletion_bound wm = (if stamp wm = (0, 0) then None else Some (stamp wm))"

definition apply_locked ::
  "sync_env \<Rightarrow> string \<Rightarrow> ChangeSet \<Rightarrow> sync_db \<Rightarrow> (StorageError + SyncResult) \<times> sync_db" where
  "apply_locked env local cs db =
     (let blank = sync_result_default\<lparr>new_watermark := watermark cs\<rparr> in
      if cs_origin cs = local then (Inr blank, db)
      else if kind cs = DeletionEvent then
        (case handle_deletion_event env (cs_origin cs) (deletion_bound (watermark cs)) db of
           (Inl e, db') \<Rightarrow> (Inl e, db')
         | (Inr n, db') \<Rightarrow> (Inr (blank\<lparr>tombstoned := n\<rparr>), db'))
      else
        (case apply_data env local cs db of
           Inl e \<Rightarrow> (Inl e, db)
         | Inr (db', res) \<Rightarrow> (Inr res, db')))"

definition apply_changes ::
  "cells \<Rightarrow> sync_env \<Rightarrow> string \<Rightarrow> ChangeSet \<Rightarrow> sync_db GuardedConnection
     \<Rightarrow> (StorageError + SyncResult) \<times> sync_db GuardedConnection" where
  "apply_changes h env local cs g =
     guard_run g (write_lock h g) (sync_result_default\<lparr>new_watermark := watermark cs\<rparr>)
       (apply_locked env local cs)"

end
