(* ===== verification/Sync_Safety.thy ===== *)
theory Sync_Safety
  imports Sync_Merger
begin

text \<open>
  Safety of the merge: what one merged row can do to the database, erased rows stay erased, remote
  changesets cannot remove rows of this device, deletion events are exact and leave durable
  tombstones, and the cases in which the promises fail.
\<close>

subsection \<open>Column binding\<close>

lemma bind_columns_lookup:
  assumes "bind_columns dec row specs = Inr (Some vs)" and "c \<in> set specs" and "\<not> extractor_only c"
    and "distinct (map col_name specs)"
  shows "\<exists>v. extract_col dec c row = Inr (Some v) \<and> map_of vs (col_name c) = Some v"
  using assms
proof (induction specs arbitrary: vs)
  case (Cons s specs)
  show ?case
  proof (cases "extractor_only s")
    case True
    then show ?thesis using Cons by auto
  next
    case False
    then obtain v vs' where v: "extract_col dec s row = Inr (Some v)"
      and vs': "bind_columns dec row specs = Inr (Some vs')" and vs: "vs = (col_name s, v) # vs'"
      using Cons.prems(1) by (auto split: sum.splits option.splits)
    show ?thesis
    proof (cases "c = s")
      case True
      then show ?thesis using v vs by simp
    next
      case False
      then have c: "c \<in> set specs" using Cons.prems(2) by simp
      then have "col_name c \<noteq> col_name s" using Cons.prems(4) by (metis distinct.simps(2) imageI list.simps(9) set_map)
      then show ?thesis using c Cons.IH [OF vs'] Cons.prems(3,4) vs by auto
    qed
  qed
qed simp

lemma bind_columns_names:
  "bind_columns dec row specs = Inr (Some vs) \<Longrightarrow>
     map fst vs = map col_name (filter (Not \<circ> extractor_only) specs)"
  by (induction specs arbitrary: vs) (auto split: sum.splits option.splits if_splits)

lemma bind_columns_total:
  assumes "\<forall>c \<in> set specs. col_kind c \<noteq> KHexBlob"
  shows "bind_columns dec row specs \<noteq> Inr None"
  using assms
proof (induction specs)
  case (Cons s specs)
  then have "extract_col dec s row \<noteq> Inr None"
    by (cases "col_kind s") (auto simp: extract_col_def Let_def split: sum.splits)
  with Cons show ?case by (auto split: sum.splits option.splits)
qed simp

text \<open>The tables with a text key, without a blob, and without a status tiebreak.\<close>

definition plain_table :: "TableDescriptor \<Rightarrow> bool" where
  "plain_table desc \<longleftrightarrow>
     (case pk desc of
        Simple p \<Rightarrow> list_ex (\<lambda>c. col_name c = p \<and> col_kind c = KText \<and> \<not> extractor_only c) (columns desc)
      | CompositeWithSurrogate _ _ _ \<Rightarrow> False) \<and>
     distinct (map col_name (columns desc)) \<and>
     list_all (\<lambda>c. col_kind c \<noteq> KHexBlob) (columns desc) \<and>
     (mode desc = AppendOnly \<or> mode desc = LastWriteWins)"

lemmas descriptor_defs =
  ACTIVITY_SEGMENTS_def REGIMES_def REGIME_OVERRIDES_def EMBEDDING_VECTORS_def SUGGESTIONS_def
  TRIGGER_PARAMS_SNAPSHOTS_def col_def col_gated_def col_extractor_only_def col_immutable_def

lemma plain_tables [simp]:
  "plain_table ACTIVITY_SEGMENTS" "plain_table REGIMES" "plain_table REGIME_OVERRIDES"
  "plain_table TRIGGER_PARAMS_SNAPSHOTS"
  by (simp_all add: plain_table_def descriptor_defs)

text \<open>A row that is bound carries the key it was looked up with.\<close>

lemma plain_key:
  assumes "plain_table desc" and "pk_values desc row = Inr ks"
    and "bind_all_columns dec desc row = Inr (Some vs)"
  shows "\<exists>p k. pk desc = Simple p \<and> ks = [k] \<and> map_of vs p = Some (BText k)"
proof -
  obtain p c where p: "pk desc = Simple p" and c: "c \<in> set (columns desc)" "col_name c = p"
      "col_kind c = KText" "\<not> extractor_only c" and dist: "distinct (map col_name (columns desc))"
    using assms(1) by (auto simp: plain_table_def list_ex_iff split: PrimaryKey.splits)
  obtain k where k: "ks = [k]" "json_str row p = Inr k"
    using assms(2) p by (auto simp: pk_values_def split: sum.splits)
  obtain v where "extract_col dec c row = Inr (Some v)" "map_of vs p = Some v"
    using bind_columns_lookup [OF assms(3) [unfolded bind_all_columns_def] c(1,4) dist] c(2) by auto
  then show ?thesis using p k c(2,3) by (auto simp: extract_col_def)
qed

lemma plain_bind:
  assumes "plain_table desc"
  shows "bind_all_columns dec desc row \<noteq> Inr None"
  using assms bind_columns_total [of "columns desc"]
  by (simp add: plain_table_def bind_all_columns_def list_all_iff)

subsection \<open>What one row can do\<close>

lemma finish_stmt_Inr: "finish_stmt x = Inr db \<longleftrightarrow> db = x \<and> fk_ok x"
  by (auto simp: finish_stmt_def)

text \<open>
  The effects of the two merge modes on the database: none, one appended row, or the rows hit by
  the update replaced.
\<close>

inductive row_effect ::
  "sync_env \<Rightarrow> TableDescriptor \<Rightarrow> string list \<Rightarrow> json \<Rightarrow> Hlc \<Rightarrow> sync_db \<Rightarrow> sync_db \<Rightarrow> bool"
  for env desc ks row h db where
  inserted: "\<not> list_ex (pk_match desc ks) (synced db (data_table desc)) \<Longrightarrow>
      bind_all_columns (hex_decode env) desc row = Inr (Some vs) \<Longrightarrow>
      row_effect env desc ks row h db
        ((set_table (data_table desc)
            (synced db (data_table desc) @
               [\<lparr>rowid = next_rowid db, row_cols = vs, row_hlc = h\<rparr>]) db)
         \<lparr>next_rowid := Suc (next_rowid db)\<rparr>)"
| updated: "select_local_match desc ks db = Some loc \<Longrightarrow>
      mode desc \<noteq> AppendOnly \<Longrightarrow>
      (mode desc = LastWriteWins \<longrightarrow> is_after h (row_hlc loc)) \<Longrightarrow>
      bind_all_columns (hex_decode env) desc row = Inr (Some vs) \<Longrightarrow>
      hit = (case pk desc of
               Simple _ \<Rightarrow> pk_match desc ks
             | CompositeWithSurrogate _ _ _ \<Rightarrow> (\<lambda>r. rowid r = rowid loc)) \<Longrightarrow>
      new = filter (\<lambda>(n, _). \<not> excluded_from_update desc n) vs \<Longrightarrow>
      row_effect env desc ks row h db
        (set_table (data_table desc)
           (map (\<lambda>r. if hit r then r\<lparr>row_cols := set_cols new (row_cols r), row_hlc := h\<rparr> else r)
              (synced db (data_table desc))) db)"
| kept: "mode desc = AppendOnly \<and> list_ex (pk_match desc ks) (synced db (data_table desc)) \<or>
      mode desc \<noteq> AppendOnly \<and>
        (\<exists>loc. select_local_match desc ks db = Some loc \<and>
           (mode desc = LastWriteWins \<longrightarrow> \<not> is_after h (row_hlc loc))) \<or>
      bind_all_columns (hex_decode env) desc row = Inr None \<Longrightarrow>
      row_effect env desc ks row h db db"

lemma find_ex: "List.find P xs = None \<longleftrightarrow> \<not> list_ex P xs"
  by (auto simp: find_None_iff list_ex_iff)

lemma bind_and_insert_effect:
  assumes "bind_and_insert env desc row h (db, res) = Inr (db', res')"
    and "\<not> list_ex (pk_match desc ks) (synced db (data_table desc))"
  shows "row_effect env desc ks row h db db'"
proof (cases "bind_all_columns (hex_decode env) desc row")
  case (Inr vo)
  show ?thesis
  proof (cases vo)
    case None
    then show ?thesis using assms(1) Inr by (auto simp: bind_and_insert_def intro: kept)
  next
    case (Some vs)
    then show ?thesis
      using assms Inr row_effect.inserted [OF assms(2), of env row vs h]
      by (auto simp: bind_and_insert_def insert_row_def finish_stmt_Inr split: sum.splits if_splits)
  qed
qed (use assms in \<open>simp add: bind_and_insert_def\<close>)

lemma merge_append_only_effect:
  assumes "merge_append_only env desc ks row h (db, res) = Inr (db', res')" and "mode desc = AppendOnly"
  shows "row_effect env desc ks row h db db'"
  using assms
  by (auto simp: merge_append_only_def split: PrimaryKey.splits if_splits
      intro: kept bind_and_insert_effect)

lemma merge_lww_effect:
  assumes op: "merge_last_write_wins env desc ks row h tb (db, res) = Inr (db', res')"
    and mode: "mode desc = (case tb of None \<Rightarrow> LastWriteWins | Some rank \<Rightarrow> LastWriteWinsWithTiebreak rank)"
  shows "row_effect env desc ks row h db db'"
proof (cases "select_local_match desc ks db")
  case None
  then have "\<not> list_ex (pk_match desc ks) (synced db (data_table desc))"
    by (simp add: select_local_match_def find_ex)
  then show ?thesis
    using op None bind_and_insert_effect [of env desc row h db res db' res' ks]
    by (simp add: merge_last_write_wins_def)
next
  case (Some loc)
  have nap: "mode desc \<noteq> AppendOnly" using mode by (auto split: option.splits)
  have lww: "tb = None" if "mode desc = LastWriteWins" using mode that by (auto split: option.splits)
  show ?thesis
  proof (cases "remote_wins tb row h loc")
    case False
    then have "mode desc = LastWriteWins \<longrightarrow> \<not> is_after h (row_hlc loc)"
      using lww by (auto simp: remote_wins_def)
    moreover have "db' = db" using op Some False by (simp add: merge_last_write_wins_def)
    ultimately show ?thesis using Some nap by (auto intro: kept)
  next
    case True
    then have after: "mode desc = LastWriteWins \<longrightarrow> is_after h (row_hlc loc)"
      using lww by (auto simp: remote_wins_def)
    show ?thesis
    proof (cases "bind_all_columns (hex_decode env) desc row")
      case (Inr vo)
      show ?thesis
      proof (cases vo)
        case None
        then show ?thesis
          using op Some True Inr by (auto simp: merge_last_write_wins_def intro: kept)
      next
        case (Some vs)
        then show ?thesis
          using op \<open>select_local_match desc ks db = Some loc\<close> True Inr
            row_effect.updated [OF \<open>select_local_match desc ks db = Some loc\<close> nap after
              Inr [unfolded Some] refl refl]
          by (auto simp: merge_last_write_wins_def update_row_def finish_stmt_Inr Let_def
              split: sum.splits if_splits)
      qed
    qed (use op Some True in \<open>simp add: merge_last_write_wins_def\<close>)
  qed
qed

text \<open>A merged row is skipped, suppressed, or takes effect after a superseded tombstone is cleared.\<close>

lemma suppressed_unchanged:
  "tombstone_suppresses table k s db = (True, db1) \<Longrightarrow> db1 = db"
  by (auto simp: tombstone_suppresses_def split: option.splits if_splits)

lemma merge_row_outcome:
  assumes "merge_row env desc row (db, res) = Inr (db', res')"
    and "pk_values desc row = Inr ks" and "extract_hlc row = Inr (Some h)"
  obtains (suppressed) "tombstone_suppresses (data_table desc) (tombstone_key desc ks) (stamp h) db = (True, db)"
      "db' = db"
  | (effective) db1 where
      "tombstone_suppresses (data_table desc) (tombstone_key desc ks) (stamp h) db = (False, db1)"
      "row_effect env desc ks row h db1 db'"
proof (cases "tombstone_suppresses (data_table desc) (tombstone_key desc ks) (stamp h) db")
  case (Pair sup db1)
  show ?thesis
  proof (cases sup)
    case True
    then show ?thesis
      using Pair suppressed suppressed_unchanged assms by (simp add: merge_row_def)
  next
    case False
    have "row_effect env desc ks row h db1 db'"
      using assms Pair False
      by (cases "mode desc") (auto simp: merge_row_def intro: merge_append_only_effect merge_lww_effect)
    then show ?thesis using effective [of db1] Pair False by simp
  qed
qed

lemma merge_row_cases:
  assumes "merge_row env desc row (db, res) = Inr (db', res')"
  obtains (skipped) "db' = db"
  | (merged) ks h db1 where "pk_values desc row = Inr ks" "extract_hlc row = Inr (Some h)"
      "tombstone_suppresses (data_table desc) (tombstone_key desc ks) (stamp h) db = (False, db1)"
      "row_effect env desc ks row h db1 db'"
proof (cases "extract_hlc row")
  case (Inl e)
  then show ?thesis using assms by (simp add: merge_row_def split: sum.splits)
next
  case (Inr ho)
  obtain ks where ks: "pk_values desc row = Inr ks" using assms by (auto simp: merge_row_def split: sum.splits)
  show ?thesis
  proof (cases ho)
    case None
    then show ?thesis using assms Inr ks skipped by (simp add: merge_row_def)
  next
    case (Some h)
    from merge_row_outcome [OF assms ks Inr [unfolded Some]] show ?thesis
      using skipped merged ks Inr Some by cases auto
  qed
qed

subsection \<open>Erased rows stay erased\<close>

lemma is_after_stamp: "is_after h g \<Longrightarrow> stamp g \<le> stamp h" "\<not> is_after h g \<Longrightarrow> stamp h \<le> stamp g"
  by (auto simp: is_after_def stamp_def less_Hlc_def less_eq_prod_def)

lemma pk_match_simple: "pk desc = Simple p \<Longrightarrow> pk_match desc [k] r \<longleftrightarrow> text_cell r p = Some k"
  by (simp add: pk_match_def)

lemma map_of_set_cols:
  "map_of (set_cols new old) c = (case map_of new c of None \<Rightarrow> map_of old c | Some v \<Rightarrow> Some v)"
proof (cases "map_of new c")
  case None
  then have "c \<notin> fst ` set new" by (simp add: map_of_eq_None_iff)
  then have "map_of (filter (\<lambda>(n, _). n \<notin> fst ` set new) old) c = map_of old c"
    by (induction old) (auto simp: image_iff)
  then show ?thesis using None by (simp add: set_cols_def map_add_def)
qed (simp add: set_cols_def map_add_Some_iff)

lemma text_cell_update:
  assumes "pk desc = Simple p"
  shows "text_cell (r\<lparr>row_cols := set_cols (filter (\<lambda>(n, _). \<not> excluded_from_update desc n) vs) (row_cols r),
      row_hlc := h\<rparr>) p = text_cell r p"
proof -
  let ?new = "filter (\<lambda>(n, _). \<not> excluded_from_update desc n) vs"
  have notin: "p \<notin> fst ` set ?new" using assms by (auto simp: excluded_from_update_def)
  then have "map_of ?new p = None" by (simp add: map_of_eq_None_iff)
  then show ?thesis by (simp add: text_cell_def map_of_set_cols)
qed

text \<open>
  The guard of an erased key: a tombstone at least as high as \<open>th\<close>, or a row that keeps older ones
  out; and every row of the key is one of the rows \<open>old\<close> or is later than \<open>th\<close>.
\<close>

definition guarded :: "TableDescriptor \<Rightarrow> string \<Rightarrow> u64 \<times> u32 \<Rightarrow> SyncRow set \<Rightarrow> sync_db \<Rightarrow> bool" where
  "guarded desc k th old db \<longleftrightarrow>
     ((\<exists>t. List.find (same_key (data_table desc) k) (suppression db) = Some t \<and> th \<le> t_stamp t) \<or>
      (\<exists>r. List.find (pk_match desc [k]) (synced db (data_table desc)) = Some r \<and>
         (mode desc = AppendOnly \<or> th < stamp (row_hlc r)))) \<and>
     (\<forall>r \<in> set (synced db (data_table desc)). pk_match desc [k] r \<longrightarrow> r \<in> old \<or> th < stamp (row_hlc r))"

lemma suppresses_other:
  assumes "tombstone_suppresses table k' s db = (b, db1)"
  shows "synced db1 = synced db"
    and "table \<noteq> table' \<or> k' \<noteq> k \<Longrightarrow>
      List.find (same_key table' k) (suppression db1) = List.find (same_key table' k) (suppression db)"
proof -
  show "synced db1 = synced db"
    using assms by (auto simp: tombstone_suppresses_def split: option.splits if_splits)
  assume "table \<noteq> table' \<or> k' \<noteq> k"
  then have "List.find (same_key table' k) (filter (\<lambda>x. \<not> same_key table k' x) ts) =
      List.find (same_key table' k) ts" for ts
    by (intro find_filter_other) (auto simp: same_key_def)
  then show "List.find (same_key table' k) (suppression db1) = List.find (same_key table' k) (suppression db)"
    using assms by (auto simp: tombstone_suppresses_def split: option.splits if_splits)
qed

lemma effect_suppression: "row_effect env desc ks row h db db' \<Longrightarrow> suppression db' = suppression db"
  by (cases rule: row_effect.cases) (auto simp: set_table_def)

lemma effect_other_table:
  "row_effect env desc ks row h db db' \<Longrightarrow> t \<noteq> data_table desc \<Longrightarrow> synced db' t = synced db t"
  by (cases rule: row_effect.cases) (auto simp: set_table_def)

lemma find_append_other: "(\<And>x. x \<in> set ys \<Longrightarrow> \<not> P x) \<Longrightarrow> List.find P (xs @ ys) = List.find P xs"
  by (induction xs) (auto simp: find_None_iff)

lemma find_map_same:
  "(\<And>x. x \<in> set xs \<Longrightarrow> P (f x) = P x) \<Longrightarrow> List.find P (map f xs) = map_option f (List.find P xs)"
  by (induction xs) auto

lemma guarded_mono:
  assumes "guarded desc k th old db"
    and "List.find (same_key (data_table desc) k) (suppression db') =
      List.find (same_key (data_table desc) k) (suppression db)"
    and "List.find (pk_match desc [k]) (synced db' (data_table desc)) =
      List.find (pk_match desc [k]) (synced db (data_table desc))"
    and "\<And>r. r \<in> set (synced db' (data_table desc)) \<Longrightarrow> pk_match desc [k] r \<Longrightarrow>
      r \<in> set (synced db (data_table desc))"
  shows "guarded desc k th old db'"
  using assms unfolding guarded_def by metis

lemma effect_guarded:
  assumes desc: "plain_table desc" and pkv: "pk_values desc row = Inr ks"
    and sup: "tombstone_suppresses (data_table desc) (tombstone_key desc ks) (stamp h) db = (False, db1)"
    and eff: "row_effect env desc ks row h db1 db'"
    and guard: "guarded desc k th old db"
  shows "guarded desc k th old db'"
proof -
  let ?T = "data_table desc"
  obtain p where p: "pk desc = Simple p"
    using desc by (auto simp: plain_table_def split: PrimaryKey.splits)
  obtain k' where ks: "ks = [k']" and key: "tombstone_key desc ks = k'"
    using pkv p by (auto simp: pk_values_def tombstone_key_def split: sum.splits)
  have syn1: "synced db1 = synced db" by (rule suppresses_other(1) [OF sup])
  have mode: "mode desc = AppendOnly \<or> mode desc = LastWriteWins"
    using desc by (simp add: plain_table_def)
  note match = pk_match_simple [OF p]
  note keep = text_cell_update [OF p]
  have sup': "suppression db' = suppression db1" by (rule effect_suppression [OF eff])
  show ?thesis
  proof (cases "k' = k")
    case False
    have same: "List.find (same_key ?T k) (suppression db') = List.find (same_key ?T k) (suppression db)"
      using suppresses_other(2) [OF sup [unfolded key], of ?T k] False sup' by simp
    from eff show ?thesis
    proof (cases rule: row_effect.cases)
      case (inserted vs)
      have "map_of vs p = Some (BText k')" using plain_key [OF desc pkv inserted(3)] p ks by auto
      then have no: "\<not> pk_match desc [k] \<lparr>rowid = n, row_cols = vs, row_hlc = h\<rparr>" for n
        using False by (simp add: match text_cell_def)
      then have "List.find (pk_match desc [k]) (rs @ [\<lparr>rowid = n, row_cols = vs, row_hlc = h\<rparr>]) =
          List.find (pk_match desc [k]) rs" for rs n
        by (intro find_append_other) simp
      then show ?thesis
        using guarded_mono [OF guard same] no unfolding inserted(1) by (auto simp: set_table_def syn1)
    next
      case (updated loc vs hit new)
      let ?u = "\<lambda>r. if hit r then r\<lparr>row_cols := set_cols new (row_cols r), row_hlc := h\<rparr> else r"
      have hit: "hit = pk_match desc [k']" using updated(6) p ks by simp
      have pm: "pk_match desc [k] (?u r) = pk_match desc [k] r" for r
        using keep by (auto simp: match updated(7))
      have id: "?u r = r" if "pk_match desc [k] r" for r
        using that False by (auto simp: hit match)
      have finds: "List.find (pk_match desc [k]) (map ?u rs) = List.find (pk_match desc [k]) rs" for rs
        using id by (auto simp: find_map_same pm find_Some_iff dest: find_SomeD
            intro!: option.map_ident_strong)
      have subset: "r \<in> set rs" if r: "r \<in> set (map ?u rs)" and rm: "pk_match desc [k] r" for r rs
      proof -
        obtain y where y: "y \<in> set rs" "r = ?u y" using r unfolding set_map by (rule imageE)
        then have "pk_match desc [k] y" using rm pm [of y] by (simp only:)
        then show ?thesis using y id [of y] by (simp only:)
      qed
      have syn: "synced db' ?T = map ?u (synced db ?T)"
        unfolding updated(1) by (simp add: set_table_def syn1)
      show ?thesis
        by (rule guarded_mono [OF guard same]) (unfold syn, rule finds, rule subset)
    next
      case kept
      then show ?thesis using guard same syn1 sup' by (simp add: guarded_def)
    qed
  next
    case True
    have strong: "th < stamp h \<or>
        (\<exists>r. List.find (pk_match desc [k]) (synced db ?T) = Some r \<and>
           (mode desc = AppendOnly \<or> th < stamp (row_hlc r)))"
      using guard sup unfolding guarded_def key True
      by (auto simp: tombstone_suppresses_def split: if_splits)
    have rows: "\<forall>r \<in> set (synced db ?T). pk_match desc [k] r \<longrightarrow> r \<in> old \<or> th < stamp (row_hlc r)"
      using guard by (simp add: guarded_def)
    from eff show ?thesis
    proof (cases rule: row_effect.cases)
      case (inserted vs)
      have none: "List.find (pk_match desc [k]) (synced db ?T) = None"
        using inserted(2) ks True by (simp add: find_ex syn1)
      have "map_of vs p = Some (BText k)" using plain_key [OF desc pkv inserted(3)] p ks True by auto
      then show ?thesis
        using strong none rows unfolding guarded_def inserted(1)
        by (auto simp: set_table_def syn1 find_append match text_cell_def)
    next
      case (updated loc vs hit new)
      let ?u = "\<lambda>r. if hit r then r\<lparr>row_cols := set_cols new (row_cols r), row_hlc := h\<rparr> else r"
      have hit: "hit = pk_match desc [k]" using updated(6) p ks True by simp
      have pm: "pk_match desc [k] (?u r) = pk_match desc [k] r" for r
        using keep by (auto simp: match updated(7))
      have loc: "List.find (pk_match desc [k]) (synced db ?T) = Some loc"
        using updated(2) ks True by (simp add: select_local_match_def syn1)
      have later: "th < stamp h"
        using strong loc updated(3,4) mode is_after_stamp(1) [of h "row_hlc loc"] by auto
      have "List.find (pk_match desc [k]) (map ?u (synced db ?T)) = Some (?u loc)"
        using loc by (simp add: find_map_same pm)
      moreover have "stamp (row_hlc (?u loc)) = stamp h"
        using find_SomeD [OF loc] hit by simp
      ultimately show ?thesis
        using later unfolding guarded_def updated(1)
        by (auto simp: set_table_def syn1 hit)
    next
      case kept
      have "\<exists>r. List.find (pk_match desc [k]) (synced db ?T) = Some r \<and>
          (mode desc = AppendOnly \<or> th < stamp (row_hlc r))"
        using strong kept(2) plain_bind [OF desc] ks True mode is_after_stamp(2) [of h]
          find_ex [of "pk_match desc [k]" "synced db ?T"]
        by (auto simp: select_local_match_def syn1 order.strict_trans2)
      then show ?thesis
        using rows syn1 sup' unfolding guarded_def kept(1) by simp
    qed
  qed
qed

lemma distinct_tables: "distinct (map data_table SYNC_TABLES)"
  by (simp add: SYNC_TABLES_def descriptor_defs)

lemma merge_row_guarded:
  assumes step: "merge_row env d row (db, res) = Inr (db', res')"
    and d: "d \<in> set SYNC_TABLES" and desc: "plain_table desc" "desc \<in> set SYNC_TABLES"
    and guard: "guarded desc k th old db"
  shows "guarded desc k th old db'"
  using step
proof (cases rule: merge_row_cases)
  case skipped
  then show ?thesis using guard by simp
next
  case (merged ks h db1)
  show ?thesis
  proof (cases "d = desc")
    case True
    then show ?thesis using merged effect_guarded desc(1) guard by blast
  next
    case False
    then have other: "data_table d \<noteq> data_table desc"
      using distinct_key_eq [OF distinct_tables d desc(2)] by blast
    show ?thesis
      using guard effect_suppression [OF merged(4)] effect_other_table [OF merged(4) other [symmetric]]
        suppresses_other(1) [OF merged(3)] suppresses_other(2) [OF merged(3), of "data_table desc" k] other
      by (simp add: guarded_def)
  qed
qed

lemma try_fold_inv:
  assumes "try_fold f xs s = Inr s'" and "P s"
    and "\<And>x s s'. x \<in> set xs \<Longrightarrow> P s \<Longrightarrow> f x s = Inr s' \<Longrightarrow> P s'"
  shows "P s'"
  using assms
proof (induction xs arbitrary: s)
  case (Cons x xs)
  then obtain s1 where "f x s = Inr s1" "try_fold f xs s1 = Inr s'" by (auto split: sum.splits)
  with Cons show ?case by (meson list.set_intros)
qed simp

lemma try_fold_append:
  "try_fold f (xs @ ys) s = (case try_fold f xs s of Inl e \<Rightarrow> Inl e | Inr s' \<Rightarrow> try_fold f ys s')"
  by (induction xs arbitrary: s) (auto split: sum.splits)

lemma changeset_rows_tables: "(d, row) \<in> set (changeset_rows cs) \<Longrightarrow> d \<in> set SYNC_TABLES"
  by (auto simp: changeset_rows_def SYNC_TABLES_def)

text \<open>Recording a tombstone leaves its key with a tombstone at least as high.\<close>

lemma same_key_self [simp]: "same_key (t_table t) (t_row_id t) t"
  by (simp add: same_key_def)

lemma find_replace:
  "P t \<Longrightarrow> List.find P ts = Some x \<Longrightarrow> List.find P (map (\<lambda>x. if P x then t else x) ts) = Some t"
  by (induction ts) (auto split: if_splits)

lemma find_record_tombstone:
  "\<exists>t'. List.find (same_key (t_table t) (t_row_id t)) (record_tombstone t ts) = Some t' \<and>
     t_stamp t \<le> t_stamp t'"
proof (cases "List.find (same_key (t_table t) (t_row_id t)) ts")
  case None
  then show ?thesis by (auto simp: record_tombstone_def find_append same_key_def)
next
  case (Some old)
  then show ?thesis
    using find_replace [OF _ Some, of t] by (auto simp: record_tombstone_def not_less)
qed

lemma find_record_other:
  assumes "table \<noteq> t_table t \<or> k \<noteq> t_row_id t"
  shows "List.find (same_key table k) (record_tombstone t ts) = List.find (same_key table k) ts"
proof -
  have "List.find (same_key table k) (map (\<lambda>x. if same_key (t_table t) (t_row_id t) x then t else x) ts)
      = List.find (same_key table k) ts" for ts
    using assms by (induction ts) (auto simp: same_key_def)
  then show ?thesis
    using assms by (auto simp: record_tombstone_def find_append same_key_def split: option.splits)
qed

lemma find_record_mono:
  assumes "List.find (same_key table k) ts = Some x"
  shows "\<exists>y. List.find (same_key table k) (record_tombstone t ts) = Some y \<and> t_stamp x \<le> t_stamp y"
proof (cases "table = t_table t \<and> k = t_row_id t")
  case True
  then show ?thesis
    using find_replace [OF _ assms, of t] assms by (auto simp: record_tombstone_def less_imp_le)
next
  case False
  then show ?thesis using assms by (auto simp: find_record_other)
qed

lemma tombstone_pk_col_plain:
  assumes "plain_table desc" and "desc \<in> set SYNC_TABLES" and "pk desc = Simple p"
  shows "tombstone_pk_col (data_table desc) = Some p" and "data_table desc \<noteq> ''embedding_vectors''"
proof -
  have "List.find (\<lambda>d. data_table d = data_table desc) SYNC_TABLES = Some desc"
    using find_unique_key [OF distinct_tables assms(2)] .
  then show "tombstone_pk_col (data_table desc) = Some p"
    using assms(3) by (simp add: tombstone_pk_col_def)
  have "EMBEDDING_VECTORS \<in> set SYNC_TABLES" by (simp add: SYNC_TABLES_def)
  moreover have "\<not> plain_table EMBEDDING_VECTORS" by (simp add: plain_table_def EMBEDDING_VECTORS_def)
  ultimately have "data_table desc \<noteq> data_table EMBEDDING_VECTORS"
    using distinct_key_eq [OF distinct_tables assms(2)] assms(1) by blast
  then show "data_table desc \<noteq> ''embedding_vectors''" by (simp add: EMBEDDING_VECTORS_def)
qed

lemma apply_tombstone_rows:
  assumes "apply_tombstone t (db, res) = Inr (db', res')"
  shows "set (synced db' table) \<subseteq> set (synced db table)"
    and "List.find (same_key table k) (suppression db) = Some x \<Longrightarrow>
      \<exists>y. List.find (same_key table k) (suppression db') = Some y \<and> t_stamp x \<le> t_stamp y"
  using assms find_record_mono
  by (auto simp: apply_tombstone_def finish_stmt_Inr set_table_def Let_def
      split: option.splits sum.splits if_splits prod.splits)

lemma apply_tombstone_erases:
  assumes op: "apply_tombstone t (db, res) = Inr (db', res')"
    and desc: "plain_table desc" "desc \<in> set SYNC_TABLES" and t: "t_table t = data_table desc"
  shows "\<forall>r \<in> set (synced db' (data_table desc)).
      pk_match desc [t_row_id t] r \<longrightarrow> origin_of r \<noteq> t_origin t"
    and "\<exists>x. List.find (same_key (data_table desc) (t_row_id t)) (suppression db') = Some x \<and>
      t_stamp t \<le> t_stamp x"
proof -
  obtain p where p: "pk desc = Simple p"
    using desc(1) by (auto simp: plain_table_def split: PrimaryKey.splits)
  note facts = tombstone_pk_col_plain [OF desc p] pk_match_simple [OF p]
  show "\<forall>r \<in> set (synced db' (data_table desc)).
      pk_match desc [t_row_id t] r \<longrightarrow> origin_of r \<noteq> t_origin t"
    using op t facts
    by (auto simp: apply_tombstone_def finish_stmt_Inr set_table_def Let_def
        split: sum.splits if_splits)
  show "\<exists>x. List.find (same_key (data_table desc) (t_row_id t)) (suppression db') = Some x \<and>
      t_stamp t \<le> t_stamp x"
    using op t facts find_record_tombstone [of t]
    by (auto simp: apply_tombstone_def finish_stmt_Inr set_table_def Let_def
        split: sum.splits if_splits)
qed

text \<open>The tombstone loop leaves each accepted tombstone in force.\<close>

lemma tombstone_loop_guards:
  assumes run: "try_fold (tombstone_guarded env local) ts (db, res) = Inr (db1, res1)"
    and t: "t \<in> set ts" "\<not> tombstone_rejected env local t"
    and desc: "plain_table desc" "desc \<in> set SYNC_TABLES" "t_table t = data_table desc"
  shows "guarded desc (t_row_id t) (t_stamp t)
    {r \<in> set (synced db (data_table desc)). origin_of r \<noteq> t_origin t} db1"
proof -
  let ?T = "data_table desc"
  let ?sub = "\<lambda>st. set (synced (fst st) ?T) \<subseteq> set (synced db ?T)"
  let ?done = "\<lambda>st. ?sub st \<and>
      (\<forall>r \<in> set (synced (fst st) ?T). pk_match desc [t_row_id t] r \<longrightarrow> origin_of r \<noteq> t_origin t) \<and>
      (\<exists>x. List.find (same_key ?T (t_row_id t)) (suppression (fst st)) = Some x \<and> t_stamp t \<le> t_stamp x)"
  obtain us vs where ts: "ts = us @ t # vs" using split_list [OF t(1)] by blast
  then obtain sa sb where a: "try_fold (tombstone_guarded env local) us (db, res) = Inr sa"
    and b: "apply_tombstone t sa = Inr sb"
    and c: "try_fold (tombstone_guarded env local) vs sb = Inr (db1, res1)"
    using run t(2) by (auto simp: try_fold_append tombstone_guarded_def split: sum.splits)
  have sub: "?sub s'" if "?sub s" "tombstone_guarded env local x s = Inr s'" for x s s'
    using that apply_tombstone_rows(1) [of x "fst s" "snd s" "fst s'" "snd s'" ?T]
    by (auto simp: tombstone_guarded_def split: if_splits)
  have "?sub sa" by (rule try_fold_inv [OF a]) (use sub in auto)
  moreover have "?sub sb" using sub [OF \<open>?sub sa\<close>, of t sb] b t(2) by (simp add: tombstone_guarded_def)
  ultimately have "?done sb"
    using apply_tombstone_erases [of t "fst sa" "snd sa" "fst sb" "snd sb"] b desc by simp
  moreover have "?done s'" if "?done s" "tombstone_guarded env local x s = Inr s'" for x s s'
  proof (cases "tombstone_rejected env local x")
    case True
    then show ?thesis using that by (simp add: tombstone_guarded_def)
  next
    case False
    then have "apply_tombstone x (fst s, snd s) = Inr (fst s', snd s')"
      using that(2) by (simp add: tombstone_guarded_def)
    from apply_tombstone_rows [OF this, of ?T] that(1) sub [OF _ that(2)] show ?thesis
      by (meson order.trans subsetD)
  qed
  ultimately have "?done (db1, res1)" by (rule try_fold_inv [OF c])
  then show ?thesis by (auto simp: guarded_def)
qed

lemma merge_loop_guarded:
  assumes run: "try_fold (merge_guarded env) rows (db1, res1) = Inr (db2, res2)"
    and tables: "\<And>d row. (d, row) \<in> set rows \<Longrightarrow> d \<in> set SYNC_TABLES"
    and desc: "plain_table desc" "desc \<in> set SYNC_TABLES"
    and guard: "guarded desc k th old db1"
  shows "guarded desc k th old db2"
proof -
  have "guarded desc k th old (fst (db2, res2))"
  proof (rule try_fold_inv [OF run])
    show "guarded desc k th old (fst (db1, res1))" using guard by simp
  next
    fix x s s'
    assume x: "x \<in> set rows" and s: "guarded desc k th old (fst s)"
      and step: "merge_guarded env x s = Inr s'"
    obtain d row where dr: "x = (d, row)" by fastforce
    show "guarded desc k th old (fst s')"
    proof (cases "hlc_drift_rejected env row")
      case True
      then show ?thesis using step s dr by (simp add: merge_guarded_def)
    next
      case False
      then have "merge_row env d row (fst s, snd s) = Inr (fst s', snd s')"
        using step dr by (simp add: merge_guarded_def)
      then show ?thesis using merge_row_guarded tables x dr desc s by blast
    qed
  qed
  then show ?thesis by simp
qed

lemma apply_data_runs:
  assumes "apply_data env local cs db = Inr (db', res)"
  obtains st1 db2 res2 where
    "try_fold (tombstone_guarded env local) (tombstones cs) (db, sync_result_default) = Inr st1"
    "try_fold (merge_guarded env) (changeset_rows cs) st1 = Inr (db2, res2)"
    "synced db' = synced db2" "suppression db' = suppression db2"
  using assms by (auto simp: apply_data_def split: sum.splits if_splits)

lemma apply_locked_data:
  assumes "apply_locked env local cs db = (Inr res, db')" and "kind cs = Data" and "cs_origin cs \<noteq> local"
  shows "apply_data env local cs db = Inr (db', res)"
  using assms by (auto simp: apply_locked_def Let_def split: sum.splits)

text \<open> C5. An erased row is not resurrected by the changeset that carries its tombstone, nor does an
  older copy survive it: after a data changeset was merged, every row with the key of an accepted
  tombstone, in a table without blobs and status tiebreak, is later than the tombstone, unless it
  was there before and belongs to another device than the one that erased.\<close>

theorem merged_tombstone_is_final:
  assumes merged: "apply_locked env local cs db = (Inr res, db')"
    and data: "kind cs = Data" "cs_origin cs \<noteq> local"
    and t: "t \<in> set (tombstones cs)" "\<not> tombstone_rejected env local t"
    and desc: "desc \<in> {ACTIVITY_SEGMENTS, REGIMES, REGIME_OVERRIDES, TRIGGER_PARAMS_SNAPSHOTS}"
      "t_table t = data_table desc"
    and r: "r \<in> set (synced db' (data_table desc))" "pk_match desc [t_row_id t] r"
  shows "t_stamp t < stamp (row_hlc r) \<or>
    r \<in> set (synced db (data_table desc)) \<and> origin_of r \<noteq> t_origin t"
proof -
  have plain: "plain_table desc" "desc \<in> set SYNC_TABLES"
    using desc(1) by (auto simp: SYNC_TABLES_def)
  obtain st1 db2 res2 where
    tombs: "try_fold (tombstone_guarded env local) (tombstones cs) (db, sync_result_default) = Inr st1"
    and rows: "try_fold (merge_guarded env) (changeset_rows cs) st1 = Inr (db2, res2)"
    and db': "synced db' = synced db2"
    using apply_data_runs [OF apply_locked_data [OF merged data]] by metis
  obtain db1 res1 where st1: "st1 = (db1, res1)" by fastforce
  have "guarded desc (t_row_id t) (t_stamp t)
      {r \<in> set (synced db (data_table desc)). origin_of r \<noteq> t_origin t} db2"
    by (rule merge_loop_guarded [OF rows [unfolded st1] _ plain
          tombstone_loop_guards [OF tombs [unfolded st1] t plain desc(2)]])
      (rule changeset_rows_tables)
  then show ?thesis using r unfolding guarded_def db' by blast
qed

text \<open>Evaluation of the merger on concrete changesets.\<close>

lemmas sync_eval =
  apply_locked_def apply_data_def handle_deletion_event_def deletion_bound_def changeset_rows_def
  merge_guarded_def merge_row_def merge_append_only_def merge_last_write_wins_def bind_and_insert_def
  insert_row_def update_row_def set_cols_def finish_stmt_def fk_ok_def FOREIGN_KEYS_def not_null_ok_def
  NOT_NULL_def select_local_match_def remote_wins_def local_ordinal_def ordinal_def pk_match_def
  pk_values_def bind_all_columns_def extract_col_def json_str_def json_str_opt_def json_i64_def
  json_f64_def json_str_or_default_def json_i64_or_default_def json_u64_def extract_hlc_def
  extract_hlc_counter_def hlc_drift_rejected_def tombstone_guarded_def tombstone_rejected_def
  apply_tombstone_def tombstone_suppresses_def record_tombstone_def same_key_def tombstone_key_def
  tombstone_pk_col_def split_once_def excluded_from_update_def text_cell_def set_table_def
  upsert_peer_def bump_applied_def bump_dup_def bump_lww_def sync_result_default_def
  wall_ms_within_drift_bound_def saturating_add_def MAX_CLOCK_DRIFT_MS_def fits_i64_def stamp_def
  t_stamp_def is_after_def less_Hlc_def less_eq_prod_def less_prod_def' SYNC_TABLES_def EMB_KEY_SEP_def
  erase_table_def in_scope_def stored_key_def row_tombstone_def Let_def descriptor_defs

definition snapshot_json :: "string \<Rightarrow> int \<Rightarrow> string \<Rightarrow> json" where
  "snapshot_json i wall dev =
     JObj [(''id'', JStr i), (''created_at'', JStr ''t''), (''preset'', JStr ''p''),
           (''params_json'', JStr ''{}''), (''hlc_wall_ms'', JInt wall), (''hlc_counter'', JInt 0),
           (''origin_device_id'', JStr dev)]"

definition empty_db :: sync_db where
  "empty_db = \<lparr>synced = (\<lambda>_. []), suppression = [], sync_peers = [], next_rowid = 1\<rparr>"

definition empty_changes :: "string \<Rightarrow> ChangeSet" where
  "empty_changes origin =
     \<lparr>kind = Data, cs_origin = origin, cs_origin_name = ''peer'', watermark = Hlc 9 0 origin,
      segments = [], regimes = [], overrides = [], embeddings = [], suggestions = [],
      param_snapshots = [], preferences = [], tombstones = []\<rparr>"

definition sync_sample :: sync_env where
  "sync_sample = \<lparr>hex_decode = (\<lambda>s. if s = ''00'' then Some [0] else None), now_ms = 100, sql_now = ''now''\<rparr>"

definition snapshot_row :: "nat \<Rightarrow> string \<Rightarrow> u64 \<Rightarrow> string \<Rightarrow> SyncRow" where
  "snapshot_row n i wall dev =
     \<lparr>rowid = n, row_cols = [(''id'', BText i), (''created_at'', BText ''t''), (''preset'', BText ''p''),
        (''params_json'', BText ''{}'')], row_hlc = Hlc wall 0 dev\<rparr>"

theorem merged_tombstone_is_final_witness:
  "let t = \<lparr>t_table = ''trigger_params_snapshots'', t_row_id = ''p1'', t_origin = ''B'', t_wall = 5,
            t_counter = 0, t_deleted_at = ''d''\<rparr>;
       cs = (empty_changes ''B'')\<lparr>tombstones := [t],
              param_snapshots := [snapshot_json ''p1'' 3 ''B'', snapshot_json ''p1'' 9 ''B'']\<rparr>;
       db = set_table ''trigger_params_snapshots'' [snapshot_row 0 ''p1'' 2 ''B''] empty_db;
       db' = snd (apply_locked sync_sample ''A'' cs db)
   in synced db' ''trigger_params_snapshots'' = [snapshot_row 1 ''p1'' 9 ''B''] \<and>
      t_stamp t < stamp (row_hlc (snapshot_row 1 ''p1'' 9 ''B''))"
proof -
  let ?t = "\<lparr>t_table = ''trigger_params_snapshots'', t_row_id = ''p1'', t_origin = ''B'', t_wall = 5,
            t_counter = 0, t_deleted_at = ''d''\<rparr>"
  let ?cs = "(empty_changes ''B'')\<lparr>tombstones := [?t],
              param_snapshots := [snapshot_json ''p1'' 3 ''B'', snapshot_json ''p1'' 9 ''B'']\<rparr>"
  let ?db = "set_table ''trigger_params_snapshots'' [snapshot_row 0 ''p1'' 2 ''B''] empty_db"
  let ?out = "apply_locked sync_sample ''A'' ?cs ?db"
  have rows: "synced (snd ?out) ''trigger_params_snapshots'' = [snapshot_row 1 ''p1'' 9 ''B'']"
    and ok: "\<not> isl (fst ?out)"
    by (simp_all add: sync_eval empty_db_def empty_changes_def sync_sample_def snapshot_json_def snapshot_row_def)
  then obtain res where out: "?out = (Inr res, snd ?out)" by (metis isl_def prod.collapse sum.exhaust)
  have "t_stamp ?t < stamp (row_hlc (snapshot_row 1 ''p1'' 9 ''B'')) \<or>
      snapshot_row 1 ''p1'' 9 ''B'' \<in> set (synced ?db (data_table TRIGGER_PARAMS_SNAPSHOTS)) \<and>
      origin_of (snapshot_row 1 ''p1'' 9 ''B'') \<noteq> t_origin ?t"
  proof (rule merged_tombstone_is_final [OF out, of ?t TRIGGER_PARAMS_SNAPSHOTS])
    show "\<not> tombstone_rejected sync_sample ''A'' ?t"
      by (simp add: sync_eval sync_sample_def)
    show "snapshot_row 1 ''p1'' 9 ''B'' \<in> set (synced (snd ?out) (data_table TRIGGER_PARAMS_SNAPSHOTS))"
      using rows by (simp add: TRIGGER_PARAMS_SNAPSHOTS_def)
    show "pk_match TRIGGER_PARAMS_SNAPSHOTS [t_row_id ?t] (snapshot_row 1 ''p1'' 9 ''B'')"
      by (simp add: sync_eval snapshot_row_def)
  qed (simp_all add: empty_changes_def TRIGGER_PARAMS_SNAPSHOTS_def)
  moreover have "origin_of (snapshot_row 1 ''p1'' 9 ''B'') = t_origin ?t"
    by (simp add: snapshot_row_def)
  ultimately show ?thesis using rows by (simp only: Let_def) blast
qed

subsection \<open>Rows of this device\<close>

text \<open>What remains of a row: the row itself, or in a table with updates a row in its place.\<close>

definition kept_row :: "string \<Rightarrow> SyncRow \<Rightarrow> sync_db \<Rightarrow> bool" where
  "kept_row table r db \<longleftrightarrow>
     (\<exists>r' \<in> set (synced db table). rowid r' = rowid r \<and>
        (r' = r \<or> (\<exists>d \<in> set SYNC_TABLES. data_table d = table \<and> mode d \<noteq> AppendOnly)))"

lemma effect_kept:
  assumes "row_effect env d ks row h db db'" and "d \<in> set SYNC_TABLES" and "kept_row table r db"
  shows "kept_row table r db'"
proof (cases "table = data_table d")
  case False
  then show ?thesis using assms(3) effect_other_table [OF assms(1)] by (simp add: kept_row_def)
next
  case True
  from assms(1) show ?thesis
  proof (cases rule: row_effect.cases)
    case (inserted vs)
    then show ?thesis using assms(3) True by (auto simp: kept_row_def set_table_def)
  next
    case (updated loc vs hit new)
    obtain r' where r': "r' \<in> set (synced db table)" "rowid r' = rowid r"
      using assms(3) by (auto simp: kept_row_def)
    let ?u = "\<lambda>r. if hit r then r\<lparr>row_cols := set_cols new (row_cols r), row_hlc := h\<rparr> else r"
    have "?u r' \<in> set (synced db' table)" "rowid (?u r') = rowid r"
      using r' True unfolding updated(1) by (simp_all add: set_table_def)
    then show ?thesis using assms(2) True updated(3) unfolding kept_row_def by metis
  next
    case kept
    then show ?thesis using assms(3) by simp
  qed
qed

lemma merge_row_kept:
  assumes "merge_row env d row (db, res) = Inr (db', res')" and "d \<in> set SYNC_TABLES"
    and "kept_row table r db"
  shows "kept_row table r db'"
  using assms(1)
proof (cases rule: merge_row_cases)
  case (merged ks h db1)
  have "kept_row table r db1"
    using assms(3) suppresses_other(1) [OF merged(3)] by (simp add: kept_row_def)
  then show ?thesis by (rule effect_kept [OF merged(4) assms(2)])
qed (use assms in simp)

lemma apply_tombstone_spares:
  assumes "apply_tombstone t (db, res) = Inr (db', res')" and "r \<in> set (synced db table)"
    and "origin_of r \<noteq> t_origin t"
  shows "r \<in> set (synced db' table)"
  using assms
  by (auto simp: apply_tombstone_def finish_stmt_Inr set_table_def Let_def
      split: option.splits sum.splits if_splits prod.splits)

lemma apply_data_keeps_local:
  assumes run: "apply_data env local cs db = Inr (db', res)"
    and r: "r \<in> set (synced db table)" "origin_of r = local"
  shows "kept_row table r db'"
proof -
  obtain st1 db2 res2 where
    tombs: "try_fold (tombstone_guarded env local) (tombstones cs) (db, sync_result_default) = Inr st1"
    and rows: "try_fold (merge_guarded env) (changeset_rows cs) st1 = Inr (db2, res2)"
    and db': "synced db' = synced db2"
    using apply_data_runs [OF run] by metis
  have "r \<in> set (synced (fst st1) table)"
  proof (rule try_fold_inv [OF tombs])
    fix x s s'
    assume "r \<in> set (synced (fst s) table)" "tombstone_guarded env local x s = Inr s'"
    then show "r \<in> set (synced (fst s') table)"
      using apply_tombstone_spares [of x "fst s" "snd s" "fst s'" "snd s'"] r(2)
      by (auto simp: tombstone_guarded_def tombstone_rejected_def split: if_splits)
  qed (use r in simp)
  then have start: "kept_row table r (fst st1)" by (auto simp: kept_row_def)
  have "kept_row table r (fst (db2, res2))"
  proof (rule try_fold_inv [OF rows])
    fix x s s'
    assume x: "x \<in> set (changeset_rows cs)" and s: "kept_row table r (fst s)"
      and step: "merge_guarded env x s = Inr s'"
    obtain d row where dr: "x = (d, row)" by fastforce
    show "kept_row table r (fst s')"
    proof (cases "hlc_drift_rejected env row")
      case True
      then show ?thesis using step s dr by (simp add: merge_guarded_def)
    next
      case False
      then have "merge_row env d row (fst s, snd s) = Inr (fst s', snd s')"
        using step dr by (simp add: merge_guarded_def)
      then show ?thesis using merge_row_kept changeset_rows_tables x dr s by blast
    qed
  qed (rule start)
  then show ?thesis by (simp add: kept_row_def db')
qed

lemma erase_table_rows:
  assumes "erase_table env origin bound d db = (out, db')"
  shows "r \<in> set (synced db table) \<Longrightarrow> origin_of r \<noteq> origin \<Longrightarrow> r \<in> set (synced db' table)"
  using assms
  by (auto simp: erase_table_def finish_stmt_def set_table_def in_scope_def Let_def split: if_splits)

lemma erase_tables_rows:
  "erase_tables env origin bound ds n db = (out, db') \<Longrightarrow> r \<in> set (synced db table) \<Longrightarrow>
     origin_of r \<noteq> origin \<Longrightarrow> r \<in> set (synced db' table)"
proof (induction ds arbitrary: n db)
  case (Cons d ds)
  obtain o1 db1 where one: "erase_table env origin bound d db = (o1, db1)" by fastforce
  have "r \<in> set (synced db1 table)" by (rule erase_table_rows [OF one Cons.prems(2,3)])
  with Cons one show ?case by (cases o1) auto
qed simp

text \<open> C10. Whatever changeset arrives, data or deletion event, genuine or forged, applied or failing half
  way, no row that this device authored is removed: an append-only row stays as it is, and in the
  other tables a row remains in its place.\<close>

theorem remote_never_deletes_local_rows:
  assumes "apply_locked env local cs db = (out, db')"
    and "r \<in> set (synced db table)" and "origin_of r = local"
  shows "kept_row table r db'"
proof -
  have here: "kept_row table r db" using assms(2) by (auto simp: kept_row_def)
  consider "cs_origin cs = local" | "cs_origin cs \<noteq> local" "kind cs = DeletionEvent"
    | "cs_origin cs \<noteq> local" "kind cs = Data"
    by (cases "kind cs") auto
  then show ?thesis
  proof cases
    case 1
    then show ?thesis using assms(1) here by (simp add: apply_locked_def)
  next
    case 2
    obtain o1 where "handle_deletion_event env (cs_origin cs) (deletion_bound (watermark cs)) db = (o1, db')"
      using assms(1) 2 by (auto simp: apply_locked_def Let_def split: sum.splits prod.splits)
    then have "r \<in> set (synced db' table)"
      using erase_tables_rows assms(2,3) 2(1) by (auto simp: handle_deletion_event_def)
    then show ?thesis by (auto simp: kept_row_def)
  next
    case 3
    show ?thesis
    proof (cases "apply_data env local cs db")
      case (Inl e)
      then show ?thesis using assms(1) 3 here by (simp add: apply_locked_def)
    next
      case (Inr p)
      then have "apply_data env local cs db = Inr (db', snd p)"
        using assms(1) 3 by (auto simp: apply_locked_def split: prod.splits)
      then show ?thesis by (rule apply_data_keeps_local [OF _ assms(2,3)])
    qed
  qed
qed

theorem remote_never_deletes_local_rows_witness:
  "let t = \<lparr>t_table = ''trigger_params_snapshots'', t_row_id = ''p1'', t_origin = ''A'', t_wall = 5,
            t_counter = 0, t_deleted_at = ''d''\<rparr>;
       mine = snapshot_row 0 ''p1'' 2 ''A'';
       cs = (empty_changes ''B'')\<lparr>tombstones := [t], param_snapshots := [snapshot_json ''p1'' 9 ''B'']\<rparr>;
       db = set_table ''trigger_params_snapshots'' [mine] empty_db
   in kept_row ''trigger_params_snapshots'' mine (snd (apply_locked sync_sample ''A'' cs db)) \<and>
      synced (snd (apply_locked sync_sample ''A'' cs db)) ''trigger_params_snapshots'' = [mine]"
proof -
  let ?t = "\<lparr>t_table = ''trigger_params_snapshots'', t_row_id = ''p1'', t_origin = ''A'', t_wall = 5,
            t_counter = 0, t_deleted_at = ''d''\<rparr>"
  let ?mine = "snapshot_row 0 ''p1'' 2 ''A''"
  let ?cs = "(empty_changes ''B'')\<lparr>tombstones := [?t], param_snapshots := [snapshot_json ''p1'' 9 ''B'']\<rparr>"
  let ?db = "set_table ''trigger_params_snapshots'' [?mine] empty_db"
  let ?out = "apply_locked sync_sample ''A'' ?cs ?db"
  have "kept_row ''trigger_params_snapshots'' ?mine (snd ?out)"
    by (rule remote_never_deletes_local_rows [OF prod.collapse [symmetric]])
      (simp_all add: set_table_def snapshot_row_def)
  moreover have "synced (snd ?out) ''trigger_params_snapshots'' = [?mine]"
    by (simp add: sync_eval empty_db_def empty_changes_def sync_sample_def snapshot_json_def snapshot_row_def)
  ultimately show ?thesis by (simp only: Let_def)
qed

subsection \<open>Deletion events\<close>

lemma foldl_record_mono:
  assumes "List.find (same_key table k) ts = Some x"
  shows "\<exists>y. List.find (same_key table k) (foldl (\<lambda>ts r. record_tombstone (f r) ts) ts rs) = Some y
    \<and> t_stamp x \<le> t_stamp y"
  using assms
proof (induction rs arbitrary: ts x)
  case (Cons r rs)
  obtain y where "List.find (same_key table k) (record_tombstone (f r) ts) = Some y" "t_stamp x \<le> t_stamp y"
    using find_record_mono [OF Cons.prems] by blast
  with Cons.IH show ?case by (fastforce dest: order.trans)
qed simp

lemma foldl_record_covers:
  assumes "r \<in> set rs"
  shows "\<exists>y. List.find (same_key (t_table (f r)) (t_row_id (f r)))
      (foldl (\<lambda>ts r. record_tombstone (f r) ts) ts rs) = Some y \<and> t_stamp (f r) \<le> t_stamp y"
  using assms
proof (induction rs arbitrary: ts)
  case (Cons q rs)
  show ?case
  proof (cases "r \<in> set rs")
    case True
    then show ?thesis using Cons.IH by simp
  next
    case False
    then have "r = q" using Cons.prems by simp
    obtain x where x: "List.find (same_key (t_table (f r)) (t_row_id (f r))) (record_tombstone (f r) ts) = Some x"
      "t_stamp (f r) \<le> t_stamp x" using find_record_tombstone by blast
    show ?thesis
      using foldl_record_mono [OF x(1), of f rs] x(2) \<open>r = q\<close> by (auto dest: order.trans)
  qed
qed simp

definition covered :: "TableDescriptor \<Rightarrow> SyncRow \<Rightarrow> sync_db \<Rightarrow> bool" where
  "covered d r db \<longleftrightarrow>
     (\<exists>y. List.find (same_key (data_table d) (stored_key d r)) (suppression db) = Some y
        \<and> stamp (row_hlc r) \<le> t_stamp y)"

lemma erase_table_ok:
  assumes "erase_table env origin bound d db = (Inr n, db')"
  shows "synced db' = (synced db)(data_table d :=
      filter (Not \<circ> in_scope origin bound) (synced db (data_table d)))"
    and "n = length (filter (in_scope origin bound) (synced db (data_table d)))"
    and "r \<in> set (synced db (data_table d)) \<Longrightarrow> in_scope origin bound r \<Longrightarrow> covered d r db'"
    and "covered d' r' db \<Longrightarrow> covered d' r' db'"
proof -
  let ?doomed = "filter (in_scope origin bound) (synced db (data_table d))"
  have db': "db' = set_table (data_table d) (filter (Not \<circ> in_scope origin bound) (synced db (data_table d)))
      (db\<lparr>suppression := foldl (\<lambda>ts r. record_tombstone (row_tombstone env d r) ts) (suppression db) ?doomed\<rparr>)"
    and n: "n = length ?doomed"
    using assms by (auto simp: erase_table_def finish_stmt_def Let_def split: if_splits)
  show "synced db' = (synced db)(data_table d :=
      filter (Not \<circ> in_scope origin bound) (synced db (data_table d)))" and "n = length ?doomed"
    using db' n by (simp_all add: set_table_def)
  show "covered d r db'" if "r \<in> set (synced db (data_table d))" "in_scope origin bound r"
    using foldl_record_covers [of r ?doomed "row_tombstone env d"] that
    by (simp add: covered_def db' set_table_def row_tombstone_def t_stamp_def stamp_def)
  show "covered d' r' db'" if "covered d' r' db"
    using that foldl_record_mono [of "data_table d'" "stored_key d' r'" "suppression db" _
        "row_tombstone env d" ?doomed]
    by (fastforce simp: covered_def db' set_table_def dest: order.trans)
qed

lemma distinct_tail: "distinct (map f (x # xs)) \<Longrightarrow> distinct (map f xs)"
  by simp

lemma erase_tables_ok:
  assumes "erase_tables env origin bound ds n db = (Inr m, db')" and "distinct (map data_table ds)"
  shows "synced db' = (\<lambda>t. if t \<in> data_table ` set ds
      then filter (Not \<circ> in_scope origin bound) (synced db t) else synced db t) \<and>
    m = n + sum_list (map (\<lambda>d. length (filter (in_scope origin bound) (synced db (data_table d)))) ds) \<and>
    (\<forall>d r. covered d r db \<longrightarrow> covered d r db') \<and>
    (\<forall>d \<in> set ds. \<forall>r \<in> set (synced db (data_table d)). in_scope origin bound r \<longrightarrow> covered d r db')"
  using assms
proof (induction ds arbitrary: n db)
  case (Cons d ds)
  obtain k db1 where one: "erase_table env origin bound d db = (Inr k, db1)"
    and rest: "erase_tables env origin bound ds (n + k) db1 = (Inr m, db')"
    using Cons.prems(1) by (auto split: prod.splits sum.splits)
  note ok = erase_table_ok [OF one]
  have other: "synced db1 (data_table x) = synced db (data_table x)" if "x \<in> set ds" for x
    using ok(1) Cons.prems(2) that by (auto simp: image_iff)
  then have sums: "map (\<lambda>d. length (filter (in_scope origin bound) (synced db1 (data_table d)))) ds =
      map (\<lambda>d. length (filter (in_scope origin bound) (synced db (data_table d)))) ds" by simp
  note IH = Cons.IH [OF rest distinct_tail [OF Cons.prems(2)]]
  have "synced db' t = (if t \<in> data_table ` set (d # ds)
      then filter (Not \<circ> in_scope origin bound) (synced db t) else synced db t)" for t
    using IH ok(1) Cons.prems(2) by (auto simp: image_iff)
  moreover have "m = n + sum_list (map (\<lambda>d. length (filter (in_scope origin bound)
      (synced db (data_table d)))) (d # ds))"
    using IH ok(2) sums by simp
  moreover have "covered x r db \<longrightarrow> covered x r db'" for x r
    using IH ok(4) by blast
  moreover have "covered x r db'"
    if "x \<in> set (d # ds)" "r \<in> set (synced db (data_table x))" "in_scope origin bound r" for x r
    using that IH ok(3) other by (cases "x = d") auto
  ultimately show ?case by blast
qed (simp add: fun_eq_iff)

text \<open> A deletion event that succeeds removes from every synced table exactly the rows its sender
  authored at or before the erasure stamp (all of them when it carries none), counts them, and
  leaves for each a tombstone at least as high as the row: a later push of the row, or of an older
  copy, is suppressed and changes nothing.\<close>

theorem deletion_event_exact_and_durable:
  assumes run: "apply_locked env local cs db = (Inr res, db')"
    and kind: "kind cs = DeletionEvent" "cs_origin cs \<noteq> local" and d: "d \<in> set SYNC_TABLES"
    and r: "r \<in> set (synced db (data_table d))"
      "in_scope (cs_origin cs) (deletion_bound (watermark cs)) r"
    and older: "s \<le> stamp (row_hlc r)"
  shows "synced db' (data_table d) =
      filter (Not \<circ> in_scope (cs_origin cs) (deletion_bound (watermark cs))) (synced db (data_table d)) \<and>
    tombstoned res = sum_list (map (\<lambda>d. length (filter
      (in_scope (cs_origin cs) (deletion_bound (watermark cs))) (synced db (data_table d)))) SYNC_TABLES) \<and>
    tombstone_suppresses (data_table d) (stored_key d r) s db' = (True, db')"
proof -
  obtain n where "erase_tables env (cs_origin cs) (deletion_bound (watermark cs)) SYNC_TABLES 0 db = (Inr n, db')"
    and n: "tombstoned res = n"
    using run kind by (auto simp: apply_locked_def handle_deletion_event_def Let_def split: sum.splits prod.splits)
  from erase_tables_ok [OF this(1) distinct_tables] have
    syn: "synced db' (data_table d) =
      filter (Not \<circ> in_scope (cs_origin cs) (deletion_bound (watermark cs))) (synced db (data_table d))"
    and count: "n = sum_list (map (\<lambda>d. length (filter
      (in_scope (cs_origin cs) (deletion_bound (watermark cs))) (synced db (data_table d)))) SYNC_TABLES)"
    and cov: "covered d r db'"
    using d r by simp_all
  from cov older have "tombstone_suppresses (data_table d) (stored_key d r) s db' = (True, db')"
    by (auto simp: covered_def tombstone_suppresses_def)
  with syn count n show ?thesis by simp
qed

theorem deletion_event_exact_and_durable_witness:
  "let r = snapshot_row 0 ''p1'' 2 ''B'';
       cs = (empty_changes ''B'')\<lparr>kind := DeletionEvent\<rparr>;
       db = set_table ''trigger_params_snapshots'' [r, snapshot_row 1 ''p2'' 20 ''B''] empty_db;
       db' = snd (apply_locked sync_sample ''A'' cs db)
   in map rowid (synced db' ''trigger_params_snapshots'') = [1] \<and>
      tombstone_suppresses ''trigger_params_snapshots'' ''p1'' (2, 0) db' = (True, db')"
proof -
  let ?r = "snapshot_row 0 ''p1'' 2 ''B''"
  let ?cs = "(empty_changes ''B'')\<lparr>kind := DeletionEvent\<rparr>"
  let ?db = "set_table ''trigger_params_snapshots'' [?r, snapshot_row 1 ''p2'' 20 ''B''] empty_db"
  let ?out = "apply_locked sync_sample ''A'' ?cs ?db"
  have ok: "\<not> isl (fst ?out)"
    by (simp add: sync_eval empty_db_def empty_changes_def sync_sample_def snapshot_row_def)
  then obtain res where out: "?out = (Inr res, snd ?out)" by (metis isl_def prod.collapse sum.exhaust)
  have scope: "in_scope (cs_origin ?cs) (deletion_bound (watermark ?cs)) ?r"
      "\<not> in_scope (cs_origin ?cs) (deletion_bound (watermark ?cs)) (snapshot_row 1 ''p2'' 20 ''B'')"
      "stored_key TRIGGER_PARAMS_SNAPSHOTS ?r = ''p1''" "data_table TRIGGER_PARAMS_SNAPSHOTS = ''trigger_params_snapshots''"
    by (simp_all add: sync_eval snapshot_row_def empty_changes_def)
  have "synced (snd ?out) (data_table TRIGGER_PARAMS_SNAPSHOTS) =
      filter (Not \<circ> in_scope (cs_origin ?cs) (deletion_bound (watermark ?cs)))
        (synced ?db (data_table TRIGGER_PARAMS_SNAPSHOTS)) \<and>
      tombstone_suppresses (data_table TRIGGER_PARAMS_SNAPSHOTS) (stored_key TRIGGER_PARAMS_SNAPSHOTS ?r)
        (2, 0) (snd ?out) = (True, snd ?out)"
    using deletion_event_exact_and_durable [OF out, of TRIGGER_PARAMS_SNAPSHOTS ?r "(2, 0)"] scope(1)
    by (simp add: empty_changes_def SYNC_TABLES_def set_table_def snapshot_row_def stamp_def
        TRIGGER_PARAMS_SNAPSHOTS_def)
  with scope show ?thesis
    by (simp add: Let_def set_table_def snapshot_row_def)
qed

end
