(* ===== verification/Sync_Convergence.thy ===== *)
theory Sync_Convergence
  imports Sync_Safety
begin

text \<open>
  Convergence of the last-write-wins merge. A \<open>lww_register\<close> is a store whose steps carry at most one
  write to a key and keep the greatest stamp; a floor per key, the tombstone, refuses old writes until
  a newer one lifts it. The content of a key after any successful run is then the greatest of the
  writes it was offered, in whatever order, batches and repetitions they arrived. The merge of regime
  rows is such a register.
\<close>

definition admitted :: "('t \<Rightarrow> 'f::linorder) \<Rightarrow> 'f option \<Rightarrow> 't \<Rightarrow> bool" where
  "admitted rank fl t = (case fl of None \<Rightarrow> True | Some b \<Rightarrow> b < rank t)"

locale lww_register =
  fixes step :: "'x \<Rightarrow> 's \<Rightarrow> 'e + 's"
    and write_of :: "'x \<Rightarrow> ('k \<times> 't::linorder \<times> 'v) option"
    and look :: "'s \<Rightarrow> 'k \<Rightarrow> ('t \<times> 'v) option"
    and floor_of :: "'s \<Rightarrow> 'k \<Rightarrow> 'f::linorder option"
    and rank :: "'t \<Rightarrow> 'f"
    and items :: "'x set"
  assumes step_look: "x \<in> items \<Longrightarrow> step x s = Inr s' \<Longrightarrow>
      look s' k =
        (case write_of x of
           Some (k', t, v) \<Rightarrow>
             if k' = k \<and> admitted rank (floor_of s k) t \<and> (\<forall>u \<in> set_option (look s k). fst u < t)
             then Some (t, v) else look s k
         | None \<Rightarrow> look s k)"
    and step_floor: "x \<in> items \<Longrightarrow> step x s = Inr s' \<Longrightarrow>
      floor_of s' k = floor_of s k \<or>
      floor_of s' k = None \<and> (\<exists>u. look s' k = Some u \<and> admitted rank (floor_of s k) (fst u))"
    and rank_mono: "t \<le> t' \<Longrightarrow> rank t \<le> rank t'"
begin

text \<open>What a key is offered by a list of items: its present content and the admitted writes.\<close>

definition offered :: "'x list \<Rightarrow> 's \<Rightarrow> 'k \<Rightarrow> ('t \<times> 'v) set" where
  "offered xs s k =
     set_option (look s k) \<union>
     {(t, v). admitted rank (floor_of s k) t \<and> (\<exists>x \<in> set xs. write_of x = Some (k, t, v))}"

text \<open>The content of a key is at least as recent as \<open>t\<close>.\<close>

definition reaches :: "'s \<Rightarrow> 'k \<Rightarrow> 't \<Rightarrow> bool" where
  "reaches s k t = (case look s k of None \<Rightarrow> False | Some u \<Rightarrow> t \<le> fst u)"

lemma reachesI: "look s k = Some u \<Longrightarrow> reaches s k (fst u)"
  by (simp add: reaches_def)

lemma reachesE:
  assumes "reaches s k t"
  obtains u where "look s k = Some u" and "t \<le> fst u"
  using assms by (auto simp: reaches_def split: option.splits)

lemma step_rises:
  assumes "x \<in> items" and "step x s = Inr s'" and "reaches s k t"
  shows "reaches s' k t"
  using step_look [OF assms(1,2), of k] assms(3) by (auto simp: reaches_def split: option.splits if_splits)

lemma step_writes:
  assumes "x \<in> items" and "step x s = Inr s'" and "write_of x = Some (k, t, v)"
    and "admitted rank (floor_of s k) t"
  shows "reaches s' k t"
  using step_look [OF assms(1,2), of k] assms(3,4)
  by (cases "look s k") (auto simp: reaches_def not_less)

lemma step_origin:
  assumes "x \<in> items" and "step x s = Inr s'" and "look s' k = Some u"
  shows "look s k = Some u \<or> write_of x = Some (k, fst u, snd u) \<and> admitted rank (floor_of s k) (fst u)"
  using step_look [OF assms(1,2), of k] assms(3) by (auto split: option.splits if_splits)

text \<open>A write refused by the floor is refused or out of date ever after.\<close>

lemma floor_step_admits:
  assumes "x \<in> items" and "step x s = Inr s'" and "admitted rank (floor_of s k) t"
  shows "admitted rank (floor_of s' k) t"
  using step_floor [OF assms(1,2), of k] assms(3) by (auto simp: admitted_def)

definition settled :: "'f option \<Rightarrow> 's \<Rightarrow> 'k \<Rightarrow> bool" where
  "settled fl s k \<longleftrightarrow>
     floor_of s k = fl \<or> floor_of s k = None \<and> (\<exists>u. look s k = Some u \<and> admitted rank fl (fst u))"

lemma settled_step:
  assumes "x \<in> items" and "step x s = Inr s'" and "settled fl s k"
  shows "settled fl s' k"
proof (cases "floor_of s k = fl")
  case True
  then show ?thesis using step_floor [OF assms(1,2), of k] by (auto simp: settled_def)
next
  case False
  then obtain u where u: "floor_of s k = None" "look s k = Some u" "admitted rank fl (fst u)"
    using assms(3) by (auto simp: settled_def)
  obtain u' where u': "look s' k = Some u'" "fst u \<le> fst u'"
    using step_rises [OF assms(1,2) reachesI [OF u(2)]] by (rule reachesE)
  then have "admitted rank fl (fst u')"
    using u(3) rank_mono [OF u'(2)] by (auto simp: admitted_def split: option.splits)
  then show ?thesis using step_floor [OF assms(1,2), of k] u(1) u' by (auto simp: settled_def)
qed

lemma run_from_offer:
  assumes "try_fold step xs s = Inr s'" and "set xs \<subseteq> items" and "settled fl s k"
    and "look s' k = Some u"
  shows "look s k = Some u \<or> admitted rank fl (fst u) \<and> (\<exists>x \<in> set xs. write_of x = Some (k, fst u, snd u))"
  using assms
proof (induction xs arbitrary: s)
  case (Cons x xs)
  obtain s1 where s1: "step x s = Inr s1" "try_fold step xs s1 = Inr s'"
    using Cons.prems(1) by (auto split: sum.splits)
  have x: "x \<in> items" using Cons.prems(2) by simp
  have "look s k = Some u \<or> admitted rank fl (fst u) \<and> write_of x = Some (k, fst u, snd u)"
    if "look s1 k = Some u"
  proof -
    have "admitted rank fl (fst u)" if old: "admitted rank (floor_of s k) (fst u)" "look s k \<noteq> Some u"
    proof (cases "floor_of s k = fl")
      case False
      then obtain w where w: "look s k = Some w" "admitted rank fl (fst w)"
        using Cons.prems(3) by (auto simp: settled_def)
      have "fst w \<le> fst u"
        using step_rises [OF x s1(1) reachesI [OF w(1)]] \<open>look s1 k = Some u\<close> by (simp add: reaches_def)
      then show ?thesis using w(2) rank_mono by (force simp: admitted_def split: option.splits)
    qed (use old in simp)
    then show ?thesis using step_origin [OF x s1(1) that] by blast
  qed
  moreover have "look s1 k = Some u \<or>
      admitted rank fl (fst u) \<and> (\<exists>x \<in> set xs. write_of x = Some (k, fst u, snd u))"
    using Cons.IH [OF s1(2)] Cons.prems settled_step [OF x s1(1)] by simp
  ultimately show ?case by auto
qed simp

lemma run_rises:
  "try_fold step xs s = Inr s' \<Longrightarrow> set xs \<subseteq> items \<Longrightarrow> reaches s k t \<Longrightarrow> reaches s' k t"
  by (induction xs arbitrary: s) (auto split: sum.splits dest: step_rises)

lemma run_covers:
  "try_fold step xs s = Inr s' \<Longrightarrow> set xs \<subseteq> items \<Longrightarrow> x \<in> set xs \<Longrightarrow>
     write_of x = Some (k, t, v) \<Longrightarrow> admitted rank (floor_of s k) t \<Longrightarrow> reaches s' k t"
proof (induction xs arbitrary: s)
  case (Cons y ys)
  obtain s1 where s1: "step y s = Inr s1" "try_fold step ys s1 = Inr s'"
    using Cons.prems(1) by (auto split: sum.splits)
  have y: "y \<in> items" "set ys \<subseteq> items" using Cons.prems(2) by auto
  have "admitted rank (floor_of s1 k) t" by (rule floor_step_admits [OF y(1) s1(1) Cons.prems(5)])
  moreover have "reaches s' k t" if "x = y"
    using run_rises [OF s1(2) y(2) step_writes [OF y(1) s1(1)]] Cons.prems(4,5) that by blast
  ultimately show ?case using Cons.IH [OF s1(2) y(2) _ Cons.prems(4)] Cons.prems(3) by auto
qed simp

lemma run_is_greatest:
  assumes "try_fold step xs s = Inr s'" and "set xs \<subseteq> items"
  shows "look s' k = None \<longleftrightarrow> offered xs s k = {}"
    and "look s' k = Some u \<Longrightarrow> u \<in> offered xs s k"
    and "look s' k = Some u \<Longrightarrow> w \<in> offered xs s k \<Longrightarrow> fst w \<le> fst u"
proof -
  have fl: "settled (floor_of s k) s k" by (simp add: settled_def)
  show mem: "u \<in> offered xs s k" if "look s' k = Some u" for u
    using run_from_offer [OF assms fl that] by (cases u) (auto simp: offered_def)
  have up: "reaches s' k (fst w)" if "w \<in> offered xs s k" for w
    using that run_rises [OF assms, of k "fst w"] run_covers [OF assms, of _ k "fst w" "snd w"]
    by (cases w) (auto simp: offered_def reaches_def)
  show "fst w \<le> fst u" if "look s' k = Some u" "w \<in> offered xs s k"
    using up [OF that(2)] that(1) by (simp add: reaches_def)
  show "look s' k = None \<longleftrightarrow> offered xs s k = {}"
  proof
    show "look s' k = None" if "offered xs s k = {}" using mem that by (cases "look s' k") auto
    show "offered xs s k = {}" if "look s' k = None" using up that by (auto simp: reaches_def)
  qed
qed

text \<open>Equal offers without two contents for one stamp give equal contents.\<close>

lemma runs_converge:
  assumes "try_fold step xs s = Inr s'" and "set xs \<subseteq> items"
    and "look t' k = None \<longleftrightarrow> offered xs s k = {}"
    and "\<And>u. look t' k = Some u \<Longrightarrow> u \<in> offered xs s k"
    and "\<And>u w. look t' k = Some u \<Longrightarrow> w \<in> offered xs s k \<Longrightarrow> fst w \<le> fst u"
    and "inj_on fst (offered xs s k)"
  shows "look s' k = look t' k"
proof (cases "look s' k")
  case None
  then show ?thesis using run_is_greatest(1) [OF assms(1,2)] assms(3) by simp
next
  case (Some u)
  then obtain w where w: "look t' k = Some w"
    using run_is_greatest(1) [OF assms(1,2), of k] assms(3) by (cases "look t' k") auto
  have "fst u = fst w"
    using run_is_greatest(2,3) [OF assms(1,2) Some] assms(4,5) [OF w] by (meson antisym)
  then have "u = w"
    using inj_onD [OF assms(6)] run_is_greatest(2) [OF assms(1,2) Some] assms(4) [OF w] by blast
  then show ?thesis using Some w by simp
qed

end

subsection \<open>Regimes\<close>

text \<open>The content of a regime: its stamp and its columns without the key.\<close>

definition regime_columns :: "string list" where
  "regime_columns = tl (map col_name (columns REGIMES))"

definition regime_cells :: "(string \<times> BoundValue) list \<Rightarrow> (string \<times> BoundValue option) list" where
  "regime_cells vs = map (\<lambda>c. (c, map_of vs c)) regime_columns"

definition regime_look :: "sync_db \<times> SyncResult \<Rightarrow> string \<Rightarrow> (Hlc \<times> (string \<times> BoundValue option) list) option"
  where
  "regime_look st k =
     map_option (\<lambda>r. (row_hlc r, regime_cells (row_cols r)))
       (List.find (pk_match REGIMES [k]) (synced (fst st) ''regimes''))"

definition regime_floor :: "sync_db \<times> SyncResult \<Rightarrow> string \<Rightarrow> (u64 \<times> u32) option" where
  "regime_floor st k = map_option t_stamp (List.find (same_key ''regimes'' k) (suppression (fst st)))"

text \<open>The write a row of a changeset carries: none when it is of another table or is skipped.\<close>

definition regime_write ::
  "sync_env \<Rightarrow> TableDescriptor \<times> json \<Rightarrow> (string \<times> Hlc \<times> (string \<times> BoundValue option) list) option" where
  "regime_write env x =
     (case x of (desc, row) \<Rightarrow>
        if data_table desc \<noteq> ''regimes'' \<or> hlc_drift_rejected env row then None
        else case (pk_values desc row, extract_hlc row, bind_all_columns (hex_decode env) desc row) of
               (Inr ks, Inr (Some h), Inr (Some vs)) \<Rightarrow> Some (ks ! 0, h, regime_cells vs)
             | _ \<Rightarrow> None)"

lemma regime_table:
  "data_table REGIMES = ''regimes''" "pk REGIMES = Simple ''id''" "mode REGIMES = LastWriteWins"
  "distinct (map col_name (columns REGIMES))" "list_all (Not \<circ> extractor_only) (columns REGIMES)"
  by (simp_all add: descriptor_defs)

lemma regime_columns_updated: "c \<in> set regime_columns \<Longrightarrow> \<not> excluded_from_update REGIMES c"
  by (auto simp: regime_columns_def descriptor_defs excluded_from_update_def)

lemma only_regimes: "d \<in> set SYNC_TABLES \<Longrightarrow> data_table d = ''regimes'' \<longleftrightarrow> d = REGIMES"
  using distinct_key_eq [OF distinct_tables, of d REGIMES] regime_table(1) by (auto simp: SYNC_TABLES_def)

lemma map_of_filter_names: "P c \<Longrightarrow> map_of (filter (\<lambda>(n, _). P n) vs) c = map_of vs c"
  by (induction vs) auto

lemma regime_cells_update:
  assumes "bind_all_columns dec REGIMES row = Inr (Some vs)"
  shows "regime_cells (set_cols (filter (\<lambda>(n, _). \<not> excluded_from_update REGIMES n) vs) old) = regime_cells vs"
proof -
  have "map_of (filter (\<lambda>(n, _). \<not> excluded_from_update REGIMES n) vs) c = map_of vs c \<and> map_of vs c \<noteq> None"
    if "c \<in> set regime_columns" for c
  proof -
    have "c \<in> col_name ` set (columns REGIMES)"
      using that by (auto simp: regime_columns_def descriptor_defs)
    then obtain s where s: "s \<in> set (columns REGIMES)" "col_name s = c" by blast
    then show ?thesis
      using bind_columns_lookup [OF assms [unfolded bind_all_columns_def] s(1) _ regime_table(4)]
        regime_table(5) map_of_filter_names [where P = "\<lambda>n. \<not> excluded_from_update REGIMES n",
          OF regime_columns_updated [OF that]]
      by (auto simp: list_all_iff)
  qed
  then have "map_of (set_cols (filter (\<lambda>(n, _). \<not> excluded_from_update REGIMES n) vs) old) c = map_of vs c"
    if "c \<in> set regime_columns" for c
    using that by (fastforce simp: map_of_set_cols)
  then show ?thesis by (simp add: regime_cells_def)
qed

lemma after_iff: "is_after h g \<longleftrightarrow> g < h"
  by (simp add: is_after_def)

lemma find_hit:
  assumes "\<And>r. P (f r) = P r" and "\<And>r. P r \<Longrightarrow> \<not> hit r"
  shows "List.find P (map (\<lambda>r. if hit r then f r else r) rs) = List.find P rs"
  using assms by (induction rs) auto

lemma effect_look_other:
  assumes eff: "row_effect env REGIMES [k'] row h db db'" and key: "pk_values REGIMES row = Inr [k']"
    and "k \<noteq> k'"
  shows "regime_look (db', res') k = regime_look (db, res) k"
  using eff
proof (cases rule: row_effect.cases)
  case (inserted vs)
  have "map_of vs ''id'' = Some (BText k')"
    using plain_key [OF plain_tables(2) key inserted(3)] regime_table(2) by auto
  then have "\<not> pk_match REGIMES [k] \<lparr>rowid = n, row_cols = vs, row_hlc = h\<rparr>" for n
    using assms(3) by (simp add: pk_match_simple [OF regime_table(2)] text_cell_def)
  then show ?thesis
    by (simp add: inserted(1) regime_look_def set_table_def regime_table find_append split: option.splits)
next
  case (updated loc vs hit new)
  have "List.find (pk_match REGIMES [k]) (map (\<lambda>r. if hit r then r\<lparr>row_cols := set_cols new (row_cols r),
      row_hlc := h\<rparr> else r) rs) = List.find (pk_match REGIMES [k]) rs" for rs
    by (rule find_hit)
      (use assms(3) updated(6) in \<open>simp_all add: pk_match_simple [OF regime_table(2)] updated(7)
        text_cell_update [OF regime_table(2)] regime_table\<close>)
  then show ?thesis by (simp add: updated(1) regime_look_def set_table_def regime_table)
next
  case kept
  then show ?thesis by (simp add: regime_look_def)
qed

lemma effect_look_same:
  assumes eff: "row_effect env REGIMES [k] row h db db'" and key: "pk_values REGIMES row = Inr [k]"
  shows "regime_look (db', res') k =
    (case bind_all_columns (hex_decode env) REGIMES row of
       Inr (Some vs) \<Rightarrow>
         if \<forall>u \<in> set_option (regime_look (db, res) k). fst u < h then Some (h, regime_cells vs)
         else regime_look (db, res) k
     | _ \<Rightarrow> regime_look (db, res) k)"
  using eff
proof (cases rule: row_effect.cases)
  case (inserted vs)
  have "map_of vs ''id'' = Some (BText k)"
    using plain_key [OF plain_tables(2) key inserted(3)] regime_table(2) by auto
  moreover have "List.find (pk_match REGIMES [k]) (synced db ''regimes'') = None"
    using inserted(2) find_ex regime_table(1) by metis
  ultimately show ?thesis
    by (simp add: inserted(1,3) regime_look_def set_table_def regime_table find_append
        pk_match_simple [OF regime_table(2)] text_cell_def)
next
  case (updated loc vs hit new)
  have loc: "List.find (pk_match REGIMES [k]) (synced db ''regimes'') = Some loc"
    using updated(2) by (simp add: select_local_match_def regime_table)
  have hit: "hit = pk_match REGIMES [k]" using updated(6) by (simp add: regime_table)
  have "List.find (pk_match REGIMES [k]) (synced db' ''regimes'') =
      Some (loc\<lparr>row_cols := set_cols new (row_cols loc), row_hlc := h\<rparr>)"
    using find_SomeD [OF loc] loc
    by (simp add: updated(1) set_table_def regime_table find_map_same hit updated(7)
        pk_match_simple [OF regime_table(2)] text_cell_update [OF regime_table(2)])
  then show ?thesis
    using loc updated(4,5) regime_cells_update [OF updated(5)]
    by (simp add: regime_look_def updated(7) after_iff regime_table)
next
  case kept
  obtain loc where "List.find (pk_match REGIMES [k]) (synced db ''regimes'') = Some loc" "\<not> row_hlc loc < h"
    using kept(2) plain_bind [OF plain_tables(2)] by (auto simp: select_local_match_def regime_table after_iff)
  then show ?thesis
    by (auto simp: kept(1) regime_look_def split: sum.splits option.splits)
qed

text \<open>The two laws of the register for one row of a changeset.\<close>

lemma look_cong: "synced db' ''regimes'' = synced db ''regimes'' \<Longrightarrow> regime_look (db', r') = regime_look (db, r)"
  by (simp add: fun_eq_iff regime_look_def)

lemma suppresses_floor:
  assumes "tombstone_suppresses ''regimes'' k (stamp h) db = (b, db1)"
  shows "b \<longleftrightarrow> \<not> admitted stamp (regime_floor (db, res) k) h"
    and "k' \<noteq> k \<Longrightarrow> regime_floor (db1, res1) k' = regime_floor (db, res) k'"
    and "\<not> b \<Longrightarrow> regime_floor (db1, res1) k = None"
proof -
  show "b \<longleftrightarrow> \<not> admitted stamp (regime_floor (db, res) k) h"
    using assms by (auto simp: tombstone_suppresses_def admitted_def regime_floor_def not_le
        split: option.splits if_splits)
  show "regime_floor (db1, res1) k' = regime_floor (db, res) k'" if "k' \<noteq> k"
    using suppresses_other(2) [OF assms, of "''regimes''" k'] that by (simp add: regime_floor_def)
  have "List.find (same_key ''regimes'' k) (filter (\<lambda>x. \<not> same_key ''regimes'' k x) ts) = None" for ts
    by (auto simp: find_None_iff)
  then show "regime_floor (db1, res1) k = None" if "\<not> b"
    using assms that by (auto simp: tombstone_suppresses_def regime_floor_def split: option.splits if_splits)
qed

lemma merge_other_table:
  assumes "merge_row env d row (db, res) = Inr (db', res')" and "data_table d \<noteq> ''regimes''"
  shows "regime_look (db', res') = regime_look (db, res)" "regime_floor (db', res') = regime_floor (db, res)"
proof -
  have "synced db' ''regimes'' = synced db ''regimes'' \<and>
      List.find (same_key ''regimes'' k) (suppression db') = List.find (same_key ''regimes'' k) (suppression db)" for k
    using assms(1)
  proof (cases rule: merge_row_cases)
    case (merged ks h db1)
    then show ?thesis
      using suppresses_other(1) [OF merged(3)] suppresses_other(2) [OF merged(3), of "''regimes''" k]
        effect_other_table [OF merged(4), of "''regimes''"] effect_suppression [OF merged(4)] assms(2) by simp
  qed simp
  then show "regime_look (db', res') = regime_look (db, res)" "regime_floor (db', res') = regime_floor (db, res)"
    by (simp_all add: fun_eq_iff regime_look_def regime_floor_def)
qed

lemma effect_reaches:
  assumes "row_effect env REGIMES [k] row h db db'" and "pk_values REGIMES row = Inr [k]"
  shows "\<exists>u. regime_look (db', res') k = Some u \<and> h \<le> fst u"
proof (cases "\<exists>vs. bind_all_columns (hex_decode env) REGIMES row = Inr (Some vs)")
  case True
  then obtain vs where "bind_all_columns (hex_decode env) REGIMES row = Inr (Some vs)" by blast
  then show ?thesis
    using effect_look_same [OF assms, of res' res'] by (cases "regime_look (db, res') k") (auto simp: not_less)
next
  case False
  from assms(1) show ?thesis
  proof (cases rule: row_effect.cases)
    case kept
    then obtain loc where "List.find (pk_match REGIMES [k]) (synced db ''regimes'') = Some loc" "\<not> row_hlc loc < h"
      using plain_bind [OF plain_tables(2)] by (auto simp: select_local_match_def regime_table after_iff)
    then show ?thesis by (simp add: kept(1) regime_look_def not_less)
  qed (use False in auto)
qed

lemma stamp_mono: "h \<le> g \<Longrightarrow> stamp h \<le> stamp g"
  by (auto simp: stamp_def less_eq_Hlc_def less_eq_prod_def)

lemma admitted_mono: "admitted stamp fl h \<Longrightarrow> h \<le> g \<Longrightarrow> admitted stamp fl g"
  using stamp_mono [of h g] by (auto simp: admitted_def split: option.splits)

definition register_law where
  "register_law env x db res db' res' k \<longleftrightarrow>
     regime_look (db', res') k =
       (case regime_write env x of
          Some (k', t, v) \<Rightarrow>
            if k' = k \<and> admitted stamp (regime_floor (db, res) k) t
               \<and> (\<forall>u \<in> set_option (regime_look (db, res) k). fst u < t)
            then Some (t, v) else regime_look (db, res) k
        | None \<Rightarrow> regime_look (db, res) k) \<and>
     (regime_floor (db', res') k = regime_floor (db, res) k \<or>
      regime_floor (db', res') k = None \<and>
        (\<exists>u. regime_look (db', res') k = Some u \<and> admitted stamp (regime_floor (db, res) k) (fst u)))"

lemma regime_row_step:
  assumes run: "merge_row env REGIMES row (db, res) = Inr (db', res')" and "\<not> hlc_drift_rejected env row"
  shows "register_law env (REGIMES, row) db res db' res' k"
proof -
  obtain k' where key: "pk_values REGIMES row = Inr [k']" "tombstone_key REGIMES [k'] = k'"
    using run by (auto simp: merge_row_def pk_values_def regime_table tombstone_key_def split: sum.splits)
  consider "extract_hlc row = Inr None" | h where "extract_hlc row = Inr (Some h)"
    using run by (auto simp: merge_row_def key split: sum.splits option.splits)
  then show ?thesis
  proof cases
    case 1
    then show ?thesis using run key by (simp add: merge_row_def regime_write_def register_law_def regime_look_def regime_floor_def)
  next
    case (2 h)
    have w: "regime_write env (REGIMES, row) = (case bind_all_columns (hex_decode env) REGIMES row of
        Inr (Some vs) \<Rightarrow> Some (k', h, regime_cells vs) | _ \<Rightarrow> None)"
      using assms(2) key 2 by (simp add: regime_write_def regime_table split: sum.splits option.splits)
    from run key(1) 2 show ?thesis
    proof (cases rule: merge_row_outcome)
      case suppressed
      then have "\<not> admitted stamp (regime_floor (db, res) k') h"
        using suppresses_floor(1) [of k' h db True db] by (simp add: key regime_table)
      then show ?thesis
        using suppressed(2) w
        by (auto simp: register_law_def regime_look_def regime_floor_def split: sum.splits option.splits)
    next
      case (effective db1)
      note sup = effective(1) [unfolded key(2) regime_table(1)]
      have adm: "admitted stamp (regime_floor (db, res) k') h" using suppresses_floor(1) [OF sup] by simp
      have look1: "regime_look (db1, res') = regime_look (db, res)"
        by (rule look_cong) (simp add: suppresses_other(1) [OF sup])
      have fl: "regime_floor (db', res') = regime_floor (db1, res')"
        using effect_suppression [OF effective(2)] by (simp add: fun_eq_iff regime_floor_def)
      show ?thesis
      proof (cases "k = k'")
        case False
        then show ?thesis
          using effect_look_other [OF effective(2) key(1) False, of res' res'] w
            suppresses_floor(2) [OF sup False, of res' res]
          by (simp add: register_law_def look1 fl split: sum.splits option.splits)
      next
        case True
        obtain u where u: "regime_look (db', res') k = Some u" "h \<le> fst u"
          using effect_reaches [OF effective(2) key(1), of res'] True by auto
        have "regime_floor (db', res') k = None" using suppresses_floor(3) [OF sup, of res'] True fl by simp
        moreover have "admitted stamp (regime_floor (db, res) k) (fst u)"
          using admitted_mono [OF adm u(2)] True by simp
        ultimately show ?thesis
          using effect_look_same [OF effective(2) key(1), of res' res'] u(1) w adm True
          by (auto simp: register_law_def look1 split: sum.splits option.splits)
      qed
    qed
  qed
qed

lemma regime_step:
  assumes x: "fst x \<in> set SYNC_TABLES" and step: "merge_guarded env x (db, res) = Inr (db', res')"
  shows "register_law env x db res db' res' k"
proof -
  obtain d row where dr: "x = (d, row)" by fastforce
  consider "hlc_drift_rejected env row"
    | "\<not> hlc_drift_rejected env row" "d \<noteq> REGIMES" | "\<not> hlc_drift_rejected env row" "d = REGIMES" by blast
  then show ?thesis
  proof cases
    case 1
    then show ?thesis using step by (simp add: dr merge_guarded_def regime_write_def register_law_def)
  next
    case 2
    then have "data_table d \<noteq> ''regimes''" using only_regimes x dr by simp
    then show ?thesis
      using 2 step merge_other_table [of env d row db res db' res']
      by (simp add: dr merge_guarded_def regime_write_def register_law_def)
  next
    case 3
    then show ?thesis using step regime_row_step by (simp add: dr merge_guarded_def)
  qed
qed

subsection \<open>Sequences of changesets\<close>

text \<open>A successful run over changesets is a run over their rows, with a commit after each.\<close>

definition sync_run :: "sync_env \<Rightarrow> string \<Rightarrow> ChangeSet list \<Rightarrow> sync_db \<Rightarrow> StorageError + sync_db" where
  "sync_run env local =
     try_fold (\<lambda>cs db. case apply_locked env local cs db of (Inl e, _) \<Rightarrow> Inl e | (Inr _, db') \<Rightarrow> Inr db')"

datatype sync_event = Row TableDescriptor json | Commit ChangeSet

definition changeset_events :: "ChangeSet \<Rightarrow> sync_event list" where
  "changeset_events cs = map (\<lambda>(d, r). Row d r) (changeset_rows cs) @ [Commit cs]"

definition events_of :: "ChangeSet list \<Rightarrow> sync_event list" where
  "events_of css = concat (map changeset_events css)"

fun event_step :: "sync_env \<Rightarrow> sync_event \<Rightarrow> sync_db \<times> SyncResult \<Rightarrow> StorageError + sync_db \<times> SyncResult"
  where
  "event_step env (Row d r) st = merge_guarded env (d, r) st"
| "event_step env (Commit cs) st =
     Inr ((fst st)\<lparr>sync_peers := upsert_peer
            \<lparr>peer_device_id = cs_origin cs, peer_device_name = cs_origin_name cs,
             peer_last_sync_at = sql_now env, peer_wall = wall_ms (watermark cs),
             peer_counter = counter (watermark cs)\<rparr> (sync_peers (fst st))\<rparr>, sync_result_default)"

fun event_write where
  "event_write env (Row d r) = regime_write env (d, r)"
| "event_write env (Commit cs) = None"

fun event_ok :: "sync_event \<Rightarrow> bool" where
  "event_ok (Row d r) = (d \<in> set SYNC_TABLES)"
| "event_ok (Commit cs) = True"

lemma event_law:
  assumes "event_ok x" and "event_step env x (db, res) = Inr (db', res')"
  shows "regime_look (db', res') k =
      (case event_write env x of
         Some (k', t, v) \<Rightarrow>
           if k' = k \<and> admitted stamp (regime_floor (db, res) k) t
              \<and> (\<forall>u \<in> set_option (regime_look (db, res) k). fst u < t)
           then Some (t, v) else regime_look (db, res) k
       | None \<Rightarrow> regime_look (db, res) k)"
    and "regime_floor (db', res') k = regime_floor (db, res) k \<or>
      regime_floor (db', res') k = None \<and>
        (\<exists>u. regime_look (db', res') k = Some u \<and> admitted stamp (regime_floor (db, res) k) (fst u))"
  using assms regime_step [of "case x of Row d r \<Rightarrow> (d, r)" env db res db' res' k]
  by (cases x; auto simp: register_law_def regime_look_def regime_floor_def)+

interpretation regime: lww_register "event_step env" "event_write env" regime_look regime_floor stamp
    "Collect event_ok" for env
  by unfold_locales (use event_law in fastforce, use event_law in fastforce, rule stamp_mono)

text \<open>Changesets of data from another device, without tombstones.\<close>

definition data_changes :: "string \<Rightarrow> ChangeSet \<Rightarrow> bool" where
  "data_changes local cs \<longleftrightarrow> kind cs = Data \<and> cs_origin cs \<noteq> local \<and> tombstones cs = []"

lemma events_ok: "set (events_of css) \<subseteq> Collect event_ok"
  using changeset_rows_tables by (fastforce simp: events_of_def changeset_events_def)

lemma try_fold_rows:
  "try_fold (event_step env) (map (\<lambda>(d, r). Row d r) xs) st = try_fold (merge_guarded env) xs st"
  by (induction xs arbitrary: st) (auto split: sum.splits)

lemma sync_run_events:
  "sync_run env local css db = Inr db' \<Longrightarrow> list_all (data_changes local) css \<Longrightarrow>
     try_fold (event_step env) (events_of css) (db, sync_result_default) = Inr (db', sync_result_default)"
proof (induction css arbitrary: db)
  case Nil
  then show ?case by (simp add: sync_run_def events_of_def)
next
  case (Cons cs css)
  obtain res db1 where one: "apply_locked env local cs db = (Inr res, db1)" and rest: "sync_run env local css db1 = Inr db'"
    using Cons.prems(1) by (auto simp: sync_run_def split: sum.splits prod.splits)
  have "try_fold (event_step env) (changeset_events cs) (db, sync_result_default) = Inr (db1, sync_result_default)"
    using one Cons.prems(2)
    by (auto simp: changeset_events_def apply_locked_def data_changes_def apply_data_def try_fold_append try_fold_rows Let_def
        split: sum.splits if_splits)
  then show ?case
    using Cons.IH [OF rest] Cons.prems(2) by (simp add: events_of_def try_fold_append)
qed

definition regime_content :: "sync_db \<Rightarrow> string \<Rightarrow> (Hlc \<times> (string \<times> BoundValue option) list) option" where
  "regime_content db = regime_look (db, sync_result_default)"

text \<open>What a device holds or is sent for a regime, tombstoned copies excepted.\<close>

definition regime_offers ::
  "sync_env \<Rightarrow> ChangeSet list \<Rightarrow> sync_db \<Rightarrow> string \<Rightarrow> (Hlc \<times> (string \<times> BoundValue option) list) set" where
  "regime_offers env css db k =
     set_option (regime_content db k) \<union>
     {(t, v). admitted stamp (regime_floor (db, sync_result_default) k) t \<and>
        (\<exists>cs \<in> set css. \<exists>row \<in> set (regimes cs). regime_write env (REGIMES, row) = Some (k, t, v))}"

lemma other_tables:
  "ACTIVITY_SEGMENTS \<noteq> REGIMES" "REGIME_OVERRIDES \<noteq> REGIMES" "TRIGGER_PARAMS_SNAPSHOTS \<noteq> REGIMES"
  "EMBEDDING_VECTORS \<noteq> REGIMES" "SUGGESTIONS \<noteq> REGIMES"
  by (rule notI, drule arg_cong [where f = data_table], simp add: descriptor_defs)+

lemma regime_rows: "(REGIMES, row) \<in> set (changeset_rows cs) \<longleftrightarrow> row \<in> set (regimes cs)"
  using other_tables by (auto simp: changeset_rows_def)

lemma changeset_writes:
  "x \<in> set (changeset_events cs) \<and> event_write env x = Some w \<longleftrightarrow>
     (\<exists>row \<in> set (regimes cs). x = Row REGIMES row \<and> regime_write env (REGIMES, row) = Some w)"
proof (cases x)
  case (Row d row)
  have "d = REGIMES" if "(d, row) \<in> set (changeset_rows cs)" "regime_write env (d, row) = Some w"
    using that only_regimes [OF changeset_rows_tables [OF that(1)]]
    by (auto simp: regime_write_def split: if_splits)
  then show ?thesis
    using Row regime_rows [of row cs] by (auto simp: changeset_events_def)
qed auto

lemma event_writes:
  "(\<exists>x \<in> set (events_of css). event_write env x = Some w) \<longleftrightarrow>
     (\<exists>cs \<in> set css. \<exists>row \<in> set (regimes cs). regime_write env (REGIMES, row) = Some w)"
proof -
  have "(\<exists>x \<in> set (events_of css). event_write env x = Some w) \<longleftrightarrow>
      (\<exists>cs \<in> set css. \<exists>x. x \<in> set (changeset_events cs) \<and> event_write env x = Some w)"
    by (auto simp: events_of_def)
  also have "\<dots> \<longleftrightarrow> (\<exists>cs \<in> set css. \<exists>row \<in> set (regimes cs). regime_write env (REGIMES, row) = Some w)"
    unfolding changeset_writes by blast
  finally show ?thesis .
qed

lemma offered_regimes: "regime.offered env (events_of css) (db, sync_result_default) k = regime_offers env css db k"
  by (simp add: regime.offered_def regime_offers_def regime_content_def event_writes)

text \<open> C3. Two devices that were offered the same versions of a regime end up with the same regime,
  whatever order, batching and repetition the changesets arrived in, with whatever other rows and
  with skewed clocks; the version they keep is the latest of them. Hypotheses: every merge succeeded,
  no changeset carries tombstones, and no two versions have the same stamp.\<close>

theorem regimes_converge:
  assumes "sync_run envA devA cssA dbA = Inr dbA'" and "sync_run envB devB cssB dbB = Inr dbB'"
    and "list_all (data_changes devA) cssA" and "list_all (data_changes devB) cssB"
    and "regime_offers envA cssA dbA k = regime_offers envB cssB dbB k"
    and "inj_on fst (regime_offers envA cssA dbA k)"
  shows "regime_content dbA' k = regime_content dbB' k \<and>
    (regime_content dbA' k = None \<longleftrightarrow> regime_offers envA cssA dbA k = {}) \<and>
    (\<forall>u \<in> regime_offers envA cssA dbA k. \<exists>v \<in> set_option (regime_content dbA' k). fst u \<le> fst v)"
proof -
  note runA = regime.run_is_greatest [OF sync_run_events [OF assms(1,3)] events_ok, of k, unfolded offered_regimes]
  note runB = regime.run_is_greatest [OF sync_run_events [OF assms(2,4)] events_ok, of k, unfolded offered_regimes]
  have "regime_content dbA' k = regime_content dbB' k"
    unfolding regime_content_def
    by (rule regime.runs_converge [OF sync_run_events [OF assms(1,3)] events_ok, unfolded offered_regimes])
      (use runB assms(5,6) in auto)
  moreover have "\<exists>v \<in> set_option (regime_content dbA' k). fst u \<le> fst v" if u: "u \<in> regime_offers envA cssA dbA k" for u
  proof -
    obtain v where "regime_content dbA' k = Some v"
      using runA(1) u by (cases "regime_content dbA' k") (auto simp: regime_content_def)
    then show ?thesis using runA(3) u by (auto simp: regime_content_def)
  qed
  ultimately show ?thesis using runA(1) by (simp add: regime_content_def)
qed

definition regime_json :: "string \<Rightarrow> int \<Rightarrow> json" where
  "regime_json title wall =
     JObj [(''id'', JStr ''g1''), (''label'', JStr title), (''detected_at'', JStr ''t''),
           (''last_seen_at'', JStr ''t''), (''occurrence_count'', JInt 1), (''avg_density'', JInt 0),
           (''avg_importance'', JInt 0), (''dominant_category'', JStr ''c''), (''is_active'', JInt 1),
           (''hlc_wall_ms'', JInt wall), (''hlc_counter'', JInt 0), (''origin_device_id'', JStr ''B'')]"

definition regime_changes :: "string \<Rightarrow> int \<Rightarrow> ChangeSet" where
  "regime_changes title wall = (empty_changes ''B'')\<lparr>regimes := [regime_json title wall]\<rparr>"

lemmas converge_eval =
  sync_run_def regime_changes_def regime_json_def empty_changes_def empty_db_def sync_sample_def

theorem regimes_converge_witness:
  "let old = regime_changes ''old'' 3; new = regime_changes ''new'' 4;
       one = projr (sync_run sync_sample ''A'' [old, new] empty_db);
       two = projr (sync_run sync_sample ''C'' [new, old, new] empty_db)
   in regime_content one ''g1'' = regime_content two ''g1'' \<and>
      map_option fst (regime_content two ''g1'') = Some (Hlc 4 0 ''B'')"
proof -
  let ?old = "regime_changes ''old'' 3" and ?new = "regime_changes ''new'' 4"
  let ?run1 = "sync_run sync_sample ''A'' [?old, ?new] empty_db"
  let ?run2 = "sync_run sync_sample ''C'' [?new, ?old, ?new] empty_db"
  have ok: "?run1 = Inr (projr ?run1)" "?run2 = Inr (projr ?run2)"
    by (simp_all add: sync_eval converge_eval)
  have data: "list_all (data_changes ''A'') [?old, ?new]" "list_all (data_changes ''C'') [?new, ?old, ?new]"
    by (simp_all add: data_changes_def regime_changes_def empty_changes_def)
  have offers: "regime_offers sync_sample [?old, ?new] empty_db ''g1'' =
      regime_offers sync_sample [?new, ?old, ?new] empty_db ''g1''"
    by (auto simp: regime_offers_def)
  have inj: "inj_on fst (regime_offers sync_sample [?old, ?new] empty_db ''g1'')"
    by (auto simp: inj_on_def regime_offers_def regime_content_def regime_look_def regime_write_def
        sync_eval converge_eval)
  show ?thesis
    unfolding Let_def
  proof
    show "regime_content (projr ?run1) ''g1'' = regime_content (projr ?run2) ''g1''"
      using regimes_converge [OF ok data offers inj] by blast
    show "map_option fst (regime_content (projr ?run2) ''g1'') = Some (Hlc 4 0 ''B'')"
      by (simp add: regime_content_def regime_look_def sync_eval converge_eval)
  qed
qed

end
