(* ===== verification/Sync_Limits.thy ===== *)
theory Sync_Limits
  imports Sync_Convergence
begin

text \<open>
  Where the merge falls short of its documentation: rows that abort the whole changeset, and erased
  rows that can return. The statements are about the definitions of \<open>Sync_Merger\<close>, which follow the
  code.
\<close>

lemma bound_column:
  assumes "bind_all_columns dec desc row = Inr (Some vs)"
    and "list_ex (\<lambda>c. col_name c = n \<and> col_kind c = KTextOptional \<and> \<not> extractor_only c) (columns desc)"
    and "distinct (map col_name (columns desc))"
  shows "map_of vs n = Some (BTextOpt (json_str_opt row n))"
proof -
  obtain c where c: "c \<in> set (columns desc)" "col_name c = n" "col_kind c = KTextOptional" "\<not> extractor_only c"
    using assms(2) by (auto simp: list_ex_iff)
  then show ?thesis
    using bind_columns_lookup [OF assms(1) [unfolded bind_all_columns_def] c(1,4) assms(3)]
    by (auto simp: extract_col_def)
qed

lemma map_of_filter_fst: "P n \<Longrightarrow> map_of (filter (\<lambda>(n, _). P n) vs) n = map_of vs n"
  by (induction vs) auto

lemma isl_bind: "isl x \<Longrightarrow> isl (case x of Inl e \<Rightarrow> Inl e | Inr y \<Rightarrow> f y)"
  by (cases x) auto

subsection \<open>Embeddings without their text\<close>

lemma embedding_columns:
  "distinct (map col_name (columns EMBEDDING_VECTORS))"
  "list_ex (\<lambda>c. col_name c = ''original_text'' \<and> col_kind c = KTextOptional \<and> \<not> extractor_only c)
     (columns EMBEDDING_VECTORS)"
  "\<not> excluded_from_update EMBEDDING_VECTORS ''original_text''"
  "''original_text'' \<in> set (NOT_NULL (data_table EMBEDDING_VECTORS))"
  by (simp_all add: descriptor_defs excluded_from_update_def NOT_NULL_def)

text \<open>
  The extractor leaves \<open>original_text\<close> out unless the sender opted in, the merger binds a missing
  text to \<open>NULL\<close>, and the column is \<open>NOT NULL\<close>: neither the insert nor the update can succeed.
\<close>

lemma default_extract_omits_text:
  "\<not> include_embedding_text cfg \<Longrightarrow>
     ''original_text'' \<notin> col_name ` set (filter (\<lambda>c. gate_is_open (extractor_gate c) cfg) (columns EMBEDDING_VECTORS))"
  by (simp add: descriptor_defs)

theorem text_free_embedding_aborts_merge:
  assumes keys: "pk_values EMBEDDING_VECTORS row = Inr ks" and hlc: "extract_hlc row = Inr (Some h)"
    and live: "tombstone_suppresses (data_table EMBEDDING_VECTORS) (tombstone_key EMBEDDING_VECTORS ks)
      (stamp h) db = (False, db1)"
    and bound: "bind_all_columns (hex_decode env) EMBEDDING_VECTORS row = Inr (Some vs)"
    and wins: "\<forall>loc. select_local_match EMBEDDING_VECTORS ks db1 = Some loc \<longrightarrow> is_after h (row_hlc loc)"
    and no_text: "json_str_opt row ''original_text'' = None"
  shows "isl (merge_row env EMBEDDING_VECTORS row (db, res))"
proof -
  let ?new = "filter (\<lambda>(n, _). \<not> excluded_from_update EMBEDDING_VECTORS n) vs"
  have null: "map_of vs ''original_text'' = Some (BTextOpt None)"
    using bound_column [OF bound embedding_columns(2,1)] no_text by simp
  then have "map_of ?new ''original_text'' = Some (BTextOpt None)"
    using map_of_filter_fst [where P = "\<lambda>n. \<not> excluded_from_update EMBEDDING_VECTORS n",
        OF embedding_columns(3), of vs] by (rule trans [rotated])
  then have "\<not> not_null_ok (data_table EMBEDDING_VECTORS) vs" "\<not> not_null_ok (data_table EMBEDDING_VECTORS) ?new"
    using null embedding_columns(4) by (auto simp: not_null_ok_def list_all_iff)
  then have "isl (insert_row EMBEDDING_VECTORS vs h db1)" "isl (update_row EMBEDDING_VECTORS vs h hit db1)" for hit
    by (auto simp: insert_row_def update_row_def Let_def)
  moreover have "mode EMBEDDING_VECTORS = LastWriteWins" by (simp add: EMBEDDING_VECTORS_def)
  ultimately have "isl (merge_last_write_wins env EMBEDDING_VECTORS ks row h None (db1, res))"
    using bound wins
    by (cases "select_local_match EMBEDDING_VECTORS ks db1")
      (simp_all add: merge_last_write_wins_def bind_and_insert_def remote_wins_def Let_def isl_bind)
  then show ?thesis
    using keys hlc live \<open>mode EMBEDDING_VECTORS = LastWriteWins\<close> by (simp add: merge_row_def)
qed

subsection \<open>Segments before their regime\<close>

lemma segment_columns:
  "distinct (map col_name (columns ACTIVITY_SEGMENTS))"
  "list_ex (\<lambda>c. col_name c = ''regime_id'' \<and> col_kind c = KTextOptional \<and> \<not> extractor_only c)
     (columns ACTIVITY_SEGMENTS)"
  by (simp_all add: descriptor_defs)

text \<open> The merger inserts the segments of a changeset before its regimes, while the foreign key from
  a segment to its regime is checked at once: a new segment whose regime this device does not have
  yet fails the merge of the whole changeset, and every change in it is rolled back, also when the
  changeset carries the regime.\<close>

theorem segment_before_its_regime_aborts:
  assumes data: "kind cs = Data" "cs_origin cs \<noteq> local" "tombstones cs = []"
    and first: "segments cs = row # rows" "\<not> hlc_drift_rejected env row"
    and keys: "pk_values ACTIVITY_SEGMENTS row = Inr ks" and hlc: "extract_hlc row = Inr (Some h)"
    and live: "tombstone_suppresses (data_table ACTIVITY_SEGMENTS) (tombstone_key ACTIVITY_SEGMENTS ks)
      (stamp h) db = (False, live_db)"
    and new: "\<not> list_ex (pk_match ACTIVITY_SEGMENTS ks) (synced db (data_table ACTIVITY_SEGMENTS))"
    and bound: "bind_all_columns (hex_decode env) ACTIVITY_SEGMENTS row = Inr (Some vs)"
    and regime: "json_str_opt row ''regime_id'' = Some g"
    and unknown: "\<not> list_ex (\<lambda>p. text_cell p ''id'' = Some g) (synced db ''regimes'')"
  shows "\<exists>e. apply_locked env local cs db = (Inl e, db)"
proof -
  have syn: "synced live_db = synced db" by (rule suppresses_other(1) [OF live])
  have seg: "data_table ACTIVITY_SEGMENTS = ''activity_segments''" "mode ACTIVITY_SEGMENTS = AppendOnly"
    "pk ACTIVITY_SEGMENTS = Simple ''id''" by (simp_all add: ACTIVITY_SEGMENTS_def)
  have "map_of vs ''regime_id'' = Some (BTextOpt (Some g))"
    using bound_column [OF bound segment_columns(2,1)] regime by simp
  then have cell: "text_cell \<lparr>rowid = n, row_cols = vs, row_hlc = h\<rparr> ''regime_id'' = Some g" for n
    by (simp add: text_cell_def)
  have "isl (insert_row ACTIVITY_SEGMENTS vs h live_db)"
    using unknown cell
    by (simp add: insert_row_def finish_stmt_def fk_ok_def FOREIGN_KEYS_def set_table_def seg syn)
  then have stop: "isl (merge_row env ACTIVITY_SEGMENTS row (db, res))" for res
    using keys hlc live bound new
    by (auto simp: merge_row_def seg syn merge_append_only_def bind_and_insert_def isl_def)
  have "isl (try_fold (merge_guarded env) (changeset_rows cs) (db, sync_result_default))"
    using first stop [of sync_result_default] by (auto simp: changeset_rows_def merge_guarded_def isl_def)
  then obtain e where "apply_data env local cs db = Inl e"
    using data by (auto simp: apply_data_def isl_def)
  then show ?thesis using data by (simp add: apply_locked_def)
qed

definition segment_json :: json where
  "segment_json =
     JObj [(''id'', JStr ''s1''), (''start_time'', JStr ''t''), (''end_time'', JStr ''t''),
           (''duration_secs'', JInt 60), (''regime_id'', JStr ''g1''), (''dominant_category'', JStr ''c''),
           (''hlc_wall_ms'', JInt 4), (''hlc_counter'', JInt 0), (''origin_device_id'', JStr ''B'')]"

theorem segment_before_its_regime_aborts_witness:
  "let cs = (empty_changes ''B'')\<lparr>segments := [segment_json], regimes := [regime_json ''l'' 3]\<rparr>
   in (\<exists>e. apply_locked sync_sample ''A'' cs empty_db = (Inl e, empty_db)) \<and>
      \<not> isl (fst (apply_locked sync_sample ''A'' (cs\<lparr>segments := []\<rparr>) empty_db))"
proof -
  let ?cs = "(empty_changes ''B'')\<lparr>segments := [segment_json], regimes := [regime_json ''l'' 3]\<rparr>"
  obtain vs where vs: "bind_all_columns (hex_decode sync_sample) ACTIVITY_SEGMENTS segment_json = Inr (Some vs)"
    by (simp add: sync_eval segment_json_def)
  have "\<exists>e. apply_locked sync_sample ''A'' ?cs empty_db = (Inl e, empty_db)"
    by (rule segment_before_its_regime_aborts [where ks = "[''s1'']" and h = "Hlc 4 0 ''B''" and g = "''g1''"
          and row = segment_json and rows = "[]" and vs = vs and live_db = empty_db])
      (simp_all add: vs, simp_all add: sync_eval segment_json_def empty_changes_def empty_db_def sync_sample_def)
  moreover have "\<not> isl (fst (apply_locked sync_sample ''A'' (?cs\<lparr>segments := []\<rparr>) empty_db))"
    by (simp add: sync_eval regime_json_def empty_changes_def empty_db_def sync_sample_def)
  ultimately show ?thesis unfolding Let_def by blast
qed

subsection \<open>Lifting a tombstone\<close>

definition suggestion_json :: "string \<Rightarrow> json \<Rightarrow> int \<Rightarrow> json" where
  "suggestion_json text acted wall =
     JObj [(''suggestion_id'', JStr ''x''), (''suggestion_type'', JStr ''t''), (''source'', JStr ''s''),
           (''content'', JStr text), (''priority'', JStr ''p''), (''confidence_score'', JInt 0),
           (''relevance_score'', JInt 0), (''is_actionable'', JInt 1), (''acted_at'', acted),
           (''created_at'', JStr ''t''), (''hlc_wall_ms'', JInt wall), (''hlc_counter'', JInt 0),
           (''origin_device_id'', JStr ''B'')]"

definition embedding_json :: "string \<Rightarrow> int \<Rightarrow> json" where
  "embedding_json hex wall =
     JObj [(''segment_id'', JStr ''s''), (''content_type'', JStr ''t''), (''original_text'', JStr ''o''),
           (''vector'', JStr hex), (''model_id'', JStr ''m''), (''timestamp'', JStr ''t''),
           (''hlc_wall_ms'', JInt wall), (''hlc_counter'', JInt 0), (''origin_device_id'', JStr ''B'')]"

definition tombstone_at :: "string \<Rightarrow> string \<Rightarrow> Tombstone" where
  "tombstone_at table i =
     \<lparr>t_table = table, t_row_id = i, t_origin = ''B'', t_wall = 5, t_counter = 0, t_deleted_at = ''d''\<rparr>"

text \<open>In the two remaining tables an erased row can return. A suggestion erased at stamp 5: a copy
  stamped 7 lifts the tombstone, and the erased copy stamped 3 then replaces it because it carries
  a higher status. An embedding erased at stamp 5: a copy stamped 7 with a corrupt vector is
  skipped, but not before it lifted the tombstone, and the erased copy stamped 3 is accepted.\<close>

theorem erased_row_can_return:
  "(let T = ''suggestions'';
       cs = (empty_changes ''B'')\<lparr>suggestions :=
              [suggestion_json ''new'' JNull 7, suggestion_json ''erased'' (JStr ''t'') 3]\<rparr>;
       db = empty_db\<lparr>suppression := [tombstone_at T ''x'']\<rparr>;
       db' = snd (apply_locked sync_sample ''A'' cs db)
   in map (\<lambda>r. (text_cell r ''content'', stamp (row_hlc r))) (synced db' T) = [(Some ''erased'', (3, 0))] \<and>
      suppression db' = []) \<and>
   (let T = ''embedding_vectors'';
       cs = (empty_changes ''B'')\<lparr>embeddings := [embedding_json ''zz'' 7, embedding_json ''00'' 3]\<rparr>;
       db = empty_db\<lparr>suppression := [tombstone_at T (''s'' @ [EMB_KEY_SEP] @ ''m'')]\<rparr>;
       db' = snd (apply_locked sync_sample ''A'' cs db)
   in map (\<lambda>r. stamp (row_hlc r)) (synced db' T) = [(3, 0)] \<and> suppression db' = [])"
  by (simp add: sync_eval suggestion_json_def embedding_json_def tombstone_at_def empty_changes_def
      empty_db_def sync_sample_def)

text \<open>
  A deletion event fails half way when a regime of the erasing device is still the regime of a
  segment of another device: its own segments are gone, its regimes are not.
\<close>

definition segment_row :: "nat \<Rightarrow> string \<Rightarrow> string \<Rightarrow> SyncRow" where
  "segment_row n i dev =
     \<lparr>rowid = n, row_cols = [(''id'', BText i), (''regime_id'', BTextOpt (Some ''g1''))], row_hlc = Hlc 2 0 dev\<rparr>"

definition regime_row :: SyncRow where
  "regime_row = \<lparr>rowid = 0, row_cols = [(''id'', BText ''g1'')], row_hlc = Hlc 2 0 ''B''\<rparr>"

lemma deletion_event_stops_at_shared_regime:
  "let db = set_table ''regimes'' [regime_row]
              (set_table ''activity_segments'' [segment_row 0 ''a'' ''A'', segment_row 1 ''b'' ''B''] empty_db);
       (out, db') = apply_locked sync_sample ''A'' ((empty_changes ''B'')\<lparr>kind := DeletionEvent\<rparr>) db
   in isl out \<and> map rowid (synced db' ''activity_segments'') = [0] \<and> synced db' ''regimes'' = [regime_row]"
  by (simp add: sync_eval segment_row_def regime_row_def empty_changes_def empty_db_def sync_sample_def)

end
