(* ===== verification/Sync_Replication.thy ===== *)
theory Sync_Replication
  imports Sync_Extractor
begin

text \<open>
  What extraction promises: the watermark bounds everything stored, a push holds exactly the new rows
  of its device, columns behind a closed flag stay home, and a row that is extracted and bound again
  on the other device arrives unchanged.
\<close>

subsection \<open>The watermark\<close>

lemma raise_max_Max: "raise_max m hs = Max (insert m (set hs))"
proof -
  have "(\<lambda>m h. if m < h then h else m) = (max :: Hlc \<Rightarrow> Hlc \<Rightarrow> Hlc)" by (auto simp: fun_eq_iff max_def)
  moreover have "(\<lambda>h m. max m h) = (max :: Hlc \<Rightarrow> Hlc \<Rightarrow> Hlc)" by (intro ext) (rule max.commute)
  ultimately have "raise_max m hs = fold max hs m" by (simp add: raise_max_def foldl_conv_fold)
  then show ?thesis by (simp add: Max.set_eq_fold [symmetric])
qed

lemma raise_max_upper: "m \<le> raise_max m hs" "h \<in> set hs \<Longrightarrow> h \<le> raise_max m hs"
  by (simp_all add: raise_max_Max)

lemma table_max_upper:
  "t \<in> set ts \<Longrightarrow> r \<in> set (f t) \<Longrightarrow> row_hlc r \<le> foldl (\<lambda>m t. raise_max m (map row_hlc (f t))) m ts"
  "m \<le> foldl (\<lambda>m t. raise_max m (map row_hlc (f t))) m ts"
proof -
  show low: "m \<le> foldl (\<lambda>m t. raise_max m (map row_hlc (f t))) m ts" for m ts
    by (induction ts arbitrary: m) (auto intro: order.trans raise_max_upper(1))
  show "t \<in> set ts \<Longrightarrow> r \<in> set (f t) \<Longrightarrow> row_hlc r \<le> foldl (\<lambda>m t. raise_max m (map row_hlc (f t))) m ts"
  proof (induction ts arbitrary: m)
    case (Cons u ts)
    show ?case
    proof (cases "t = u")
      case True
      then have "row_hlc r \<le> raise_max m (map row_hlc (f u))" using Cons.prems(2) by (intro raise_max_upper(2)) simp
      then show ?thesis using low [of "raise_max m (map row_hlc (f u))" ts] by simp
    qed (use Cons in simp)
  qed simp
qed

lemma stored_below_watermark:
  "t \<in> set ALL_TABLE_NAMES \<Longrightarrow> r \<in> set (synced db t) \<Longrightarrow> row_hlc r \<le> compute_max_hlc db"
  "s \<in> set (suppression db) \<Longrightarrow> tombstone_hlc s \<le> compute_max_hlc db"
  unfolding compute_max_hlc_def
  using table_max_upper(1) [of t ALL_TABLE_NAMES r "synced db" Hlc_default] raise_max_upper
  by (auto intro: order.trans)

subsection \<open>What a changeset holds\<close>

lemma set_changed_rows:
  "set (changed_rows since scope rows) =
     {r \<in> set rows. since < row_hlc r \<and> (\<forall>d. scope = Some d \<longrightarrow> origin_of r = d)}"
  by (auto simp: changed_rows_def split: option.splits)

lemma content_type_json:
  "json_get (row_json x cfg EMBEDDING_VECTORS r) ''content_type'' =
     Some (case map_of (row_cols r) ''content_type'' of None \<Rightarrow> JNull | Some v \<Rightarrow> bound_json x v)"
  by (simp add: row_json_def descriptor_defs cell_json_def)

lemma changeset_row_iff:
  assumes "desc \<in> set SYNC_TABLES"
  shows "(desc, j) \<in> set (changeset_rows (extract_changeset_blocking x cfg device name since True db)) \<longleftrightarrow>
    (\<exists>r \<in> set (synced db (data_table desc)). j = row_json x cfg desc r \<and> since < row_hlc r \<and> origin_of r = device \<and>
       (desc = EMBEDDING_VECTORS \<and> \<not> include_llm_summary cfg \<longrightarrow> \<not> is_summary j))"
proof -
  have rows: "(d, j) \<in> set (changeset_rows cs) \<longleftrightarrow>
      d = ACTIVITY_SEGMENTS \<and> j \<in> set (segments cs) \<or> d = REGIME_OVERRIDES \<and> j \<in> set (overrides cs) \<or>
      d = TRIGGER_PARAMS_SNAPSHOTS \<and> j \<in> set (param_snapshots cs) \<or> d = REGIMES \<and> j \<in> set (regimes cs) \<or>
      d = EMBEDDING_VECTORS \<and> j \<in> set (embeddings cs) \<or> d = SUGGESTIONS \<and> j \<in> set (suggestions cs)" for d j cs
    by (auto simp: changeset_rows_def)
  have dist: "distinct SYNC_TABLES" using distinct_tables by (simp add: distinct_map)
  have q: "j \<in> set (query_table_changes x cfg d since (Some device) db) \<longleftrightarrow>
      (\<exists>r \<in> set (synced db (data_table d)). j = row_json x cfg d r \<and> since < row_hlc r \<and> origin_of r = device)" for d j
    by (auto simp: query_table_changes_def set_changed_rows)
  from assms consider "desc = ACTIVITY_SEGMENTS" | "desc = REGIME_OVERRIDES" | "desc = TRIGGER_PARAMS_SNAPSHOTS"
    | "desc = REGIMES" | "desc = EMBEDDING_VECTORS" | "desc = SUGGESTIONS"
    by (auto simp: SYNC_TABLES_def)
  then show ?thesis
    using dist unfolding SYNC_TABLES_def
    by cases (auto simp: rows extract_changeset_blocking_def Let_def q split: if_splits)
qed

subsection \<open>Projected columns\<close>

definition trailer_names :: "string list" where
  "trailer_names = [''hlc_wall_ms'', ''hlc_counter'', ''origin_device_id'']"

lemma descriptor_names:
  "desc \<in> set SYNC_TABLES \<Longrightarrow> distinct (map col_name (columns desc) @ trailer_names)"
proof -
  have "list_all (\<lambda>d. distinct (map col_name (columns d) @ trailer_names)) SYNC_TABLES"
    by (simp add: SYNC_TABLES_def descriptor_defs trailer_names_def)
  then show "desc \<in> set SYNC_TABLES \<Longrightarrow> distinct (map col_name (columns desc) @ trailer_names)"
    by (simp only: list_all_iff)
qed

lemma map_of_projection:
  "distinct (map f cs) \<Longrightarrow> c \<in> set cs \<Longrightarrow>
     map_of (map (\<lambda>c. (f c, g c)) (filter P cs)) (f c) = (if P c then Some (g c) else None)"
proof (induction cs)
  case (Cons d cs)
  have "map_of (map (\<lambda>c. (f c, g c)) (filter P cs)) (f d) = None"
    using Cons.prems(1) by (auto simp: map_of_eq_None_iff)
  moreover have "f c \<noteq> f d" if "c \<noteq> d" using Cons.prems that by (auto simp: image_iff)
  ultimately show ?case using Cons by (cases "c = d") auto
qed simp

lemma json_get_column:
  assumes "desc \<in> set SYNC_TABLES" and "c \<in> set (columns desc)"
  shows "json_get (row_json x cfg desc r) (col_name c) =
    (if gate_is_open (extractor_gate c) cfg then Some (cell_json x c r) else None)"
proof -
  have "col_name c \<notin> set trailer_names" and "distinct (map col_name (columns desc))"
    using descriptor_names [OF assms(1)] assms(2) by auto
  then show ?thesis
    using map_of_projection [OF _ assms(2), of col_name "\<lambda>c. cell_json x c r" "\<lambda>c. gate_is_open (extractor_gate c) cfg"]
    by (auto simp: row_json_def trailer_names_def map_add_def)
qed

lemma json_get_absent:
  assumes "n \<notin> col_name ` set (columns desc)" and "n \<notin> set trailer_names"
  shows "json_get (row_json x cfg desc r) n = None"
proof -
  have "n \<notin> fst ` set (map (\<lambda>c. (col_name c, cell_json x c r)) (filter (\<lambda>c. gate_is_open (extractor_gate c) cfg) (columns desc)))"
    using assms(1) by auto
  then show ?thesis using assms(2) by (auto simp: row_json_def trailer_names_def map_add_def map_of_eq_None_iff split: option.splits)
qed

lemma json_get_trailer:
  assumes "desc \<in> set SYNC_TABLES"
  shows "json_get (row_json x cfg desc r) ''hlc_wall_ms'' = Some (JInt (uint (wall_ms (row_hlc r))))"
    "json_get (row_json x cfg desc r) ''hlc_counter'' = Some (JInt (uint (counter (row_hlc r))))"
    "json_get (row_json x cfg desc r) ''origin_device_id'' = Some (JStr (origin_of r))"
proof -
  have "map_of (map (\<lambda>c. (col_name c, cell_json x c r)) (filter (\<lambda>c. gate_is_open (extractor_gate c) cfg) (columns desc))) n = None"
    if "n \<in> set trailer_names" for n
    using descriptor_names [OF assms] that by (auto simp: map_of_eq_None_iff)
  then show "json_get (row_json x cfg desc r) ''hlc_wall_ms'' = Some (JInt (uint (wall_ms (row_hlc r))))"
    "json_get (row_json x cfg desc r) ''hlc_counter'' = Some (JInt (uint (counter (row_hlc r))))"
    "json_get (row_json x cfg desc r) ''origin_device_id'' = Some (JStr (origin_of r))"
    by (simp_all add: row_json_def trailer_names_def map_add_def)
qed

text \<open>The columns behind a flag, and the flag of each.\<close>

definition gated_columns :: "(string \<times> (SyncConfig \<Rightarrow> bool)) list" where
  "gated_columns =
     [(''llm_summary'', include_llm_summary), (''llm_summary_status_json'', include_llm_summary),
      (''content_activities_json'', include_content_activities), (''original_text'', include_embedding_text)]"

lemma gate_flags:
  "list_all (\<lambda>d. list_all (\<lambda>c. list_all (\<lambda>(n, flag). col_name c = n \<longrightarrow>
     gate_is_open (extractor_gate c) cfg = flag cfg) gated_columns) (columns d)) SYNC_TABLES"
  by (simp add: SYNC_TABLES_def descriptor_defs gated_columns_def)

lemma gated_column_closed:
  assumes "desc \<in> set SYNC_TABLES" and "(n, flag) \<in> set gated_columns" and "\<not> flag cfg"
  shows "json_get (row_json x cfg desc r) n = None"
proof (cases "n \<in> col_name ` set (columns desc)")
  case True
  then obtain c where c: "c \<in> set (columns desc)" "col_name c = n" by blast
  then have "\<not> gate_is_open (extractor_gate c) cfg"
    using assms gate_flags [of cfg] by (fastforce simp: list_all_iff)
  then show ?thesis using json_get_column [OF assms(1) c(1)] c(2) by simp
next
  case False
  then show ?thesis
    using assms(2) by (intro json_get_absent) (auto simp: gated_columns_def trailer_names_def)
qed

text \<open> A push holds exactly the rows its device authored after the watermark it starts from (summary
  embeddings only with the summary flag), none of them beyond the new watermark, and no row carries a
  column whose flag is off.\<close>

theorem push_exact_and_minimised:
  assumes "get_local_changes_since h x cfg device name since g = (cs, g')" and "desc \<in> set SYNC_TABLES"
  shows "((desc, j) \<in> set (changeset_rows cs) \<longleftrightarrow>
      (\<exists>r \<in> set (synced (conn g') (data_table desc)). j = row_json x cfg desc r \<and> since < row_hlc r \<and>
         origin_of r = device \<and> (desc = EMBEDDING_VECTORS \<and> \<not> include_llm_summary cfg \<longrightarrow> \<not> is_summary j))) \<and>
    (\<forall>r \<in> set (synced (conn g') (data_table desc)). row_hlc r \<le> watermark cs) \<and>
    ((desc, j) \<in> set (changeset_rows cs) \<longrightarrow>
      (\<forall>(n, flag) \<in> set gated_columns. \<not> flag cfg \<longrightarrow> json_get j n = None) \<and>
      json_get j ''origin_device_id'' = Some (JStr device))"
proof -
  have cs: "cs = extract_changeset_blocking x cfg device name since True (conn g')"
    using assms(1) by (auto simp: get_local_changes_since_def extract_with_scope_def Let_def)
  have wm: "watermark cs = compute_max_hlc (conn g')" by (simp add: cs extract_changeset_blocking_def Let_def)
  have "data_table desc \<in> set ALL_TABLE_NAMES" using assms(2) by (simp add: ALL_TABLE_NAMES_def)
  then have "\<forall>r \<in> set (synced (conn g') (data_table desc)). row_hlc r \<le> watermark cs"
    using stored_below_watermark(1) wm by simp
  moreover have "(\<forall>(n, flag) \<in> set gated_columns. \<not> flag cfg \<longrightarrow> json_get j n = None) \<and>
      json_get j ''origin_device_id'' = Some (JStr device)" if sent: "(desc, j) \<in> set (changeset_rows cs)"
  proof -
    obtain r where r: "j = row_json x cfg desc r" "origin_of r = device"
      using sent changeset_row_iff [OF assms(2)] cs by blast
    show ?thesis
      using gated_column_closed [OF assms(2)] json_get_trailer(3) [OF assms(2)] r by auto
  qed
  ultimately show ?thesis using changeset_row_iff [OF assms(2)] cs by blast
qed

subsection \<open>Extraction and binding\<close>

text \<open>A stored cell as the schema and the codec of its column allow it.\<close>

fun typed_cell :: "extract_env \<Rightarrow> (string \<Rightarrow> u8 list option) \<Rightarrow> ColumnKind \<Rightarrow> BoundValue option \<Rightarrow> bool" where
  "typed_cell x dec KText (Some (BText s)) = True"
| "typed_cell x dec (KTextDefault d) (Some (BText s)) = True"
| "typed_cell x dec KTextOptional (Some (BTextOpt t)) = True"
| "typed_cell x dec KInteger (Some (BInt i)) = (- (2 ^ 63) \<le> i \<and> i < 2 ^ 63)"
| "typed_cell x dec (KIntegerDefault d) (Some (BInt i)) = (- (2 ^ 63) \<le> i \<and> i < 2 ^ 63)"
| "typed_cell x dec KReal (Some (BReal v)) = (as_f64 (real_json x v) = Some v)"
| "typed_cell x dec KHexBlob (Some (BBlob b)) = (dec (hex_encode x b) = Some b)"
| "typed_cell x dec _ _ = False"

definition typed_row ::
  "extract_env \<Rightarrow> (string \<Rightarrow> u8 list option) \<Rightarrow> TableDescriptor \<Rightarrow> SyncRow \<Rightarrow> bool" where
  "typed_row x dec desc r \<longleftrightarrow>
     list_all (\<lambda>c. extractor_only c \<or> typed_cell x dec (col_kind c) (map_of (row_cols r) (col_name c))) (columns desc)"

text \<open>The value a column has on the other side: the stored one, or the default behind a closed gate.\<close>

definition arrives :: "SyncConfig \<Rightarrow> ColumnSpec \<Rightarrow> SyncRow \<Rightarrow> BoundValue" where
  "arrives cfg c r =
     (if gate_is_open (extractor_gate c) cfg then the (map_of (row_cols r) (col_name c))
      else case col_kind c of KTextDefault d \<Rightarrow> BText d | _ \<Rightarrow> BTextOpt None)"

lemma gated_kinds:
  "desc \<in> set SYNC_TABLES \<Longrightarrow> c \<in> set (columns desc) \<Longrightarrow> \<not> gate_is_open (extractor_gate c) cfg \<Longrightarrow>
     (case col_kind c of KTextDefault d \<Rightarrow> True | KTextOptional \<Rightarrow> True | _ \<Rightarrow> False)"
proof -
  have "list_all (\<lambda>d. list_all (\<lambda>c. gate_is_open (extractor_gate c) cfg \<or>
      (case col_kind c of KTextDefault d \<Rightarrow> True | KTextOptional \<Rightarrow> True | _ \<Rightarrow> False)) (columns d)) SYNC_TABLES"
    by (simp add: SYNC_TABLES_def descriptor_defs)
  then show "desc \<in> set SYNC_TABLES \<Longrightarrow> c \<in> set (columns desc) \<Longrightarrow> \<not> gate_is_open (extractor_gate c) cfg \<Longrightarrow>
      (case col_kind c of KTextDefault d \<Rightarrow> True | KTextOptional \<Rightarrow> True | _ \<Rightarrow> False)"
    by (auto simp only: list_all_iff)
qed

lemma as_str_bound [simp]: "as_str (bound_json x (BTextOpt t)) = t"
  by (cases t) auto

lemma extract_col_arrives:
  assumes desc: "desc \<in> set SYNC_TABLES" and c: "c \<in> set (columns desc)" "\<not> extractor_only c"
    and typed: "typed_row x dec desc r"
  shows "extract_col dec c (row_json x cfg desc r) = Inr (Some (arrives cfg c r))"
proof (cases "gate_is_open (extractor_gate c) cfg")
  case True
  have get: "json_get (row_json x cfg desc r) (col_name c) = Some (cell_json x c r)"
    using json_get_column [OF desc c(1)] True by simp
  have cell: "typed_cell x dec (col_kind c) (map_of (row_cols r) (col_name c))"
    using typed c by (auto simp: typed_row_def list_all_iff)
  then obtain v where v: "map_of (row_cols r) (col_name c) = Some v"
    by (cases "map_of (row_cols r) (col_name c)") auto
  then show ?thesis
    using cell True c(2) get
    by (cases "(x, dec, col_kind c, map_of (row_cols r) (col_name c))" rule: typed_cell.cases)
      (auto simp: extract_col_def arrives_def json_str_def json_str_opt_def json_str_or_default_def
        json_i64_def json_i64_or_default_def json_f64_def cell_json_def Let_def split: option.splits)
next
  case False
  then have "json_get (row_json x cfg desc r) (col_name c) = None"
    using json_get_column [OF desc c(1)] by simp
  then show ?thesis
    using gated_kinds [OF desc c(1) False] False
    by (cases "col_kind c") (auto simp: extract_col_def arrives_def json_str_opt_def json_str_or_default_def)
qed

definition carried :: "SyncConfig \<Rightarrow> TableDescriptor \<Rightarrow> SyncRow \<Rightarrow> (string \<times> BoundValue) list" where
  "carried cfg desc r =
     map (\<lambda>c. (col_name c, arrives cfg c r)) (filter (\<lambda>c. \<not> extractor_only c) (columns desc))"

lemma bind_columns_carried:
  assumes "\<And>c. c \<in> set cs \<Longrightarrow> \<not> extractor_only c \<Longrightarrow> extract_col dec c j = Inr (Some (f c))"
  shows "bind_columns dec j cs = Inr (Some (map (\<lambda>c. (col_name c, f c)) (filter (\<lambda>c. \<not> extractor_only c) cs)))"
  using assms by (induction cs) auto

lemma extract_then_bind:
  assumes "desc \<in> set SYNC_TABLES" and "typed_row x dec desc r"
  shows "bind_all_columns dec desc (row_json x cfg desc r) = Inr (Some (carried cfg desc r))"
  unfolding bind_all_columns_def carried_def
  by (rule bind_columns_carried) (rule extract_col_arrives [OF assms(1) _ _ assms(2)])

lemma extract_then_hlc:
  assumes "desc \<in> set SYNC_TABLES"
  shows "extract_hlc (row_json x cfg desc r) = Inr (Some (row_hlc r))"
proof -
  have small: "uint (counter (row_hlc r)) < 2 ^ 32" "uint (wall_ms (row_hlc r)) < 2 ^ 64"
    using uint_lt2p [of "counter (row_hlc r)"] uint_lt2p [of "wall_ms (row_hlc r)"] by simp_all
  have wide: "of_int (uint (counter (row_hlc r))) = (ucast (counter (row_hlc r)) :: u64)" by simp
  have below: "(ucast (counter (row_hlc r)) :: u64) < 2 ^ 32"
    using small(1) by (simp add: word_less_def uint_up_ucast is_up)
  have again: "ucast (ucast (counter (row_hlc r)) :: u64) = (counter (row_hlc r) :: u32)"
    by (simp add: ucast_up_ucast_id is_up)
  show ?thesis
    using small below again json_get_trailer [OF assms, of x cfg r]
    by (cases "row_hlc r") (simp add: extract_hlc_def extract_hlc_counter_def json_u64_def json_str_def wide)
qed

subsection \<open>From device to device\<close>

lemma regimes_in_tables: "REGIMES \<in> set SYNC_TABLES"
  by (simp add: SYNC_TABLES_def)

lemma regime_gates: "c \<in> set (columns REGIMES) \<Longrightarrow> gate_is_open (extractor_gate c) cfg \<and> \<not> extractor_only c"
proof -
  have "list_all (\<lambda>c. gate_is_open (extractor_gate c) cfg \<and> \<not> extractor_only c) (columns REGIMES)"
    by (simp add: descriptor_defs)
  then show "c \<in> set (columns REGIMES) \<Longrightarrow> gate_is_open (extractor_gate c) cfg \<and> \<not> extractor_only c"
    by (auto simp only: list_all_iff)
qed

lemma carried_regime_cells:
  assumes "typed_row x dec REGIMES r"
  shows "regime_cells (carried cfg REGIMES r) = regime_cells (row_cols r)"
proof -
  have "map_of (carried cfg REGIMES r) n = map_of (row_cols r) n" if "n \<in> set regime_columns" for n
  proof -
    have "n \<in> col_name ` set (columns REGIMES)"
      using that by (auto simp: regime_columns_def descriptor_defs)
    then obtain c where c: "c \<in> set (columns REGIMES)" "col_name c = n" by blast
    have "map_of (carried cfg REGIMES r) n = Some (arrives cfg c r)"
      using map_of_projection [OF regime_table(4) c(1), of "\<lambda>c. arrives cfg c r" "\<lambda>c. \<not> extractor_only c"]
        regime_gates [OF c(1)] c(2) by (simp add: carried_def)
    moreover have "typed_cell x dec (col_kind c) (map_of (row_cols r) n)"
      using assms c regime_gates [OF c(1)] by (auto simp: typed_row_def list_all_iff)
    ultimately show ?thesis
      using regime_gates [OF c(1), of cfg] c(2) by (cases "map_of (row_cols r) n") (auto simp: arrives_def)
  qed
  then show ?thesis by (simp add: regime_cells_def)
qed

lemma regime_id_column: "list_ex (\<lambda>c. col_name c = ''id'' \<and> col_kind c = KText) (columns REGIMES)"
  by (simp add: descriptor_defs)

lemma regime_key_json:
  assumes "typed_row x dec REGIMES r" and "text_cell r ''id'' = Some k"
  shows "pk_values REGIMES (row_json x cfg REGIMES r) = Inr [k]"
proof -
  obtain c where c: "c \<in> set (columns REGIMES)" "col_name c = ''id''" "col_kind c = KText"
    using regime_id_column by (auto simp: list_ex_iff)
  have "typed_cell x dec KText (map_of (row_cols r) ''id'')"
    using assms(1) c regime_gates [OF c(1)] by (auto simp: typed_row_def list_all_iff)
  then have "map_of (row_cols r) ''id'' = Some (BText k)"
    using assms(2) by (cases "(x, dec, KText, map_of (row_cols r) ''id'')" rule: typed_cell.cases) (auto simp: text_cell_def)
  then have "json_get (row_json x cfg REGIMES r) ''id'' = Some (JStr k)"
    using json_get_column [OF regimes_in_tables c(1), of x cfg r] regime_gates [OF c(1), of cfg] c(2)
    by (simp add: cell_json_def)
  then show ?thesis by (simp add: pk_values_def regime_table json_str_def)
qed

lemma pushed_regime_write:
  assumes "typed_row x (hex_decode env) REGIMES r" and "text_cell r ''id'' = Some k"
    and "wall_ms_within_drift_bound (now_ms env) (wall_ms (row_hlc r))"
  shows "regime_write env (REGIMES, row_json x cfg REGIMES r) = Some (k, row_hlc r, regime_cells (row_cols r))"
proof -
  have "json_u64 (row_json x cfg REGIMES r) ''hlc_wall_ms'' = Inr (wall_ms (row_hlc r))"
    using json_get_trailer(1) [OF regimes_in_tables, of x cfg r] uint_lt2p [of "wall_ms (row_hlc r)"]
    by (simp add: json_u64_def)
  then have "\<not> hlc_drift_rejected env (row_json x cfg REGIMES r)"
    using assms(3) by (simp add: hlc_drift_rejected_def)
  then show ?thesis
    using regime_key_json [OF assms(1,2)] extract_then_hlc [OF regimes_in_tables]
      extract_then_bind [OF regimes_in_tables assms(1)] carried_regime_cells [OF assms(1)]
    by (simp add: regime_write_def regime_table)
qed

lemma foreign_regime_write:
  assumes "typed_row x (hex_decode env) REGIMES r"
    and "regime_write env (REGIMES, row_json x cfg REGIMES r) = Some (k, t, v)"
  shows "text_cell r ''id'' = Some k \<and> t = row_hlc r \<and> v = regime_cells (row_cols r)"
proof -
  obtain c where c: "c \<in> set (columns REGIMES)" "col_name c = ''id''" "col_kind c = KText"
    using regime_id_column by (auto simp: list_ex_iff)
  have "typed_cell x (hex_decode env) KText (map_of (row_cols r) ''id'')"
    using assms(1) c regime_gates [OF c(1)] by (auto simp: typed_row_def list_all_iff)
  then obtain i where i: "text_cell r ''id'' = Some i"
    by (cases "(x, hex_decode env, KText, map_of (row_cols r) ''id'')" rule: typed_cell.cases) (auto simp: text_cell_def)
  show ?thesis
    using assms(2) regime_key_json [OF assms(1) i] extract_then_hlc [OF regimes_in_tables]
      extract_then_bind [OF regimes_in_tables assms(1)] carried_regime_cells [OF assms(1)] i
    by (auto simp: regime_write_def regime_table split: if_splits)
qed

text \<open>One version of each regime in a table.\<close>

definition one_per_key :: "SyncRow list \<Rightarrow> bool" where
  "one_per_key rows \<longleftrightarrow> distinct (map (\<lambda>r. text_cell r ''id'') rows)"


definition sample_extract :: extract_env where
  "sample_extract =
     \<lparr>real_json = (\<lambda>v. case v of OfInt i \<Rightarrow> JInt i | Bits b \<Rightarrow> JFloat b), hex_encode = (\<lambda>_. ''00'')\<rparr>"

definition no_flags :: SyncConfig where
  "no_flags = \<lparr>include_content_activities = False, include_llm_summary = False, include_embedding_text = False\<rparr>"

definition sample_regime :: "string \<Rightarrow> u64 \<Rightarrow> SyncRow" where
  "sample_regime dev wall =
     \<lparr>rowid = 1,
      row_cols =
        [(''id'', BText ''g1''), (''label'', BText ''deep work''), (''detected_at'', BText ''t''),
         (''last_seen_at'', BText ''t''), (''occurrence_count'', BInt 7), (''avg_density'', BReal (OfInt 2)),
         (''avg_importance'', BReal (Bits 9)), (''dominant_category'', BText ''c''),
         (''params_snapshot_id'', BTextOpt None), (''is_active'', BInt 1), (''is_deleted'', BInt 0),
         (''deleted_at'', BTextOpt None)],
      row_hlc = Hlc wall 0 dev\<rparr>"

definition sample_store :: "SyncRow list \<Rightarrow> sync_db GuardedConnection" where
  "sample_store rs = \<lparr>conn = set_table ''regimes'' rs empty_db, gc_deletion_flag = 0, gc_erasing = 1\<rparr>"

definition sample_push :: "ChangeSet \<times> sync_db GuardedConnection" where
  "sample_push = get_local_changes_since [False, False] sample_extract no_flags ''B'' ''b'' (Hlc 2 0 [])
     (sample_store [sample_regime ''B'' 3])"

lemma sample_push_rows:
  "synced (conn (snd sample_push)) = (\<lambda>_. [])(''regimes'' := [sample_regime ''B'' 3])"
  "suppression (conn (snd sample_push)) = []"
  by (simp_all add: sample_push_def get_local_changes_since_def extract_with_scope_def guard_run_def write_lock_def
      load_cell_def backfill_origin_device_id_def ALL_TABLE_NAMES_def claim_row_def SYNC_TABLES_def descriptor_defs
      set_table_def sample_store_def sample_regime_def empty_db_def fun_eq_iff)

lemma sample_push_changes:
  "fst sample_push =
     \<lparr>kind = Data, cs_origin = ''B'', cs_origin_name = ''b'', watermark = Hlc 3 0 ''B'', segments = [],
      regimes = [row_json sample_extract no_flags REGIMES (sample_regime ''B'' 3)], overrides = [],
      embeddings = [], suggestions = [], param_snapshots = [], preferences = [], tombstones = []\<rparr>"
proof -
  have "fst sample_push = extract_changeset_blocking sample_extract no_flags ''B'' ''b'' (Hlc 2 0 []) True (conn (snd sample_push))"
    by (simp add: sample_push_def get_local_changes_since_def extract_with_scope_def Let_def)
  moreover have "compute_max_hlc (conn (snd sample_push)) = Hlc 3 0 ''B''"
    by (simp add: compute_max_hlc_def raise_max_def ALL_TABLE_NAMES_def SYNC_TABLES_def descriptor_defs
        sample_push_rows sample_regime_def less_Hlc_def Hlc_default_def)
  moreover have "query_table_changes sample_extract no_flags d (Hlc 2 0 []) (Some ''B'') (conn (snd sample_push)) =
      (if data_table d = ''regimes'' then [row_json sample_extract no_flags d (sample_regime ''B'' 3)] else [])" for d
    by (simp add: query_table_changes_def changed_rows_def sample_push_rows sample_regime_def less_Hlc_def)
  moreover have "data_table ACTIVITY_SEGMENTS \<noteq> ''regimes''" "data_table REGIME_OVERRIDES \<noteq> ''regimes''"
    "data_table TRIGGER_PARAMS_SNAPSHOTS \<noteq> ''regimes''" "data_table EMBEDDING_VECTORS \<noteq> ''regimes''"
    "data_table SUGGESTIONS \<noteq> ''regimes''"
    by (simp_all add: descriptor_defs)
  ultimately show ?thesis
    by (simp add: extract_changeset_blocking_def query_tombstones_since_def sample_push_rows regime_table(1) Let_def)
qed

theorem push_exact_and_minimised_witness:
  "(REGIMES, row_json sample_extract no_flags REGIMES (sample_regime ''B'' 3)) \<in> set (changeset_rows (fst sample_push))"
proof -
  have "get_local_changes_since [False, False] sample_extract no_flags ''B'' ''b'' (Hlc 2 0 [])
      (sample_store [sample_regime ''B'' 3]) = (fst sample_push, snd sample_push)" by (simp add: sample_push_def)
  from push_exact_and_minimised [OF this regimes_in_tables,
      of "row_json sample_extract no_flags REGIMES (sample_regime ''B'' 3)", THEN conjunct1]
  show ?thesis
    using other_tables(4) by (simp add: sample_push_rows regime_table(1) sample_regime_def less_Hlc_def)
qed


end
