(* ===== verification/Sync_Engine.thy ===== *)
theory Sync_Engine
  imports Sync_Replication Consent
begin

text \<open>
  The sync engine, \<open>crates/maekon-core/src/sync_engine.rs\<close>, with the backoff curve of
  \<open>crates/maekon-core/src/backoff.rs\<close>: the erasure announcement, the consent gate, the pull loop, the
  push with its watermark, and the egress ledger. The transport is a parameter, two functions on a
  state of its own; the merger is reached through its port (\<open>change_merger\<close>), interpreted on the SQLite
  merger. What a cycle reads besides its state (consent, clocks, flags, outcomes of the small writes)
  is the record \<open>cycle_env\<close>. The cycle mutex makes a cycle one step. A pull loop that does not end is
  the value \<open>None\<close>.
\<close>

subsection \<open>Backoff\<close>

definition MAX_BACKOFF_EXPONENT :: nat where
  "MAX_BACKOFF_EXPONENT = 10"

definition sat64 :: "nat \<Rightarrow> nat" where
  "sat64 n = min n (2 ^ 64 - 1)"

text \<open>Durations in milliseconds.\<close>

definition exponential_delay :: "u32 \<Rightarrow> nat \<Rightarrow> nat \<Rightarrow> nat" where
  "exponential_delay attempt base limit =
     (let base_ms = sat64 base; max_ms = sat64 limit in
      if base_ms = 0 \<or> max_ms = 0 then 0
      else min (sat64 (base_ms * sat64 (2 ^ min (unat attempt) MAX_BACKOFF_EXPONENT))) max_ms)"

record ErasureBackoff =
  bo_id :: "string option"
  bo_failures :: u32
  bo_retry_after :: "nat option"

definition default_backoff :: ErasureBackoff where
  "default_backoff = \<lparr>bo_id = None, bo_failures = 0, bo_retry_after = None\<rparr>"

subsection \<open>State\<close>

datatype SyncHealthState = NeverRun | Synced | IdleNoExchange | BlockedByConsent | HealthError

fun health_str :: "SyncHealthState \<Rightarrow> string" where
  "health_str NeverRun = ''never_run''"
| "health_str Synced = ''synced''"
| "health_str IdleNoExchange = ''idle_no_exchange''"
| "health_str BlockedByConsent = ''blocked_by_consent''"
| "health_str HealthError = ''error''"

record SyncEngine =
  last_push_watermark :: Hlc
  deletion_pushed :: bool
  last_pushed_erasure_id :: "string option"
  erasure_backoff :: ErasureBackoff
  last_sync_at :: "instant option"
  last_error :: "StorageError option"
  last_health_state :: SyncHealthState

record EgressLedgerRecord =
  record_id :: string
  event_type :: string
  event_id :: string
  byte_count :: int
  recipient_count :: nat
  destination :: string
  disposition :: string
  consent_state :: string
  occurred_at :: string

text \<open>Fixed at construction; a missing sink or store is \<open>False\<close>.\<close>

record engine_cfg =
  eng_device_id :: string
  eng_device_name :: string
  has_egress_sink :: bool
  egress_destination :: string
  has_erasure_store :: bool
  eng_flags :: SyncConfig

record 'tr transport =
  tr_pull :: "Hlc \<Rightarrow> 'tr \<Rightarrow> (StorageError + ChangeSet option) \<times> 'tr"
  tr_push :: "ChangeSet \<Rightarrow> 'tr \<Rightarrow> (StorageError + nat) \<times> 'tr"

record cycle_env =
  ce_cells :: cells
  ce_sync :: sync_env
  ce_extract :: extract_env
  ce_consent :: "ConsentState option"
  ce_now :: instant
  ce_ticks :: nat
  ce_fmt :: "instant \<Rightarrow> string"
  ce_erasure_requested :: "bool option"
  ce_anchor :: "StorageError + Hlc option"
  ce_record_fails :: bool
  ce_ledger_fails :: bool
  ce_size :: "ChangeSet \<Rightarrow> int"
  ce_hlc_json :: "Hlc \<Rightarrow> string"
  ce_rfc3339 :: string

text \<open>
  The world of the engine. \<open>pushed_store\<close> is the durable id of the last announced erasure, \<open>ledger\<close> the
  egress ledger, and \<open>sent\<close> records what was handed to the transport's \<open>push\<close>.
\<close>

record 'tr engine_world =
  engine :: SyncEngine
  store :: "sync_db GuardedConnection"
  pushed_store :: "string option"
  ledger :: "EgressLedgerRecord list"
  wire :: 'tr
  sent :: "ChangeSet list"

definition WEB_ERASURE_ID :: string where
  "WEB_ERASURE_ID = ''web-erasure''"

text \<open>\<open>SyncEngine::new\<close> and \<open>with_erasure_store\<close>: the mirror is read from the store.\<close>

definition engine_new :: "engine_cfg \<Rightarrow> string option \<Rightarrow> SyncEngine" where
  "engine_new cfg stored =
     \<lparr>last_push_watermark = Hlc_default, deletion_pushed = False,
      last_pushed_erasure_id = (if has_erasure_store cfg then stored else None),
      erasure_backoff = default_backoff, last_sync_at = None, last_error = None,
      last_health_state = NeverRun\<rparr>"

subsection \<open>The egress ledger\<close>

text \<open>\<open>INSERT OR IGNORE\<close> on the unique \<open>record_id\<close>.\<close>

definition record_egress :: "EgressLedgerRecord \<Rightarrow> EgressLedgerRecord list \<Rightarrow> EgressLedgerRecord list" where
  "record_egress rec rs = (if record_id rec \<in> record_id ` set rs then rs else rs @ [rec])"

definition show_bool :: "bool \<Rightarrow> string" where
  "show_bool b = (if b then ''true'' else ''false'')"

definition record_push_egress ::
  "engine_cfg \<Rightarrow> cycle_env \<Rightarrow> ChangeSet \<Rightarrow> string \<Rightarrow> string \<Rightarrow> nat \<Rightarrow> 'tr engine_world \<Rightarrow> 'tr engine_world" where
  "record_push_egress cfg env cs ty dedup_key recipients w =
     (if \<not> has_egress_sink cfg \<or> ce_ledger_fails env then w
      else w\<lparr>ledger := record_egress
        \<lparr>record_id = ''egress|'' @ egress_destination cfg @ ''|'' @ ty @ ''|'' @ dedup_key,
         event_type = ty, event_id = ce_hlc_json env (watermark cs), byte_count = ce_size env cs,
         recipient_count = max recipients 1, destination = egress_destination cfg,
         disposition = ''uploaded'',
         consent_state =
           (case ce_consent env of
              None \<Rightarrow> ''cross_device_sync=unmanaged''
            | Some st \<Rightarrow> ''cross_device_sync='' @ show_bool (cross_device_sync_permitted st (ce_now env))),
         occurred_at = ce_rfc3339 env\<rparr> (ledger w)\<rparr>)"

subsection \<open>Erasure announcements\<close>

definition erasure_backoff_active :: "string \<Rightarrow> nat \<Rightarrow> SyncEngine \<Rightarrow> bool" where
  "erasure_backoff_active eid now e \<longleftrightarrow>
     bo_id (erasure_backoff e) = Some eid \<and>
     (case bo_retry_after (erasure_backoff e) of None \<Rightarrow> False | Some t \<Rightarrow> now < t)"

definition bump_erasure_backoff :: "string \<Rightarrow> nat \<Rightarrow> SyncEngine \<Rightarrow> SyncEngine" where
  "bump_erasure_backoff eid now e =
     (let st = (if bo_id (erasure_backoff e) = Some eid then erasure_backoff e
                else \<lparr>bo_id = Some eid, bo_failures = 0, bo_retry_after = None\<rparr>);
          n = saturating_add (bo_failures st) 1;
          delay = exponential_delay (n - 1) 30000 1800000
      in e\<lparr>erasure_backoff := st\<lparr>bo_failures := n, bo_retry_after := Some (now + delay)\<rparr>\<rparr>)"

definition reset_erasure_backoff :: "SyncEngine \<Rightarrow> SyncEngine" where
  "reset_erasure_backoff e = e\<lparr>erasure_backoff := default_backoff\<rparr>"

definition deletion_to_propagate :: "cycle_env \<Rightarrow> SyncEngine \<Rightarrow> (string \<times> bool) option" where
  "deletion_to_propagate env e =
     (let web = (if \<not> deletion_pushed e \<and> ce_erasure_requested env = Some True
                 then Some (WEB_ERASURE_ID, False) else None)
      in case Option.bind (ce_consent env) (pending_erasure_id (ce_fmt env)) of
           None \<Rightarrow> web
         | Some eid \<Rightarrow> if last_pushed_erasure_id e \<noteq> Some eid then Some (eid, True) else web)"

definition deletion_changeset :: "engine_cfg \<Rightarrow> cycle_env \<Rightarrow> ChangeSet" where
  "deletion_changeset cfg env =
     \<lparr>kind = DeletionEvent, cs_origin = eng_device_id cfg, cs_origin_name = eng_device_name cfg,
      watermark = (case ce_anchor env of
                     Inr (Some h) \<Rightarrow> h
                   | _ \<Rightarrow> now_hlc (now_ms (ce_sync env)) (eng_device_id cfg)),
      segments = [], regimes = [], overrides = [], embeddings = [], suggestions = [],
      param_snapshots = [], preferences = [], tombstones = []\<rparr>"

text \<open>\<open>transport.push\<close>, with the record of what was sent.\<close>

definition do_push :: "'tr transport \<Rightarrow> ChangeSet \<Rightarrow> 'tr engine_world \<Rightarrow> (StorageError + nat) \<times> 'tr engine_world" where
  "do_push tr cs w = (let (res, t) = tr_push tr cs (wire w) in (res, w\<lparr>wire := t, sent := sent w @ [cs]\<rparr>))"

definition mark_announced ::
  "engine_cfg \<Rightarrow> cycle_env \<Rightarrow> string \<Rightarrow> bool \<Rightarrow> 'tr engine_world \<Rightarrow> 'tr engine_world" where
  "mark_announced cfg env eid persist w =
     (if \<not> persist then w\<lparr>engine := (engine w)\<lparr>deletion_pushed := True\<rparr>\<rparr>
      else if \<not> has_erasure_store cfg then w\<lparr>engine := (engine w)\<lparr>last_pushed_erasure_id := Some eid\<rparr>\<rparr>
      else if ce_record_fails env then w
      else w\<lparr>pushed_store := Some eid, engine := (engine w)\<lparr>last_pushed_erasure_id := Some eid\<rparr>\<rparr>)"

definition push_deletion_event ::
  "'tr transport \<Rightarrow> engine_cfg \<Rightarrow> cycle_env \<Rightarrow> string \<Rightarrow> bool \<Rightarrow> 'tr engine_world
     \<Rightarrow> (StorageError + bool) \<times> 'tr engine_world" where
  "push_deletion_event tr cfg env eid persist w =
     (let cs = deletion_changeset cfg env in
      case do_push tr cs w of
        (Inl e, w1) \<Rightarrow> (Inl e, w1\<lparr>engine := bump_erasure_backoff eid (ce_ticks env) (engine w1)\<rparr>)
      | (Inr n, w1) \<Rightarrow>
          if n = 0 then (Inr False, w1\<lparr>engine := bump_erasure_backoff eid (ce_ticks env) (engine w1)\<rparr>)
          else (Inr True,
                mark_announced cfg env eid persist
                  (record_push_egress cfg env cs ''DeletionEvent'' eid n
                     (w1\<lparr>engine := reset_erasure_backoff (engine w1)\<rparr>))))"

definition propagate_pending_erasure_status ::
  "'tr transport \<Rightarrow> engine_cfg \<Rightarrow> cycle_env \<Rightarrow> 'tr engine_world
     \<Rightarrow> (StorageError + SyncHealthState option) \<times> 'tr engine_world" where
  "propagate_pending_erasure_status tr cfg env w =
     (case deletion_to_propagate env (engine w) of
        None \<Rightarrow> (Inr None, w)
      | Some (eid, persist) \<Rightarrow>
          if erasure_backoff_active eid (ce_ticks env) (engine w) then (Inr None, w)
          else case push_deletion_event tr cfg env eid persist w of
                 (Inl e, w') \<Rightarrow> (Inl e, w')
               | (Inr delivered, w') \<Rightarrow> (Inr (Some (if delivered then Synced else IdleNoExchange)), w'))"

definition propagate_pending_erasure ::
  "'tr transport \<Rightarrow> engine_cfg \<Rightarrow> cycle_env \<Rightarrow> 'tr engine_world \<Rightarrow> (StorageError + bool) \<times> 'tr engine_world" where
  "propagate_pending_erasure tr cfg env w =
     (case propagate_pending_erasure_status tr cfg env w of
        (Inl e, w') \<Rightarrow> (Inl e, w') | (Inr s, w') \<Rightarrow> (Inr (s \<noteq> None), w'))"

subsection \<open>The cycle\<close>

text \<open>
  The pull loop over any merger, \<open>'g\<close> being what the merger works on. It returns the last merge result
  and whether anything was exchanged.
\<close>

partial_function (option) pull_loop ::
  "'tr transport \<Rightarrow> (ChangeSet \<Rightarrow> 'g \<Rightarrow> (StorageError + SyncResult) \<times> 'g) \<Rightarrow> Hlc \<Rightarrow> SyncResult option \<Rightarrow> bool
     \<Rightarrow> 'tr \<Rightarrow> 'g \<Rightarrow> ((StorageError + SyncResult option \<times> bool) \<times> 'tr \<times> 'g) option" where
  "pull_loop tr ap since acc exchanged t g =
     (case tr_pull tr since t of
        (Inl e, t') \<Rightarrow> Some (Inl e, t', g)
      | (Inr None, t') \<Rightarrow> Some (Inr (acc, exchanged), t', g)
      | (Inr (Some cs), t') \<Rightarrow>
         (case ap cs g of
            (Inl e, g') \<Rightarrow> Some (Inl e, t', g')
          | (Inr res, g') \<Rightarrow>
              if \<not> is_after (new_watermark res) since then Some (Inr (Some res, True), t', g')
              else pull_loop tr ap (new_watermark res) (Some res) True t' g'))"

definition push_phase ::
  "'tr transport \<Rightarrow> engine_cfg \<Rightarrow> cycle_env \<Rightarrow> SyncResult option \<Rightarrow> bool \<Rightarrow> 'tr engine_world
     \<Rightarrow> (StorageError + SyncResult option \<times> SyncHealthState) \<times> 'tr engine_world" where
  "push_phase tr cfg env merge_result exchanged w =
     (let (cs, g) = get_local_changes_since (ce_cells env) (ce_extract env) (eng_flags cfg) (eng_device_id cfg)
                      (eng_device_name cfg) (last_push_watermark (engine w)) (store w);
          w1 = w\<lparr>store := g\<rparr>;
          health = (\<lambda>b. if b then Synced else IdleNoExchange)
      in if changeset_is_empty cs then (Inr (merge_result, health exchanged), w1)
         else case do_push tr cs w1 of
                (Inl e, w2) \<Rightarrow> (Inl e, w2)
              | (Inr delivered, w2) \<Rightarrow>
                 (let result = (case merge_result of None \<Rightarrow> sync_result_default | Some r \<Rightarrow> r)
                                 \<lparr>push_attempted := True, pushed_to_peers := delivered\<rparr>
                  in if delivered = 0 then (Inr (Some result, health exchanged), w2)
                     else (Inr (Some result, Synced),
                           (let w3 = record_push_egress cfg env cs ''CrossDeviceSync''
                                       (ce_hlc_json env (watermark cs)) delivered w2
                            in w3\<lparr>engine := (engine w3)\<lparr>last_push_watermark := watermark cs\<rparr>\<rparr>))))"

definition run_cycle_inner ::
  "'tr transport \<Rightarrow> engine_cfg \<Rightarrow> cycle_env \<Rightarrow> 'tr engine_world
     \<Rightarrow> ((StorageError + SyncResult option \<times> SyncHealthState) \<times> 'tr engine_world) option" where
  "run_cycle_inner tr cfg env w =
     (case propagate_pending_erasure_status tr cfg env w of
        (Inl e, w1) \<Rightarrow> Some (Inl e, w1)
      | (Inr (Some health), w1) \<Rightarrow> Some (Inr (None, health), w1)
      | (Inr None, w1) \<Rightarrow>
          if (case ce_consent env of None \<Rightarrow> False | Some st \<Rightarrow> \<not> cross_device_sync_permitted st (ce_now env))
          then Some (Inr (None, BlockedByConsent), w1)
          else map_option
                 (\<lambda>(out, t, g).
                    let w2 = w1\<lparr>wire := t, store := g\<rparr>
                    in case out of
                         Inl e \<Rightarrow> (Inl e, w2)
                       | Inr (merge_result, exchanged) \<Rightarrow> push_phase tr cfg env merge_result exchanged w2)
                 (pull_loop tr (apply_changes (ce_cells env) (ce_sync env) (eng_device_id cfg)) Hlc_default None False
                    (wire w1) (store w1)))"

definition note_health ::
  "cycle_env \<Rightarrow> (StorageError + SyncResult option \<times> SyncHealthState) \<times> 'tr engine_world
     \<Rightarrow> (StorageError + SyncResult option) \<times> 'tr engine_world" where
  "note_health env out =
     (case out of
        (Inr (res, health), w) \<Rightarrow>
          (Inr res, w\<lparr>engine := (engine w)
             \<lparr>last_sync_at := (if health = Synced then Some (ce_now env) else last_sync_at (engine w)),
              last_error := None, last_health_state := health\<rparr>\<rparr>)
      | (Inl e, w) \<Rightarrow>
          (Inl e, w\<lparr>engine := (engine w)\<lparr>last_error := Some e, last_health_state := HealthError\<rparr>\<rparr>))"

definition run_cycle ::
  "'tr transport \<Rightarrow> engine_cfg \<Rightarrow> cycle_env \<Rightarrow> 'tr engine_world
     \<Rightarrow> ((StorageError + SyncResult option) \<times> 'tr engine_world) option" where
  "run_cycle tr cfg env w = map_option (note_health env) (run_cycle_inner tr cfg env w)"

definition health_status :: "SyncEngine \<Rightarrow> instant option \<times> StorageError option" where
  "health_status e = (last_sync_at e, last_error e)"

definition health_state :: "SyncEngine \<Rightarrow> string" where
  "health_state e = health_str (last_health_state e)"

subsection \<open>The pull loop ends\<close>

text \<open>What the engine needs of a merger: a success reports the watermark of the changeset.\<close>

locale change_merger =
  fixes ap :: "ChangeSet \<Rightarrow> 'g \<Rightarrow> (StorageError + SyncResult) \<times> 'g"
  assumes merged_watermark: "ap cs g = (Inr res, g') \<Longrightarrow> new_watermark res = watermark cs"
begin

lemma pull_loop_ends:
  assumes "finite F" and "\<And>since t cs t'. tr_pull tr since t = (Inr (Some cs), t') \<Longrightarrow> watermark cs \<in> F"
  shows "\<exists>out. pull_loop tr ap since acc exchanged t g = Some out"
proof (induction "card {h \<in> F. since < h}" arbitrary: since acc exchanged t g rule: less_induct)
  case less
  show ?case
  proof (cases "\<exists>cs t' res g'. tr_pull tr since t = (Inr (Some cs), t') \<and> ap cs g = (Inr res, g') \<and> since < new_watermark res")
    case True
    then obtain cs t' res g' where step: "tr_pull tr since t = (Inr (Some cs), t')" "ap cs g = (Inr res, g')"
      and up: "since < new_watermark res" by blast
    have "new_watermark res \<in> F" using merged_watermark [OF step(2)] assms(2) [OF step(1)] by simp
    then have "{h \<in> F. new_watermark res < h} \<subset> {h \<in> F. since < h}" using up by auto
    then have "card {h \<in> F. new_watermark res < h} < card {h \<in> F. since < h}"
      using assms(1) by (intro psubset_card_mono) auto
    then show ?thesis
      using less [of "new_watermark res"] up step by (subst pull_loop.simps) (simp add: is_after_def)
  next
    case False
    then show ?thesis
      by (subst pull_loop.simps) (auto simp: is_after_def split: prod.splits sum.splits option.splits)
  qed
qed

end

lemma apply_changes_watermark:
  assumes "apply_changes h env local cs g = (Inr res, g')"
  shows "new_watermark res = watermark cs"
proof (cases "write_lock h g")
  case Skipped
  then show ?thesis using assms by (auto simp: apply_changes_def guard_run_def)
next
  case (Active db)
  then obtain db' where "apply_locked env local cs db = (Inr res, db')"
    using assms by (auto simp: apply_changes_def guard_run_def split: prod.splits)
  then show ?thesis
    by (auto simp: apply_locked_def apply_data_def Let_def split: if_splits sum.splits prod.splits)
qed

interpretation sqlite_merger: change_merger "apply_changes h env local" for h env local
  by unfold_locales (rule apply_changes_watermark)

end
