(* ===== verification/Sync_Policy.thy ===== *)
theory Sync_Policy
  imports Sync_Engine
begin

text \<open>
  What the engine promises: a cycle ends, nothing but a content-free deletion event leaves without
  consent, each erasure is announced until a peer confirmed it and never again after that, and the
  retries are bounded. The last section shows where the push watermark loses rows.
\<close>

subsection \<open>Cycles return\<close>

lemma finite_hlcs:
  assumes "finite D"
  shows "finite {h. device_id h \<in> D}"
proof -
  have "{h. device_id h \<in> D} = (\<lambda>(w, c, d). Hlc w c d) ` (UNIV \<times> UNIV \<times> D)"
    by (auto simp: image_iff) (metis Hlc.collapse)
  then show ?thesis using assms by simp
qed

text \<open> C40. A sync cycle returns whatever the transport answers, as long as the watermarks it hands out name
  finitely many devices: the pull loop only continues with a higher watermark.\<close>

theorem sync_cycle_returns:
  assumes "finite D" and "\<And>since t cs t'. tr_pull tr since t = (Inr (Some cs), t') \<Longrightarrow> device_id (watermark cs) \<in> D"
  shows "\<exists>out. run_cycle tr cfg env w = Some out"
proof -
  have "pull_loop tr (apply_changes (ce_cells env) (ce_sync env) (eng_device_id cfg)) since acc ex t g \<noteq> None"
    for since acc ex t g
    using sqlite_merger.pull_loop_ends [OF finite_hlcs [OF assms(1)], of tr] assms(2) by (metis mem_Collect_eq option.distinct(1))
  then have "run_cycle_inner tr cfg env w \<noteq> None"
    by (simp add: run_cycle_inner_def del: not_None_eq split: prod.split sum.split option.split)
  then show ?thesis by (auto simp: run_cycle_def)
qed

subsection \<open>What leaves the device\<close>

lemma do_push_world:
  assumes "do_push tr cs w = (res, w')"
  shows "sent w' = sent w @ [cs]" "store w' = store w" "engine w' = engine w" "pushed_store w' = pushed_store w"
  using assms by (auto simp: do_push_def split: prod.splits)

lemma record_push_egress_world [simp]:
  "sent (record_push_egress cfg env cs ty k n w) = sent w" "store (record_push_egress cfg env cs ty k n w) = store w"
  "engine (record_push_egress cfg env cs ty k n w) = engine w"
  "pushed_store (record_push_egress cfg env cs ty k n w) = pushed_store w"
  "wire (record_push_egress cfg env cs ty k n w) = wire w"
  by (simp_all add: record_push_egress_def)

lemma mark_announced_world [simp]:
  "sent (mark_announced cfg env eid persist w) = sent w" "store (mark_announced cfg env eid persist w) = store w"
  "erasure_backoff (engine (mark_announced cfg env eid persist w)) = erasure_backoff (engine w)"
  by (simp_all add: mark_announced_def)

lemma push_deletion_world:
  assumes "push_deletion_event tr cfg env eid persist w = (res, w')"
  shows "sent w' = sent w @ [deletion_changeset cfg env]" "store w' = store w"
proof -
  obtain r w1 where p: "do_push tr (deletion_changeset cfg env) w = (r, w1)" by fastforce
  show "sent w' = sent w @ [deletion_changeset cfg env]" "store w' = store w"
    using assms p do_push_world [OF p]
    by (auto simp: push_deletion_event_def split: sum.splits if_splits)
qed

lemma propagate_cases:
  assumes "propagate_pending_erasure_status tr cfg env w = (out, w')"
  obtains (idle) "out = Inr None" "w' = w"
      "\<And>eid persist. deletion_to_propagate env (engine w) = Some (eid, persist) \<Longrightarrow>
         erasure_backoff_active eid (ce_ticks env) (engine w)"
  | (pushed) eid persist res where "deletion_to_propagate env (engine w) = Some (eid, persist)"
      "\<not> erasure_backoff_active eid (ce_ticks env) (engine w)"
      "push_deletion_event tr cfg env eid persist w = (res, w')" "out \<noteq> Inr None"
  using assms
  by (auto simp: propagate_pending_erasure_status_def split: option.splits if_splits prod.splits sum.splits)

text \<open>A changeset without content.\<close>

definition content_free :: "ChangeSet \<Rightarrow> bool" where
  "content_free cs \<longleftrightarrow> kind cs = DeletionEvent \<and> changeset_row_count cs = 0"

lemma deletion_content_free: "content_free (deletion_changeset cfg env)"
  by (simp add: content_free_def deletion_changeset_def changeset_row_count_def)

lemma denied_cycle:
  assumes "ce_consent env = Some st" and "\<not> cross_device_sync_permitted st (ce_now env)"
    and "propagate_pending_erasure_status tr cfg env w = (out, w1)"
  shows "\<exists>out'. run_cycle_inner tr cfg env w = Some (out', w1) \<and> (\<forall>r h. out' = Inr (r, h) \<longrightarrow> r = None)"
  using assms by (auto simp: run_cycle_inner_def split: sum.splits option.splits)

lemma denied_cycle_returns:
  assumes "ce_consent env = Some st" and "\<not> cross_device_sync_permitted st (ce_now env)"
  shows "\<exists>out w'. run_cycle tr cfg env w = Some (out, w')"
proof -
  obtain out w1 where "propagate_pending_erasure_status tr cfg env w = (out, w1)" by fastforce
  from denied_cycle [OF assms this] show ?thesis by (auto simp: run_cycle_def)
qed

text \<open> C6. Without the cross-device permission a cycle touches neither the stored rows nor the peers, except
  for at most one deletion event, which carries no row; it also returns without any assumption on the
  transport.\<close>

theorem no_consent_no_data:
  assumes "ce_consent env = Some st" and "\<not> cross_device_sync_permitted st (ce_now env)"
  shows "\<exists>out w'. run_cycle tr cfg env w = Some (out, w') \<and> store w' = store w \<and>
    (sent w' = sent w \<or> sent w' = sent w @ [deletion_changeset cfg env]) \<and>
    content_free (deletion_changeset cfg env) \<and> (\<forall>res. out = Inr res \<longrightarrow> res = None)"
proof -
  obtain out w1 where p: "propagate_pending_erasure_status tr cfg env w = (out, w1)" by fastforce
  have w1: "store w1 = store w \<and> (sent w1 = sent w \<or> sent w1 = sent w @ [deletion_changeset cfg env])"
    using p by (cases rule: propagate_cases) (auto dest: push_deletion_world)
  obtain out' where out': "run_cycle_inner tr cfg env w = Some (out', w1)" "\<forall>r h. out' = Inr (r, h) \<longrightarrow> r = None"
    using denied_cycle [OF assms p] by blast
  then show ?thesis
    using w1 deletion_content_free
    by (cases out') (auto simp: run_cycle_def note_health_def split: sum.splits prod.splits)
qed

subsection \<open>Histories of the engine\<close>

datatype 'tr engine_op = Cycle "'tr transport" cycle_env | Announce "'tr transport" cycle_env | Restart

inductive engine_step :: "engine_cfg \<Rightarrow> 'tr engine_op \<Rightarrow> 'tr engine_world \<Rightarrow> 'tr engine_world \<Rightarrow> bool" for cfg where
  cycle: "run_cycle tr cfg env w = Some (out, w') \<Longrightarrow> engine_step cfg (Cycle tr env) w w'"
| announce: "propagate_pending_erasure tr cfg env w = (out, w') \<Longrightarrow> engine_step cfg (Announce tr env) w w'"
| restart: "engine_step cfg Restart w (w\<lparr>engine := engine_new cfg (pushed_store w)\<rparr>)"

inductive engine_path :: "engine_cfg \<Rightarrow> 'tr engine_op list \<Rightarrow> 'tr engine_world \<Rightarrow> 'tr engine_world \<Rightarrow> bool" for cfg where
  Nil: "engine_path cfg [] w w"
| Cons: "engine_step cfg op w w1 \<Longrightarrow> engine_path cfg ops w1 w2 \<Longrightarrow> engine_path cfg (op # ops) w w2"

inductive_cases engine_stepE: "engine_step cfg op w w'"
inductive_simps engine_path_simps: "engine_path cfg [] w w'" "engine_path cfg (op # ops) w w'"

fun op_env :: "'tr engine_op \<Rightarrow> cycle_env option" where
  "op_env (Cycle tr env) = Some env"
| "op_env (Announce tr env) = Some env"
| "op_env Restart = None"

text \<open>What the parts of a cycle leave alone.\<close>

definition same_gate :: "'tr engine_world \<Rightarrow> 'tr engine_world \<Rightarrow> bool" where
  "same_gate w w' \<longleftrightarrow>
     pushed_store w' = pushed_store w \<and> last_pushed_erasure_id (engine w') = last_pushed_erasure_id (engine w) \<and>
     erasure_backoff (engine w') = erasure_backoff (engine w)"

definition sent_data :: "'tr engine_world \<Rightarrow> 'tr engine_world \<Rightarrow> bool" where
  "sent_data w w' \<longleftrightarrow> (\<exists>ds. sent w' = sent w @ ds \<and> list_all (\<lambda>c. kind c = Data) ds)"

lemma extracted_kind: "get_local_changes_since h x f d n s g = (cs, g') \<Longrightarrow> kind cs = Data"
  by (auto simp: get_local_changes_since_def extract_with_scope_def extract_changeset_blocking_def Let_def)

lemma push_phase_world:
  assumes "push_phase tr cfg env m ex w = (out, w')"
  shows "same_gate w w' \<and> sent_data w w'"
proof -
  obtain cs g where ex: "get_local_changes_since (ce_cells env) (ce_extract env) (eng_flags cfg) (eng_device_id cfg)
      (eng_device_name cfg) (last_push_watermark (engine w)) (store w) = (cs, g)" by fastforce
  obtain r w2 where p: "do_push tr cs (w\<lparr>store := g\<rparr>) = (r, w2)" by fastforce
  have w2: "same_gate w w2 \<and> sent_data w w2"
    using do_push_world [OF p] extracted_kind [OF ex] by (simp add: same_gate_def sent_data_def)
  show ?thesis
  proof (cases "changeset_is_empty cs")
    case True
    then have "w' = w\<lparr>store := g\<rparr>" using assms ex by (simp add: push_phase_def)
    then show ?thesis by (simp add: same_gate_def sent_data_def)
  next
    case False
    then have "w' = w2 \<or> (\<exists>k n. w' = (let w3 = record_push_egress cfg env cs ''CrossDeviceSync'' k n w2
        in w3\<lparr>engine := (engine w3)\<lparr>last_push_watermark := watermark cs\<rparr>\<rparr>))"
      using assms ex p by (auto simp: push_phase_def Let_def split: sum.splits if_splits)
    then show ?thesis using w2 by (auto simp: same_gate_def sent_data_def Let_def)
  qed
qed

lemma note_health_world:
  assumes "note_health env out = (res, w')"
  shows "same_gate (snd out) w'" "sent w' = sent (snd out)" "store w' = store (snd out)"
  using assms by (auto simp: note_health_def same_gate_def split: prod.splits sum.splits)

lemma run_cycle_cases:
  assumes "run_cycle tr cfg env w = Some (out, w')" and "propagate_pending_erasure_status tr cfg env w = (st, w1)"
  shows "same_gate w1 w' \<and> sent_data w1 w' \<and> (st \<noteq> Inr None \<longrightarrow> sent w' = sent w1)"
proof -
  obtain out2 w2 where inner: "run_cycle_inner tr cfg env w = Some (out2, w2)" and out: "note_health env (out2, w2) = (out, w')"
    using assms(1) by (auto simp: run_cycle_def)
  have "same_gate w1 w2 \<and> sent_data w1 w2 \<and> (st \<noteq> Inr None \<longrightarrow> sent w2 = sent w1)"
  proof (cases "st = Inr None")
    case False
    then have "w2 = w1" using inner assms(2) by (auto simp: run_cycle_inner_def split: sum.splits option.splits)
    then show ?thesis by (simp add: same_gate_def sent_data_def)
  next
    case True
    then consider "w2 = w1"
      | pull t g where "pull_loop tr (apply_changes (ce_cells env) (ce_sync env) (eng_device_id cfg)) Hlc_default None
          False (wire w1) (store w1) = Some (pull, t, g)"
        "(case pull of Inl e \<Rightarrow> (Inl e, w1\<lparr>wire := t, store := g\<rparr>)
          | Inr (m, ex) \<Rightarrow> push_phase tr cfg env m ex (w1\<lparr>wire := t, store := g\<rparr>)) = (out2, w2)"
      using inner assms(2) by (auto simp: run_cycle_inner_def Let_def split: if_splits)
    then show ?thesis
    proof cases
      case 1
      then show ?thesis by (simp add: same_gate_def sent_data_def)
    next
      case (2 pull t g)
      then consider "w2 = w1\<lparr>wire := t, store := g\<rparr>"
        | m ex where "push_phase tr cfg env m ex (w1\<lparr>wire := t, store := g\<rparr>) = (out2, w2)"
        by (cases pull) auto
      then show ?thesis
        by cases (use True push_phase_world in \<open>fastforce simp: same_gate_def sent_data_def\<close>)+
    qed
  qed
  then show ?thesis using note_health_world [OF out] by (simp add: same_gate_def sent_data_def)
qed

subsection \<open>Announced once\<close>

definition announced :: "string \<Rightarrow> 'tr engine_world \<Rightarrow> bool" where
  "announced eid w \<longleftrightarrow> pushed_store w = Some eid \<and> last_pushed_erasure_id (engine w) = Some eid"

text \<open>No erasure is due but the one of this id, and the web endpoint asked for none.\<close>

definition quiet :: "string \<Rightarrow> 'tr engine_op \<Rightarrow> bool" where
  "quiet eid op \<longleftrightarrow>
     (case op_env op of
        None \<Rightarrow> True
      | Some env \<Rightarrow>
          ce_erasure_requested env \<noteq> Some True \<and>
          (case Option.bind (ce_consent env) (pending_erasure_id (ce_fmt env)) of None \<Rightarrow> True | Some i \<Rightarrow> i = eid))"

lemma announced_nothing_due:
  assumes "announced eid w" and "op_env op = Some env" and "quiet eid op"
  shows "propagate_pending_erasure_status tr cfg env w = (Inr None, w)"
  using assms
  by (auto simp: propagate_pending_erasure_status_def deletion_to_propagate_def announced_def quiet_def
      split: option.splits)

lemma announced_step:
  assumes "engine_step cfg op w w'" and "announced eid w" and "quiet eid op" and "has_erasure_store cfg"
  shows "announced eid w' \<and> sent_data w w'"
  using assms(1)
proof (cases rule: engine_step.cases)
  case (cycle tr env out)
  have "propagate_pending_erasure_status tr cfg env w = (Inr None, w)"
    using announced_nothing_due [OF assms(2) _ assms(3)] cycle(1) by simp
  then show ?thesis
    using run_cycle_cases [OF cycle(2)] assms(2) by (auto simp: same_gate_def announced_def)
next
  case (announce tr env out)
  have "propagate_pending_erasure_status tr cfg env w = (Inr None, w)"
    using announced_nothing_due [OF assms(2) _ assms(3)] announce(1) by simp
  then show ?thesis using announce(2) assms(2) by (auto simp: propagate_pending_erasure_def sent_data_def)
next
  case restart
  then show ?thesis using assms(2,4) by (simp add: announced_def engine_new_def sent_data_def)
qed

lemma sent_data_trans: "sent_data w w1 \<Longrightarrow> sent_data w1 w2 \<Longrightarrow> sent_data w w2"
  by (auto simp: sent_data_def)

lemma announced_path:
  assumes "engine_path cfg ops w w'" and "announced eid w" and "list_all (quiet eid) ops" and "has_erasure_store cfg"
  shows "sent_data w w'"
  using assms
proof (induction rule: engine_path.induct)
  case (Nil w)
  then show ?case by (simp add: sent_data_def)
next
  case (Cons op w w1 ops w2)
  then show ?case using announced_step sent_data_trans by fastforce
qed

lemma delivered_announced:
  assumes "push_deletion_event tr cfg env eid True w = (res, w')" and "has_erasure_store cfg"
    and "fst (tr_push tr (deletion_changeset cfg env) (wire w)) = Inr (Suc n)" and "\<not> ce_record_fails env"
  shows "announced eid w'"
  using assms
  by (cases "tr_push tr (deletion_changeset cfg env) (wire w)")
    (auto simp: push_deletion_event_def do_push_def announced_def mark_announced_def Let_def)

text \<open> C39. A due erasure is announced, and once a peer confirmed it and the confirmation is on disk, no later
  cycle, scheduler call or restart announces it again: whatever is sent afterwards is ordinary data,
  as long as no other erasure becomes due.\<close>

theorem erasure_announced_exactly_once:
  assumes "has_erasure_store cfg" and "deletion_to_propagate env (engine w) = Some (eid, True)"
    and "\<not> erasure_backoff_active eid (ce_ticks env) (engine w)"
    and "fst (tr_push tr (deletion_changeset cfg env) (wire w)) = Inr (Suc n)" and "\<not> ce_record_fails env"
    and "run_cycle tr cfg env w = Some (out, w1)"
    and "engine_path cfg ops w1 w2" and "list_all (quiet eid) ops"
  shows "sent w1 = sent w @ [deletion_changeset cfg env] \<and>
    (\<exists>ds. sent w2 = sent w1 @ ds \<and> list_all (\<lambda>c. kind c = Data) ds)"
proof -
  obtain st w' where st: "propagate_pending_erasure_status tr cfg env w = (st, w')" by fastforce
  then obtain res where push: "push_deletion_event tr cfg env eid True w = (res, w')" and "st \<noteq> Inr None"
    using assms(2,3) by (cases rule: propagate_cases) auto
  note cyc = run_cycle_cases [OF assms(6) st]
  have "announced eid w1"
    using delivered_announced [OF push assms(1,4,5)] cyc by (simp add: announced_def same_gate_def)
  then have "sent_data w1 w2" by (rule announced_path [OF assms(7) _ assms(8,1)])
  then show ?thesis using cyc push_deletion_world(1) [OF push] \<open>st \<noteq> Inr None\<close> by (simp add: sent_data_def)
qed

subsection \<open>Retried within half an hour\<close>

lemma exponential_delay_bounds:
  assumes "0 < base" and "base \<le> limit" and "limit < 2 ^ 64"
  shows "base \<le> exponential_delay n base limit" "exponential_delay n base limit \<le> limit"
proof -
  let ?p = "sat64 (2 ^ min (unat n) MAX_BACKOFF_EXPONENT)"
  have p: "1 \<le> ?p" by (simp add: sat64_def)
  then have "base \<le> base * ?p" using assms(1) by simp
  moreover have eq: "sat64 base = base" "sat64 limit = limit" using assms by (simp_all add: sat64_def)
  ultimately show "base \<le> exponential_delay n base limit"
    using assms by (simp add: exponential_delay_def Let_def sat64_def)
  show "exponential_delay n base limit \<le> limit"
    using assms eq by (simp add: exponential_delay_def Let_def)
qed

definition backoff_until :: "nat \<Rightarrow> SyncEngine \<Rightarrow> bool" where
  "backoff_until t e \<longleftrightarrow>
     (case bo_retry_after (erasure_backoff e) of None \<Rightarrow> True | Some r \<Rightarrow> r \<le> t + 1800000)"

lemma bump_backoff_until: "now \<le> t \<Longrightarrow> backoff_until t (bump_erasure_backoff eid now e)"
  using exponential_delay_bounds(2) [of 30000 1800000]
  by (simp add: bump_erasure_backoff_def backoff_until_def Let_def add_mono)

definition before :: "nat \<Rightarrow> 'tr engine_op \<Rightarrow> bool" where
  "before t op \<longleftrightarrow> (case op_env op of None \<Rightarrow> True | Some env \<Rightarrow> ce_ticks env \<le> t)"

lemma propagate_backoff:
  assumes "propagate_pending_erasure_status tr cfg env w = (st, w')" and "backoff_until t (engine w)" and "ce_ticks env \<le> t"
  shows "backoff_until t (engine w')"
  using assms(1)
proof (cases rule: propagate_cases)
  case idle
  then show ?thesis using assms(2) by simp
next
  case (pushed eid persist res)
  obtain r w1 where p: "do_push tr (deletion_changeset cfg env) w = (r, w1)" by fastforce
  have "engine w' = bump_erasure_backoff eid (ce_ticks env) (engine w1) \<or> erasure_backoff (engine w') = default_backoff"
    using pushed(3) p by (auto simp: push_deletion_event_def reset_erasure_backoff_def split: sum.splits if_splits)
  then show ?thesis
    using bump_backoff_until [OF assms(3)] by (auto simp: backoff_until_def default_backoff_def)
qed

lemma backoff_path:
  assumes "engine_path cfg ops w w'" and "backoff_until t (engine w)" and "list_all (before t) ops"
  shows "backoff_until t (engine w')"
  using assms
proof (induction rule: engine_path.induct)
  case (Cons op w w1 ops w2)
  have "backoff_until t (engine w1)"
    using Cons.hyps(1)
  proof (cases rule: engine_step.cases)
    case (cycle tr env out)
    obtain st w' where st: "propagate_pending_erasure_status tr cfg env w = (st, w')" by fastforce
    have "backoff_until t (engine w')"
      using propagate_backoff [OF st Cons.prems(1)] Cons.prems(2) cycle(1) by (simp add: before_def)
    then show ?thesis using run_cycle_cases [OF cycle(2) st] by (simp add: same_gate_def backoff_until_def)
  next
    case (announce tr env out)
    then show ?thesis
      using propagate_backoff Cons.prems by (auto simp: propagate_pending_erasure_def before_def split: prod.splits sum.splits)
  next
    case restart
    then show ?thesis by (simp add: engine_new_def backoff_until_def default_backoff_def)
  qed
  then show ?case using Cons by simp
qed

text \<open> An erasure no peer confirmed is never given up: whatever happened before, in cycles, scheduler
  calls and restarts up to some moment, a cycle half an hour later or more hands the deletion event of
  the due erasure to the transport again, before any other traffic and whether or not sync is still
  permitted; a failed attempt waits at least thirty seconds.\<close>

theorem erasure_retried_within_half_hour:
  assumes "engine w = engine_new cfg s" and "engine_path cfg ops w w1" and "list_all (before t) ops"
    and "t + 1800000 \<le> ce_ticks env" and "deletion_to_propagate env (engine w1) = Some (eid, persist)"
  shows "\<exists>out w2. run_cycle tr cfg env w1 = Some (out, w2) \<and> sent w2 = sent w1 @ [deletion_changeset cfg env] \<and>
    (bo_retry_after (erasure_backoff (engine w2)) = None \<or>
     (\<exists>r. bo_retry_after (erasure_backoff (engine w2)) = Some r \<and> ce_ticks env + 30000 \<le> r \<and> r \<le> ce_ticks env + 1800000))"
proof -
  have "backoff_until t (engine w1)"
    by (rule backoff_path [OF assms(2) _ assms(3)]) (simp add: assms(1) engine_new_def backoff_until_def default_backoff_def)
  then have due: "\<not> erasure_backoff_active eid (ce_ticks env) (engine w1)"
    using assms(4) by (auto simp: erasure_backoff_active_def backoff_until_def split: option.splits)
  obtain st w' where st: "propagate_pending_erasure_status tr cfg env w1 = (st, w')" by fastforce
  then obtain res where push: "push_deletion_event tr cfg env eid persist w1 = (res, w')" and "st \<noteq> Inr None"
    using assms(5) due by (cases rule: propagate_cases) auto
  then have "run_cycle tr cfg env w1 \<noteq> None"
    using st by (auto simp: run_cycle_def run_cycle_inner_def split: sum.split option.split)
  then obtain out w2 where cyc: "run_cycle tr cfg env w1 = Some (out, w2)" by auto
  note eff = run_cycle_cases [OF cyc st]
  obtain r w3 where p: "do_push tr (deletion_changeset cfg env) w1 = (r, w3)" by fastforce
  have "engine w' = bump_erasure_backoff eid (ce_ticks env) (engine w3) \<or> erasure_backoff (engine w') = default_backoff"
    using push p by (auto simp: push_deletion_event_def reset_erasure_backoff_def split: sum.splits if_splits)
  then show ?thesis
    using cyc eff push_deletion_world(1) [OF push] \<open>st \<noteq> Inr None\<close> exponential_delay_bounds [of 30000 1800000]
    by (auto simp: same_gate_def default_backoff_def bump_erasure_backoff_def Let_def)
qed

subsection \<open>Concrete cycles\<close>

definition script :: "nat \<Rightarrow> ChangeSet list transport" where
  "script peers =
     \<lparr>tr_pull = (\<lambda>_ t. case t of [] \<Rightarrow> (Inr None, []) | cs # rest \<Rightarrow> (Inr (Some cs), rest)),
      tr_push = (\<lambda>_ t. (Inr peers, t))\<rparr>"

definition sample_engine_cfg :: engine_cfg where
  "sample_engine_cfg =
     \<lparr>eng_device_id = ''A'', eng_device_name = ''a'', has_egress_sink = True, egress_destination = ''sync.lan'',
      has_erasure_store = True, eng_flags = no_flags\<rparr>"

definition sample_cycle :: "ConsentState \<Rightarrow> nat \<Rightarrow> cycle_env" where
  "sample_cycle st ticks =
     \<lparr>ce_cells = [False, False], ce_sync = sync_sample, ce_extract = sample_extract, ce_consent = Some st,
      ce_now = 7, ce_ticks = ticks, ce_fmt = (\<lambda>_. []), ce_erasure_requested = None, ce_anchor = Inr None,
      ce_record_fails = False, ce_ledger_fails = False, ce_size = (\<lambda>_. 1), ce_hlc_json = device_id,
      ce_rfc3339 = ''now''\<rparr>"

definition revoked_state :: ConsentState where
  "revoked_state =
     \<lparr>current_consent = None, pending_deletion = True, pending_erasure_at = Some 5, pending_erasure_nonce = Some ''n1''\<rparr>"

definition synced_state :: ConsentState where
  "synced_state =
     \<lparr>current_consent = Some (granted_record ''c1'' 5 (default_permissions\<lparr>cross_device_sync := True\<rparr>) 30),
      pending_deletion = False, pending_erasure_at = None, pending_erasure_nonce = None\<rparr>"

definition engine_sample :: "SyncRow list \<Rightarrow> ChangeSet list \<Rightarrow> ChangeSet list engine_world" where
  "engine_sample rows incoming =
     \<lparr>engine = engine_new sample_engine_cfg None,
      store = \<lparr>conn = set_table ''trigger_params_snapshots'' rows empty_db, gc_deletion_flag = 0, gc_erasing = 1\<rparr>,
      pushed_store = None, ledger = [], wire = incoming, sent = []\<rparr>"

lemmas engine_eval =
  script_def sample_engine_cfg_def sample_cycle_def engine_sample_def engine_new_def default_backoff_def
  deletion_to_propagate_def pending_erasure_id_def erasure_backoff_active_def propagate_pending_erasure_status_def

lemma sample_fields [simp]:
  "ce_ticks (sample_cycle st n) = n" "ce_consent (sample_cycle st n) = Some st" "ce_now (sample_cycle st n) = 7"
  "ce_record_fails (sample_cycle st n) = False" "ce_erasure_requested (sample_cycle st n) = None"
  "sent (engine_sample rs cs) = []" "engine (engine_sample rs cs) = engine_new sample_engine_cfg None"
  "has_erasure_store sample_engine_cfg" "tr_push (script n) c t = (Inr n, t)"
  by (simp_all add: sample_cycle_def engine_sample_def sample_engine_cfg_def script_def)

lemma revoked_denied: "\<not> cross_device_sync_permitted revoked_state t"
  by (simp add: cross_device_sync_permitted_def effective_permissions_def check_consent_locked_at_def
      revoked_state_def default_permissions_def)

lemma revoked_due:
  "deletion_to_propagate (sample_cycle revoked_state n) (engine_new sample_engine_cfg None) = Some (''n1'', True)"
  "\<not> erasure_backoff_active i n (engine_new sample_engine_cfg None)"
  "quiet ''n1'' (Announce tr (sample_cycle revoked_state n))"
  by (simp_all add: engine_eval revoked_state_def quiet_def)

theorem sync_cycle_returns_witness:
  "\<exists>out. run_cycle \<lparr>tr_pull = (\<lambda>_ t. (Inr (Some (empty_changes ''B'')), t)), tr_push = (\<lambda>_ t. (Inr 1, t))\<rparr>
     sample_engine_cfg (sample_cycle synced_state 0) (engine_sample [] []) = Some out"
  by (rule sync_cycle_returns [of "{''B''}"]) (auto simp: empty_changes_def)

theorem no_consent_no_data_witness:
  "\<exists>out w. run_cycle (script 1) sample_engine_cfg (sample_cycle revoked_state 0)
       (engine_sample [snapshot_row 0 ''p1'' 4 ''A''] [empty_changes ''B'']) = Some (out, w) \<and>
     store w = store (engine_sample [snapshot_row 0 ''p1'' 4 ''A''] [empty_changes ''B''])"
  using no_consent_no_data [of "sample_cycle revoked_state 0" revoked_state "script 1" sample_engine_cfg
      "engine_sample [snapshot_row 0 ''p1'' 4 ''A''] [empty_changes ''B'']"] revoked_denied
  by auto

theorem erasure_announced_exactly_once_witness:
  "let env = sample_cycle revoked_state 0;
       w1 = snd (the (run_cycle (script 1) sample_engine_cfg env (engine_sample [] [])))
   in sent w1 = [deletion_changeset sample_engine_cfg env] \<and>
      list_all (\<lambda>c. kind c = Data) (drop 1 (sent (snd (propagate_pending_erasure (script 1) sample_engine_cfg env w1))))"
proof -
  let ?env = "sample_cycle revoked_state 0" and ?w = "engine_sample [] []"
  let ?p = "the (run_cycle (script 1) sample_engine_cfg ?env ?w)"
  let ?w2 = "snd (propagate_pending_erasure (script 1) sample_engine_cfg ?env (snd ?p))"
  obtain out w1 where run: "run_cycle (script 1) sample_engine_cfg ?env ?w = Some (out, w1)"
    using denied_cycle_returns [of ?env revoked_state "script 1" sample_engine_cfg ?w] revoked_denied by auto
  have path: "engine_path sample_engine_cfg [Announce (script 1) ?env] w1 ?w2"
    using run by (simp add: engine_path_simps) (metis announce prod.collapse)
  have once: "sent w1 = sent ?w @ [deletion_changeset sample_engine_cfg ?env] \<and>
      (\<exists>ds. sent ?w2 = sent w1 @ ds \<and> list_all (\<lambda>c. kind c = Data) ds)"
    by (rule erasure_announced_exactly_once [where eid = "''n1''" and n = 0, OF _ _ _ _ _ run path])
      (simp_all add: revoked_due)
  then show ?thesis using run by (auto simp: Let_def)
qed

theorem erasure_retried_within_half_hour_witness:
  "\<exists>out w. run_cycle (script 0) sample_engine_cfg (sample_cycle revoked_state 1800000) (engine_sample [] []) = Some (out, w) \<and>
     sent w = [deletion_changeset sample_engine_cfg (sample_cycle revoked_state 1800000)]"
  using erasure_retried_within_half_hour [OF _ engine_path.Nil, of "engine_sample [] []" sample_engine_cfg None 0
      "sample_cycle revoked_state 1800000" "''n1''" True "script 0"]
  by (auto simp: revoked_due)

subsection \<open>Rows behind the push watermark\<close>

text \<open>
  A confirmed push moves the watermark to the greatest stamp in the whole database, the rows merged
  from peers included, and the merger accepts stamps up to an hour ahead of the local clock. A row
  this device writes afterwards with a lower stamp is not in any later push of the same process.
\<close>

lemma push_moves_watermark:
  assumes "get_local_changes_since (ce_cells env) (ce_extract env) (eng_flags cfg) (eng_device_id cfg)
      (eng_device_name cfg) (last_push_watermark (engine w)) (store w) = (cs, g)"
    and "\<not> changeset_is_empty cs" and "fst (tr_push tr cs (wire w)) = Inr (Suc n)"
    and "push_phase tr cfg env m ex w = (out, w1)"
  shows "last_push_watermark (engine w1) = compute_max_hlc (conn g)"
proof -
  have "watermark cs = compute_max_hlc (conn g)"
    using assms(1) by (auto simp: get_local_changes_since_def extract_with_scope_def extract_changeset_blocking_def Let_def)
  then show ?thesis
    using assms by (cases "tr_push tr cs (wire w)") (auto simp: push_phase_def do_push_def Let_def)
qed

lemma row_json_hlc:
  assumes "desc \<in> set SYNC_TABLES" and "row_json x cfg desc r = row_json x cfg desc q"
  shows "row_hlc r = row_hlc q"
  using extract_then_hlc [OF assms(1), of x cfg r] extract_then_hlc [OF assms(1), of x cfg q] assms(2) by simp

theorem push_watermark_hides_rows:
  assumes first: "get_local_changes_since (ce_cells env) (ce_extract env) (eng_flags cfg) (eng_device_id cfg)
      (eng_device_name cfg) (last_push_watermark (engine w)) (store w) = (cs, g)"
    and "\<not> changeset_is_empty cs" and "fst (tr_push tr cs (wire w)) = Inr (Suc n)"
    and "push_phase tr cfg env m ex w = (out, w1)"
    and peer: "t \<in> set ALL_TABLE_NAMES" "p \<in> set (synced (conn g) t)"
    and late: "row_hlc r \<le> row_hlc p" "desc \<in> set SYNC_TABLES"
    and "last_push_watermark (engine w2) = last_push_watermark (engine w1)"
    and later: "get_local_changes_since h x f device name (last_push_watermark (engine w2)) (store w2) = (cs2, g2)"
  shows "(desc, row_json x f desc r) \<notin> set (changeset_rows cs2)"
proof
  assume "(desc, row_json x f desc r) \<in> set (changeset_rows cs2)"
  moreover have "cs2 = extract_changeset_blocking x f device name (last_push_watermark (engine w2)) True (conn g2)"
    using later by (auto simp: get_local_changes_since_def extract_with_scope_def Let_def)
  ultimately obtain q where "row_json x f desc r = row_json x f desc q" "last_push_watermark (engine w2) < row_hlc q"
    using changeset_row_iff [OF late(2)] by blast
  then have "compute_max_hlc (conn g) < row_hlc r"
    using push_moves_watermark [OF assms(1-4)] assms(9) row_json_hlc [OF late(2)] by metis
  then show False using stored_below_watermark(1) [OF peer] late(1) by (meson leD order.trans)
qed

end
