(* ===== verification/Spec2Isabelle.thy ===== *)
theory Spec2Isabelle
  imports Audit_Evidence Permission_Globs Gate_Properties Gui_Properties Codex_Properties Config_Properties
    Spool_Properties
    Hlc_Clock Circuit_Breaker Consent_Commands Task_Commands Suggestion_Stores Capture_Gate Sync_Limits Sync_Policy
begin

text \<open>
  Verification of the privacy, sync, task, automation, configuration and upload core of the maekon
  desktop client.

  The program captures screen and audio activity, keeps it in one SQLite database and a tree of
  frame files, derives tasks and suggestions from it, synchronises six tables between the devices
  of a user and acts on the desktop. What makes it correct is that nothing is captured, kept or sent
  against the user's consent, that an erasure is complete, durable and reaches the other devices, that
  devices converge, that task commands are safe to repeat, and that the automation does nothing without
  authority and leaves evidence of what it did. Each theory models one part, with the names of the code.

  \<^descr> \<open>Prelude\<close>: machine types, list and word facts, shared atomic cells, and the contracts shared by
    components (\<open>invariant_machine\<close>, \<open>guarded_machine\<close>, \<open>bounded_store\<close>, \<open>strict_clock\<close>).

  \<^descr> \<open>Hlc\<close>, \<open>Hlc_Clock\<close>: hybrid logical timestamps (\<open>maekon-core/src/sync/hlc.rs\<close>) at their machine
    width and the persistent clock (\<open>maekon-storage/src/sqlite/hlc_clock.rs\<close>). Stamps of a device rise,
    receiving respects causality and the drift bound, and a seeded clock is above everything stored.

  \<^descr> \<open>Circuit_Breaker\<close> (\<open>maekon-core/src/circuit_breaker.rs\<close>): each atomic access is a step; a retry slot
    is granted once in every interleaving, and an open breaker retries in time.

  \<^descr> \<open>Consent\<close>, \<open>Consent_Commands\<close> (\<open>maekon-core/src/consent.rs\<close>, \<open>ports/consent_manager.rs\<close>,
    \<open>src-tauri/src/commands/consent.rs\<close>): the consent authority with every failing system call, its file,
    the erasure identity and the commands with their audit log. The permissions in force refine the
    promise of the last persisted decision over all histories with restarts and crashes.

  \<^descr> \<open>Guarded_Connection\<close> (\<open>sqlite/guarded_connection.rs\<close>, \<open>sqlite/mod.rs\<close>, \<open>frame_storage/\<close>): the write
    funnel and the frame saves behind the erasure flag and the erase window, as interpretations of the
    contract \<open>write_barrier\<close>.

  \<^descr> \<open>Erasure\<close> (\<open>sqlite/maintenance/retention.rs\<close>, \<open>commands/consent.rs\<close>): the wipe and the orchestrator
    \<open>erase_all_local_data\<close> as a program counter, interleaved with writers, frame saves and re-grants.
    Eight steps are enough for every path; no row survives, an interrupted run is resumed.

  \<^descr> \<open>Task_Model\<close>, \<open>Task_Store\<close>, \<open>Task_Invariant\<close>, \<open>Task_Properties\<close>, \<open>Task_Lifecycle\<close>, \<open>Task_Commands\<close>
    (\<open>models/task.rs\<close>, \<open>ports/task_store.rs\<close>, \<open>sqlite/task_store_impl.rs\<close>, \<open>commands/task.rs\<close>): candidates,
    to-dos, receipts and blockers with the schema constraints as error branches. Reachable stores are
    well formed, commands are idempotent, transitions legal, ingestion round-trips.

  \<^descr> \<open>Suggestion_Queue\<close>, \<open>Suggestion_Stores\<close> (\<open>maekon-suggestion/src/\<close>: \<open>queue.rs\<close>, \<open>deferred.rs\<close>,
    \<open>feedback_retry.rs\<close>, \<open>history.rs\<close>): the bounded containers, as interpretations of \<open>bounded_store\<close>.

  \<^descr> \<open>Tracking_Schedule\<close>, \<open>Capture_Gate\<close> (\<open>config/sections/tracking_schedule/\<close>, \<open>capture_gate.rs\<close>): the
    gates for screen and microphone refine a weekly schedule; notices are debounced, cadence bounded.

  \<^descr> \<open>Sync_Descriptor\<close>, \<open>Sync_Merger\<close> (\<open>models/sync.rs\<close>, \<open>sync_table_descriptor.rs\<close>, \<open>sync_merger.rs\<close>): the six
    descriptors, the row codec, and the merge of a changeset with tombstones, both merge modes, the
    \<open>NOT NULL\<close> and foreign-key constraints, and deletion events. \<open>Sync_Safety\<close>: erased rows stay erased,
    peers cannot remove local rows, deletion events are exact and durable. \<open>Sync_Convergence\<close>: the merge
    of regimes is an interpretation of \<open>lww_register\<close>, so devices converge whatever the order, batching
    and repetition. \<open>Sync_Limits\<close>: changesets that cannot be merged and erased rows that can return.

  \<^descr> \<open>Sync_Extractor\<close>, \<open>Sync_Replication\<close> (\<open>sync_extractor.rs\<close>): what a push contains, data minimisation,
    and the round trip of a row from device to device.

  \<^descr> \<open>Sync_Engine\<close>, \<open>Sync_Policy\<close> (\<open>maekon-core/src/sync_engine.rs\<close>, \<open>backoff.rs\<close>): the cycle. The pull loop
    is a \<open>partial_function\<close>, and that it returns is proved; without consent only a content-free deletion
    event leaves; an erasure is announced until confirmed, then never again; retries are bounded.

  \<^descr> \<open>Audit_Chain\<close>, \<open>Audit_Evidence\<close> (\<open>maekon-storage/src/\<close>: \<open>audit_chain.rs\<close>, \<open>sqlite/mod.rs\<close>,
    \<open>sqlite/durable_audit.rs\<close>, \<open>edge_intelligence/retention.rs\<close>): the hash chain of the audit log with its
    verifier and retention. The stored chain always verifies, the log is append-only, and a verified
    chain with the written tip holds the written records unless SHA-256 collides.

  \<^descr> \<open>Policy_Token\<close>, \<open>Policy_Client\<close>, \<open>Policy_Properties\<close> (\<open>maekon-automation/src/policy/\<close>,
    \<open>src-tauri/src/codex_approval_policy.rs\<close>): signed tokens and the policies with their file. An external
    command needs an authentic token, a token is accepted once, an issued token is accepted, a revoked
    policy stays revoked.

  \<^descr> \<open>Permission_Profile\<close>, \<open>Permission_Globs\<close> (\<open>maekon-core/src/config/sections/privacy.rs\<close>,
    \<open>net_policy.rs\<close>): path rules, globs, network and socket rules. The matcher is compared with the meaning
    of a glob, and the default globs deny the secret files.

  \<^descr> \<open>Audit_Logger\<close> (\<open>maekon-automation/src/audit/\<close>): the audit buffer with its levels and the bounded
    channel to the database, an interpretation of \<open>bounded_store\<close> that loses nothing it accepted.

  \<^descr> \<open>Automation_Gate\<close>, \<open>Gate_Properties\<close> (\<open>maekon-automation/src/\<close>: \<open>resolver.rs\<close>, \<open>action_dispatcher.rs\<close>,
    \<open>controller/gate.rs\<close>): the gate every command passes, over the policies, the sandbox and the logger.
    Effects are authorised, contained and, at the strict level, recorded first; outcomes are audited.

  \<^descr> \<open>Gui_Session\<close>, \<open>Gui_Properties\<close> (\<open>maekon-automation/src/gui_interaction/\<close>): sessions, signed tickets and
    executions, as an interleaving of the locked sections of all handlers. A ticket buys at most one
    execution, of what was confirmed, and a confirmed ticket does execute.

  \<^descr> \<open>Codex_Approval\<close>, \<open>Codex_Properties\<close> (\<open>maekon-core/src/codex_approval.rs\<close>, \<open>ports/codex_approval.rs\<close>,
    \<open>codex_ui_approval_hook.rs\<close>, \<open>commands/ai_session.rs\<close>): the approval of what a coding agent wants to do.
    Approvals have authority and are audited, the removal of the root is never approved within the depth
    of the screen, three wrappers, and an answer reaches its question.

  \<^descr> \<open>Ai_Provider\<close>, \<open>App_Settings\<close>, \<open>Managed_Policy\<close>, \<open>Managed_Properties\<close>
    (\<open>maekon-core/src/config/\<close>, \<open>provider_surface.rs\<close>, \<open>ai_model_lifecycle_policy/\<close>): the sections of the
    configuration with their checks and clamps, and the policy of an administrator, as lists of \<open>clamp\<close>s.
    A clamped configuration obeys the policy, and violations are exact.

  \<^descr> \<open>Config_Manager\<close>, \<open>Config_Properties\<close> (\<open>maekon-core/src/config_manager/\<close>): start-up, writers and reload
    over a file that others change. In every history the running configuration obeys policy and bounds;
    writes are all or nothing and survive a restart; a start fails closed.

  \<^descr> \<open>Pii_Masking\<close>, \<open>Pii_Address\<close>, \<open>Pii_Properties\<close> (\<open>maekon-vision/src/privacy/\<close>,
    \<open>maekon-core/src/secret_redaction.rs\<close>, \<open>path_redaction.rs\<close>): the maskers for personal data as matchers under
    one scanner, composed as the levels compose them. No email address passes the filter; each masker
    is an interpretation of \<open>address_safe\<close>, so none of them builds one again.

  \<^descr> \<open>Capture_Exclusion\<close>, \<open>Upload_Events\<close> (\<open>privacy/detection.rs\<close>, \<open>models/event.rs\<close>, \<open>sqlite/events.rs\<close>,
    \<open>src-tauri/src/scheduler/egress_policy.rs\<close>): which windows are excluded, the table of events, and what
    of an event may leave the device.

  \<^descr> \<open>Http_Breaker\<close>, \<open>Batch_Uploader\<close>, \<open>Upload_Ledger\<close> (\<open>maekon-http-core/src/circuit_breaker.rs\<close>,
    \<open>maekon-network/src/batch_uploader.rs\<close>): the breaker with its probe budget and the bounded upload queue.
    The breaker never sticks; every event handed over is queued, under way, acknowledged or counted as
    dropped, in every interleaving of producers with the answers of the server.

  \<^descr> \<open>Upload_Spool\<close>, \<open>Spool_Properties\<close> (\<open>src-tauri/src/scheduler/loops/network.rs\<close>, \<open>events.rs\<close>,
    \<open>monitor.rs\<close>): the sync task as a program counter over the table and the queue, interleaved with the
    producers, restarts and erasures. Only filtered events leave, marks are earned, and a restart puts
    the unsent events back, within three steps more than there are events.

  Code outside the repository is a parameter: the JSON codecs, SHA-256, HMAC and base64, semver, the
  catalogue files, chrono's formats and the time zone database, random identifiers, the hex codec,
  SQLite's rendering of doubles, the transport, the input driver, the platform sandbox, the focus probe
  and the overlay. What is needed of it is a named hypothesis (\<open>json_round_trip\<close>, \<open>typed_row\<close>), with a concrete instance in
  the witness. SQL statements are functions on lists of records; other I/O errors than the modelled ones and
  panics are not represented. Floating-point scores are left out, floating-point
  settings are rationals. Mutex-protected sections are single
  steps; where the code releases a lock between steps, the steps are separate.

  Not modelled: the adapters of the operating system and of networks (capture, audio, vision, HTTP, TLS,
  gRPC, discovery, input drivers, platform sandboxes), the intent and workflow controllers, prompt and
  language-model code, statistics in floating point (clustering, embeddings, scores), the web dashboard
  and the Tauri shell, the updater, and the vendored patches; their logic is I/O, glue or numerics
  outside the reach of these models.
\<close>

subsection \<open>A revocation reaches every component\<close>

lemma revoked_world:
  assumes "coherent from_json w" and "revoke_consent to_json fault now fresh w = (Inr (), w')"
  shows "load_cell (world_cells w') (cm_deletion_flag (manager w'))"
    and "effective_permissions (state (manager w')) t = default_permissions"
  using assms
  by (auto simp: consent_defs effective_permissions_def check_consent_locked_at_def
      split: option.splits save_fault.splits)

text \<open> C1. When a revocation reports success, the whole program stops at once, at whatever instant and
  under whatever configuration: the screen and microphone gates are closed, sync is not permitted,
  every task command is refused, every changeset a peer sends is swallowed and every frame save is
  skipped, with the databases and the frame files as they were. The stores share the cell of the
  consent manager's erasure flag.\<close>

theorem revocation_stops_the_program:
  assumes "coherent from_json w" and "revoke_consent to_json fault now fresh w = (Inr (), w')"
    and "gc_deletion_flag tasks = cm_deletion_flag (manager w')"
    and "gc_deletion_flag synced_db = cm_deletion_flag (manager w')"
    and "fs_deletion_flag frame_files = cm_deletion_flag (manager w')"
  shows "\<not> capture_permitted_now_with_power cfg (permissions_snapshot (Some (state (manager w'))) t) paused saver clock \<and>
    \<not> audio_capture_permitted_now_with_power cfg (permissions_snapshot (Some (state (manager w'))) t) paused saver clock \<and>
    \<not> may_sync_cross_device (Some (state (manager w'))) t \<and>
    task_command (world_cells w') io_fails body tasks = (Inl skipped_err, tasks) \<and>
    apply_changes (world_cells w') env local cs synced_db =
      (Inr (sync_result_default\<lparr>new_watermark := watermark cs\<rparr>), synced_db) \<and>
    save_frame (world_cells w') free_mb out frame_files = (Inr None, frame_files)"
proof -
  note flag = revoked_world(1) [OF assms(1,2)] and none = revoked_world(2) [OF assms(1,2)]
  have "permissions_snapshot (Some (state (manager w'))) t = default_permissions"
    by (simp add: permissions_snapshot_def none)
  moreover have "write_blocked (world_cells w') tasks" using flag assms(3) by (simp add: write_blocked_def)
  moreover have "apply_changes (world_cells w') env local cs synced_db =
      (Inr (sync_result_default\<lparr>new_watermark := watermark cs\<rparr>), synced_db)"
    using flag assms(4) by (simp add: apply_changes_def guard_run_def write_lock_def)
  ultimately show ?thesis
    using flag assms(5)
    by (simp add: capture_permitted_now_with_power_def capture_permitted_now_def
        audio_capture_permitted_now_with_power_def audio_capture_permitted_now_def
        capture_permitted_now_inner_def may_sync_cross_device_def default_permissions_def
        task_command_blocked save_frame_def)
qed

theorem revocation_stops_the_program_witness:
  "let w = snd (grant_consent Some NoFault ''c1'' 5 (default_permissions\<lparr>screen_capture := True\<rparr>) 30
             (consent_new id [] \<lparr>consent_file = None, tmp_file = None\<rparr>));
       w' = snd (revoke_consent Some NoFault 9 ''n1'' w);
       noon = \<lparr>weekday = Mon, time_of_day = 12 * hour\<rparr>;
       store = \<lparr>conn = empty_db, gc_deletion_flag = 0, gc_erasing = 1\<rparr>
   in capture_permitted_now_with_power default_config
        (permissions_snapshot (Some (state (manager w))) 7) False False noon \<and>
      \<not> capture_permitted_now_with_power default_config
        (permissions_snapshot (Some (state (manager w'))) 9) False False noon \<and>
      snd (apply_changes (world_cells w') sync_sample ''A'' (empty_changes ''B'') store) = store"
proof -
  define w where "w = snd (grant_consent Some NoFault ''c1'' 5 (default_permissions\<lparr>screen_capture := True\<rparr>) 30
      (consent_new id [] \<lparr>consent_file = None :: ConsentRecord option option, tmp_file = None\<rparr>))"
  define w' where "w' = snd (revoke_consent Some NoFault 9 ''n1'' w)"
  have coh: "coherent id w"
    using consent_step_coherent [of Some id, OF _ consent_new_coherent,
        of "[]" "\<lparr>consent_file = None, tmp_file = None\<rparr>" "Grant NoFault ''c1'' 5 (default_permissions\<lparr>screen_capture := True\<rparr>) 30"]
    by (simp add: w_def json_round_trip_def)
  have rv: "revoke_consent Some NoFault 9 ''n1'' w = (Inr (), w')" and flag: "cm_deletion_flag (manager w') = 0"
    by (simp_all add: w'_def w_def consent_defs alloc_cell_def)
  have "capture_permitted_now_with_power default_config
      (permissions_snapshot (Some (state (manager w))) 7) False False \<lparr>weekday = Mon, time_of_day = 12 * hour\<rparr>"
    by (simp add: w_def consent_defs alloc_cell_def permissions_snapshot_def effective_permissions_def
        check_consent_locked_at_def capture_permitted_now_with_power_def capture_permitted_now_def
        capture_permitted_now_inner_def default_config_def default_schedule_def default_tracking_schedule_def
        should_run_now_with_time_def tracking_schedule_allows_capture_def granted_record_def
        CURRENT_POLICY_VERSION_def)
  moreover have "\<not> capture_permitted_now_with_power default_config
        (permissions_snapshot (Some (state (manager w'))) 9) False False \<lparr>weekday = Mon, time_of_day = 12 * hour\<rparr> \<and>
      apply_changes (world_cells w') sync_sample ''A'' (empty_changes ''B'')
        \<lparr>conn = empty_db, gc_deletion_flag = 0, gc_erasing = 1\<rparr> =
      (Inr (sync_result_default\<lparr>new_watermark := watermark (empty_changes ''B'')\<rparr>),
        \<lparr>conn = empty_db, gc_deletion_flag = 0, gc_erasing = 1\<rparr>)"
    using revocation_stops_the_program [OF coh rv,
        where tasks = "\<lparr>conn = undefined, gc_deletion_flag = 0, gc_erasing = 1\<rparr>"
          and synced_db = "\<lparr>conn = empty_db, gc_deletion_flag = 0, gc_erasing = 1\<rparr>"
          and frame_files = "\<lparr>frame_dirs = [], fs_deletion_flag = 0, fs_erasing = 1\<rparr>"] flag
    by (metis GuardedConnection.select_convs(2) FrameFileStorage.select_convs(2))
  ultimately show ?thesis
    unfolding Let_def w_def [symmetric] w'_def [symmetric] by simp
qed

end
